(* ===== verification/Tx_Prelude.thy ===== *)
theory Tx_Prelude
  imports Complex_Main "HOL-Library.Sublist"
begin

text \<open>
  The prelude of the development.  It holds what every component shares and what comes from the
  language and its standard library rather than from the program:

  \<^item> a database transaction as a function from the state to an error or to a result with the new
    state (\<open>WriteTx\<close>: a failing body has no new state, which is the rollback);
  \<^item> rows in tables (lists), with \<open>UPDATE ... WHERE\<close>, \<open>SELECT ... WHERE\<close> and row counts;
  \<^item> \<open>int64\<close> arithmetic with its wrap-around, \<open>time.Time\<close> as nanoseconds since Go's zero
    time, saturating \<open>Time.Sub\<close>;
  \<^item> decimal rendering and the substring tests of \<open>strings\<close>.

  The named collection \<open>tx_rel_intros\<close> carries the rules by which a relation between the state
  before and after a transaction is established along the shape of its body.
\<close>

named_theorems tx_simps \<comment> \<open>equations that run a transaction\<close>
named_theorems tx_rel_intros \<comment> \<open>rules that lift a state relation over a transaction\<close>

section \<open>Transactions\<close>

type_synonym ('e, 's, 'a) tx = "'s \<Rightarrow> 'e + ('a \<times> 's)"

definition tx_return :: "'a \<Rightarrow> ('e, 's, 'a) tx" where
  "tx_return x = (\<lambda>s. Inr (x, s))"

definition tx_fail :: "'e \<Rightarrow> ('e, 's, 'a) tx" where
  "tx_fail e = (\<lambda>s. Inl e)"

definition tx_bind :: "('e, 's, 'a) tx \<Rightarrow> ('a \<Rightarrow> ('e, 's, 'b) tx) \<Rightarrow> ('e, 's, 'b) tx" where
  "tx_bind m f = (\<lambda>s. case m s of Inl e \<Rightarrow> Inl e | Inr (x, t) \<Rightarrow> f x t)"

definition tx_guard :: "bool \<Rightarrow> 'e \<Rightarrow> ('e, 's, unit) tx" where
  "tx_guard b e = (\<lambda>s. if b then Inr ((), s) else Inl e)"

definition tx_read :: "('s \<Rightarrow> 'a) \<Rightarrow> ('e, 's, 'a) tx" where
  "tx_read f = (\<lambda>s. Inr (f s, s))"

definition tx_modify :: "('s \<Rightarrow> 's) \<Rightarrow> ('e, 's, unit) tx" where
  "tx_modify f = (\<lambda>s. Inr ((), f s))"

text \<open>A pure fallible computation (a settings read, a parse) inside a transaction.\<close>

definition tx_lift :: "'e + 'a \<Rightarrow> ('e, 's, 'a) tx" where
  "tx_lift r = (\<lambda>s. case r of Inl e \<Rightarrow> Inl e | Inr x \<Rightarrow> Inr (x, s))"

text \<open>A read that fails when its row is missing (\<open>sql.ErrNoRows\<close> mapped to an error).\<close>

definition tx_some :: "('s \<Rightarrow> 'a option) \<Rightarrow> 'e \<Rightarrow> ('e, 's, 'a) tx" where
  "tx_some f e = (\<lambda>s. case f s of None \<Rightarrow> Inl e | Some x \<Rightarrow> Inr (x, s))"

fun tx_each :: "('a \<Rightarrow> ('e, 's, unit) tx) \<Rightarrow> 'a list \<Rightarrow> ('e, 's, unit) tx" where
  "tx_each f [] = tx_return ()"
| "tx_each f (x # xs) = tx_bind (f x) (\<lambda>_. tx_each f xs)"

text \<open>
  \<open>storage.DB.WriteTx\<close>: the body's state is kept on success and dropped on error.  A handler that
  runs several transactions in a row is a function of this shape.
\<close>

definition write_tx :: "('e, 's, 'a) tx \<Rightarrow> 's \<Rightarrow> ('e + 'a) \<times> 's" where
  "write_tx m s = (case m s of Inl e \<Rightarrow> (Inl e, s) | Inr (x, t) \<Rightarrow> (Inr x, t))"

subsection \<open>Running a transaction\<close>

lemma tx_bind_Inr [tx_simps]:
  "tx_bind m f s = Inr (y, t) \<longleftrightarrow> (\<exists>x u. m s = Inr (x, u) \<and> f x u = Inr (y, t))"
  by (auto simp: tx_bind_def split: sum.splits)

lemma tx_bind_Inl [tx_simps]:
  "tx_bind m f s = Inl e \<longleftrightarrow> m s = Inl e \<or> (\<exists>x u. m s = Inr (x, u) \<and> f x u = Inl e)"
  by (auto simp: tx_bind_def split: sum.splits)

lemma tx_return_Inr [tx_simps]: "tx_return x s = Inr (y, t) \<longleftrightarrow> y = x \<and> t = s"
  by (auto simp: tx_return_def)

lemma tx_return_Inl [tx_simps]: "tx_return x s \<noteq> Inl e"
  by (simp add: tx_return_def)

lemma tx_fail_Inr [tx_simps]: "tx_fail e s \<noteq> Inr r"
  by (simp add: tx_fail_def)

lemma tx_fail_Inl [tx_simps]: "tx_fail e s = Inl e' \<longleftrightarrow> e' = e"
  by (auto simp: tx_fail_def)

lemma tx_guard_Inr [tx_simps]: "tx_guard b e s = Inr (y, t) \<longleftrightarrow> b \<and> t = s"
  by (auto simp: tx_guard_def)

lemma tx_guard_Inl [tx_simps]: "tx_guard b e s = Inl e' \<longleftrightarrow> \<not> b \<and> e' = e"
  by (auto simp: tx_guard_def)

lemma tx_read_Inr [tx_simps]: "tx_read f s = Inr (y, t) \<longleftrightarrow> y = f s \<and> t = s"
  by (auto simp: tx_read_def)

lemma tx_read_Inl [tx_simps]: "tx_read f s \<noteq> Inl e"
  by (simp add: tx_read_def)

lemma tx_modify_Inr [tx_simps]: "tx_modify f s = Inr (y, t) \<longleftrightarrow> t = f s"
  by (auto simp: tx_modify_def)

lemma tx_modify_Inl [tx_simps]: "tx_modify f s \<noteq> Inl e"
  by (simp add: tx_modify_def)

lemma tx_lift_Inr [tx_simps]: "tx_lift r s = Inr (y, t) \<longleftrightarrow> r = Inr y \<and> t = s"
  by (auto simp: tx_lift_def split: sum.splits)

lemma tx_lift_Inl [tx_simps]: "tx_lift r s = Inl e \<longleftrightarrow> r = Inl e"
  by (auto simp: tx_lift_def split: sum.splits)

lemma tx_some_Inr [tx_simps]: "tx_some f e s = Inr (y, t) \<longleftrightarrow> f s = Some y \<and> t = s"
  by (auto simp: tx_some_def split: option.splits)

lemma tx_some_Inl [tx_simps]: "tx_some f e s = Inl e' \<longleftrightarrow> f s = None \<and> e' = e"
  by (auto simp: tx_some_def split: option.splits)

lemma write_tx_Inl [simp]: "m s = Inl e \<Longrightarrow> write_tx m s = (Inl e, s)"
  by (simp add: write_tx_def)

lemma write_tx_Inr [simp]: "m s = Inr (x, t) \<Longrightarrow> write_tx m s = (Inr x, t)"
  by (simp add: write_tx_def)

lemma write_tx_cases:
  obtains (failed) e where "m s = Inl e" "write_tx m s = (Inl e, s)"
  | (committed) x t where "m s = Inr (x, t)" "write_tx m s = (Inr x, t)"
  by (cases "m s") auto

subsection \<open>Relations a transaction respects\<close>

definition tx_rel :: "('s \<Rightarrow> 's \<Rightarrow> bool) \<Rightarrow> ('e, 's, 'a) tx \<Rightarrow> bool" where
  "tx_rel R m \<longleftrightarrow> (\<forall>s x t. m s = Inr (x, t) \<longrightarrow> R s t)"

lemma tx_relI: "(\<And>s x t. m s = Inr (x, t) \<Longrightarrow> R s t) \<Longrightarrow> tx_rel R m"
  by (simp add: tx_rel_def)

lemma tx_relD: "tx_rel R m \<Longrightarrow> m s = Inr (x, t) \<Longrightarrow> R s t"
  by (simp add: tx_rel_def)

lemma tx_rel_mono: "tx_rel R m \<Longrightarrow> (\<And>s t. R s t \<Longrightarrow> Q s t) \<Longrightarrow> tx_rel Q m"
  by (auto simp: tx_rel_def)

text \<open>
  The contract of a frame: a reflexive and transitive relation between states (the log grew, the
  runs kept their identity, ...).  Inside it, the relation is lifted along the combinators.
\<close>

locale tx_frame =
  fixes R :: "'s \<Rightarrow> 's \<Rightarrow> bool"
  assumes frame_refl: "R s s"
    and frame_trans: "R s t \<Longrightarrow> R t u \<Longrightarrow> R s u"
begin

lemma rel_return: "tx_rel R (tx_return x)"
  by (auto simp: tx_rel_def tx_simps frame_refl)

lemma rel_fail: "tx_rel R (tx_fail e)"
  by (auto simp: tx_rel_def tx_simps)

lemma rel_guard: "tx_rel R (tx_guard b e)"
  by (auto simp: tx_rel_def tx_simps frame_refl)

lemma rel_read: "tx_rel R (tx_read f)"
  by (auto simp: tx_rel_def tx_simps frame_refl)

lemma rel_lift: "tx_rel R (tx_lift r)"
  by (auto simp: tx_rel_def tx_simps frame_refl)

lemma rel_some: "tx_rel R (tx_some f e)"
  by (auto simp: tx_rel_def tx_simps frame_refl)

lemma rel_bind:
  "tx_rel R m \<Longrightarrow> (\<And>x. tx_rel R (f x)) \<Longrightarrow> tx_rel R (tx_bind m f)"
  by (auto simp: tx_rel_def tx_simps) (blast intro: frame_trans)

lemma rel_modify: "(\<And>s. R s (f s)) \<Longrightarrow> tx_rel R (tx_modify f)"
  by (auto simp: tx_rel_def tx_simps)

lemma rel_each: "(\<And>x. x \<in> set xs \<Longrightarrow> tx_rel R (f x)) \<Longrightarrow> tx_rel R (tx_each f xs)"
  by (induction xs) (auto intro: rel_return rel_bind)

lemma rel_if: "(b \<Longrightarrow> tx_rel R m) \<Longrightarrow> (\<not> b \<Longrightarrow> tx_rel R n) \<Longrightarrow> tx_rel R (if b then m else n)"
  by simp

lemma rel_option:
  "(x = None \<Longrightarrow> tx_rel R m) \<Longrightarrow> (\<And>a. x = Some a \<Longrightarrow> tx_rel R (f a)) \<Longrightarrow>
   tx_rel R (case x of None \<Rightarrow> m | Some a \<Rightarrow> f a)"
  by (cases x) auto

lemma rel_write: "tx_rel R m \<Longrightarrow> R s (snd (write_tx m s))"
  by (cases "m s") (auto simp: tx_rel_def frame_refl)

lemmas frame_rules = rel_return rel_fail rel_guard rel_read rel_lift rel_some rel_bind
  rel_each rel_if rel_option

end

section \<open>Tables\<close>

text \<open>
  A table is the list of its rows in rowid order.  \<open>UPDATE t SET f WHERE p\<close>, the affected-row
  count, and \<open>SELECT ... WHERE p LIMIT 1\<close>.
\<close>

definition tbl_update :: "('r \<Rightarrow> bool) \<Rightarrow> ('r \<Rightarrow> 'r) \<Rightarrow> 'r list \<Rightarrow> 'r list" where
  "tbl_update p f rows = map (\<lambda>r. if p r then f r else r) rows"

definition tbl_count :: "('r \<Rightarrow> bool) \<Rightarrow> 'r list \<Rightarrow> nat" where
  "tbl_count p rows = length (filter p rows)"

definition tbl_find :: "('r \<Rightarrow> bool) \<Rightarrow> 'r list \<Rightarrow> 'r option" where
  "tbl_find p rows = find p rows"

text \<open>The next rowid of an \<open>INTEGER PRIMARY KEY\<close> column without \<open>AUTOINCREMENT\<close>.\<close>

definition next_rowid :: "int list \<Rightarrow> int" where
  "next_rowid ids = foldr max ids 0 + 1"

lemma next_rowid_gt: "i \<in> set ids \<Longrightarrow> i < next_rowid ids"
  by (induction ids) (auto simp: next_rowid_def)

lemma next_rowid_pos: "0 < next_rowid ids"
  by (induction ids) (auto simp: next_rowid_def)

lemma next_rowid_fresh: "next_rowid ids \<notin> set ids"
  using next_rowid_gt by blast

lemma length_tbl_update [simp]: "length (tbl_update p f rows) = length rows"
  by (simp add: tbl_update_def)

lemma tbl_update_append [simp]:
  "tbl_update p f (xs @ ys) = tbl_update p f xs @ tbl_update p f ys"
  by (simp add: tbl_update_def)

lemma set_tbl_update: "set (tbl_update p f rows) = (\<lambda>r. if p r then f r else r) ` set rows"
  by (simp add: tbl_update_def)

lemma map_tbl_update_same:
  "(\<And>r. r \<in> set rows \<Longrightarrow> p r \<Longrightarrow> key (f r) = key r) \<Longrightarrow>
   map key (tbl_update p f rows) = map key rows"
  by (simp add: tbl_update_def)

lemma tbl_update_none: "(\<And>r. r \<in> set rows \<Longrightarrow> \<not> p r) \<Longrightarrow> tbl_update p f rows = rows"
  by (simp add: tbl_update_def map_idI)

lemma tbl_find_Some: "tbl_find p rows = Some r \<Longrightarrow> r \<in> set rows \<and> p r"
  by (auto simp: tbl_find_def find_Some_iff)

lemma tbl_find_None: "tbl_find p rows = None \<longleftrightarrow> (\<forall>r\<in>set rows. \<not> p r)"
  by (auto simp: tbl_find_def find_None_iff)

lemma find_append: "find p (xs @ ys) = (case find p xs of None \<Rightarrow> find p ys | Some x \<Rightarrow> Some x)"
  by (induction xs) auto

lemma tbl_count_0: "tbl_count p rows = 0 \<longleftrightarrow> (\<forall>r\<in>set rows. \<not> p r)"
  by (auto simp: tbl_count_def filter_empty_conv)

lemma tbl_count_append [simp]: "tbl_count p (xs @ ys) = tbl_count p xs + tbl_count p ys"
  by (simp add: tbl_count_def)

text \<open>
  The contract of a table with a primary key: the key column determines the row.  The proofs about
  single-row reads and writes of every keyed table are these lemmas.
\<close>

locale keyed_table =
  fixes key :: "'r \<Rightarrow> 'k"
    and rows_ok :: "'r list \<Rightarrow> bool"
  assumes rows_ok_distinct: "rows_ok rows \<Longrightarrow> distinct (map key rows)"
begin

lemma key_unique:
  "rows_ok rows \<Longrightarrow> r \<in> set rows \<Longrightarrow> r' \<in> set rows \<Longrightarrow> key r = key r' \<Longrightarrow> r = r'"
  using rows_ok_distinct [of rows] by (auto simp: distinct_map inj_on_def)

lemma find_key:
  "rows_ok rows \<Longrightarrow> r \<in> set rows \<Longrightarrow> tbl_find (\<lambda>x. key x = key r) rows = Some r"
proof -
  assume ok: "rows_ok rows" and r: "r \<in> set rows"
  then obtain x where x: "tbl_find (\<lambda>x. key x = key r) rows = Some x"
    by (cases "tbl_find (\<lambda>x. key x = key r) rows") (auto simp: tbl_find_None)
  with tbl_find_Some [OF x] key_unique [OF ok] r show ?thesis by auto
qed

lemma find_key_iff:
  "rows_ok rows \<Longrightarrow> tbl_find (\<lambda>x. key x = k) rows = Some r \<longleftrightarrow> r \<in> set rows \<and> key r = k"
  using find_key [of rows r] by (auto dest: tbl_find_Some)

lemma find_update_key:
  assumes "rows_ok rows" "tbl_find (\<lambda>x. key x = k) rows = Some r" "p r" "key (f r) = k"
    and only: "\<And>x. x \<in> set rows \<Longrightarrow> p x \<Longrightarrow> key x = k"
    and keep: "\<And>x. x \<in> set rows \<Longrightarrow> p x \<Longrightarrow> key (f x) = key x"
  shows "tbl_find (\<lambda>x. key x = k) (tbl_update p f rows) = Some (f r)"
proof -
  have dist: "distinct (map key (tbl_update p f rows))"
    using rows_ok_distinct [OF assms(1)] map_tbl_update_same [of rows p key f] keep by simp
  have mem: "f r \<in> set (tbl_update p f rows)"
    using assms(2,3) by (force simp: set_tbl_update dest: tbl_find_Some)
  obtain x where x: "tbl_find (\<lambda>x. key x = k) (tbl_update p f rows) = Some x"
    using mem assms(4) by (cases "tbl_find (\<lambda>x. key x = k) (tbl_update p f rows)")
      (auto simp: tbl_find_None)
  from tbl_find_Some [OF x] mem dist assms(4) have "x = f r"
    by (auto simp: distinct_map inj_on_def)
  with x show ?thesis by simp
qed

lemma count_key_le_1: "rows_ok rows \<Longrightarrow> tbl_count (\<lambda>x. key x = k \<and> q x) rows \<le> 1"
proof -
  assume "rows_ok rows"
  then have "distinct (map key rows)" by (rule rows_ok_distinct)
  then show ?thesis
    by (induction rows) (auto simp: tbl_count_def filter_empty_conv image_iff)
qed

end

section \<open>int64, time and durations\<close>

text \<open>Go's \<open>int64\<close> arithmetic wraps around at 64 bits, two's complement.\<close>

definition int64_max :: int where "int64_max = 2 ^ 63 - 1"
definition int64_min :: int where "int64_min = - (2 ^ 63)"

definition wrap64 :: "int \<Rightarrow> int" where
  "wrap64 i = (i + 2 ^ 63) mod 2 ^ 64 - 2 ^ 63"

definition in64 :: "int \<Rightarrow> bool" where
  "in64 i \<longleftrightarrow> int64_min \<le> i \<and> i \<le> int64_max"

lemma wrap64_range: "in64 (wrap64 i)"
  using pos_mod_bound [of "2 ^ 64" "i + 2 ^ 63"] pos_mod_sign [of "2 ^ 64" "i + 2 ^ 63"]
  by (simp add: in64_def wrap64_def int64_min_def int64_max_def)

lemma wrap64_id: "in64 i \<Longrightarrow> wrap64 i = i"
  by (simp add: in64_def wrap64_def int64_min_def int64_max_def)

lemma wrap64_succ:
  "0 \<le> i \<Longrightarrow> i \<le> int64_max \<Longrightarrow> wrap64 (i + 1) = (if i = int64_max then int64_min else i + 1)"
  by (auto simp: wrap64_def int64_min_def int64_max_def)

text \<open>
  \<open>time.Time\<close>: nanoseconds since Go's zero time (1 January of year 1, UTC), so \<open>IsZero\<close> is the
  test for 0; a nullable timestamp column holds 0 for NULL, as \<open>scanRun\<close> reads it.
  \<open>Sub\<close> saturates at the bounds of \<open>time.Duration\<close>; adding durations wraps.
\<close>

type_synonym time = int
type_synonym duration = int

definition is_zero_time :: "time \<Rightarrow> bool" where "is_zero_time t \<longleftrightarrow> t = 0"

definition time_sub :: "time \<Rightarrow> time \<Rightarrow> duration" where
  "time_sub a b = max int64_min (min int64_max (a - b))"

definition dur_add :: "duration \<Rightarrow> duration \<Rightarrow> duration" where
  "dur_add a b = wrap64 (a + b)"

definition second :: duration where "second = 1000000000"
definition hour :: duration where "hour = 3600 * second"

text \<open>Go's integer division truncates towards zero.\<close>

definition go_div :: "int \<Rightarrow> int \<Rightarrow> int" where
  "go_div a b = sgn a * sgn b * (\<bar>a\<bar> div \<bar>b\<bar>)"

lemma time_sub_exact: "in64 (a - b) \<Longrightarrow> time_sub a b = a - b"
  by (simp add: time_sub_def in64_def)

lemma time_sub_mono: "a \<le> b \<Longrightarrow> time_sub a c \<le> time_sub b c"
  by (simp add: time_sub_def)

lemma time_sub_in64: "in64 (time_sub a b)"
  by (simp add: time_sub_def in64_def int64_min_def int64_max_def)

section \<open>Text\<close>

definition digit_char :: "nat \<Rightarrow> char" where
  "digit_char d = char_of (48 + d)"

fun dec_nat :: "nat \<Rightarrow> string" where
  "dec_nat n = (if n < 10 then [digit_char n] else dec_nat (n div 10) @ [digit_char (n mod 10)])"

declare dec_nat.simps [simp del]

definition dec_int :: "int \<Rightarrow> string" where
  "dec_int i = (if i < 0 then CHR ''-'' # dec_nat (nat (- i)) else dec_nat (nat i))"

fun starts_with :: "string \<Rightarrow> string \<Rightarrow> bool" where
  "starts_with [] _ = True"
| "starts_with (_ # _) [] = False"
| "starts_with (p # ps) (c # cs) = (p = c \<and> starts_with ps cs)"

text \<open>\<open>strings.Contains(s, sub)\<close>.\<close>

fun str_contains :: "string \<Rightarrow> string \<Rightarrow> bool" where
  "str_contains [] sub = (sub = [])"
| "str_contains (c # cs) sub = (starts_with sub (c # cs) \<or> str_contains cs sub)"

text \<open>\<open>strings.ToLower\<close> on ASCII bytes; other bytes are left as they are.\<close>

definition lower_char :: "char \<Rightarrow> char" where
  "lower_char c = (let n = of_char c :: nat in if 65 \<le> n \<and> n \<le> 90 then char_of (n + 32) else c)"

definition to_lower :: "string \<Rightarrow> string" where
  "to_lower s = map lower_char s"

text \<open>\<open>strings.TrimSpace\<close> and the suffix tests, on ASCII bytes.\<close>

definition is_space :: "char \<Rightarrow> bool" where
  "is_space c = (let n = of_char c :: nat in n = 32 \<or> (9 \<le> n \<and> n \<le> 13))"

definition trim_space :: "string \<Rightarrow> string" where
  "trim_space s = rev (dropWhile is_space (rev (dropWhile is_space s)))"

definition ends_with :: "string \<Rightarrow> string \<Rightarrow> bool" where
  "ends_with suf s = starts_with (rev suf) (rev s)"

definition trim_suffix :: "string \<Rightarrow> string \<Rightarrow> string" where
  "trim_suffix suf s = (if ends_with suf s then take (length s - length suf) s else s)"

lemma starts_with_append: "starts_with p s \<longleftrightarrow> (\<exists>rest. s = p @ rest)"
  by (induction p s rule: starts_with.induct) auto

lemma str_contains_iff: "str_contains s sub \<longleftrightarrow> (\<exists>a b. s = a @ sub @ b)"
proof (induction s)
  case Nil
  then show ?case by auto
next
  case (Cons c cs)
  show ?case
    unfolding str_contains.simps starts_with_append Cons.IH
    by (metis append_Cons append_Nil append_eq_Cons_conv)
qed

lemma digit_char_inj: "a < 10 \<Longrightarrow> b < 10 \<Longrightarrow> digit_char a = digit_char b \<longleftrightarrow> a = b"
  by (simp add: digit_char_def char_of_eq_iff take_bit_eq_mod)

lemma dec_nat_nonempty [simp]: "dec_nat n \<noteq> []"
  by (subst dec_nat.simps) simp

text \<open>Rendering is injective: two run ids that differ in their generation suffix differ.\<close>

lemma dec_nat_inj: "dec_nat m = dec_nat n \<Longrightarrow> m = n"
proof (induction m arbitrary: n rule: dec_nat.induct)
  case (1 m)
  note eqs = dec_nat.simps [of m] dec_nat.simps [of n]
  show ?case
  proof (cases "m < 10")
    case True
    with 1(2) eqs have "n < 10"
      by (metis append_self_conv2 butlast_snoc dec_nat_nonempty list.simps(3) butlast.simps(2) append.left_neutral)
    with True 1(2) eqs show ?thesis by (simp add: digit_char_inj)
  next
    case False
    with 1(2) eqs have "\<not> n < 10"
      by (metis butlast_snoc dec_nat_nonempty butlast.simps(2))
    with False 1(2) eqs have "dec_nat (m div 10) = dec_nat (n div 10)" "m mod 10 = n mod 10"
      by (auto simp: digit_char_inj)
    with 1(1) False show ?thesis by (metis div_mult_mod_eq)
  qed
qed

lemma digit_char_not_minus: "d < 10 \<Longrightarrow> digit_char d \<noteq> CHR ''-''"
  by (simp add: digit_char_def char_of_eq_iff take_bit_eq_mod)

lemma hd_dec_nat: "hd (dec_nat n) \<noteq> CHR ''-''"
proof (induction n rule: dec_nat.induct)
  case (1 n)
  then show ?case
    by (subst dec_nat.simps) (auto simp: hd_append digit_char_not_minus)
qed

lemma dec_int_inj: "dec_int a = dec_int b \<longleftrightarrow> a = b"
proof
  assume eq: "dec_int a = dec_int b"
  have minus: "dec_nat n \<noteq> CHR ''-'' # w" for n w
    using hd_dec_nat [of n] by auto
  note minus' = minus [THEN not_sym]
  show "a = b"
  proof (cases "a < 0")
    case True
    with eq minus' have "b < 0" by (auto simp: dec_int_def split: if_splits)
    with True eq dec_nat_inj [of "nat (- a)" "nat (- b)"] show ?thesis by (simp add: dec_int_def)
  next
    case False
    with eq minus have "\<not> b < 0" by (auto simp: dec_int_def split: if_splits)
    with False eq dec_nat_inj [of "nat a" "nat b"] show ?thesis by (simp add: dec_int_def)
  qed
qed simp

end
