(* ===== verification/Float64.thy ===== *)
theory Float64
  imports Tx_Prelude
begin

text \<open>
  Go's \<open>float64\<close>, as far as the program's scores need it: the values are rationals, and every
  operation rounds its exact result to 53 significant bits, half to even.  The exponent search
  covers binades from \<open>2^-64\<close> to \<open>2^63\<close>; scheduler scores lie between one nanosecond (above
  \<open>2^-30\<close> seconds) and the largest \<open>time.Duration\<close> in seconds (below \<open>2^34\<close>), far inside.
  Rounding is monotone and its error is bounded, which is all the ordering proofs use.
\<close>

definition two_pow :: "int \<Rightarrow> rat" where
  "two_pow e = (if 0 \<le> e then 2 ^ nat e else 1 / 2 ^ nat (- e))"

fun binade_from :: "nat \<Rightarrow> int \<Rightarrow> rat \<Rightarrow> int" where
  "binade_from 0 e x = e"
| "binade_from (Suc n) e x = (if two_pow e \<le> x then e else binade_from n (e - 1) x)"

definition binade :: "rat \<Rightarrow> int" where
  "binade x = binade_from 127 63 x"

definition round_half_even :: "rat \<Rightarrow> int" where
  "round_half_even q =
     (let n = \<lfloor>q\<rfloor>; r = q - of_int n
      in if r < 1 / 2 then n else if 1 / 2 < r then n + 1 else if even n then n else n + 1)"

definition ulp :: "rat \<Rightarrow> rat" where
  "ulp x = two_pow (binade x - 52)"

definition fl :: "rat \<Rightarrow> rat" where
  "fl x = (if x = 0 then 0
           else sgn x * (of_int (round_half_even (\<bar>x\<bar> / ulp \<bar>x\<bar>)) * ulp \<bar>x\<bar>))"

section \<open>Powers and binades\<close>

lemma two_pow_pos [simp]: "0 < two_pow e"
  by (simp add: two_pow_def)

lemma two_pow_nonneg [simp]: "0 \<le> two_pow e"
  by (simp add: less_imp_le)

lemma two_pow_Suc: "two_pow (e + 1) = 2 * two_pow e"
proof (cases "0 \<le> e")
  case True
  then have "nat (e + 1) = Suc (nat e)" by simp
  with True show ?thesis by (simp add: two_pow_def)
next
  case False
  then have "nat (- e) = Suc (nat (- (e + 1)))" by simp
  with False show ?thesis by (auto simp: two_pow_def)
qed

lemma two_pow_add: "two_pow (e + int n) = 2 ^ n * two_pow e"
proof (induction n)
  case 0
  then show ?case by simp
next
  case (Suc n)
  have "two_pow (e + int (Suc n)) = two_pow ((e + int n) + 1)" by (simp add: ac_simps)
  with Suc show ?case by (simp add: two_pow_Suc)
qed

lemma two_pow_mono: "a \<le> b \<Longrightarrow> two_pow a \<le> two_pow b"
proof -
  assume "a \<le> b"
  then have "two_pow b = 2 ^ nat (b - a) * two_pow a" using two_pow_add [of a "nat (b - a)"] by simp
  moreover have "1 * two_pow a \<le> 2 ^ nat (b - a) * two_pow a"
    by (rule mult_right_mono) simp_all
  ultimately show ?thesis by simp
qed

lemma binade_from_ge: "e - int n \<le> binade_from n e x"
  by (induction n e x rule: binade_from.induct) auto

lemma binade_from_le: "binade_from n e x \<le> e"
  by (induction n e x rule: binade_from.induct) auto

lemma binade_from_low: "e - int n < binade_from n e x \<Longrightarrow> two_pow (binade_from n e x) \<le> x"
  by (induction n e x rule: binade_from.induct) (auto split: if_splits)

lemma binade_from_high: "binade_from n e x < e \<Longrightarrow> x < two_pow (binade_from n e x + 1)"
proof (induction n e x rule: binade_from.induct)
  case (1 e x)
  then show ?case by simp
next
  case (2 n e x)
  show ?case
  proof (cases "two_pow e \<le> x")
    case True
    with 2 show ?thesis by simp
  next
    case False
    show ?thesis
    proof (cases "binade_from n (e - 1) x = e - 1")
      case True
      with False show ?thesis by simp
    next
      case neq: False
      with binade_from_le [of n "e - 1" x] have "binade_from n (e - 1) x < e - 1" by simp
      with 2(1) [OF False] False show ?thesis by simp
    qed
  qed
qed

lemma binade_low: "- 64 < binade x \<Longrightarrow> two_pow (binade x) \<le> x"
  using binade_from_low [of 63 127 x] by (simp add: binade_def)

lemma binade_high: "binade x < 63 \<Longrightarrow> x < two_pow (binade x + 1)"
  using binade_from_high [of 127 63 x] by (simp add: binade_def)

lemma binade_bounds: "- 64 \<le> binade x" "binade x \<le> 63"
  using binade_from_ge [of 63 127 x] binade_from_le [of 127 63 x] by (simp_all add: binade_def)

lemma binade_less: "x < two_pow (k + 1) \<Longrightarrow> - 64 \<le> k \<Longrightarrow> binade x \<le> k"
proof (rule ccontr)
  assume x: "x < two_pow (k + 1)" and k: "- 64 \<le> k" and "\<not> binade x \<le> k"
  then have b: "k + 1 \<le> binade x" by simp
  then have "two_pow (k + 1) \<le> two_pow (binade x)" by (rule two_pow_mono)
  also have "\<dots> \<le> x" using b k by (intro binade_low) simp
  finally show False using x by simp
qed

section \<open>Rounding\<close>

lemma round_half_even_of_int [simp]: "round_half_even (of_int n) = n"
  by (simp add: round_half_even_def)

lemma round_half_even_error: "\<bar>of_int (round_half_even q) - q\<bar> \<le> 1 / 2"
proof -
  have "of_int \<lfloor>q\<rfloor> \<le> q" "q < of_int \<lfloor>q\<rfloor> + 1" by linarith+
  then show ?thesis by (auto simp: round_half_even_def Let_def abs_le_iff)
qed

lemma round_half_even_floor: "\<lfloor>q\<rfloor> \<le> round_half_even q" "round_half_even q \<le> \<lfloor>q\<rfloor> + 1"
  by (auto simp: round_half_even_def Let_def)

lemma round_half_even_mono: "p \<le> q \<Longrightarrow> round_half_even p \<le> round_half_even q"
proof -
  assume pq: "p \<le> q"
  show ?thesis
  proof (cases "\<lfloor>p\<rfloor> = \<lfloor>q\<rfloor>")
    case True
    with pq show ?thesis by (auto simp: round_half_even_def Let_def)
  next
    case False
    with pq have "\<lfloor>p\<rfloor> < \<lfloor>q\<rfloor>" using floor_mono [OF pq] by simp
    with round_half_even_floor(2) [of p] round_half_even_floor(1) [of q] show ?thesis by linarith
  qed
qed

lemma ulp_pos [simp]: "0 < ulp x"
  by (simp add: ulp_def)

lemma ulp_nonneg [simp]: "0 \<le> ulp x" "ulp x \<noteq> 0"
  using ulp_pos [of x] by linarith+

lemma ulp_scale: "two_pow (binade x) = 2 ^ 52 * ulp x" "two_pow (binade x + 1) = 2 ^ 53 * ulp x"
  using two_pow_add [of "binade x - 52" 52] two_pow_Suc [of "binade x"]
  by (simp_all add: ulp_def)

lemma fl_0 [simp]: "fl 0 = 0"
  by (simp add: fl_def)

lemma fl_pos: "0 < x \<Longrightarrow> fl x = of_int (round_half_even (x / ulp x)) * ulp x"
  by (simp add: fl_def)

lemma fl_nonneg: "0 \<le> x \<Longrightarrow> 0 \<le> fl x"
proof (cases "x = 0")
  case False
  moreover assume "0 \<le> x"
  ultimately have x: "0 < x" by simp
  have "round_half_even (of_int 0) \<le> round_half_even (x / ulp x)"
    by (rule round_half_even_mono) (use x in simp)
  then have "0 \<le> round_half_even (x / ulp x)" by (simp only: round_half_even_of_int)
  then show ?thesis using x by (simp add: fl_pos)
qed simp

lemma fl_error: "0 \<le> x \<Longrightarrow> \<bar>fl x - x\<bar> \<le> ulp x / 2"
proof (cases "x = 0")
  case False
  moreover assume "0 \<le> x"
  ultimately have x: "0 < x" by simp
  have "fl x - x = (of_int (round_half_even (x / ulp x)) - x / ulp x) * ulp x"
    using x by (simp add: fl_pos algebra_simps)
  then have "\<bar>fl x - x\<bar> = \<bar>of_int (round_half_even (x / ulp x)) - x / ulp x\<bar> * ulp x"
    by (simp add: abs_mult)
  also have "\<dots> \<le> (1 / 2) * ulp x"
    by (rule mult_right_mono [OF round_half_even_error]) (simp add: less_imp_le)
  finally show ?thesis by simp
qed (simp add: less_imp_le)

text \<open>Rounding is monotone: within a binade by rounding, across binades by the boundary power.\<close>

lemma fl_mono_pos:
  assumes "0 < x" "x \<le> y"
  shows "fl x \<le> fl y"
proof (cases "binade x = binade y")
  case True
  then have u: "ulp x = ulp y" by (simp add: ulp_def)
  have "round_half_even (x / ulp y) \<le> round_half_even (y / ulp y)"
    by (rule round_half_even_mono) (use assms in \<open>simp add: divide_right_mono less_imp_le\<close>)
  then show ?thesis
    using assms u by (simp add: fl_pos less_imp_le mult_right_mono)
next
  case False
  have less: "binade x < binade y"
  proof (rule ccontr)
    assume "\<not> binade x < binade y"
    with False have lt: "binade y + 1 \<le> binade x" by simp
    then have "y < two_pow (binade y + 1)" using binade_bounds(2) [of x] by (intro binade_high) simp
    also have "\<dots> \<le> two_pow (binade x)" by (rule two_pow_mono [OF lt])
    also have "\<dots> \<le> x" using lt binade_bounds(1) [of y] by (intro binade_low) simp
    finally show False using assms by simp
  qed
  have "x < two_pow (binade x + 1)" using less binade_bounds(2) [of y] by (intro binade_high) simp
  then have "x / ulp x \<le> of_int (2 ^ 53)" by (simp add: ulp_scale divide_le_eq less_imp_le)
  then have "round_half_even (x / ulp x) \<le> 2 ^ 53"
    using round_half_even_mono [of "x / ulp x" "of_int (2 ^ 53)"] by (simp only: round_half_even_of_int)
  then have "(of_int (round_half_even (x / ulp x)) :: rat) \<le> of_int (2 ^ 53)"
    by (simp only: of_int_le_iff)
  then have "fl x \<le> 2 ^ 53 * ulp x" using assms(1)
    by (simp add: fl_pos less_imp_le mult_right_mono)
  also have "\<dots> = two_pow (binade x + 1)" by (simp add: ulp_scale)
  also have "\<dots> \<le> two_pow (binade y)" using less by (intro two_pow_mono) simp
  also have "\<dots> = 2 ^ 52 * ulp y" by (simp add: ulp_scale)
  also have "\<dots> \<le> fl y"
  proof -
    have "two_pow (binade y) \<le> y" using less binade_bounds(1) [of x] by (intro binade_low) simp
    then have "of_int (2 ^ 52) \<le> y / ulp y" by (simp add: ulp_scale le_divide_eq)
    then have "2 ^ 52 \<le> round_half_even (y / ulp y)"
      using round_half_even_mono [of "of_int (2 ^ 52)" "y / ulp y"] by (simp only: round_half_even_of_int)
    then have "(of_int (2 ^ 52) :: rat) \<le> of_int (round_half_even (y / ulp y))"
      by (simp only: of_int_le_iff)
    then show ?thesis using assms by (simp add: fl_pos less_imp_le mult_right_mono)
  qed
  finally show ?thesis .
qed

lemma fl_mono: "0 \<le> x \<Longrightarrow> x \<le> y \<Longrightarrow> fl x \<le> fl y"
  by (cases "x = 0") (auto intro: fl_nonneg fl_mono_pos)

lemma fl_error_small: "0 \<le> x \<Longrightarrow> x < 2 ^ 35 \<Longrightarrow> \<bar>fl x - x\<bar> \<le> 1 / 2 ^ 19"
proof -
  assume x: "0 \<le> x" "x < 2 ^ 35"
  then have "binade x \<le> 34" by (intro binade_less) (simp_all add: two_pow_def)
  then have "ulp x \<le> two_pow (- 18)" unfolding ulp_def by (intro two_pow_mono) simp
  with fl_error [OF x(1)] show ?thesis by (simp add: two_pow_def)
qed

section \<open>\<open>Duration.Seconds\<close>\<close>

definition seconds :: "duration \<Rightarrow> rat" where
  "seconds d = fl (of_int (go_div d second) + fl (of_int (d - go_div d second * second) / 1000000000))"

text \<open>The conversion of a \<open>float64\<close> to an integer truncates towards zero.\<close>

definition trunc :: "rat \<Rightarrow> int" where
  "trunc q = (if 0 \<le> q then \<lfloor>q\<rfloor> else \<lceil>q\<rceil>)"

lemma go_div_nonneg: "0 \<le> a \<Longrightarrow> 0 < b \<Longrightarrow> go_div a b = a div b"
  by (cases "a = 0") (simp_all add: go_div_def)

lemma seconds_eq:
  "0 \<le> d \<Longrightarrow> seconds d = fl (of_int (d div second) + fl (of_int (d mod second) / 1000000000))"
  by (simp add: seconds_def go_div_nonneg second_def minus_div_mult_eq_mod)

lemma seconds_nonneg: "0 \<le> d \<Longrightarrow> 0 \<le> seconds d"
  by (simp add: seconds_eq second_def fl_nonneg pos_imp_zdiv_nonneg_iff)

lemma fl_le_1: "0 \<le> x \<Longrightarrow> x \<le> 1 \<Longrightarrow> fl x \<le> 1"
proof -
  assume "0 \<le> x" "x \<le> 1"
  then have "fl x \<le> fl 1" by (rule fl_mono)
  also have "fl 1 = 1" by (simp add: fl_def ulp_def binade_def two_pow_def round_half_even_def numeral_eq_Suc)
  finally show ?thesis .
qed

lemma seconds_mono:
  assumes "0 \<le> d" "d \<le> e"
  shows "seconds d \<le> seconds e"
proof -
  let ?f = "\<lambda>n. fl (of_int (n mod second) / 1000000000)"
  have f: "0 \<le> ?f n" "?f n \<le> 1" for n
  proof -
    have "0 \<le> n mod second" "n mod second \<le> 1000000000" by (simp_all add: second_def less_imp_le)
    then have "(0::rat) \<le> of_int (n mod second) / 1000000000" "of_int (n mod second) / 1000000000 \<le> (1::rat)"
      by simp_all
    then show "0 \<le> ?f n" "?f n \<le> 1" by (simp_all only: fl_nonneg fl_le_1)
  qed
  have "of_int (d div second) + ?f d \<le> of_int (e div second) + ?f e"
  proof (cases "d div second = e div second")
    case True
    have "d mod second \<le> e mod second" using True assms(2)
      by (simp add: minus_div_mult_eq_mod [symmetric])
    then have "?f d \<le> ?f e"
      by (intro fl_mono) (simp_all add: second_def divide_right_mono)
    with True show ?thesis by simp
  next
    case False
    with assms have "d div second + 1 \<le> e div second"
      using zdiv_mono1 [OF assms(2), of second] by (simp add: second_def)
    then have "(of_int (d div second + 1) :: rat) \<le> of_int (e div second)" by (simp only: of_int_le_iff)
    with f(2) [of d] f(1) [of e] show ?thesis by simp
  qed
  moreover have "0 \<le> of_int (d div second) + ?f d"
    using assms f(1) [of d] by (simp add: second_def pos_imp_zdiv_nonneg_iff)
  ultimately show ?thesis
    using assms by (simp add: seconds_eq) (rule fl_mono)
qed

lemma seconds_error:
  assumes "0 \<le> d" "d \<le> int64_max"
  shows "\<bar>seconds d - of_int d / 1000000000\<bar> \<le> 1 / 2 ^ 18"
proof -
  let ?r = "of_int (d mod second) / 1000000000 :: rat"
  let ?x = "of_int (d div second) + fl ?r"
  have r: "0 \<le> ?r" "?r < 1" by (simp_all add: second_def)
  have e1: "\<bar>fl ?r - ?r\<bar> \<le> 1 / 2 ^ 19" using r by (intro fl_error_small) (auto intro: less_trans)
  have "d div second \<le> int64_max div second" using assms by (intro zdiv_mono1) (simp_all add: second_def)
  then have q: "0 \<le> d div second" "d div second \<le> 9223372036"
    using assms by (simp_all add: second_def int64_max_def pos_imp_zdiv_nonneg_iff)
  then have "(of_int (d div second) :: rat) \<le> of_int 9223372036" by (simp only: of_int_le_iff)
  then have "?x < 2 ^ 35" using fl_le_1 [of ?r] r by simp
  moreover have "0 \<le> ?x" using q(1) fl_nonneg [OF r(1)] by simp
  ultimately have e2: "\<bar>fl ?x - ?x\<bar> \<le> 1 / 2 ^ 19" by (rule_tac fl_error_small)
  have "d = d div second * 1000000000 + d mod second" by (simp add: second_def)
  then have "(of_int d :: rat) = of_int (d div second) * 1000000000 + of_int (d mod second)"
    by (metis of_int_add of_int_mult of_int_numeral)
  then have exact: "of_int d / 1000000000 = of_int (d div second) + ?r"
    by (simp add: add_divide_distrib)
  have "fl ?x - of_int d / 1000000000 = (fl ?x - ?x) + (fl ?r - ?r)" unfolding exact by simp
  then have "\<bar>fl ?x - of_int d / 1000000000\<bar> \<le> \<bar>fl ?x - ?x\<bar> + \<bar>fl ?r - ?r\<bar>"
    by (metis abs_triangle_ineq)
  also have "\<dots> \<le> 1 / 2 ^ 19 + 1 / 2 ^ 19" by (rule add_mono [OF e2 e1])
  finally show ?thesis unfolding seconds_eq [OF assms(1)] by simp
qed

lemma fl_nonpos: "x \<le> 0 \<Longrightarrow> fl x \<le> 0"
proof (cases "x = 0")
  case False
  moreover assume "x \<le> 0"
  ultimately have x: "x < 0" by simp
  have "0 \<le> fl (- x)" using x by (intro fl_nonneg) simp
  moreover have "fl x = - fl (- x)" using x by (simp add: fl_def)
  ultimately show ?thesis by simp
qed simp

lemma seconds_nonpos: "d \<le> 0 \<Longrightarrow> seconds d \<le> 0"
proof -
  assume d: "d \<le> 0"
  have q: "go_div d second = - ((- d) div second)"
    using d by (cases "d = 0") (simp_all add: go_div_def second_def)
  have "0 \<le> (- d) div second" "0 \<le> (- d) mod second"
    using d by (simp_all add: second_def pos_imp_zdiv_nonneg_iff)
  moreover have "d - go_div d second * second = - ((- d) mod second)"
    using q by (simp add: minus_div_mult_eq_mod [symmetric])
  ultimately have "go_div d second \<le> 0" "d - go_div d second * second \<le> 0" using q by simp_all
  then have "(of_int (go_div d second) :: rat) \<le> 0" "(of_int (d - go_div d second * second) :: rat) \<le> 0"
    by (simp_all only: of_int_le_0_iff)
  then have "of_int (go_div d second) + fl (of_int (d - go_div d second * second) / 1000000000) \<le> 0"
    by (intro add_nonpos_nonpos fl_nonpos divide_nonpos_pos) simp_all
  then show ?thesis unfolding seconds_def by (rule fl_nonpos)
qed

text \<open>The waiting time of a score: seconds, or nothing when the clock is behind.\<close>

lemma wait_mono: "d \<le> e \<Longrightarrow> max 0 (seconds d) \<le> max 0 (seconds e)"
  using seconds_mono [of d e] seconds_nonpos [of d] seconds_nonneg [of e]
  by (cases "0 \<le> d") (auto simp: max_def)

end
