(* ===== verification/Json_Text.thy ===== *)
theory Json_Text
  imports Tx_Prelude "HOL-Library.List_Lexorder" "HOL-Library.Char_ord"
begin

text \<open>
  What the program uses of \<open>encoding/json\<close>: values, the compact encoder (\<open>json.Marshal\<close>: sorted
  map keys come from \<^verbatim>\<open>canon\<close>, HTML characters escaped), raw messages seen
  through what the decoder makes of them, and SQLite's \<open>json_extract\<close>.  \<open>canonicalJSON\<close> and
  \<open>hashPayload\<close> of \<open>internal/gates/gates.go\<close> are modelled here too, since they are only about
  JSON text; the hash function itself (SHA-256) is a parameter.
\<close>

datatype json =
    JNull
  | JBool bool
  | JNum string \<comment> \<open>the literal, as \<open>UseNumber\<close> keeps it\<close>
  | JStr string
  | JArr "json list"
  | JObj "(string \<times> json) list"

definition json_int :: "int \<Rightarrow> json" where
  "json_int i = JNum (dec_int i)"

section \<open>The encoder\<close>

definition hex_digit :: "nat \<Rightarrow> char" where
  "hex_digit d = (if d < 10 then char_of (48 + d) else char_of (87 + d))"

definition escape_char :: "char \<Rightarrow> string" where
  "escape_char c = (let n = of_char c :: nat in
     if n = 34 then [char_of (92::nat), char_of (34::nat)]
     else if n = 92 then [char_of (92::nat), char_of (92::nat)]
     else if n = 8 then [char_of (92::nat), CHR ''b'']
     else if n = 9 then [char_of (92::nat), CHR ''t'']
     else if n = 10 then [char_of (92::nat), CHR ''n'']
     else if n = 12 then [char_of (92::nat), CHR ''f'']
     else if n = 13 then [char_of (92::nat), CHR ''r'']
     else if n < 32 \<or> c = CHR ''<'' \<or> c = CHR ''>'' \<or> c = CHR ''&'' then
       [char_of (92::nat), CHR ''u'', CHR ''0'', CHR ''0'', hex_digit (n div 16), hex_digit (n mod 16)]
     else [c])"

definition quote_text :: "string \<Rightarrow> string" where
  "quote_text s = char_of (34::nat) # concat (map escape_char s) @ [char_of (34::nat)]"

fun join_comma :: "string list \<Rightarrow> string" where
  "join_comma [] = []"
| "join_comma [x] = x"
| "join_comma (x # y # ys) = x @ '','' @ join_comma (y # ys)"

fun json_text :: "json \<Rightarrow> string" where
  "json_text JNull = ''null''"
| "json_text (JBool b) = (if b then ''true'' else ''false'')"
| "json_text (JNum lit) = lit"
| "json_text (JStr s) = quote_text s"
| "json_text (JArr xs) = ''['' @ join_comma (map json_text xs) @ '']''"
| "json_text (JObj fs) =
     ''{'' @ join_comma (map (\<lambda>f. quote_text (fst f) @ '':'' @ json_text (snd f)) fs) @ ''}''"

section \<open>Raw messages\<close>

text \<open>
  A \<open>json.RawMessage\<close>: its bytes, and what \<open>Decoder.Decode\<close> reads from them, the first value with
  the bytes left after it (\<open>None\<close> when there is no first value).
\<close>

datatype raw = Raw (raw_text: string) (raw_decode: "(json \<times> string) option")

definition is_blank :: "char \<Rightarrow> bool" where
  "is_blank c = (let n = of_char c :: nat in n = 32 \<or> n = 9 \<or> n = 10 \<or> n = 13)"

text \<open>\<open>json.Valid\<close> and \<open>json.Unmarshal\<close>: one value, then white space only.\<close>

definition raw_json :: "raw \<Rightarrow> json option" where
  "raw_json r = (case raw_decode r of
       None \<Rightarrow> None
     | Some (v, rest) \<Rightarrow> if list_all is_blank rest then Some v else None)"

definition raw_valid :: "raw \<Rightarrow> bool" where
  "raw_valid r = (raw_json r \<noteq> None)"

definition raw_empty :: raw where "raw_empty = Raw [] None"

definition marshal :: "json \<Rightarrow> raw" where
  "marshal v = Raw (json_text v) (Some (v, []))"

lemma raw_json_marshal [simp]: "raw_json (marshal v) = Some v"
  by (simp add: raw_json_def marshal_def)

lemma raw_valid_marshal [simp]: "raw_valid (marshal v)"
  by (simp add: raw_valid_def)

lemma raw_decode_marshal [simp]: "raw_decode (marshal v) = Some (v, [])"
  by (simp add: marshal_def)

lemma raw_text_marshal [simp]: "raw_text (marshal v) = json_text v"
  by (simp add: marshal_def)

lemma json_text_nonempty_obj [simp]: "json_text (JObj fs) \<noteq> []"
  by simp

text \<open>\<open>Decoder.More\<close>: another value follows unless the next byte closes an array or object.\<close>

definition decoder_more :: "string \<Rightarrow> bool" where
  "decoder_more rest = (case dropWhile is_blank rest of
       [] \<Rightarrow> False
     | c # _ \<Rightarrow> c \<noteq> CHR '']'' \<and> c \<noteq> CHR ''}'')"

text \<open>An \<open>omitempty\<close> field of a marshalled struct.\<close>

definition opt_str :: "string \<Rightarrow> string \<Rightarrow> (string \<times> json) list" where
  "opt_str k s = (if s = [] then [] else [(k, JStr s)])"

definition opt_int :: "string \<Rightarrow> int \<Rightarrow> (string \<times> json) list" where
  "opt_int k i = (if i = 0 then [] else [(k, json_int i)])"

definition opt_bool :: "string \<Rightarrow> bool \<Rightarrow> (string \<times> json) list" where
  "opt_bool k b = (if b then [(k, JBool True)] else [])"

fun parse_digits :: "nat \<Rightarrow> string \<Rightarrow> nat option" where
  "parse_digits acc [] = Some acc"
| "parse_digits acc (c # cs) = (let n = of_char c :: nat in
     if 48 \<le> n \<and> n \<le> 57 then parse_digits (10 * acc + (n - 48)) cs else None)"

text \<open>A JSON number literal that \<open>strconv.ParseInt\<close> accepts as an \<open>int\<close>.\<close>

definition parse_int :: "string \<Rightarrow> int option" where
  "parse_int lit = (case lit of
       [] \<Rightarrow> None
     | c # cs \<Rightarrow>
         (let v = (if c = CHR ''-'' then (if cs = [] then None else map_option (\<lambda>n. - int n) (parse_digits 0 cs))
                   else map_option int (parse_digits 0 lit))
          in case v of None \<Rightarrow> None | Some i \<Rightarrow> if in64 i then Some i else None))"

text \<open>\<open>strconv.ParseInt(s, 10, 64)\<close>, \<open>None\<close> for a syntax or range error.\<close>

definition ParseInt64 :: "string \<Rightarrow> int option" where
  "ParseInt64 s = (case s of
       [] \<Rightarrow> None
     | c # cs \<Rightarrow>
         (let digits = (if c = CHR ''-'' \<or> c = CHR ''+'' then cs else s)
          in if digits = [] then None
             else (case parse_digits 0 digits of
                 None \<Rightarrow> None
               | Some n \<Rightarrow> (let i = (if c = CHR ''-'' then - int n else int n)
                            in if in64 i then Some i else None))))"

text \<open>
  An embedded \<open>omitempty\<close> raw message: absent when empty, an encoding error when it is not JSON.
\<close>

definition opt_raw :: "string \<Rightarrow> raw \<Rightarrow> (string \<times> json) list option" where
  "opt_raw k r = (if raw_text r = [] then Some []
                  else map_option (\<lambda>v. [(k, v)]) (raw_json r))"

lemma opt_raw_empty [simp]: "opt_raw k raw_empty = Some []"
  by (simp add: opt_raw_def raw_empty_def)

section \<open>Reading fields\<close>

fun json_path :: "string list \<Rightarrow> json \<Rightarrow> json option" where
  "json_path [] v = Some v"
| "json_path (k # ks) (JObj fs) = (case map_of fs k of None \<Rightarrow> None | Some v \<Rightarrow> json_path ks v)"
| "json_path (k # ks) _ = None"

text \<open>\<open>json_extract\<close> as a SQL text value; a JSON null and a missing path are NULL.\<close>

definition json_extract :: "raw \<Rightarrow> string list \<Rightarrow> string option" where
  "json_extract r path = (case raw_json r of
       None \<Rightarrow> None
     | Some v \<Rightarrow> (case json_path path v of
           None \<Rightarrow> None
         | Some JNull \<Rightarrow> None
         | Some (JStr s) \<Rightarrow> Some s
         | Some (JNum l) \<Rightarrow> Some l
         | Some (JBool b) \<Rightarrow> Some (if b then ''1'' else ''0'')
         | Some v' \<Rightarrow> Some (json_text v')))"

section \<open>The canonical form and its hash\<close>

text \<open>
  Decoding an object into a Go map keeps the last value of a duplicated key; encoding the map
  writes its keys in byte order.
\<close>

fun field_put :: "string \<Rightarrow> 'v \<Rightarrow> (string \<times> 'v) list \<Rightarrow> (string \<times> 'v) list" where
  "field_put k v [] = [(k, v)]"
| "field_put k v ((k', v') # fs) =
     (if k < k' then (k, v) # (k', v') # fs
      else if k = k' then (k, v) # fs
      else (k', v') # field_put k v fs)"

fun canon :: "json \<Rightarrow> json" where
  "canon (JArr xs) = JArr (map canon xs)"
| "canon (JObj fs) =
     JObj (foldl (\<lambda>acc f. field_put (fst f) (snd f) acc) [] (map (\<lambda>f. (fst f, canon (snd f))) fs))"
| "canon v = v"

text \<open>\<open>canonicalJSON\<close>: \<open>None\<close> for "not valid JSON" and for "trailing data".\<close>

definition canonicalJSON :: "raw \<Rightarrow> raw option" where
  "canonicalJSON r = (case raw_decode r of
       None \<Rightarrow> None
     | Some (v, rest) \<Rightarrow> if decoder_more rest then None else Some (marshal (canon v)))"

definition hashPayload :: "(string \<Rightarrow> string) \<Rightarrow> raw \<Rightarrow> string" where
  "hashPayload sha canonical = sha (raw_text canonical)"

definition CanonicalHash :: "(string \<Rightarrow> string) \<Rightarrow> raw \<Rightarrow> string option" where
  "CanonicalHash sha r = map_option (hashPayload sha) (canonicalJSON r)"

definition keys_sorted :: "(string \<times> 'v) list \<Rightarrow> bool" where
  "keys_sorted fs = sorted_wrt (\<lambda>a b. fst a < fst b) fs"

lemma keys_sorted_Cons:
  "keys_sorted ((k, v) # fs) \<longleftrightarrow> (\<forall>f\<in>set fs. k < fst f) \<and> keys_sorted fs"
  by (simp add: keys_sorted_def)

lemma set_field_put: "set (map fst (field_put k v fs)) = insert k (set (map fst fs))"
  by (induction k v fs rule: field_put.induct) auto

lemma snd_field_put: "f \<in> set (field_put k v fs) \<Longrightarrow> f = (k, v) \<or> f \<in> set fs"
  by (induction k v fs rule: field_put.induct) (auto split: if_splits)

lemma keys_sorted_field_put: "keys_sorted fs \<Longrightarrow> keys_sorted (field_put k v fs)"
proof (induction k v fs rule: field_put.induct)
  case (1 k v)
  then show ?case by (simp add: keys_sorted_def)
next
  case (2 k v k' v' fs)
  then show ?case
    using set_field_put [of k v fs]
    by (auto simp: keys_sorted_Cons dest!: snd_field_put intro: less_trans)
qed

lemma field_put_last:
  "(\<forall>f\<in>set fs. fst f < k) \<Longrightarrow> field_put k v fs = fs @ [(k, v)]"
  by (induction k v fs rule: field_put.induct) auto

lemma foldl_field_put_sorted:
  "keys_sorted (acc @ fs) \<Longrightarrow> foldl (\<lambda>acc f. field_put (fst f) (snd f) acc) acc fs = acc @ fs"
proof (induction fs arbitrary: acc)
  case Nil
  then show ?case by simp
next
  case (Cons f fs)
  from Cons.prems have "\<forall>g\<in>set acc. fst g < fst f"
    by (auto simp: keys_sorted_def sorted_wrt_append)
  then have "field_put (fst f) (snd f) acc = acc @ [f]" by (simp add: field_put_last)
  with Cons.IH [of "acc @ [f]"] Cons.prems show ?case by simp
qed

lemma keys_sorted_foldl:
  "keys_sorted acc \<Longrightarrow> keys_sorted (foldl (\<lambda>acc f. field_put (fst f) (snd f) acc) acc fs)"
  by (induction fs arbitrary: acc) (auto intro: keys_sorted_field_put)

lemma foldl_field_put_values:
  "f \<in> set (foldl (\<lambda>acc f. field_put (fst f) (snd f) acc) acc fs) \<Longrightarrow> f \<in> set acc \<or> f \<in> set fs"
proof (induction fs arbitrary: acc)
  case Nil
  then show ?case by simp
next
  case (Cons g fs)
  from Cons.prems have "f \<in> set (field_put (fst g) (snd g) acc) \<or> f \<in> set fs"
    by (auto dest: Cons.IH)
  then show ?case by (auto dest!: snd_field_put)
qed

text \<open>Canonicalisation is idempotent: hashing a stored canonical payload again gives its hash.\<close>

lemma canon_canon: "canon (canon v) = canon v"
proof (induction v rule: canon.induct)
  case (1 xs)
  then show ?case by simp
next
  case (2 fs)
  let ?gs = "foldl (\<lambda>acc f. field_put (fst f) (snd f) acc) [] (map (\<lambda>f. (fst f, canon (snd f))) fs)"
  have vals: "canon (snd g) = snd g" if "g \<in> set ?gs" for g
    using foldl_field_put_values [OF that] 2 by auto
  have "map (\<lambda>f. (fst f, canon (snd f))) ?gs = ?gs"
    using vals by (intro map_idI) (simp add: prod_eq_iff)
  moreover have "keys_sorted ?gs" by (rule keys_sorted_foldl) (simp add: keys_sorted_def)
  ultimately show ?case using foldl_field_put_sorted [of "[]" ?gs] by simp
qed simp_all

lemma canonicalJSON_Some:
  "canonicalJSON r = Some c \<Longrightarrow> \<exists>v rest. raw_decode r = Some (v, rest) \<and> c = marshal (canon v)"
  by (auto simp: canonicalJSON_def split: option.splits if_splits)

lemma canonicalJSON_idem: "canonicalJSON r = Some c \<Longrightarrow> canonicalJSON c = Some c"
  by (drule canonicalJSON_Some) (auto simp: canonicalJSON_def decoder_more_def canon_canon)

end
