(* ===== verification/Platform_Db.thy ===== *)
theory Platform_Db
  imports Json_Text
begin

text \<open>
  The state of the platform: the tables of \<open>platform.db\<close> the modelled components read and write,
  with the Go structs that are their rows (\<open>run.Run\<close>, \<open>eventlog.Event\<close>, \<open>gates.Checkpoint\<close>,
  \<open>gates.Effect\<close>, the queue, lane, ask and task rows), the stored states, and the errors the
  components return.  A nullable text column holds the empty string for NULL and a nullable
  timestamp holds 0, which is how \<open>scanRun\<close> and its kin present them; the store functions write
  NULL exactly for those values (\<open>nullString\<close>, \<open>nullInt\<close>, \<open>nullFloat\<close>).
\<close>

section \<open>Stored states\<close>

datatype run_state =
    StateNew | StateQueued | StateClaimed | StateRunning | StateParked | StateDraining
  | StateCompleted | StateCrashed | StateFinalized | StateTombstoned | StateDiedAtGate

fun state_name :: "run_state \<Rightarrow> string" where
  "state_name StateNew = ''new''"
| "state_name StateQueued = ''queued''"
| "state_name StateClaimed = ''claimed''"
| "state_name StateRunning = ''running''"
| "state_name StateParked = ''parked''"
| "state_name StateDraining = ''draining''"
| "state_name StateCompleted = ''completed''"
| "state_name StateCrashed = ''crashed''"
| "state_name StateFinalized = ''finalized''"
| "state_name StateTombstoned = ''tombstoned''"
| "state_name StateDiedAtGate = ''died-at-gate''"

definition all_states :: "run_state list" where
  "all_states = [StateNew, StateQueued, StateClaimed, StateRunning, StateParked, StateDraining,
     StateCompleted, StateCrashed, StateFinalized, StateTombstoned, StateDiedAtGate]"

definition state_of_name :: "string \<Rightarrow> run_state option" where
  "state_of_name n = find (\<lambda>st. state_name st = n) all_states"

lemma state_of_name_name [simp]: "state_of_name (state_name st) = Some st"
  by (cases st) (simp_all add: state_of_name_def all_states_def)

lemma state_name_inj: "state_name a = state_name b \<longleftrightarrow> a = b"
  by (metis state_of_name_name option.inject)

lemma state_name_nonempty [simp]: "state_name st \<noteq> []"
  by (cases st) simp_all

datatype effect_class = ClassA | ClassB | ClassC | ClassD

datatype effect_state =
    EffectProposed | EffectApproved | EffectExecuting | EffectSucceeded | EffectFailed | EffectUnknown

datatype queue_status = QueueQueued | QueueClaimed | QueueDone

section \<open>Rows\<close>

record run_row =
  run_id :: string
  run_user :: string
  run_task :: string
  run_state :: run_state
  run_substrate :: string
  run_lane :: string
  run_lease_holder :: string
  run_lease_deadline :: time
  run_heartbeat_seq :: int
  run_generation :: int
  run_unit :: string
  run_workspace :: string
  run_ceiling_time :: int
  run_ceiling_steps :: int
  run_ceiling_cost :: rat
  run_parent :: string
  run_dispatch :: string
  run_attempts :: int
  run_created :: time
  run_updated :: time

record event_row =
  ev_seq :: int
  ev_run :: string
  ev_gen :: int
  ev_user :: string
  ev_type :: string
  ev_version :: int
  ev_payload :: raw
  ev_time :: time

record checkpoint_row =
  ck_id :: int
  ck_run :: string
  ck_user :: string
  ck_event_seq :: int
  ck_usage :: raw
  ck_session_substrate :: string
  ck_session_id :: string
  ck_message_index :: int
  ck_cwd_key :: string
  ck_transcript :: string
  ck_ledger_revision :: string
  ck_artifact_ref :: string
  ck_model :: string
  ck_invocation_fp :: string
  ck_tool_schema :: string
  ck_prompt_schema :: string
  ck_created :: time

record effect_row =
  eff_id :: string
  eff_run :: string
  eff_user :: string
  eff_class :: effect_class
  eff_payload :: raw
  eff_hash :: string
  eff_state :: effect_state
  eff_approved_by :: string
  eff_approved_ts :: time
  eff_key :: string
  eff_window_ref :: string
  eff_attempts :: int
  eff_result :: raw
  eff_created :: time
  eff_updated :: time

record queue_row =
  q_id :: int
  q_run :: string
  q_user :: string
  q_status :: queue_status
  q_claimed_by :: string
  q_lease_deadline :: time
  q_priority_lane :: string
  q_enqueued :: time
  q_hint_rank :: int

record lane_row =
  lane_user :: string
  lane_name :: string
  lane_cap :: int

record ask_row =
  ask_id :: string
  ask_run :: string
  ask_user :: string
  ask_snapshot :: raw
  ask_status :: string
  ask_observed :: time
  ask_answered :: time
  ask_engine_expiry :: time

record task_row =
  task_id :: string
  task_user :: string
  task_kanban :: string

section \<open>Metering rows\<close>

text \<open>\<open>metering.ApproximationTier\<close>: 1 (measured) to 5 (unknown), compared as numbers.\<close>

type_synonym approx_tier = int

datatype purpose = PurposeCeremony | PurposeExecution | PurposeVerification | PurposeProbe

datatype currency = CurrencyAPIEquiv | CurrencyReal

record unit_prices =
  up_input :: rat
  up_output :: rat
  up_cache_read :: rat
  up_cache_creation :: rat
  up_server_tool :: rat

record price_row =
  pr_model :: string
  pr_lane :: string
  pr_prices :: unit_prices
  pr_effective :: time
  pr_verified :: time
  pr_source :: string

record stored_price_row =
  sp_id :: int
  sp_row :: price_row
  sp_by :: string
  sp_ts :: time
  sp_reason :: string

record line_item =
  li_model :: string
  li_lane :: string
  li_purpose :: purpose
  li_tier :: approx_tier
  li_calls :: int
  li_prompt :: int
  li_output :: int
  li_cache_read :: int
  li_cache_creation :: int
  li_server_tools :: int
  li_usd :: rat
  li_priced :: int
  li_unpriced :: int
  li_currency :: currency
  li_version :: string

record park_episode =
  pe_parked :: time
  pe_resumed :: time
  pe_seconds :: int
  pe_reason :: string
  pe_cause :: string
  pe_ongoing :: bool

record direct_use =
  du_label :: string
  du_formula :: string
  du_unpriced :: bool
  du_usd :: rat
  du_currency :: currency

record receipt =
  rc_run :: string
  rc_user :: string
  rc_items :: "line_item list"
  rc_currency :: currency
  rc_usd :: rat
  rc_calls :: int
  rc_unpriced :: int
  rc_worst :: approx_tier
  rc_parks :: "park_episode list"
  rc_requests :: "string list"
  rc_mode :: string
  rc_direct :: direct_use
  rc_ts :: time

text \<open>
  A \<open>receipts\<close> row holds the receipt's JSON; it is read back by the decoder of the same type, so the
  row is kept as the receipt itself.
\<close>

record receipt_row =
  rr_id :: int
  rr_run :: string
  rr_user :: string
  rr_receipt :: receipt
  rr_ts :: time

record user_row =
  user_id :: string
  user_paused :: bool

record budget_row =
  bg_user :: string
  bg_lane :: string
  bg_tokens :: int
  bg_start :: time
  bg_days :: int
  bg_ts :: time
  bg_by :: string

record plan_budget_row =
  pb_user :: string
  pb_lane :: string
  pb_window :: string
  pb_units :: rat
  pb_unit :: string
  pb_start :: time
  pb_hours :: rat
  pb_source :: string
  pb_seeded :: string
  pb_fraction :: rat
  pb_ts :: time
  pb_by :: string

section \<open>The database\<close>

record db =
  t_tasks :: "task_row list"
  t_runs :: "run_row list"
  t_events :: "event_row list"
  t_checkpoints :: "checkpoint_row list"
  t_asks :: "ask_row list"
  t_effects :: "effect_row list"
  t_queue :: "queue_row list"
  t_lanes :: "lane_row list"
  t_users :: "user_row list"
  t_budgets :: "budget_row list"
  t_plan_budgets :: "plan_budget_row list"
  t_prices :: "stored_price_row list"
  t_receipts :: "receipt_row list"

definition empty_db :: db where
  "empty_db = \<lparr>t_tasks = [], t_runs = [], t_events = [], t_checkpoints = [], t_asks = [],
     t_effects = [], t_queue = [], t_lanes = [], t_users = [], t_budgets = [],
     t_plan_budgets = [], t_prices = [], t_receipts = []\<rparr>"

section \<open>Errors and settings\<close>

text \<open>The errors of the local tier have a type of their own.\<close>

datatype (plugins only: code size) local_error =
    ErrStackAbsent
  | NoConsumingRun string
  | ErrAdmissionsStopped
  | ErrEmbedderPostGate
  | ErrUnknownAlias string
  | ErrNoSeat string string
  | ErrNotServable string
  | SchemaNotJSON
  | NoAbstainMember
  | PowerReadFailed
  | UnexpectedBatteryMode string
  | GpuReadFailed
  | SmiReadFailed string
  | SmiWithoutGpu string
  | ErrGPUAdmissionRefused string
  | AdmissionsFlagFailed
  | UnloadFailed
  | SignalFailed int
  | SurvivedKill int
  | RecoveryNotVerified
  | Cancelled
  | ChatFailed
  | ChatStatus int
  | ChatUndecodable
  | ChatRefused
  | ChatNoChoices
  | MeteringWriteFailed string
  | ErrTruncated string
  | GrantWithoutRun
  | GrantForC0
  | RandomFailed

datatype (plugins only: code size) error =
  \<comment> \<open>internal/eventlog\<close>
    ErrUnknownRun string
  | ErrStaleGeneration int int
  | ErrFutureGeneration int int
  | ErrPayloadTooLarge int int
  | ErrInvalidEvent string
  | ErrInvalidPayload
  | ErrGenerationOnPlatformEvent
  | NonPositiveLimit int
  \<comment> \<open>internal/run\<close>
  | EmptyRunID
  | EmptyUserID
  | NotAStoredState string
  | ErrExists string
  | ErrNotFound string
  | ErrInvalidTransition run_state run_state string
  | ConcurrentStateChange string
  | RenewWithoutDeadline string
  | HookAlreadySet
  | NilHook
  \<comment> \<open>internal/gates\<close>
  | CheckpointWithoutRun
  | UsageNotJSON
  | ErrRunNotFound string
  | ErrNotCheckpointable string run_state
  | InvalidEffectClass string
  | PayloadNotJSON
  | ApprovalWithoutApprover
  | DenialWithoutActor
  | ErrEffectNotFound string
  | ErrBadState string effect_state
  | ErrApprovalExpired string
  | ErrPayloadDrift string
  | ResultNotJSON
  \<comment> \<open>internal/scheduler\<close>
  | InvalidWorkloadClass string
  | CannotEnqueue string run_state
  | NegativeLaneCap string string
  | SettleNonTerminal string run_state
  | AdmissionCheckFailed string
  \<comment> \<open>internal/recovery\<close>
  | NoOpenLadderCard string
  | UndecodableCard string
  | ProbeFailed string
  \<comment> \<open>internal/metering\<close>
  | NoSuchPerson string
  | BadBudget string string
  | PlanBudgetRefused string string string
  | NotAPlanLane string
  | ErrPlanDoc string
  | ErrBadPriceRow
  | PriceTableStale int
  | ReceiptForUnknownRun string
  \<comment> \<open>internal/local\<close>
  | LocalError local_error
  \<comment> \<open>shared\<close>
  | SettingUnreadable string
  | MarshalFailed string
  | ConstraintFailed string
  | HookFailed string

type_synonym 'a dbtx = "(error, db, 'a) tx"

text \<open>
  The settings registry as every component sees it (its \<open>Settings\<close> interface): effective values by
  dotted key, or an error.
\<close>

record settings =
  set_int :: "string \<Rightarrow> int option"
  set_float :: "string \<Rightarrow> rat option"
  set_duration :: "string \<Rightarrow> duration option"
  set_string :: "string \<Rightarrow> string option"
  set_bool :: "string \<Rightarrow> bool option"
  set_map :: "string \<Rightarrow> (string \<rightharpoonup> string) option"

definition read_int :: "settings \<Rightarrow> string \<Rightarrow> error + int" where
  "read_int cfg k = (case set_int cfg k of None \<Rightarrow> Inl (SettingUnreadable k) | Some v \<Rightarrow> Inr v)"

definition read_float :: "settings \<Rightarrow> string \<Rightarrow> error + rat" where
  "read_float cfg k = (case set_float cfg k of None \<Rightarrow> Inl (SettingUnreadable k) | Some v \<Rightarrow> Inr v)"

definition read_duration :: "settings \<Rightarrow> string \<Rightarrow> error + duration" where
  "read_duration cfg k =
     (case set_duration cfg k of None \<Rightarrow> Inl (SettingUnreadable k) | Some v \<Rightarrow> Inr v)"

definition read_string :: "settings \<Rightarrow> string \<Rightarrow> error + string" where
  "read_string cfg k = (case set_string cfg k of None \<Rightarrow> Inl (SettingUnreadable k) | Some v \<Rightarrow> Inr v)"

definition read_bool :: "settings \<Rightarrow> string \<Rightarrow> error + bool" where
  "read_bool cfg k = (case set_bool cfg k of None \<Rightarrow> Inl (SettingUnreadable k) | Some v \<Rightarrow> Inr v)"

definition read_map :: "settings \<Rightarrow> string \<Rightarrow> error + (string \<rightharpoonup> string)" where
  "read_map cfg k = (case set_map cfg k of None \<Rightarrow> Inl (SettingUnreadable k) | Some v \<Rightarrow> Inr v)"

lemma read_string_Inr [simp]: "read_string cfg k = Inr v \<longleftrightarrow> set_string cfg k = Some v"
  by (auto simp: read_string_def split: option.splits)

lemma read_bool_Inr [simp]: "read_bool cfg k = Inr v \<longleftrightarrow> set_bool cfg k = Some v"
  by (auto simp: read_bool_def split: option.splits)

lemma read_map_Inr [simp]: "read_map cfg k = Inr v \<longleftrightarrow> set_map cfg k = Some v"
  by (auto simp: read_map_def split: option.splits)

lemma read_int_Inr [simp]: "read_int cfg k = Inr v \<longleftrightarrow> set_int cfg k = Some v"
  by (auto simp: read_int_def split: option.splits)

lemma read_float_Inr [simp]: "read_float cfg k = Inr v \<longleftrightarrow> set_float cfg k = Some v"
  by (auto simp: read_float_def split: option.splits)

lemma read_duration_Inr [simp]: "read_duration cfg k = Inr v \<longleftrightarrow> set_duration cfg k = Some v"
  by (auto simp: read_duration_def split: option.splits)

section \<open>Single-row access\<close>

definition find_run :: "string \<Rightarrow> db \<Rightarrow> run_row option" where
  "find_run rid s = tbl_find (\<lambda>r. run_id r = rid) (t_runs s)"

definition update_runs :: "(run_row \<Rightarrow> bool) \<Rightarrow> (run_row \<Rightarrow> run_row) \<Rightarrow> db \<Rightarrow> db" where
  "update_runs p f s = s\<lparr>t_runs := tbl_update p f (t_runs s)\<rparr>"

definition find_effect :: "string \<Rightarrow> db \<Rightarrow> effect_row option" where
  "find_effect eid s = tbl_find (\<lambda>e. eff_id e = eid) (t_effects s)"

definition update_effects :: "(effect_row \<Rightarrow> bool) \<Rightarrow> (effect_row \<Rightarrow> effect_row) \<Rightarrow> db \<Rightarrow> db" where
  "update_effects p f s = s\<lparr>t_effects := tbl_update p f (t_effects s)\<rparr>"

definition update_queue :: "(queue_row \<Rightarrow> bool) \<Rightarrow> (queue_row \<Rightarrow> queue_row) \<Rightarrow> db \<Rightarrow> db" where
  "update_queue p f s = s\<lparr>t_queue := tbl_update p f (t_queue s)\<rparr>"

definition has_task :: "string \<Rightarrow> db \<Rightarrow> bool" where
  "has_task tid s = list_ex (\<lambda>t. task_id t = tid) (t_tasks s)"

definition has_run :: "string \<Rightarrow> db \<Rightarrow> bool" where
  "has_run rid s = (find_run rid s \<noteq> None)"

text \<open>The primary keys of the schema, each an instance of the table contract.\<close>

definition runs_keyed :: "run_row list \<Rightarrow> bool" where
  "runs_keyed rows \<longleftrightarrow> distinct (map run_id rows)"

definition effects_keyed :: "effect_row list \<Rightarrow> bool" where
  "effects_keyed rows \<longleftrightarrow> distinct (map eff_id rows)"

definition queue_keyed :: "queue_row list \<Rightarrow> bool" where
  "queue_keyed rows \<longleftrightarrow> distinct (map q_id rows)"

interpretation runs: keyed_table run_id runs_keyed
  by unfold_locales (simp add: runs_keyed_def)

interpretation effects: keyed_table eff_id effects_keyed
  by unfold_locales (simp add: effects_keyed_def)

interpretation queue_tbl: keyed_table q_id queue_keyed
  by unfold_locales (simp add: queue_keyed_def)

text \<open>Projections of the state after an update of one table.\<close>

lemma t_runs_update_runs [simp]: "t_runs (update_runs p f s) = tbl_update p f (t_runs s)"
  by (simp add: update_runs_def)

lemma t_other_update_runs [simp]:
  "t_tasks (update_runs p f s) = t_tasks s" "t_events (update_runs p f s) = t_events s"
  "t_checkpoints (update_runs p f s) = t_checkpoints s" "t_asks (update_runs p f s) = t_asks s"
  "t_effects (update_runs p f s) = t_effects s" "t_queue (update_runs p f s) = t_queue s"
  "t_lanes (update_runs p f s) = t_lanes s"
  by (simp_all add: update_runs_def)

lemma t_queue_update_queue [simp]: "t_queue (update_queue p f s) = tbl_update p f (t_queue s)"
  by (simp add: update_queue_def)

lemma t_other_update_queue [simp]:
  "t_tasks (update_queue p f s) = t_tasks s" "t_events (update_queue p f s) = t_events s"
  "t_checkpoints (update_queue p f s) = t_checkpoints s" "t_asks (update_queue p f s) = t_asks s"
  "t_effects (update_queue p f s) = t_effects s" "t_runs (update_queue p f s) = t_runs s"
  "t_lanes (update_queue p f s) = t_lanes s"
  by (simp_all add: update_queue_def)

lemma t_effects_update_effects [simp]:
  "t_effects (update_effects p f s) = tbl_update p f (t_effects s)"
  by (simp add: update_effects_def)

lemma t_other_update_effects [simp]:
  "t_tasks (update_effects p f s) = t_tasks s" "t_events (update_effects p f s) = t_events s"
  "t_checkpoints (update_effects p f s) = t_checkpoints s" "t_asks (update_effects p f s) = t_asks s"
  "t_queue (update_effects p f s) = t_queue s" "t_runs (update_effects p f s) = t_runs s"
  "t_lanes (update_effects p f s) = t_lanes s"
  by (simp_all add: update_effects_def)

lemma find_run_Some: "find_run rid s = Some r \<Longrightarrow> r \<in> set (t_runs s) \<and> run_id r = rid"
  by (auto simp: find_run_def dest: tbl_find_Some)

lemma find_run_None: "find_run rid s = None \<longleftrightarrow> rid \<notin> run_id ` set (t_runs s)"
  by (auto simp: find_run_def tbl_find_None)

lemma find_run_cong: "t_runs s = t_runs t \<Longrightarrow> find_run rid s = find_run rid t"
  by (simp add: find_run_def)

text \<open>A write that touches only the row of one run id leaves every other run as it was.\<close>

lemma find_run_update_other:
  assumes only: "\<And>r. r \<in> set (t_runs s) \<Longrightarrow> p r \<Longrightarrow> run_id r = rid"
    and keep: "\<And>r. run_id (f r) = run_id r"
    and other: "rid' \<noteq> rid"
  shows "find_run rid' (update_runs p f s) = find_run rid' s"
proof -
  have "find (\<lambda>r. run_id r = rid') (map (\<lambda>r. if p r then f r else r) xs)
        = find (\<lambda>r. run_id r = rid') xs" if "set xs \<subseteq> set (t_runs s)" for xs
    using that by (induction xs) (use only keep other in auto)
  then show ?thesis by (simp add: find_run_def tbl_find_def tbl_update_def)
qed

lemma find_run_update_same:
  assumes "find_run rid s = Some r"
    and keep: "\<And>x. run_id (f x) = run_id x"
  shows "find_run rid (update_runs (\<lambda>x. run_id x = rid \<and> q x) f s) =
    Some (if q r then f r else r)"
proof -
  have "find (\<lambda>x. run_id x = rid) xs = Some r \<Longrightarrow>
    find (\<lambda>x. run_id x = rid) (map (\<lambda>x. if run_id x = rid \<and> q x then f x else x) xs)
      = Some (if q r then f r else r)" for xs
    by (induction xs) (auto simp: keep split: if_splits)
  with assms(1) show ?thesis by (simp add: find_run_def tbl_find_def tbl_update_def)
qed

lemma map_run_id_update:
  "(\<And>x. run_id (f x) = run_id x) \<Longrightarrow> map run_id (tbl_update p f rows) = map run_id rows"
  by (simp add: tbl_update_def)

end
