(* ===== verification/Workload.thy ===== *)
theory Workload
  imports Float64 Platform_Db "HOL-Library.Product_Lexorder" "HOL-Library.Multiset"
begin

text \<open>
  \<open>internal/scheduler/workload.go\<close> and \<open>sortCandidates\<close> of \<open>claim.go\<close>: the workload ladder, the
  aging score in \<open>float64\<close>, the admission keys and the drag-hint permutation.  \<open>sort.SliceStable\<close>
  is modelled as a stable insertion sort by the comparator the code passes, so nothing presupposes
  that the comparator is an order; the locale \<open>keyed_less\<close> is the contract under which it is one
  (the comparator compares the keys of a linear order), and its interpretations show that the
  code's comparators meet it.
\<close>

section \<open>Classes and scores\<close>

datatype workload_class =
  ClassInteractive | ClassHumanBlocked | ClassScheduled | ClassBackground | ClassProbe

definition DefaultWorkloadClass :: workload_class where
  "DefaultWorkloadClass = ClassBackground"

fun class_name :: "workload_class \<Rightarrow> string" where
  "class_name ClassInteractive = ''interactive''"
| "class_name ClassHumanBlocked = ''human-blocked''"
| "class_name ClassScheduled = ''scheduled''"
| "class_name ClassBackground = ''background''"
| "class_name ClassProbe = ''probe''"

text \<open>The class a stored text names; \<open>None\<close> is what \<open>validClass\<close> refuses.\<close>

definition workload_of_name :: "string \<Rightarrow> workload_class option" where
  "workload_of_name n = find (\<lambda>c. class_name c = n)
     [ClassInteractive, ClassHumanBlocked, ClassScheduled, ClassBackground, ClassProbe]"

lemma workload_of_name_name [simp]: "workload_of_name (class_name c) = Some c"
  by (cases c) (simp_all add: workload_of_name_def)

definition agingGap :: rat where "agingGap = 3600"

fun classBias :: "workload_class \<Rightarrow> rat" where
  "classBias ClassInteractive = 4 * agingGap"
| "classBias ClassHumanBlocked = 3 * agingGap"
| "classBias ClassScheduled = 2 * agingGap"
| "classBias ClassBackground = 1 * agingGap"
| "classBias ClassProbe = 0"

datatype order_key = OrderKey (ok_score: rat) (ok_enqueued: time) (ok_queue: int)

record candidate =
  c_queue :: int
  c_run :: string
  c_user :: string
  c_lane :: string
  c_substrate :: string
  c_class :: workload_class
  c_enqueued :: time
  c_hint :: int
  c_key :: "order_key option" \<comment> \<open>\<open>key\<close> when \<open>keyed\<close>\<close>

definition before :: "order_key \<Rightarrow> order_key \<Rightarrow> bool" where
  "before k j =
     (if ok_score k \<noteq> ok_score j then ok_score k > ok_score j
      else if ok_enqueued k \<noteq> ok_enqueued j then ok_enqueued k < ok_enqueued j
      else ok_queue k < ok_queue j)"

definition score :: "time \<Rightarrow> candidate \<Rightarrow> rat" where
  "score now c =
     (let wait = seconds (time_sub now (c_enqueued c)); wait = (if wait < 0 then 0 else wait)
      in fl (classBias (c_class c) + wait))"

definition naturalKey :: "time \<Rightarrow> candidate \<Rightarrow> order_key" where
  "naturalKey now c = OrderKey (score now c) (c_enqueued c) (c_queue c)"

definition orderKeyAt :: "time \<Rightarrow> candidate \<Rightarrow> order_key" where
  "orderKeyAt now c = (case c_key c of Some k \<Rightarrow> k | None \<Rightarrow> naturalKey now c)"

definition priorityLess :: "time \<Rightarrow> candidate \<Rightarrow> candidate \<Rightarrow> bool" where
  "priorityLess now a b =
     (let ai = (c_class a = ClassInteractive); bi = (c_class b = ClassInteractive)
      in if ai \<noteq> bi then ai else before (orderKeyAt now a) (orderKeyAt now b))"

section \<open>Sorting with a comparator\<close>

fun insert_by :: "('a \<Rightarrow> 'a \<Rightarrow> bool) \<Rightarrow> 'a \<Rightarrow> 'a list \<Rightarrow> 'a list" where
  "insert_by lt x [] = [x]"
| "insert_by lt x (y # ys) = (if lt y x then y # insert_by lt x ys else x # y # ys)"

definition stable_sort :: "('a \<Rightarrow> 'a \<Rightarrow> bool) \<Rightarrow> 'a list \<Rightarrow> 'a list" where
  "stable_sort lt xs = foldr (insert_by lt) xs []"

locale keyed_less =
  fixes lt :: "'a \<Rightarrow> 'a \<Rightarrow> bool"
    and key :: "'a \<Rightarrow> 'k :: linorder"
  assumes less_key: "lt a b \<longleftrightarrow> key a < key b"
begin

lemma insert_by_insort: "insert_by lt x ys = insort_key key x ys"
  by (induction ys) (auto simp: less_key)

lemma stable_sort_eq: "stable_sort lt xs = sort_key key xs"
  by (induction xs) (simp_all add: stable_sort_def insert_by_insort)

lemma mset_stable_sort: "mset (stable_sort lt xs) = mset xs"
  by (simp add: stable_sort_eq)

lemma set_stable_sort: "set (stable_sort lt xs) = set xs"
  by (simp add: stable_sort_eq)

lemma sorted_stable_sort: "sorted (map key (stable_sort lt xs))"
  by (simp add: stable_sort_eq)

text \<open>When the keys differ, the result depends on the elements only, not on their order.\<close>

lemma stable_sort_unique:
  assumes "mset xs = mset ys" "inj_on key (set xs)"
  shows "stable_sort lt xs = stable_sort lt ys"
  unfolding stable_sort_eq
  by (rule sort_key_inj_key_eq) (use assms in simp_all)

end

section \<open>The keys are a linear order\<close>

instantiation order_key :: linorder
begin

definition less_order_key :: "order_key \<Rightarrow> order_key \<Rightarrow> bool" where
  "less_order_key k j \<longleftrightarrow> before k j"

definition less_eq_order_key :: "order_key \<Rightarrow> order_key \<Rightarrow> bool" where
  "less_eq_order_key k j \<longleftrightarrow> k = j \<or> before k j"

instance
  by standard (auto simp: less_order_key_def less_eq_order_key_def before_def
      order_key.expand split: if_splits)

end

section \<open>The hint permutation\<close>

definition same_group :: "candidate \<Rightarrow> candidate \<Rightarrow> bool" where
  "same_group a b \<longleftrightarrow> c_user a = c_user b \<and> c_class a = c_class b"

text \<open>The indices of the members of the group of candidate \<open>i\<close>, in slice order.\<close>

definition members :: "candidate list \<Rightarrow> nat \<Rightarrow> nat list" where
  "members cands i = filter (\<lambda>j. same_group (cands ! j) (cands ! i)) [0..<length cands]"

definition group_keys :: "time \<Rightarrow> candidate list \<Rightarrow> nat list \<Rightarrow> order_key list" where
  "group_keys now cands ms = stable_sort before (map (\<lambda>i. naturalKey now (cands ! i)) ms)"

definition hint_less :: "time \<Rightarrow> candidate \<Rightarrow> candidate \<Rightarrow> bool" where
  "hint_less now x y =
     (if c_hint x \<noteq> c_hint y then c_hint x < c_hint y
      else before (naturalKey now x) (naturalKey now y))"

definition hint_order :: "time \<Rightarrow> candidate list \<Rightarrow> nat list \<Rightarrow> nat list" where
  "hint_order now cands ms = stable_sort (\<lambda>a b. hint_less now (cands ! a) (cands ! b)) ms"

text \<open>\<open>for pos, i := range order { cands[i].key = keys[pos] }\<close>, read at one index.\<close>

definition permuted_key :: "time \<Rightarrow> candidate list \<Rightarrow> nat \<Rightarrow> order_key" where
  "permuted_key now cands i =
     (let ms = members cands i in
      if length ms < 2 then naturalKey now (cands ! i)
      else case map_of (zip (hint_order now cands ms) (group_keys now cands ms)) i of
             Some k \<Rightarrow> k
           | None \<Rightarrow> naturalKey now (cands ! i))"

definition permuteHints :: "time \<Rightarrow> candidate list \<Rightarrow> candidate list" where
  "permuteHints now cands =
     map (\<lambda>i. (cands ! i)\<lparr>c_key := Some (permuted_key now cands i)\<rparr>) [0..<length cands]"

definition sortCandidates :: "time \<Rightarrow> candidate list \<Rightarrow> candidate list" where
  "sortCandidates now cands = stable_sort (priorityLess now) (permuteHints now cands)"

interpretation keys: keyed_less before "\<lambda>k. k"
  by unfold_locales (simp add: less_order_key_def)

interpretation hints: keyed_less "hint_less now" "\<lambda>c. (c_hint c, naturalKey now c)" for now
  by unfold_locales (auto simp: hint_less_def less_prod_def less_order_key_def less_eq_order_key_def)

interpretation hints_at: keyed_less "\<lambda>a b. hint_less now (cands ! a) (cands ! b)"
    "\<lambda>i. (c_hint (cands ! i), naturalKey now (cands ! i))" for now cands
  by unfold_locales (rule hints.less_key)

interpretation admission: keyed_less "priorityLess now"
    "\<lambda>c. (c_class c \<noteq> ClassInteractive, orderKeyAt now c)" for now
  by unfold_locales (auto simp: priorityLess_def less_prod_def less_order_key_def less_eq_order_key_def
      less_bool_def le_bool_def Let_def)

section \<open>Positions in a sorted list\<close>

text \<open>In a sorted list with distinct keys, an element stands after exactly the smaller ones.\<close>

lemma sort_key_position:
  fixes f :: "'a \<Rightarrow> 'k :: linorder"
  assumes "distinct xs" "inj_on f (set xs)" "p < length xs"
  shows "card {y \<in> set xs. f y < f (sort_key f xs ! p)} = p"
proof -
  let ?zs = "sort_key f xs"
  have strict: "f (?zs ! a) < f (?zs ! b)" if "a < b" "b < length xs" for a b
  proof -
    have "f (?zs ! a) \<le> f (?zs ! b)"
      using that sorted_nth_mono [OF sorted_sort_key [of f xs], of a b] by simp
    moreover have "?zs ! a \<noteq> ?zs ! b"
      using that assms(1) by (simp add: nth_eq_iff_index_eq)
    moreover have "?zs ! a \<in> set xs" "?zs ! b \<in> set xs"
      using that nth_mem [of a ?zs] nth_mem [of b ?zs] by simp_all
    ultimately show ?thesis using assms(2) by (auto simp: inj_on_def order_le_less)
  qed
  have "{y \<in> set xs. f y < f (?zs ! p)} = (\<lambda>a. ?zs ! a) ` {..<p}"
  proof (rule set_eqI)
    fix y
    show "y \<in> {y \<in> set xs. f y < f (?zs ! p)} \<longleftrightarrow> y \<in> (\<lambda>a. ?zs ! a) ` {..<p}"
    proof
      assume y: "y \<in> {y \<in> set xs. f y < f (?zs ! p)}"
      then obtain a where a: "a < length xs" "y = ?zs ! a"
        by (metis (no_types, lifting) in_set_conv_nth length_sort mem_Collect_eq set_sort)
      then have "a < p" using y strict [of p a] by (metis (no_types, lifting) linorder_cases mem_Collect_eq order_less_asym order_less_irrefl)
      with a show "y \<in> (\<lambda>a. ?zs ! a) ` {..<p}" by blast
    next
      assume "y \<in> (\<lambda>a. ?zs ! a) ` {..<p}"
      then obtain a where "a < p" "y = ?zs ! a" by blast
      with strict [of a p] assms(3) nth_mem [of a ?zs] show "y \<in> {y \<in> set xs. f y < f (?zs ! p)}" by simp
    qed
  qed
  moreover have "inj_on (\<lambda>a. ?zs ! a) {..<p}"
    using assms(1,3) by (auto simp: inj_on_def nth_eq_iff_index_eq)
  ultimately show ?thesis by (simp add: card_image)
qed

lemma map_of_zip_sort_key:
  fixes f :: "'a \<Rightarrow> 'k :: linorder"
  assumes "distinct xs" "inj_on f (set xs)" "x \<in> set xs" "length ks = length xs"
  shows "map_of (zip (sort_key f xs) ks) x = Some (ks ! card {y \<in> set xs. f y < f x})"
proof -
  obtain p where p: "p < length xs" "x = sort_key f xs ! p"
    using assms(3) by (metis in_set_conv_nth length_sort set_sort)
  then have "card {y \<in> set xs. f y < f x} = p" using sort_key_position [OF assms(1,2)] by simp
  with p assms(1,4) show ?thesis by (simp add: map_of_zip_nth)
qed

text \<open>Ranking a finite set by an injective key enumerates \<open>0 .. card - 1\<close>.\<close>

lemma rank_bij:
  fixes f :: "'a \<Rightarrow> 'k :: linorder"
  assumes "finite A" "inj_on f A"
  shows "bij_betw (\<lambda>x. card {y \<in> A. f y < f x}) A {..<card A}"
proof -
  have less: "card {y \<in> A. f y < f a} < card {y \<in> A. f y < f b}" if "a \<in> A" "f a < f b" for a b
    using that assms(1) by (intro psubset_card_mono) (auto intro: less_trans)
  have "inj_on (\<lambda>x. card {y \<in> A. f y < f x}) A"
  proof (rule inj_onI)
    fix a b
    assume "a \<in> A" "b \<in> A" "card {y \<in> A. f y < f a} = card {y \<in> A. f y < f b}"
    with less [of a b] less [of b a] have "f a = f b" by (cases "f a" "f b" rule: linorder_cases) auto
    with \<open>a \<in> A\<close> \<open>b \<in> A\<close> show "a = b" using assms(2) by (auto simp: inj_on_def)
  qed
  moreover have "(\<lambda>x. card {y \<in> A. f y < f x}) ` A \<subseteq> {..<card A}"
    using assms(1) by (auto intro!: psubset_card_mono)
  ultimately show ?thesis
    by (simp add: bij_betw_def card_image card_subset_eq)
qed

section \<open>What the permutation does\<close>

text \<open>
  The assigned key as a function of the \<^emph>\<open>set\<close> of candidates: the members of the group in hint
  order receive the group's natural keys in key order.
\<close>

definition grp :: "candidate set \<Rightarrow> candidate \<Rightarrow> candidate set" where
  "grp C c = {d \<in> C. same_group d c}"

definition hint_key :: "time \<Rightarrow> candidate \<Rightarrow> int \<times> order_key" where
  "hint_key now c = (c_hint c, naturalKey now c)"

definition assigned :: "time \<Rightarrow> candidate set \<Rightarrow> candidate \<Rightarrow> order_key" where
  "assigned now C c = sorted_list_of_set (naturalKey now ` grp C c) !
     card {d \<in> grp C c. hint_key now d < hint_key now c}"

lemma inj_natural: "distinct (map c_queue cands) \<Longrightarrow> inj_on (naturalKey now) (set cands)"
  by (auto simp: inj_on_def naturalKey_def distinct_map)

lemma inj_hint_key: "inj_on (naturalKey now) C \<Longrightarrow> inj_on (hint_key now) C"
  by (auto simp: inj_on_def hint_key_def)

lemma same_group_grp: "same_group d c \<Longrightarrow> grp C d = grp C c"
  by (auto simp: grp_def same_group_def)

lemma assigned_bij:
  assumes "finite C" "inj_on (naturalKey now) C"
  shows "bij_betw (assigned now C) (grp C c) (naturalKey now ` grp C c)"
proof -
  let ?G = "grp C c"
  let ?ks = "sorted_list_of_set (naturalKey now ` ?G)"
  have fin: "finite ?G" and sub: "?G \<subseteq> C" using assms(1) by (auto simp: grp_def)
  have inj: "inj_on (naturalKey now) ?G" using assms(2) sub by (rule inj_on_subset)
  have len: "length ?ks = card ?G" using inj by (simp add: card_image)
  have "bij_betw (\<lambda>k. ?ks ! k) {..<card ?G} (naturalKey now ` ?G)"
    by (rule bij_betw_nth) (use fin len in simp_all)
  from bij_betw_trans [OF rank_bij [OF fin inj_hint_key [OF inj]] this]
  have "bij_betw (\<lambda>x. ?ks ! card {d \<in> ?G. hint_key now d < hint_key now x}) ?G (naturalKey now ` ?G)"
    by (simp add: comp_def)
  then show ?thesis
    by (rule bij_betw_cong [THEN iffD1, rotated]) (simp add: assigned_def grp_def same_group_def)
qed

lemma assigned_in: "finite C \<Longrightarrow> inj_on (naturalKey now) C \<Longrightarrow> c \<in> C \<Longrightarrow>
  assigned now C c \<in> naturalKey now ` grp C c"
  using assigned_bij [of C now c] by (force simp: bij_betw_def grp_def same_group_def)

lemma assigned_inj:
  assumes "finite C" "inj_on (naturalKey now) C"
  shows "inj_on (assigned now C) C"
proof (rule inj_onI)
  fix c d
  assume cd: "c \<in> C" "d \<in> C" "assigned now C c = assigned now C d"
  from assigned_in [OF assms cd(1)] assigned_in [OF assms cd(2)] cd(3) obtain x y
    where xy: "x \<in> grp C c" "y \<in> grp C d" "naturalKey now x = naturalKey now y" by auto
  then have "x = y" using assms(2) by (auto simp: inj_on_def grp_def)
  with xy have "same_group c d" by (auto simp: grp_def same_group_def)
  then have "c \<in> grp C d" "d \<in> grp C d" using cd by (auto simp: grp_def same_group_def)
  with cd(3) assigned_bij [OF assms, of d] show "c = d" by (auto simp: bij_betw_def inj_on_def)
qed

lemma members_props:
  assumes "i < length cands"
  shows "i \<in> set (members cands i)" "distinct (members cands i)"
    "(!) cands ` set (members cands i) = grp (set cands) (cands ! i)"
  using assms by (auto simp: members_def grp_def same_group_def in_set_conv_nth image_iff)

lemma permuted_key_assigned:
  assumes dist: "distinct (map c_queue cands)" and i: "i < length cands"
  shows "permuted_key now cands i = assigned now (set cands) (cands ! i)"
proof -
  let ?C = "set cands" and ?c = "cands ! i" and ?ms = "members cands i"
  let ?f = "\<lambda>j. hint_key now (cands ! j)"
  let ?ks = "group_keys now cands ?ms"
  have dcands: "distinct cands" using dist by (simp add: distinct_map)
  have ms: "set ?ms \<subseteq> {..<length cands}" by (auto simp: members_def)
  have inj_nth: "inj_on ((!) cands) (set ?ms)"
    by (rule inj_on_nth [OF dcands]) (use ms in auto)
  have injn: "inj_on (naturalKey now) ?C" by (rule inj_natural [OF dist])
  have sub: "(!) cands ` set ?ms \<subseteq> ?C" using ms by auto
  have injf: "inj_on ?f (set ?ms)"
    using comp_inj_on [OF inj_nth inj_on_subset [OF inj_hint_key [OF injn] sub]] by (simp add: comp_def)
  have nat_ms: "(\<lambda>j. naturalKey now (cands ! j)) ` set ?ms = naturalKey now ` grp ?C ?c"
    using members_props(3) [OF i] by (metis image_image)
  have inj2: "inj_on (\<lambda>j. naturalKey now (cands ! j)) (set ?ms)"
    using comp_inj_on [OF inj_nth inj_on_subset [OF injn sub]] by (simp add: comp_def)
  have ks: "?ks = sorted_list_of_set (naturalKey now ` grp ?C ?c)"
  proof -
    have "?ks = sort (map (\<lambda>j. naturalKey now (cands ! j)) ?ms)"
      by (simp add: group_keys_def keys.stable_sort_eq)
    also have "\<dots> = sorted_list_of_set (set (map (\<lambda>j. naturalKey now (cands ! j)) ?ms))"
      unfolding sorted_list_of_set_sort_remdups
      using members_props(2) [OF i] inj2 by (simp add: distinct_map distinct_remdups_id)
    finally show ?thesis using nat_ms by simp
  qed
  have order: "hint_order now cands ?ms = sort_key ?f ?ms"
    by (simp add: hint_order_def hints_at.stable_sort_eq hint_key_def)
  have len: "length ?ks = length ?ms" by (simp add: group_keys_def keys.stable_sort_eq)
  have "card {y \<in> set ?ms. ?f y < ?f i} = card ((!) cands ` {y \<in> set ?ms. ?f y < ?f i})"
    by (rule card_image [symmetric], rule inj_on_subset [OF inj_nth]) auto
  also have "(!) cands ` {y \<in> set ?ms. ?f y < ?f i} =
      {d \<in> grp ?C ?c. hint_key now d < hint_key now ?c}"
    unfolding members_props(3) [OF i, symmetric] by auto
  finally have pos: "card {y \<in> set ?ms. ?f y < ?f i} =
      card {d \<in> grp ?C ?c. hint_key now d < hint_key now ?c}" .
  have "map_of (zip (hint_order now cands ?ms) ?ks) i = Some (assigned now ?C ?c)"
    unfolding order using map_of_zip_sort_key [OF members_props(2) [OF i] injf members_props(1) [OF i] len]
    by (simp add: pos ks assigned_def)
  moreover have "assigned now ?C ?c = naturalKey now ?c" if "length ?ms < 2"
  proof -
    have "?ms = [i]" using that members_props(1) [OF i] by (cases ?ms) (auto simp: less_2_cases_iff)
    then have g: "grp ?C ?c = {?c}" using members_props(3) [OF i] by simp
    have none: "{d \<in> {?c}. hint_key now d < hint_key now ?c} = {}" by auto
    show ?thesis unfolding assigned_def g none by simp
  qed
  ultimately show ?thesis by (auto simp: permuted_key_def Let_def)
qed

lemma permuteHints_assigned:
  assumes "distinct (map c_queue cands)"
  shows "permuteHints now cands = map (\<lambda>c. c\<lparr>c_key := Some (assigned now (set cands) c)\<rparr>) cands"
  by (rule nth_equalityI)
     (simp_all add: permuteHints_def permuted_key_assigned [OF assms])

section \<open>The admission order\<close>

abbreviation admission_key :: "time \<Rightarrow> candidate \<Rightarrow> bool \<times> order_key" where
  "admission_key now c \<equiv> (c_class c \<noteq> ClassInteractive, orderKeyAt now c)"

lemma orderKeyAt_keyed [simp]: "orderKeyAt now (c\<lparr>c_key := Some k\<rparr>) = k"
  by (simp add: orderKeyAt_def)

lemma permuted_inj:
  assumes "distinct (map c_queue cands)"
  shows "inj_on (orderKeyAt now) (set (permuteHints now cands))"
proof -
  have "inj_on (assigned now (set cands)) (set cands)"
    by (rule assigned_inj) (simp_all add: inj_natural [OF assms])
  then show ?thesis
    unfolding permuteHints_assigned [OF assms] set_map by (intro inj_on_imageI) (simp add: comp_def)
qed

lemma admission_inj:
  "distinct (map c_queue cands) \<Longrightarrow> inj_on (admission_key now) (set (permuteHints now cands))"
  using permuted_inj [of cands now] by (auto simp: inj_on_def)

text \<open>The claim order does not depend on the order in which the rows arrived.\<close>

lemma sortCandidates_rows:
  assumes "mset cands = mset cands'" "distinct (map c_queue cands)"
  shows "sortCandidates now cands = sortCandidates now cands'"
proof -
  have set: "set cands = set cands'" using assms(1) by (rule mset_eq_setD)
  have dist': "distinct (map c_queue cands')"
    by (rule mset_eq_imp_distinct_iff [THEN iffD1, OF _ assms(2)]) (simp add: assms(1))
  have "mset (permuteHints now cands) = mset (permuteHints now cands')"
    unfolding permuteHints_assigned [OF assms(2)] permuteHints_assigned [OF dist'] set
    using assms(1) by simp
  then show ?thesis
    unfolding sortCandidates_def
    by (rule admission.stable_sort_unique) (rule admission_inj [OF assms(2)])
qed

lemma sortCandidates_sorted: "sorted (map (admission_key now) (sortCandidates now cands))"
  unfolding sortCandidates_def by (rule admission.sorted_stable_sort)

lemma length_sortCandidates [simp]: "length (sortCandidates now cands) = length cands"
proof -
  have "length (sortCandidates now cands) = length (permuteHints now cands)"
    unfolding sortCandidates_def by (rule mset_eq_length) (rule admission.mset_stable_sort)
  then show ?thesis by (simp add: permuteHints_def)
qed

lemma set_sortCandidates:
  "set (sortCandidates now cands) = set (permuteHints now cands)"
  unfolding sortCandidates_def by (rule admission.set_stable_sort)

lemma map_sortCandidates:
  assumes "\<And>c k. g (c\<lparr>c_key := k\<rparr>) = g c"
  shows "mset (map g (sortCandidates now cands)) = mset (map g cands)"
proof -
  have "map g (permuteHints now cands) = map (\<lambda>i. g (cands ! i)) [0..<length cands]"
    by (simp add: permuteHints_def assms comp_def)
  also have "\<dots> = map g cands" by (rule nth_equalityI) simp_all
  finally have "mset (map g (permuteHints now cands)) = mset (map g cands)" by simp
  then show ?thesis
    unfolding sortCandidates_def by (simp add: admission.mset_stable_sort)
qed

text \<open>A group's keys are its own natural keys, whatever the hints say.\<close>

lemma group_keys_preserved:
  assumes "distinct (map c_queue cands)"
  shows "orderKeyAt now ` {d \<in> set (permuteHints now cands). same_group d c} =
    naturalKey now ` grp (set cands) c"
proof -
  have "assigned now (set cands) ` grp (set cands) c = naturalKey now ` grp (set cands) c"
    using assigned_bij [of "set cands" now c] inj_natural [OF assms] by (simp add: bij_betw_def)
  moreover have "{d \<in> set (permuteHints now cands). same_group d c} =
      (\<lambda>d. d\<lparr>c_key := Some (assigned now (set cands) d)\<rparr>) ` grp (set cands) c"
    unfolding permuteHints_assigned [OF assms] by (auto simp: grp_def same_group_def)
  ultimately show ?thesis by (simp add: image_image)
qed

text \<open>The hints of one person move only that person's runs among their own places.\<close>

definition set_hints :: "string \<Rightarrow> (candidate \<Rightarrow> int) \<Rightarrow> candidate \<Rightarrow> candidate" where
  "set_hints user f c = (if c_user c = user then c\<lparr>c_hint := f c\<rparr> else c)"

lemma set_hints_simps [simp]:
  "c_queue (set_hints u f c) = c_queue c" "c_user (set_hints u f c) = c_user c"
  "c_class (set_hints u f c) = c_class c" "naturalKey now (set_hints u f c) = naturalKey now c"
  by (simp_all add: set_hints_def naturalKey_def score_def)

lemma grp_set_hints: "grp (set_hints u f ` C) (set_hints u f c) = set_hints u f ` grp C c"
  by (auto simp: grp_def same_group_def)

lemma grp_set_hints_other: "c_user c \<noteq> u \<Longrightarrow> grp (set_hints u f ` C) c = grp C c"
  by (auto simp: grp_def same_group_def set_hints_def image_iff)

lemma assigned_other: "c_user c \<noteq> u \<Longrightarrow> assigned now (set_hints u f ` C) c = assigned now C c"
  by (simp add: assigned_def grp_set_hints_other)

lemma hints_keep_keys:
  assumes "distinct (map c_queue cands)"
  shows "(\<lambda>d. (c_user d, c_class d, orderKeyAt now d)) ` set (permuteHints now (map (set_hints u f) cands))
    = (\<lambda>d. (c_user d, c_class d, orderKeyAt now d)) ` set (permuteHints now cands)"
proof -
  have dist': "distinct (map c_queue (map (set_hints u f) cands))" using assms by (simp add: comp_def)
  have char: "(\<lambda>d. (c_user d, c_class d, orderKeyAt now d)) ` set (permuteHints now cs) =
      (\<lambda>c. (c_user c, c_class c, naturalKey now c)) ` set cs"
    if dist: "distinct (map c_queue cs)" for cs
  proof -
    have "(\<lambda>d. (c_user d, c_class d, orderKeyAt now d)) ` set (permuteHints now cs) =
        (\<lambda>c. (c_user c, c_class c, assigned now (set cs) c)) ` set cs"
      unfolding permuteHints_assigned [OF dist] by (auto simp: orderKeyAt_def image_iff)
    also have "\<dots> = (\<lambda>c. (c_user c, c_class c, naturalKey now c)) ` set cs"
    proof -
      have img: "assigned now (set cs) ` grp (set cs) c = naturalKey now ` grp (set cs) c" for c
        using assigned_bij [of "set cs" now c] inj_natural [OF dist] by (simp add: bij_betw_def)
      have "\<exists>d\<in>set cs. same_group d c \<and> naturalKey now d = assigned now (set cs) c"
        "\<exists>d\<in>set cs. same_group d c \<and> assigned now (set cs) d = naturalKey now c"
        if "c \<in> set cs" for c
      proof -
        have c: "c \<in> grp (set cs) c" using that by (simp add: grp_def same_group_def)
        then have "assigned now (set cs) c \<in> naturalKey now ` grp (set cs) c"
          "naturalKey now c \<in> assigned now (set cs) ` grp (set cs) c"
          using img [of c] by blast+
        then show "\<exists>d\<in>set cs. same_group d c \<and> naturalKey now d = assigned now (set cs) c"
          "\<exists>d\<in>set cs. same_group d c \<and> assigned now (set cs) d = naturalKey now c"
          by (auto simp: grp_def image_iff)
      qed
      note partner = this
      show ?thesis
      proof (rule set_eqI, rule iffI)
        fix x
        assume "x \<in> (\<lambda>c. (c_user c, c_class c, assigned now (set cs) c)) ` set cs"
        then obtain c where c: "c \<in> set cs" "x = (c_user c, c_class c, assigned now (set cs) c)" by auto
        from partner(1) [OF c(1)] obtain d
          where "d \<in> set cs" "same_group d c" "naturalKey now d = assigned now (set cs) c" by blast
        then have "d \<in> set cs" "x = (c_user d, c_class d, naturalKey now d)"
          using c(2) by (simp_all add: same_group_def)
        then show "x \<in> (\<lambda>c. (c_user c, c_class c, naturalKey now c)) ` set cs" by blast
      next
        fix x
        assume "x \<in> (\<lambda>c. (c_user c, c_class c, naturalKey now c)) ` set cs"
        then obtain c where c: "c \<in> set cs" "x = (c_user c, c_class c, naturalKey now c)" by auto
        from partner(2) [OF c(1)] obtain d
          where "d \<in> set cs" "same_group d c" "assigned now (set cs) d = naturalKey now c" by blast
        then have "d \<in> set cs" "x = (c_user d, c_class d, assigned now (set cs) d)"
          using c(2) by (simp_all add: same_group_def)
        then show "x \<in> (\<lambda>c. (c_user c, c_class c, assigned now (set cs) c)) ` set cs" by blast
      qed
    qed
    finally show ?thesis .
  qed
  show ?thesis unfolding char [OF assms] char [OF dist'] by (simp add: image_image)
qed

lemma sorted_nth_unique:
  fixes f :: "'a \<Rightarrow> 'k :: linorder"
  assumes "sorted (map f xs)" "sorted (map f ys)" "distinct (map f xs)" "distinct (map f ys)"
    and "f ` set xs = f ` set ys"
  shows "map f xs = map f ys"
  by (rule sorted_distinct_set_unique) (use assms in simp_all)

lemma sortCandidates_distinct:
  assumes "distinct (map c_queue cands)"
  shows "distinct (map (admission_key now) (sortCandidates now cands))"
proof -
  have "mset (map c_queue (sortCandidates now cands)) = mset (map c_queue cands)"
    by (rule map_sortCandidates) simp
  then have "distinct (map c_queue (sortCandidates now cands))"
    using assms mset_eq_imp_distinct_iff by blast
  then have "distinct (sortCandidates now cands)" by (simp add: distinct_map)
  moreover have "inj_on (admission_key now) (set (sortCandidates now cands))"
    unfolding set_sortCandidates by (rule admission_inj [OF assms])
  ultimately show ?thesis by (simp add: distinct_map)
qed

lemma hints_local:
  fixes now :: time and u :: string and f :: "candidate \<Rightarrow> int"
  assumes dist: "distinct (map c_queue cands)" and p: "p < length cands"
  defines "zs \<equiv> sortCandidates now cands"
    and "zs' \<equiv> sortCandidates now (map (set_hints u f) cands)"
  shows "c_user (zs' ! p) = c_user (zs ! p) \<and> c_class (zs' ! p) = c_class (zs ! p) \<and>
    (c_user (zs ! p) \<noteq> u \<longrightarrow> zs' ! p = zs ! p)"
proof -
  let ?cs = "map (set_hints u f) cands"
  let ?h = "\<lambda>d. (c_user d, c_class d, orderKeyAt now d)"
  have dist': "distinct (map c_queue ?cs)" using dist by (simp add: comp_def)
  have len: "length zs = length cands" "length zs' = length cands" by (simp_all add: zs_def zs'_def)
  have sets: "set zs = set (permuteHints now cands)" "set zs' = set (permuteHints now ?cs)"
    by (simp_all add: zs_def zs'_def set_sortCandidates)
  have same: "?h ` set zs' = ?h ` set zs"
    unfolding sets by (rule hints_keep_keys [OF dist])
  have "admission_key now ` set zs' = (\<lambda>(u, c, k). (c \<noteq> ClassInteractive, k)) ` (?h ` set zs')"
    by (simp add: image_image)
  also have "\<dots> = admission_key now ` set zs" unfolding same by (simp add: image_image)
  finally have "map (admission_key now) zs' = map (admission_key now) zs"
    unfolding zs_def zs'_def
    by (intro sorted_nth_unique sortCandidates_sorted sortCandidates_distinct dist dist')
  then have "map (admission_key now) zs' ! p = map (admission_key now) zs ! p" by (rule arg_cong)
  then have keys: "admission_key now (zs' ! p) = admission_key now (zs ! p)"
    using p len by simp
  have "?h (zs' ! p) \<in> ?h ` set zs'" by (rule imageI) (use p len in simp)
  then obtain d where d: "d \<in> set zs" "?h (zs' ! p) = ?h d" unfolding same by (rule imageE)
  have inj: "inj_on (orderKeyAt now) (set zs)" unfolding sets by (rule permuted_inj [OF dist])
  have "d = zs ! p"
    using inj d keys nth_mem [of p zs] p len by (auto simp: inj_on_def)
  with d have groups: "c_user (zs' ! p) = c_user (zs ! p)" "c_class (zs' ! p) = c_class (zs ! p)"
    by simp_all
  moreover have "zs' ! p = zs ! p" if u: "c_user (zs ! p) \<noteq> u"
  proof -
    have mem: "zs ! p \<in> set (permuteHints now cands)" "zs' ! p \<in> set (permuteHints now ?cs)"
      unfolding sets [symmetric] using p len by simp_all
    obtain c where c: "c \<in> set cands" "zs ! p = c\<lparr>c_key := Some (assigned now (set cands) c)\<rparr>"
      using mem(1) unfolding permuteHints_assigned [OF dist] by auto
    obtain c' where c': "c' \<in> set cands"
      "zs' ! p = (set_hints u f c')\<lparr>c_key := Some (assigned now (set_hints u f ` set cands) (set_hints u f c'))\<rparr>"
      using mem(2) unfolding permuteHints_assigned [OF dist'] by auto
    have "c_user c' \<noteq> u" using groups(1) u c'(2) by simp
    then have h: "set_hints u f c' = c'" by (simp add: set_hints_def)
    have z': "zs' ! p = c'\<lparr>c_key := Some (assigned now (set cands) c')\<rparr>"
      using c'(2) \<open>c_user c' \<noteq> u\<close> by (simp add: h assigned_other)
    have "assigned now (set cands) c' = assigned now (set cands) c"
      using keys unfolding z' c(2) by simp
    moreover have "inj_on (assigned now (set cands)) (set cands)"
      by (rule assigned_inj) (simp_all add: inj_natural [OF dist])
    ultimately have "c' = c" using c(1) c'(1) by (auto simp: inj_on_def)
    then show ?thesis using c(2) z' by simp
  qed
  ultimately show ?thesis by blast
qed

section \<open>Aging\<close>

lemma score_eq: "score now c = fl (classBias (c_class c) + max 0 (seconds (time_sub now (c_enqueued c))))"
  by (auto simp: score_def Let_def max_def)

lemma classBias_range: "0 \<le> classBias cls" "classBias cls \<le> 14400"
  by (cases cls; simp add: agingGap_def)+

text \<open>Within a class, and when nobody dragged anything, the older row goes first.\<close>

lemma natural_fifo:
  assumes "c_class a = c_class b" "c_enqueued a < c_enqueued b"
  shows "before (naturalKey now a) (naturalKey now b)"
proof -
  have "time_sub now (c_enqueued b) \<le> time_sub now (c_enqueued a)"
    using assms(2) by (simp add: time_sub_def)
  from wait_mono [OF this] have "score now b \<le> score now a"
    unfolding score_eq assms(1) using classBias_range(1)
    by (intro fl_mono add_mono) (simp_all add: add_nonneg_nonneg)
  with assms(2) show ?thesis by (auto simp: before_def naturalKey_def)
qed

lemma aging_arith:
  fixes sa sb ra rb ba bb :: rat
  assumes "\<bar>sa - ra\<bar> \<le> 1 / 2 ^ 18" "\<bar>sb - rb\<bar> \<le> 1 / 2 ^ 18" "rb + 7201 \<le> ra" "ra \<le> 9223372037"
    and "0 \<le> sa" "0 \<le> sb" "3600 \<le> ba" "ba \<le> 14400" "0 \<le> bb" "bb \<le> 10800"
  shows "fl (bb + sb) < fl (ba + sa)"
proof -
  have small: "(1 :: rat) / 2 ^ 18 \<le> 1 / 100" "(1 :: rat) / 2 ^ 19 \<le> 1 / 100" by simp_all
  have a: "ra - 1 / 100 \<le> sa" "sa \<le> ra + 1 / 100" and b: "rb - 1 / 100 \<le> sb" "sb \<le> rb + 1 / 100"
    using assms(1,2) small(1) by linarith+
  have "ba + sa < 34359738368" "bb + sb < 34359738368" using a b assms by linarith+
  then have top: "ba + sa < 2 ^ 35" "bb + sb < 2 ^ 35" by simp_all
  have nn: "0 \<le> ba + sa" "0 \<le> bb + sb" using assms by linarith+
  have "\<bar>fl (ba + sa) - (ba + sa)\<bar> \<le> 1 / 100" "\<bar>fl (bb + sb) - (bb + sb)\<bar> \<le> 1 / 100"
    using fl_error_small [OF nn(1) top(1)] fl_error_small [OF nn(2) top(2)] small(2) by linarith+
  then show ?thesis using a b assms by linarith
qed

text \<open>Bounded overtaking: once a row has waited two hours and a second more than another one, its
  class no longer matters (interactive work excepted, which \<open>priorityLess\<close> takes first).\<close>

lemma aged_before:
  assumes "c_class b \<noteq> ClassInteractive" "c_class a \<noteq> ClassProbe"
    and "c_enqueued b \<le> now" "now - c_enqueued a \<le> int64_max"
    and "c_enqueued a + 7201 * second \<le> c_enqueued b"
  shows "before (naturalKey now a) (naturalKey now b)"
proof -
  let ?da = "now - c_enqueued a" and ?db = "now - c_enqueued b"
  let ?wa = "classBias (c_class a) + seconds ?da" and ?wb = "classBias (c_class b) + seconds ?db"
  have d: "0 \<le> ?db" "?db + 7201 * second \<le> ?da" "0 \<le> ?da" "?da \<le> int64_max" "?db \<le> int64_max"
    using assms(3-5) by (simp_all add: second_def)
  have sub: "time_sub now (c_enqueued a) = ?da" "time_sub now (c_enqueued b) = ?db"
    using d by (simp_all add: time_sub_exact in64_def int64_min_def)
  have bias: "3600 \<le> classBias (c_class a)" "classBias (c_class b) \<le> 10800"
    using assms(1,2) by (cases "c_class a"; simp add: agingGap_def)
      (use assms(1) in \<open>cases "c_class b"; simp add: agingGap_def\<close>)
  have ea: "\<bar>seconds ?da - of_int ?da / 1000000000\<bar> \<le> 1 / 2 ^ 18" using d by (intro seconds_error)
  have eb: "\<bar>seconds ?db - of_int ?db / 1000000000\<bar> \<le> 1 / 2 ^ 18" using d by (intro seconds_error)
  have "(of_int (?db + 7201 * second) :: rat) \<le> of_int ?da" using d(2) by (simp only: of_int_le_iff)
  then have gap: "of_int ?db / 1000000000 + 7201 \<le> (of_int ?da / 1000000000 :: rat)"
    by (simp add: second_def field_simps)
  have top: "(of_int ?da / 1000000000 :: rat) \<le> 9223372037"
  proof -
    have "(of_int ?da :: rat) \<le> of_int int64_max" using d(4) by (simp only: of_int_le_iff)
    then show ?thesis by (simp add: int64_max_def)
  qed
  have nn: "0 \<le> seconds ?da" "0 \<le> seconds ?db" using d by (simp_all add: seconds_nonneg)
  have "fl ?wb < fl ?wa"
    by (rule aging_arith [OF ea eb gap top nn bias(1) classBias_range(2) classBias_range(1) bias(2)])
  then show ?thesis using nn by (simp add: before_def naturalKey_def score_eq sub max_def)
qed

end
