(* ===== verification/Event_Log.thy ===== *)
theory Event_Log
  imports Platform_Db
begin

text \<open>
  \<open>internal/eventlog/eventlog.go\<close>: the append-only event log over \<open>run_events\<close>.  An append is
  validated before it is persisted (\<open>validate\<close>), fenced against the run's generation
  (\<open>checkGeneration\<close>) and gets the next \<open>event_seq\<close>.  The interface the other components rely on is
  the locale \<open>event_appender\<close>; the theory shows that the model of \<open>AppendTx\<close> provides it.
\<close>

definition keyPayloadCap :: string where "keyPayloadCap = ''state.event_payload_cap''"

record append =
  ap_run :: string
  ap_gen :: int
  ap_user :: string
  ap_type :: string
  ap_version :: int
  ap_payload :: raw
  ap_time :: time

section \<open>Operations\<close>

text \<open>\<open>Log.validate\<close>: the validate-before-persist gate, in the order of its tests.\<close>

definition validate :: "settings \<Rightarrow> append \<Rightarrow> error + unit" where
  "validate cfg a =
     (if ap_type a = [] then Inl (ErrInvalidEvent ''empty type'')
      else if ap_user a = [] then Inl (ErrInvalidEvent ''empty user_id'')
      else if ap_version a < 1 then Inl (ErrInvalidEvent ''schema_version < 1'')
      else if ap_run a = [] \<and> ap_gen a \<noteq> 0 then Inl ErrGenerationOnPlatformEvent
      else if ap_run a \<noteq> [] \<and> ap_gen a < 0 then Inl (ErrInvalidEvent ''negative generation'')
      else if raw_text (ap_payload a) = [] \<or> \<not> raw_valid (ap_payload a) then Inl ErrInvalidPayload
      else case read_int cfg keyPayloadCap of
             Inl e \<Rightarrow> Inl e
           | Inr cap \<Rightarrow>
               if int (length (raw_text (ap_payload a))) > cap
               then Inl (ErrPayloadTooLarge (int (length (raw_text (ap_payload a)))) cap)
               else Inr ())"

definition checkGeneration :: "string \<Rightarrow> int \<Rightarrow> unit dbtx" where
  "checkGeneration rid gen =
     tx_bind (tx_some (find_run rid) (ErrUnknownRun rid)) (\<lambda>r.
       if gen < run_generation r then tx_fail (ErrStaleGeneration gen (run_generation r))
       else if gen > run_generation r then tx_fail (ErrFutureGeneration gen (run_generation r))
       else tx_return ())"

definition new_event :: "int \<Rightarrow> time \<Rightarrow> append \<Rightarrow> event_row" where
  "new_event seq now a =
     \<lparr>ev_seq = seq, ev_run = ap_run a, ev_gen = (if ap_run a = [] then 0 else ap_gen a),
      ev_user = ap_user a, ev_type = ap_type a, ev_version = ap_version a,
      ev_payload = ap_payload a,
      ev_time = (if is_zero_time (ap_time a) then now else ap_time a)\<rparr>"

definition insert_event :: "time \<Rightarrow> append \<Rightarrow> int dbtx" where
  "insert_event now a = (\<lambda>s.
     let seq = next_rowid (map ev_seq (t_events s))
     in Inr (seq, s\<lparr>t_events := t_events s @ [new_event seq now a]\<rparr>))"

definition AppendTx :: "settings \<Rightarrow> time \<Rightarrow> append \<Rightarrow> int dbtx" where
  "AppendTx cfg now a =
     tx_bind (tx_lift (validate cfg a)) (\<lambda>_.
     tx_bind (if ap_run a \<noteq> [] then checkGeneration (ap_run a) (ap_gen a) else tx_return ()) (\<lambda>_.
       insert_event now a))"

text \<open>\<open>Log.Append\<close>: one append in its own write transaction.\<close>

definition Append :: "settings \<Rightarrow> time \<Rightarrow> append \<Rightarrow> db \<Rightarrow> (error + int) \<times> db" where
  "Append cfg now a s = write_tx (AppendTx cfg now a) s"

text \<open>\<open>Log.After\<close>: up to \<open>limit\<close> events past a cursor, in \<open>event_seq\<close> order.\<close>

definition After :: "int \<Rightarrow> int \<Rightarrow> db \<Rightarrow> error + event_row list" where
  "After after limit s =
     (if limit \<le> 0 then Inl (NonPositiveLimit limit)
      else Inr (take (nat limit) (sort_key ev_seq (filter (\<lambda>e. ev_seq e > after) (t_events s)))))"

text \<open>\<open>Log.Head\<close>: the highest \<open>event_seq\<close>, 0 on an empty log.\<close>

definition Head :: "db \<Rightarrow> int" where
  "Head s = (if t_events s = [] then 0 else Max (set (map ev_seq (t_events s))))"

text \<open>A tailing reader: read a batch after the cursor, move the cursor to its last event.\<close>

definition next_cursor :: "int \<Rightarrow> event_row list \<Rightarrow> int" where
  "next_cursor cur batch = (if batch = [] then cur else ev_seq (last batch))"

section \<open>The order of the log\<close>

definition log_ordered :: "db \<Rightarrow> bool" where
  "log_ordered s \<longleftrightarrow> sorted_wrt (<) (map ev_seq (t_events s)) \<and> (\<forall>e\<in>set (t_events s). 0 < ev_seq e)"

definition log_extends :: "db \<Rightarrow> db \<Rightarrow> bool" where
  "log_extends s t \<longleftrightarrow> (\<exists>es. t_events t = t_events s @ es)"

interpretation log: tx_frame log_extends
  by unfold_locales (auto simp: log_extends_def)

section \<open>The interface of the log\<close>

text \<open>
  What a component that appends events relies on: an append that succeeds changes nothing but the
  event table, adds exactly one row at its end, and that row's sequence number is above every
  earlier one.
\<close>

locale event_appender =
  fixes append :: "'a \<Rightarrow> int dbtx"
    and event_of :: "int \<Rightarrow> 'a \<Rightarrow> event_row"
  assumes append_shape:
    "append a s = Inr (seq, t) \<Longrightarrow> t = s\<lparr>t_events := t_events s @ [event_of seq a]\<rparr>"
    and append_seq: "append a s = Inr (seq, t) \<Longrightarrow> ev_seq (event_of seq a) = seq \<and> 0 < seq"
    and append_above: "append a s = Inr (seq, t) \<Longrightarrow> e \<in> set (t_events s) \<Longrightarrow> ev_seq e < seq"
begin

lemma append_extends: "tx_rel log_extends (append a)"
  by (auto simp: tx_rel_def log_extends_def dest: append_shape)

lemma append_ordered: "append a s = Inr (seq, t) \<Longrightarrow> log_ordered s \<Longrightarrow> log_ordered t"
  using append_shape [of a s seq t] append_seq [of a s seq t] append_above [of a s seq t]
  by (auto simp: log_ordered_def sorted_wrt_append)

lemma append_runs: "append a s = Inr (seq, t) \<Longrightarrow> t_runs t = t_runs s"
  by (auto dest: append_shape)

lemma append_find_run: "append a s = Inr (seq, t) \<Longrightarrow> find_run rid t = find_run rid s"
  by (auto dest: append_shape simp: find_run_def)

lemma append_events:
  "append a s = Inr (seq, t) \<Longrightarrow> t_events t = t_events s @ [event_of seq a]"
  by (auto dest: append_shape)

end

lemma insert_event_Inr:
  "insert_event now a s = Inr (seq, t) \<longleftrightarrow>
     seq = next_rowid (map ev_seq (t_events s)) \<and>
     t = s\<lparr>t_events := t_events s @ [new_event seq now a]\<rparr>"
  by (auto simp: insert_event_def Let_def)

lemma checkGeneration_Inr [tx_simps]:
  "checkGeneration rid gen s = Inr (u, t) \<longleftrightarrow>
     (\<exists>r. find_run rid s = Some r \<and> run_generation r = gen) \<and> t = s"
  by (auto simp: checkGeneration_def tx_simps split: if_splits)

lemma AppendTx_Inr:
  "AppendTx cfg now a s = Inr (seq, t) \<longleftrightarrow>
     validate cfg a = Inr () \<and>
     (ap_run a \<noteq> [] \<longrightarrow> (\<exists>r. find_run (ap_run a) s = Some r \<and> run_generation r = ap_gen a)) \<and>
     seq = next_rowid (map ev_seq (t_events s)) \<and>
     t = s\<lparr>t_events := t_events s @ [new_event seq now a]\<rparr>"
  by (cases "ap_run a = []") (auto simp: AppendTx_def tx_simps insert_event_Inr)

interpretation appender: event_appender "AppendTx cfg now" "\<lambda>seq. new_event seq now"
  by unfold_locales (auto simp: AppendTx_Inr new_event_def next_rowid_pos next_rowid_gt)

lemma validate_Inr:
  "validate cfg a = Inr () \<longleftrightarrow>
     ap_type a \<noteq> [] \<and> ap_user a \<noteq> [] \<and> 1 \<le> ap_version a \<and>
     (ap_run a = [] \<longrightarrow> ap_gen a = 0) \<and> (ap_run a \<noteq> [] \<longrightarrow> 0 \<le> ap_gen a) \<and>
     raw_text (ap_payload a) \<noteq> [] \<and> raw_valid (ap_payload a) \<and>
     (\<exists>cap. set_int cfg keyPayloadCap = Some cap \<and>
        int (length (raw_text (ap_payload a))) \<le> cap)"
  by (auto simp: validate_def read_int_def split: sum.splits option.splits)

section \<open>Facts about the log\<close>

lemma After_ok:
  assumes "After cur limit s = Inr es"
  shows "sorted (map ev_seq es)" "\<forall>e\<in>set es. e \<in> set (t_events s) \<and> cur < ev_seq e"
    "length es \<le> nat limit"
  using assms
  by (auto simp: After_def sorted_wrt_take take_map [symmetric] simp del: take_map
      split: if_splits dest: in_set_takeD)

lemma sort_key_log:
  "sorted_wrt (<) (map ev_seq es) \<Longrightarrow> sort_key ev_seq (filter p es) = filter p es"
proof -
  assume "sorted_wrt (<) (map ev_seq es)"
  then have "sorted (map ev_seq (filter p es))"
    by (induction es) (auto intro: less_imp_le)
  then show ?thesis by (rule sort_key_id_if_sorted)
qed

lemma Head_ge: "e \<in> set (t_events s) \<Longrightarrow> ev_seq e \<le> Head s"
  by (auto simp: Head_def)

end
