(* ===== verification/Run_Fsm.thy ===== *)
theory Run_Fsm
  imports Event_Log
begin

text \<open>
  The run-lifecycle state machine of \<open>internal/run/run.go\<close>: the ratified edges, the edges that are
  a resume, \<open>CanTransition\<close> and \<open>IsTerminal\<close>, and the step relation they induce.  The locale
  \<open>lifecycle\<close> is the contract a stored state machine gives its clients; the run machine and (in
  \<^verbatim>\<open>Effect_Journal\<close>) the effect journal both provide it.
\<close>

section \<open>The edges\<close>

fun transitions :: "run_state \<Rightarrow> run_state list" where
  "transitions StateNew = [StateQueued]"
| "transitions StateQueued = [StateClaimed, StateFinalized]"
| "transitions StateClaimed = [StateRunning, StateCrashed]"
| "transitions StateRunning =
     [StateParked, StateDraining, StateCompleted, StateCrashed, StateTombstoned]"
| "transitions StateDraining = [StateParked, StateCompleted, StateCrashed]"
| "transitions StateParked = [StateRunning, StateDiedAtGate, StateFinalized]"
| "transitions StateCrashed = [StateCompleted, StateTombstoned, StateFinalized]"
| "transitions StateCompleted = []"
| "transitions StateFinalized = []"
| "transitions StateTombstoned = []"
| "transitions StateDiedAtGate = []"

definition generationBumps :: "run_state \<Rightarrow> run_state \<Rightarrow> bool" where
  "generationBumps from to \<longleftrightarrow> from = StateParked \<and> to = StateRunning"

definition CanTransition :: "run_state \<Rightarrow> run_state \<Rightarrow> bool" where
  "CanTransition from to = list_ex (\<lambda>st. st = to) (transitions from)"

definition IsTerminal :: "run_state \<Rightarrow> bool" where
  "IsTerminal st = (length (transitions st) = 0)"

text \<open>Event types minted by the run machinery.\<close>

definition EventCreated :: string where "EventCreated = ''run.created''"
definition EventState :: string where "EventState = ''run.state_changed''"
definition EventForked :: string where "EventForked = ''run.forked''"
definition EventWedged :: string where "EventWedged = ''run.wedged''"
definition EventHarvest :: string where "EventHarvest = ''run.harvest''"

definition ActorPlatform :: string where "ActorPlatform = ''platform''"

lemmas event_type_defs =
  EventCreated_def EventState_def EventForked_def EventWedged_def EventHarvest_def

lemma event_types_nonempty [simp]:
  "EventCreated \<noteq> []" "EventState \<noteq> []" "EventForked \<noteq> []" "EventWedged \<noteq> []" "EventHarvest \<noteq> []"
  by (simp_all add: event_type_defs)

section \<open>Lifecycles\<close>

text \<open>
  A lifecycle: states, the edges its operations may take, and a set of final states without a
  successor.  Clients get the facts about paths: a final state is never left, and a rank that every
  edge raises bounds the length of any path.
\<close>

locale lifecycle =
  fixes edge :: "'st \<Rightarrow> 'st \<Rightarrow> bool"
    and final :: "'st \<Rightarrow> bool"
  assumes final_no_edge: "final a \<Longrightarrow> \<not> edge a b"
begin

lemma final_path: "edge\<^sup>*\<^sup>* a b \<Longrightarrow> final a \<Longrightarrow> b = a"
  by (induction rule: converse_rtranclp_induct) (auto dest: final_no_edge)

lemma path_invariant:
  "edge\<^sup>*\<^sup>* a b \<Longrightarrow> P a \<Longrightarrow> (\<And>x y. P x \<Longrightarrow> edge x y \<Longrightarrow> P y) \<Longrightarrow> P b"
  by (induction rule: rtranclp_induct) auto

end

text \<open>A lifecycle in which all edges but some "looping" ones raise a rank.\<close>

locale ranked_lifecycle = lifecycle edge final
  for edge :: "'st \<Rightarrow> 'st \<Rightarrow> bool" and final :: "'st \<Rightarrow> bool" +
  fixes rank :: "'st \<Rightarrow> nat"
    and loops :: "'st \<Rightarrow> 'st \<Rightarrow> bool"
  assumes edge_rank: "edge a b \<Longrightarrow> \<not> loops a b \<Longrightarrow> rank a < rank b"
begin

lemma path_length:
  "successively (\<lambda>x y. edge x y \<and> \<not> loops x y) (a # bs) \<Longrightarrow>
   rank a + length bs \<le> rank (last (a # bs))"
proof (induction bs arbitrary: a)
  case (Cons b bs)
  then have "rank a < rank b" using edge_rank by simp
  with Cons show ?case by fastforce
qed simp

end

definition run_rank :: "run_state \<Rightarrow> nat" where
  "run_rank st = (case st of
      StateNew \<Rightarrow> 0 | StateQueued \<Rightarrow> 1 | StateClaimed \<Rightarrow> 2 | StateRunning \<Rightarrow> 3 | StateDraining \<Rightarrow> 4
    | StateParked \<Rightarrow> 5 | StateCrashed \<Rightarrow> 6 | _ \<Rightarrow> 7)"

lemma CanTransition_iff: "CanTransition a b \<longleftrightarrow> b \<in> set (transitions a)"
  by (auto simp: CanTransition_def list_ex_iff)

lemma IsTerminal_iff:
  "IsTerminal st \<longleftrightarrow> st \<in> {StateCompleted, StateFinalized, StateTombstoned, StateDiedAtGate}"
  by (cases st) (simp_all add: IsTerminal_def)

interpretation run_fsm: ranked_lifecycle CanTransition IsTerminal run_rank generationBumps
proof unfold_locales
  fix a b
  show "IsTerminal a \<Longrightarrow> \<not> CanTransition a b"
    by (simp add: IsTerminal_def CanTransition_iff)
  show "CanTransition a b \<Longrightarrow> \<not> generationBumps a b \<Longrightarrow> run_rank a < run_rank b"
    by (cases a) (auto simp: CanTransition_iff generationBumps_def run_rank_def)
qed

text \<open>The step relation on stored states, one rule per kind of edge.\<close>

inductive run_step :: "run_state \<Rightarrow> run_state \<Rightarrow> bool" where
  admit: "run_step StateNew StateQueued"
| claim: "run_step StateQueued StateClaimed"
| cancel_queued: "run_step StateQueued StateFinalized"
| start: "run_step StateClaimed StateRunning"
| crash: "st \<in> {StateClaimed, StateRunning, StateDraining} \<Longrightarrow> run_step st StateCrashed"
| park: "st \<in> {StateRunning, StateDraining} \<Longrightarrow> run_step st StateParked"
| drain: "run_step StateRunning StateDraining"
| complete: "st \<in> {StateRunning, StateDraining, StateCrashed} \<Longrightarrow> run_step st StateCompleted"
| tombstone: "st \<in> {StateRunning, StateCrashed} \<Longrightarrow> run_step st StateTombstoned"
| resume: "run_step StateParked StateRunning"
| died_at_gate: "run_step StateParked StateDiedAtGate"
| finalize: "st \<in> {StateParked, StateCrashed} \<Longrightarrow> run_step st StateFinalized"

inductive_cases run_step_from_crashed: "run_step StateCrashed st"
inductive_cases run_step_from_parked: "run_step StateParked st"
inductive_simps run_step_to_completed: "run_step st StateCompleted"

lemma run_step_CanTransition: "run_step a b \<longleftrightarrow> CanTransition a b"
proof
  show "run_step a b \<Longrightarrow> CanTransition a b"
    by (induction rule: run_step.induct) (auto simp: CanTransition_iff)
  show "CanTransition a b \<Longrightarrow> run_step a b"
    by (cases a) (auto simp: CanTransition_iff intro: run_step.intros)
qed

text \<open>From a state that can still move, some ending is reachable.\<close>

lemma run_step_ends: "\<exists>b. run_step\<^sup>*\<^sup>* a b \<and> IsTerminal b"
proof -
  have running: "run_step\<^sup>*\<^sup>* StateRunning StateCompleted"
    by (intro r_into_rtranclp run_step.complete) simp
  have claimed: "run_step\<^sup>*\<^sup>* StateClaimed StateCompleted"
    by (rule converse_rtranclp_into_rtranclp [OF run_step.start running])
  have queued: "run_step\<^sup>*\<^sup>* StateQueued StateCompleted"
    by (rule converse_rtranclp_into_rtranclp [OF run_step.claim claimed])
  have new: "run_step\<^sup>*\<^sup>* StateNew StateCompleted"
    by (rule converse_rtranclp_into_rtranclp [OF run_step.admit queued])
  have parked: "run_step\<^sup>*\<^sup>* StateParked StateCompleted"
    by (rule converse_rtranclp_into_rtranclp [OF run_step.resume running])
  have crashed: "run_step\<^sup>*\<^sup>* StateCrashed StateCompleted"
    by (intro r_into_rtranclp run_step.complete) simp
  have draining: "run_step\<^sup>*\<^sup>* StateDraining StateCompleted"
    by (intro r_into_rtranclp run_step.complete) simp
  show ?thesis
    using running claimed queued new parked crashed draining
    by (cases a) (auto simp: IsTerminal_iff)
qed

end
