(* ===== verification/Run_Store.thy ===== *)
theory Run_Store
  imports Run_Fsm
begin

text \<open>
  \<open>internal/run/run.go\<close>: the store over the \<open>runs\<close> table.  Every transition updates the row by a
  compare-and-swap on (run_id, state, generation) and appends its \<open>run.state_changed\<close> event in the
  same transaction; the resume edge bumps the generation; a terminal transition runs the installed
  run-end hook inside the transaction.
\<close>

section \<open>Environment\<close>

text \<open>
  What a transaction of the store reads besides the tables: the settings, the clock, and the
  run-end hook (\<open>None\<close>: no hook installed).
\<close>

record env =
  env_settings :: settings
  env_now :: time
  env_hook :: "(run_row \<Rightarrow> unit dbtx) option"

definition SetTerminalHook ::
  "(run_row \<Rightarrow> unit dbtx) option \<Rightarrow> (run_row \<Rightarrow> unit dbtx) option \<Rightarrow>
   error + (run_row \<Rightarrow> unit dbtx) option" where
  "SetTerminalHook installed h =
     (case h of None \<Rightarrow> Inl NilHook
      | Some _ \<Rightarrow> (case installed of None \<Rightarrow> Inr h | Some _ \<Rightarrow> Inl HookAlreadySet))"

section \<open>Reading runs\<close>

definition getTx :: "string \<Rightarrow> run_row dbtx" where
  "getTx rid = tx_some (find_run rid) (ErrNotFound rid)"

definition Get :: "string \<Rightarrow> db \<Rightarrow> error + run_row" where
  "Get rid s = (case find_run rid s of None \<Rightarrow> Inl (ErrNotFound rid) | Some r \<Rightarrow> Inr r)"

text \<open>\<open>InStates\<close>: the runs in one of the states, ordered by run id.\<close>

definition InStates :: "run_state list \<Rightarrow> db \<Rightarrow> run_row list" where
  "InStates sts s = (if sts = [] then []
     else sort_key run_id (filter (\<lambda>r. run_state r \<in> set sts) (t_runs s)))"

text \<open>Lookups by a nullable column never match a NULL.\<close>

definition SuccessorByDispatchTx :: "string \<Rightarrow> run_row option dbtx" where
  "SuccessorByDispatchTx did =
     tx_read (\<lambda>s. tbl_find (\<lambda>r. run_dispatch r \<noteq> [] \<and> run_dispatch r = did) (t_runs s))"

definition SuccessorOfTx :: "string \<Rightarrow> run_row option dbtx" where
  "SuccessorOfTx pid =
     tx_read (\<lambda>s. tbl_find (\<lambda>r. run_parent r \<noteq> [] \<and> run_parent r = pid) (t_runs s))"

section \<open>Creating runs\<close>

record new_run =
  nr_id :: string
  nr_user :: string
  nr_task :: string
  nr_substrate :: string
  nr_lane :: string
  nr_workspace :: string
  nr_ceiling_time :: int
  nr_ceiling_steps :: int
  nr_ceiling_cost :: rat
  nr_state :: string \<comment> \<open>the raw value of the field; empty means \<open>new\<close>\<close>
  nr_generation :: int
  nr_parent :: string
  nr_dispatch :: string
  nr_attempts :: int

text \<open>The CHECK constraints of a \<open>runs\<close> row.\<close>

definition run_checks :: "run_row \<Rightarrow> bool" where
  "run_checks r \<longleftrightarrow> run_id r \<noteq> [] \<and> run_user r \<noteq> [] \<and> 0 \<le> run_generation r \<and> 0 \<le> run_attempts r"

definition row_of_new :: "time \<Rightarrow> new_run \<Rightarrow> run_state \<Rightarrow> run_row" where
  "row_of_new now n st =
     \<lparr>run_id = nr_id n, run_user = nr_user n, run_task = nr_task n, run_state = st,
      run_substrate = nr_substrate n, run_lane = nr_lane n,
      run_lease_holder = [], run_lease_deadline = 0, run_heartbeat_seq = 0,
      run_generation = nr_generation n, run_unit = [], run_workspace = nr_workspace n,
      run_ceiling_time = nr_ceiling_time n, run_ceiling_steps = nr_ceiling_steps n,
      run_ceiling_cost = nr_ceiling_cost n, run_parent = nr_parent n,
      run_dispatch = nr_dispatch n, run_attempts = nr_attempts n,
      run_created = now, run_updated = now\<rparr>"

text \<open>
  The INSERT: primary key, CHECK constraints, the two foreign keys (\<open>PRAGMA foreign_keys\<close> is on)
  and the unique dispatch index.  \<open>isConstraint\<close> matches the text of every one of these failures,
  so each is reported as \<open>ErrExists\<close>.
\<close>

definition insert_allowed :: "run_row \<Rightarrow> db \<Rightarrow> bool" where
  "insert_allowed r s \<longleftrightarrow>
     run_checks r \<and> find_run (run_id r) s = None \<and>
     (run_task r = [] \<or> has_task (run_task r) s) \<and>
     (run_parent r = [] \<or> run_parent r = run_id r \<or> has_run (run_parent r) s) \<and>
     (run_dispatch r = [] \<or> \<not> list_ex (\<lambda>x. run_dispatch x = run_dispatch r) (t_runs s))"

definition insert_run :: "run_row \<Rightarrow> unit dbtx" where
  "insert_run r = (\<lambda>s. if insert_allowed r s then Inr ((), s\<lparr>t_runs := t_runs s @ [r]\<rparr>)
                       else Inl (ErrExists (run_id r)))"

definition created_payload :: "run_state \<Rightarrow> raw \<Rightarrow> error + raw" where
  "created_payload st detail = (case opt_raw ''detail'' detail of
       None \<Rightarrow> Inl (MarshalFailed ''payload'')
     | Some d \<Rightarrow> Inr (marshal (JObj ((''state'', JStr (state_name st)) # d))))"

definition run_append :: "string \<Rightarrow> int \<Rightarrow> string \<Rightarrow> string \<Rightarrow> raw \<Rightarrow> append" where
  "run_append rid gen user ty payload =
     \<lparr>ap_run = rid, ap_gen = gen, ap_user = user, ap_type = ty, ap_version = 1,
      ap_payload = payload, ap_time = 0\<rparr>"

definition CreateTx :: "env \<Rightarrow> new_run \<Rightarrow> string \<Rightarrow> raw \<Rightarrow> run_row dbtx" where
  "CreateTx env n ty detail =
     (if nr_id n = [] then tx_fail EmptyRunID
      else if nr_user n = [] then tx_fail EmptyUserID
      else case state_of_name (if nr_state n = [] then state_name StateNew else nr_state n) of
        None \<Rightarrow> tx_fail (NotAStoredState (nr_state n))
      | Some st \<Rightarrow>
          tx_bind (insert_run (row_of_new (env_now env) n st)) (\<lambda>_.
          tx_bind (tx_lift (created_payload st detail)) (\<lambda>payload.
          tx_bind (AppendTx (env_settings env) (env_now env)
                     (run_append (nr_id n) (nr_generation n) (nr_user n) ty payload)) (\<lambda>_.
          getTx (nr_id n)))))"

definition Create :: "env \<Rightarrow> new_run \<Rightarrow> db \<Rightarrow> (error + run_row) \<times> db" where
  "Create env n = write_tx (CreateTx env n EventCreated raw_empty)"

section \<open>Updating runs\<close>

text \<open>
  An \<open>UPDATE runs\<close>: the affected-row count, or a constraint failure when a written row breaks a
  CHECK.
\<close>

definition exec_update_runs :: "(run_row \<Rightarrow> bool) \<Rightarrow> (run_row \<Rightarrow> run_row) \<Rightarrow> nat dbtx" where
  "exec_update_runs p f = (\<lambda>s.
     if list_ex (\<lambda>r. p r \<and> \<not> run_checks (f r)) (t_runs s) then Inl (ConstraintFailed ''runs'')
     else Inr (tbl_count p (t_runs s), update_runs p f s))"

record transition_options =
  to_reason :: string
  to_actor :: string
  to_detail :: raw

definition no_options :: transition_options where
  "no_options = \<lparr>to_reason = [], to_actor = [], to_detail = raw_empty\<rparr>"

definition transition_payload ::
  "run_state \<Rightarrow> run_state \<Rightarrow> transition_options \<Rightarrow> error + raw" where
  "transition_payload from to opts = (case opt_raw ''detail'' (to_detail opts) of
       None \<Rightarrow> Inl (MarshalFailed ''transition payload'')
     | Some d \<Rightarrow> Inr (marshal (JObj
         ([(''from'', JStr (state_name from)), (''to'', JStr (state_name to))] @
          opt_str ''reason'' (to_reason opts) @ opt_str ''actor'' (to_actor opts) @ d))))"

definition next_generation :: "run_row \<Rightarrow> run_state \<Rightarrow> int" where
  "next_generation cur to =
     (if generationBumps (run_state cur) to then wrap64 (run_generation cur + 1)
      else run_generation cur)"

definition run_hook :: "env \<Rightarrow> run_state \<Rightarrow> run_row \<Rightarrow> unit dbtx" where
  "run_hook env to r = (case env_hook env of
       None \<Rightarrow> tx_return ()
     | Some h \<Rightarrow> if IsTerminal to then h r else tx_return ())"

definition TransitionTx ::
  "env \<Rightarrow> string \<Rightarrow> run_state \<Rightarrow> transition_options \<Rightarrow> run_row dbtx" where
  "TransitionTx env rid to opts =
     tx_bind (getTx rid) (\<lambda>cur.
       if \<not> CanTransition (run_state cur) to
       then tx_fail (ErrInvalidTransition (run_state cur) to rid)
       else
         tx_bind (exec_update_runs
                    (\<lambda>r. run_id r = rid \<and>
                         (run_state r = run_state cur \<and> run_generation r = run_generation cur))
                    (\<lambda>r. r\<lparr>run_state := to, run_generation := next_generation cur to,
                           run_updated := env_now env\<rparr>)) (\<lambda>n.
         if n \<noteq> 1 then tx_fail (ConcurrentStateChange rid)
         else
           tx_bind (tx_lift (transition_payload (run_state cur) to opts)) (\<lambda>payload.
           tx_bind (AppendTx (env_settings env) (env_now env)
                      (run_append rid (next_generation cur to) (run_user cur) EventState payload)) (\<lambda>_.
           tx_bind (getTx rid) (\<lambda>updated.
           tx_bind (run_hook env to updated) (\<lambda>_.
           tx_return updated))))))"

definition Transition ::
  "env \<Rightarrow> string \<Rightarrow> run_state \<Rightarrow> transition_options \<Rightarrow> db \<Rightarrow> (error + run_row) \<times> db" where
  "Transition env rid to opts = write_tx (TransitionTx env rid to opts)"

definition SetLeaseTx :: "env \<Rightarrow> string \<Rightarrow> string \<Rightarrow> time \<Rightarrow> int \<Rightarrow> unit dbtx" where
  "SetLeaseTx env rid holder deadline hb =
     tx_bind (exec_update_runs (\<lambda>r. run_id r = rid)
                (\<lambda>r. r\<lparr>run_lease_holder := holder, run_lease_deadline := deadline,
                       run_heartbeat_seq := (if hb > 0 then hb else 0),
                       run_updated := env_now env\<rparr>)) (\<lambda>n.
       if n \<noteq> 1 then tx_fail (ErrNotFound rid) else tx_return ())"

text \<open>\<open>SELECT MAX(event_seq) FROM run_events WHERE run_id = ?\<close>, NULL (0) when there is none.\<close>

definition max_event_seq :: "string \<Rightarrow> db \<Rightarrow> int" where
  "max_event_seq rid s = foldr max (map ev_seq (filter (\<lambda>e. ev_run e = rid) (t_events s))) 0"

definition RenewLeaseTx :: "env \<Rightarrow> string \<Rightarrow> string \<Rightarrow> time \<Rightarrow> int \<Rightarrow> bool dbtx" where
  "RenewLeaseTx env rid holder deadline gen =
     (if is_zero_time deadline then tx_fail (RenewWithoutDeadline rid)
      else
        tx_bind (tx_read (max_event_seq rid)) (\<lambda>hb.
        tx_bind (exec_update_runs
                   (\<lambda>r. run_id r = rid \<and>
                        (run_generation r = gen \<and>
                         run_state r \<in> {StateClaimed, StateRunning, StateDraining}))
                   (\<lambda>r. r\<lparr>run_lease_holder := (if holder = [] then run_lease_holder r else holder),
                          run_lease_deadline := deadline, run_heartbeat_seq := hb,
                          run_updated := env_now env\<rparr>)) (\<lambda>n.
        tx_return (n = 1))))"

definition BumpGenerationTx :: "env \<Rightarrow> string \<Rightarrow> run_row dbtx" where
  "BumpGenerationTx env rid =
     tx_bind (getTx rid) (\<lambda>cur.
     tx_bind (exec_update_runs
                (\<lambda>r. run_id r = rid \<and> run_generation r = run_generation cur)
                (\<lambda>r. r\<lparr>run_generation := wrap64 (run_generation cur + 1),
                       run_updated := env_now env\<rparr>)) (\<lambda>_.
     getTx rid))"

definition SetWorkspaceRef :: "string \<Rightarrow> string \<Rightarrow> unit dbtx" where
  "SetWorkspaceRef rid ref =
     tx_bind (exec_update_runs (\<lambda>r. run_id r = rid) (\<lambda>r. r\<lparr>run_workspace := ref\<rparr>)) (\<lambda>_.
     tx_return ())"

definition SetDecidedLane :: "string \<Rightarrow> string \<Rightarrow> string \<Rightarrow> unit dbtx" where
  "SetDecidedLane rid lane substrate =
     (if rid = [] \<or> lane = [] \<or> substrate = [] then tx_return ()
      else
        tx_bind (exec_update_runs
                   (\<lambda>r. run_id r = rid \<and> (run_lane r \<noteq> lane \<or> run_substrate r \<noteq> substrate))
                   (\<lambda>r. r\<lparr>run_lane := lane, run_substrate := substrate\<rparr>)) (\<lambda>_.
        tx_return ()))"

end
