(* ===== verification/Run_Invariant.thy ===== *)
theory Run_Invariant
  imports Run_Store
begin

text \<open>
  What every operation of the run store keeps.  \<open>good\<close> is the well-formedness of the \<open>runs\<close> and
  \<open>run_events\<close> tables together: keys, CHECK constraints and the dispatch index, an ordered log, every
  run-scoped event fenced by its run's generation, and \<^emph>\<open>replay\<close>: folding a run's birth and
  state-change events in log order yields exactly the state stored in its row, along ratified edges.
  \<open>evolves\<close> is the frame the composed handlers are shown to respect: from a good state, the log
  grows, no run disappears, stored states move along edges and generations never go down.
\<close>

section \<open>Replaying the log\<close>

definition payload_state :: "string \<Rightarrow> event_row \<Rightarrow> run_state option" where
  "payload_state k e = Option.bind (json_extract (ev_payload e) [k]) state_of_name"

definition replay_event :: "event_row \<Rightarrow> run_state option \<Rightarrow> run_state option option" where
  "replay_event e cur =
     (if ev_type e = EventCreated \<or> ev_type e = EventForked then
        (case cur of None \<Rightarrow> map_option Some (payload_state ''state'' e) | Some _ \<Rightarrow> None)
      else if ev_type e = EventState then
        (case (payload_state ''from'' e, payload_state ''to'' e) of
           (Some a, Some b) \<Rightarrow> if cur = Some a \<and> CanTransition a b then Some (Some b) else None
         | _ \<Rightarrow> None)
      else Some cur)"

fun replay :: "event_row list \<Rightarrow> run_state option \<Rightarrow> run_state option option" where
  "replay [] cur = Some cur"
| "replay (e # es) cur = Option.bind (replay_event e cur) (replay es)"

definition events_of :: "string \<Rightarrow> db \<Rightarrow> event_row list" where
  "events_of rid s = filter (\<lambda>e. ev_run e = rid) (t_events s)"

lemma replay_append: "replay (es @ fs) cur = Option.bind (replay es cur) (replay fs)"
  by (induction es arbitrary: cur) (auto simp: Option.bind_eq_Some_conv split: Option.bind_splits)

lemma replay_edges:
  "replay es (Some a) = Some (Some b) \<Longrightarrow> CanTransition\<^sup>*\<^sup>* a b"
proof (induction es arbitrary: a)
  case Nil
  then show ?case by simp
next
  case (Cons e es)
  then obtain c where c: "replay_event e (Some a) = Some c" "replay es c = Some (Some b)"
    by (auto simp: bind_eq_Some_conv)
  show ?case
  proof (cases c)
    case None
    with c(1) show ?thesis by (auto simp: replay_event_def split: if_splits option.splits)
  next
    case (Some d)
    with c(1) have "d = a \<or> CanTransition a d"
      by (auto simp: replay_event_def split: if_splits option.splits)
    with Cons.IH [of d] c(2) Some show ?thesis by (auto intro: converse_rtranclp_into_rtranclp)
  qed
qed

text \<open>Event types that say nothing about the stored state.\<close>

definition neutral_type :: "string \<Rightarrow> bool" where
  "neutral_type ty \<longleftrightarrow> ty \<noteq> EventCreated \<and> ty \<noteq> EventForked \<and> ty \<noteq> EventState"

lemma replay_event_neutral: "neutral_type (ev_type e) \<Longrightarrow> replay_event e cur = Some cur"
  by (simp add: replay_event_def neutral_type_def)

lemma neutral_types [simp]: "neutral_type EventWedged" "neutral_type EventHarvest"
  by (simp_all add: neutral_type_def event_type_defs)

lemma created_payload_state:
  "created_payload st d = Inr p \<Longrightarrow> json_extract p [''state''] = Some (state_name st)"
  by (auto simp: created_payload_def json_extract_def split: option.splits)

lemma transition_payload_states:
  assumes "transition_payload a b opts = Inr p"
  shows "json_extract p [''from''] = Some (state_name a)"
    "json_extract p [''to''] = Some (state_name b)"
  using assms by (auto simp: transition_payload_def json_extract_def split: option.splits)

lemma payload_state_birth:
  "created_payload st d = Inr (ev_payload e) \<Longrightarrow> payload_state ''state'' e = Some st"
  by (drule created_payload_state) (simp add: payload_state_def)

lemma payload_state_transition:
  assumes "transition_payload a b opts = Inr (ev_payload e)"
  shows "payload_state ''from'' e = Some a" "payload_state ''to'' e = Some b"
  using transition_payload_states [OF assms] by (simp_all add: payload_state_def)

section \<open>The invariant\<close>

definition dispatches :: "run_row list \<Rightarrow> string list" where
  "dispatches rows = filter (\<lambda>d. d \<noteq> []) (map run_dispatch rows)"

definition fenced :: "db \<Rightarrow> bool" where
  "fenced s \<longleftrightarrow> (\<forall>e\<in>set (t_events s). ev_run e \<noteq> [] \<longrightarrow>
     (\<exists>r. find_run (ev_run e) s = Some r \<and> 0 \<le> ev_gen e \<and> ev_gen e \<le> run_generation r))"

definition replay_ok :: "db \<Rightarrow> bool" where
  "replay_ok s \<longleftrightarrow> (\<forall>rid. rid \<noteq> [] \<longrightarrow>
     replay (events_of rid s) None = Some (map_option run_state (find_run rid s)))"

definition rows_good :: "db \<Rightarrow> bool" where
  "rows_good s \<longleftrightarrow> runs_keyed (t_runs s) \<and> distinct (dispatches (t_runs s)) \<and>
     (\<forall>rid r. find_run rid s = Some r \<longrightarrow> run_checks r \<and> run_generation r \<le> int64_max)"

definition good :: "db \<Rightarrow> bool" where
  "good s \<longleftrightarrow> rows_good s \<and> log_ordered s \<and> fenced s \<and> replay_ok s"

definition progress :: "db \<Rightarrow> db \<Rightarrow> bool" where
  "progress s t \<longleftrightarrow> log_extends s t \<and>
     (\<forall>rid r. find_run rid s = Some r \<longrightarrow>
        (\<exists>r'. find_run rid t = Some r' \<and> CanTransition\<^sup>*\<^sup>* (run_state r) (run_state r') \<and>
              run_generation r \<le> run_generation r' \<and> run_user r' = run_user r \<and>
              run_task r' = run_task r \<and> run_parent r' = run_parent r \<and>
              run_dispatch r' = run_dispatch r \<and> run_attempts r' = run_attempts r))"

definition evolves :: "db \<Rightarrow> db \<Rightarrow> bool" where
  "evolves s t \<longleftrightarrow> (good s \<longrightarrow> good t \<and> progress s t)"

lemma progress_refl: "progress s s"
  by (auto simp: progress_def log.frame_refl)

lemma progress_trans: "progress s t \<Longrightarrow> progress t u \<Longrightarrow> progress s u"
  unfolding progress_def
  by (auto intro: log.frame_trans) (smt (verit) order_trans rtranclp_trans)

interpretation evolve: tx_frame evolves
  by unfold_locales (auto simp: evolves_def progress_refl intro: progress_trans)

lemma evolvesD: "evolves s t \<Longrightarrow> good s \<Longrightarrow> good t \<and> progress s t"
  by (simp add: evolves_def)

lemma tx_evolvesD: "tx_rel evolves m \<Longrightarrow> m s = Inr (x, t) \<Longrightarrow> good s \<Longrightarrow> good t \<and> progress s t"
  by (auto simp: tx_rel_def evolves_def)

lemma empty_good: "good empty_db"
  by (auto simp: good_def rows_good_def runs_keyed_def dispatches_def log_ordered_def fenced_def
      replay_ok_def events_of_def empty_db_def find_run_def tbl_find_def)

text \<open>Operations on the other tables keep the invariant.\<close>

lemma good_cong: "t_runs t = t_runs s \<Longrightarrow> t_events t = t_events s \<Longrightarrow> good t \<longleftrightarrow> good s"
  using find_run_cong [of t s]
  by (simp add: good_def rows_good_def log_ordered_def fenced_def replay_ok_def events_of_def)

lemma evolves_cong: "t_runs t = t_runs s \<Longrightarrow> t_events t = t_events s \<Longrightarrow> evolves s t"
  using find_run_cong [of t s] good_cong [of t s]
  by (auto simp: evolves_def progress_def log_extends_def)

lemma evolves_modify:
  "(\<And>s. t_runs (f s) = t_runs s) \<Longrightarrow> (\<And>s. t_events (f s) = t_events s) \<Longrightarrow>
   tx_rel evolves (tx_modify f)"
  by (intro evolve.rel_modify evolves_cong)

lemma evolves_pure:
  assumes "\<And>s x t. m s = Inr (x, t) \<Longrightarrow> t_runs t = t_runs s \<and> t_events t = t_events s"
  shows "tx_rel evolves m"
  by (rule tx_relI) (use assms in \<open>blast intro: evolves_cong\<close>)

section \<open>Events and rows\<close>

lemma good_run: "good s \<Longrightarrow> find_run rid s = Some r \<Longrightarrow> run_checks r \<and> run_generation r \<le> int64_max"
  by (simp add: good_def rows_good_def)

lemma events_of_append:
  "events_of rid (s\<lparr>t_events := t_events s @ [e]\<rparr>) =
     events_of rid s @ (if ev_run e = rid then [e] else [])"
  by (simp add: events_of_def)

lemma find_run_events [simp]: "find_run rid (s\<lparr>t_events := es\<rparr>) = find_run rid s"
  by (simp add: find_run_def)

lemma rows_good_events [simp]: "rows_good (s\<lparr>t_events := es\<rparr>) = rows_good s"
  by (simp add: rows_good_def)

text \<open>Appending a neutral event that is fenced at the run's current generation.\<close>

lemma AppendTx_evolves:
  assumes "neutral_type (ap_type a)"
  shows "tx_rel evolves (AppendTx cfg now a)"
proof (rule tx_relI)
  fix s seq t assume ap: "AppendTx cfg now a s = Inr (seq, t)"
  let ?e = "new_event seq now a"
  have t: "t = s\<lparr>t_events := t_events s @ [?e]\<rparr>" and v: "validate cfg a = Inr ()"
    and gen: "ap_run a \<noteq> [] \<longrightarrow> (\<exists>r. find_run (ap_run a) s = Some r \<and> run_generation r = ap_gen a)"
    using ap by (auto simp: AppendTx_Inr)
  show "evolves s t" unfolding evolves_def
  proof
    assume g: "good s"
    have "replay_event ?e cur = Some cur" for cur
      using assms by (intro replay_event_neutral) (simp add: new_event_def)
    then have "replay_ok t" using g
      by (auto simp: good_def replay_ok_def t events_of_append replay_append)
    moreover have "fenced t" using g gen v
      by (auto simp: good_def fenced_def t new_event_def validate_Inr)
    moreover have "log_ordered t" using g ap by (auto simp: good_def dest: appender.append_ordered)
    moreover have "rows_good t" using g by (simp add: good_def rows_good_def t)
    ultimately show "good t \<and> progress s t"
      by (auto simp: good_def progress_def t log_extends_def)
  qed
qed

text \<open>
  The one-row update all writers of \<open>runs\<close> are: the row of \<open>rid\<close> is rewritten, keeping its identity
  columns, and at most one event about the same run is appended, fenced at the new generation.
\<close>

definition row_keeps :: "run_row \<Rightarrow> run_row \<Rightarrow> bool" where
  "row_keeps r r' \<longleftrightarrow> run_id r' = run_id r \<and> run_user r' = run_user r \<and> run_task r' = run_task r \<and>
     run_parent r' = run_parent r \<and> run_dispatch r' = run_dispatch r \<and> run_attempts r' = run_attempts r"

lemma rows_good_update:
  assumes g: "rows_good s" and r: "find_run rid s = Some r" and q: "q r"
    and keep: "\<And>x. row_keeps x (f x)"
    and gen: "run_generation r \<le> run_generation (f r)" "run_generation (f r) \<le> int64_max"
  shows "rows_good (update_runs (\<lambda>x. run_id x = rid \<and> q x) f s)"
proof -
  let ?p = "\<lambda>x. run_id x = rid \<and> q x"
  have id: "run_id (f x) = run_id x" and disp: "run_dispatch (f x) = run_dispatch x" for x
    using keep [of x] by (simp_all add: row_keeps_def)
  have "map run_id (tbl_update ?p f (t_runs s)) = map run_id (t_runs s)"
    "map run_dispatch (tbl_update ?p f (t_runs s)) = map run_dispatch (t_runs s)"
    by (simp_all add: tbl_update_def id disp)
  moreover have "run_checks r' \<and> run_generation r' \<le> int64_max"
    if "find_run rid' (update_runs ?p f s) = Some r'" for rid' r'
  proof (cases "rid' = rid")
    case True
    with that find_run_update_same [OF r id, of q] q have "r' = f r" by simp
    moreover have "run_checks (f r)"
      using g r gen(1) keep [of r] unfolding rows_good_def run_checks_def row_keeps_def
      by (metis order_trans)
    ultimately show ?thesis using gen by simp
  next
    case False
    then have "find_run rid' s = Some r'"
      using that find_run_update_other [of s ?p rid f rid'] id by simp
    with g show ?thesis by (simp add: rows_good_def)
  qed
  ultimately show ?thesis using g
    by (simp add: rows_good_def runs_keyed_def dispatches_def)
qed

lemma update_row_good:
  assumes g: "good s" and r: "find_run rid s = Some r" and q: "q r"
    and keep: "\<And>x. row_keeps x (f x)"
    and gen: "run_generation r \<le> run_generation (f r)" "run_generation (f r) \<le> int64_max"
    and st: "run_state (f r) = run_state r"
  shows "good (update_runs (\<lambda>x. run_id x = rid \<and> q x) f s) \<and>
    progress s (update_runs (\<lambda>x. run_id x = rid \<and> q x) f s)"
proof -
  let ?u = "update_runs (\<lambda>x. run_id x = rid \<and> q x) f s"
  have id: "run_id (f x) = run_id x" for x using keep [of x] by (simp add: row_keeps_def)
  have same: "find_run rid ?u = Some (f r)" using find_run_update_same [OF r id, of q] q by simp
  have other: "find_run rid' ?u = find_run rid' s" if "rid' \<noteq> rid" for rid'
    using find_run_update_other [of s "\<lambda>x. run_id x = rid \<and> q x" rid f rid'] id that by simp
  have rows: "rows_good ?u" using rows_good_update [where q = q and f = f] g r q keep gen
    by (simp add: good_def)
  have step: "\<exists>x'. find_run rid' ?u = Some x' \<and> run_generation x \<le> run_generation x' \<and>
      run_state x' = run_state x \<and> row_keeps x x'" if "find_run rid' s = Some x" for rid' x
    using that r same other [of rid'] gen st keep [of r]
    by (cases "rid' = rid") (auto simp: row_keeps_def)
  have map: "map_option run_state (find_run rid' ?u) = map_option run_state (find_run rid' s)" for rid'
    using other [of rid'] same r st by (cases "rid' = rid") auto
  have fen: "fenced ?u" using g unfolding good_def fenced_def
    by (clarsimp simp del: ) (use step in \<open>fastforce\<close>)
  have "replay_ok ?u" using g map by (simp add: good_def replay_ok_def events_of_def)
  then have "good ?u" using g rows fen by (simp add: good_def log_ordered_def)
  moreover have "progress s ?u"
    using step unfolding progress_def log_extends_def row_keeps_def by fastforce
  ultimately show ?thesis by blast
qed

lemma fenced_mono:
  assumes "fenced s" "t_events t = t_events s"
    and "\<And>rid r. find_run rid s = Some r \<Longrightarrow>
      \<exists>r'. find_run rid t = Some r' \<and> run_generation r \<le> run_generation r'"
  shows "fenced t"
  using assms unfolding fenced_def by (metis order_trans)

lemma fenced_append:
  assumes "fenced s" "ev_run e \<noteq> [] \<Longrightarrow> \<exists>r. find_run (ev_run e) s = Some r \<and> run_generation r = ev_gen e"
    "0 \<le> ev_gen e"
  shows "fenced (s\<lparr>t_events := t_events s @ [e]\<rparr>)"
  using assms by (auto simp: fenced_def)

section \<open>The writers of runs\<close>

lemma exec_update_runs_Inr [tx_simps]:
  "exec_update_runs p f s = Inr (n, t) \<longleftrightarrow>
     (\<forall>r\<in>set (t_runs s). p r \<longrightarrow> run_checks (f r)) \<and> n = tbl_count p (t_runs s) \<and> t = update_runs p f s"
  by (auto simp: exec_update_runs_def list_ex_iff)

lemma getTx_Inr [tx_simps]: "getTx rid s = Inr (r, t) \<longleftrightarrow> find_run rid s = Some r \<and> t = s"
  by (auto simp: getTx_def tx_simps)

lemma getTx_Inl [tx_simps]: "getTx rid s = Inl e \<longleftrightarrow> find_run rid s = None \<and> e = ErrNotFound rid"
  by (auto simp: getTx_def tx_simps)

lemma getTx_evolves [tx_rel_intros]: "tx_rel evolves (getTx rid)"
  by (simp add: getTx_def evolve.rel_some)

text \<open>A guarded update of one run's row that leaves the stored state alone.\<close>

lemma exec_update_evolves:
  assumes keep: "\<And>x. row_keeps x (f x)" and st: "\<And>x. run_state (f x) = run_state x"
    and gen: "\<And>x. q x \<Longrightarrow> run_checks x \<Longrightarrow> run_checks (f x) \<Longrightarrow> run_generation x \<le> int64_max \<Longrightarrow>
      run_generation x \<le> run_generation (f x) \<and> run_generation (f x) \<le> int64_max"
  shows "tx_rel evolves (exec_update_runs (\<lambda>x. run_id x = rid \<and> q x) f)"
proof (rule tx_relI)
  fix s n t assume ex: "exec_update_runs (\<lambda>x. run_id x = rid \<and> q x) f s = Inr (n, t)"
  then have t: "t = update_runs (\<lambda>x. run_id x = rid \<and> q x) f s"
    and chk: "\<And>r. r \<in> set (t_runs s) \<Longrightarrow> run_id r = rid \<and> q r \<Longrightarrow> run_checks (f r)"
    by (auto simp: tx_simps)
  show "evolves s t" unfolding evolves_def
  proof
    assume g: "good s"
    show "good t \<and> progress s t"
    proof (cases "\<exists>r. find_run rid s = Some r \<and> q r")
      case True
      then obtain r where r: "find_run rid s = Some r" "q r" by blast
      with chk find_run_Some good_run [OF g r(1)] gen [of r]
      have "run_generation r \<le> run_generation (f r)" "run_generation (f r) \<le> int64_max" by blast+
      from update_row_good [where q = q and f = f, OF g r keep this st] t show ?thesis by simp
    next
      case False
      have "\<not> (run_id x = rid \<and> q x)" if "x \<in> set (t_runs s)" for x
        using False g that runs.find_key [of "t_runs s" x]
        by (auto simp: good_def rows_good_def find_run_def)
      then have "t_runs t = t_runs s" by (simp add: t tbl_update_none)
      with g show ?thesis using evolves_cong [of t s] by (simp add: t evolves_def)
    qed
  qed
qed

lemma SetLeaseTx_evolves [tx_rel_intros]: "tx_rel evolves (SetLeaseTx env rid holder deadline hb)"
proof -
  have "tx_rel evolves (exec_update_runs (\<lambda>r. run_id r = rid \<and> True)
      (\<lambda>r. r\<lparr>run_lease_holder := holder, run_lease_deadline := deadline,
             run_heartbeat_seq := (if hb > 0 then hb else 0), run_updated := env_now env\<rparr>))"
    by (rule exec_update_evolves) (simp_all add: row_keeps_def)
  then show ?thesis
    unfolding SetLeaseTx_def by (intro evolve.frame_rules) (simp_all add: evolve.frame_rules)
qed

lemma RenewLeaseTx_evolves [tx_rel_intros]: "tx_rel evolves (RenewLeaseTx env rid holder deadline gen)"
  unfolding RenewLeaseTx_def
  by (intro evolve.frame_rules exec_update_evolves) (simp_all add: row_keeps_def)

lemma wrap64_succ_checked:
  "0 \<le> g \<Longrightarrow> g \<le> int64_max \<Longrightarrow> 0 \<le> wrap64 (g + 1) \<Longrightarrow> wrap64 (g + 1) = g + 1 \<and> g + 1 \<le> int64_max"
  by (auto simp: wrap64_succ int64_min_def int64_max_def split: if_splits)

lemma BumpGenerationTx_evolves [tx_rel_intros]: "tx_rel evolves (BumpGenerationTx env rid)"
  unfolding BumpGenerationTx_def
  by (intro evolve.frame_rules exec_update_evolves getTx_evolves)
     (auto simp: row_keeps_def run_checks_def dest: wrap64_succ_checked)

lemma SetWorkspaceRef_evolves [tx_rel_intros]: "tx_rel evolves (SetWorkspaceRef rid ref)"
proof -
  have "tx_rel evolves (exec_update_runs (\<lambda>r. run_id r = rid \<and> True) (\<lambda>r. r\<lparr>run_workspace := ref\<rparr>))"
    by (rule exec_update_evolves) (simp_all add: row_keeps_def)
  then show ?thesis unfolding SetWorkspaceRef_def
    by (intro evolve.frame_rules) (simp_all add: evolve.frame_rules)
qed

lemma SetDecidedLane_evolves [tx_rel_intros]: "tx_rel evolves (SetDecidedLane rid lane substrate)"
  unfolding SetDecidedLane_def
  by (intro evolve.frame_rules exec_update_evolves) (simp_all add: row_keeps_def)

section \<open>Transitions\<close>

definition transition_row :: "env \<Rightarrow> run_row \<Rightarrow> run_state \<Rightarrow> run_row" where
  "transition_row env cur to = cur\<lparr>run_state := to, run_generation := next_generation cur to,
     run_updated := env_now env\<rparr>"

definition transition_event ::
  "env \<Rightarrow> run_row \<Rightarrow> run_state \<Rightarrow> raw \<Rightarrow> int \<Rightarrow> event_row" where
  "transition_event env cur to payload seq = new_event seq (env_now env)
     (run_append (run_id cur) (next_generation cur to) (run_user cur) EventState payload)"

text \<open>The state after the UPDATE and the event append, before the run-end hook.\<close>

definition transition_db :: "env \<Rightarrow> run_row \<Rightarrow> run_state \<Rightarrow> raw \<Rightarrow> db \<Rightarrow> db" where
  "transition_db env cur to payload s =
     (update_runs (\<lambda>r. run_id r = run_id cur \<and>
                       (run_state r = run_state cur \<and> run_generation r = run_generation cur))
        (\<lambda>r. r\<lparr>run_state := to, run_generation := next_generation cur to,
               run_updated := env_now env\<rparr>) s)
     \<lparr>t_events := t_events s @
        [transition_event env cur to payload (next_rowid (map ev_seq (t_events s)))]\<rparr>"

lemma transition_db_find:
  assumes "find_run rid s = Some cur"
  shows "find_run rid (transition_db env cur to payload s) = Some (transition_row env cur to)"
    and "rid' \<noteq> rid \<Longrightarrow> find_run rid' (transition_db env cur to payload s) = find_run rid' s"
  using find_run_Some [OF assms] assms
    find_run_update_same [OF assms, where q = "\<lambda>r. run_state r = run_state cur \<and>
      run_generation r = run_generation cur"]
    find_run_update_other [of s "\<lambda>r. run_id r = rid \<and> (run_state r = run_state cur \<and>
      run_generation r = run_generation cur)" rid]
  by (auto simp: transition_db_def transition_row_def)

text \<open>A transition that commits, spelt out.\<close>

lemma TransitionTx_Inr:
  assumes "TransitionTx env rid to opts s = Inr (r, t)"
  obtains cur payload u where
    "find_run rid s = Some cur" "CanTransition (run_state cur) to"
    "0 \<le> next_generation cur to"
    "transition_payload (run_state cur) to opts = Inr payload"
    "u = transition_db env cur to payload s" "r = transition_row env cur to"
    "run_hook env to r u = Inr ((), t)"
    "validate (env_settings env)
       (run_append rid (next_generation cur to) (run_user cur) EventState payload) = Inr ()"
proof -
  from assms obtain cur payload u1 seq u where *: "find_run rid s = Some cur"
    "CanTransition (run_state cur) to"
    "exec_update_runs (\<lambda>r. run_id r = rid \<and>
        (run_state r = run_state cur \<and> run_generation r = run_generation cur))
      (\<lambda>r. r\<lparr>run_state := to, run_generation := next_generation cur to,
             run_updated := env_now env\<rparr>) s = Inr (1, u1)"
    "transition_payload (run_state cur) to opts = Inr payload"
    "AppendTx (env_settings env) (env_now env)
       (run_append rid (next_generation cur to) (run_user cur) EventState payload) u1 = Inr (seq, u)"
    "find_run rid u = Some r" "run_hook env to r u = Inr ((), t)"
    by (auto simp: TransitionTx_def tx_bind_Inr tx_lift_Inr getTx_Inr tx_return_Inr tx_fail_Inr
        split: if_splits)
  have id: "run_id cur = rid" "cur \<in> set (t_runs s)" using find_run_Some [OF *(1)] by simp_all
  have u1: "u1 = update_runs (\<lambda>r. run_id r = rid \<and>
        (run_state r = run_state cur \<and> run_generation r = run_generation cur))
      (\<lambda>r. r\<lparr>run_state := to, run_generation := next_generation cur to,
             run_updated := env_now env\<rparr>) s"
    and chk: "run_checks (cur\<lparr>run_state := to, run_generation := next_generation cur to,
        run_updated := env_now env\<rparr>)"
    using *(3) id unfolding exec_update_runs_Inr by blast+
  have u: "u = transition_db env cur to payload s"
    and v: "validate (env_settings env)
       (run_append rid (next_generation cur to) (run_user cur) EventState payload) = Inr ()"
    using *(5) unfolding AppendTx_Inr u1 transition_db_def transition_event_def id by simp_all
  have "0 \<le> next_generation cur to" using chk by (simp add: run_checks_def)
  moreover have "r = transition_row env cur to" using *(6) u transition_db_find(1) [OF *(1)] by simp
  ultimately show thesis using that * u v by blast
qed

lemma next_generation_ok:
  assumes "run_checks cur" "run_generation cur \<le> int64_max" "0 \<le> next_generation cur to"
  shows "run_generation cur \<le> next_generation cur to" "next_generation cur to \<le> int64_max"
    "next_generation cur to =
      (if generationBumps (run_state cur) to then run_generation cur + 1 else run_generation cur)"
  using assms wrap64_succ_checked [of "run_generation cur"]
  by (auto simp: next_generation_def run_checks_def)

lemma transition_db_good:
  assumes g: "good s" and cur: "find_run rid s = Some cur"
    and edge: "CanTransition (run_state cur) to" and gen: "0 \<le> next_generation cur to"
    and payload: "transition_payload (run_state cur) to opts = Inr payload"
  shows "good (transition_db env cur to payload s) \<and> progress s (transition_db env cur to payload s)"
proof -
  let ?u = "transition_db env cur to payload s"
  let ?e = "transition_event env cur to payload (next_rowid (map ev_seq (t_events s)))"
  have rid: "run_id cur = rid" "rid \<noteq> []" using find_run_Some [OF cur] good_run [OF g cur]
    by (auto simp: run_checks_def)
  note grow = next_generation_ok [OF conjunct1 [OF good_run [OF g cur]]
      conjunct2 [OF good_run [OF g cur]] gen]
  have ev: "ev_run ?e = rid" "ev_gen ?e = next_generation cur to" "ev_type ?e = EventState"
    "ev_payload ?e = payload" "ev_seq ?e = next_rowid (map ev_seq (t_events s))"
    using rid by (auto simp: transition_event_def new_event_def run_append_def)
  have "rows_good (update_runs (\<lambda>r. run_id r = rid \<and>
        (run_state r = run_state cur \<and> run_generation r = run_generation cur))
      (\<lambda>r. r\<lparr>run_state := to, run_generation := next_generation cur to,
             run_updated := env_now env\<rparr>) s)"
    by (rule rows_good_update [OF conjunct1 [OF g [unfolded good_def]] cur])
       (simp_all add: row_keeps_def grow(1,2))
  then have rows: "rows_good ?u" by (simp add: transition_db_def rid)
  note find = transition_db_find [OF cur, where env = env and to = to and payload = payload]
  have evs: "t_events ?u = t_events s @ [?e]" by (simp add: transition_db_def)
  have ordered: "log_ordered ?u"
    using g next_rowid_gt [of _ "map ev_seq (t_events s)"] next_rowid_pos ev(5)
    by (auto simp: good_def log_ordered_def evs sorted_wrt_append)
  have fen: "fenced ?u"
  proof (unfold fenced_def, intro ballI impI)
    fix e assume e: "e \<in> set (t_events ?u)" "ev_run e \<noteq> []"
    show "\<exists>r. find_run (ev_run e) ?u = Some r \<and> 0 \<le> ev_gen e \<and> ev_gen e \<le> run_generation r"
    proof (cases "e = ?e")
      case True
      with find(1) ev gen show ?thesis by (simp add: transition_row_def)
    next
      case False
      with e evs g obtain r where r: "find_run (ev_run e) s = Some r" "0 \<le> ev_gen e"
        "ev_gen e \<le> run_generation r" by (auto simp: good_def fenced_def)
      show ?thesis
      proof (cases "ev_run e = rid")
        case True
        with r cur find(1) grow(1) show ?thesis by (auto simp: transition_row_def)
      next
        case False
        with r find(2) show ?thesis by auto
      qed
    qed
  qed
  have replay: "replay_ok ?u"
  proof (unfold replay_ok_def, intro allI impI)
    fix x :: string assume x: "x \<noteq> []"
    have old: "replay (events_of x s) None = Some (map_option run_state (find_run x s))"
      using g x by (simp add: good_def replay_ok_def)
    have app: "events_of x ?u = events_of x s @ (if x = rid then [?e] else [])"
      using ev(1) by (simp add: events_of_def evs)
    have "replay_event ?e (Some (run_state cur)) = Some (Some to)"
      using payload_state_transition [of "run_state cur" to opts ?e] payload ev(3,4) edge
      by (simp add: replay_event_def event_type_defs)
    then show "replay (events_of x ?u) None = Some (map_option run_state (find_run x ?u))"
      using old app cur find by (auto simp: replay_append transition_row_def)
  qed
  have "progress s ?u"
    unfolding progress_def
  proof (intro conjI allI impI)
    show "log_extends s ?u" by (simp add: log_extends_def evs)
    fix x r assume r: "find_run x s = Some r"
    show "\<exists>r'. find_run x ?u = Some r' \<and> CanTransition\<^sup>*\<^sup>* (run_state r) (run_state r') \<and>
        run_generation r \<le> run_generation r' \<and> run_user r' = run_user r \<and>
        run_task r' = run_task r \<and> run_parent r' = run_parent r \<and>
        run_dispatch r' = run_dispatch r \<and> run_attempts r' = run_attempts r"
      using r cur find edge grow(1)
      by (cases "x = rid") (auto simp: transition_row_def)
  qed
  with rows ordered fen replay show ?thesis by (simp add: good_def)
qed

text \<open>
  The law the run store asks of an installed run-end hook: whatever it writes (the run summary and
  its event) respects the frame.
\<close>

definition hook_ok :: "env \<Rightarrow> bool" where
  "hook_ok env \<longleftrightarrow> (\<forall>h r. env_hook env = Some h \<longrightarrow> tx_rel evolves (h r))"

lemma no_hook_ok [simp]: "env_hook env = None \<Longrightarrow> hook_ok env"
  by (simp add: hook_ok_def)

lemma run_hook_evolves: "hook_ok env \<Longrightarrow> tx_rel evolves (run_hook env to r)"
  by (auto simp: run_hook_def hook_ok_def intro: evolve.frame_rules split: option.splits)

lemma TransitionTx_evolves [tx_rel_intros]:
  assumes "hook_ok env"
  shows "tx_rel evolves (TransitionTx env rid to opts)"
proof (rule tx_relI)
  fix s r t assume tr: "TransitionTx env rid to opts s = Inr (r, t)"
  show "evolves s t" unfolding evolves_def
  proof
    assume g: "good s"
    from tr show "good t \<and> progress s t"
    proof (rule TransitionTx_Inr)
      fix cur payload u
      assume *: "find_run rid s = Some cur" "CanTransition (run_state cur) to"
        "0 \<le> next_generation cur to" "transition_payload (run_state cur) to opts = Inr payload"
        "u = transition_db env cur to payload s" "run_hook env to r u = Inr ((), t)"
      with transition_db_good [OF g] have u: "good u \<and> progress s u" by simp
      with *(6) tx_evolvesD [OF run_hook_evolves [OF assms]] have "good t \<and> progress u t" by blast
      with u show ?thesis by (blast intro: progress_trans)
    qed
  qed
qed

section \<open>Births\<close>

lemma insert_run_Inr:
  "insert_run r s = Inr (u, t) \<longleftrightarrow> insert_allowed r s \<and> t = s\<lparr>t_runs := t_runs s @ [r]\<rparr>"
  by (auto simp: insert_run_def)

lemma find_run_insert:
  "find_run (run_id r) s = None \<Longrightarrow>
   find_run rid (s\<lparr>t_runs := t_runs s @ [r]\<rparr>) = (if rid = run_id r then Some r else find_run rid s)"
  by (auto simp: find_run_def tbl_find_def find_append split: option.splits)

lemma CreateTx_Inr:
  assumes "CreateTx env n ty detail s = Inr (r, t)"
  obtains st payload where
    "state_of_name (if nr_state n = [] then state_name StateNew else nr_state n) = Some st"
    "r = row_of_new (env_now env) n st" "insert_allowed r s"
    "created_payload st detail = Inr payload"
    "validate (env_settings env) (run_append (nr_id n) (nr_generation n) (nr_user n) ty payload) = Inr ()"
    "t = s\<lparr>t_runs := t_runs s @ [r], t_events := t_events s @
       [new_event (next_rowid (map ev_seq (t_events s))) (env_now env)
          (run_append (nr_id n) (nr_generation n) (nr_user n) ty payload)]\<rparr>"
proof -
  from assms obtain st payload row where *:
    "state_of_name (if nr_state n = [] then state_name StateNew else nr_state n) = Some st"
    "row = row_of_new (env_now env) n st" "insert_allowed row s"
    "created_payload st detail = Inr payload"
    "validate (env_settings env) (run_append (nr_id n) (nr_generation n) (nr_user n) ty payload) = Inr ()"
    "t = s\<lparr>t_runs := t_runs s @ [row], t_events := t_events s @
       [new_event (next_rowid (map ev_seq (t_events s))) (env_now env)
          (run_append (nr_id n) (nr_generation n) (nr_user n) ty payload)]\<rparr>"
    "find_run (nr_id n) t = Some r"
    unfolding CreateTx_def
    by (auto simp: tx_simps insert_run_Inr AppendTx_Inr split: if_splits option.splits)
  have "find_run (run_id row) s = None" using *(3) by (simp add: insert_allowed_def)
  from find_run_insert [OF this, of "nr_id n"] * have "r = row"
    by (simp add: row_of_new_def find_run_def)
  with * that show thesis by blast
qed

lemma CreateTx_evolves [tx_rel_intros]:
  assumes ty: "ty = EventCreated \<or> ty = EventForked" and gen: "nr_generation n \<le> int64_max"
  shows "tx_rel evolves (CreateTx env n ty detail)"
proof (rule tx_relI)
  fix s r t assume cr: "CreateTx env n ty detail s = Inr (r, t)"
  show "evolves s t" unfolding evolves_def
  proof
    assume g: "good s"
    from cr show "good t \<and> progress s t"
    proof (rule CreateTx_Inr)
      fix st payload
      let ?e = "new_event (next_rowid (map ev_seq (t_events s))) (env_now env)
          (run_append (nr_id n) (nr_generation n) (nr_user n) ty payload)"
      assume *: "r = row_of_new (env_now env) n st" "insert_allowed r s"
        "created_payload st detail = Inr payload"
        "t = s\<lparr>t_runs := t_runs s @ [r], t_events := t_events s @ [?e]\<rparr>"
      have r: "run_id r = nr_id n" "run_generation r = nr_generation n" "run_state r = st"
        "run_dispatch r = nr_dispatch n"
        using *(1) by (simp_all add: row_of_new_def)
      have chk: "run_checks r" and new: "find_run (nr_id n) s = None"
        using *(2) r by (simp_all add: insert_allowed_def)
      have id: "nr_id n \<noteq> []" using chk r by (simp add: run_checks_def)
      have ev: "ev_run ?e = nr_id n" "ev_gen ?e = nr_generation n" "ev_type ?e = ty"
        "ev_payload ?e = payload" "ev_seq ?e = next_rowid (map ev_seq (t_events s))"
        using id by (simp_all add: new_event_def run_append_def)
      have find: "find_run x t = (if x = nr_id n then Some r else find_run x s)" for x
        using find_run_insert [of r s x] new r *(4) by (simp add: find_run_def)
      have "nr_id n \<notin> run_id ` set (t_runs s)" using new by (simp add: find_run_None)
      then have rows: "rows_good t"
        using g r chk gen *(2) find
        by (auto simp: good_def rows_good_def runs_keyed_def dispatches_def *(4)
            insert_allowed_def list_ex_iff)
      have ordered: "log_ordered t"
        using g next_rowid_gt [of _ "map ev_seq (t_events s)"] next_rowid_pos ev(5)
        by (auto simp: good_def log_ordered_def *(4) sorted_wrt_append)
      have fen: "fenced t"
        using g ev r new chk find by (auto simp: good_def fenced_def *(4) run_checks_def)
      have "replay_event ?e None = Some (Some st)"
        using payload_state_birth [of st detail ?e] *(3) ev ty by (auto simp: replay_event_def)
      then have replay: "replay_ok t"
        using g new r ev(1) find
        by (auto simp: good_def replay_ok_def events_of_def *(4) replay_append)
      have "progress s t"
        using find new by (auto simp: progress_def log_extends_def *(4))
      with rows ordered fen replay show "good t \<and> progress s t" by (simp add: good_def)
    qed
  qed
qed

end
