(* ===== verification/Lease_Keeper.thy ===== *)
theory Lease_Keeper
  imports Run_Invariant
begin

text \<open>
  \<open>internal/run/lease.go\<close>: the holder of a run's lease.  A hold pins the generation it beats at,
  renews at once and then at every tick, re-reading the cadence; every beat is one fenced
  \<open>RenewLeaseTx\<close>.  The ticker goroutine is the list of the environments (clock and settings) its
  ticks see; whatever other components do between two ticks is a state change in between.
\<close>

definition keyHeartbeat :: string where "keyHeartbeat = ''recovery.heartbeat''"
definition keyDeadAfter :: string where "keyDeadAfter = ''recovery.dead_after''"

record hold =
  hold_run :: string
  hold_holder :: string
  hold_gen :: int
  hold_period :: duration

definition pin :: "string \<Rightarrow> db \<Rightarrow> int option" where
  "pin rid s = (case Get rid s of Inl _ \<Rightarrow> None | Inr r \<Rightarrow> Some (run_generation r))"

text \<open>\<open>beat\<close>: errors are logged and dropped, so the result is the state only.\<close>

definition beat :: "env \<Rightarrow> string \<Rightarrow> string \<Rightarrow> int \<Rightarrow> db \<Rightarrow> db" where
  "beat env rid holder gen s =
     (case read_duration (env_settings env) keyDeadAfter of
        Inl _ \<Rightarrow> s
      | Inr deadAfter \<Rightarrow>
          snd (write_tx (RenewLeaseTx env rid holder (env_now env + deadAfter) gen) s))"

text \<open>\<open>Beat\<close> and \<open>Hold\<close> of a possibly unwired (nil) keeper.\<close>

definition Beat :: "bool \<Rightarrow> env \<Rightarrow> string \<Rightarrow> string \<Rightarrow> db \<Rightarrow> db" where
  "Beat wired env rid holder s =
     (if \<not> wired then s
      else case pin rid s of None \<Rightarrow> s | Some gen \<Rightarrow> beat env rid holder gen s)"

definition Hold :: "bool \<Rightarrow> env \<Rightarrow> string \<Rightarrow> string \<Rightarrow> db \<Rightarrow> hold option \<times> db" where
  "Hold wired env rid holder s =
     (if \<not> wired then (None, s)
      else case pin rid s of
        None \<Rightarrow> (None, s)
      | Some gen \<Rightarrow>
          (let s' = beat env rid holder gen s
           in case read_duration (env_settings env) keyHeartbeat of
                Inl _ \<Rightarrow> (None, s')
              | Inr period \<Rightarrow>
                  (Some \<lparr>hold_run = rid, hold_holder = holder, hold_gen = gen,
                         hold_period = period\<rparr>, s')))"

definition hold_tick :: "env \<Rightarrow> hold \<Rightarrow> db \<Rightarrow> hold \<times> db" where
  "hold_tick env h s =
     ((case read_duration (env_settings env) keyHeartbeat of
         Inl _ \<Rightarrow> h
       | Inr next \<Rightarrow> if next \<noteq> hold_period h then h\<lparr>hold_period := next\<rparr> else h),
      beat env (hold_run h) (hold_holder h) (hold_gen h) s)"

text \<open>
  The ticks of a hold until its release, each with the change the rest of the platform made to the
  state since the previous one.
\<close>

fun hold_ticks :: "(env \<times> (db \<Rightarrow> db)) list \<Rightarrow> hold \<Rightarrow> db \<Rightarrow> hold \<times> db" where
  "hold_ticks [] h s = (h, s)"
| "hold_ticks ((env, others) # ticks) h s =
     (let (h', s') = hold_tick env h (others s) in hold_ticks ticks h' s')"

section \<open>What a beat does\<close>

lemma RenewLeaseTx_stale:
  assumes "\<And>r. find_run rid s = Some r \<Longrightarrow> run_generation r \<noteq> gen \<or>
      run_state r \<notin> {StateClaimed, StateRunning, StateDraining}"
    and "runs_keyed (t_runs s)" and "\<not> is_zero_time deadline"
  shows "RenewLeaseTx env rid holder deadline gen s = Inr (False, s)"
proof -
  have none: "\<not> (run_id x = rid \<and> run_generation x = gen \<and>
      run_state x \<in> {StateClaimed, StateRunning, StateDraining})" if "x \<in> set (t_runs s)" for x
    using assms(1) runs.find_key [OF assms(2) that] by (auto simp: find_run_def)
  then have same: "tbl_update (\<lambda>r. run_id r = rid \<and> (run_generation r = gen \<and>
      run_state r \<in> {StateClaimed, StateRunning, StateDraining})) f (t_runs s) = t_runs s" for f
    by (intro tbl_update_none) blast
  have count: "tbl_count (\<lambda>r. run_id r = rid \<and> (run_generation r = gen \<and>
      run_state r \<in> {StateClaimed, StateRunning, StateDraining})) (t_runs s) = 0"
    unfolding tbl_count_0 using none by blast
  have ok: "\<not> list_ex (\<lambda>r. (run_id r = rid \<and> (run_generation r = gen \<and>
      run_state r \<in> {StateClaimed, StateRunning, StateDraining})) \<and> \<not> run_checks (f r)) (t_runs s)" for f
    unfolding list_ex_iff using none by blast
  show ?thesis
    using assms(3) count
    by (simp only: RenewLeaseTx_def exec_update_runs_def ok if_False tx_bind_def tx_read_def
        tx_return_def sum.case prod.case update_runs_def same) (simp add: is_zero_time_def)
qed

lemma RenewLeaseTx_live:
  assumes "find_run rid s = Some r" "run_generation r = gen" "run_checks r"
    "run_state r \<in> {StateClaimed, StateRunning, StateDraining}"
    "runs_keyed (t_runs s)" "\<not> is_zero_time deadline"
  shows "\<exists>t. RenewLeaseTx env rid holder deadline gen s = Inr (True, t) \<and>
    find_run rid t = Some (r\<lparr>run_lease_holder := (if holder = [] then run_lease_holder r else holder),
      run_lease_deadline := deadline, run_heartbeat_seq := max_event_seq rid s,
      run_updated := env_now env\<rparr>) \<and> t_events t = t_events s"
proof -
  let ?q = "\<lambda>r. run_generation r = gen \<and> run_state r \<in> {StateClaimed, StateRunning, StateDraining}"
  let ?p = "\<lambda>r. run_id r = rid \<and> ?q r"
  let ?f = "\<lambda>r. r\<lparr>run_lease_holder := (if holder = [] then run_lease_holder r else holder),
      run_lease_deadline := deadline, run_heartbeat_seq := max_event_seq rid s,
      run_updated := env_now env\<rparr>"
  have r: "r \<in> set (t_runs s)" "run_id r = rid" using find_run_Some [OF assms(1)] by simp_all
  have uniq: "x = r" if "x \<in> set (t_runs s)" "?p x" for x
    using runs.key_unique [OF assms(5) that(1) r(1)] that(2) r(2) by simp
  have "filter ?p (t_runs s) \<noteq> []" using r assms(2,4) by (auto simp: filter_empty_conv)
  moreover have "tbl_count ?p (t_runs s) \<le> 1" by (rule runs.count_key_le_1 [OF assms(5)])
  ultimately have count: "tbl_count ?p (t_runs s) = 1"
    by (cases "filter ?p (t_runs s)") (auto simp: tbl_count_def)
  have chk: "\<forall>x\<in>set (t_runs s). ?p x \<longrightarrow> run_checks (?f x)"
    using uniq assms(3) by (auto simp: run_checks_def)
  have "RenewLeaseTx env rid holder deadline gen s = Inr (True, update_runs ?p ?f s)"
    using assms(6) count chk
    by (auto simp: RenewLeaseTx_def exec_update_runs_def tx_bind_def tx_read_def tx_return_def list_ex_iff)
  moreover have "find_run rid (update_runs ?p ?f s) = Some (?f r)"
    using find_run_update_same [OF assms(1), where q = ?q and f = ?f] assms(2,4) by simp
  ultimately show ?thesis by auto
qed

lemma beat_evolves: "evolves s (beat env rid holder gen s)"
  by (auto simp: beat_def evolve.frame_refl intro: evolve.rel_write RenewLeaseTx_evolves
      split: sum.splits)

lemma beat_events: "t_events (beat env rid holder gen s) = t_events s"
proof -
  have "t_events (snd (write_tx (RenewLeaseTx env rid holder d gen) s)) = t_events s" for d
    by (rule write_tx_cases [of "RenewLeaseTx env rid holder d gen" s])
       (auto simp: RenewLeaseTx_def tx_simps split: if_splits)
  then show ?thesis by (simp add: beat_def split: sum.splits)
qed

text \<open>A beat at a superseded generation changes nothing at all.\<close>

lemma beat_stale:
  assumes "runs_keyed (t_runs s)" "find_run rid s = Some r" "run_generation r \<noteq> gen"
  shows "beat env rid holder gen s = s"
proof -
  have "snd (write_tx (RenewLeaseTx env rid holder d gen) s) = s" for d
  proof (cases "is_zero_time d")
    case True
    then show ?thesis by (simp add: RenewLeaseTx_def write_tx_def tx_fail_def)
  next
    case False
    have stale: "run_generation r' \<noteq> gen \<or>
        run_state r' \<notin> {StateClaimed, StateRunning, StateDraining}"
      if "find_run rid s = Some r'" for r'
      using that assms(2,3) by simp
    have "RenewLeaseTx env rid holder d gen s = Inr (False, s)"
      by (rule RenewLeaseTx_stale [OF stale assms(1) False])
    then show ?thesis by (simp add: write_tx_def)
  qed
  then show ?thesis by (simp add: beat_def split: sum.splits)
qed

lemma hold_tick_gen: "hold_tick env h s = (h', t) \<Longrightarrow>
  hold_run h' = hold_run h \<and> hold_gen h' = hold_gen h \<and> hold_holder h' = hold_holder h"
  by (auto simp: hold_tick_def split: sum.splits if_splits)

end
