(* ===== verification/Scheduler.thy ===== *)
theory Scheduler
  imports Workload Lease_Keeper
begin

text \<open>
  \<open>internal/scheduler\<close>: \<open>scheduler.go\<close>, \<open>claim.go\<close> and \<open>hint.go\<close>.  Admission (\<open>Enqueue\<close>,
  \<open>claimPass\<close>, \<open>claimOne\<close>), the two level-triggered reconciles of the queue, the settles, lane caps
  and priority hints, the dispatch leg and the in-flight set.

  The interfaces the scheduler declares (pause switch, pressure gauge, budgets, GPU admitter,
  receipts, the dispatcher) are nil-able fields or parameters here as they are there.  A claim pass
  is run as one sequence: its reads and per-candidate transactions in the order of the code, without
  another component in between; interleavings are the business of \<open>Platform_Steps\<close>, whose steps are
  the single transactions.
\<close>

section \<open>Environment\<close>

record budget =
  bu_tokens :: int
  bu_start :: time
  bu_declared :: bool

definition UndeclaredBudget :: budget where
  "UndeclaredBudget = \<lparr>bu_tokens = 0, bu_start = 0, bu_declared = False\<rparr>"

record gauge =
  ga_applicable :: bool
  ga_pressure :: rat

record sched_env =
  se_env :: env
  se_leaseTTL :: duration
  se_pause :: "(string \<Rightarrow> error + bool) option"
  se_pressure :: "(string \<Rightarrow> string \<Rightarrow> budget \<Rightarrow> error + gauge) option"
  se_budgets :: "(string \<Rightarrow> string \<Rightarrow> error + budget) option"
  se_gpu :: "(string \<Rightarrow> error + bool) option"
  se_local_lane :: string
  se_receipts :: "(string \<Rightarrow> unit dbtx) option"
  se_live :: "nat \<Rightarrow> bool" \<comment> \<open>\<open>ctx.Err() == nil\<close> at the n-th candidate of a pass\<close>

definition keyBgAdmitStop :: string where "keyBgAdmitStop = ''pressure.bg_admit_stop''"
definition keyLeaseTTL :: string where "keyLeaseTTL = ''recovery.dead_after''"
definition claimHolder :: string where "claimHolder = ''scheduler''"
definition dispatchHolder :: string where "dispatchHolder = ''scheduler-dispatch''"
definition defaultLaneConcurrency :: int where "defaultLaneConcurrency = 1"

definition sched_options :: "string \<Rightarrow> transition_options" where
  "sched_options reason = \<lparr>to_reason = reason, to_actor = ActorPlatform, to_detail = raw_empty\<rparr>"

section \<open>The queue\<close>

definition active_row :: "queue_row \<Rightarrow> bool" where
  "active_row q \<longleftrightarrow> q_status q = QueueQueued \<or> q_status q = QueueClaimed"

definition insert_queue :: "env \<Rightarrow> string \<Rightarrow> string \<Rightarrow> workload_class \<Rightarrow> unit dbtx" where
  "insert_queue env rid user cls = (\<lambda>s.
     if user \<noteq> [] \<and> has_run rid s
     then Inr ((), s\<lparr>t_queue := t_queue s @
       [\<lparr>q_id = next_rowid (map q_id (t_queue s)), q_run = rid, q_user = user,
         q_status = QueueQueued, q_claimed_by = [], q_lease_deadline = 0,
         q_priority_lane = class_name cls, q_enqueued = env_now env, q_hint_rank = 0\<rparr>]\<rparr>)
     else Inl (ConstraintFailed ''queue''))"

definition materializeQueueRowTx ::
  "env \<Rightarrow> string \<Rightarrow> string \<Rightarrow> workload_class \<Rightarrow> unit dbtx" where
  "materializeQueueRowTx env rid user cls =
     tx_bind (tx_read (\<lambda>s. tbl_count (\<lambda>q. q_run q = rid \<and> active_row q) (t_queue s))) (\<lambda>n.
       if n > 0 then tx_return () else insert_queue env rid user cls)"

definition EnqueueTx :: "env \<Rightarrow> string \<Rightarrow> workload_class \<Rightarrow> unit dbtx" where
  "EnqueueTx env rid cls =
     tx_bind (getTx rid) (\<lambda>r.
     tx_bind
       (case run_state r of
          StateNew \<Rightarrow> tx_bind (TransitionTx env rid StateQueued
                        (sched_options ''queued and waiting its turn'')) (\<lambda>_. tx_return ())
        | StateQueued \<Rightarrow> tx_return ()
        | st \<Rightarrow> tx_fail (CannotEnqueue rid st)) (\<lambda>_.
     materializeQueueRowTx env (run_id r) (run_user r) cls))"

definition Enqueue :: "env \<Rightarrow> string \<Rightarrow> string \<Rightarrow> db \<Rightarrow> (error + unit) \<times> db" where
  "Enqueue env rid cls s =
     (case (if cls = [] then Some DefaultWorkloadClass else workload_of_name cls) of
        None \<Rightarrow> (Inl (InvalidWorkloadClass cls), s)
      | Some c \<Rightarrow> write_tx (EnqueueTx env rid c) s)"

definition SettleQueuedTx :: "string \<Rightarrow> unit dbtx" where
  "SettleQueuedTx rid = tx_modify (update_queue
     (\<lambda>q. q_run q = rid \<and> q_status q = QueueQueued) (\<lambda>q. q\<lparr>q_status := QueueDone\<rparr>))"

definition SetPriorityHint :: "string \<Rightarrow> int \<Rightarrow> db \<Rightarrow> bool \<times> db" where
  "SetPriorityHint rid rank s =
     (let p = (\<lambda>q. q_run q = rid \<and> q_status q = QueueQueued \<and>
                 list_ex (\<lambda>r. run_id r = q_run q \<and> run_state r = StateQueued) (t_runs s))
      in (tbl_count p (t_queue s) > 0, update_queue p (\<lambda>q. q\<lparr>q_hint_rank := rank\<rparr>) s))"

section \<open>Lanes\<close>

definition put_lane :: "string \<Rightarrow> string \<Rightarrow> int \<Rightarrow> lane_row list \<Rightarrow> lane_row list" where
  "put_lane user lane cap rows =
     (if list_ex (\<lambda>l. lane_user l = user \<and> lane_name l = lane) rows
      then tbl_update (\<lambda>l. lane_user l = user \<and> lane_name l = lane) (\<lambda>l. l\<lparr>lane_cap := cap\<rparr>) rows
      else rows @ [\<lparr>lane_user = user, lane_name = lane, lane_cap = cap\<rparr>])"

definition SetLaneCap :: "string \<Rightarrow> string \<Rightarrow> int \<Rightarrow> db \<Rightarrow> (error + unit) \<times> db" where
  "SetLaneCap user lane cap s =
     (if cap < 0 then (Inl (NegativeLaneCap user lane), s)
      else if user = [] \<or> lane = [] then (Inl (ConstraintFailed ''lanes''), s)
      else (Inr (), s\<lparr>t_lanes := put_lane user lane cap (t_lanes s)\<rparr>))"

definition laneCap :: "string \<Rightarrow> string \<Rightarrow> db \<Rightarrow> int" where
  "laneCap user lane s =
     (case tbl_find (\<lambda>l. lane_user l = user \<and> lane_name l = lane) (t_lanes s) of
        None \<Rightarrow> defaultLaneConcurrency
      | Some l \<Rightarrow> lane_cap l)"

type_synonym lane_key = "string \<times> string"

definition holds_slot :: "run_row \<Rightarrow> bool" where
  "holds_slot r \<longleftrightarrow> run_state r \<in> {StateClaimed, StateRunning, StateDraining}"

definition activeSlots :: "db \<Rightarrow> lane_key \<Rightarrow> int" where
  "activeSlots s k = int (tbl_count (\<lambda>r. holds_slot r \<and> (run_user r, run_lane r) = k) (t_runs s))"

section \<open>Candidates\<close>

definition candidate_of :: "queue_row \<Rightarrow> run_row \<Rightarrow> candidate" where
  "candidate_of q r =
     \<lparr>c_queue = q_id q, c_run = q_run q, c_user = q_user q, c_lane = run_lane r,
      c_substrate = run_substrate r,
      c_class = (case workload_of_name (q_priority_lane q) of
                   Some c \<Rightarrow> c | None \<Rightarrow> DefaultWorkloadClass),
      c_enqueued = q_enqueued q, c_hint = q_hint_rank q, c_key = None\<rparr>"

definition candidates :: "db \<Rightarrow> candidate list" where
  "candidates s = concat (map (\<lambda>q.
     if q_status q \<noteq> QueueQueued then []
     else case find_run (q_run q) s of
        None \<Rightarrow> []
      | Some r \<Rightarrow> if run_state r = StateQueued then [candidate_of q r] else []) (t_queue s))"

section \<open>The level-triggered reconciles\<close>

text \<open>A list of write transactions in a row; the first error stops it.\<close>

fun write_each :: "('a \<Rightarrow> unit dbtx) \<Rightarrow> 'a list \<Rightarrow> db \<Rightarrow> error option \<times> db" where
  "write_each f [] s = (None, s)"
| "write_each f (x # xs) s =
     (case write_tx (f x) s of (Inl e, t) \<Rightarrow> (Some e, t) | (Inr _, t) \<Rightarrow> write_each f xs t)"

definition unqueued_runs :: "db \<Rightarrow> run_row list" where
  "unqueued_runs s = filter (\<lambda>r. run_state r = StateQueued \<and>
     \<not> list_ex (\<lambda>q. q_run q = run_id r \<and> active_row q) (t_queue s)) (t_runs s)"

definition reconcileQueueRows :: "env \<Rightarrow> db \<Rightarrow> error option \<times> db" where
  "reconcileQueueRows env s = write_each
     (\<lambda>r. materializeQueueRowTx env (run_id r) (run_user r) DefaultWorkloadClass) (unqueued_runs s) s"

definition ended_state :: "run_state \<Rightarrow> bool" where
  "ended_state st \<longleftrightarrow>
     st \<in> {StateCompleted, StateCrashed, StateFinalized, StateTombstoned, StateDiedAtGate}"

definition ended_rows :: "db \<Rightarrow> (queue_row \<times> run_state) list" where
  "ended_rows s = sort_key (\<lambda>x. q_id (fst x)) (concat (map (\<lambda>q.
     if \<not> active_row q then []
     else case find_run (q_run q) s of
        None \<Rightarrow> []
      | Some r \<Rightarrow> if ended_state (run_state r) then [(q, run_state r)] else []) (t_queue s)))"

definition receipt_tx :: "sched_env \<Rightarrow> string \<Rightarrow> unit dbtx" where
  "receipt_tx se rid = (case se_receipts se of None \<Rightarrow> tx_return () | Some m \<Rightarrow> m rid)"

definition settle_ended :: "sched_env \<Rightarrow> queue_row \<times> run_state \<Rightarrow> unit dbtx" where
  "settle_ended se x =
     tx_bind (tx_read (\<lambda>s. tbl_count (\<lambda>q. q_id q = q_id (fst x) \<and> active_row q) (t_queue s))) (\<lambda>n.
     tx_bind (tx_modify (update_queue (\<lambda>q. q_id q = q_id (fst x) \<and> active_row q)
                (\<lambda>q. q\<lparr>q_status := QueueDone\<rparr>))) (\<lambda>_.
       if n = 0 then tx_return ()
       else if IsTerminal (snd x) then receipt_tx se (q_run (fst x)) else tx_return ()))"

definition settleEndedRows :: "sched_env \<Rightarrow> db \<Rightarrow> error option \<times> db" where
  "settleEndedRows se s = write_each (settle_ended se) (ended_rows s) s"

section \<open>Gates\<close>

fun pausedOwners ::
  "(string \<Rightarrow> error + bool) \<Rightarrow> candidate list \<Rightarrow> (string \<times> bool) list \<Rightarrow>
   error + (string \<times> bool) list" where
  "pausedOwners paused [] out = Inr out"
| "pausedOwners paused (c # cs) out =
     (if c_class c \<noteq> ClassBackground \<or> map_of out (c_user c) \<noteq> None then pausedOwners paused cs out
      else case paused (c_user c) of
        Inl e \<Rightarrow> Inl e
      | Inr p \<Rightarrow> pausedOwners paused cs ((c_user c, p) # out))"

definition paused_map :: "sched_env \<Rightarrow> candidate list \<Rightarrow> error + (string \<times> bool) list" where
  "paused_map se cs = (case se_pause se of None \<Rightarrow> Inr [] | Some paused \<Rightarrow> pausedOwners paused cs [])"

definition backgroundAdmits :: "sched_env \<Rightarrow> candidate \<Rightarrow> rat \<Rightarrow> error + bool" where
  "backgroundAdmits se c bgStop =
     (case se_pressure se of
        None \<Rightarrow> Inr True
      | Some gauge \<Rightarrow>
          (case (case se_budgets se of None \<Rightarrow> Inr UndeclaredBudget | Some b \<Rightarrow> b (c_user c) (c_lane c)) of
             Inl e \<Rightarrow> Inl e
           | Inr bud \<Rightarrow>
               (case gauge (c_user c) (c_lane c) bud of
                  Inl e \<Rightarrow> Inl e
                | Inr g \<Rightarrow> if \<not> ga_applicable g then Inr True else Inr (ga_pressure g < bgStop))))"

text \<open>The three gates of one candidate before its claim, in the order of the loop body.\<close>

definition admit ::
  "sched_env \<Rightarrow> rat \<Rightarrow> (string \<times> bool) list \<Rightarrow> (lane_key \<Rightarrow> int) \<Rightarrow> candidate \<Rightarrow> db \<Rightarrow> error + bool" where
  "admit se bgStop paused active c s =
     (if active (c_user c, c_lane c) \<ge> laneCap (c_user c) (c_lane c) s then Inr False
      else case
        (if c_class c \<noteq> ClassBackground then Inr True
         else if map_of paused (c_user c) = Some True then Inr False
         else backgroundAdmits se c bgStop) of
        Inl e \<Rightarrow> Inl e
      | Inr False \<Rightarrow> Inr False
      | Inr True \<Rightarrow>
          (case se_gpu se of
             None \<Rightarrow> Inr True
           | Some AdmitLoad \<Rightarrow>
               if se_local_lane se \<noteq> [] \<and> c_lane c = se_local_lane se
               then (case AdmitLoad (c_substrate c) of
                       Inl e \<Rightarrow> Inl (AdmissionCheckFailed (c_run c)) | Inr ok \<Rightarrow> Inr ok)
               else Inr True))"

section \<open>Claiming\<close>

definition claimTx :: "env \<Rightarrow> time \<Rightarrow> candidate \<Rightarrow> run_row option dbtx" where
  "claimTx env deadline c =
     tx_bind (tx_read (\<lambda>s. tbl_count (\<lambda>q. q_id q = c_queue c \<and> q_status q = QueueQueued) (t_queue s))) (\<lambda>n.
     tx_bind (tx_modify (update_queue (\<lambda>q. q_id q = c_queue c \<and> q_status q = QueueQueued)
                (\<lambda>q. q\<lparr>q_status := QueueClaimed, q_claimed_by := claimHolder,
                       q_lease_deadline := deadline\<rparr>))) (\<lambda>_.
       if n \<noteq> 1 then tx_return None
       else
         tx_bind (TransitionTx env (c_run c) StateClaimed
                    (sched_options ''picked up and started'')) (\<lambda>r.
         tx_bind (SetLeaseTx env (c_run c) claimHolder deadline 0) (\<lambda>_.
         tx_return (Some r)))))"

definition lease_ttl :: "sched_env \<Rightarrow> error + duration" where
  "lease_ttl se = (if se_leaseTTL se \<le> 0 then read_duration (env_settings (se_env se)) keyLeaseTTL
                   else Inr (se_leaseTTL se))"

definition claimOne :: "sched_env \<Rightarrow> candidate \<Rightarrow> db \<Rightarrow> (error + run_row option) \<times> db" where
  "claimOne se c s = (case lease_ttl se of
       Inl e \<Rightarrow> (Inl e, s)
     | Inr ttl \<Rightarrow> write_tx (claimTx (se_env se) (env_now (se_env se) + ttl) c) s)"

text \<open>The loop of a pass: the dispatched runs (newest first in the code's count, in order here).\<close>

fun claim_loop ::
  "sched_env \<Rightarrow> rat \<Rightarrow> (string \<times> bool) list \<Rightarrow> nat \<Rightarrow> candidate list \<Rightarrow> (lane_key \<Rightarrow> int) \<Rightarrow> db \<Rightarrow>
   (error option \<times> run_row list) \<times> db" where
  "claim_loop se bgStop paused n [] active s = ((None, []), s)"
| "claim_loop se bgStop paused n (c # cs) active s =
     (if \<not> se_live se n then ((None, []), s)
      else case admit se bgStop paused active c s of
        Inl e \<Rightarrow> ((Some e, []), s)
      | Inr False \<Rightarrow> claim_loop se bgStop paused (n + 1) cs active s
      | Inr True \<Rightarrow>
          (case claimOne se c s of
             (Inl e, t) \<Rightarrow> ((Some e, []), t)
           | (Inr None, t) \<Rightarrow> claim_loop se bgStop paused (n + 1) cs active t
           | (Inr (Some r), t) \<Rightarrow>
               (case claim_loop se bgStop paused (n + 1) cs
                       (active((c_user c, c_lane c) := active (c_user c, c_lane c) + 1)) t of
                  ((e, rs), u) \<Rightarrow> ((e, r # rs), u))))"

definition claimPass :: "sched_env \<Rightarrow> db \<Rightarrow> (error option \<times> run_row list) \<times> db" where
  "claimPass se s =
     (case reconcileQueueRows (se_env se) s of
        (Some e, t) \<Rightarrow> ((Some e, []), t)
      | (None, t) \<Rightarrow> (case settleEndedRows se t of
            (Some e, u) \<Rightarrow> ((Some e, []), u)
          | (None, u) \<Rightarrow>
              (if candidates u = [] then ((None, []), u)
               else case read_float (env_settings (se_env se)) keyBgAdmitStop of
                 Inl e \<Rightarrow> ((Some e, []), u)
               | Inr bgStop \<Rightarrow>
                   (let cands = sortCandidates (env_now (se_env se)) (candidates u)
                    in case paused_map se cands of
                         Inl e \<Rightarrow> ((Some e, []), u)
                       | Inr paused \<Rightarrow> claim_loop se bgStop paused 0 cands (activeSlots u) u))))"

section \<open>Dispatch and settling\<close>

definition settleTerminalTx :: "sched_env \<Rightarrow> string \<Rightarrow> unit dbtx" where
  "settleTerminalTx se rid =
     tx_bind (tx_modify (update_queue (\<lambda>q. q_run q = rid \<and> q_status q = QueueClaimed)
                (\<lambda>q. q\<lparr>q_status := QueueDone\<rparr>))) (\<lambda>_. receipt_tx se rid)"

definition settleTerminal :: "sched_env \<Rightarrow> run_row \<Rightarrow> db \<Rightarrow> db" where
  "settleTerminal se r s = snd (write_tx (settleTerminalTx se (run_id r)) s)"

definition SettleRun :: "sched_env \<Rightarrow> string \<Rightarrow> db \<Rightarrow> (error + unit) \<times> db" where
  "SettleRun se rid s = (case Get rid s of
       Inl e \<Rightarrow> (Inl e, s)
     | Inr r \<Rightarrow> if \<not> IsTerminal (run_state r) then (Inl (SettleNonTerminal rid (run_state r)), s)
                else (Inr (), settleTerminal se r s))"

text \<open>
  One dispatch leg: hold the lease, let the dispatcher drive the run (the ticks of the hold with
  what happened between them, then \<open>rest\<close>), and settle on the stored state.
\<close>

definition dispatch ::
  "sched_env \<Rightarrow> run_row \<Rightarrow> (env \<times> (db \<Rightarrow> db)) list \<Rightarrow> (db \<Rightarrow> db) \<Rightarrow> db \<Rightarrow> db" where
  "dispatch se r ticks rest s =
     (let (h, s1) = Hold True (se_env se) (run_id r) dispatchHolder s;
          s2 = rest (case h of None \<Rightarrow> fold snd ticks s1 | Some held \<Rightarrow> snd (hold_ticks ticks held s1))
      in case Get (run_id r) s2 of
           Inl _ \<Rightarrow> s2
         | Inr fresh \<Rightarrow> if IsTerminal (run_state fresh) then settleTerminal se fresh s2 else s2)"

section \<open>Admission switch and the in-flight set\<close>

record sched_flags =
  sf_admitting :: bool
  sf_inflight :: "string list"

definition ResumeAdmission :: "sched_flags \<Rightarrow> sched_flags" where
  "ResumeAdmission f = f\<lparr>sf_admitting := True\<rparr>"

definition StopAdmission :: "sched_flags \<Rightarrow> sched_flags" where
  "StopAdmission f = f\<lparr>sf_admitting := False\<rparr>"

definition track :: "string \<Rightarrow> sched_flags \<Rightarrow> sched_flags" where
  "track rid f = f\<lparr>sf_inflight := List.insert rid (sf_inflight f)\<rparr>"

definition untrack :: "string \<Rightarrow> sched_flags \<Rightarrow> sched_flags" where
  "untrack rid f = f\<lparr>sf_inflight := removeAll rid (sf_inflight f)\<rparr>"

text \<open>One turn of \<open>Run\<close>: a claim pass if admission is open, tracking what it dispatched.\<close>

definition run_turn :: "sched_env \<Rightarrow> sched_flags \<Rightarrow> db \<Rightarrow> sched_flags \<times> db" where
  "run_turn se f s = (if \<not> sf_admitting f then (f, s)
     else case claimPass se s of
       ((_, rs), t) \<Rightarrow> (fold (\<lambda>r. track (run_id r)) rs f, t))"

definition park_reason :: string where
  "park_reason = ''the platform is shutting down for maintenance and this work ran past its grace '' @
     ''period; it is stopped, not lost''"

definition park_one :: "env \<Rightarrow> string \<Rightarrow> db \<Rightarrow> db" where
  "park_one env rid s = (case Get rid s of
       Inl _ \<Rightarrow> s
     | Inr r \<Rightarrow> if run_state r \<noteq> StateRunning \<and> run_state r \<noteq> StateDraining then s
                else snd (Transition env rid StateParked (sched_options park_reason) s))"

definition ParkInFlightRuns :: "env \<Rightarrow> sched_flags \<Rightarrow> db \<Rightarrow> db" where
  "ParkInFlightRuns env f s = fold (park_one env) (sf_inflight f) s"

section \<open>The invariant of the queue\<close>

text \<open>
  Every queue row belongs to a stored run and its owner, queue ids are keys, and a run has at most
  one active (queued or claimed) row.
\<close>

definition queue_ok :: "db \<Rightarrow> bool" where
  "queue_ok s \<longleftrightarrow> queue_keyed (t_queue s) \<and>
     (\<forall>q\<in>set (t_queue s). \<exists>r. find_run (q_run q) s = Some r \<and> q_user q = run_user r) \<and>
     (\<forall>rid. tbl_count (\<lambda>q. q_run q = rid \<and> active_row q) (t_queue s) \<le> 1)"

definition sched_keeps :: "db \<Rightarrow> db \<Rightarrow> bool" where
  "sched_keeps s t \<longleftrightarrow> evolves s t \<and> (good s \<and> queue_ok s \<longrightarrow> queue_ok t)"

interpretation sched: tx_frame sched_keeps
proof unfold_locales
  show "sched_keeps s s" for s by (simp add: sched_keeps_def evolve.frame_refl)
  show "sched_keeps s t \<Longrightarrow> sched_keeps t u \<Longrightarrow> sched_keeps s u" for s t u
    unfolding sched_keeps_def by (auto intro: evolve.frame_trans) (simp add: evolves_def)
qed

lemma sched_keeps_evolves: "sched_keeps s t \<Longrightarrow> evolves s t"
  by (simp add: sched_keeps_def)

lemma queue_ok_users:
  assumes "queue_ok s" "t_queue t = t_queue s"
    and "\<And>rid r. find_run rid s = Some r \<Longrightarrow> \<exists>r'. find_run rid t = Some r' \<and> run_user r' = run_user r"
  shows "queue_ok t"
  using assms unfolding queue_ok_def by metis

lemma sched_keeps_same_queue: "evolves s t \<Longrightarrow> t_queue t = t_queue s \<Longrightarrow> sched_keeps s t"
  unfolding sched_keeps_def
  by (auto simp: evolves_def progress_def intro!: queue_ok_users [of s t])

lemma sched_keeps_same_queue_tx:
  assumes "tx_rel evolves m" "\<And>s x t. m s = Inr (x, t) \<Longrightarrow> t_queue t = t_queue s"
  shows "tx_rel sched_keeps m"
  using assms by (auto simp: tx_rel_def intro: sched_keeps_same_queue)

text \<open>A status change of queue rows that does not wake a settled row.\<close>

lemma update_queue_keeps:
  assumes "\<And>q. q_id (f q) = q_id q \<and> q_run (f q) = q_run q \<and> q_user (f q) = q_user q"
    and "\<And>q. p q \<Longrightarrow> active_row (f q) \<Longrightarrow> active_row q"
  shows "sched_keeps s (update_queue p f s)"
proof -
  have "tbl_count (\<lambda>q. q_run q = rid \<and> active_row q) (tbl_update p f rows) \<le>
      tbl_count (\<lambda>q. q_run q = rid \<and> active_row q) rows" for rid rows
    by (induction rows) (use assms in \<open>auto simp: tbl_count_def tbl_update_def\<close>)
  note count = order_trans [OF this]
  have "map q_id (tbl_update p f rows) = map q_id rows" for rows
    by (rule map_tbl_update_same) (simp add: assms(1))
  moreover have "find_run rid (update_queue p f s) = find_run rid s" for rid
    by (rule find_run_cong) simp
  ultimately show ?thesis
    using assms(1) count
    by (auto simp: sched_keeps_def queue_ok_def queue_keyed_def set_tbl_update intro!: evolves_cong)
qed

definition sched_hook_ok :: "env \<Rightarrow> bool" where
  "sched_hook_ok env \<longleftrightarrow> (\<forall>h r. env_hook env = Some h \<longrightarrow> tx_rel sched_keeps (h r))"

definition receipts_ok :: "sched_env \<Rightarrow> bool" where
  "receipts_ok se \<longleftrightarrow> (\<forall>m rid. se_receipts se = Some m \<longrightarrow> tx_rel sched_keeps (m rid))"

lemma sched_hook_ok_hook_ok: "sched_hook_ok env \<Longrightarrow> hook_ok env"
  unfolding sched_hook_ok_def hook_ok_def using tx_rel_mono sched_keeps_evolves by blast

lemma t_queue_transition_db [simp]: "t_queue (transition_db env cur to payload s) = t_queue s"
  by (simp add: transition_db_def)

lemma TransitionTx_keeps:
  assumes "sched_hook_ok env"
  shows "tx_rel sched_keeps (TransitionTx env rid to opts)"
proof (rule tx_relI)
  fix s r t
  assume tr: "TransitionTx env rid to opts s = Inr (r, t)"
  have ev: "evolves s t"
    using TransitionTx_evolves [OF sched_hook_ok_hook_ok [OF assms]] tr by (auto simp: tx_rel_def)
  show "sched_keeps s t"
    using tr
  proof (rule TransitionTx_Inr)
    fix cur payload u
    assume *: "find_run rid s = Some cur" "CanTransition (run_state cur) to"
      "0 \<le> next_generation cur to" "transition_payload (run_state cur) to opts = Inr payload"
      "u = transition_db env cur to payload s" "run_hook env to r u = Inr ((), t)"
    have "evolves s u" using transition_db_good [OF _ *(1-4)] *(5)
      by (auto simp: evolves_def)
    then have "sched_keeps s u" by (rule sched_keeps_same_queue) (simp add: *(5))
    moreover have "sched_keeps u t"
      using *(6) assms sched.frame_refl
      by (auto simp: run_hook_def sched_hook_ok_def tx_rel_def tx_simps split: option.splits if_splits)
    ultimately show ?thesis by (rule sched.frame_trans)
  qed
qed

lemma t_queue_exec_update: "exec_update_runs p f s = Inr (n, t) \<Longrightarrow> t_queue t = t_queue s"
  by (auto simp: exec_update_runs_Inr)

lemma SetLeaseTx_keeps: "tx_rel sched_keeps (SetLeaseTx env rid holder deadline hb)"
  by (rule sched_keeps_same_queue_tx [OF SetLeaseTx_evolves])
     (auto simp: SetLeaseTx_def tx_simps split: if_splits)

lemma queue_row_append:
  assumes "queue_ok s" "find_run (q_run q) s = Some r" "q_user q = run_user r"
    and "q_id q \<notin> q_id ` set (t_queue s)"
    and "active_row q \<Longrightarrow> tbl_count (\<lambda>x. q_run x = q_run q \<and> active_row x) (t_queue s) = 0"
  shows "queue_ok (s\<lparr>t_queue := t_queue s @ [q]\<rparr>)"
proof -
  have find: "find_run rid (s\<lparr>t_queue := qs\<rparr>) = find_run rid s" for rid qs
    by (rule find_run_cong) simp
  have "tbl_count (\<lambda>x. q_run x = rid \<and> active_row x) [q] =
      (if q_run q = rid \<and> active_row q then 1 else 0)" for rid
    by (simp add: tbl_count_def)
  then show ?thesis using assms by (auto simp: queue_ok_def queue_keyed_def find)
qed

lemma insert_queue_Inr [tx_simps]:
  "insert_queue env rid user cls s = Inr (x, t) \<longleftrightarrow> user \<noteq> [] \<and> has_run rid s \<and>
     t = s\<lparr>t_queue := t_queue s @
       [\<lparr>q_id = next_rowid (map q_id (t_queue s)), q_run = rid, q_user = user,
         q_status = QueueQueued, q_claimed_by = [], q_lease_deadline = 0,
         q_priority_lane = class_name cls, q_enqueued = env_now env, q_hint_rank = 0\<rparr>]\<rparr>"
  by (auto simp: insert_queue_def)

lemma materialize_keeps:
  assumes m: "materializeQueueRowTx env rid user cls s = Inr (x, t)"
    and r: "find_run rid s = Some r" "run_user r = user"
  shows "sched_keeps s t \<and> t_runs t = t_runs s \<and> t_events t = t_events s"
proof (cases "tbl_count (\<lambda>q. q_run q = rid \<and> active_row q) (t_queue s) > 0")
  case True
  with m show ?thesis by (auto simp: materializeQueueRowTx_def tx_simps sched.frame_refl)
next
  case False
  with m have t: "t = s\<lparr>t_queue := t_queue s @
       [\<lparr>q_id = next_rowid (map q_id (t_queue s)), q_run = rid, q_user = user,
         q_status = QueueQueued, q_claimed_by = [], q_lease_deadline = 0,
         q_priority_lane = class_name cls, q_enqueued = env_now env, q_hint_rank = 0\<rparr>]\<rparr>"
    by (auto simp: materializeQueueRowTx_def tx_simps split: if_splits)
  have "queue_ok t" if "queue_ok s"
    unfolding t by (rule queue_row_append [OF that, where r = r])
      (use r False next_rowid_fresh [of "map q_id (t_queue s)"] in simp_all)
  moreover have "evolves s t" by (rule evolves_cong) (simp_all add: t)
  ultimately show ?thesis by (simp add: sched_keeps_def t)
qed

lemma EnqueueTx_keeps:
  assumes "sched_hook_ok env"
  shows "tx_rel sched_keeps (EnqueueTx env rid cls)"
proof (rule tx_relI)
  fix s x t
  assume en: "EnqueueTx env rid cls s = Inr (x, t)"
  then obtain r u v where r: "find_run rid s = Some r"
    and st: "(case run_state r of
          StateNew \<Rightarrow> tx_bind (TransitionTx env rid StateQueued
                        (sched_options ''queued and waiting its turn'')) (\<lambda>_. tx_return ())
        | StateQueued \<Rightarrow> tx_return ()
        | st \<Rightarrow> tx_fail (CannotEnqueue rid st)) s = Inr (v, u)"
    and m: "materializeQueueRowTx env (run_id r) (run_user r) cls u = Inr (x, t)"
    unfolding EnqueueTx_def tx_bind_Inr getTx_Inr by blast
  from st have u: "u = s \<or> (\<exists>r'. TransitionTx env rid StateQueued (sched_options ''queued and waiting its turn'') s = Inr (r', u))"
    by (cases "run_state r") (auto simp: tx_simps)
  have su: "sched_keeps s u"
    using u TransitionTx_keeps [OF assms, of rid] by (auto simp: sched.frame_refl tx_rel_def)
  show "sched_keeps s t"
  proof (cases "good s")
    case True
    then have "progress s u" using su by (simp add: sched_keeps_def evolves_def)
    then obtain r' where "find_run rid u = Some r'" "run_user r' = run_user r"
      using r by (auto simp: progress_def)
    with m r find_run_Some [OF r] have "sched_keeps u t" using materialize_keeps by simp
    with su show ?thesis by (rule sched.frame_trans)
  next
    case False
    then show ?thesis by (simp add: sched_keeps_def evolves_def)
  qed
qed

lemma Enqueue_keeps: "sched_hook_ok env \<Longrightarrow> sched_keeps s (snd (Enqueue env rid cls s))"
  by (auto simp: Enqueue_def sched.frame_refl intro: sched.rel_write EnqueueTx_keeps split: option.splits)

lemma write_each_keeps:
  assumes "\<And>x s. x \<in> set xs \<Longrightarrow> sched_keeps s0 s \<Longrightarrow> sched_keeps s (snd (write_tx (f x) s))"
    and "sched_keeps s0 s"
  shows "sched_keeps s0 (snd (write_each f xs s))"
  using assms
proof (induction xs arbitrary: s)
  case Nil
  then show ?case by simp
next
  case (Cons x xs)
  obtain r t where w: "write_tx (f x) s = (r, t)" by fastforce
  have t: "sched_keeps s0 t"
    using Cons.prems(1) [of x s] Cons.prems(2) w sched.frame_trans by fastforce
  with Cons w show ?case by (cases r) auto
qed

lemma sched_keeps_bad: "\<not> good s \<Longrightarrow> sched_keeps s t"
  by (simp add: sched_keeps_def evolves_def)

lemma find_run_mem: "good s \<Longrightarrow> r \<in> set (t_runs s) \<Longrightarrow> find_run (run_id r) s = Some r"
  by (auto simp: find_run_def good_def rows_good_def intro: runs.find_key)

text \<open>The run of an earlier read is still there, with its owner.\<close>

lemma sched_keeps_run:
  assumes "good s" "sched_keeps s u" "find_run rid s = Some r"
  obtains r' where "find_run rid u = Some r'" "run_user r' = run_user r" "good u"
proof -
  from assms have "good u" "progress s u" by (simp_all add: sched_keeps_def evolves_def)
  with assms(3) that show thesis by (auto simp: progress_def)
qed

lemma reconcileQueueRows_keeps: "sched_keeps s (snd (reconcileQueueRows env s))"
proof (cases "good s")
  case True
  show ?thesis
    unfolding reconcileQueueRows_def
  proof (rule write_each_keeps)
    fix r u
    assume r: "r \<in> set (unqueued_runs s)" and u: "sched_keeps s u"
    then have "find_run (run_id r) s = Some r" using True by (simp add: unqueued_runs_def find_run_mem)
    from sched_keeps_run [OF True u this] obtain r' where
      "find_run (run_id r) u = Some r'" "run_user r' = run_user r" .
    then show "sched_keeps u (snd (write_tx
        (materializeQueueRowTx env (run_id r) (run_user r) DefaultWorkloadClass) u))"
      by (rule_tac write_tx_cases [of "materializeQueueRowTx env (run_id r) (run_user r) DefaultWorkloadClass" u])
         (auto simp: sched.frame_refl dest: materialize_keeps)
  qed (rule sched.frame_refl)
qed (rule sched_keeps_bad)

lemma receipt_keeps: "receipts_ok se \<Longrightarrow> tx_rel sched_keeps (receipt_tx se rid)"
  by (auto simp: receipt_tx_def receipts_ok_def intro: sched.rel_return split: option.splits)

lemma settle_update_keeps:
  "sched_keeps s (update_queue p (\<lambda>q. q\<lparr>q_status := QueueDone\<rparr>) s)"
  by (rule update_queue_keeps) (simp_all add: active_row_def)

lemma settle_ended_keeps: "receipts_ok se \<Longrightarrow> tx_rel sched_keeps (settle_ended se x)"
  unfolding settle_ended_def
  by (intro sched.frame_rules sched.rel_modify settle_update_keeps receipt_keeps)

lemma settleEndedRows_keeps: "receipts_ok se \<Longrightarrow> sched_keeps s (snd (settleEndedRows se s))"
  unfolding settleEndedRows_def
  by (rule write_each_keeps) (auto intro: sched.rel_write settle_ended_keeps sched.frame_refl)

lemma SettleQueuedTx_keeps: "tx_rel sched_keeps (SettleQueuedTx rid)"
  unfolding SettleQueuedTx_def by (intro sched.rel_modify settle_update_keeps)

lemma settleTerminal_keeps: "receipts_ok se \<Longrightarrow> sched_keeps s (settleTerminal se r s)"
  unfolding settleTerminal_def settleTerminalTx_def
  by (intro sched.rel_write sched.frame_rules sched.rel_modify settle_update_keeps receipt_keeps)

lemma SetPriorityHint_keeps: "sched_keeps s (snd (SetPriorityHint rid rank s))"
  unfolding SetPriorityHint_def Let_def snd_conv
  by (rule update_queue_keeps) (simp_all add: active_row_def)

lemma SetLaneCap_keeps: "sched_keeps s (snd (SetLaneCap user lane cap s))"
  by (auto simp: SetLaneCap_def sched.frame_refl intro!: sched_keeps_same_queue evolves_cong)

lemma claimTx_keeps: "sched_hook_ok env \<Longrightarrow> tx_rel sched_keeps (claimTx env deadline c)"
  unfolding claimTx_def
  by (intro sched.frame_rules sched.rel_modify update_queue_keeps TransitionTx_keeps SetLeaseTx_keeps)
     (simp_all add: active_row_def)

text \<open>A pass respects every frame that its transactions respect.\<close>

definition dispatch_frame :: "(db \<Rightarrow> db \<Rightarrow> bool) \<Rightarrow> sched_env \<Rightarrow> bool" where
  "dispatch_frame R se \<longleftrightarrow> tx_frame R \<and> (\<forall>s. R s (snd (reconcileQueueRows (se_env se) s))) \<and>
     (\<forall>s. R s (snd (settleEndedRows se s))) \<and> (\<forall>d c. tx_rel R (claimTx (se_env se) d c))"

lemma dispatch_frameD:
  assumes "dispatch_frame R se"
  shows "R s s" "R s t \<Longrightarrow> R t u \<Longrightarrow> R s u" "tx_rel R m \<Longrightarrow> R s (snd (write_tx m s))"
    "tx_rel R (claimTx (se_env se) d c)"
    "R s (snd (reconcileQueueRows (se_env se) s))" "R s (snd (settleEndedRows se s))"
proof -
  have fr: "tx_frame R" using assms by (simp add: dispatch_frame_def)
  show "R s s" by (rule tx_frame.frame_refl [OF fr])
  show "R s t \<Longrightarrow> R t u \<Longrightarrow> R s u" by (rule tx_frame.frame_trans [OF fr])
  show "tx_rel R m \<Longrightarrow> R s (snd (write_tx m s))" by (rule tx_frame.rel_write [OF fr])
qed (use assms in \<open>simp_all add: dispatch_frame_def\<close>)

lemma claimOne_frame: "dispatch_frame R se \<Longrightarrow> R s (snd (claimOne se c s))"
  by (auto simp: claimOne_def dispatch_frameD split: sum.splits)

lemma claimOne_keeps: "sched_hook_ok (se_env se) \<Longrightarrow> sched_keeps s (snd (claimOne se c s))"
  by (auto simp: claimOne_def sched.frame_refl intro: sched.rel_write claimTx_keeps split: sum.splits)

lemma claim_loop_frame:
  assumes "dispatch_frame R se"
  shows "R s (snd (claim_loop se bgStop paused n cs active s))"
proof (induction cs arbitrary: n active s)
  case Nil
  then show ?case by (simp add: dispatch_frameD [OF assms])
next
  case (Cons c cs)
  obtain res t where one: "claimOne se c s = (res, t)" by fastforce
  have t: "R s t" using claimOne_frame [OF assms, of s c] one by simp
  note rest = dispatch_frameD(2) [OF assms t Cons.IH]
  show ?case
  proof (cases "se_live se n")
    case False
    then show ?thesis by (simp add: dispatch_frameD [OF assms])
  next
    case live: True
    show ?thesis
    proof (cases "admit se bgStop paused active c s")
      case (Inl e)
      with live show ?thesis by (simp add: dispatch_frameD [OF assms])
    next
      case adm: (Inr ok)
      show ?thesis
      proof (cases ok)
        case False
        with live adm Cons.IH show ?thesis by simp
      next
        case ok: True
        show ?thesis
        proof (cases res)
          case (Inl e)
          with live adm ok one t show ?thesis by simp
        next
          case res: (Inr claimed)
          show ?thesis
          proof (cases claimed)
            case None
            with live adm ok one res rest show ?thesis by simp
          next
            case (Some r)
            define act where "act = active((c_user c, c_lane c) := active (c_user c, c_lane c) + 1)"
            obtain e rs u where tail: "claim_loop se bgStop paused (n + 1) cs act t = ((e, rs), u)"
              by (metis prod.exhaust)
            have "R s u" using rest [of "n + 1" act] tail by simp
            with live adm ok one res Some tail show ?thesis by (simp add: act_def [symmetric])
          qed
        qed
      qed
    qed
  qed
qed

lemma claimPass_frame:
  assumes "dispatch_frame R se"
  shows "R s (snd (claimPass se s))"
proof -
  obtain e1 t where 1: "reconcileQueueRows (se_env se) s = (e1, t)" by fastforce
  obtain e2 u where 2: "settleEndedRows se t = (e2, u)" by fastforce
  have t: "R s t" using dispatch_frameD(5) [OF assms, of s] 1 by simp
  have u: "R s u" using dispatch_frameD(2) [OF assms t dispatch_frameD(6) [OF assms]] 2 by simp
  show ?thesis
    using t u dispatch_frameD(2) [OF assms u claim_loop_frame [OF assms]]
    by (simp add: claimPass_def 1 2 Let_def split: option.splits sum.splits)
qed

lemma sched_dispatch_frame:
  "sched_hook_ok (se_env se) \<Longrightarrow> receipts_ok se \<Longrightarrow> dispatch_frame sched_keeps se"
  by (simp add: dispatch_frame_def sched.tx_frame_axioms reconcileQueueRows_keeps
      settleEndedRows_keeps claimTx_keeps)

lemma park_one_keeps: "sched_hook_ok env \<Longrightarrow> sched_keeps s (park_one env rid s)"
  by (auto simp: park_one_def Transition_def sched.frame_refl
      intro: sched.rel_write TransitionTx_keeps split: sum.splits)

lemma ParkInFlightRuns_keeps: "sched_hook_ok env \<Longrightarrow> sched_keeps s (ParkInFlightRuns env f s)"
proof -
  assume ok: "sched_hook_ok env"
  have "sched_keeps s (fold (park_one env) rids s)" for rids
    by (induction rids arbitrary: s)
       (auto intro: sched.frame_refl sched.frame_trans [OF park_one_keeps [OF ok]])
  then show ?thesis by (simp add: ParkInFlightRuns_def)
qed

section \<open>What a claim does\<close>

lemma count_update_key:
  assumes "distinct (map key rows)" "cur \<in> set rows" "\<And>x. x \<in> set rows \<Longrightarrow> p x \<longleftrightarrow> key x = key cur"
  shows "tbl_count Q (tbl_update p f rows) + (if Q cur then 1 else 0) =
    tbl_count Q rows + (if Q (f cur) then 1 else 0)"
  using assms
proof (induction rows)
  case Nil
  then show ?case by simp
next
  case (Cons x rows)
  show ?case
  proof (cases "x = cur")
    case True
    with Cons.prems have "\<And>y. y \<in> set rows \<Longrightarrow> \<not> p y" by (force simp: image_iff)
    then have "tbl_update p f rows = rows" by (rule tbl_update_none)
    with True Cons.prems(3) [of x] show ?thesis by (simp add: tbl_update_def tbl_count_def)
  next
    case False
    then have "cur \<in> set rows" "key x \<noteq> key cur" using Cons.prems by (auto simp: image_iff)
    with Cons.IH Cons.prems show ?thesis by (simp add: tbl_update_def tbl_count_def)
  qed
qed

lemma rows_keyed: "good s \<Longrightarrow> distinct (map run_id (t_runs s))"
  by (simp add: good_def rows_good_def runs_keyed_def)

text \<open>The run table after an update of one run's row, for any property that the update decides.\<close>

lemma claim_transition_slots:
  assumes "good s" "find_run rid s = Some cur" "run_state cur = StateQueued"
  shows "activeSlots (transition_db env cur StateClaimed payload s) k =
    activeSlots s k + (if k = (run_user cur, run_lane cur) then 1 else 0)"
proof -
  let ?Q = "\<lambda>r. holds_slot r \<and> (run_user r, run_lane r) = k"
  let ?p = "\<lambda>r. run_id r = run_id cur \<and> (run_state r = run_state cur \<and> run_generation r = run_generation cur)"
  have cur: "cur \<in> set (t_runs s)" using find_run_Some [OF assms(2)] by simp
  have p: "?p x \<longleftrightarrow> run_id x = run_id cur" if "x \<in> set (t_runs s)" for x
    using runs.key_unique [of "t_runs s" x cur] that cur assms(1)
    by (auto simp: good_def rows_good_def)
  from count_update_key [OF rows_keyed [OF assms(1)] cur p, of ?Q] assms(3)
  show ?thesis
    by (auto simp: activeSlots_def transition_db_def holds_slot_def update_runs_def)
qed

definition leased :: "env \<Rightarrow> time \<Rightarrow> run_row \<Rightarrow> run_row" where
  "leased env deadline r = r\<lparr>run_lease_holder := claimHolder, run_lease_deadline := deadline,
     run_heartbeat_seq := 0, run_updated := env_now env\<rparr>"

lemma claim_lease_slots: "activeSlots (update_runs p (leased env d) s) k = activeSlots s k"
proof -
  have "tbl_count (\<lambda>r. holds_slot r \<and> (run_user r, run_lane r) = k) (tbl_update p (leased env d) rows) =
    tbl_count (\<lambda>r. holds_slot r \<and> (run_user r, run_lane r) = k) rows" for rows
    by (induction rows) (auto simp: tbl_count_def tbl_update_def holds_slot_def leased_def)
  then show ?thesis by (simp add: activeSlots_def)
qed

text \<open>A committed claim: what it found and what it wrote.\<close>

lemma claimTx_Inr:
  assumes "claimTx env deadline c s = Inr (Some r, t)" "good s"
  obtains cur payload q where
    "find_run (c_run c) s = Some cur" "run_state cur = StateQueued" "run_id cur = c_run c"
    "r = transition_row env cur StateClaimed"
    "transition_payload StateQueued StateClaimed (sched_options ''picked up and started'') = Inr payload"
    "q = update_queue (\<lambda>x. q_id x = c_queue c \<and> q_status x = QueueQueued)
       (\<lambda>x. x\<lparr>q_status := QueueClaimed, q_claimed_by := claimHolder, q_lease_deadline := deadline\<rparr>) s"
    "t = update_runs (\<lambda>r. run_id r = c_run c) (leased env deadline)
       (transition_db env cur StateClaimed payload q)"
    "tbl_count (\<lambda>x. q_id x = c_queue c \<and> q_status x = QueueQueued) (t_queue s) = 1"
proof -
  let ?q = "update_queue (\<lambda>x. q_id x = c_queue c \<and> q_status x = QueueQueued)
       (\<lambda>x. x\<lparr>q_status := QueueClaimed, q_claimed_by := claimHolder, q_lease_deadline := deadline\<rparr>) s"
  from assms(1) obtain u n where n: "tbl_count (\<lambda>x. q_id x = c_queue c \<and> q_status x = QueueQueued) (t_queue s) = 1"
    and tr: "TransitionTx env (c_run c) StateClaimed (sched_options ''picked up and started'') ?q = Inr (r, u)"
    and lease: "SetLeaseTx env (c_run c) claimHolder deadline 0 u = Inr (n, t)"
    by (auto simp: claimTx_def tx_bind_Inr tx_read_Inr tx_modify_Inr tx_return_Inr split: if_splits)
  have t: "t = update_runs (\<lambda>r. run_id r = c_run c) (leased env deadline) u"
    using lease by (auto simp: SetLeaseTx_def leased_def [abs_def] tx_simps split: if_splits)
  show thesis
    using tr
  proof (rule TransitionTx_Inr)
    fix cur payload v
    assume *: "find_run (c_run c) ?q = Some cur" "CanTransition (run_state cur) StateClaimed"
      "transition_payload (run_state cur) StateClaimed (sched_options ''picked up and started'') = Inr payload"
      "v = transition_db env cur StateClaimed payload ?q" "r = transition_row env cur StateClaimed"
      "run_hook env StateClaimed r v = Inr ((), u)"
    have st: "run_state cur = StateQueued"
      using *(2) by (cases "run_state cur") (simp_all add: CanTransition_iff)
    have "u = v" using *(6) by (auto simp: run_hook_def IsTerminal_iff tx_simps split: option.splits)
    moreover have "find_run (c_run c) s = Some cur" using *(1) find_run_cong [of ?q s] by simp
    ultimately show thesis
      using that [of cur payload ?q] * st t n find_run_Some by fastforce
  qed
qed

lemma find_run_leased:
  "find_run rid (update_runs (\<lambda>r. run_id r = rid') (leased env d) s) =
     map_option (\<lambda>r. if run_id r = rid' then leased env d r else r) (find_run rid s)"
proof -
  have "find (\<lambda>x. run_id x = rid) (map (\<lambda>x. if run_id x = rid' then leased env d x else x) xs) =
    map_option (\<lambda>r. if run_id r = rid' then leased env d r else r) (find (\<lambda>x. run_id x = rid) xs)" for xs
    by (induction xs) (auto simp: leased_def)
  then show ?thesis by (simp add: find_run_def tbl_find_def update_runs_def tbl_update_def)
qed

lemma claimTx_none: "claimTx env deadline c s = Inr (None, t) \<Longrightarrow>
  tbl_count (\<lambda>x. q_id x = c_queue c \<and> q_status x = QueueQueued) (t_queue s) \<noteq> 1 \<and>
  t_runs t = t_runs s \<and> t_lanes t = t_lanes s"
  by (auto simp: claimTx_def tx_bind_Inr tx_read_Inr tx_modify_Inr tx_return_Inr split: if_splits)

text \<open>What the loop needs of one claim: owners and lanes stay, the claimed run takes one slot.\<close>

definition same_homes :: "db \<Rightarrow> db \<Rightarrow> bool" where
  "same_homes s t \<longleftrightarrow> t_lanes t = t_lanes s \<and> (\<forall>rid r. find_run rid s = Some r \<longrightarrow>
     (\<exists>r'. find_run rid t = Some r' \<and> run_user r' = run_user r \<and> run_lane r' = run_lane r))"

lemma claimOne_slots:
  assumes "claimOne se c s = (res, t)" "good s"
  shows "same_homes s t \<and> (case res of
      Inr (Some r) \<Rightarrow> (\<exists>cur. find_run (c_run c) s = Some cur \<and> run_id r = c_run c \<and>
        run_user r = run_user cur \<and> run_lane r = run_lane cur) \<and>
        (\<forall>k. activeSlots t k = activeSlots s k + (if k = (run_user r, run_lane r) then 1 else 0))
    | _ \<Rightarrow> t_runs t = t_runs s)"
proof -
  consider (same) "t = s" "\<nexists>r. res = Inr (Some r)"
    | (lost) d where "claimTx (se_env se) d c s = Inr (None, t)" "res = Inr None"
    | (won) d r where "claimTx (se_env se) d c s = Inr (Some r, t)" "res = Inr (Some r)"
  proof (cases "lease_ttl se")
    case (Inl e)
    with assms(1) same show ?thesis by (auto simp: claimOne_def)
  next
    case (Inr ttl)
    let ?m = "claimTx (se_env se) (env_now (se_env se) + ttl) c"
    from assms(1) Inr have w: "write_tx ?m s = (res, t)" by (simp add: claimOne_def)
    show ?thesis
    proof (cases "?m s")
      case (Inl e)
      with w same show ?thesis by auto
    next
      case (Inr x)
      obtain o' u where x: "x = (o', u)" by (cases x)
      with w Inr have "res = Inr o'" "u = t" by auto
      with x Inr lost won show ?thesis by (cases o') auto
    qed
  qed
  then show ?thesis
  proof cases
    case same
    then show ?thesis by (auto simp: same_homes_def split: sum.splits option.splits)
  next
    case lost
    from claimTx_none [OF lost(1)] lost(2) show ?thesis
      using find_run_cong [of t s] by (simp add: same_homes_def)
  next
    case won
    show ?thesis
      using won(1) assms(2)
    proof (rule claimTx_Inr)
      fix cur payload q
      assume *: "find_run (c_run c) s = Some cur" "run_state cur = StateQueued" "run_id cur = c_run c"
        "r = transition_row (se_env se) cur StateClaimed"
        "q = update_queue (\<lambda>x. q_id x = c_queue c \<and> q_status x = QueueQueued)
           (\<lambda>x. x\<lparr>q_status := QueueClaimed, q_claimed_by := claimHolder, q_lease_deadline := d\<rparr>) s"
        "t = update_runs (\<lambda>r. run_id r = c_run c) (leased (se_env se) d)
           (transition_db (se_env se) cur StateClaimed payload q)"
      have q: "find_run rid q = find_run rid s" for rid by (rule find_run_cong) (simp add: *(5))
      have qs: "activeSlots q k = activeSlots s k" for k by (simp add: activeSlots_def *(5))
      have gq: "good q" using assms(2) good_cong [of q s] by (simp add: *(5))
      have cur: "find_run (c_run c) q = Some cur" using *(1) q by simp
      note found = transition_db_find [OF cur, where env = "se_env se" and to = StateClaimed and payload = payload]
      have home: "\<exists>r'. find_run rid t = Some r' \<and> run_user r' = run_user r0 \<and> run_lane r' = run_lane r0"
        if "find_run rid s = Some r0" for rid r0
        using that found q [of rid] *(1)
        by (cases "rid = c_run c") (auto simp: *(6) find_run_leased leased_def transition_row_def)
      have "activeSlots t k = activeSlots s k + (if k = (run_user cur, run_lane cur) then 1 else 0)" for k
        using claim_transition_slots [OF gq cur *(2)] qs
        by (simp add: *(6) claim_lease_slots)
      moreover have "t_lanes t = t_lanes s" by (simp add: *(5,6) transition_db_def)
      ultimately show ?thesis
        using home *(1-4) won(2) by (simp add: same_homes_def transition_row_def)
    qed
  qed
qed

section \<open>What a pass does\<close>

definition cand_home :: "db \<Rightarrow> candidate \<Rightarrow> bool" where
  "cand_home s c \<longleftrightarrow> (\<exists>r. find_run (c_run c) s = Some r \<and> c_user c = run_user r \<and> c_lane c = run_lane r)"

lemma laneCap_cong: "t_lanes t = t_lanes s \<Longrightarrow> laneCap u l t = laneCap u l s"
  by (simp add: laneCap_def)

lemma cand_home_mono: "same_homes s t \<Longrightarrow> cand_home s c \<Longrightarrow> cand_home t c"
  unfolding same_homes_def cand_home_def by metis

lemma claim_loop_cases:
  assumes "claim_loop se bgStop paused n (c # cs) active s = ((e, rs), u)"
  obtains (stop) "u = s" "rs = []"
  | (skip) "claim_loop se bgStop paused (n + 1) cs active s = ((e, rs), u)"
  | (failed) err where "admit se bgStop paused active c s = Inr True"
      "claimOne se c s = (Inl err, u)" "rs = []"
  | (lost) t where "admit se bgStop paused active c s = Inr True" "claimOne se c s = (Inr None, t)"
      "claim_loop se bgStop paused (n + 1) cs active t = ((e, rs), u)"
  | (won) r t rs' where "admit se bgStop paused active c s = Inr True"
      "claimOne se c s = (Inr (Some r), t)" "rs = r # rs'"
      "claim_loop se bgStop paused (n + 1) cs
         (active((c_user c, c_lane c) := active (c_user c, c_lane c) + 1)) t = ((e, rs'), u)"
proof (cases "se_live se n")
  case False
  with assms stop show thesis by simp
next
  case live: True
  show thesis
  proof (cases "admit se bgStop paused active c s")
    case (Inl err)
    with assms live stop show thesis by simp
  next
    case adm: (Inr ok)
    show thesis
    proof (cases ok)
      case False
      with assms live adm skip show thesis by simp
    next
      case ok: True
      obtain res t where one: "claimOne se c s = (res, t)" by fastforce
      show thesis
      proof (cases res)
        case (Inl err)
        with assms live adm ok one failed show thesis by simp
      next
        case res: (Inr claimed)
        show thesis
        proof (cases claimed)
          case None
          with assms live adm ok one res lost show thesis by simp
        next
          case (Some r)
          define act where "act = active((c_user c, c_lane c) := active (c_user c, c_lane c) + 1)"
          obtain e' rs' u' where tail: "claim_loop se bgStop paused (n + 1) cs act t = ((e', rs'), u')"
            by (metis prod.exhaust)
          with assms live adm ok one res Some won [of r t rs'] show thesis
            by (simp add: act_def [symmetric])
        qed
      qed
    qed
  qed
qed

lemma admit_cap: "admit se bgStop paused active c s = Inr True \<Longrightarrow>
  active (c_user c, c_lane c) < laneCap (c_user c) (c_lane c) s"
  by (auto simp: admit_def split: if_splits)

text \<open>A pass never fills a lane beyond its cap (or beyond what already ran there).\<close>

lemma claim_loop_caps:
  assumes "claim_loop se bgStop paused n cs active s = ((e, rs), u)"
    and "good s" "sched_hook_ok (se_env se)"
    and "\<And>k. active k = activeSlots s k" "\<And>c. c \<in> set cs \<Longrightarrow> cand_home s c"
  shows "activeSlots u k \<le> max (activeSlots s k) (laneCap (fst k) (snd k) s)"
  using assms
proof (induction cs arbitrary: n active s rs)
  case Nil
  then show ?case by simp
next
  case (Cons c cs)
  have keep: "good t" if "claimOne se c s = (res, t)" for res t
    using claimOne_keeps [OF Cons.prems(3), of s c] that Cons.prems(2)
    by (simp add: sched_keeps_def evolves_def)
  have home: "cand_home t x" if "same_homes s t" "x \<in> set cs" for t x
    using Cons.prems(5) [of x] that cand_home_mono by simp
  from Cons.prems(1) show ?case
  proof (cases rule: claim_loop_cases)
    case stop
    then show ?thesis by simp
  next
    case skip
    then show ?thesis using Cons.IH [OF skip Cons.prems(2,3)] Cons.prems(4,5) by simp
  next
    case (failed err)
    from claimOne_slots [OF failed(2) Cons.prems(2)] show ?thesis by (simp add: activeSlots_def)
  next
    case (lost t)
    from claimOne_slots [OF lost(2) Cons.prems(2)]
    have t: "same_homes s t" "t_runs t = t_runs s" by simp_all
    then have slots: "activeSlots t j = activeSlots s j" for j by (simp add: activeSlots_def)
    from Cons.IH [OF lost(3) keep [OF lost(2)] Cons.prems(3)] slots Cons.prems(4) home [OF t(1)]
    have "activeSlots u k \<le> max (activeSlots t k) (laneCap (fst k) (snd k) t)" by simp
    with slots laneCap_cong [of t s] t(1) show ?thesis by (simp add: same_homes_def)
  next
    case (won r t rs')
    from claimOne_slots [OF won(2) Cons.prems(2)] obtain cur where t: "same_homes s t"
      and cur: "find_run (c_run c) s = Some cur" "run_user r = run_user cur" "run_lane r = run_lane cur"
      and slots: "\<And>j. activeSlots t j = activeSlots s j + (if j = (run_user r, run_lane r) then 1 else 0)"
      by auto
    have key: "(run_user r, run_lane r) = (c_user c, c_lane c)"
      using Cons.prems(5) [of c] cur by (auto simp: cand_home_def)
    have "(active((c_user c, c_lane c) := active (c_user c, c_lane c) + 1)) j = activeSlots t j" for j
      using slots [of j] Cons.prems(4) by (simp add: key)
    from Cons.IH [OF won(4) keep [OF won(2)] Cons.prems(3) this home [OF t]]
    have "activeSlots u k \<le> max (activeSlots t k) (laneCap (fst k) (snd k) t)" by simp
    moreover have "activeSlots t k \<le> max (activeSlots s k) (laneCap (fst k) (snd k) s)"
      using slots [of k] admit_cap [OF won(1)] Cons.prems(4) by (auto simp: key split: if_splits)
    ultimately show ?thesis using laneCap_cong [of t s] t by (simp add: same_homes_def)
  qed
qed

text \<open>The dispatched runs are candidates, in admission order.\<close>

lemma claim_loop_subseq:
  "claim_loop se bgStop paused n cs active s = ((e, rs), u) \<Longrightarrow> good s \<Longrightarrow>
   sched_hook_ok (se_env se) \<Longrightarrow> subseq (map run_id rs) (map c_run cs)"
proof (induction cs arbitrary: n active s rs)
  case Nil
  then show ?case by simp
next
  case (Cons c cs)
  have keep: "good t" if "claimOne se c s = (res, t)" for res t
    using claimOne_keeps [OF Cons.prems(3), of s c] that Cons.prems(2)
    by (simp add: sched_keeps_def evolves_def)
  from Cons.prems(1) show ?case
  proof (cases rule: claim_loop_cases)
    case skip
    with Cons show ?thesis by (simp add: list_emb_Cons)
  next
    case (lost t)
    with Cons keep [OF lost(2)] show ?thesis by (simp add: list_emb_Cons)
  next
    case (won r t rs')
    have "run_id r = c_run c" using claimOne_slots [OF won(2) Cons.prems(2)] by auto
    with Cons.IH [OF won(4) keep [OF won(2)] Cons.prems(3)] won(3) show ?thesis by simp
  qed simp_all
qed

lemma candidates_props:
  assumes "queue_ok s" "c \<in> set (candidates s)"
  obtains q r where "q \<in> set (t_queue s)" "q_status q = QueueQueued" "find_run (q_run q) s = Some r"
    "run_state r = StateQueued" "c = candidate_of q r" "q_user q = run_user r"
  using assms by (auto simp: candidates_def queue_ok_def split: option.splits if_splits)

lemma candidates_home: "queue_ok s \<Longrightarrow> c \<in> set (candidates s) \<Longrightarrow> cand_home s c"
  by (erule (1) candidates_props) (auto simp: cand_home_def candidate_of_def)

lemma sortCandidates_home:
  assumes "\<And>c. c \<in> set cs \<Longrightarrow> cand_home s c" "c \<in> set (sortCandidates now cs)"
  shows "cand_home s c"
proof -
  obtain i where "i < length cs" "c = (cs ! i)\<lparr>c_key := Some (permuted_key now cs i)\<rparr>"
    using assms(2) unfolding set_sortCandidates permuteHints_def by auto
  with assms(1) [of "cs ! i"] show ?thesis by (simp add: cand_home_def)
qed

lemma candidates_distinct: "queue_ok s \<Longrightarrow> distinct (map c_queue (candidates s))"
proof -
  assume "queue_ok s"
  then have "distinct (map q_id (t_queue s))" by (simp add: queue_ok_def queue_keyed_def)
  moreover have "distinct (map c_queue (concat (map (\<lambda>q.
     if q_status q \<noteq> QueueQueued then []
     else case find_run (q_run q) s of
        None \<Rightarrow> []
      | Some r \<Rightarrow> if run_state r = StateQueued then [candidate_of q r] else []) qs))) \<and>
     set (map c_queue (concat (map (\<lambda>q.
     if q_status q \<noteq> QueueQueued then []
     else case find_run (q_run q) s of
        None \<Rightarrow> []
      | Some r \<Rightarrow> if run_state r = StateQueued then [candidate_of q r] else []) qs))) \<subseteq> set (map q_id qs)"
    if "distinct (map q_id qs)" for qs
    using that by (induction qs) (auto simp: candidate_of_def split: option.splits)
  ultimately show ?thesis by (simp add: candidates_def)
qed

section \<open>What the reconciles reach\<close>

lemma write_each_all:
  assumes "\<And>x u. x \<in> set xs \<Longrightarrow> I u \<Longrightarrow> \<exists>t. f x u = Inr ((), t) \<and> I t \<and> P x t \<and> (\<forall>y. P y u \<longrightarrow> P y t)"
    and "I s"
  shows "\<exists>t. write_each f xs s = (None, t) \<and> I t \<and> (\<forall>x\<in>set xs. P x t) \<and> (\<forall>y. P y s \<longrightarrow> P y t)"
  using assms
proof (induction xs arbitrary: s)
  case Nil
  then show ?case by simp
next
  case (Cons x xs)
  obtain u where u: "f x s = Inr ((), u)" "I u" "P x u" "\<forall>y. P y s \<longrightarrow> P y u"
    using Cons.prems(1) [of x s] Cons.prems(2) by auto
  from Cons.IH [of u] Cons.prems(1) u(2) obtain t where
    "write_each f xs u = (None, t)" "I t" "\<forall>x\<in>set xs. P x t" "\<forall>y. P y u \<longrightarrow> P y t" by auto
  with u show ?case by auto
qed

text \<open>After the first reconcile every queued run has an active row.\<close>

lemma reconcileQueueRows_complete:
  assumes "good s"
  shows "\<exists>t. reconcileQueueRows env s = (None, t) \<and> t_runs t = t_runs s \<and> unqueued_runs t = []"
proof -
  let ?I = "\<lambda>u. t_runs u = t_runs s"
  let ?P = "\<lambda>(r :: run_row) u. list_ex (\<lambda>q. q_run q = run_id r \<and> active_row q) (t_queue u)"
  let ?f = "\<lambda>r. materializeQueueRowTx env (run_id r) (run_user r) DefaultWorkloadClass"
  have step: "\<exists>t. ?f r u = Inr ((), t) \<and> ?I t \<and> ?P r t \<and> (\<forall>y. ?P y u \<longrightarrow> ?P y t)"
    if r: "r \<in> set (unqueued_runs s)" and u: "?I u" for r u
  proof (cases "tbl_count (\<lambda>q. q_run q = run_id r \<and> active_row q) (t_queue u) > 0")
    case True
    then have "?P r u"
      using tbl_count_0 [of "\<lambda>q. q_run q = run_id r \<and> active_row q" "t_queue u"]
      by (auto simp: list_ex_iff)
    with True u show ?thesis by (simp add: materializeQueueRowTx_def tx_bind_def tx_read_def tx_return_def)
  next
    case False
    have "find_run (run_id r) s = Some r" using r find_run_mem [OF assms] by (simp add: unqueued_runs_def)
    moreover from this have "run_user r \<noteq> []" using good_run [OF assms] by (auto simp: run_checks_def)
    ultimately have "has_run (run_id r) u" "run_user r \<noteq> []"
      using find_run_cong [of u s] u by (simp_all add: has_run_def)
    with False u show ?thesis
      by (simp add: materializeQueueRowTx_def tx_bind_def tx_read_def insert_queue_def active_row_def)
  qed
  have "\<exists>t. write_each ?f (unqueued_runs s) s = (None, t) \<and> ?I t \<and>
      (\<forall>r\<in>set (unqueued_runs s). ?P r t) \<and> (\<forall>y. ?P y s \<longrightarrow> ?P y t)"
    by (rule write_each_all [where I = ?I and P = ?P, OF step]) simp_all
  then obtain t where t: "reconcileQueueRows env s = (None, t)" "t_runs t = t_runs s"
      "\<forall>r\<in>set (unqueued_runs s). ?P r t" "\<forall>y. ?P y s \<longrightarrow> ?P y t"
    by (auto simp: reconcileQueueRows_def)
  have "unqueued_runs t = []"
    unfolding unqueued_runs_def filter_empty_conv t(2)
    using t(3,4) by (auto simp: unqueued_runs_def)
  with t show ?thesis by blast
qed

text \<open>
  The receipt materialiser as the settles rely on it: for a stored run it succeeds, and it leaves runs
  and queue.
\<close>

definition receipts_total :: "sched_env \<Rightarrow> bool" where
  "receipts_total se \<longleftrightarrow> (\<forall>m rid r s. se_receipts se = Some m \<longrightarrow> find_run rid s = Some r \<longrightarrow> run_checks r \<longrightarrow>
     (\<exists>t. m rid s = Inr ((), t) \<and> t_runs t = t_runs s \<and> t_queue t = t_queue s))"

lemma receipt_total:
  "receipts_total se \<Longrightarrow> find_run rid s = Some r \<Longrightarrow> run_checks r \<Longrightarrow>
   \<exists>t. receipt_tx se rid s = Inr ((), t) \<and> t_runs t = t_runs s \<and> t_queue t = t_queue s"
  by (cases "se_receipts se") (auto simp: receipts_total_def receipt_tx_def tx_return_def)

text \<open>After the second no active row belongs to an ended run, and no other row has changed.\<close>

lemma settleEndedRows_complete:
  assumes "queue_ok s" "receipts_total se" "rows_good s"
  shows "\<exists>t. settleEndedRows se s = (None, t) \<and> t_runs t = t_runs s \<and> ended_rows t = [] \<and>
    (\<forall>q\<in>set (t_queue s). q \<notin> fst ` set (ended_rows s) \<longrightarrow> q \<in> set (t_queue t))"
proof -
  let ?E = "fst ` set (ended_rows s)"
  let ?I = "\<lambda>u. t_runs u = t_runs s \<and> (\<forall>q\<in>set (t_queue u). active_row q \<longrightarrow> q \<in> set (t_queue s)) \<and>
    (\<forall>q\<in>set (t_queue s). q \<notin> ?E \<longrightarrow> q \<in> set (t_queue u))"
  let ?P = "\<lambda>(x :: queue_row \<times> run_state) u. \<forall>q\<in>set (t_queue u). q_id q = q_id (fst x) \<longrightarrow> \<not> active_row q"
  have keyed: "q = q'" if "q \<in> set (t_queue s)" "q' \<in> set (t_queue s)" "q_id q = q_id q'" for q q'
    using queue_tbl.key_unique [of "t_queue s" q q'] that assms(1) by (simp add: queue_ok_def)
  have step: "\<exists>t. settle_ended se x u = Inr ((), t) \<and> ?I t \<and> ?P x t \<and> (\<forall>y. ?P y u \<longrightarrow> ?P y t)"
    if x: "x \<in> set (ended_rows s)" and u: "?I u" for x u
  proof -
    let ?p = "\<lambda>q. q_id q = q_id (fst x) \<and> active_row q"
    let ?v = "update_queue ?p (\<lambda>q. q\<lparr>q_status := QueueDone\<rparr>) u"
    have xs: "fst x \<in> set (t_queue s)" using x
      by (auto simp: ended_rows_def split: if_splits option.splits)
    have "\<exists>r. find_run (q_run (fst x)) s = Some r" using xs assms(1) by (auto simp: queue_ok_def)
    then obtain r where r: "find_run (q_run (fst x)) ?v = Some r" "run_checks r"
      using assms(3) u find_run_cong [of ?v s] by (auto simp: rows_good_def)
    have settled: "\<not> active_row (q\<lparr>q_status := QueueDone\<rparr>)" for q by (simp add: active_row_def)
    have "q \<in> set (t_queue ?v)" if q: "q \<in> set (t_queue s)" "q \<notin> ?E" for q
    proof -
      have "q \<in> set (t_queue u)" using u q by blast
      moreover have "\<not> ?p q" using keyed [OF q(1) xs] q(2) x by auto
      ultimately show ?thesis by (force simp: set_tbl_update)
    qed
    then have I: "?I ?v" using u settled by (auto simp: set_tbl_update)
    have P: "?P x ?v" using settled by (auto simp: set_tbl_update)
    have mono: "?P y u \<longrightarrow> ?P y ?v" for y using settled by (auto simp: set_tbl_update)
    obtain w where w: "receipt_tx se (q_run (fst x)) ?v = Inr ((), w)" "t_runs w = t_runs ?v" "t_queue w = t_queue ?v"
      using receipt_total [OF assms(2) r] by blast
    let ?t = "if tbl_count ?p (t_queue u) = 0 then ?v else if IsTerminal (snd x) then w else ?v"
    have run: "settle_ended se x u = Inr ((), ?t)"
      using w(1) by (simp add: settle_ended_def tx_bind_def tx_read_def tx_modify_def tx_return_def)
    have t: "t_runs ?t = t_runs ?v" "t_queue ?t = t_queue ?v" using w(2,3) by simp_all
    have "?I ?t" unfolding t by (rule I)
    moreover have "?P x ?t" unfolding t by (rule P)
    moreover have "\<forall>y. ?P y u \<longrightarrow> ?P y ?t" unfolding t by (intro allI mono)
    ultimately show ?thesis using run by blast
  qed
  have "\<exists>t. write_each (settle_ended se) (ended_rows s) s = (None, t) \<and> ?I t \<and>
      (\<forall>x\<in>set (ended_rows s). ?P x t) \<and> (\<forall>y. ?P y s \<longrightarrow> ?P y t)"
    by (rule write_each_all [where I = ?I and P = ?P, OF step]) simp_all
  then obtain t where t: "settleEndedRows se s = (None, t)" "?I t" "\<forall>x\<in>set (ended_rows s). ?P x t"
    by (auto simp: settleEndedRows_def)
  have "ended_rows t = []"
  proof -
    have "\<not> (active_row q \<and> (\<exists>r. find_run (q_run q) t = Some r \<and> ended_state (run_state r)))"
      if q: "q \<in> set (t_queue t)" for q
    proof
      assume a: "active_row q \<and> (\<exists>r. find_run (q_run q) t = Some r \<and> ended_state (run_state r))"
      then have qs: "q \<in> set (t_queue s)" using t(2) q by blast
      obtain r where "find_run (q_run q) s = Some r" "ended_state (run_state r)"
        using a find_run_cong [of t s] t(2) by auto
      then have "(q, run_state r) \<in> set (ended_rows s)"
        using qs a by (force simp: ended_rows_def)
      with t(3) q a show False by fastforce
    qed
    then have none: "(if \<not> active_row q then []
       else case find_run (q_run q) t of
          None \<Rightarrow> []
        | Some r \<Rightarrow> if ended_state (run_state r) then [(q, run_state r)] else []) = []"
      if "q \<in> set (t_queue t)" for q
      using that by (auto split: option.splits)
    have "set (ended_rows t) = {}" unfolding ended_rows_def set_sort set_concat set_map using none by auto
    then show ?thesis by simp
  qed
  with t show ?thesis by blast
qed

end
