(* ===== verification/Checkpoints.thy ===== *)
theory Checkpoints
  imports Run_Invariant
begin

text \<open>
  \<open>internal/gates/checkpoints.go\<close>: one checkpoint row per paid model call, written in the same
  transaction as its \<open>checkpoint.written\<close> event.
\<close>

definition EventCheckpoint :: string where "EventCheckpoint = ''checkpoint.written''"

record new_checkpoint =
  nc_run :: string
  nc_usage :: raw
  nc_session_substrate :: string
  nc_session_id :: string
  nc_message_index :: int
  nc_cwd_key :: string
  nc_transcript :: string
  nc_ledger_revision :: string
  nc_artifact_ref :: string
  nc_model :: string
  nc_invocation_fp :: string
  nc_tool_schema :: string
  nc_prompt_schema :: string

definition checkpoint_payload :: "new_checkpoint \<Rightarrow> raw" where
  "checkpoint_payload n = marshal (JObj
     (opt_str ''model_id'' (nc_model n) @ opt_str ''session_id'' (nc_session_id n) @
      opt_int ''message_index'' (nc_message_index n) @
      opt_str ''artifact_snapshot_ref'' (nc_artifact_ref n)))"

text \<open>An empty usage block is stored as an empty object.\<close>

definition usage_of :: "new_checkpoint \<Rightarrow> raw" where
  "usage_of n = (if raw_text (nc_usage n) = [] then marshal (JObj []) else nc_usage n)"

definition row_of_checkpoint ::
  "int \<Rightarrow> time \<Rightarrow> new_checkpoint \<Rightarrow> string \<Rightarrow> int \<Rightarrow> checkpoint_row" where
  "row_of_checkpoint cid now n user seq =
     \<lparr>ck_id = cid, ck_run = nc_run n, ck_user = user, ck_event_seq = seq, ck_usage = usage_of n,
      ck_session_substrate = nc_session_substrate n, ck_session_id = nc_session_id n,
      ck_message_index = nc_message_index n, ck_cwd_key = nc_cwd_key n,
      ck_transcript = nc_transcript n, ck_ledger_revision = nc_ledger_revision n,
      ck_artifact_ref = nc_artifact_ref n, ck_model = nc_model n,
      ck_invocation_fp = nc_invocation_fp n, ck_tool_schema = nc_tool_schema n,
      ck_prompt_schema = nc_prompt_schema n, ck_created = now\<rparr>"

definition insert_checkpoint :: "time \<Rightarrow> new_checkpoint \<Rightarrow> string \<Rightarrow> int \<Rightarrow> checkpoint_row dbtx" where
  "insert_checkpoint now n user seq = (\<lambda>s.
     let row = row_of_checkpoint (next_rowid (map ck_id (t_checkpoints s))) now n user seq
     in Inr (row, s\<lparr>t_checkpoints := t_checkpoints s @ [row]\<rparr>))"

definition CheckpointTx :: "env \<Rightarrow> new_checkpoint \<Rightarrow> checkpoint_row dbtx" where
  "CheckpointTx env n =
     (if nc_run n = [] then tx_fail CheckpointWithoutRun
      else if \<not> raw_valid (usage_of n) then tx_fail UsageNotJSON
      else
        tx_bind (tx_some (find_run (nc_run n)) (ErrRunNotFound (nc_run n))) (\<lambda>r.
          if run_state r \<noteq> StateRunning \<and> run_state r \<noteq> StateDraining
          then tx_fail (ErrNotCheckpointable (nc_run n) (run_state r))
          else
            tx_bind (AppendTx (env_settings env) (env_now env)
                       (run_append (nc_run n) (run_generation r) (run_user r) EventCheckpoint
                          (checkpoint_payload n))) (\<lambda>seq.
            insert_checkpoint (env_now env) n (run_user r) seq)))"

definition WriteCheckpoint :: "env \<Rightarrow> new_checkpoint \<Rightarrow> db \<Rightarrow> (error + checkpoint_row) \<times> db" where
  "WriteCheckpoint env n = write_tx (CheckpointTx env n)"

text \<open>\<open>ORDER BY event_seq DESC LIMIT 1\<close>.\<close>

definition LastCheckpoint :: "string \<Rightarrow> db \<Rightarrow> checkpoint_row option" where
  "LastCheckpoint rid s =
     (case sort_key (\<lambda>c. - ck_event_seq c) (filter (\<lambda>c. ck_run c = rid) (t_checkpoints s)) of
        [] \<Rightarrow> None
      | c # _ \<Rightarrow> Some c)"

definition LastCheckpointTx :: "string \<Rightarrow> checkpoint_row option dbtx" where
  "LastCheckpointTx rid = tx_read (LastCheckpoint rid)"

section \<open>Lemmas\<close>

lemma insert_checkpoint_Inr [tx_simps]:
  "insert_checkpoint now n user seq s = Inr (row, t) \<longleftrightarrow>
     row = row_of_checkpoint (next_rowid (map ck_id (t_checkpoints s))) now n user seq \<and>
     t = s\<lparr>t_checkpoints := t_checkpoints s @ [row]\<rparr>"
  by (auto simp: insert_checkpoint_def Let_def)

lemma neutral_checkpoint [simp]: "neutral_type EventCheckpoint"
  by (simp add: neutral_type_def event_type_defs EventCheckpoint_def)

lemma insert_checkpoint_evolves: "tx_rel evolves (insert_checkpoint now n user seq)"
  by (rule evolves_pure) (auto simp: tx_simps)

lemma CheckpointTx_evolves [tx_rel_intros]: "tx_rel evolves (CheckpointTx env n)"
  unfolding CheckpointTx_def
  by (intro evolve.frame_rules AppendTx_evolves insert_checkpoint_evolves)
     (simp add: run_append_def)

lemma LastCheckpointTx_evolves [tx_rel_intros]: "tx_rel evolves (LastCheckpointTx rid)"
  by (simp add: LastCheckpointTx_def evolve.rel_read)

lemma CheckpointTx_Inr:
  assumes "CheckpointTx env n s = Inr (c, t)"
  obtains r seq e where
    "find_run (nc_run n) s = Some r" "run_state r \<in> {StateRunning, StateDraining}"
    "raw_valid (usage_of n)" "nc_run n \<noteq> []"
    "c = row_of_checkpoint (next_rowid (map ck_id (t_checkpoints s))) (env_now env) n (run_user r) seq"
    "seq = next_rowid (map ev_seq (t_events s))"
    "e = new_event seq (env_now env) (run_append (nc_run n) (run_generation r) (run_user r)
       EventCheckpoint (checkpoint_payload n))"
    "t = s\<lparr>t_events := t_events s @ [e], t_checkpoints := t_checkpoints s @ [c]\<rparr>"
  using assms unfolding CheckpointTx_def
  by (auto simp: tx_simps AppendTx_Inr split: if_splits)

text \<open>Every checkpoint row points at an event of its own run.\<close>

definition checkpoints_ok :: "db \<Rightarrow> bool" where
  "checkpoints_ok s \<longleftrightarrow> (\<forall>c\<in>set (t_checkpoints s).
     \<exists>e\<in>set (t_events s). ev_seq e = ck_event_seq c \<and> ev_run e = ck_run c \<and> ev_type e = EventCheckpoint)"

lemma CheckpointTx_ok:
  assumes "CheckpointTx env n s = Inr (c, t)" "checkpoints_ok s"
  shows "checkpoints_ok t"
  using assms(1)
proof (rule CheckpointTx_Inr)
  fix r seq e
  assume *: "nc_run n \<noteq> []"
    "c = row_of_checkpoint (next_rowid (map ck_id (t_checkpoints s))) (env_now env) n (run_user r) seq"
    "e = new_event seq (env_now env) (run_append (nc_run n) (run_generation r) (run_user r)
       EventCheckpoint (checkpoint_payload n))"
    "t = s\<lparr>t_events := t_events s @ [e], t_checkpoints := t_checkpoints s @ [c]\<rparr>"
  then have "ev_seq e = ck_event_seq c" "ev_run e = ck_run c" "ev_type e = EventCheckpoint"
    by (simp_all add: row_of_checkpoint_def new_event_def run_append_def)
  with * assms(2) show ?thesis by (auto simp: checkpoints_ok_def)
qed

lemma sort_key_hd_max:
  fixes f :: "'a \<Rightarrow> int"
  assumes "x \<in> set xs" "\<And>y. y \<in> set xs \<Longrightarrow> y \<noteq> x \<Longrightarrow> f x < f y"
  shows "\<exists>ys. sort_key f xs = x # ys"
proof (cases "sort_key f xs")
  case Nil
  then have "set xs = {}" by (metis set_empty set_sort)
  with assms(1) show ?thesis by simp
next
  case (Cons y ys)
  have "sorted (map f (y # ys))" using sorted_sort_key [of f xs] Cons by simp
  moreover have "x \<in> set (y # ys)" "y \<in> set xs" using assms(1) Cons by (metis set_sort list.set_intros(1))+
  ultimately have "f y \<le> f x" by auto
  with assms(2) [OF \<open>y \<in> set xs\<close>] have "y = x" by fastforce
  with Cons show ?thesis by simp
qed

lemma LastCheckpoint_after_write:
  assumes w: "CheckpointTx env n s = Inr (c, t)" and ok: "checkpoints_ok s"
  shows "LastCheckpoint (nc_run n) t = Some c"
  using w
proof (rule CheckpointTx_Inr)
  fix r seq e
  assume *: "c = row_of_checkpoint (next_rowid (map ck_id (t_checkpoints s))) (env_now env) n (run_user r) seq"
    "seq = next_rowid (map ev_seq (t_events s))"
    "t = s\<lparr>t_events := t_events s @ [e], t_checkpoints := t_checkpoints s @ [c]\<rparr>"
  have c: "ck_run c = nc_run n" "ck_event_seq c = seq" using *(1) by (simp_all add: row_of_checkpoint_def)
  have old: "ck_event_seq x < seq" if "x \<in> set (t_checkpoints s)" for x
    using ok that next_rowid_gt [of _ "map ev_seq (t_events s)"] *(2)
    by (fastforce simp: checkpoints_ok_def)
  have "\<exists>ys. sort_key (\<lambda>c. - ck_event_seq c) (filter (\<lambda>c. ck_run c = nc_run n) (t_checkpoints t)) = c # ys"
    by (rule sort_key_hd_max) (use c old *(3) in auto)
  then show ?thesis by (auto simp: LastCheckpoint_def)
qed

end
