(* ===== verification/Effect_Journal.thy ===== *)
theory Effect_Journal
  imports Run_Invariant "HOL-Library.Word"
begin

text \<open>
  \<open>internal/gates/effects.go\<close> and the UUID of \<open>gates.go\<close>: the two-phase effect journal over the
  \<open>effects\<close> table.  Every method is one write transaction; \<open>BeginExecute\<close> commits the reset to
  \<open>proposed\<close> while it returns an error, so a method maps the state to a result \<^emph>\<open>and\<close> a state.
  SHA-256 (\<open>sha\<close>) and the random bytes a proposal draws are parameters.

  \<open>eff_ok\<close> is the invariant of a row, \<open>eff_step\<close> what one operation may do to a row, and
  \<open>journal_run\<close> runs any sequence of journal operations, recording which executions began.
\<close>

unbundle bit_operations_syntax

section \<open>Classes, states, the environment\<close>

definition class_of_name :: "string \<Rightarrow> effect_class option" where
  "class_of_name c =
     (if c = ''A'' then Some ClassA else if c = ''B'' then Some ClassB
      else if c = ''C'' then Some ClassC else if c = ''D'' then Some ClassD else None)"

definition validClass :: "string \<Rightarrow> bool" where
  "validClass c = (c = ''A'' \<or> c = ''B'' \<or> c = ''C'' \<or> c = ''D'')"

definition keyApprovalExpiry :: string where "keyApprovalExpiry = ''effects.approval_expiry''"

record journal_env =
  je_settings :: settings
  je_now :: time
  je_sha :: "string \<Rightarrow> string"

record proposal =
  pr_run :: string
  pr_user :: string
  pr_class :: string
  pr_payload :: raw
  pr_window_ref :: string

section \<open>The effect UUID\<close>

definition hex_byte :: "8 word \<Rightarrow> string" where
  "hex_byte w = [hex_digit (unat (drop_bit 4 w)), hex_digit (unat (w AND 15))]"

definition hex_bytes :: "8 word list \<Rightarrow> string" where
  "hex_bytes ws = concat (map hex_byte ws)"

text \<open>\<open>newUUID\<close> on the 16 bytes that \<open>rand.Read\<close> filled in.\<close>

definition newUUID :: "8 word list \<Rightarrow> string" where
  "newUUID drawn =
     (let b1 = drawn[6 := (drawn ! 6 AND 0x0f) OR 0x40];
          b = b1[8 := (b1 ! 8 AND 0x3f) OR 0x80]
      in hex_bytes (take 4 b) @ ''-'' @ hex_bytes (take 2 (drop 4 b)) @ ''-'' @
         hex_bytes (take 2 (drop 6 b)) @ ''-'' @ hex_bytes (take 2 (drop 8 b)) @ ''-'' @
         hex_bytes (drop 10 b))"

section \<open>Operations\<close>

definition getEffectTx :: "string \<Rightarrow> effect_row dbtx" where
  "getEffectTx eid = tx_some (find_effect eid) (ErrEffectNotFound eid)"

definition GetEffect :: "string \<Rightarrow> db \<Rightarrow> error + effect_row" where
  "GetEffect eid s = (case find_effect eid s of None \<Rightarrow> Inl (ErrEffectNotFound eid) | Some e \<Rightarrow> Inr e)"

definition InState :: "effect_state \<Rightarrow> db \<Rightarrow> effect_row list" where
  "InState st s = sort_key eff_id (filter (\<lambda>e. eff_state e = st) (t_effects s))"

definition row_of_proposal ::
  "journal_env \<Rightarrow> string \<Rightarrow> effect_class \<Rightarrow> raw \<Rightarrow> proposal \<Rightarrow> effect_row" where
  "row_of_proposal je eid cls canonical p =
     \<lparr>eff_id = eid, eff_run = pr_run p, eff_user = pr_user p, eff_class = cls,
      eff_payload = canonical, eff_hash = hashPayload (je_sha je) canonical,
      eff_state = EffectProposed, eff_approved_by = [], eff_approved_ts = 0, eff_key = [],
      eff_window_ref = pr_window_ref p, eff_attempts = 0, eff_result = raw_empty,
      eff_created = je_now je, eff_updated = je_now je\<rparr>"

text \<open>The INSERT with the constraints of the \<open>effects\<close> table.\<close>

definition insert_effect :: "effect_row \<Rightarrow> unit dbtx" where
  "insert_effect e = (\<lambda>s.
     if eff_id e \<noteq> [] \<and> find_effect (eff_id e) s = None \<and> eff_user e \<noteq> [] \<and> eff_hash e \<noteq> [] \<and>
        (eff_run e = [] \<or> has_run (eff_run e) s)
     then Inr ((), s\<lparr>t_effects := t_effects s @ [e]\<rparr>)
     else Inl (ConstraintFailed ''effects''))"

definition ProposeTx :: "journal_env \<Rightarrow> 8 word list \<Rightarrow> proposal \<Rightarrow> effect_row dbtx" where
  "ProposeTx je drawn p =
     (if pr_user p = [] then tx_fail EmptyUserID
      else case class_of_name (pr_class p) of
        None \<Rightarrow> tx_fail (InvalidEffectClass (pr_class p))
      | Some cls \<Rightarrow> (case canonicalJSON (pr_payload p) of
            None \<Rightarrow> tx_fail PayloadNotJSON
          | Some canonical \<Rightarrow>
              tx_bind (insert_effect (row_of_proposal je (newUUID drawn) cls canonical p)) (\<lambda>_.
              getEffectTx (newUUID drawn))))"

definition Propose ::
  "journal_env \<Rightarrow> 8 word list \<Rightarrow> proposal \<Rightarrow> db \<Rightarrow> (error + effect_row) \<times> db" where
  "Propose je drawn p = write_tx (ProposeTx je drawn p)"

definition set_effect :: "string \<Rightarrow> (effect_row \<Rightarrow> effect_row) \<Rightarrow> unit dbtx" where
  "set_effect eid f = tx_modify (update_effects (\<lambda>e. eff_id e = eid) f)"

definition Approve ::
  "journal_env \<Rightarrow> string \<Rightarrow> string \<Rightarrow> db \<Rightarrow> (error + effect_row) \<times> db" where
  "Approve je eid approver s =
     (if approver = [] then (Inl ApprovalWithoutApprover, s)
      else write_tx
        (tx_bind (getEffectTx eid) (\<lambda>cur.
           if eff_state cur \<noteq> EffectProposed then tx_fail (ErrBadState eid (eff_state cur))
           else case canonicalJSON (eff_payload cur) of
             None \<Rightarrow> tx_fail PayloadNotJSON
           | Some canonical \<Rightarrow>
               if hashPayload (je_sha je) canonical \<noteq> eff_hash cur then tx_fail (ErrPayloadDrift eid)
               else
                 tx_bind (set_effect eid (\<lambda>e. e\<lparr>eff_state := EffectApproved,
                     eff_approved_by := approver, eff_approved_ts := je_now je,
                     eff_updated := je_now je\<rparr>)) (\<lambda>_.
                 getEffectTx eid))) s)"

text \<open>The reset to \<open>proposed\<close>; the sentinel error travels beside the committed state.\<close>

definition reapproval_reset :: "journal_env \<Rightarrow> effect_row \<Rightarrow> effect_row" where
  "reapproval_reset je e = e\<lparr>eff_state := EffectProposed, eff_approved_by := [],
     eff_approved_ts := 0, eff_updated := je_now je\<rparr>"

definition executing_row :: "journal_env \<Rightarrow> string \<Rightarrow> effect_row \<Rightarrow> effect_row" where
  "executing_row je key e = e\<lparr>eff_state := EffectExecuting, eff_key := key,
     eff_attempts := eff_attempts e + 1, eff_updated := je_now je\<rparr>"

definition begin_tx :: "journal_env \<Rightarrow> duration \<Rightarrow> string \<Rightarrow> (error + effect_row) dbtx" where
  "begin_tx je expiry eid =
     tx_bind (getEffectTx eid) (\<lambda>cur.
       if eff_state cur \<noteq> EffectApproved then tx_fail (ErrBadState eid (eff_state cur))
       else if time_sub (je_now je) (eff_approved_ts cur) > expiry then
         tx_bind (set_effect eid (reapproval_reset je)) (\<lambda>_.
         tx_return (Inl (ErrApprovalExpired eid)))
       else case canonicalJSON (eff_payload cur) of
         None \<Rightarrow> tx_fail PayloadNotJSON
       | Some canonical \<Rightarrow>
           if hashPayload (je_sha je) canonical \<noteq> eff_hash cur then
             tx_bind (set_effect eid (reapproval_reset je)) (\<lambda>_.
             tx_return (Inl (ErrPayloadDrift eid)))
           else
             tx_bind (set_effect eid
                (executing_row je (if eff_key cur = [] then eff_id cur else eff_key cur))) (\<lambda>_.
             tx_bind (getEffectTx eid) (\<lambda>e. tx_return (Inr e))))"

definition BeginExecute :: "journal_env \<Rightarrow> string \<Rightarrow> db \<Rightarrow> (error + effect_row) \<times> db" where
  "BeginExecute je eid s =
     (case read_duration (je_settings je) keyApprovalExpiry of
        Inl e \<Rightarrow> (Inl e, s)
      | Inr expiry \<Rightarrow> (case write_tx (begin_tx je expiry eid) s of
            (Inl e, t) \<Rightarrow> (Inl e, t)
          | (Inr r, t) \<Rightarrow> (r, t)))"

definition finish ::
  "journal_env \<Rightarrow> string \<Rightarrow> effect_state \<Rightarrow> raw \<Rightarrow> db \<Rightarrow> (error + effect_row) \<times> db" where
  "finish je eid to result s =
     (if raw_text result \<noteq> [] \<and> \<not> raw_valid result then (Inl ResultNotJSON, s)
      else write_tx
        (tx_bind (getEffectTx eid) (\<lambda>cur.
           if eff_state cur \<noteq> EffectExecuting then tx_fail (ErrBadState eid (eff_state cur))
           else
             tx_bind (set_effect eid (\<lambda>e. e\<lparr>eff_state := to, eff_result := result,
                 eff_updated := je_now je\<rparr>)) (\<lambda>_.
             getEffectTx eid))) s)"

definition Succeed ::
  "journal_env \<Rightarrow> string \<Rightarrow> raw \<Rightarrow> db \<Rightarrow> (error + effect_row) \<times> db" where
  "Succeed je eid result = finish je eid EffectSucceeded result"

definition Fail ::
  "journal_env \<Rightarrow> string \<Rightarrow> raw \<Rightarrow> db \<Rightarrow> (error + effect_row) \<times> db" where
  "Fail je eid result = finish je eid EffectFailed result"

definition unknown_card :: "string \<Rightarrow> raw" where
  "unknown_card note = marshal (JObj
     [(''card'', JStr ''effect-outcome-unknown''), (''note'', JStr note)])"

definition MarkUnknown ::
  "journal_env \<Rightarrow> string \<Rightarrow> string \<Rightarrow> db \<Rightarrow> (error + effect_row) \<times> db" where
  "MarkUnknown je eid note = finish je eid EffectUnknown (unknown_card note)"

definition denial_result :: "string \<Rightarrow> string \<Rightarrow> raw" where
  "denial_result actor reason = marshal (JObj
     ([(''denied'', JBool True), (''actor'', JStr actor)] @ opt_str ''reason'' reason))"

definition Deny ::
  "journal_env \<Rightarrow> string \<Rightarrow> string \<Rightarrow> string \<Rightarrow> db \<Rightarrow> (error + effect_row) \<times> db" where
  "Deny je eid actor reason s =
     (if actor = [] then (Inl DenialWithoutActor, s)
      else write_tx
        (tx_bind (getEffectTx eid) (\<lambda>cur.
           if eff_state cur \<noteq> EffectProposed then tx_fail (ErrBadState eid (eff_state cur))
           else
             tx_bind (set_effect eid (\<lambda>e. e\<lparr>eff_state := EffectFailed,
                 eff_result := denial_result actor reason, eff_updated := je_now je\<rparr>)) (\<lambda>_.
             getEffectTx eid))) s)"

text \<open>
  \<open>ReconcileInDoubt\<close>: the executing rows in id order, each settled in its own transaction with its
  own clock reading (\<open>je n\<close> for the n-th); an error stops the pass and keeps what was done.
\<close>

definition crash_window_note :: string where
  "crash_window_note = ''crash window on an idempotency-less channel: the provider may or may not '' @
     ''have acted; check the provider's own record before deciding''"

fun reconcile_effects ::
  "(nat \<Rightarrow> journal_env) \<Rightarrow> nat \<Rightarrow> effect_row list \<Rightarrow> db \<Rightarrow>
   (error option \<times> (string \<times> effect_class \<times> effect_state) list) \<times> db" where
  "reconcile_effects je n [] s = ((None, []), s)"
| "reconcile_effects je n (e # es) s =
     (case eff_class e of
        ClassD \<Rightarrow> (case MarkUnknown (je n) (eff_id e) crash_window_note s of
            (Inl err, t) \<Rightarrow> ((Some err, []), t)
          | (Inr _, t) \<Rightarrow> (case reconcile_effects je (n + 1) es t of
                ((err, out), u) \<Rightarrow> ((err, (eff_id e, ClassD, EffectUnknown) # out), u)))
      | cls \<Rightarrow>
          (let t = update_effects (\<lambda>r. eff_id r = eff_id e \<and> eff_state r = EffectExecuting)
                     (\<lambda>r. r\<lparr>eff_state := EffectApproved, eff_updated := je_now (je n)\<rparr>) s
           in case reconcile_effects je (n + 1) es t of
                ((err, out), u) \<Rightarrow> ((err, (eff_id e, cls, EffectApproved) # out), u)))"

definition ReconcileInDoubt ::
  "(nat \<Rightarrow> journal_env) \<Rightarrow> db \<Rightarrow>
   (error option \<times> (string \<times> effect_class \<times> effect_state) list) \<times> db" where
  "ReconcileInDoubt je s = reconcile_effects je 0 (InState EffectExecuting s) s"

section \<open>Sequences of operations\<close>

datatype journal_op =
    OpPropose "8 word list" proposal
  | OpApprove string string
  | OpBegin string
  | OpSucceed string raw
  | OpFail string raw
  | OpDeny string string string
  | OpMarkUnknown string string
  | OpReconcile

text \<open>One operation: the ids whose execution it began, and the state.\<close>

fun journal_step ::
  "(nat \<Rightarrow> journal_env) \<Rightarrow> journal_op \<Rightarrow> db \<Rightarrow> string list \<times> db" where
  "journal_step je (OpPropose drawn p) s = ([], snd (Propose (je 0) drawn p s))"
| "journal_step je (OpApprove eid approver) s = ([], snd (Approve (je 0) eid approver s))"
| "journal_step je (OpBegin eid) s =
     (case BeginExecute (je 0) eid s of (Inl _, t) \<Rightarrow> ([], t) | (Inr e, t) \<Rightarrow> ([eff_id e], t))"
| "journal_step je (OpSucceed eid result) s = ([], snd (Succeed (je 0) eid result s))"
| "journal_step je (OpFail eid result) s = ([], snd (Fail (je 0) eid result s))"
| "journal_step je (OpDeny eid actor reason) s = ([], snd (Deny (je 0) eid actor reason s))"
| "journal_step je (OpMarkUnknown eid note) s = ([], snd (MarkUnknown (je 0) eid note s))"
| "journal_step je OpReconcile s = ([], snd (ReconcileInDoubt je s))"

fun journal_run ::
  "((nat \<Rightarrow> journal_env) \<times> journal_op) list \<Rightarrow> db \<Rightarrow> string list \<times> db" where
  "journal_run [] s = ([], s)"
| "journal_run ((je, op) # ops) s =
     (let (begun, t) = journal_step je op s; (more, u) = journal_run ops t in (begun @ more, u))"

section \<open>The lifecycle of an effect\<close>

fun effect_edges :: "effect_state \<Rightarrow> effect_state list" where
  "effect_edges EffectProposed = [EffectApproved, EffectFailed]"
| "effect_edges EffectApproved = [EffectExecuting, EffectProposed]"
| "effect_edges EffectExecuting = [EffectSucceeded, EffectFailed, EffectUnknown, EffectApproved]"
| "effect_edges EffectSucceeded = []"
| "effect_edges EffectFailed = []"
| "effect_edges EffectUnknown = []"

definition effect_edge :: "effect_state \<Rightarrow> effect_state \<Rightarrow> bool" where
  "effect_edge a b \<longleftrightarrow> b \<in> set (effect_edges a)"

definition effect_final :: "effect_state \<Rightarrow> bool" where
  "effect_final st \<longleftrightarrow> st \<in> {EffectSucceeded, EffectFailed, EffectUnknown}"

interpretation effect_fsm: lifecycle effect_edge effect_final
  by unfold_locales (auto simp: effect_edge_def effect_final_def)

definition eff_ok :: "(string \<Rightarrow> string) \<Rightarrow> effect_row \<Rightarrow> bool" where
  "eff_ok sha e \<longleftrightarrow> eff_id e \<noteq> [] \<and>
     canonicalJSON (eff_payload e) = Some (eff_payload e) \<and>
     hashPayload sha (eff_payload e) = eff_hash e \<and>
     0 \<le> eff_attempts e \<and> eff_key e = (if eff_attempts e = 0 then [] else eff_id e) \<and>
     (eff_state e \<in> {EffectApproved, EffectExecuting, EffectSucceeded, EffectUnknown} \<longrightarrow>
        eff_approved_by e \<noteq> []) \<and>
     (eff_state e \<in> {EffectExecuting, EffectSucceeded, EffectUnknown} \<longrightarrow> 1 \<le> eff_attempts e) \<and>
     (eff_class e = ClassD \<longrightarrow> eff_attempts e \<le> 1 \<and>
        (eff_state e \<in> {EffectProposed, EffectApproved} \<longrightarrow> eff_attempts e = 0))"

definition eff_step :: "effect_row \<Rightarrow> effect_row \<Rightarrow> bool" where
  "eff_step e e' \<longleftrightarrow> eff_id e' = eff_id e \<and> eff_run e' = eff_run e \<and> eff_user e' = eff_user e \<and>
     eff_class e' = eff_class e \<and> eff_payload e' = eff_payload e \<and> eff_hash e' = eff_hash e \<and>
     effect_edge\<^sup>*\<^sup>* (eff_state e) (eff_state e') \<and> eff_attempts e \<le> eff_attempts e' \<and>
     (eff_key e \<noteq> [] \<longrightarrow> eff_key e' = eff_key e)"

definition journal_ok :: "(string \<Rightarrow> string) \<Rightarrow> db \<Rightarrow> bool" where
  "journal_ok sha s \<longleftrightarrow> effects_keyed (t_effects s) \<and> (\<forall>e\<in>set (t_effects s). eff_ok sha e)"

definition journal_keeps :: "(string \<Rightarrow> string) \<Rightarrow> db \<Rightarrow> db \<Rightarrow> bool" where
  "journal_keeps sha s t \<longleftrightarrow> (journal_ok sha s \<longrightarrow> journal_ok sha t \<and>
     (\<forall>e\<in>set (t_effects s). \<exists>e'\<in>set (t_effects t). eff_step e e'))"

lemma eff_step_refl: "eff_step e e"
  by (simp add: eff_step_def)

lemma eff_step_trans: "eff_step a b \<Longrightarrow> eff_step b c \<Longrightarrow> eff_step a c"
  by (auto simp: eff_step_def intro: rtranclp_trans)

interpretation journal: tx_frame "journal_keeps sha" for sha
proof unfold_locales
  show "journal_keeps sha s s" for s
    by (auto simp: journal_keeps_def intro: eff_step_refl)
  show "journal_keeps sha s t \<Longrightarrow> journal_keeps sha t u \<Longrightarrow> journal_keeps sha s u" for s t u
    unfolding journal_keeps_def by (metis eff_step_trans)
qed

lemma journal_keeps_same: "t_effects t = t_effects s \<Longrightarrow> journal_keeps sha s t"
  by (auto simp: journal_keeps_def journal_ok_def intro: eff_step_refl)

lemma find_effect_Some: "find_effect eid s = Some e \<Longrightarrow> e \<in> set (t_effects s) \<and> eff_id e = eid"
  by (auto simp: find_effect_def dest: tbl_find_Some)

lemma find_effect_iff:
  "journal_ok sha s \<Longrightarrow> find_effect eid s = Some e \<longleftrightarrow> e \<in> set (t_effects s) \<and> eff_id e = eid"
  by (simp add: find_effect_def journal_ok_def effects.find_key_iff)

text \<open>Writing the row(s) of one id: what the written row must satisfy.\<close>

lemma update_effects_keeps:
  assumes "\<And>e. e \<in> set (t_effects s) \<Longrightarrow> p e \<Longrightarrow> eff_ok sha e \<Longrightarrow> journal_ok sha s \<Longrightarrow>
    eff_ok sha (f e) \<and> eff_step e (f e)"
  shows "journal_keeps sha s (update_effects p f s)"
  unfolding journal_keeps_def
proof
  assume ok: "journal_ok sha s"
  have new: "eff_ok sha (f e) \<and> eff_step e (f e)" if "e \<in> set (t_effects s)" "p e" for e
    using assms [OF that] ok that by (simp add: journal_ok_def)
  have "map eff_id (tbl_update p f (t_effects s)) = map eff_id (t_effects s)"
    by (rule map_tbl_update_same) (use new in \<open>simp add: eff_step_def\<close>)
  then have "effects_keyed (tbl_update p f (t_effects s))"
    using ok by (simp add: journal_ok_def effects_keyed_def)
  moreover have "\<forall>e\<in>set (tbl_update p f (t_effects s)). eff_ok sha e"
    using new ok by (auto simp: set_tbl_update journal_ok_def)
  moreover have "\<exists>e'\<in>set (tbl_update p f (t_effects s)). eff_step e e'"
    if "e \<in> set (t_effects s)" for e
    using new [OF that] eff_step_refl [of e] that
    by (cases "p e") (force simp: set_tbl_update)+
  ultimately show "journal_ok sha (update_effects p f s) \<and>
      (\<forall>e\<in>set (t_effects s). \<exists>e'\<in>set (t_effects (update_effects p f s)). eff_step e e')"
    by (simp add: journal_ok_def)
qed

lemma set_effect_Inr [tx_simps]:
  "set_effect eid f s = Inr (x, t) \<longleftrightarrow> t = update_effects (\<lambda>e. eff_id e = eid) f s"
  by (simp add: set_effect_def tx_simps)

lemma set_effect_Inl [tx_simps]: "set_effect eid f s \<noteq> Inl e"
  by (simp add: set_effect_def tx_simps)

lemma find_effect_update:
  assumes "find_effect eid s = Some e" "eff_id (f e) = eid"
    and keep: "\<And>x. eff_id (f x) = eff_id x"
  shows "find_effect eid (update_effects (\<lambda>x. eff_id x = eid) f s) = Some (f e)"
proof -
  have "find (\<lambda>x. eff_id x = eid) xs = Some e \<Longrightarrow>
    find (\<lambda>x. eff_id x = eid) (map (\<lambda>x. if eff_id x = eid then f x else x) xs) = Some (f e)" for xs
    by (induction xs) (auto simp: keep split: if_splits)
  with assms(1) show ?thesis by (simp add: find_effect_def tbl_find_def tbl_update_def)
qed

text \<open>The same, for a row whose content the transaction has just read.\<close>

lemma set_effect_keeps:
  assumes "find_effect eid s = Some cur"
    and "eff_ok sha cur \<Longrightarrow> eff_ok sha (f cur) \<and> eff_step cur (f cur)"
  shows "journal_keeps sha s (update_effects (\<lambda>e. eff_id e = eid) f s)"
proof (rule update_effects_keeps)
  fix e assume e: "e \<in> set (t_effects s)" "eff_id e = eid" "eff_ok sha e" "journal_ok sha s"
  then have "e = cur" using assms(1) find_effect_iff [of sha s eid e] by simp
  with assms(2) e(3) show "eff_ok sha (f e) \<and> eff_step e (f e)" by simp
qed

section \<open>Every operation keeps the journal\<close>

lemma edge_once: "effect_edge a b \<Longrightarrow> effect_edge\<^sup>*\<^sup>* a b"
  by (rule r_into_rtranclp)

lemma effect_edge_simps [simp]:
  "effect_edge EffectProposed b \<longleftrightarrow> b = EffectApproved \<or> b = EffectFailed"
  "effect_edge EffectApproved b \<longleftrightarrow> b = EffectExecuting \<or> b = EffectProposed"
  "effect_edge EffectExecuting b \<longleftrightarrow>
     b = EffectSucceeded \<or> b = EffectFailed \<or> b = EffectUnknown \<or> b = EffectApproved"
  "\<not> effect_edge EffectSucceeded b" "\<not> effect_edge EffectFailed b" "\<not> effect_edge EffectUnknown b"
  by (auto simp: effect_edge_def)

lemma getEffectTx_Inr [tx_simps]:
  "getEffectTx eid s = Inr (e, t) \<longleftrightarrow> find_effect eid s = Some e \<and> t = s"
  by (simp add: getEffectTx_def tx_simps)

lemma getEffectTx_Inl [tx_simps]:
  "getEffectTx eid s = Inl err \<longleftrightarrow> find_effect eid s = None \<and> err = ErrEffectNotFound eid"
  by (auto simp: getEffectTx_def tx_simps)

lemma journal_write:
  assumes "\<And>x t. m s = Inr (x, t) \<Longrightarrow> journal_keeps sha s t"
  shows "journal_keeps sha s (snd (write_tx m s))"
  by (rule write_tx_cases [of m s]) (auto intro: assms journal.frame_refl)

text \<open>A method of the shape: read the row, check its state, write it.\<close>

lemma guarded_write_keeps:
  assumes "\<And>cur. find_effect eid s = Some cur \<Longrightarrow> eff_state cur = from \<Longrightarrow> eff_ok sha cur \<Longrightarrow>
    eff_ok sha (f cur) \<and> eff_step cur (f cur)"
  shows "journal_keeps sha s (snd (write_tx
    (tx_bind (getEffectTx eid) (\<lambda>cur.
       if eff_state cur \<noteq> from then tx_fail (err cur)
       else tx_bind (set_effect eid f) (\<lambda>_. getEffectTx eid))) s))"
proof (rule journal_write)
  fix x t
  assume "tx_bind (getEffectTx eid) (\<lambda>cur.
       if eff_state cur \<noteq> from then tx_fail (err cur)
       else tx_bind (set_effect eid f) (\<lambda>_. getEffectTx eid)) s = Inr (x, t)"
  then obtain cur where cur: "find_effect eid s = Some cur" "eff_state cur = from"
    and t: "t = update_effects (\<lambda>e. eff_id e = eid) f s"
    by (auto simp: tx_simps split: if_splits)
  show "journal_keeps sha s t"
    unfolding t by (rule set_effect_keeps [OF cur(1)]) (rule assms [OF cur])
qed

lemma Propose_keeps:
  assumes "je_sha je = sha"
  shows "journal_keeps sha s (snd (Propose je drawn p s))"
  unfolding Propose_def
proof (rule journal_write)
  fix x t
  assume "ProposeTx je drawn p s = Inr (x, t)"
  then obtain cls canonical where canonical: "canonicalJSON (pr_payload p) = Some canonical"
    and ins: "insert_effect (row_of_proposal je (newUUID drawn) cls canonical p) s = Inr ((), t)"
    by (auto simp: ProposeTx_def tx_simps split: if_splits option.splits)
  let ?e = "row_of_proposal je (newUUID drawn) cls canonical p"
  have t: "t = s\<lparr>t_effects := t_effects s @ [?e]\<rparr>" and new: "find_effect (eff_id ?e) s = None"
    and id: "eff_id ?e \<noteq> []"
    using ins by (auto simp: insert_effect_def split: if_splits)
  from new have "eff_id ?e \<notin> eff_id ` set (t_effects s)"
    by (auto simp: find_effect_def tbl_find_None)
  moreover have "eff_ok sha ?e"
    using canonicalJSON_idem [OF canonical] id assms by (simp add: eff_ok_def row_of_proposal_def)
  ultimately show "journal_keeps sha s t"
    by (auto simp: journal_keeps_def journal_ok_def effects_keyed_def t intro: eff_step_refl)
qed

lemma Approve_keeps: "journal_keeps sha s (snd (Approve je eid approver s))"
proof -
  let ?f = "\<lambda>e. e\<lparr>eff_state := EffectApproved, eff_approved_by := approver,
    eff_approved_ts := je_now je, eff_updated := je_now je\<rparr>"
  have "eff_ok sha (?f cur) \<and> eff_step cur (?f cur)"
    if "eff_state cur = EffectProposed" "eff_ok sha cur" "approver \<noteq> []" for cur
    using that by (auto simp: eff_ok_def eff_step_def intro: edge_once)
  then show ?thesis
    by (auto simp: Approve_def tx_simps journal.frame_refl
        split: if_splits option.splits intro!: journal_write set_effect_keeps)
qed

lemma BeginExecute_keeps: "journal_keeps sha s (snd (BeginExecute je eid s))"
proof -
  have reset: "eff_ok sha (reapproval_reset je cur) \<and> eff_step cur (reapproval_reset je cur)"
    if "eff_state cur = EffectApproved" "eff_ok sha cur" for cur
    using that by (auto simp: reapproval_reset_def eff_ok_def eff_step_def intro: edge_once)
  have exec: "eff_ok sha (executing_row je key cur) \<and> eff_step cur (executing_row je key cur)"
    if "eff_state cur = EffectApproved" "eff_ok sha cur"
      "key = (if eff_key cur = [] then eff_id cur else eff_key cur)" for cur key
    using that by (auto simp: executing_row_def eff_ok_def eff_step_def intro: edge_once split: if_splits)
  have "journal_keeps sha s (snd (write_tx (begin_tx je expiry eid) s))" for expiry
  proof (rule journal_write)
    fix x t
    assume "begin_tx je expiry eid s = Inr (x, t)"
    then obtain cur f where "find_effect eid s = Some cur" "eff_state cur = EffectApproved"
        "t = update_effects (\<lambda>e. eff_id e = eid) f s"
        "f = reapproval_reset je \<or>
         f = executing_row je (if eff_key cur = [] then eff_id cur else eff_key cur)"
      by (auto simp: begin_tx_def tx_simps split: if_splits option.splits)
    then show "journal_keeps sha s t"
      using reset exec by (auto intro!: set_effect_keeps)
  qed
  then show ?thesis
    by (auto simp: BeginExecute_def journal.frame_refl split: sum.splits prod.splits)
       (metis snd_conv)+
qed

lemma finish_keeps:
  assumes "effect_final to"
  shows "journal_keeps sha s (snd (finish je eid to result s))"
proof -
  let ?f = "\<lambda>e. e\<lparr>eff_state := to, eff_result := result, eff_updated := je_now je\<rparr>"
  have "eff_ok sha (?f cur) \<and> eff_step cur (?f cur)"
    if "eff_state cur = EffectExecuting" "eff_ok sha cur" for cur
    using that assms by (auto simp: eff_ok_def eff_step_def effect_final_def intro: edge_once)
  then show ?thesis
    unfolding finish_def
    by (auto simp: journal.frame_refl intro: guarded_write_keeps)
qed

lemma Deny_keeps: "journal_keeps sha s (snd (Deny je eid actor reason s))"
proof -
  let ?f = "\<lambda>e. e\<lparr>eff_state := EffectFailed, eff_result := denial_result actor reason,
    eff_updated := je_now je\<rparr>"
  have "eff_ok sha (?f cur) \<and> eff_step cur (?f cur)"
    if "eff_state cur = EffectProposed" "eff_ok sha cur" for cur
    using that by (auto simp: eff_ok_def eff_step_def intro: edge_once)
  then show ?thesis
    unfolding Deny_def
    by (auto simp: journal.frame_refl intro: guarded_write_keeps)
qed

text \<open>The replay edge is only taken by the classes other than D.\<close>

lemma reconcile_effects_keeps:
  assumes "\<And>e. e \<in> set es \<Longrightarrow> \<exists>e0\<in>set (t_effects s). eff_id e0 = eff_id e \<and> eff_class e0 = eff_class e"
  shows "journal_keeps sha s (snd (reconcile_effects je n es s))"
  using assms
proof (induction es arbitrary: n s)
  case Nil
  then show ?case by (simp add: journal.frame_refl)
next
  case (Cons e es)
  have carry: "\<exists>e0\<in>set (t_effects t). eff_id e0 = eff_id x \<and> eff_class e0 = eff_class x"
    if "journal_keeps sha s t" "journal_ok sha s" "x \<in> set es" for t x
    using Cons.prems [of x] that by (force simp: journal_keeps_def eff_step_def)
  have next_keeps: "journal_keeps sha s (snd (reconcile_effects je m es t))"
    if t: "journal_keeps sha s t" for t m
  proof (cases "journal_ok sha s")
    case True
    have "journal_keeps sha t (snd (reconcile_effects je m es t))"
      by (rule Cons.IH) (rule carry [OF t True])
    then show ?thesis by (rule journal.frame_trans [OF t])
  next
    case False
    then show ?thesis by (simp add: journal_keeps_def)
  qed
  have D: "journal_keeps sha s (snd (MarkUnknown je' (eff_id e) msg s))" for je' msg
    unfolding MarkUnknown_def by (rule finish_keeps) (simp add: effect_final_def)
  have replay: "journal_keeps sha s (update_effects
      (\<lambda>r. eff_id r = eff_id e \<and> eff_state r = EffectExecuting)
      (\<lambda>r. r\<lparr>eff_state := EffectApproved, eff_updated := now\<rparr>) s)"
    if cls: "eff_class e \<noteq> ClassD" for now
  proof (rule update_effects_keeps)
    fix r
    assume r: "r \<in> set (t_effects s)" "eff_id r = eff_id e \<and> eff_state r = EffectExecuting"
      "eff_ok sha r" "journal_ok sha s"
    obtain e0 where "e0 \<in> set (t_effects s)" "eff_id e0 = eff_id e" "eff_class e0 = eff_class e"
      using Cons.prems [of e] by auto
    with r have "eff_class r = eff_class e"
      using effects.key_unique [of "t_effects s" r e0] by (auto simp: journal_ok_def)
    with r cls show "eff_ok sha (r\<lparr>eff_state := EffectApproved, eff_updated := now\<rparr>) \<and>
        eff_step r (r\<lparr>eff_state := EffectApproved, eff_updated := now\<rparr>)"
      by (auto simp: eff_ok_def eff_step_def intro: edge_once)
  qed
  show ?case
  proof (cases "eff_class e = ClassD")
    case True
    obtain r t where m: "MarkUnknown (je n) (eff_id e) crash_window_note s = (r, t)"
      by (cases "MarkUnknown (je n) (eff_id e) crash_window_note s")
    have t: "journal_keeps sha s t" using D [of "je n" crash_window_note] m by simp
    show ?thesis
      using True m t next_keeps [OF t, of "n + 1"]
      by (cases r; cases "reconcile_effects je (n + 1) es t") auto
  next
    case False
    then have "snd (reconcile_effects je n (e # es) s) = snd (reconcile_effects je (n + 1) es
        (update_effects (\<lambda>r. eff_id r = eff_id e \<and> eff_state r = EffectExecuting)
          (\<lambda>r. r\<lparr>eff_state := EffectApproved, eff_updated := je_now (je n)\<rparr>) s))"
      by (cases "eff_class e") (simp_all add: Let_def split: prod.splits)
    with next_keeps [OF replay [OF False]] show ?thesis by simp
  qed
qed

lemma ReconcileInDoubt_keeps: "journal_keeps sha s (snd (ReconcileInDoubt je s))"
  unfolding ReconcileInDoubt_def
  by (rule reconcile_effects_keeps) (auto simp: InState_def)

lemma journal_step_keeps:
  assumes "je_sha (je 0) = sha"
  shows "journal_keeps sha s (snd (journal_step je op s))"
proof (cases op)
  case (OpBegin eid)
  then show ?thesis
    using BeginExecute_keeps [of sha s "je 0" eid] by (auto split: sum.splits prod.splits)
qed (auto simp: Succeed_def Fail_def MarkUnknown_def effect_final_def
    intro: Propose_keeps assms Approve_keeps finish_keeps Deny_keeps ReconcileInDoubt_keeps)

lemma journal_run_keeps:
  "\<forall>(je, op)\<in>set ops. je_sha (je 0) = sha \<Longrightarrow> journal_keeps sha s (snd (journal_run ops s))"
proof (induction ops arbitrary: s)
  case Nil
  then show ?case by (simp add: journal.frame_refl)
next
  case (Cons x ops)
  obtain je op where x: "x = (je, op)" by (cases x)
  with Cons.prems have "journal_keeps sha s (snd (journal_step je op s))"
    by (auto intro: journal_step_keeps)
  with Cons x show ?case
    by (auto split: prod.splits) (metis journal.frame_trans snd_conv)
qed

lemma empty_journal_ok: "journal_ok sha empty_db"
  by (simp add: journal_ok_def effects_keyed_def empty_db_def)

section \<open>Counting executions\<close>

definition attempts_of :: "string \<Rightarrow> db \<Rightarrow> int" where
  "attempts_of eid s = (case find_effect eid s of None \<Rightarrow> 0 | Some e \<Rightarrow> eff_attempts e)"

lemma find_effect_update_any:
  assumes keep: "\<And>x. eff_id (f x) = eff_id x"
  shows "find_effect eid (update_effects p f s) =
    map_option (\<lambda>e. if p e then f e else e) (find_effect eid s)"
proof -
  have "find (\<lambda>x. eff_id x = eid) (map (\<lambda>x. if p x then f x else x) xs) =
    map_option (\<lambda>e. if p e then f e else e) (find (\<lambda>x. eff_id x = eid) xs)" for xs
    by (induction xs) (auto simp: keep)
  then show ?thesis by (simp add: find_effect_def tbl_find_def tbl_update_def)
qed

lemma attempts_update_same:
  "(\<And>e. eff_id (f e) = eff_id e) \<Longrightarrow> (\<And>e. eff_attempts (f e) = eff_attempts e) \<Longrightarrow>
   attempts_of eid (update_effects p f s) = attempts_of eid s"
  by (auto simp: attempts_of_def find_effect_update_any split: option.splits)

lemma attempts_write_same:
  assumes "\<And>x t. m s = Inr (x, t) \<Longrightarrow> attempts_of eid t = attempts_of eid s"
  shows "attempts_of eid (snd (write_tx m s)) = attempts_of eid s"
  by (rule write_tx_cases [of m s]) (auto intro: assms)

lemma find_effect_append:
  "find_effect eid (s\<lparr>t_effects := t_effects s @ [e]\<rparr>) = (case find_effect eid s of
     None \<Rightarrow> if eff_id e = eid then Some e else None | Some x \<Rightarrow> Some x)"
  by (auto simp: find_effect_def tbl_find_def find_append split: option.split)

lemma attempts_Propose: "attempts_of eid (snd (Propose je drawn p s)) = attempts_of eid s"
  unfolding Propose_def
  by (rule attempts_write_same)
     (auto simp: ProposeTx_def tx_simps insert_effect_def row_of_proposal_def attempts_of_def
       find_effect_append split: if_splits option.splits)

lemma attempts_Approve: "attempts_of eid (snd (Approve je eid' approver s)) = attempts_of eid s"
  by (auto simp: Approve_def tx_simps attempts_update_same
      split: if_splits option.splits intro!: attempts_write_same)

lemma attempts_finish: "attempts_of eid (snd (finish je eid' to result s)) = attempts_of eid s"
  by (auto simp: finish_def tx_simps attempts_update_same
      split: if_splits intro!: attempts_write_same)

lemma attempts_Deny: "attempts_of eid (snd (Deny je eid' actor reason s)) = attempts_of eid s"
  by (auto simp: Deny_def tx_simps attempts_update_same
      split: if_splits intro!: attempts_write_same)

lemma attempts_reconcile:
  "attempts_of eid (snd (reconcile_effects je n es s)) = attempts_of eid s"
proof (induction es arbitrary: n s)
  case Nil
  then show ?case by simp
next
  case (Cons e es)
  show ?case
  proof (cases "eff_class e = ClassD")
    case True
    obtain r t where m: "MarkUnknown (je n) (eff_id e) crash_window_note s = (r, t)"
      by (cases "MarkUnknown (je n) (eff_id e) crash_window_note s")
    then have "attempts_of eid t = attempts_of eid s"
      using attempts_finish [of eid "je n" "eff_id e" EffectUnknown] by (metis MarkUnknown_def snd_conv)
    then show ?thesis
      using True m Cons.IH [of "n + 1" t]
      by (cases r; cases "reconcile_effects je (n + 1) es t") auto
  next
    case False
    then have "snd (reconcile_effects je n (e # es) s) = snd (reconcile_effects je (n + 1) es
        (update_effects (\<lambda>r. eff_id r = eff_id e \<and> eff_state r = EffectExecuting)
          (\<lambda>r. r\<lparr>eff_state := EffectApproved, eff_updated := je_now (je n)\<rparr>) s))"
      by (cases "eff_class e") (simp_all add: Let_def split: prod.splits)
    with Cons.IH show ?thesis by (simp add: attempts_update_same)
  qed
qed

text \<open>What a successful \<open>BeginExecute\<close> found and what it wrote.\<close>

lemma BeginExecute_Inr:
  assumes "BeginExecute je eid s = (Inr e, t)"
  shows "\<exists>cur expiry canonical. find_effect eid s = Some cur \<and> eff_state cur = EffectApproved \<and>
    set_duration (je_settings je) keyApprovalExpiry = Some expiry \<and>
    time_sub (je_now je) (eff_approved_ts cur) \<le> expiry \<and>
    canonicalJSON (eff_payload cur) = Some canonical \<and>
    hashPayload (je_sha je) canonical = eff_hash cur \<and>
    e = executing_row je (if eff_key cur = [] then eff_id cur else eff_key cur) cur \<and>
    t = update_effects (\<lambda>x. eff_id x = eid)
          (executing_row je (if eff_key cur = [] then eff_id cur else eff_key cur)) s \<and>
    find_effect eid t = Some e"
proof -
  obtain expiry where expiry: "set_duration (je_settings je) keyApprovalExpiry = Some expiry"
    and w: "write_tx (begin_tx je expiry eid) s = (Inr (Inr e), t)"
    using assms by (auto simp: BeginExecute_def read_duration_def
        split: sum.splits prod.splits option.splits)
  then have "begin_tx je expiry eid s = Inr (Inr e, t)"
    by (auto simp: write_tx_def split: sum.splits prod.splits)
  then obtain cur canonical where cur: "find_effect eid s = Some cur"
    and body: "eff_state cur = EffectApproved"
      "time_sub (je_now je) (eff_approved_ts cur) \<le> expiry"
      "canonicalJSON (eff_payload cur) = Some canonical"
      "hashPayload (je_sha je) canonical = eff_hash cur"
      "t = update_effects (\<lambda>x. eff_id x = eid)
          (executing_row je (if eff_key cur = [] then eff_id cur else eff_key cur)) s"
      "find_effect eid t = Some e"
    by (auto simp: begin_tx_def tx_simps split: if_splits option.splits)
  have "find_effect eid t = Some (executing_row je (if eff_key cur = [] then eff_id cur else eff_key cur) cur)"
    unfolding body(5) using find_effect_Some [OF cur]
    by (intro find_effect_update [OF cur]) (simp_all add: executing_row_def)
  with body expiry cur show ?thesis by auto
qed

lemma attempts_Begin:
  "attempts_of eid (snd (journal_step je (OpBegin eid') s)) =
   attempts_of eid s + int (count_list (fst (journal_step je (OpBegin eid') s)) eid)"
proof (cases "BeginExecute (je 0) eid' s")
  case (Pair r t)
  show ?thesis
  proof (cases r)
    case (Inl err)
    have committed: "attempts_of eid u = attempts_of eid s"
      if "begin_tx (je 0) expiry eid' s = Inr (Inl err, u)" for expiry u
      using that by (auto simp: begin_tx_def tx_simps attempts_update_same reapproval_reset_def
          split: if_splits option.splits)
    from Pair Inl have "t = s \<or> (\<exists>expiry. begin_tx (je 0) expiry eid' s = Inr (Inl err, t))"
      by (auto simp: BeginExecute_def write_tx_def split: sum.splits prod.splits)
    with committed Pair Inl show ?thesis by auto
  next
    case (Inr e)
    from BeginExecute_Inr [OF Pair [unfolded Inr]] obtain cur key
      where cur: "find_effect eid' s = Some cur" and e: "e = executing_row (je 0) key cur"
        and t: "t = update_effects (\<lambda>x. eff_id x = eid') (executing_row (je 0) key) s"
      by blast
    have id: "eff_id cur = eid'" using find_effect_Some [OF cur] by simp
    have "find_effect eid t = map_option (\<lambda>x. if eff_id x = eid' then executing_row (je 0) key x else x)
        (find_effect eid s)"
      unfolding t by (rule find_effect_update_any) (simp add: executing_row_def)
    then have "attempts_of eid t = attempts_of eid s + (if eid = eid' then 1 else 0)"
      using cur id find_effect_Some [of eid s]
      by (auto simp: attempts_of_def executing_row_def split: option.splits)
    with Pair Inr e id show ?thesis by (simp add: executing_row_def)
  qed
qed

lemma attempts_step:
  "attempts_of eid (snd (journal_step je op s)) =
   attempts_of eid s + int (count_list (fst (journal_step je op s)) eid)"
proof (cases op)
  case (OpBegin eid')
  then show ?thesis using attempts_Begin by blast
qed (simp_all add: attempts_Propose attempts_Approve attempts_finish attempts_Deny Succeed_def
    Fail_def MarkUnknown_def ReconcileInDoubt_def attempts_reconcile)

lemma attempts_run:
  "attempts_of eid (snd (journal_run ops s)) =
   attempts_of eid s + int (count_list (fst (journal_run ops s)) eid)"
proof (induction ops arbitrary: s)
  case Nil
  then show ?case by simp
next
  case (Cons x ops)
  obtain je op where x: "x = (je, op)" by (cases x)
  obtain begun t where step: "journal_step je op s = (begun, t)" by fastforce
  obtain more u where rest: "journal_run ops t = (more, u)" by fastforce
  show ?case
    using Cons.IH [of t] attempts_step [of eid je op s] by (simp add: x step rest)
qed

section \<open>Resolving the in-doubt rows\<close>

definition settled_state :: "effect_class \<Rightarrow> effect_state" where
  "settled_state cls = (if cls = ClassD then EffectUnknown else EffectApproved)"

text \<open>The whole row after the pass: state and time, and for class D the card for a human.\<close>

definition settled_row :: "time \<Rightarrow> effect_row \<Rightarrow> effect_row" where
  "settled_row now e = (if eff_class e = ClassD
     then e\<lparr>eff_state := EffectUnknown, eff_result := unknown_card crash_window_note, eff_updated := now\<rparr>
     else e\<lparr>eff_state := EffectApproved, eff_updated := now\<rparr>)"

lemma MarkUnknown_executing:
  assumes "find_effect eid s = Some cur" "eff_state cur = EffectExecuting"
  shows "\<exists>e. MarkUnknown je eid msg s = (Inr e, update_effects (\<lambda>x. eff_id x = eid)
     (\<lambda>x. x\<lparr>eff_state := EffectUnknown, eff_result := unknown_card msg, eff_updated := je_now je\<rparr>) s)"
proof -
  let ?f = "\<lambda>x. x\<lparr>eff_state := EffectUnknown, eff_result := unknown_card msg, eff_updated := je_now je\<rparr>"
  have "find_effect eid (update_effects (\<lambda>x. eff_id x = eid) ?f s) = Some (?f cur)"
    using find_effect_Some [OF assms(1)] by (intro find_effect_update [OF assms(1)]) simp_all
  with assms show ?thesis
    by (simp add: MarkUnknown_def finish_def unknown_card_def write_tx_def tx_bind_def
        getEffectTx_def tx_some_def set_effect_def tx_modify_def)
qed

lemma reconcile_effects_spec:
  assumes "distinct (map eff_id es)"
    and "\<And>e. e \<in> set es \<Longrightarrow> find_effect (eff_id e) s = Some e \<and> eff_state e = EffectExecuting"
  shows "\<exists>out u. reconcile_effects je n es s = ((None, out), u) \<and>
    out = map (\<lambda>e. (eff_id e, eff_class e, settled_state (eff_class e))) es \<and>
    (\<forall>eid. eid \<notin> eff_id ` set es \<longrightarrow> find_effect eid u = find_effect eid s) \<and>
    (\<forall>e\<in>set es. \<exists>k. find_effect (eff_id e) u = Some (settled_row (je_now (je k)) e)) \<and>
    (\<exists>rows. u = s\<lparr>t_effects := rows\<rparr>)"
  using assms
proof (induction es arbitrary: n s)
  case Nil
  show ?case by (auto intro!: exI [of _ "t_effects s"])
next
  case (Cons e es)
  have e: "find_effect (eff_id e) s = Some e" "eff_state e = EffectExecuting"
    using Cons.prems(2) [of e] by simp_all
  obtain f t q where f: "\<And>x. eff_id (f x) = eff_id x" "f e = settled_row (je_now (je n)) e"
    and q: "\<And>x. q x \<Longrightarrow> eff_id x = eff_id e" "q e"
    and t: "t = update_effects q f s"
    and unfold: "reconcile_effects je n (e # es) s =
      (case reconcile_effects je (n + 1) es t of
         ((err, out), u) \<Rightarrow> ((err, (eff_id e, eff_class e, settled_state (eff_class e)) # out), u))"
  proof (cases "eff_class e = ClassD")
    case True
    obtain e' where "MarkUnknown (je n) (eff_id e) crash_window_note s = (Inr e',
        update_effects (\<lambda>x. eff_id x = eff_id e) (\<lambda>x. x\<lparr>eff_state := EffectUnknown,
          eff_result := unknown_card crash_window_note, eff_updated := je_now (je n)\<rparr>) s)"
      using MarkUnknown_executing [OF e] by blast
    with True show ?thesis
      by (intro that [of "\<lambda>x. x\<lparr>eff_state := EffectUnknown,
          eff_result := unknown_card crash_window_note, eff_updated := je_now (je n)\<rparr>"
          "\<lambda>x. eff_id x = eff_id e"]) (simp_all add: settled_state_def settled_row_def)
  next
    case False
    with e(2) show ?thesis
      by (intro that [of "\<lambda>r. r\<lparr>eff_state := EffectApproved, eff_updated := je_now (je n)\<rparr>"
          "\<lambda>r. eff_id r = eff_id e \<and> eff_state r = EffectExecuting"])
         (cases "eff_class e"; simp add: settled_state_def settled_row_def Let_def)+
  qed
  have found: "find_effect eid t = map_option (\<lambda>x. if q x then f x else x) (find_effect eid s)" for eid
    unfolding t by (rule find_effect_update_any) (rule f)
  have other: "find_effect eid t = find_effect eid s" if "eid \<noteq> eff_id e" for eid
    using found [of eid] q(1) find_effect_Some [of eid s] that
    by (cases "find_effect eid s") auto
  have fe: "find_effect (eff_id e) t = Some (f e)" using found [of "eff_id e"] e(1) q(2) by simp
  have "find_effect (eff_id x) t = Some x \<and> eff_state x = EffectExecuting" if x: "x \<in> set es" for x
  proof -
    have "eff_id x \<noteq> eff_id e" using Cons.prems(1) x by (auto simp: image_iff)
    with Cons.prems(2) [of x] x other show ?thesis by simp
  qed
  with Cons.IH [of t "n + 1"] Cons.prems(1) obtain out u
    where IH: "reconcile_effects je (n + 1) es t = ((None, out), u)"
      "out = map (\<lambda>e. (eff_id e, eff_class e, settled_state (eff_class e))) es"
      "\<forall>eid. eid \<notin> eff_id ` set es \<longrightarrow> find_effect eid u = find_effect eid t"
      "\<forall>e\<in>set es. \<exists>k. find_effect (eff_id e) u = Some (settled_row (je_now (je k)) e)"
      "\<exists>rows. u = t\<lparr>t_effects := rows\<rparr>" by auto
  have "find_effect (eff_id e) u = Some (settled_row (je_now (je n)) e)" using IH(3) fe f(2) Cons.prems(1) by auto
  moreover have "\<exists>rows. u = s\<lparr>t_effects := rows\<rparr>" using IH(5) by (auto simp: t update_effects_def)
  ultimately show ?case using IH(1-4) unfold other by auto
qed

text \<open>The pass succeeds, reports every executing row and leaves none behind.\<close>

lemma ReconcileInDoubt_spec:
  assumes ok: "journal_ok sha s"
  shows "\<exists>out u. ReconcileInDoubt je s = ((None, out), u) \<and>
    (\<forall>eid. eid \<in> fst ` set out \<longleftrightarrow> (\<exists>e. find_effect eid s = Some e \<and> eff_state e = EffectExecuting)) \<and>
    (\<forall>eid e. find_effect eid s = Some e \<and> eff_state e = EffectExecuting \<longrightarrow>
       (\<exists>k. find_effect eid u = Some (settled_row (je_now (je k)) e))) \<and>
    (\<forall>eid. (\<forall>e. find_effect eid s = Some e \<longrightarrow> eff_state e \<noteq> EffectExecuting) \<longrightarrow>
       find_effect eid u = find_effect eid s) \<and>
    (\<exists>rows. u = s\<lparr>t_effects := rows\<rparr>)"
proof -
  let ?es = "InState EffectExecuting s"
  have mem: "e \<in> set ?es \<longleftrightarrow> find_effect (eff_id e) s = Some e \<and> eff_state e = EffectExecuting" for e
    using find_effect_iff [OF ok, of "eff_id e" e] by (auto simp: InState_def)
  have "inj_on eff_id (set (t_effects s))" and "distinct (t_effects s)"
    using ok by (auto simp: journal_ok_def effects_keyed_def distinct_map)
  then have "distinct (map eff_id ?es)"
    by (auto simp: InState_def distinct_map inj_on_def)
  from reconcile_effects_spec [OF this, of s je 0] mem obtain out u where r:
      "reconcile_effects je 0 ?es s = ((None, out), u)"
      "out = map (\<lambda>e. (eff_id e, eff_class e, settled_state (eff_class e))) ?es"
      "\<forall>eid. eid \<notin> eff_id ` set ?es \<longrightarrow> find_effect eid u = find_effect eid s"
      "\<forall>e\<in>set ?es. \<exists>k. find_effect (eff_id e) u = Some (settled_row (je_now (je k)) e)"
      "\<exists>rows. u = s\<lparr>t_effects := rows\<rparr>" by auto
  have key: "eid \<in> eff_id ` set ?es \<longleftrightarrow> (\<exists>e. find_effect eid s = Some e \<and> eff_state e = EffectExecuting)"
    for eid using mem find_effect_Some by (metis image_iff)
  have out: "fst ` set out = eff_id ` set ?es" using r(2) by (simp add: image_image)
  have "\<exists>k. find_effect eid u = Some (settled_row (je_now (je k)) e)"
    if "find_effect eid s = Some e" "eff_state e = EffectExecuting" for eid e
    using that mem [of e] find_effect_Some [OF that(1)] r(4) by auto
  moreover have "find_effect eid u = find_effect eid s"
    if "\<forall>e. find_effect eid s = Some e \<longrightarrow> eff_state e \<noteq> EffectExecuting" for eid
    using that key [of eid] r(3) by auto
  ultimately show ?thesis using r(1,5) key by (auto simp: ReconcileInDoubt_def out)
qed

end
