(* ===== verification/Ladder_Card.thy ===== *)
theory Ladder_Card
  imports Run_Invariant
begin

text \<open>
  \<open>internal/recovery/laddercard.go\<close>: the durable card a terminal ladder decision leaves behind.  It
  is an open row of \<open>asks\<close> under an id derived from the run id, written with the terminal
  transition, and it moves the owning task to \<open>attention\<close>.  Time formatting is a parameter
  (\<open>time.Format\<close>).
\<close>

definition LadderAskPrefix :: string where "LadderAskPrefix = ''ask-ladder-''"

definition LadderAskID :: "string \<Rightarrow> string" where
  "LadderAskID rid = LadderAskPrefix @ rid"

definition CardTombstoneReview :: string where "CardTombstoneReview = ''tombstone-review''"
definition CardFinalizeWithCard :: string where "CardFinalizeWithCard = ''finalize-with-card''"
definition VerbRetry :: string where "VerbRetry = ''retry''"
definition VerbCancel :: string where "VerbCancel = ''cancel''"

record ladder_sla =
  sla_class :: string
  sla_remind :: int
  sla_push :: int

record ladder_card =
  lc_card :: string
  lc_task :: string
  lc_run :: string
  lc_birth :: string
  lc_generation :: int
  lc_attempts :: int
  lc_ground :: string
  lc_cause :: string
  lc_issued :: string
  lc_sla :: ladder_sla
  lc_summary :: string
  lc_detail :: "string list"
  lc_choices :: "string list"
  lc_ask :: string

text \<open>\<open>json.Marshal\<close> of the card, in field order.\<close>

definition card_json :: "ladder_card \<Rightarrow> json" where
  "card_json c = JObj
     ([(''kind'', JStr ''decision_card''), (''card'', JStr (lc_card c))] @
      opt_str ''task_id'' (lc_task c) @
      [(''run_id'', JStr (lc_run c)), (''lineage_birth_run_id'', JStr (lc_birth c)),
       (''generation'', json_int (lc_generation c)),
       (''recovery_attempts'', json_int (lc_attempts c)), (''ground'', JStr (lc_ground c))] @
      opt_str ''last_crash_cause'' (lc_cause c) @
      [(''issued_ts'', JStr (lc_issued c)),
       (''sla'', JObj ([(''class'', JStr (sla_class (lc_sla c)))] @
          opt_int ''remind_after_hours'' (sla_remind (lc_sla c)) @
          opt_int ''push_after_hours'' (sla_push (lc_sla c)))),
       (''summary'', JStr (lc_summary c))] @
      (if lc_detail c = [] then [] else [(''detail'', JArr (map JStr (lc_detail c)))]) @
      [(''choices'', JArr (map JStr (lc_choices c))), (''ask_id'', JStr (lc_ask c))])"

text \<open>\<open>LoadOpenLadderCard\<close>; the typed decode of \<open>json.Unmarshal\<close> is a parameter.\<close>

definition LoadOpenLadderCard ::
  "(raw \<Rightarrow> 'c option) \<Rightarrow> string \<Rightarrow> db \<Rightarrow> error + ('c \<times> string)" where
  "LoadOpenLadderCard decode aid s =
     (case tbl_find (\<lambda>a. ask_id a = aid \<and> ask_status a = ''open'') (t_asks s) of
        None \<Rightarrow> Inl (NoOpenLadderCard aid)
      | Some a \<Rightarrow> (case decode (ask_snapshot a) of
            None \<Rightarrow> Inl (UndecodableCard aid)
          | Some c \<Rightarrow> Inr (c, ask_user a)))"

definition cardSLA :: "settings \<Rightarrow> error + ladder_sla" where
  "cardSLA cfg = (case read_int cfg ''verification.card_remind_hours'' of
       Inl e \<Rightarrow> Inl e
     | Inr remind \<Rightarrow> (case read_int cfg ''verification.card_push_hours'' of
           Inl e \<Rightarrow> Inl e
         | Inr push \<Rightarrow> Inr \<lparr>sla_class = ''approval'', sla_remind = remind, sla_push = push\<rparr>))"

definition live_state :: "run_state \<Rightarrow> bool" where
  "live_state st \<longleftrightarrow> st \<in> {StateNew, StateQueued, StateClaimed, StateRunning, StateDraining, StateParked}"

definition attentionTx :: "run_row \<Rightarrow> unit dbtx" where
  "attentionTx r =
     (if run_task r = [] then tx_return ()
      else tx_modify (\<lambda>s. s\<lparr>t_tasks := tbl_update
        (\<lambda>t. task_id t = run_task r \<and> task_kanban t \<notin> {''done'', ''cancelled''} \<and>
             \<not> list_ex (\<lambda>x. run_task x = run_task r \<and> run_id x \<noteq> run_id r \<and> live_state (run_state x))
                 (t_runs s))
        (\<lambda>t. t\<lparr>task_kanban := ''attention''\<rparr>) (t_tasks s)\<rparr>))"

text \<open>The bounded walk to the birth of a lineage.\<close>

fun lineage_walk :: "nat \<Rightarrow> db \<Rightarrow> string \<Rightarrow> string \<Rightarrow> string" where
  "lineage_walk 0 s rid parent = rid"
| "lineage_walk (Suc n) s rid parent =
     (if parent = [] then rid
      else case find_run parent s of
        None \<Rightarrow> parent
      | Some p \<Rightarrow> lineage_walk n s parent (run_parent p))"

definition lineageBirthTx :: "run_row \<Rightarrow> string dbtx" where
  "lineageBirthTx r = tx_read (\<lambda>s. lineage_walk 64 s (run_id r) (run_parent r))"

definition crash_events :: "string \<Rightarrow> db \<Rightarrow> event_row list" where
  "crash_events rid s = sort_key (\<lambda>e. - ev_seq e) (filter (\<lambda>e. ev_run e = rid \<and>
     ev_type e = EventState \<and> json_extract (ev_payload e) [''to''] = Some ''crashed'') (t_events s))"

definition lastCrashCauseTx :: "string \<Rightarrow> string dbtx" where
  "lastCrashCauseTx rid = tx_read (\<lambda>s. case crash_events rid s of
       [] \<Rightarrow> []
     | e # _ \<Rightarrow>
         (case json_extract (ev_payload e) [''detail'', ''cause''] of
            Some cause \<Rightarrow> if cause \<noteq> [] then cause
              else (case json_extract (ev_payload e) [''reason''] of None \<Rightarrow> [] | Some r \<Rightarrow> r)
          | None \<Rightarrow> (case json_extract (ev_payload e) [''reason''] of None \<Rightarrow> [] | Some r \<Rightarrow> r)))"

text \<open>The INSERT with the constraints of the \<open>asks\<close> table.\<close>

definition insert_ask :: "ask_row \<Rightarrow> unit dbtx" where
  "insert_ask a = (\<lambda>s.
     if ask_id a \<noteq> [] \<and> ask_user a \<noteq> [] \<and> ask_status a \<noteq> [] \<and> has_run (ask_run a) s \<and>
        \<not> list_ex (\<lambda>x. ask_id x = ask_id a) (t_asks s)
     then Inr ((), s\<lparr>t_asks := t_asks s @ [a]\<rparr>)
     else Inl (ConstraintFailed ''asks''))"

definition cardVerbHelp :: "string list" where
  "cardVerbHelp = [''Answer `retry` to start a fresh attempt with a full budget again, or `cancel` to '' @
     ''end the task.'']"

definition ladder_card_of ::
  "run_row \<Rightarrow> string \<Rightarrow> string \<Rightarrow> string \<Rightarrow> string list \<Rightarrow> ladder_sla \<Rightarrow> string \<Rightarrow> string \<Rightarrow> string \<Rightarrow>
   ladder_card" where
  "ladder_card_of r kind ground summary detail sla birth cause issued =
     \<lparr>lc_card = kind, lc_task = run_task r, lc_run = run_id r, lc_birth = birth,
      lc_generation = run_generation r, lc_attempts = run_attempts r, lc_ground = ground,
      lc_cause = cause, lc_issued = issued, lc_sla = sla, lc_summary = summary,
      lc_detail = detail @ cardVerbHelp @
        (if cause \<noteq> [] then [''What the last attempt reported: '' @ cause] else []),
      lc_choices = [VerbRetry, VerbCancel], lc_ask = LadderAskID (run_id r)\<rparr>"

definition terminalCardTx ::
  "settings \<Rightarrow> time \<Rightarrow> (time \<Rightarrow> string) \<Rightarrow> run_row \<Rightarrow> string \<Rightarrow> string \<Rightarrow> string \<Rightarrow> string list \<Rightarrow>
   string dbtx" where
  "terminalCardTx cfg now format r kind ground summary detail =
     tx_bind (tx_lift (cardSLA cfg)) (\<lambda>sla.
     tx_bind (lineageBirthTx r) (\<lambda>birth.
     tx_bind (lastCrashCauseTx (run_id r)) (\<lambda>cause.
     tx_bind (insert_ask
       \<lparr>ask_id = LadderAskID (run_id r), ask_run = run_id r, ask_user = run_user r,
        ask_snapshot = marshal (card_json
          (ladder_card_of r kind ground summary detail sla birth cause (format now))),
        ask_status = ''open'', ask_observed = now, ask_answered = 0, ask_engine_expiry = 0\<rparr>) (\<lambda>_.
     tx_bind (attentionTx r) (\<lambda>_.
     tx_return (LadderAskID (run_id r)))))))"

section \<open>Lemmas\<close>

lemma LadderAskID_inj: "LadderAskID a = LadderAskID b \<longleftrightarrow> a = b"
  by (simp add: LadderAskID_def)

lemma insert_ask_Inr [tx_simps]:
  "insert_ask a s = Inr (x, t) \<longleftrightarrow> ask_id a \<noteq> [] \<and> ask_user a \<noteq> [] \<and> ask_status a \<noteq> [] \<and>
     has_run (ask_run a) s \<and> (\<forall>x\<in>set (t_asks s). ask_id x \<noteq> ask_id a) \<and>
     t = s\<lparr>t_asks := t_asks s @ [a]\<rparr>"
  by (auto simp: insert_ask_def list_ex_iff)

text \<open>A card that commits touches only the asks and the tasks, and is an open ask of its run.\<close>

lemma terminalCardTx_Inr:
  assumes "terminalCardTx cfg now format r kind ground summary detail s = Inr (aid, t)"
  obtains a where "aid = LadderAskID (run_id r)" "t_asks t = t_asks s @ [a]"
    "ask_id a = LadderAskID (run_id r)" "ask_run a = run_id r" "ask_user a = run_user r"
    "ask_status a = ''open''" "ask_answered a = 0"
    "t_runs t = t_runs s" "t_events t = t_events s" "t_queue t = t_queue s" "t_effects t = t_effects s"
    "t_checkpoints t = t_checkpoints s"
    "json_extract (ask_snapshot a) [''run_id''] = Some (run_id r)"
    "json_extract (ask_snapshot a) [''card''] = Some kind"
    "\<forall>x\<in>set (t_asks s). ask_id x \<noteq> LadderAskID (run_id r)"
proof -
  from assms obtain sla birth cause u where
    ins: "insert_ask \<lparr>ask_id = LadderAskID (run_id r), ask_run = run_id r, ask_user = run_user r,
        ask_snapshot = marshal (card_json
          (ladder_card_of r kind ground summary detail sla birth cause (format now))),
        ask_status = ''open'', ask_observed = now, ask_answered = 0, ask_engine_expiry = 0\<rparr> s = Inr ((), u)"
    and att: "attentionTx r u = Inr ((), t)" and aid: "aid = LadderAskID (run_id r)"
    by (auto simp: terminalCardTx_def tx_bind_Inr tx_lift_Inr lineageBirthTx_def lastCrashCauseTx_def
        tx_read_Inr tx_return_Inr)
  have t: "t_asks t = t_asks u" "t_runs t = t_runs u" "t_events t = t_events u"
    "t_queue t = t_queue u" "t_effects t = t_effects u" "t_checkpoints t = t_checkpoints u"
    using att by (auto simp: attentionTx_def tx_simps split: if_splits)
  show thesis
    by (rule that [OF aid])
       (use ins t in \<open>simp_all add: tx_simps\<close>,
        simp_all add: json_extract_def card_json_def ladder_card_of_def opt_str_def)
qed

lemma terminalCardTx_evolves:
  "tx_rel evolves (terminalCardTx cfg now format r kind ground summary detail)"
proof (rule tx_relI)
  fix s aid t
  assume "terminalCardTx cfg now format r kind ground summary detail s = Inr (aid, t)"
  then show "evolves s t" by (rule terminalCardTx_Inr) (auto intro: evolves_cong)
qed

end
