(* ===== verification/Recovery.thy ===== *)
theory Recovery
  imports Checkpoints Effect_Journal Ladder_Card Float64
begin

text \<open>
  \<open>internal/recovery/recovery.go\<close> and \<open>seams.go\<close>: one reconcile pass of the recovery ladder.  The
  unit prober and the harvest source are the interfaces the code declares; the no-fork predicate is
  nil-able; the clock of the ladder, the clock readings of the store and of the journal, and time
  formatting are fields of the environment.  A per-run failure does not stop the pass: its
  transaction is rolled back and the error is collected.
\<close>

section \<open>Seams and environment\<close>

datatype unit_state = UnitUnknown | UnitActive | UnitCorpseExit0 | UnitCorpseFailed | UnitGone

record unit_status =
  us_state :: unit_state
  us_exit :: int
  us_result :: string

record harvest_record =
  hr_session :: string
  hr_message :: string
  hr_terminal :: bool
  hr_payload :: raw
  hr_usage :: raw

definition NoUnits :: "run_row \<Rightarrow> error + unit_status" where
  "NoUnits r = Inr \<lparr>us_state = UnitGone, us_exit = 0, us_result = []\<rparr>"

definition NoHarvest :: "run_row \<Rightarrow> int \<Rightarrow> error + harvest_record list" where
  "NoHarvest r since = Inr []"

fun unitStateString :: "unit_state \<Rightarrow> string" where
  "unitStateString UnitActive = ''active''"
| "unitStateString UnitCorpseExit0 = ''corpse-exit0''"
| "unitStateString UnitCorpseFailed = ''corpse-failed''"
| "unitStateString UnitGone = ''gone''"
| "unitStateString UnitUnknown = ''unknown''"

record ladder_env =
  le_env :: env
  le_now :: time
  le_card_now :: time \<comment> \<open>the clock reading of \<open>terminalCardTx\<close>\<close>
  le_format :: "time \<Rightarrow> string"
  le_units :: "run_row \<Rightarrow> error + unit_status"
  le_harvest :: "run_row \<Rightarrow> int \<Rightarrow> error + harvest_record list"
  le_nofork :: "(string \<Rightarrow> bool) option"
  le_journal :: "nat \<Rightarrow> journal_env"

record ladder_state =
  ld_passes :: int
  ld_last :: time

record report =
  rp_scanned :: nat
  rp_alive :: nat
  rp_wedged :: nat
  rp_harvested :: nat
  rp_forked :: nat
  rp_tombstoned :: nat
  rp_finalized :: nat
  rp_pending :: nat
  rp_asks :: nat
  rp_asks_expired :: nat
  rp_replayable :: nat
  rp_unknown :: nat
  rp_grace :: bool

definition empty_report :: "bool \<Rightarrow> report" where
  "empty_report g = \<lparr>rp_scanned = 0, rp_alive = 0, rp_wedged = 0, rp_harvested = 0, rp_forked = 0,
     rp_tombstoned = 0, rp_finalized = 0, rp_pending = 0, rp_asks = 0, rp_asks_expired = 0,
     rp_replayable = 0, rp_unknown = 0, rp_grace = g\<rparr>"

text \<open>\<open>int64(d.Hours())\<close> truncates a \<open>float64\<close> towards zero, as \<open>int64(d.Seconds())\<close> does.\<close>

definition hours_of :: "duration \<Rightarrow> rat" where
  "hours_of d = fl (of_int (go_div d hour) + fl (of_int (d - go_div d hour * hour) / of_int hour))"

text \<open>The UTF-8 bytes of the gear sign.\<close>

definition gear :: string where "gear = [char_of (226::nat), char_of (154::nat), char_of (153::nat)]"

definition ladder_options :: "string \<Rightarrow> raw \<Rightarrow> transition_options" where
  "ladder_options reason detail =
     \<lparr>to_reason = reason, to_actor = ActorPlatform, to_detail = detail\<rparr>"

section \<open>Observation\<close>

definition leaseDead :: "time \<Rightarrow> duration \<Rightarrow> run_row \<Rightarrow> bool" where
  "leaseDead now grace r =
     (if is_zero_time (run_lease_deadline r) then True else now > run_lease_deadline r + grace)"

definition lastRunEvent :: "run_row \<Rightarrow> db \<Rightarrow> time \<times> string" where
  "lastRunEvent r s =
     (case sort_key (\<lambda>e. - ev_seq e) (filter (\<lambda>e. ev_run e = run_id r) (t_events s)) of
        [] \<Rightarrow> (run_updated r, [])
      | e # _ \<Rightarrow> (ev_time e, ev_type e))"

datatype disposition = DoHarvest | DoAlive | DoWedged | DoDead | DoPending

text \<open>The switch of \<open>reconcileRun\<close>, case by case.\<close>

definition classify_run ::
  "unit_state \<Rightarrow> bool \<Rightarrow> bool \<Rightarrow> bool \<Rightarrow> bool \<Rightarrow> disposition" where
  "classify_run st terminalHarvest cursorFresh dead beating =
     (if terminalHarvest \<or> st = UnitCorpseExit0 then DoHarvest
      else if st = UnitActive \<and> cursorFresh then DoAlive
      else if st = UnitActive then DoWedged
      else if st = UnitCorpseFailed then DoDead
      else if dead \<and> cursorFresh then DoAlive
      else if dead then DoDead
      else if beating \<and> \<not> cursorFresh then DoWedged
      else DoPending)"

section \<open>Acting on one run\<close>

definition wedged_payload :: "duration \<Rightarrow> raw" where
  "wedged_payload stalled = marshal (JObj [(''stalled_for_s'', json_int (trunc (seconds stalled))),
     (''actor'', JStr ActorPlatform)])"

definition flagWedged :: "ladder_env \<Rightarrow> run_row \<Rightarrow> duration \<Rightarrow> db \<Rightarrow> (error + int) \<times> db" where
  "flagWedged le r stalled = Append (env_settings (le_env le)) (env_now (le_env le))
     (run_append (run_id r) (run_generation r) (run_user r) EventWedged (wedged_payload stalled))"

definition harvestDup :: "string \<Rightarrow> harvest_record \<Rightarrow> bool dbtx" where
  "harvestDup rid rec = tx_read (\<lambda>s. list_ex (\<lambda>e. ev_run e = rid \<and> ev_type e = EventHarvest \<and>
     json_extract (ev_payload e) [''session_id''] = Some (hr_session rec) \<and>
     json_extract (ev_payload e) [''message_id''] = Some (hr_message rec)) (t_events s))"

definition harvest_payload :: "harvest_record \<Rightarrow> error + raw" where
  "harvest_payload rec =
     (case (opt_raw ''payload'' (hr_payload rec), opt_raw ''usage'' (hr_usage rec)) of
        (Some p, Some u) \<Rightarrow> Inr (marshal (JObj
          ([(''session_id'', JStr (hr_session rec)), (''message_id'', JStr (hr_message rec))] @
           opt_bool ''terminal'' (hr_terminal rec) @ p @ u)))
      | _ \<Rightarrow> Inl (MarshalFailed ''harvest payload''))"

text \<open>The append loop, with the running count.\<close>

fun harvest_records :: "ladder_env \<Rightarrow> run_row \<Rightarrow> harvest_record list \<Rightarrow> int \<Rightarrow> int dbtx" where
  "harvest_records le r [] n = tx_return n"
| "harvest_records le r (rec # recs) n =
     tx_bind (harvestDup (run_id r) rec) (\<lambda>dup.
       if dup then harvest_records le r recs n
       else
         tx_bind (tx_lift (harvest_payload rec)) (\<lambda>payload.
         tx_bind (AppendTx (env_settings (le_env le)) (env_now (le_env le))
                    (run_append (run_id r) (run_generation r) (run_user r) EventHarvest payload)) (\<lambda>_.
         harvest_records le r recs (n + 1))))"

definition harvest_reason :: string where
  "harvest_reason = ''this work actually finished while the platform was down; the result was '' @
     ''picked back up''"

definition harvestTx ::
  "ladder_env \<Rightarrow> run_row \<Rightarrow> harvest_record list \<Rightarrow> unit_status \<Rightarrow> unit dbtx" where
  "harvestTx le r recs status =
     tx_bind (harvest_records le r recs 0) (\<lambda>n.
     tx_bind (TransitionTx (le_env le) (run_id r) StateCompleted
       (ladder_options harvest_reason (marshal (JObj
         ([(''harvested_records'', json_int n)] @ opt_str ''unit_result'' (us_result status)))))) (\<lambda>_.
     tx_return ()))"

section \<open>The bound decision\<close>

definition fork_dispatch :: "run_row \<Rightarrow> string" where
  "fork_dispatch r = run_id r @ ''#g'' @ dec_int (wrap64 (run_generation r + 1))"

definition fork_id :: "run_row \<Rightarrow> string" where
  "fork_id r = run_id r @ ''.g'' @ dec_int (wrap64 (run_generation r + 1))"

definition fork_detail :: "run_row \<Rightarrow> checkpoint_row option \<Rightarrow> raw" where
  "fork_detail r cp = marshal (JObj
     ([(''parent_run_id'', JStr (run_id r)), (''parent_generation'', json_int (run_generation r))] @
      opt_int ''from_checkpoint_id'' (case cp of None \<Rightarrow> 0 | Some c \<Rightarrow> ck_id c) @
      opt_int ''from_checkpoint_seq'' (case cp of None \<Rightarrow> 0 | Some c \<Rightarrow> ck_event_seq c) @
      [(''dispatch_id'', JStr (fork_dispatch r)),
       (''recovery_attempt'', json_int (wrap64 (run_attempts r + 1))),
       (''actor'', JStr ActorPlatform)]))"

definition fork_row :: "run_row \<Rightarrow> new_run" where
  "fork_row r =
     \<lparr>nr_id = fork_id r, nr_user = run_user r, nr_task = run_task r, nr_substrate = run_substrate r,
      nr_lane = run_lane r, nr_workspace = run_workspace r, nr_ceiling_time = run_ceiling_time r,
      nr_ceiling_steps = run_ceiling_steps r, nr_ceiling_cost = run_ceiling_cost r,
      nr_state = state_name StateQueued, nr_generation = wrap64 (run_generation r + 1),
      nr_parent = run_id r, nr_dispatch = fork_dispatch r, nr_attempts = wrap64 (run_attempts r + 1)\<rparr>"

definition forkTx :: "ladder_env \<Rightarrow> run_row \<Rightarrow> unit dbtx" where
  "forkTx le r =
     tx_bind (SuccessorByDispatchTx (fork_dispatch r)) (\<lambda>successor.
       case successor of
         Some _ \<Rightarrow> tx_return ()
       | None \<Rightarrow>
           tx_bind (BumpGenerationTx (le_env le) (run_id r)) (\<lambda>_.
           tx_bind (LastCheckpointTx (run_id r)) (\<lambda>cp.
           tx_bind (CreateTx (le_env le) (fork_row r) EventForked (fork_detail r cp)) (\<lambda>_.
           tx_return ()))))"

definition noForkGround :: string where
  "noForkGround = ''a run class the platform never forks: a single-shot class whose contract outranks '' @
     ''the S02.5 step-3 default fork (BENCH-REG '' @ [char_of (194::nat), char_of (167::nat)] @
     ''2, the direct arm), or a run id with no dispatchable role, whose fork could never be routed''"

definition staleGround :: string where
  "staleGround = ''interrupted for longer than '' @ gear @ '' recovery.stale_finalize, so the platform '' @
     ''closed it rather than picking it back up blindly''"

definition tombstoneGround :: string where
  "tombstoneGround = gear @ '' recovery.max_attempts is used up: every retry ended the same way, so the '' @
     ''platform stopped retrying''"

definition finalize_detail :: "run_row \<Rightarrow> duration \<Rightarrow> (string \<times> json) list \<Rightarrow> raw" where
  "finalize_detail r interrupted extra = marshal (JObj
     ([(''interrupted_s'', json_int (trunc (seconds interrupted))),
       (''ask_id'', JStr (LadderAskID (run_id r)))] @ extra))"

definition ladder_card_tx :: "ladder_env \<Rightarrow> run_row \<Rightarrow> string \<Rightarrow> string \<Rightarrow> string \<Rightarrow> string list \<Rightarrow> string dbtx" where
  "ladder_card_tx le = terminalCardTx (env_settings (le_env le)) (le_card_now le) (le_format le)"

definition noForkTx :: "ladder_env \<Rightarrow> run_row \<Rightarrow> duration \<Rightarrow> unit dbtx" where
  "noForkTx le r interrupted =
     tx_bind (TransitionTx (le_env le) (run_id r) StateFinalized (ladder_options
       (''work of this kind is never restarted after an interruption '' @
        [char_of (226::nat), char_of (128::nat), char_of (148::nat)] @ '' it is closed instead'')
       (finalize_detail r interrupted [(''no_fork_reason'', JStr noForkGround)]))) (\<lambda>_.
     tx_bind (ladder_card_tx le r CardFinalizeWithCard noForkGround
       ''This work ended badly, and this kind of run is never retried automatically.''
       [''Nothing is running for it now.'']) (\<lambda>_.
     tx_return ()))"

definition staleTx :: "ladder_env \<Rightarrow> run_row \<Rightarrow> duration \<Rightarrow> unit dbtx" where
  "staleTx le r interrupted =
     tx_bind (TransitionTx (le_env le) (run_id r) StateFinalized (ladder_options
       ''interrupted too long ago to safely carry on'' (finalize_detail r interrupted []))) (\<lambda>_.
     tx_bind (ladder_card_tx le r CardFinalizeWithCard staleGround
       (''This work was interrupted for too long to pick up again safely, so the platform stopped it '' @
        ''instead of guessing.'')
       [''It had been interrupted for about '' @ dec_int (trunc (hours_of interrupted)) @
        '' hour(s) when the platform noticed.'']) (\<lambda>_.
     tx_return ()))"

definition tombstoneTx :: "ladder_env \<Rightarrow> run_row \<Rightarrow> unit dbtx" where
  "tombstoneTx le r =
     tx_bind (TransitionTx (le_env le) (run_id r) StateTombstoned (ladder_options
       ''retried the maximum number of times and failed the same way each time''
       (marshal (JObj [(''recovery_attempts'', json_int (run_attempts r)),
          (''ask_id'', JStr (LadderAskID (run_id r)))])))) (\<lambda>_.
     tx_bind (ladder_card_tx le r CardTombstoneReview tombstoneGround
       ''This work stopped after repeated failures.''
       [''The platform retried it '' @ dec_int (run_attempts r) @
        '' time(s); each attempt ended the same way, so retrying by itself would not have helped.'',
        ''Nothing is running for it now.'']) (\<lambda>_.
     tx_return ()))"

datatype bound = BoundFinalized | BoundTombstoned | BoundForked

definition boundTx :: "ladder_env \<Rightarrow> run_row \<Rightarrow> duration \<Rightarrow> duration \<Rightarrow> int \<Rightarrow> bound dbtx" where
  "boundTx le r interrupted staleFinalize maxAttempts =
     (if (case le_nofork le of None \<Rightarrow> False | Some f \<Rightarrow> f (run_id r)) then
        tx_bind (noForkTx le r interrupted) (\<lambda>_. tx_return BoundFinalized)
      else if interrupted > staleFinalize then
        tx_bind (staleTx le r interrupted) (\<lambda>_. tx_return BoundFinalized)
      else if wrap64 (run_attempts r + 1) > maxAttempts then
        tx_bind (tombstoneTx le r) (\<lambda>_. tx_return BoundTombstoned)
      else tx_bind (forkTx le r) (\<lambda>_. tx_return BoundForked))"

definition count_bound :: "bound \<Rightarrow> report \<Rightarrow> report" where
  "count_bound b rp = (case b of
       BoundFinalized \<Rightarrow> rp\<lparr>rp_finalized := rp_finalized rp + 1\<rparr>
     | BoundTombstoned \<Rightarrow> rp\<lparr>rp_tombstoned := rp_tombstoned rp + 1\<rparr>
     | BoundForked \<Rightarrow> rp\<lparr>rp_forked := rp_forked rp + 1\<rparr>)"

definition crash_reason :: string where
  "crash_reason = ''this work stopped without finishing and could not be picked back up''"

definition crashAndBoundTx ::
  "ladder_env \<Rightarrow> run_row \<Rightarrow> duration \<Rightarrow> duration \<Rightarrow> int \<Rightarrow> unit_status \<Rightarrow> bound dbtx" where
  "crashAndBoundTx le r interrupted staleFinalize maxAttempts status =
     tx_bind (TransitionTx (le_env le) (run_id r) StateCrashed (ladder_options crash_reason
       (marshal (JObj ([(''unit_state'', JStr (unitStateString (us_state status)))] @
          opt_str ''unit_result'' (us_result status) @ [(''actor'', JStr ActorPlatform)]))))) (\<lambda>crashed.
     boundTx le crashed interrupted staleFinalize maxAttempts)"

section \<open>Reconciling\<close>

definition last_ckpt_seq :: "string \<Rightarrow> db \<Rightarrow> int" where
  "last_ckpt_seq rid s = (case LastCheckpoint rid s of None \<Rightarrow> 0 | Some c \<Rightarrow> ck_event_seq c)"

text \<open>The settings a pass reads once.\<close>

record pass_config =
  pc_dead :: duration
  pc_stale :: duration
  pc_max :: int
  pc_grace :: duration

definition reconcileRun ::
  "ladder_env \<Rightarrow> pass_config \<Rightarrow> run_row \<Rightarrow> report \<Rightarrow> db \<Rightarrow> (error option \<times> report) \<times> db" where
  "reconcileRun le pc r rp s =
     (case le_units le r of
        Inl e \<Rightarrow> ((Some e, rp), s)
      | Inr status \<Rightarrow>
     (case le_harvest le r (last_ckpt_seq (run_id r) s) of
        Inl e \<Rightarrow> ((Some e, rp), s)
      | Inr recs \<Rightarrow>
     (let (lastActivity, lastType) = lastRunEvent r s;
          stalled = time_sub (le_now le) lastActivity;
          cursorFresh = (stalled \<le> dur_add (pc_dead pc) (pc_grace pc));
          beating = (\<not> is_zero_time (run_lease_deadline r) \<and> \<not> le_now le > run_lease_deadline r)
      in case classify_run (us_state status) (list_ex hr_terminal recs) cursorFresh
                (leaseDead (le_now le) (pc_grace pc) r) beating of
           DoHarvest \<Rightarrow> (case write_tx (harvestTx le r recs status) s of
               (Inl e, t) \<Rightarrow> ((Some e, rp), t)
             | (Inr _, t) \<Rightarrow> ((None, rp\<lparr>rp_harvested := rp_harvested rp + 1\<rparr>), t))
         | DoAlive \<Rightarrow> ((None, rp\<lparr>rp_alive := rp_alive rp + 1\<rparr>), s)
         | DoWedged \<Rightarrow>
             (if lastType \<noteq> EventWedged then
                (case flagWedged le r stalled s of
                   (Inl e, t) \<Rightarrow> ((Some e, rp), t)
                 | (Inr _, t) \<Rightarrow> ((None, rp\<lparr>rp_wedged := rp_wedged rp + 1\<rparr>), t))
              else ((None, rp\<lparr>rp_wedged := rp_wedged rp + 1\<rparr>), s))
         | DoDead \<Rightarrow> (case write_tx (crashAndBoundTx le r stalled (pc_stale pc) (pc_max pc) status) s of
               (Inl e, t) \<Rightarrow> ((Some e, rp), t)
             | (Inr b, t) \<Rightarrow> ((None, count_bound b rp), t))
         | DoPending \<Rightarrow> ((None, rp\<lparr>rp_pending := rp_pending rp + 1\<rparr>), s))))"

definition supersedeTx :: "ladder_env \<Rightarrow> pass_config \<Rightarrow> run_row \<Rightarrow> duration \<Rightarrow> bound option dbtx" where
  "supersedeTx le pc r interrupted =
     tx_bind (SuccessorOfTx (run_id r)) (\<lambda>successor.
       case successor of
         Some _ \<Rightarrow> tx_return None
       | None \<Rightarrow> tx_bind (boundTx le r interrupted (pc_stale pc) (pc_max pc)) (\<lambda>b. tx_return (Some b)))"

definition reconcileCrashed ::
  "ladder_env \<Rightarrow> pass_config \<Rightarrow> run_row \<Rightarrow> report \<Rightarrow> db \<Rightarrow> (error option \<times> report) \<times> db" where
  "reconcileCrashed le pc r rp s =
     (case le_harvest le r (last_ckpt_seq (run_id r) s) of
        Inl e \<Rightarrow> ((Some e, rp), s)
      | Inr recs \<Rightarrow>
          (if list_ex hr_terminal recs then
             (case write_tx (harvestTx le r recs \<lparr>us_state = UnitUnknown, us_exit = 0, us_result = []\<rparr>) s of
                (Inl e, t) \<Rightarrow> ((Some e, rp), t)
              | (Inr _, t) \<Rightarrow> ((None, rp\<lparr>rp_harvested := rp_harvested rp + 1\<rparr>), t))
           else
             (case write_tx (supersedeTx le pc r (time_sub (le_now le) (fst (lastRunEvent r s)))) s of
                (Inl e, t) \<Rightarrow> ((Some e, rp), t)
              | (Inr None, t) \<Rightarrow> ((None, rp), t)
              | (Inr (Some b), t) \<Rightarrow> ((None, count_bound b rp), t))))"

text \<open>\<open>reconcileAsks\<close>: the open asks of runs that have not ended, and those the engine has expired.\<close>

definition open_asks :: "db \<Rightarrow> ask_row list" where
  "open_asks s = filter (\<lambda>a. is_zero_time (ask_answered a) \<and>
     (case find_run (ask_run a) s of None \<Rightarrow> False
      | Some r \<Rightarrow> run_state r \<notin> {StateCompleted, StateFinalized, StateTombstoned, StateDiedAtGate}))
     (t_asks s)"

definition reconcileAsks :: "time \<Rightarrow> db \<Rightarrow> report \<Rightarrow> report" where
  "reconcileAsks now s rp = rp\<lparr>rp_asks := rp_asks rp + length (open_asks s),
     rp_asks_expired := rp_asks_expired rp + length (filter (\<lambda>a.
       \<not> is_zero_time (ask_engine_expiry a) \<and> now > ask_engine_expiry a) (open_asks s))\<rparr>"

text \<open>The per-run loops: errors are collected.\<close>

fun reconcile_list ::
  "(run_row \<Rightarrow> report \<Rightarrow> db \<Rightarrow> (error option \<times> report) \<times> db) \<Rightarrow> run_row list \<Rightarrow> report \<Rightarrow> db \<Rightarrow>
   (error list \<times> report) \<times> db" where
  "reconcile_list f [] rp s = (([], rp), s)"
| "reconcile_list f (r # rs) rp s =
     (case f r rp s of ((err, rp'), t) \<Rightarrow>
        (case reconcile_list f rs rp' t of ((errs, rp''), u) \<Rightarrow>
           (((case err of None \<Rightarrow> errs | Some e \<Rightarrow> e # errs), rp''), u)))"

definition pass_grace :: "ladder_state \<Rightarrow> time \<Rightarrow> duration \<Rightarrow> duration \<Rightarrow> duration" where
  "pass_grace ld now wakeGrace sweepInterval =
     (if ld_passes ld = 0 \<or>
         (\<not> is_zero_time (ld_last ld) \<and> time_sub now (ld_last ld) > wrap64 (2 * sweepInterval))
      then wakeGrace else 0)"

definition read_pass_settings :: "settings \<Rightarrow> error + (duration \<times> duration \<times> duration \<times> int \<times> duration)" where
  "read_pass_settings cfg =
     (case read_duration cfg ''recovery.dead_after'' of Inl e \<Rightarrow> Inl e | Inr deadAfter \<Rightarrow>
     (case read_duration cfg ''recovery.wake_grace'' of Inl e \<Rightarrow> Inl e | Inr wakeGrace \<Rightarrow>
     (case read_duration cfg ''recovery.stale_finalize'' of Inl e \<Rightarrow> Inl e | Inr staleFinalize \<Rightarrow>
     (case read_int cfg ''recovery.max_attempts'' of Inl e \<Rightarrow> Inl e | Inr maxAttempts \<Rightarrow>
     (case read_duration cfg ''recovery.sweep_interval'' of Inl e \<Rightarrow> Inl e | Inr sweepInterval \<Rightarrow>
        Inr (deadAfter, wakeGrace, staleFinalize, maxAttempts, sweepInterval))))))"

definition count_resolutions ::
  "(string \<times> effect_class \<times> effect_state) list \<Rightarrow> report \<Rightarrow> report" where
  "count_resolutions out rp = rp\<lparr>
     rp_unknown := rp_unknown rp + length (filter (\<lambda>x. snd (snd x) = EffectUnknown) out),
     rp_replayable := rp_replayable rp + length (filter (\<lambda>x. snd (snd x) \<noteq> EffectUnknown) out)\<rparr>"

definition ReconcilePass ::
  "ladder_env \<Rightarrow> ladder_state \<Rightarrow> db \<Rightarrow> (error list \<times> report) \<times> ladder_state \<times> db" where
  "ReconcilePass le ld s =
     (case read_pass_settings (env_settings (le_env le)) of
        Inl e \<Rightarrow> (([e], empty_report False), ld, s)
      | Inr (deadAfter, wakeGrace, staleFinalize, maxAttempts, sweepInterval) \<Rightarrow>
          (let grace = pass_grace ld (le_now le) wakeGrace sweepInterval;
               ld' = \<lparr>ld_passes = ld_passes ld + 1, ld_last = le_now le\<rparr>;
               pc = \<lparr>pc_dead = deadAfter, pc_stale = staleFinalize, pc_max = maxAttempts,
                     pc_grace = grace\<rparr>;
               observed = InStates [StateClaimed, StateRunning, StateDraining] s
           in case reconcile_list (reconcileRun le pc) observed
                     ((empty_report (grace > 0))\<lparr>rp_scanned := length observed\<rparr>) s of
                ((errs1, rp1), s1) \<Rightarrow>
             (case reconcile_list (reconcileCrashed le pc) (InStates [StateCrashed] s1) rp1 s1 of
                ((errs2, rp2), s2) \<Rightarrow>
             (let rp3 = reconcileAsks (le_now le) s2 rp2
              in case ReconcileInDoubt (le_journal le) s2 of
                   ((err, out), s3) \<Rightarrow>
                     ((errs1 @ errs2 @ (case err of None \<Rightarrow> [] | Some e \<Rightarrow> [e]),
                       count_resolutions out rp3), ld', s3)))))"

section \<open>Every step of the ladder keeps the invariant\<close>

lemma flagWedged_evolves: "evolves s (snd (flagWedged le r stalled s))"
  unfolding flagWedged_def Append_def
  by (rule evolve.rel_write, rule AppendTx_evolves) (simp add: run_append_def)

lemma harvest_records_evolves: "tx_rel evolves (harvest_records le r recs n)"
proof (induction recs arbitrary: n)
  case Nil
  then show ?case by (simp add: evolve.rel_return)
next
  case (Cons rec recs)
  have "tx_rel evolves (AppendTx cfg now (run_append rid gen user EventHarvest payload))"
    for cfg now rid gen user payload
    by (rule AppendTx_evolves) (simp add: run_append_def)
  with Cons show ?case
    by (auto simp: harvestDup_def intro!: evolve.frame_rules)
qed

lemma harvestTx_evolves: "hook_ok (le_env le) \<Longrightarrow> tx_rel evolves (harvestTx le r recs status)"
  unfolding harvestTx_def
  by (intro evolve.frame_rules harvest_records_evolves TransitionTx_evolves)

lemma wrap64_max: "wrap64 i \<le> int64_max"
  using wrap64_range [of i] by (simp add: in64_def)

lemma forkTx_evolves: "tx_rel evolves (forkTx le r)"
proof -
  have create: "tx_rel evolves (CreateTx (le_env le) (fork_row r) EventForked (fork_detail r cp))" for cp
    by (rule CreateTx_evolves) (simp_all add: fork_row_def wrap64_max)
  show ?thesis
    unfolding forkTx_def SuccessorByDispatchTx_def
    by (intro evolve.frame_rules BumpGenerationTx_evolves LastCheckpointTx_evolves create)
qed

lemma ladder_card_evolves: "tx_rel evolves (ladder_card_tx le r kind ground summary detail)"
  unfolding ladder_card_tx_def by (rule terminalCardTx_evolves)

lemma terminal_bounds_evolve:
  assumes "hook_ok (le_env le)"
  shows "tx_rel evolves (noForkTx le r d)" "tx_rel evolves (staleTx le r d)"
    "tx_rel evolves (tombstoneTx le r)"
  unfolding noForkTx_def staleTx_def tombstoneTx_def
  by (intro evolve.frame_rules TransitionTx_evolves ladder_card_evolves assms)+

lemma boundTx_evolves: "hook_ok (le_env le) \<Longrightarrow> tx_rel evolves (boundTx le r d sf mx)"
  unfolding boundTx_def
  by (intro evolve.frame_rules terminal_bounds_evolve forkTx_evolves)

lemma crashAndBoundTx_evolves:
  "hook_ok (le_env le) \<Longrightarrow> tx_rel evolves (crashAndBoundTx le r d sf mx status)"
  unfolding crashAndBoundTx_def by (intro evolve.frame_rules TransitionTx_evolves boundTx_evolves)

lemma supersedeTx_evolves: "hook_ok (le_env le) \<Longrightarrow> tx_rel evolves (supersedeTx le pc r d)"
  unfolding supersedeTx_def SuccessorOfTx_def by (intro evolve.frame_rules boundTx_evolves)

lemma ReconcileInDoubt_frame:
  "t_runs (snd (ReconcileInDoubt je s)) = t_runs s \<and> t_events (snd (ReconcileInDoubt je s)) = t_events s"
proof -
  have fin: "t_runs (snd (finish je eid to res s)) = t_runs s \<and> t_events (snd (finish je eid to res s)) = t_events s"
    for je eid to res s
    by (rule_tac write_tx_cases [of "tx_bind (getEffectTx eid) (\<lambda>cur.
           if eff_state cur \<noteq> EffectExecuting then tx_fail (ErrBadState eid (eff_state cur))
           else
             tx_bind (set_effect eid (\<lambda>e. e\<lparr>eff_state := to, eff_result := res,
                 eff_updated := je_now je\<rparr>)) (\<lambda>_.
             getEffectTx eid))" s]) (auto simp: finish_def tx_simps split: if_splits)
  have "t_runs (snd (reconcile_effects je n es s)) = t_runs s \<and>
      t_events (snd (reconcile_effects je n es s)) = t_events s" for n es
  proof (induction es arbitrary: n s)
    case Nil
    then show ?case by simp
  next
    case (Cons e es)
    show ?case
    proof (cases "eff_class e = ClassD")
      case True
      obtain r t where m: "MarkUnknown (je n) (eff_id e) crash_window_note s = (r, t)" by fastforce
      with fin [of "je n" "eff_id e" EffectUnknown "unknown_card crash_window_note" s] True Cons.IH [of "n + 1" t]
      show ?thesis
        by (cases r; cases "reconcile_effects je (n + 1) es t") (auto simp: MarkUnknown_def)
    next
      case False
      then have "snd (reconcile_effects je n (e # es) s) = snd (reconcile_effects je (n + 1) es
          (update_effects (\<lambda>r. eff_id r = eff_id e \<and> eff_state r = EffectExecuting)
            (\<lambda>r. r\<lparr>eff_state := EffectApproved, eff_updated := je_now (je n)\<rparr>) s))"
        by (cases "eff_class e") (simp_all add: Let_def split: prod.splits)
      with Cons.IH show ?thesis by simp
    qed
  qed
  then show ?thesis by (simp add: ReconcileInDoubt_def)
qed

text \<open>
  A pass respects every frame that its transactions respect; the run invariant here, the invariant of
  the whole platform later.
\<close>

definition ladder_frame :: "(db \<Rightarrow> db \<Rightarrow> bool) \<Rightarrow> ladder_env \<Rightarrow> bool" where
  "ladder_frame R le \<longleftrightarrow> tx_frame R \<and> (\<forall>r recs status. tx_rel R (harvestTx le r recs status)) \<and>
     (\<forall>r d s. R s (snd (flagWedged le r d s))) \<and>
     (\<forall>r d sf mx status. tx_rel R (crashAndBoundTx le r d sf mx status)) \<and>
     (\<forall>pc r d. tx_rel R (supersedeTx le pc r d)) \<and>
     (\<forall>s. R s (snd (ReconcileInDoubt (le_journal le) s)))"

lemma write_frame: "tx_frame R \<Longrightarrow> write_tx m s = (x, t) \<Longrightarrow> tx_rel R m \<Longrightarrow> R s t"
  using tx_frame.rel_write [of R m s] by simp

lemma reconcileRun_frame:
  assumes "ladder_frame R le"
  shows "R s (snd (reconcileRun le pc r rp s))"
proof -
  have fr: "tx_frame R" using assms by (simp add: ladder_frame_def)
  have h: "write_tx (harvestTx le r recs status) s = (x, t) \<Longrightarrow> R s t" for recs status x t
    by (erule write_frame [OF fr]) (use assms in \<open>simp add: ladder_frame_def\<close>)
  have c: "write_tx (crashAndBoundTx le r d sf mx status) s = (x, t) \<Longrightarrow> R s t" for d sf mx status x t
    by (erule write_frame [OF fr]) (use assms in \<open>simp add: ladder_frame_def\<close>)
  have w: "flagWedged le r d s = (x, t) \<Longrightarrow> R s t" for d x t
    using assms unfolding ladder_frame_def by (metis snd_conv)
  show ?thesis
    by (auto simp: reconcileRun_def Let_def tx_frame.frame_refl [OF fr]
        split: sum.splits prod.splits disposition.splits dest: h c w)
qed

lemma reconcileCrashed_frame:
  assumes "ladder_frame R le"
  shows "R s (snd (reconcileCrashed le pc r rp s))"
proof -
  have fr: "tx_frame R" using assms by (simp add: ladder_frame_def)
  have h: "write_tx (harvestTx le r recs status) s = (x, t) \<Longrightarrow> R s t" for recs status x t
    by (erule write_frame [OF fr]) (use assms in \<open>simp add: ladder_frame_def\<close>)
  have c: "write_tx (supersedeTx le pc r d) s = (x, t) \<Longrightarrow> R s t" for d x t
    by (erule write_frame [OF fr]) (use assms in \<open>simp add: ladder_frame_def\<close>)
  show ?thesis
    by (auto simp: reconcileCrashed_def tx_frame.frame_refl [OF fr]
        split: sum.splits prod.splits option.splits dest: h c)
qed

lemma reconcile_list_frame:
  assumes "tx_frame R" "\<And>r rp s. R s (snd (f r rp s))"
  shows "R s (snd (reconcile_list f rs rp s))"
proof (induction rs arbitrary: rp s)
  case Nil
  then show ?case by (simp add: tx_frame.frame_refl [OF assms(1)])
next
  case (Cons r rs)
  obtain err rp' t where f: "f r rp s = ((err, rp'), t)" by (metis prod.exhaust)
  obtain errs rp'' u where rest: "reconcile_list f rs rp' t = ((errs, rp''), u)" by (metis prod.exhaust)
  have "R s t" "R t u" using assms(2) [of s r rp] Cons.IH [of t rp'] f rest by simp_all
  then show ?case using f rest by (auto intro: tx_frame.frame_trans [OF assms(1)])
qed

lemma ReconcilePass_frame:
  assumes "ladder_frame R le"
  shows "R s (snd (snd (ReconcilePass le ld s)))"
proof (cases "read_pass_settings (env_settings (le_env le))")
  case (Inl e)
  then show ?thesis using assms by (simp add: ReconcilePass_def ladder_frame_def tx_frame.frame_refl)
next
  case (Inr cfg)
  have fr: "tx_frame R" using assms by (simp add: ladder_frame_def)
  note trans = tx_frame.frame_trans [OF fr]
  obtain deadAfter wakeGrace staleFinalize maxAttempts sweepInterval where
    cfg: "cfg = (deadAfter, wakeGrace, staleFinalize, maxAttempts, sweepInterval)" by (cases cfg)
  define pc where "pc = \<lparr>pc_dead = deadAfter, pc_stale = staleFinalize, pc_max = maxAttempts,
    pc_grace = pass_grace ld (le_now le) wakeGrace sweepInterval\<rparr>"
  define rp where "rp = (empty_report (pass_grace ld (le_now le) wakeGrace sweepInterval > 0))
    \<lparr>rp_scanned := length (InStates [StateClaimed, StateRunning, StateDraining] s)\<rparr>"
  obtain errs1 rp1 s1 where 1: "reconcile_list (reconcileRun le pc)
      (InStates [StateClaimed, StateRunning, StateDraining] s) rp s = ((errs1, rp1), s1)"
    by (metis prod.exhaust)
  obtain errs2 rp2 s2 where 2: "reconcile_list (reconcileCrashed le pc) (InStates [StateCrashed] s1) rp1 s1
      = ((errs2, rp2), s2)" by (metis prod.exhaust)
  obtain err out s3 where 3: "ReconcileInDoubt (le_journal le) s2 = ((err, out), s3)"
    by (metis prod.exhaust)
  have list: "R s (snd (reconcile_list (reconcileRun le pc) rs rp s))"
    "R s (snd (reconcile_list (reconcileCrashed le pc) rs rp s))" for rs rp s
    by (intro reconcile_list_frame [OF fr] reconcileRun_frame [OF assms] reconcileCrashed_frame [OF assms])+
  have "R s s1" using list(1) 1 by (metis snd_conv)
  moreover have "R s1 s2" using list(2) 2 by (metis snd_conv)
  moreover have "R s2 s3"
    using assms 3 unfolding ladder_frame_def by (metis snd_conv)
  ultimately have "R s s3" by (blast intro: tx_frame.frame_trans [OF fr])
  then show ?thesis
    using Inr 1 2 3 by (simp add: ReconcilePass_def cfg Let_def pc_def [symmetric] rp_def [symmetric])
qed

lemma ladder_frame_evolves: "hook_ok (le_env le) \<Longrightarrow> ladder_frame evolves le"
  unfolding ladder_frame_def
  using harvestTx_evolves flagWedged_evolves crashAndBoundTx_evolves supersedeTx_evolves
    ReconcileInDoubt_frame
  by (auto simp: evolve.tx_frame_axioms intro: evolves_cong)

lemma ReconcilePass_evolves:
  "hook_ok (le_env le) \<Longrightarrow> evolves s (snd (snd (ReconcilePass le ld s)))"
  by (rule ReconcilePass_frame) (rule ladder_frame_evolves)

section \<open>What the decisions reach\<close>

lemma terminal_absorbs: "CanTransition\<^sup>*\<^sup>* a b \<Longrightarrow> IsTerminal a \<Longrightarrow> b = a"
  by (rule run_fsm.final_path)

text \<open>The run after a committed transition, whatever the run-end hook did besides.\<close>

lemma TransitionTx_state:
  assumes "good s" "hook_ok env" "TransitionTx env rid to opts s = Inr (r, t)"
  shows "good t \<and> run_state r = to \<and> run_id r = rid \<and>
    (\<exists>r'. find_run rid t = Some r' \<and> (IsTerminal to \<longrightarrow> run_state r' = to) \<and>
       (\<not> IsTerminal to \<longrightarrow> r' = r))"
  using assms(3)
proof (rule TransitionTx_Inr)
  fix cur payload u
  assume *: "find_run rid s = Some cur" "CanTransition (run_state cur) to"
    "0 \<le> next_generation cur to" "transition_payload (run_state cur) to opts = Inr payload"
    "u = transition_db env cur to payload s" "r = transition_row env cur to"
    "run_hook env to r u = Inr ((), t)"
  have u: "good u" using transition_db_good [OF assms(1) *(1-4)] *(5) by simp
  have ru: "find_run rid u = Some r" using transition_db_find(1) [OF *(1)] *(5,6) by simp
  have t: "good t \<and> progress u t"
    using tx_evolvesD [OF run_hook_evolves [OF assms(2)] *(7) u] .
  from t ru obtain r' where r': "find_run rid t = Some r'" "CanTransition\<^sup>*\<^sup>* (run_state r) (run_state r')"
    by (auto simp: progress_def)
  have r: "run_state r = to" "run_id r = rid"
    using *(6) find_run_Some [OF *(1)] by (simp_all add: transition_row_def)
  have "r' = r" if "\<not> IsTerminal to"
    using that *(7) ru r'(1) by (auto simp: run_hook_def tx_simps split: option.splits)
  with t r r' terminal_absorbs [OF r'(2)] show ?thesis by auto
qed

definition open_card :: "string \<Rightarrow> db \<Rightarrow> bool" where
  "open_card rid s \<longleftrightarrow> (\<exists>a\<in>set (t_asks s). ask_id a = LadderAskID rid \<and> ask_run a = rid \<and>
     ask_status a = ''open'' \<and> ask_answered a = 0)"

definition ended_with_card :: "string \<Rightarrow> run_state \<Rightarrow> db \<Rightarrow> bool" where
  "ended_with_card rid st s \<longleftrightarrow> (\<exists>r. find_run rid s = Some r \<and> run_state r = st) \<and> open_card rid s"

lemma terminal_with_card:
  assumes "good s" "hook_ok (le_env le)" "IsTerminal to"
    and tr: "TransitionTx (le_env le) (run_id r) to opts s = Inr (r1, u)"
    and card: "ladder_card_tx le r kind ground summary detail u = Inr (aid, t)"
  shows "ended_with_card (run_id r) to t"
proof -
  from TransitionTx_state [OF assms(1,2) tr] assms(3) obtain r' where
    r': "find_run (run_id r) u = Some r'" "run_state r' = to" by auto
  from card [unfolded ladder_card_tx_def] show ?thesis
  proof (rule terminalCardTx_Inr)
    fix a
    assume "t_asks t = t_asks u @ [a]" "ask_id a = LadderAskID (run_id r)" "ask_run a = run_id r"
      "ask_status a = ''open''" "ask_answered a = 0" "t_runs t = t_runs u"
    with r' show ?thesis
      using find_run_cong [of t u] by (auto simp: ended_with_card_def open_card_def)
  qed
qed

lemma bound_terminal:
  assumes "good s" "hook_ok (le_env le)"
  shows noForkTx_card: "noForkTx le r d s = Inr (x, t) \<Longrightarrow> ended_with_card (run_id r) StateFinalized t"
    and staleTx_card: "staleTx le r d s = Inr (x, t) \<Longrightarrow> ended_with_card (run_id r) StateFinalized t"
    and tombstoneTx_card: "tombstoneTx le r s = Inr (x, t) \<Longrightarrow> ended_with_card (run_id r) StateTombstoned t"
proof -
  have ends: "IsTerminal StateFinalized" "IsTerminal StateTombstoned" by (simp_all add: IsTerminal_iff)
  note final = terminal_with_card [OF assms ends(1)] and tomb = terminal_with_card [OF assms ends(2)]
  show "ended_with_card (run_id r) StateFinalized t" if "noForkTx le r d s = Inr (x, t)"
    using that unfolding noForkTx_def tx_bind_Inr tx_return_Inr by (blast intro: final)
  show "ended_with_card (run_id r) StateFinalized t" if "staleTx le r d s = Inr (x, t)"
    using that unfolding staleTx_def tx_bind_Inr tx_return_Inr by (blast intro: final)
  show "ended_with_card (run_id r) StateTombstoned t" if "tombstoneTx le r s = Inr (x, t)"
    using that unfolding tombstoneTx_def tx_bind_Inr tx_return_Inr by (blast intro: tomb)
qed

section \<open>Forks\<close>

lemma BumpGenerationTx_Inr:
  assumes "BumpGenerationTx env rid s = Inr (r', t)" "find_run rid s = Some r" "good s"
  shows "0 \<le> wrap64 (run_generation r + 1) \<and> t_events t = t_events s \<and>
    find_run rid t = Some (r\<lparr>run_generation := wrap64 (run_generation r + 1), run_updated := env_now env\<rparr>) \<and>
    (\<forall>rid'. rid' \<noteq> rid \<longrightarrow> find_run rid' t = find_run rid' s) \<and> t_tasks t = t_tasks s"
proof -
  let ?p = "\<lambda>x. run_id x = rid \<and> run_generation x = run_generation r"
  let ?f = "\<lambda>x. x\<lparr>run_generation := wrap64 (run_generation r + 1), run_updated := env_now env\<rparr>"
  have t: "t = update_runs ?p ?f s" and chk: "\<forall>x\<in>set (t_runs s). ?p x \<longrightarrow> run_checks (?f x)"
    using assms(1,2) by (auto simp: BumpGenerationTx_def tx_bind_Inr getTx_Inr exec_update_runs_Inr)
  have "run_checks (?f r)" using chk find_run_Some [OF assms(2)] by blast
  then have "0 \<le> wrap64 (run_generation r + 1)" by (simp add: run_checks_def)
  moreover have "find_run rid t = Some (?f r)"
    unfolding t using find_run_update_same [OF assms(2), where q = "\<lambda>x. run_generation x = run_generation r" and f = ?f]
    by simp
  moreover have "find_run rid' t = find_run rid' s" if "rid' \<noteq> rid" for rid'
    unfolding t using that by (intro find_run_update_other [where rid = rid]) simp_all
  ultimately show ?thesis by (simp add: t)
qed

lemma fork_id_fresh: "fork_id r \<noteq> run_id r"
  by (simp add: fork_id_def)

lemma fork_names_nonempty [simp]: "fork_id r \<noteq> []" "fork_dispatch r \<noteq> []"
  by (simp_all add: fork_id_def fork_dispatch_def)

text \<open>A committed fork: either this interruption already dispatched, or the fence and the successor.\<close>

lemma forkTx_Inr:
  assumes "forkTx le r s = Inr (x, t)" "find_run (run_id r) s = Some r" "good s"
  obtains (dispatched) c where "c \<in> set (t_runs s)" "run_dispatch c = fork_dispatch r" "t = s"
  | (forked) c where
      "find_run (fork_id r) s = None" "find_run (fork_id r) t = Some c" "run_state c = StateQueued"
      "run_generation c = wrap64 (run_generation r + 1)" "0 \<le> run_generation c"
      "run_parent c = run_id r" "run_dispatch c = fork_dispatch r" "run_user c = run_user r"
      "run_task c = run_task r" "run_attempts c = wrap64 (run_attempts r + 1)"
      "find_run (run_id r) t = Some (r\<lparr>run_generation := wrap64 (run_generation r + 1),
         run_updated := env_now (le_env le)\<rparr>)"
      "\<forall>y\<in>set (t_runs s). run_dispatch y \<noteq> fork_dispatch r"
proof -
  let ?find = "tbl_find (\<lambda>x. run_dispatch x \<noteq> [] \<and> run_dispatch x = fork_dispatch r) (t_runs s)"
  show thesis
  proof (cases ?find)
    case (Some c)
    then have "t = s" using assms(1)
      by (simp add: forkTx_def SuccessorByDispatchTx_def tx_bind_Inr tx_read_Inr tx_return_Inr)
    with tbl_find_Some [OF Some] dispatched show thesis by blast
  next
    case None
    with assms(1) obtain r' u cp c where bump: "BumpGenerationTx (le_env le) (run_id r) s = Inr (r', u)"
      and create: "CreateTx (le_env le) (fork_row r) EventForked (fork_detail r cp) u = Inr (c, t)"
      by (auto simp: forkTx_def SuccessorByDispatchTx_def LastCheckpointTx_def tx_bind_Inr tx_read_Inr
          tx_return_Inr)
    note b = BumpGenerationTx_Inr [OF bump assms(2,3)]
    show thesis
      using create
    proof (rule CreateTx_Inr)
      fix st payload
      assume *: "state_of_name (if nr_state (fork_row r) = [] then state_name StateNew else nr_state (fork_row r)) = Some st"
        "c = row_of_new (env_now (le_env le)) (fork_row r) st" "insert_allowed c u"
        "t = u\<lparr>t_runs := t_runs u @ [c], t_events := t_events u @
           [new_event (next_rowid (map ev_seq (t_events u))) (env_now (le_env le))
              (run_append (nr_id (fork_row r)) (nr_generation (fork_row r)) (nr_user (fork_row r)) EventForked payload)]\<rparr>"
      have st: "st = StateQueued" using *(1) by (simp add: fork_row_def del: state_name.simps)
      have c: "run_id c = fork_id r" "run_state c = StateQueued"
        "run_generation c = wrap64 (run_generation r + 1)" "run_parent c = run_id r"
        "run_dispatch c = fork_dispatch r" "run_user c = run_user r" "run_task c = run_task r"
        "run_attempts c = wrap64 (run_attempts r + 1)"
        by (simp_all add: *(2) st row_of_new_def fork_row_def)
      have free: "find_run (fork_id r) u = None" using *(3) c(1) by (simp add: insert_allowed_def)
      have find: "find_run rid t = (if rid = fork_id r then Some c else find_run rid u)" for rid
        using find_run_insert [of c u rid] free c(1) find_run_cong [of t "u\<lparr>t_runs := t_runs u @ [c]\<rparr>"]
        by (simp add: *(4))
      have "\<forall>y\<in>set (t_runs s). run_dispatch y \<noteq> fork_dispatch r"
      proof
        fix y assume "y \<in> set (t_runs s)"
        then have "\<not> (run_dispatch y \<noteq> [] \<and> run_dispatch y = fork_dispatch r)"
          using None unfolding tbl_find_None by blast
        then show "run_dispatch y \<noteq> fork_dispatch r" using fork_names_nonempty(2) [of r] by metis
      qed
      then show thesis
        using forked [of c] b c free find fork_id_fresh [of r] by simp
    qed
  qed
qed

section \<open>No crashed run without its decision\<close>

definition superseded :: "run_row \<Rightarrow> db \<Rightarrow> bool" where
  "superseded r s \<longleftrightarrow> (\<exists>r'. find_run (run_id r) s = Some r' \<and> run_state r' = StateCrashed) \<and>
     (\<exists>c\<in>set (t_runs s). run_dispatch c = fork_dispatch r)"

definition decided :: "run_row \<Rightarrow> db \<Rightarrow> bool" where
  "decided r s \<longleftrightarrow> ended_with_card (run_id r) StateFinalized s \<or>
     ended_with_card (run_id r) StateTombstoned s \<or> superseded r s"

lemma boundTx_decided:
  assumes "good s" "hook_ok (le_env le)" "find_run (run_id r) s = Some r" "run_state r = StateCrashed"
    and "boundTx le r d sf mx s = Inr (b, t)"
  shows "decided r t"
proof -
  have fork: "superseded r t" if "forkTx le r s = Inr (x, t)" for x
    using that assms(3,1)
  proof (cases rule: forkTx_Inr)
    case (dispatched c)
    with assms(3,4) show ?thesis by (auto simp: superseded_def)
  next
    case (forked c)
    with assms(4) find_run_Some [OF forked(2)] show ?thesis by (auto simp: superseded_def)
  qed
  show ?thesis
    using assms(5) bound_terminal [OF assms(1,2)] fork
    unfolding boundTx_def decided_def tx_bind_Inr tx_return_Inr
    by (auto simp: tx_bind_Inr tx_return_Inr split: if_splits option.splits)
qed

text \<open>The crash and its decision commit together, or nothing does.\<close>

lemma crashAndBound_decided:
  assumes "good s" "hook_ok (le_env le)"
    and "crashAndBoundTx le r d sf mx status s = Inr (b, t)"
  shows "\<exists>crashed. run_id crashed = run_id r \<and> run_state crashed = StateCrashed \<and> decided crashed t"
proof -
  from assms(3) obtain crashed u opts where
    tr: "TransitionTx (le_env le) (run_id r) StateCrashed opts s = Inr (crashed, u)"
    and bound: "boundTx le crashed d sf mx u = Inr (b, t)"
    unfolding crashAndBoundTx_def tx_bind_Inr by blast
  have st: "good u" "run_state crashed = StateCrashed" "run_id crashed = run_id r"
    "find_run (run_id r) u = Some crashed"
    using TransitionTx_state [OF assms(1,2) tr] by (auto simp: IsTerminal_iff)
  have "decided crashed t"
    by (rule boundTx_decided [OF st(1) assms(2) _ st(2) bound]) (simp add: st(3,4))
  with st(2,3) show ?thesis by blast
qed

text \<open>A superseded run is left alone by the sweep of the crashed runs.\<close>

lemma supersedeTx_successor:
  assumes "c \<in> set (t_runs s)" "run_parent c = run_id r" "run_id r \<noteq> []"
  shows "supersedeTx le pc r d s = Inr (None, s)"
proof -
  obtain c' where "tbl_find (\<lambda>x. run_parent x \<noteq> [] \<and> run_parent x = run_id r) (t_runs s) = Some c'"
    using assms by (cases "tbl_find (\<lambda>x. run_parent x \<noteq> [] \<and> run_parent x = run_id r) (t_runs s)")
      (auto simp: tbl_find_None)
  then show ?thesis
    by (simp add: supersedeTx_def SuccessorOfTx_def tx_bind_def tx_read_def tx_return_def)
qed

text \<open>What the classification says about the body, the lease and the cursor.\<close>

lemma classify_dead_iff:
  "classify_run st h fresh dead beating = DoDead \<longleftrightarrow> \<not> h \<and>
     (st = UnitCorpseFailed \<or> st \<in> {UnitGone, UnitUnknown} \<and> dead \<and> \<not> fresh)"
  by (cases st) (auto simp: classify_run_def)

lemma classify_wedged_iff:
  "classify_run st h fresh dead beating = DoWedged \<longleftrightarrow> \<not> h \<and>
     (st = UnitActive \<and> \<not> fresh \<or> st \<in> {UnitGone, UnitUnknown} \<and> \<not> dead \<and> beating \<and> \<not> fresh)"
  by (cases st) (auto simp: classify_run_def)

text \<open>A harvest that commits completes the run.\<close>

lemma harvest_records_good:
  "harvest_records le r recs n s = Inr (m, u) \<Longrightarrow> good s \<Longrightarrow> good u"
  using tx_evolvesD [OF harvest_records_evolves] by blast

lemma harvestTx_completes:
  assumes "good s" "hook_ok (le_env le)" "harvestTx le r recs status s = Inr (x, t)"
  shows "\<exists>r'. find_run (run_id r) t = Some r' \<and> run_state r' = StateCompleted"
proof -
  from assms(3) obtain n u opts r1 where u: "harvest_records le r recs 0 s = Inr (n, u)"
    and tr: "TransitionTx (le_env le) (run_id r) StateCompleted opts u = Inr (r1, t)"
    unfolding harvestTx_def tx_bind_Inr tx_return_Inr by blast
  from TransitionTx_state [OF harvest_records_good [OF u assms(1)] assms(2) tr]
  show ?thesis by (auto simp: IsTerminal_iff)
qed

end
