(* ===== verification/Ladder_Answer.thy ===== *)
theory Ladder_Answer
  imports Recovery
begin

text \<open>
  \<open>internal/stage/ladderanswer.go\<close>: a person answers the card of an ended lineage with \<open>retry\<close>.  The
  answer is recorded on the card, the ended generation is fenced and the successor is created with its
  recovery attempts reset, in one transaction.  The choreography around it (the ledger note, the admission
  through \<open>Enqueue\<close>, the board column) and the answer \<open>cancel\<close> are not modelled here.
\<close>

section \<open>The card\<close>

text \<open>The answer's text is not a column of the model's ask rows: no modelled code reads it back.\<close>

definition closeLadderAskTx :: "string \<Rightarrow> time \<Rightarrow> unit dbtx" where
  "closeLadderAskTx aid now =
     tx_bind (tx_read (\<lambda>s. tbl_count (\<lambda>a. ask_id a = aid \<and> ask_status a = ''open'') (t_asks s))) (\<lambda>n.
     tx_bind (tx_modify (\<lambda>s. s\<lparr>t_asks := tbl_update (\<lambda>a. ask_id a = aid \<and> ask_status a = ''open'')
        (\<lambda>a. a\<lparr>ask_status := ''answered'', ask_answered := now\<rparr>) (t_asks s)\<rparr>)) (\<lambda>_.
     if n \<noteq> 1 then tx_fail (NoOpenLadderCard aid) else tx_return ()))"

section \<open>The successor a person grants\<close>

definition retry_dispatch :: "run_row \<Rightarrow> string" where
  "retry_dispatch r = run_id r @ ''#answered-retry#g'' @ dec_int (wrap64 (run_generation r + 1))"

definition retry_row :: "run_row \<Rightarrow> new_run" where
  "retry_row r =
     \<lparr>nr_id = run_id r @ ''.g'' @ dec_int (wrap64 (run_generation r + 1)), nr_user = run_user r,
      nr_task = run_task r, nr_substrate = run_substrate r, nr_lane = run_lane r,
      nr_workspace = run_workspace r, nr_ceiling_time = run_ceiling_time r,
      nr_ceiling_steps = run_ceiling_steps r, nr_ceiling_cost = run_ceiling_cost r,
      nr_state = state_name StateQueued, nr_generation = wrap64 (run_generation r + 1),
      nr_parent = run_id r, nr_dispatch = retry_dispatch r, nr_attempts = 0\<rparr>"

definition retry_detail :: "run_row \<Rightarrow> string \<Rightarrow> string \<Rightarrow> raw" where
  "retry_detail r aid actor = marshal (JObj
     [(''parent_run_id'', JStr (run_id r)), (''parent_generation'', json_int (run_generation r)),
      (''dispatch_id'', JStr (retry_dispatch r)), (''answered_ask'', JStr aid), (''actor'', JStr actor)])"

text \<open>\<open>now\<close> is the clock of the answer surface; the run store has its own in \<open>env\<close>.\<close>

definition ladderRetryTx :: "env \<Rightarrow> time \<Rightarrow> string \<Rightarrow> string \<Rightarrow> run_row \<Rightarrow> unit dbtx" where
  "ladderRetryTx env now actor aid r =
     tx_bind (closeLadderAskTx aid now) (\<lambda>_.
     tx_bind (BumpGenerationTx env (run_id r)) (\<lambda>_.
     tx_bind (CreateTx env (retry_row r) EventForked (retry_detail r aid actor)) (\<lambda>_.
     tx_return ())))"

section \<open>What it keeps\<close>

lemma closeLadderAskTx_Inr:
  "closeLadderAskTx aid now s = Inr (x, t) \<longleftrightarrow>
     tbl_count (\<lambda>a. ask_id a = aid \<and> ask_status a = ''open'') (t_asks s) = 1 \<and>
     t = s\<lparr>t_asks := tbl_update (\<lambda>a. ask_id a = aid \<and> ask_status a = ''open'')
        (\<lambda>a. a\<lparr>ask_status := ''answered'', ask_answered := now\<rparr>) (t_asks s)\<rparr>"
  by (auto simp: closeLadderAskTx_def tx_simps)

lemma closeLadderAskTx_evolves: "tx_rel evolves (closeLadderAskTx aid now)"
  by (rule tx_relI) (auto simp: closeLadderAskTx_Inr intro!: evolves_cong)

lemma ladderRetryTx_evolves: "tx_rel evolves (ladderRetryTx env now actor aid r)"
proof -
  have "tx_rel evolves (CreateTx env (retry_row r) EventForked (retry_detail r aid actor))"
    by (rule CreateTx_evolves) (simp_all add: retry_row_def wrap64_max)
  then show ?thesis
    unfolding ladderRetryTx_def by (intro evolve.frame_rules closeLadderAskTx_evolves BumpGenerationTx_evolves)
qed

text \<open>
  A card is answered once: after a retry it is no open card any more, and answering it again fails without
  a write.
\<close>

lemma answered_is_closed:
  assumes p: "p = (\<lambda>a. ask_id a = aid \<and> ask_status a = ''open'')"
  shows "tbl_count p (tbl_update p (\<lambda>a. a\<lparr>ask_status := ''answered'', ask_answered := now\<rparr>) rows) = 0"
  unfolding tbl_count_0
proof
  fix a assume "a \<in> set (tbl_update p (\<lambda>a. a\<lparr>ask_status := ''answered'', ask_answered := now\<rparr>) rows)"
  then obtain b where "a = (if p b then b\<lparr>ask_status := ''answered'', ask_answered := now\<rparr> else b)"
    unfolding tbl_update_def set_map by (elim imageE)
  then show "\<not> p a" by (cases "p b") (simp_all add: p)
qed

lemma ladderRetryTx_once:
  assumes "ladderRetryTx env now actor aid r s = Inr (x, t)"
  shows "LoadOpenLadderCard dec aid t = Inl (NoOpenLadderCard aid)"
    and "write_tx (ladderRetryTx env' now' actor' aid r') t = (Inl (NoOpenLadderCard aid), t)"
proof -
  obtain u v w where c: "closeLadderAskTx aid now s = Inr ((), u)"
    "BumpGenerationTx env (run_id r) u = Inr (v, w)" "\<exists>c. CreateTx env (retry_row r) EventForked (retry_detail r aid actor) w = Inr (c, t)"
    using assms by (auto simp: ladderRetryTx_def tx_simps)
  have "t_asks w = t_asks u" using c(2) by (auto simp: BumpGenerationTx_def tx_simps exec_update_runs_Inr)
  moreover have "t_asks t = t_asks w" using c(3) by (auto elim!: CreateTx_Inr)
  ultimately have closed: "tbl_count (\<lambda>a. ask_id a = aid \<and> ask_status a = ''open'') (t_asks t) = 0"
    using c(1) by (simp add: closeLadderAskTx_Inr answered_is_closed [OF refl])
  then show "LoadOpenLadderCard dec aid t = Inl (NoOpenLadderCard aid)"
    unfolding tbl_count_0 tbl_find_None [symmetric] by (simp add: LoadOpenLadderCard_def)
  have "closeLadderAskTx aid now t = Inl (NoOpenLadderCard aid)" for now
    using closed by (simp add: closeLadderAskTx_def tx_read_def tx_modify_def tx_bind_def tx_fail_def)
  then show "write_tx (ladderRetryTx env' now' actor' aid r') t = (Inl (NoOpenLadderCard aid), t)"
    by (simp add: ladderRetryTx_def tx_bind_def write_tx_def)
qed

end
