(* ===== verification/Freshness.thy ===== *)
theory Freshness
  imports Run_Store
begin

text \<open>
  \<open>internal/run/freshness.go\<close>: the freshness re-validation on a stale resume.  Go maps are
  association lists (a lookup is \<open>map_of\<close>, the key set is iterated in sorted order as the code
  does); a reason is a constructor carrying what its text names.  \<open>internal/run/canceldetail.go\<close>,
  the one detail a human cancel writes, is at the end.
\<close>

definition keyFreshnessMaxAge :: string where "keyFreshnessMaxAge = ''freshness.max_age''"

record fingerprint =
  fp_repo_head :: string
  fp_source_hashes :: "(string \<times> string) list"
  fp_spec_plan :: string
  fp_price_table :: string
  fp_cited_entries :: "(string \<times> string) list"

record version_fields =
  vf_model :: string
  vf_invocation :: string
  vf_tool_schema :: string
  vf_prompt_schema :: string

record freshness_input =
  fi_checkpoint :: time
  fi_stored :: fingerprint
  fi_current :: fingerprint
  fi_stored_versions :: version_fields
  fi_current_versions :: version_fields
  fi_sibling_accept :: bool

datatype reason =
    AgeExceeded duration duration
  | RepoHeadMoved
  | SpecPlanChanged
  | PriceTableChanged
  | NoLongerObservable string string
  | KeyChanged string string
  | ModelChanged
  | InvocationChanged
  | ToolSchemaChanged
  | PromptSchemaChanged
  | SiblingAccepted

record freshness =
  fr_fresh :: bool
  fr_reasons :: "reason list"

text \<open>\<open>slices.Sorted(maps.Keys(m))\<close>.\<close>

definition sorted_keys :: "(string \<times> string) list \<Rightarrow> string list" where
  "sorted_keys m = sort (remdups (map fst m))"

definition mapDrift ::
  "string \<Rightarrow> (string \<times> string) list \<Rightarrow> (string \<times> string) list \<Rightarrow> reason list" where
  "mapDrift kind stored current = concat (map (\<lambda>k.
     case map_of current k of
       None \<Rightarrow> [NoLongerObservable kind k]
     | Some cur \<Rightarrow> if Some cur \<noteq> map_of stored k then [KeyChanged kind k] else [])
     (sorted_keys stored))"

definition fingerprintDrift :: "fingerprint \<Rightarrow> fingerprint \<Rightarrow> reason list" where
  "fingerprintDrift stored current =
     (if fp_repo_head stored \<noteq> fp_repo_head current then [RepoHeadMoved] else []) @
     (if fp_spec_plan stored \<noteq> fp_spec_plan current then [SpecPlanChanged] else []) @
     (if fp_price_table stored \<noteq> fp_price_table current then [PriceTableChanged] else []) @
     mapDrift ''source'' (fp_source_hashes stored) (fp_source_hashes current) @
     mapDrift ''cited knowledge entry'' (fp_cited_entries stored) (fp_cited_entries current)"

definition versionDrift :: "version_fields \<Rightarrow> version_fields \<Rightarrow> reason list" where
  "versionDrift stored current =
     (if vf_model stored \<noteq> vf_model current then [ModelChanged] else []) @
     (if vf_invocation stored \<noteq> vf_invocation current then [InvocationChanged] else []) @
     (if vf_tool_schema stored \<noteq> vf_tool_schema current then [ToolSchemaChanged] else []) @
     (if vf_prompt_schema stored \<noteq> vf_prompt_schema current then [PromptSchemaChanged] else [])"

definition EvaluateFreshness ::
  "settings \<Rightarrow> freshness_input \<Rightarrow> time \<Rightarrow> error + freshness" where
  "EvaluateFreshness cfg inp now =
     (case read_duration cfg keyFreshnessMaxAge of
        Inl e \<Rightarrow> Inl e
      | Inr maxAge \<Rightarrow>
          (let reasons =
             (if \<not> is_zero_time (fi_checkpoint inp) \<and> time_sub now (fi_checkpoint inp) > maxAge
              then [AgeExceeded (time_sub now (fi_checkpoint inp)) maxAge] else []) @
             fingerprintDrift (fi_stored inp) (fi_current inp) @
             versionDrift (fi_stored_versions inp) (fi_current_versions inp) @
             (if fi_sibling_accept inp then [SiblingAccepted] else [])
           in Inr \<lparr>fr_fresh = (reasons = []), fr_reasons = reasons\<rparr>))"

record sibling_run =
  sr_run :: string
  sr_checkpoint :: time
  sr_fingerprint :: fingerprint
  sr_versions :: version_fields

definition sibling_input :: "sibling_run \<Rightarrow> freshness_input" where
  "sibling_input r =
     \<lparr>fi_checkpoint = sr_checkpoint r, fi_stored = sr_fingerprint r, fi_current = sr_fingerprint r,
      fi_stored_versions = sr_versions r, fi_current_versions = sr_versions r,
      fi_sibling_accept = True\<rparr>"

fun FireSiblingAccept :: "settings \<Rightarrow> sibling_run list \<Rightarrow> time \<Rightarrow> error + string list" where
  "FireSiblingAccept cfg [] now = Inr []"
| "FireSiblingAccept cfg (r # rs) now =
     (case EvaluateFreshness cfg (sibling_input r) now of
        Inl e \<Rightarrow> Inl e
      | Inr fr \<Rightarrow> (case FireSiblingAccept cfg rs now of
            Inl e \<Rightarrow> Inl e
          | Inr routed \<Rightarrow> Inr (if fr_fresh fr then routed else sr_run r # routed)))"

section \<open>The cancel detail\<close>

definition CancelCauseHuman :: string where "CancelCauseHuman = ''human cancel (4.5)''"

definition CancelDetail :: "string \<Rightarrow> bool \<Rightarrow> string \<Rightarrow> string \<Rightarrow> raw" where
  "CancelDetail actor ladderInvoked askID reason = marshal (JObj
     ([(''cause'', JStr CancelCauseHuman), (''actor'', JStr actor),
       (''ladder_invoked'', JBool ladderInvoked)] @
      opt_str ''ask_id'' askID @ opt_str ''reason'' reason))"

section \<open>Lemmas\<close>

lemma set_sorted_keys [simp]: "set (sorted_keys m) = fst ` set m"
  by (simp add: sorted_keys_def)

lemma mapDrift_Nil:
  "mapDrift kind stored current = [] \<longleftrightarrow> (\<forall>k\<in>fst ` set stored. map_of current k = map_of stored k)"
proof -
  have same: "(case map_of current k of None \<Rightarrow> [NoLongerObservable kind k]
      | Some cur \<Rightarrow> if Some cur \<noteq> map_of stored k then [KeyChanged kind k] else []) = []
    \<longleftrightarrow> map_of current k = map_of stored k" if k: "k \<in> fst ` set stored" for k
  proof -
    obtain v where "map_of stored k = Some v"
      using k by (cases "map_of stored k") (simp_all add: map_of_eq_None_iff)
    then show ?thesis by (simp split: option.splits)
  qed
  show ?thesis
    unfolding mapDrift_def concat_eq_Nil_conv using same by simp
qed

lemma mapDrift_self [simp]: "mapDrift kind m m = []"
  by (simp add: mapDrift_Nil)

lemma fingerprintDrift_self [simp]: "fingerprintDrift fp fp = []"
  by (simp add: fingerprintDrift_def)

lemma versionDrift_self [simp]: "versionDrift v v = []"
  by (simp add: versionDrift_def)

lemma versionDrift_Nil: "versionDrift a b = [] \<longleftrightarrow> (a :: version_fields) = b"
  by (cases a; cases b) (simp add: versionDrift_def)

lemma CancelDetail_recognised:
  "json_extract (CancelDetail actor invoker ask reason) [''cause''] = Some CancelCauseHuman"
  by (simp add: CancelDetail_def json_extract_def)

end
