(* ===== verification/Limit_Events.thy ===== *)
theory Limit_Events
  imports Platform_Db
begin

text \<open>
  \<open>internal/scheduler/limits.go\<close>: the five-class limit taxonomy.  \<open>Classify\<close> is a pure, total
  function of a wire signal and three configured values; its ladder is transcribed test by test.  The
  \<open>Reason\<close> texts of an action are not modelled.  Text tests are ASCII, as in the source.  A forwarded
  payload is decoded field by field as \<open>json.Unmarshal\<close> does (case-insensitive keys, nulls ignored,
  later fields win, a type mismatch is an error); \<open>time.Parse\<close> is a parameter.
\<close>

definition laneAnthropic :: string where "laneAnthropic = ''anthropic''"
definition laneZAI :: string where "laneZAI = ''zai''"
definition laneKimi :: string where "laneKimi = ''kimi''"

definition DocumentedTransient :: string where "DocumentedTransient = ''transient''"
definition DocumentedDepletion :: string where "DocumentedDepletion = ''depletion''"
definition DocumentedModelDrift :: string where "DocumentedModelDrift = ''model-drift''"
definition DocumentedEndpointDefect :: string where "DocumentedEndpointDefect = ''endpoint-defect''"

lemmas documented_defs = DocumentedTransient_def DocumentedDepletion_def DocumentedModelDrift_def
  DocumentedEndpointDefect_def

definition zaiRateLimit :: string where "zaiRateLimit = ''1302''"
definition zaiOverloaded :: string where "zaiOverloaded = ''1305''"
definition zaiInsufficientCredit :: string where "zaiInsufficientCredit = ''1113''"
definition zaiUnknownModel :: string where "zaiUnknownModel = ''1211''"

lemmas zai_defs = zaiRateLimit_def zaiOverloaded_def zaiInsufficientCredit_def zaiUnknownModel_def

datatype limit_class =
    ClassNone | ClassTransientShed | ClassDepletionSignal | ClassDepletionNoSignal
  | ClassAuthPolicy | ClassEngineCeiling

datatype action_kind =
    ActionContinue | ActionRetryInPlace | ActionParkQuota | ActionParkProbe
  | ActionLaneFreeze | ActionDiedAtGate

datatype surface_kind = SurfaceNone | SurfaceEndpointDefect | SurfaceModelDrift

record limit_signal =
  ls_lane :: string
  ls_status :: int
  ls_code :: string
  ls_rate_status :: string
  ls_reset :: time
  ls_body :: string
  ls_valid_credentials :: bool
  ls_engine_exhausted :: bool
  ls_endpoint_verified :: bool
  ls_documented :: string

record limit_action =
  la_class :: limit_class
  la_kind :: action_kind
  la_surface :: surface_kind
  la_retry_cap :: int
  la_retry_ratio :: rat
  la_resume :: time
  la_probe_max :: duration

record limit_config =
  lc_retry_cap :: int
  lc_retry_ratio :: rat
  lc_probe_max :: duration

definition LoadLimitConfig :: "settings \<Rightarrow> error + limit_config" where
  "LoadLimitConfig cfg =
     (case read_int cfg ''limit.retry_cap'' of
        Inl e \<Rightarrow> Inl e
      | Inr cap \<Rightarrow> (case read_float cfg ''limit.retry_budget_ratio'' of
            Inl e \<Rightarrow> Inl e
          | Inr ratio \<Rightarrow> (case read_duration cfg ''limit.probe_interval_max'' of
                Inl e \<Rightarrow> Inl e
              | Inr probe \<Rightarrow> Inr \<lparr>lc_retry_cap = cap, lc_retry_ratio = ratio, lc_probe_max = probe\<rparr>)))"

text \<open>The composite literals \<open>Action{...}\<close>, one per shape.\<close>

definition act :: "limit_class \<Rightarrow> action_kind \<Rightarrow> surface_kind \<Rightarrow> limit_action" where
  "act cls kind surface = \<lparr>la_class = cls, la_kind = kind, la_surface = surface, la_retry_cap = 0,
     la_retry_ratio = 0, la_resume = 0, la_probe_max = 0\<rparr>"

definition freeze :: limit_action where
  "freeze = act ClassAuthPolicy ActionLaneFreeze SurfaceNone"

definition retry :: "limit_config \<Rightarrow> limit_action" where
  "retry cfg = (act ClassTransientShed ActionRetryInPlace SurfaceNone)
     \<lparr>la_retry_cap := lc_retry_cap cfg, la_retry_ratio := lc_retry_ratio cfg\<rparr>"

definition park_quota :: "time \<Rightarrow> limit_action" where
  "park_quota t = (act ClassDepletionSignal ActionParkQuota SurfaceNone)\<lparr>la_resume := t\<rparr>"

definition park_probe :: "limit_config \<Rightarrow> limit_action" where
  "park_probe cfg = (act ClassDepletionNoSignal ActionParkProbe SurfaceNone)
     \<lparr>la_probe_max := lc_probe_max cfg\<rparr>"

definition surface :: "surface_kind \<Rightarrow> limit_action" where
  "surface k = act ClassNone ActionContinue k"

lemmas action_defs = act_def freeze_def retry_def park_quota_def park_probe_def surface_def

section \<open>Text tests\<close>

definition contains_any :: "string list \<Rightarrow> string \<Rightarrow> bool" where
  "contains_any kws body = list_ex (\<lambda>kw. str_contains (to_lower body) kw) kws"

definition looksLikeRevocation :: "string \<Rightarrow> bool" where
  "looksLikeRevocation body =
     contains_any [''suspend'', ''banned'', ''revoke'', ''prohibit'', ''deactivat''] body"

definition looksLikePolicyBan :: "string \<Rightarrow> bool" where
  "looksLikePolicyBan body =
     contains_any [''policy'', ''banned'', ''ban'', ''violat'', ''prohibit'', ''suspend''] body"

definition looksLikeDocumentedRevocation :: "string \<Rightarrow> bool" where
  "looksLikeDocumentedRevocation body =
     (if body = [] then False
      else if looksLikeRevocation body \<or> looksLikePolicyBan body then True
      else str_contains (to_lower body) ''terminat'')"

section \<open>The ladder\<close>

definition auth_status :: "int \<Rightarrow> bool" where
  "auth_status st \<longleftrightarrow> st = 401 \<or> st = 402 \<or> st = 403"

definition exemptsAuthStatusFreeze :: "limit_signal \<Rightarrow> bool" where
  "exemptsAuthStatusFreeze sig =
     (if \<not> auth_status (ls_status sig) then False
      else if ls_documented sig \<noteq> DocumentedDepletion \<and> ls_documented sig \<noteq> DocumentedModelDrift
      then False
      else if looksLikeDocumentedRevocation (ls_body sig) then False
      else True)"

definition classifyDocumentedSignal :: "limit_signal \<Rightarrow> limit_config \<Rightarrow> limit_action option" where
  "classifyDocumentedSignal sig cfg =
     (if ls_documented sig = DocumentedModelDrift then Some (surface SurfaceModelDrift)
      else if ls_documented sig = DocumentedEndpointDefect then Some (surface SurfaceEndpointDefect)
      else if ls_documented sig = DocumentedDepletion then
        (if \<not> is_zero_time (ls_reset sig) then Some (park_quota (ls_reset sig))
         else Some (park_probe cfg))
      else if ls_documented sig = DocumentedTransient then
        (if ls_valid_credentials sig \<and> looksLikeDocumentedRevocation (ls_body sig) then Some freeze
         else Some (retry cfg))
      else None)"

definition zaiAuthCodes :: "string list" where
  "zaiAuthCodes = [''1000'', ''1001'', ''1003'', ''1220'']"

definition classifyZAICode :: "limit_signal \<Rightarrow> limit_config \<Rightarrow> limit_action option" where
  "classifyZAICode sig cfg =
     (if ls_code sig \<in> set zaiAuthCodes then Some freeze
      else if ls_code sig = zaiUnknownModel then Some (surface SurfaceModelDrift)
      else if ls_code sig = zaiInsufficientCredit \<and> \<not> ls_endpoint_verified sig
      then Some (surface SurfaceEndpointDefect)
      else if ls_code sig = zaiRateLimit \<or> ls_code sig = zaiOverloaded then
        (if ls_valid_credentials sig \<and> ls_body sig \<noteq> [] \<and> looksLikeRevocation (ls_body sig)
         then Some freeze else Some (retry cfg))
      else if ls_code sig = zaiInsufficientCredit then Some (park_probe cfg)
      else if \<not> is_zero_time (ls_reset sig) then Some (park_quota (ls_reset sig))
      else Some (park_probe cfg))"

definition isTransient :: "limit_signal \<Rightarrow> bool" where
  "isTransient sig =
     (if ls_lane sig = laneAnthropic then
        ls_status sig = 529 \<or>
        (ls_status sig = 429 \<and> is_zero_time (ls_reset sig) \<and> ls_rate_status sig \<noteq> ''rejected'')
      else False)"

definition isDepletion :: "limit_signal \<Rightarrow> bool" where
  "isDepletion sig =
     (if ls_lane sig = laneAnthropic then ls_rate_status sig = ''rejected'' \<or> ls_status sig = 429
      else if ls_lane sig = laneZAI \<or> ls_lane sig = laneKimi then ls_status sig = 429
      else True)"

definition isDepletionNoSignal :: "limit_signal \<Rightarrow> bool" where
  "isDepletionNoSignal sig =
     (if ls_lane sig = laneZAI \<or> ls_lane sig = laneKimi then ls_status sig = 429
      else ls_rate_status sig = ''rejected'' \<or> ls_status sig = 429)"

text \<open>The tail of the ladder, after every coded and documented verdict.\<close>

definition classifyGeneral :: "limit_signal \<Rightarrow> limit_config \<Rightarrow> limit_action" where
  "classifyGeneral sig cfg =
     (if ls_valid_credentials sig \<and> ls_body sig \<noteq> [] \<and> looksLikePolicyBan (ls_body sig) then freeze
      else if isTransient sig then retry cfg
      else if \<not> is_zero_time (ls_reset sig) \<and> isDepletion sig then park_quota (ls_reset sig)
      else if isDepletionNoSignal sig then park_probe cfg
      else surface SurfaceNone)"

definition Classify :: "limit_signal \<Rightarrow> limit_config \<Rightarrow> limit_action" where
  "Classify sig cfg =
     (case (if exemptsAuthStatusFreeze sig then classifyDocumentedSignal sig cfg else None) of
        Some a \<Rightarrow> a
      | None \<Rightarrow>
          if auth_status (ls_status sig) then freeze
          else if ls_engine_exhausted sig then act ClassEngineCeiling ActionDiedAtGate SurfaceNone
          else case (if ls_lane sig = laneZAI \<and> ls_code sig \<noteq> [] then classifyZAICode sig cfg else None) of
            Some a \<Rightarrow> a
          | None \<Rightarrow> (case classifyDocumentedSignal sig cfg of
                Some a \<Rightarrow> a
              | None \<Rightarrow> classifyGeneral sig cfg))"

section \<open>Decoding a forwarded payload\<close>

record wire_payload =
  wp_lane :: string
  wp_code :: string
  wp_status :: int
  wp_reset :: string
  wp_body :: string
  wp_verified :: bool
  wp_known :: bool
  wp_documented :: string

definition empty_payload :: wire_payload where
  "empty_payload = \<lparr>wp_lane = [], wp_code = [], wp_status = 0, wp_reset = [], wp_body = [],
     wp_verified = False, wp_known = False, wp_documented = []\<rparr>"

definition as_string :: "json \<Rightarrow> (string \<Rightarrow> wire_payload \<Rightarrow> wire_payload) \<Rightarrow> wire_payload \<Rightarrow> wire_payload option" where
  "as_string v put w = (case v of JNull \<Rightarrow> Some w | JStr s \<Rightarrow> Some (put s w) | _ \<Rightarrow> None)"

definition as_bool :: "json \<Rightarrow> (bool \<Rightarrow> wire_payload \<Rightarrow> wire_payload) \<Rightarrow> wire_payload \<Rightarrow> wire_payload option" where
  "as_bool v put w = (case v of JNull \<Rightarrow> Some w | JBool b \<Rightarrow> Some (put b w) | _ \<Rightarrow> None)"

definition as_int :: "json \<Rightarrow> (int \<Rightarrow> wire_payload \<Rightarrow> wire_payload) \<Rightarrow> wire_payload \<Rightarrow> wire_payload option" where
  "as_int v put w = (case v of JNull \<Rightarrow> Some w
     | JNum lit \<Rightarrow> map_option (\<lambda>i. put i w) (parse_int lit) | _ \<Rightarrow> None)"

definition decode_field :: "string \<Rightarrow> json \<Rightarrow> wire_payload \<Rightarrow> wire_payload option" where
  "decode_field k v w = (let key = to_lower k in
     if key = ''lane'' then as_string v (\<lambda>x w. w\<lparr>wp_lane := x\<rparr>) w
     else if key = ''error_code'' then as_string v (\<lambda>x w. w\<lparr>wp_code := x\<rparr>) w
     else if key = ''http_status'' then as_int v (\<lambda>x w. w\<lparr>wp_status := x\<rparr>) w
     else if key = ''reset_at'' then as_string v (\<lambda>x w. w\<lparr>wp_reset := x\<rparr>) w
     else if key = ''body_text'' then as_string v (\<lambda>x w. w\<lparr>wp_body := x\<rparr>) w
     else if key = ''endpoint_verified'' then as_bool v (\<lambda>x w. w\<lparr>wp_verified := x\<rparr>) w
     else if key = ''known'' then as_bool v (\<lambda>x w. w\<lparr>wp_known := x\<rparr>) w
     else if key = ''documented_class'' then as_string v (\<lambda>x w. w\<lparr>wp_documented := x\<rparr>) w
     else Some w)"

fun decode_fields :: "(string \<times> json) list \<Rightarrow> wire_payload \<Rightarrow> wire_payload option" where
  "decode_fields [] w = Some w"
| "decode_fields ((k, v) # fs) w = (case decode_field k v w of
     None \<Rightarrow> None | Some w' \<Rightarrow> decode_fields fs w')"

definition decode_payload :: "raw \<Rightarrow> wire_payload option" where
  "decode_payload r = (case raw_json r of
       Some (JObj fs) \<Rightarrow> decode_fields fs empty_payload
     | Some JNull \<Rightarrow> Some empty_payload
     | _ \<Rightarrow> None)"

definition empty_signal :: limit_signal where
  "empty_signal = \<lparr>ls_lane = [], ls_status = 0, ls_code = [], ls_rate_status = [], ls_reset = 0,
     ls_body = [], ls_valid_credentials = False, ls_engine_exhausted = False,
     ls_endpoint_verified = False, ls_documented = []\<rparr>"

text \<open>The signal, and whether an error is returned beside it.\<close>

definition SignalFromPayload :: "(string \<Rightarrow> time option) \<Rightarrow> raw \<Rightarrow> limit_signal \<times> bool" where
  "SignalFromPayload parse r = (case decode_payload r of
       None \<Rightarrow> (empty_signal, True)
     | Some w \<Rightarrow>
         (let sig = empty_signal\<lparr>ls_lane := wp_lane w, ls_code := wp_code w, ls_status := wp_status w,
                ls_body := wp_body w, ls_endpoint_verified := wp_verified w,
                ls_documented := wp_documented w\<rparr>
          in if wp_reset w = [] then (sig, False)
             else case parse (wp_reset w) of
               None \<Rightarrow> (sig, True)
             | Some t \<Rightarrow> (sig\<lparr>ls_reset := t\<rparr>, False)))"

text \<open>
  \<open>JitterInterval\<close> with the number \<open>draw n\<close> that \<open>Int63n n\<close> returns; \<open>None\<close> is the panic of
  \<open>Int63n\<close> on a non-positive bound.
\<close>

definition JitterInterval :: "(int \<Rightarrow> int) \<Rightarrow> duration \<Rightarrow> duration \<Rightarrow> duration option" where
  "JitterInterval draw base mx =
     (let base = (if base > mx then mx else base) in
      if base \<le> 0 then Some 0
      else if wrap64 (base + 1) \<le> 0 then None
      else Some (draw (wrap64 (base + 1))))"

section \<open>Lemmas\<close>

lemma action_class [simp]:
  "la_class freeze = ClassAuthPolicy" "la_class (retry cfg) = ClassTransientShed"
  "la_class (park_quota t) = ClassDepletionSignal" "la_class (park_probe cfg) = ClassDepletionNoSignal"
  "la_class (surface k) = ClassNone" "la_class (act c a k) = c"
  "la_kind freeze = ActionLaneFreeze" "la_kind (retry cfg) = ActionRetryInPlace"
  "la_kind (park_quota t) = ActionParkQuota" "la_kind (park_probe cfg) = ActionParkProbe"
  "la_kind (surface k) = ActionContinue" "la_kind (act c a k) = a"
  by (simp_all add: action_defs)

lemma documented_distinct [simp]:
  "DocumentedTransient \<noteq> DocumentedDepletion" "DocumentedTransient \<noteq> DocumentedModelDrift"
  "DocumentedTransient \<noteq> DocumentedEndpointDefect" "DocumentedDepletion \<noteq> DocumentedModelDrift"
  "DocumentedDepletion \<noteq> DocumentedEndpointDefect" "DocumentedModelDrift \<noteq> DocumentedEndpointDefect"
  "DocumentedDepletion \<noteq> DocumentedTransient" "DocumentedModelDrift \<noteq> DocumentedTransient"
  "DocumentedEndpointDefect \<noteq> DocumentedTransient" "DocumentedModelDrift \<noteq> DocumentedDepletion"
  "DocumentedEndpointDefect \<noteq> DocumentedDepletion" "DocumentedEndpointDefect \<noteq> DocumentedModelDrift"
  by (simp_all add: documented_defs)

lemma zai_distinct [simp]: "laneZAI \<noteq> laneAnthropic" "laneAnthropic \<noteq> laneZAI"
    "laneKimi \<noteq> laneAnthropic" "laneAnthropic \<noteq> laneKimi"
  by (simp_all add: laneZAI_def laneAnthropic_def laneKimi_def)

lemma revocation_is_documented:
  "body \<noteq> [] \<Longrightarrow> looksLikeRevocation body \<or> looksLikePolicyBan body \<Longrightarrow>
   looksLikeDocumentedRevocation body"
  by (simp add: looksLikeDocumentedRevocation_def)

end
