(* ===== verification/Platform_Steps.thy ===== *)
theory Platform_Steps
  imports Scheduler Ladder_Answer Freshness Limit_Events
begin

text \<open>
  The platform as a transition system: one rule per write transaction of a modelled component, in
  any interleaving (each component runs in its own goroutines; the database serialises their write
  transactions).  \<open>platform_keeps\<close> is the frame of a step: the run invariant with progress, the queue
  invariant and the journal invariant together; reachability and the platform-wide invariants follow
  by rule induction.  A run-end hook is any transaction that respects the frame.
\<close>

definition platform_keeps :: "(string \<Rightarrow> string) \<Rightarrow> db \<Rightarrow> db \<Rightarrow> bool" where
  "platform_keeps sha s t \<longleftrightarrow> sched_keeps s t \<and> journal_keeps sha s t"

interpretation platform: tx_frame "platform_keeps sha" for sha
  by unfold_locales
     (auto simp: platform_keeps_def sched.frame_refl journal.frame_refl
       intro: sched.frame_trans journal.frame_trans)

text \<open>Transactions that write neither the queue nor the journal.\<close>

definition same_tables :: "db \<Rightarrow> db \<Rightarrow> bool" where
  "same_tables s t \<longleftrightarrow> t_queue t = t_queue s \<and> t_effects t = t_effects s"

interpretation tables: tx_frame same_tables
  by unfold_locales (auto simp: same_tables_def)

lemma evolves_platform:
  assumes "tx_rel evolves m" "tx_rel same_tables m"
  shows "tx_rel (platform_keeps sha) m"
  using assms unfolding tx_rel_def platform_keeps_def same_tables_def
  by (metis sched_keeps_same_queue journal_keeps_same)

lemma sched_platform:
  assumes "tx_rel sched_keeps m" "\<And>s x t. m s = Inr (x, t) \<Longrightarrow> t_effects t = t_effects s"
  shows "tx_rel (platform_keeps sha) m"
  using assms unfolding tx_rel_def platform_keeps_def by (metis journal_keeps_same)

definition hook_frame :: "(string \<Rightarrow> string) \<Rightarrow> env \<Rightarrow> bool" where
  "hook_frame sha env \<longleftrightarrow> (\<forall>h r. env_hook env = Some h \<longrightarrow> tx_rel (platform_keeps sha) (h r))"

lemma hook_frame_sched: "hook_frame sha env \<Longrightarrow> sched_hook_ok env"
  unfolding hook_frame_def sched_hook_ok_def platform_keeps_def tx_rel_def by blast

lemma hook_frame_ok: "hook_frame sha env \<Longrightarrow> hook_ok env"
  by (rule sched_hook_ok_hook_ok) (rule hook_frame_sched)

section \<open>The basic transactions\<close>

lemma getTx_tables: "tx_rel same_tables (getTx rid)"
  by (simp add: getTx_def tables.rel_some)

lemma exec_update_tables: "tx_rel same_tables (exec_update_runs p f)"
  by (rule tx_relI) (auto simp: exec_update_runs_Inr same_tables_def)

lemma AppendTx_tables: "tx_rel same_tables (AppendTx cfg now a)"
  by (rule tx_relI) (auto simp: AppendTx_Inr same_tables_def)

lemma CreateTx_tables: "tx_rel same_tables (CreateTx env n ty detail)"
proof (rule tx_relI)
  fix s x t
  assume "CreateTx env n ty detail s = Inr (x, t)"
  then show "same_tables s t" by (rule CreateTx_Inr) (simp add: same_tables_def)
qed

lemma SetLeaseTx_tables: "tx_rel same_tables (SetLeaseTx env rid holder deadline hb)"
  unfolding SetLeaseTx_def by (intro tables.frame_rules exec_update_tables)

lemma RenewLeaseTx_tables: "tx_rel same_tables (RenewLeaseTx env rid holder deadline gen)"
  unfolding RenewLeaseTx_def by (intro tables.frame_rules exec_update_tables)

lemma BumpGenerationTx_tables: "tx_rel same_tables (BumpGenerationTx env rid)"
  unfolding BumpGenerationTx_def by (intro tables.frame_rules exec_update_tables getTx_tables)

lemma SetWorkspaceRef_tables: "tx_rel same_tables (SetWorkspaceRef rid ref)"
  unfolding SetWorkspaceRef_def by (intro tables.frame_rules exec_update_tables)

lemma SetDecidedLane_tables: "tx_rel same_tables (SetDecidedLane rid lane substrate)"
  unfolding SetDecidedLane_def by (intro tables.frame_rules exec_update_tables)

lemma CheckpointTx_tables: "tx_rel same_tables (CheckpointTx env n)"
proof (rule tx_relI)
  fix s x t
  assume "CheckpointTx env n s = Inr (x, t)"
  then show "same_tables s t" by (rule CheckpointTx_Inr) (simp add: same_tables_def)
qed

lemma ladder_card_tables: "tx_rel same_tables (ladder_card_tx le r kind ground summary detail)"
proof (rule tx_relI)
  fix s x t
  assume "ladder_card_tx le r kind ground summary detail s = Inr (x, t)"
  then show "same_tables s t"
    unfolding ladder_card_tx_def by (rule terminalCardTx_Inr) (simp add: same_tables_def)
qed

lemma forkTx_tables: "tx_rel same_tables (forkTx le r)"
  unfolding forkTx_def SuccessorByDispatchTx_def LastCheckpointTx_def
  by (intro tables.frame_rules BumpGenerationTx_tables CreateTx_tables)

lemma harvest_records_tables: "tx_rel same_tables (harvest_records le r recs n)"
proof (induction recs arbitrary: n)
  case Nil
  then show ?case by (simp add: tables.rel_return)
next
  case (Cons rec recs)
  then show ?case by (auto simp: harvestDup_def intro!: tables.frame_rules AppendTx_tables)
qed

lemmas basic_platform =
  SetLeaseTx_evolves [THEN evolves_platform, OF SetLeaseTx_tables]
  RenewLeaseTx_evolves [THEN evolves_platform, OF RenewLeaseTx_tables]
  BumpGenerationTx_evolves [THEN evolves_platform, OF BumpGenerationTx_tables]
  SetWorkspaceRef_evolves [THEN evolves_platform, OF SetWorkspaceRef_tables]
  SetDecidedLane_evolves [THEN evolves_platform, OF SetDecidedLane_tables]
  CheckpointTx_evolves [THEN evolves_platform, OF CheckpointTx_tables]
  forkTx_evolves [THEN evolves_platform, OF forkTx_tables]
  harvest_records_evolves [THEN evolves_platform, OF harvest_records_tables]
  ladder_card_evolves [THEN evolves_platform, OF ladder_card_tables]
  CreateTx_evolves [THEN evolves_platform, OF _ _ CreateTx_tables]
  AppendTx_evolves [THEN evolves_platform, OF _ AppendTx_tables]

text \<open>A transition: its own writes, then the hook.\<close>

lemma TransitionTx_platform:
  assumes "hook_frame sha env"
  shows "tx_rel (platform_keeps sha) (TransitionTx env rid to opts)"
proof (rule tx_relI)
  fix s r t
  assume "TransitionTx env rid to opts s = Inr (r, t)"
  then show "platform_keeps sha s t"
  proof (rule TransitionTx_Inr)
    fix cur payload u
    assume *: "find_run rid s = Some cur" "CanTransition (run_state cur) to"
      "0 \<le> next_generation cur to" "transition_payload (run_state cur) to opts = Inr payload"
      "u = transition_db env cur to payload s" "run_hook env to r u = Inr ((), t)"
    have "evolves s u" using transition_db_good [OF _ *(1-4)] *(5) by (auto simp: evolves_def)
    then have "platform_keeps sha s u"
      unfolding platform_keeps_def
      by (auto intro!: sched_keeps_same_queue journal_keeps_same simp: *(5) transition_db_def)
    moreover have "platform_keeps sha u t"
      using *(6) assms platform.frame_refl
      by (auto simp: run_hook_def hook_frame_def tx_rel_def tx_simps split: option.splits if_splits)
    ultimately show ?thesis by (rule platform.frame_trans)
  qed
qed

lemma update_queue_platform:
  "(\<And>s. sched_keeps s (update_queue p f s)) \<Longrightarrow> platform_keeps sha s (update_queue p f s)"
  by (simp add: platform_keeps_def journal_keeps_same)

section \<open>The composed transactions\<close>

lemma EnqueueTx_platform:
  assumes "hook_frame sha env" "EnqueueTx env rid cls s = Inr (x, t)"
  shows "platform_keeps sha s t"
proof -
  have sched: "sched_keeps s t"
    using EnqueueTx_keeps [OF hook_frame_sched [OF assms(1)]] assms(2) by (rule tx_relD)
  from assms(2) obtain r u v where "find_run rid s = Some r" and
    st: "(case run_state r of
          StateNew \<Rightarrow> tx_bind (TransitionTx env rid StateQueued
                        (sched_options ''queued and waiting its turn'')) (\<lambda>_. tx_return ())
        | StateQueued \<Rightarrow> tx_return ()
        | st \<Rightarrow> tx_fail (CannotEnqueue rid st)) s = Inr (v, u)"
    and m: "materializeQueueRowTx env (run_id r) (run_user r) cls u = Inr (x, t)"
    unfolding EnqueueTx_def tx_bind_Inr getTx_Inr by blast
  have "tx_rel (platform_keeps sha) (TransitionTx env rid StateQueued opts)" for opts
    by (rule TransitionTx_platform [OF assms(1)])
  then have "journal_keeps sha s u"
    using st by (cases "run_state r")
      (auto simp: tx_simps journal.frame_refl platform_keeps_def tx_rel_def)
  moreover have "t_effects t = t_effects u"
    using m by (auto simp: materializeQueueRowTx_def tx_simps split: if_splits)
  ultimately have "journal_keeps sha s t"
    using journal.frame_trans journal_keeps_same by blast
  with sched show ?thesis by (simp add: platform_keeps_def)
qed

lemma claimTx_platform:
  assumes "hook_frame sha env"
  shows "tx_rel (platform_keeps sha) (claimTx env deadline c)"
proof -
  have q: "sched_keeps s (update_queue (\<lambda>q. q_id q = c_queue c \<and> q_status q = QueueQueued)
      (\<lambda>q. q\<lparr>q_status := QueueClaimed, q_claimed_by := claimHolder, q_lease_deadline := deadline\<rparr>) s)" for s
    by (rule update_queue_keeps) (simp_all add: active_row_def)
  show ?thesis
    unfolding claimTx_def
    by (intro platform.frame_rules platform.rel_modify update_queue_platform q
        TransitionTx_platform [OF assms] basic_platform)
qed

text \<open>The receipt materialiser is a transaction that respects the frame.\<close>

definition receipts_frame :: "(string \<Rightarrow> string) \<Rightarrow> sched_env \<Rightarrow> bool" where
  "receipts_frame sha se \<longleftrightarrow> (\<forall>m rid. se_receipts se = Some m \<longrightarrow> tx_rel (platform_keeps sha) (m rid))"

lemma receipt_platform: "receipts_frame sha se \<Longrightarrow> tx_rel (platform_keeps sha) (receipt_tx se rid)"
  by (auto simp: receipt_tx_def receipts_frame_def intro: platform.rel_return split: option.splits)

lemma SettleQueuedTx_platform: "tx_rel (platform_keeps sha) (SettleQueuedTx rid)"
  unfolding SettleQueuedTx_def
  by (intro platform.rel_modify update_queue_platform settle_update_keeps)

lemma settle_platform:
  assumes "receipts_frame sha se"
  shows "tx_rel (platform_keeps sha) (settle_ended se x)"
    "tx_rel (platform_keeps sha) (settleTerminalTx se rid)"
  unfolding settle_ended_def settleTerminalTx_def
  by (intro platform.frame_rules platform.rel_modify update_queue_platform settle_update_keeps
      receipt_platform [OF assms])+

lemma harvestTx_platform:
  "hook_frame sha (le_env le) \<Longrightarrow> tx_rel (platform_keeps sha) (harvestTx le r recs status)"
  unfolding harvestTx_def by (intro platform.frame_rules basic_platform TransitionTx_platform)

lemma boundTx_platform:
  "hook_frame sha (le_env le) \<Longrightarrow> tx_rel (platform_keeps sha) (boundTx le r d sf mx)"
  unfolding boundTx_def noForkTx_def staleTx_def tombstoneTx_def
  by (intro platform.frame_rules basic_platform TransitionTx_platform)

lemma crashAndBoundTx_platform:
  "hook_frame sha (le_env le) \<Longrightarrow> tx_rel (platform_keeps sha) (crashAndBoundTx le r d sf mx status)"
  unfolding crashAndBoundTx_def by (intro platform.frame_rules TransitionTx_platform boundTx_platform)

lemma supersedeTx_platform:
  "hook_frame sha (le_env le) \<Longrightarrow> tx_rel (platform_keeps sha) (supersedeTx le pc r d)"
  unfolding supersedeTx_def SuccessorOfTx_def by (intro platform.frame_rules boundTx_platform)

lemma ladderRetryTx_platform: "tx_rel (platform_keeps sha) (ladderRetryTx env now actor aid r)"
proof (rule evolves_platform [OF ladderRetryTx_evolves])
  have "tx_rel same_tables (closeLadderAskTx aid n)" for n
    by (rule tx_relI) (auto simp: closeLadderAskTx_Inr same_tables_def)
  then show "tx_rel same_tables (ladderRetryTx env now actor aid r)"
    unfolding ladderRetryTx_def by (intro tables.frame_rules BumpGenerationTx_tables CreateTx_tables)
qed

section \<open>The journal writes the effects table only\<close>

definition effects_only :: "db \<Rightarrow> db \<Rightarrow> bool" where
  "effects_only s t \<longleftrightarrow> t_runs t = t_runs s \<and> t_events t = t_events s \<and> t_queue t = t_queue s"

interpretation effect_tbl: tx_frame effects_only
  by unfold_locales (auto simp: effects_only_def)

lemma set_effect_only: "tx_rel effects_only (set_effect eid f)"
  by (rule tx_relI) (auto simp: set_effect_Inr effects_only_def)

lemma insert_effect_only: "tx_rel effects_only (insert_effect e)"
  by (rule tx_relI) (auto simp: insert_effect_def effects_only_def split: if_splits)

lemma getEffectTx_only: "tx_rel effects_only (getEffectTx eid)"
  by (rule tx_relI) (auto simp: getEffectTx_Inr effects_only_def)

lemmas effect_writes = set_effect_only insert_effect_only getEffectTx_only

lemma journal_ops_only:
  "effects_only s (snd (Propose je drawn p s))"
  "effects_only s (snd (Approve je eid approver s))"
  "effects_only s (snd (finish je eid to result s))"
  "effects_only s (snd (Deny je eid actor why s))"
  by (auto simp: Propose_def ProposeTx_def Approve_def finish_def Deny_def effect_tbl.frame_refl
      intro!: effect_tbl.rel_write effect_tbl.frame_rules effect_writes split: option.splits)

lemma BeginExecute_only: "effects_only s (snd (BeginExecute je eid s))"
proof -
  have "effects_only s (snd (write_tx (begin_tx je expiry eid) s))" for expiry
    unfolding begin_tx_def
    by (rule effect_tbl.rel_write)
       (auto intro!: effect_tbl.frame_rules effect_writes split: option.splits)
  then show ?thesis
    unfolding BeginExecute_def
    by (auto simp: effect_tbl.frame_refl split: sum.splits prod.splits) (metis snd_conv)+
qed

lemma reconcile_effects_only: "effects_only s (snd (reconcile_effects je n es s))"
proof (induction es arbitrary: n s)
  case Nil
  then show ?case by (simp add: effect_tbl.frame_refl)
next
  case (Cons e es)
  show ?case
  proof (cases "eff_class e = ClassD")
    case True
    obtain r t where m: "MarkUnknown (je n) (eff_id e) crash_window_note s = (r, t)" by fastforce
    have t: "effects_only s t"
      using journal_ops_only(3) [of s "je n" "eff_id e" EffectUnknown "unknown_card crash_window_note"] m
      by (simp add: MarkUnknown_def)
    show ?thesis
      using True m t effect_tbl.frame_trans [OF t Cons.IH [of t "n + 1"]]
      by (cases r; cases "reconcile_effects je (n + 1) es t") auto
  next
    case False
    define t where "t = update_effects (\<lambda>r. eff_id r = eff_id e \<and> eff_state r = EffectExecuting)
          (\<lambda>r. r\<lparr>eff_state := EffectApproved, eff_updated := je_now (je n)\<rparr>) s"
    have t: "effects_only s t" by (simp add: t_def effects_only_def)
    have "snd (reconcile_effects je n (e # es) s) = snd (reconcile_effects je (n + 1) es t)"
      using False by (cases "eff_class e") (simp_all add: t_def Let_def split: prod.splits)
    with effect_tbl.frame_trans [OF t Cons.IH] show ?thesis by simp
  qed
qed

lemma effects_only_platform:
  "effects_only s t \<Longrightarrow> journal_keeps sha s t \<Longrightarrow> platform_keeps sha s t"
  unfolding platform_keeps_def effects_only_def
  by (auto intro!: sched_keeps_same_queue evolves_cong)

lemma journal_step_only: "effects_only s (snd (journal_step je op s))"
proof (cases op)
  case (OpBegin eid)
  then show ?thesis
    using BeginExecute_only [of s "je 0" eid] by (auto split: sum.splits prod.splits)
qed (auto simp: Succeed_def Fail_def MarkUnknown_def ReconcileInDoubt_def
    intro: journal_ops_only reconcile_effects_only)

lemma journal_step_platform:
  "je_sha (je 0) = sha \<Longrightarrow> platform_keeps sha s (snd (journal_step je op s))"
  by (intro effects_only_platform journal_step_only journal_step_keeps)

section \<open>The transition system\<close>

text \<open>
  One rule per committed write transaction.  The arguments a handler computed from earlier reads (the
  row a recovery pass scanned, the candidate a claim ranked) are arbitrary: nothing is assumed about
  how stale they are.  \<open>outside\<close> is any write of the components that are not modelled to the tables
  that are not constrained here (tasks, asks, checkpoints, lanes).
\<close>

inductive platform_step :: "(string \<Rightarrow> string) \<Rightarrow> db \<Rightarrow> db \<Rightarrow> bool" for sha where
  create: "CreateTx env n EventCreated detail s = Inr (r, t) \<Longrightarrow> nr_generation n \<le> int64_max \<Longrightarrow>
    platform_step sha s t"
| transition: "hook_frame sha env \<Longrightarrow> TransitionTx env rid to opts s = Inr (r, t) \<Longrightarrow>
    platform_step sha s t"
| lease: "SetLeaseTx env rid holder deadline hb s = Inr (u, t) \<Longrightarrow> platform_step sha s t"
| renew: "RenewLeaseTx env rid holder deadline gen s = Inr (ok, t) \<Longrightarrow> platform_step sha s t"
| workspace: "SetWorkspaceRef rid ref s = Inr (u, t) \<Longrightarrow> platform_step sha s t"
| decided_lane: "SetDecidedLane rid lane substrate s = Inr (u, t) \<Longrightarrow> platform_step sha s t"
| append: "AppendTx cfg now a s = Inr (v, t) \<Longrightarrow> neutral_type (ap_type a) \<Longrightarrow> platform_step sha s t"
| checkpoint: "CheckpointTx env nc s = Inr (c, t) \<Longrightarrow> platform_step sha s t"
| enqueue: "hook_frame sha env \<Longrightarrow> EnqueueTx env rid cls s = Inr (u, t) \<Longrightarrow> platform_step sha s t"
| materialize: "find_run rid s = Some r \<Longrightarrow> materializeQueueRowTx env rid (run_user r) cls s = Inr (u, t) \<Longrightarrow>
    platform_step sha s t"
| settle_queued: "SettleQueuedTx rid s = Inr (u, t) \<Longrightarrow> platform_step sha s t"
| settle_terminal: "receipts_frame sha se \<Longrightarrow> settleTerminalTx se rid s = Inr (u, t) \<Longrightarrow>
    platform_step sha s t"
| settle_row: "receipts_frame sha se \<Longrightarrow> settle_ended se row s = Inr (u, t) \<Longrightarrow> platform_step sha s t"
| hint: "platform_step sha s (snd (SetPriorityHint rid rank s))"
| claim: "hook_frame sha env \<Longrightarrow> claimTx env deadline c s = Inr (got, t) \<Longrightarrow> platform_step sha s t"
| harvest: "hook_frame sha (le_env le) \<Longrightarrow> harvestTx le row recs status s = Inr (h, t) \<Longrightarrow>
    platform_step sha s t"
| wedge: "platform_step sha s (snd (flagWedged le row stalled s))"
| crash: "hook_frame sha (le_env le) \<Longrightarrow> crashAndBoundTx le row d sf mx status s = Inr (b, t) \<Longrightarrow>
    platform_step sha s t"
| supersede: "hook_frame sha (le_env le) \<Longrightarrow> supersedeTx le pc row d s = Inr (b', t) \<Longrightarrow>
    platform_step sha s t"
| retry: "ladderRetryTx env now actor aid row s = Inr (u, t) \<Longrightarrow> platform_step sha s t"
| journal_op: "je_sha (je 0) = sha \<Longrightarrow> op \<noteq> OpReconcile \<Longrightarrow>
    platform_step sha s (snd (journal_step je op s))"
| in_doubt: "e0 \<in> set (t_effects s) \<Longrightarrow> eff_id e0 = eff_id e \<Longrightarrow> eff_class e0 = eff_class e \<Longrightarrow>
    platform_step sha s (snd (reconcile_effects je n [e] s))"
| outside: "t_runs t = t_runs s \<Longrightarrow> t_events t = t_events s \<Longrightarrow> t_queue t = t_queue s \<Longrightarrow>
    t_effects t = t_effects s \<Longrightarrow> platform_step sha s t"

lemma materialize_platform:
  assumes "find_run rid s = Some r" "materializeQueueRowTx env rid (run_user r) cls s = Inr (u, t)"
  shows "platform_keeps sha s t"
proof -
  have "t_effects t = t_effects s"
    using assms(2) by (auto simp: materializeQueueRowTx_def tx_simps split: if_splits)
  with materialize_keeps [OF assms(2,1)] show ?thesis
    by (auto simp: platform_keeps_def intro: journal_keeps_same)
qed

lemma hint_platform: "platform_keeps sha s (snd (SetPriorityHint rid rank s))"
proof -
  have "t_effects (snd (SetPriorityHint rid rank s)) = t_effects s"
    by (auto simp: SetPriorityHint_def Let_def)
  with SetPriorityHint_keeps show ?thesis by (simp add: platform_keeps_def journal_keeps_same)
qed

lemma wedge_platform: "platform_keeps sha s (snd (flagWedged le row stalled s))"
  unfolding flagWedged_def
  by (auto simp: Append_def run_append_def intro!: platform.rel_write basic_platform)

lemma outside_platform:
  assumes "t_runs t = t_runs s" "t_events t = t_events s" "t_queue t = t_queue s"
    "t_effects t = t_effects s"
  shows "platform_keeps sha s t"
  using assms unfolding platform_keeps_def
  by (auto intro!: sched_keeps_same_queue evolves_cong journal_keeps_same)

lemmas frame_step =
  basic_platform [THEN tx_relD] TransitionTx_platform [THEN tx_relD] EnqueueTx_platform
  SettleQueuedTx_platform [THEN tx_relD] settle_platform [THEN tx_relD]
  claimTx_platform [THEN tx_relD] harvestTx_platform [THEN tx_relD]
  crashAndBoundTx_platform [THEN tx_relD] supersedeTx_platform [THEN tx_relD]
  materialize_platform hint_platform wedge_platform journal_step_platform outside_platform
  ladderRetryTx_platform [THEN tx_relD]

lemma in_doubt_platform:
  assumes "e0 \<in> set (t_effects s)" "eff_id e0 = eff_id e" "eff_class e0 = eff_class e"
  shows "platform_keeps sha s (snd (reconcile_effects je n [e] s))"
  by (intro effects_only_platform reconcile_effects_only reconcile_effects_keeps)
     (use assms in auto)

lemma platform_step_keeps: "platform_step sha s t \<Longrightarrow> platform_keeps sha s t"
proof (induction rule: platform_step.induct)
  case (create env n detail s r t)
  then show ?case by (intro frame_step(10)) simp_all
next
  case (transition env s rid to opts r t)
  then show ?case by (rule frame_step)
next
  case (lease env rid holder deadline hb s u t)
  then show ?case by (rule frame_step)
next
  case (renew env rid holder deadline gen s ok t)
  then show ?case by (rule frame_step)
next
  case (workspace rid ref s u t)
  then show ?case by (rule frame_step)
next
  case (decided_lane rid lane substrate s u t)
  then show ?case by (rule frame_step)
next
  case (append cfg now a s v t)
  then show ?case by (metis frame_step(11))
next
  case (checkpoint env nc s c t)
  then show ?case by (rule frame_step)
next
  case (in_doubt e0 s e je n)
  then show ?case by (rule in_doubt_platform)
next
  case (outside t s)
  then show ?case by (rule outside_platform)
qed (rule frame_step; assumption)+

text \<open>Reachability from an empty database, and what holds of every reachable one.\<close>

definition reachable :: "(string \<Rightarrow> string) \<Rightarrow> db \<Rightarrow> bool" where
  "reachable sha s \<longleftrightarrow> (platform_step sha)\<^sup>*\<^sup>* empty_db s"

definition platform_ok :: "(string \<Rightarrow> string) \<Rightarrow> db \<Rightarrow> bool" where
  "platform_ok sha s \<longleftrightarrow> good s \<and> queue_ok s \<and> journal_ok sha s"

lemma empty_ok: "platform_ok sha empty_db"
  unfolding platform_ok_def
  by (auto simp: empty_good empty_journal_ok)
     (auto simp: queue_ok_def queue_keyed_def empty_db_def tbl_count_def)

lemma steps_keep: "(platform_step sha)\<^sup>*\<^sup>* s t \<Longrightarrow> platform_keeps sha s t"
  by (induction rule: rtranclp_induct)
     (auto intro: platform.frame_refl platform.frame_trans platform_step_keeps)

lemma platform_keeps_ok: "platform_keeps sha s t \<Longrightarrow> platform_ok sha s \<Longrightarrow> platform_ok sha t"
  unfolding platform_keeps_def platform_ok_def sched_keeps_def evolves_def journal_keeps_def by blast

lemma reachable_ok: "reachable sha s \<Longrightarrow> platform_ok sha s"
  unfolding reachable_def using steps_keep platform_keeps_ok empty_ok by blast

lemma reachable_empty: "reachable sha empty_db"
  by (simp add: reachable_def)

lemma reachable_step: "reachable sha s \<Longrightarrow> platform_step sha s t \<Longrightarrow> reachable sha t"
  unfolding reachable_def by (rule rtranclp.rtrancl_into_rtrancl)

lemma steps_progress: "reachable sha s \<Longrightarrow> (platform_step sha)\<^sup>*\<^sup>* s t \<Longrightarrow> progress s t"
  using steps_keep reachable_ok
  by (auto simp: platform_keeps_def sched_keeps_def evolves_def platform_ok_def)

end
