(* ===== verification/Platform_Passes.thy ===== *)
theory Platform_Passes
  imports Platform_Steps
begin

text \<open>
  The whole passes of the platform, each many transactions long, over the platform-wide frame: the
  scheduler's claim pass and settles, the shutdown park, and the recovery ladder's pass.
\<close>

lemma write_each_effects:
  assumes "\<And>x s. t_effects (snd (write_tx (f x) s)) = t_effects s"
  shows "t_effects (snd (write_each f xs s)) = t_effects s"
proof (induction xs arbitrary: s)
  case (Cons x xs)
  obtain r t where w: "write_tx (f x) s = (r, t)" by fastforce
  with assms [of x s] Cons.IH [of t] show ?case by (cases r) auto
qed simp

lemma write_each_platform:
  assumes "\<And>x s. platform_keeps sha s (snd (write_tx (f x) s))"
  shows "platform_keeps sha s (snd (write_each f xs s))"
proof (induction xs arbitrary: s)
  case Nil
  then show ?case by (simp add: platform.frame_refl)
next
  case (Cons x xs)
  obtain r t where w: "write_tx (f x) s = (r, t)" by fastforce
  then have "platform_keeps sha s t" using assms [of s x] by simp
  with w Cons.IH [of t] show ?case
    by (cases r) (auto intro: platform.frame_trans)
qed

lemma materialize_effects:
  "t_effects (snd (write_tx (materializeQueueRowTx env rid user cls) s)) = t_effects s"
  by (rule write_tx_cases [of "materializeQueueRowTx env rid user cls" s])
     (auto simp: materializeQueueRowTx_def tx_simps split: if_splits)

lemma reconcileQueueRows_platform: "platform_keeps sha s (snd (reconcileQueueRows env s))"
proof -
  have "t_effects (snd (reconcileQueueRows env s)) = t_effects s"
    unfolding reconcileQueueRows_def by (rule write_each_effects) (rule materialize_effects)
  then show ?thesis
    by (simp add: platform_keeps_def reconcileQueueRows_keeps journal_keeps_same)
qed

lemma settleEndedRows_platform:
  "receipts_frame sha se \<Longrightarrow> platform_keeps sha s (snd (settleEndedRows se s))"
  unfolding settleEndedRows_def
  by (rule write_each_platform) (rule platform.rel_write, rule settle_platform)

lemma platform_dispatch_frame:
  "hook_frame sha (se_env se) \<Longrightarrow> receipts_frame sha se \<Longrightarrow> dispatch_frame (platform_keeps sha) se"
  by (simp add: dispatch_frame_def platform.tx_frame_axioms reconcileQueueRows_platform
      settleEndedRows_platform claimTx_platform)

lemma claimPass_platform:
  "hook_frame sha (se_env se) \<Longrightarrow> receipts_frame sha se \<Longrightarrow>
   platform_keeps sha s (snd (claimPass se s))"
  by (rule claimPass_frame) (rule platform_dispatch_frame)

lemma ParkInFlightRuns_platform:
  assumes "hook_frame sha env"
  shows "platform_keeps sha s (ParkInFlightRuns env f s)"
proof -
  have one: "platform_keeps sha s (park_one env rid s)" for rid s
    using assms by (auto simp: park_one_def Transition_def platform.frame_refl
        intro: platform.rel_write TransitionTx_platform split: sum.splits)
  have "platform_keeps sha s (fold (park_one env) rids s)" for rids
    by (induction rids arbitrary: s) (auto intro: platform.frame_refl platform.frame_trans [OF one])
  then show ?thesis by (simp add: ParkInFlightRuns_def)
qed

lemma ReconcileInDoubt_platform:
  assumes "je_sha (je 0) = sha"
  shows "platform_keeps sha s (snd (ReconcileInDoubt je s))"
  using journal_step_platform [where je = je and op = OpReconcile and s = s, OF assms] by simp

lemma platform_ladder_frame:
  assumes "hook_frame sha (le_env le)" "je_sha (le_journal le 0) = sha"
  shows "ladder_frame (platform_keeps sha) le"
  using assms
  by (simp add: ladder_frame_def platform.tx_frame_axioms harvestTx_platform wedge_platform
      crashAndBoundTx_platform supersedeTx_platform ReconcileInDoubt_platform)

lemma ReconcilePass_platform:
  assumes "hook_frame sha (le_env le)" "je_sha (le_journal le 0) = sha"
  shows "platform_keeps sha s (snd (snd (ReconcilePass le ld s)))"
  by (rule ReconcilePass_frame) (rule platform_ladder_frame [OF assms])

end
