(* ===== verification/Sample_Data.thy ===== *)
theory Sample_Data
  imports Platform_Passes
begin

text \<open>
  Concrete inputs for the witnesses: one settings registry, one clock, one person with one run, and
  the databases the model's own operations build from the empty one.
\<close>

definition sample_cfg :: settings where
  "sample_cfg = \<lparr>set_int = (\<lambda>k. Some 65536), set_float = (\<lambda>k. Some (9 / 10)),
     set_duration = (\<lambda>k. Some 3600), set_string = (\<lambda>k. Some ''urgent-only''),
     set_bool = (\<lambda>k. Some False), set_map = (\<lambda>k. Some Map.empty)\<rparr>"

definition sample_env :: env where
  "sample_env = \<lparr>env_settings = sample_cfg, env_now = 1000, env_hook = None\<rparr>"

definition sample_new :: "string \<Rightarrow> new_run" where
  "sample_new rid = \<lparr>nr_id = rid, nr_user = ''ann'', nr_task = [], nr_substrate = ''claude'',
     nr_lane = ''anthropic'', nr_workspace = [], nr_ceiling_time = 0, nr_ceiling_steps = 0,
     nr_ceiling_cost = 0, nr_state = [], nr_generation = 0, nr_parent = [], nr_dispatch = [],
     nr_attempts = 0\<rparr>"

definition sample_step :: "run_state \<Rightarrow> db \<Rightarrow> db" where
  "sample_step to s = snd (Transition sample_env ''r'' to no_options s)"

text \<open>The run \<open>r\<close>, born and led along a list of states.\<close>

definition sample_db :: "run_state list \<Rightarrow> db" where
  "sample_db path = fold sample_step path (snd (Create sample_env (sample_new ''r'') empty_db))"

definition sample_running :: db where
  "sample_running = sample_db [StateQueued, StateClaimed, StateRunning]"

definition sample_parked :: db where
  "sample_parked = sample_db [StateQueued, StateClaimed, StateRunning, StateParked]"

definition sample_cancelled :: db where
  "sample_cancelled = sample_db [StateQueued, StateFinalized]"

text \<open>
  Evaluation by rewriting: the congruence keeps the simplifier out of a transaction's continuation
  until its first step has been run.
\<close>

lemma tx_bind_weak: "m = m' \<Longrightarrow> tx_bind m f = tx_bind m' f"
  by simp

lemmas tx_eval = tx_bind_def tx_return_def tx_fail_def tx_lift_def tx_read_def tx_some_def
  tx_modify_def write_tx_def

lemmas json_eval = quote_text_def escape_char_def opt_raw_def opt_str_def raw_empty_def Let_def

lemmas append_eval = AppendTx_def validate_def run_append_def read_int_def event_type_defs
  checkGeneration_def insert_event_def next_rowid_def new_event_def is_zero_time_def

lemmas run_eval = Create_def CreateTx_def state_of_name_def all_states_def insert_run_def
  insert_allowed_def row_of_new_def find_run_def tbl_find_def run_checks_def created_payload_def
  getTx_def Transition_def TransitionTx_def CanTransition_def next_generation_def
  generationBumps_def wrap64_def int64_max_def exec_update_runs_def update_runs_def tbl_update_def tbl_count_def
  transition_payload_def run_hook_def no_options_def

lemmas sample_eval = sample_cfg_def sample_env_def sample_new_def sample_step_def sample_db_def
  empty_db_def

lemma write_committed:
  "\<not> isl (fst (write_tx m s)) \<Longrightarrow> \<exists>x. m s = Inr (x, snd (write_tx m s))"
  by (cases "m s") (auto simp: write_tx_def)

text \<open>What the builders do commits, so the databases are reachable.\<close>

lemma sample_env_frame: "hook_frame sha sample_env"
  by (simp add: hook_frame_def sample_env_def)

lemma sample_born: "reachable sha (sample_db [])"
proof -
  have "\<not> isl (fst (write_tx (CreateTx sample_env (sample_new ''r'') EventCreated raw_empty) empty_db))"
    by (simp add: tx_eval json_eval append_eval run_eval sample_eval cong: tx_bind_weak)
  from write_committed [OF this]
  obtain x where "CreateTx sample_env (sample_new ''r'') EventCreated raw_empty empty_db =
      Inr (x, sample_db [])"
    by (auto simp only: sample_db_def Create_def fold_simps id_apply)
  moreover have "nr_generation (sample_new ''r'') \<le> int64_max"
    by (simp add: sample_new_def int64_max_def)
  ultimately show ?thesis by (rule reachable_step [OF reachable_empty platform_step.create])
qed

lemma sample_stepped: "reachable sha s \<Longrightarrow> reachable sha (sample_step to s)"
proof (cases "TransitionTx sample_env ''r'' to no_options s")
  case (Inl e)
  moreover assume "reachable sha s"
  ultimately show ?thesis by (simp add: sample_step_def Transition_def write_tx_def)
next
  case (Inr x)
  then obtain r t where "TransitionTx sample_env ''r'' to no_options s = Inr (r, t)" by (cases x) simp
  moreover from this have "sample_step to s = t" by (simp add: sample_step_def Transition_def write_tx_def)
  moreover assume "reachable sha s"
  ultimately show ?thesis
    by (blast intro: reachable_step platform_step.transition sample_env_frame)
qed

lemma sample_reachable: "reachable sha (sample_db path)"
proof -
  have "reachable sha s \<Longrightarrow> reachable sha (fold sample_step path s)" for s
    by (induction path arbitrary: s) (auto intro: sample_stepped)
  then show ?thesis using sample_born by (simp add: sample_db_def)
qed

lemma sample_good: "good (sample_db path)"
  using reachable_ok [OF sample_reachable, of "\<lambda>x. x" path] by (simp add: platform_ok_def)

lemma sample_states:
  "map_option run_state (find_run ''r'' sample_running) = Some StateRunning"
  "map_option run_state (find_run ''r'' sample_parked) = Some StateParked"
  "map_option run_state (find_run ''r'' sample_cancelled) = Some StateFinalized"
  by (simp_all add: sample_running_def sample_parked_def sample_cancelled_def
      tx_eval json_eval append_eval run_eval sample_eval cong: tx_bind_weak)

end
