(* ===== verification/Run_Properties.thy ===== *)
theory Run_Properties
  imports Sample_Data
begin

text \<open>
  The properties of the event log, the run lifecycle, the run store, the lease keeper, the
  checkpoints and the freshness gate, each with a witness at a concrete input.
\<close>

section \<open>The event log\<close>

lemma filter_after_last:
  fixes f :: "'a \<Rightarrow> int"
  assumes "sorted_wrt (<) (map f xs)" "take k xs \<noteq> []"
  shows "filter (\<lambda>x. f (last (take k xs)) < f x) xs = drop k xs"
proof -
  define p d where "p = take k xs" and "d = drop k xs"
  have xs: "xs = p @ d" by (simp add: p_def d_def)
  obtain q z where p: "p = q @ [z]" using assms(2) by (metis p_def rev_exhaust)
  have "\<forall>x\<in>set p. \<not> f z < f x" "\<forall>x\<in>set d. f z < f x"
    using assms(1) unfolding xs p by (auto simp: sorted_wrt_append)
  then have "filter (\<lambda>x. f z < f x) (p @ d) = d" by (simp add: filter_empty_conv)
  then show ?thesis unfolding p_def [symmetric] d_def [symmetric] xs [symmetric] using p by simp
qed

lemma After_ordered:
  "log_ordered s \<Longrightarrow> After cur limit s =
     (if limit \<le> 0 then Inl (NonPositiveLimit limit)
      else Inr (take (nat limit) (filter (\<lambda>e. cur < ev_seq e) (t_events s))))"
  by (simp add: After_def log_ordered_def sort_key_log)

text \<open>
  paging through the log is gap-free and duplicate-free.  Reading m events after a cursor and
  then n events after the cursor moved to the last one read gives the same events, in the same
  order, as reading m + n events at once.
\<close>
theorem paging_composes:
  assumes ord: "log_ordered s" and p: "After cur m s = Inr p"
    and q: "After (next_cursor cur p) n s = Inr q"
  shows "After cur (m + n) s = Inr (p @ q)"
proof -
  define rest where "rest = filter (\<lambda>e. cur < ev_seq e) (t_events s)"
  have sorted: "sorted_wrt (<) (map ev_seq rest)"
    using ord unfolding rest_def log_ordered_def by (simp add: sorted_wrt_map sorted_wrt_filter)
  have pos: "0 < m" "0 < n" and pm: "p = take (nat m) rest"
    using p q by (auto simp: After_ordered [OF ord] rest_def split: if_splits)
  have "filter (\<lambda>e. next_cursor cur p < ev_seq e) (t_events s) = drop (nat m) rest"
  proof (cases "p = []")
    case True
    with pm pos show ?thesis by (auto simp: next_cursor_def rest_def)
  next
    case False
    then have "cur < next_cursor cur p"
      using pm last_in_set [of p] in_set_takeD [of "last p" "nat m" rest]
      by (auto simp: next_cursor_def rest_def)
    then have "filter (\<lambda>e. next_cursor cur p < ev_seq e) (t_events s) =
        filter (\<lambda>e. next_cursor cur p < ev_seq e) rest"
      unfolding rest_def filter_filter by (intro filter_cong) auto
    also have "\<dots> = drop (nat m) rest"
      using filter_after_last [OF sorted, of "nat m"] False pm by (simp add: next_cursor_def)
    finally show ?thesis .
  qed
  then have "q = take (nat n) (drop (nat m) rest)"
    using q pos by (simp add: After_ordered [OF ord])
  then have "p @ q = take (nat (m + n)) rest"
    using pos by (simp add: pm take_add [symmetric] nat_add_distrib)
  then show ?thesis using pos by (simp add: After_ordered [OF ord] rest_def)
qed

definition sample_log :: db where
  "sample_log = empty_db\<lparr>t_events :=
     map (\<lambda>i. new_event i 1000 (run_append [] 0 ''ann'' EventWedged (marshal JNull))) [1, 2, 5]\<rparr>"

theorem paging_composes_witness:
  "After 0 3 sample_log = Inr (take 2 (t_events sample_log) @ drop 2 (t_events sample_log))"
  by (rule paging_composes [where m = 2 and n = 1, simplified])
     (simp_all add: sample_log_def log_ordered_def After_def next_cursor_def new_event_def
       run_append_def empty_db_def)

text \<open>
  a tailing reader that has caught up sees exactly the next append.  After an append that
  commits, a read from the former head returns that one event, its sequence number is the new head,
  and the log is still ordered.
\<close>
theorem append_seen_by_tail:
  assumes ord: "log_ordered s" and app: "AppendTx cfg now a s = Inr (seq, t)" and lim: "0 < limit"
  shows "After (Head s) limit t = Inr [new_event seq now a] \<and> Head t = seq \<and> log_ordered t"
proof -
  have ev: "t_events t = t_events s @ [new_event seq now a]" by (rule appender.append_events [OF app])
  have seq: "ev_seq (new_event seq now a) = seq" "0 < seq" using appender.append_seq [OF app] by auto
  have above: "ev_seq e < seq" if "e \<in> set (t_events s)" for e
    using appender.append_above [OF app that] .
  have ord': "log_ordered t" by (rule appender.append_ordered [OF app ord])
  have head: "Head t = seq"
    unfolding Head_def using ev seq above by (auto intro!: Max_eqI intro: less_imp_le)
  have "Head s < seq"
  proof (cases "t_events s")
    case Nil
    then show ?thesis using seq by (simp add: Head_def)
  next
    case (Cons e es)
    then have "Max (set (map ev_seq (t_events s))) \<in> ev_seq ` set (t_events s)"
      by (subst set_map [symmetric], intro Max_in) auto
    then show ?thesis using above Cons by (auto simp: Head_def)
  qed
  moreover have "filter (\<lambda>e. Head s < ev_seq e) (t_events s) = []"
    using Head_ge by (fastforce simp: filter_empty_conv)
  ultimately have "filter (\<lambda>e. Head s < ev_seq e) (t_events t) = [new_event seq now a]"
    using ev seq by simp
  then have "After (Head s) limit t = Inr [new_event seq now a]"
    using lim by (cases "nat limit") (auto simp: After_ordered [OF ord'])
  with head ord' show ?thesis by blast
qed

definition sample_wedge :: append where
  "sample_wedge = run_append ''r'' 0 ''ann'' EventWedged (marshal JNull)"

theorem append_seen_by_tail_witness:
  "\<exists>t. AppendTx sample_cfg 1000 sample_wedge sample_running = Inr (5, t) \<and>
     After (Head sample_running) 10 t = Inr [new_event 5 1000 sample_wedge]"
proof -
  have "\<exists>t. AppendTx sample_cfg 1000 sample_wedge sample_running = Inr (5, t)"
    by (simp add: sample_wedge_def sample_running_def tx_eval json_eval append_eval run_eval sample_eval
        cong: tx_bind_weak)
  moreover have "log_ordered sample_running"
    by (simp add: sample_running_def log_ordered_def tx_eval json_eval append_eval run_eval sample_eval
        cong: tx_bind_weak)
  ultimately show ?thesis using append_seen_by_tail [where limit = 10] by fastforce
qed

section \<open>Transitions and the paths of the platform\<close>

lemma exec_update_one:
  assumes keyed: "runs_keyed (t_runs s)" and cur: "find_run rid s = Some cur" and q: "q cur"
    and chk: "run_checks (f cur)"
  shows "exec_update_runs (\<lambda>r. run_id r = rid \<and> q r) f s =
    Inr (1, update_runs (\<lambda>r. run_id r = rid \<and> q r) f s)"
proof -
  let ?p = "\<lambda>r. run_id r = rid \<and> q r"
  have r: "cur \<in> set (t_runs s)" "run_id cur = rid" using find_run_Some [OF cur] by simp_all
  have uniq: "x = cur" if "x \<in> set (t_runs s)" "?p x" for x
    using runs.key_unique [OF keyed that(1) r(1)] that(2) r(2) by simp
  have "filter ?p (t_runs s) \<noteq> []" using r q by (auto simp: filter_empty_conv)
  moreover have "tbl_count ?p (t_runs s) \<le> 1" by (rule runs.count_key_le_1 [OF keyed])
  ultimately have "tbl_count ?p (t_runs s) = 1"
    by (cases "filter ?p (t_runs s)") (auto simp: tbl_count_def)
  moreover have "\<not> list_ex (\<lambda>x. ?p x \<and> \<not> run_checks (f x)) (t_runs s)"
    using uniq chk by (auto simp: list_ex_iff)
  ultimately show ?thesis unfolding exec_update_runs_def by simp
qed

lemma TransitionTx_runs:
  assumes keyed: "runs_keyed (t_runs s)" and cur: "find_run rid s = Some cur"
    and edge: "CanTransition (run_state cur) to" and chk: "run_checks (transition_row env cur to)"
    and payload: "transition_payload (run_state cur) to opts = Inr payload"
    and valid: "validate (env_settings env)
       (run_append rid (next_generation cur to) (run_user cur) EventState payload) = Inr ()"
    and hook: "run_hook env to (transition_row env cur to) (transition_db env cur to payload s) =
       Inr ((), transition_db env cur to payload s)"
  shows "TransitionTx env rid to opts s =
    Inr (transition_row env cur to, transition_db env cur to payload s)"
proof -
  let ?q = "\<lambda>r. run_state r = run_state cur \<and> run_generation r = run_generation cur"
  let ?f = "\<lambda>r. r\<lparr>run_state := to, run_generation := next_generation cur to, run_updated := env_now env\<rparr>"
  let ?u = "update_runs (\<lambda>r. run_id r = rid \<and> ?q r) ?f s"
  have id: "run_id cur = rid" using find_run_Some [OF cur] by simp
  have upd: "exec_update_runs (\<lambda>r. run_id r = rid \<and> ?q r) ?f s = Inr (1, ?u)"
    using exec_update_one [OF keyed cur, of ?q ?f] chk by (simp add: transition_row_def)
  have found: "find_run rid ?u = Some (transition_row env cur to)"
    using find_run_update_same [OF cur, where q = ?q and f = ?f] by (simp add: transition_row_def)
  have app: "AppendTx (env_settings env) (env_now env)
      (run_append rid (next_generation cur to) (run_user cur) EventState payload) ?u =
      Inr (next_rowid (map ev_seq (t_events s)), transition_db env cur to payload s)"
    unfolding AppendTx_Inr
    using valid found id by (simp add: run_append_def transition_row_def transition_db_def transition_event_def)
  show ?thesis
    using cur edge payload hook transition_db_find(1) [OF cur] app upd
    by (simp add: TransitionTx_def tx_eval getTx_def)
qed

text \<open>
  C20: what a transition does.  With a valid event and no run-end hook, a transition along a
  ratified edge commits: it stores the target state, raises the generation by one exactly on
  parked to running, stamps the row, appends exactly one state-change event carrying both states,
  fenced at the new generation, and touches no other run and no other table.  Any other target is
  refused with the invalid-transition error and nothing is written.
\<close>
theorem transition_outcome:
  assumes good: "good s" and cur: "find_run rid s = Some cur" and hook: "env_hook env = None"
    and gen: "run_generation cur < int64_max"
    and payload: "transition_payload (run_state cur) to opts = Inr payload"
    and cap: "set_int (env_settings env) keyPayloadCap = Some cap"
      "int (length (raw_text payload)) \<le> cap"
  shows "if CanTransition (run_state cur) to
    then (\<exists>row t e. row = cur\<lparr>run_state := to, run_updated := env_now env, run_generation :=
            (if run_state cur = StateParked \<and> to = StateRunning then run_generation cur + 1
             else run_generation cur)\<rparr> \<and> Transition env rid to opts s = (Inr row, t) \<and> t_events t = t_events s @ [e] \<and>
        ev_run e = rid \<and> ev_type e = EventState \<and> ev_gen e = run_generation row \<and>
        payload_state ''from'' e = Some (run_state cur) \<and> payload_state ''to'' e = Some to \<and>
        (\<forall>x. find_run x t = (if x = rid then Some row else find_run x s)) \<and>
        t = s\<lparr>t_runs := t_runs t, t_events := t_events t\<rparr>)
    else Transition env rid to opts s = (Inl (ErrInvalidTransition (run_state cur) to rid), s)"
proof (cases "CanTransition (run_state cur) to")
  case False
  then show ?thesis
    using cur by (simp add: Transition_def TransitionTx_def tx_eval getTx_def)
next
  case True
  define row where "row = cur\<lparr>run_state := to, run_updated := env_now env, run_generation :=
      (if run_state cur = StateParked \<and> to = StateRunning then run_generation cur + 1
       else run_generation cur)\<rparr>"
  let ?e = "transition_event env cur to payload (next_rowid (map ev_seq (t_events s)))"
  have ok: "run_checks cur" "run_generation cur \<le> int64_max" "run_id cur = rid"
    using good_run [OF good cur] find_run_Some [OF cur] by simp_all
  have next_gen: "next_generation cur to = run_generation row"
    using gen ok(1) by (auto simp: row_def next_generation_def generationBumps_def run_checks_def
        wrap64_def int64_max_def)
  then have row: "row = transition_row env cur to"
    by (simp add: row_def transition_row_def)
  have chk: "run_checks (transition_row env cur to)"
    using ok(1) unfolding row [symmetric] by (auto simp: row_def run_checks_def)
  obtain v where "payload = marshal (JObj v)"
    using payload unfolding transition_payload_def by (auto split: option.splits)
  then have js: "raw_text payload \<noteq> []" "raw_valid payload" by simp_all
  have "validate (env_settings env)
      (run_append rid (next_generation cur to) (run_user cur) EventState payload) = Inr ()"
    using ok chk cap js by (auto simp: validate_Inr run_append_def run_checks_def event_type_defs
        transition_row_def)
  then have tr: "TransitionTx env rid to opts s = Inr (row, transition_db env cur to payload s)"
    using good True chk payload hook cur unfolding row
    by (intro TransitionTx_runs) (simp_all add: good_def rows_good_def run_hook_def tx_return_def)
  have ev: "ev_run ?e = rid" "ev_type ?e = EventState" "ev_gen ?e = run_generation row"
    "ev_payload ?e = payload"
    using ok next_gen by (auto simp: transition_event_def new_event_def run_append_def run_checks_def)
  have states: "payload_state ''from'' ?e = Some (run_state cur)" "payload_state ''to'' ?e = Some to"
    by (rule payload_state_transition [where a = "run_state cur" and b = to and opts = opts],
        simp add: ev payload)+
  have "\<forall>x. find_run x (transition_db env cur to payload s) = (if x = rid then Some row else find_run x s)"
    using transition_db_find [OF cur] row by auto
  then show ?thesis
    using True tr ev states
    by (auto simp: Transition_def write_tx_def transition_db_def update_runs_def row_def
        intro!: exI [of _ row] exI [of _ ?e])
qed

lemmas sample_run_eval = tx_eval json_eval append_eval run_eval sample_eval
  sample_running_def sample_parked_def sample_cancelled_def

theorem transition_outcome_witness:
  "\<exists>row t. Transition sample_env ''r'' StateRunning no_options sample_parked = (Inr row, t) \<and>
     run_generation row = 1 \<and> find_run ''r'' t = Some row"
proof -
  obtain cur where cur: "find_run ''r'' sample_parked = Some cur" "run_state cur = StateParked"
    "run_generation cur = 0"
    by (simp add: sample_run_eval cong: tx_bind_weak)
  obtain payload where payload: "transition_payload StateParked StateRunning no_options = Inr payload"
    "int (length (raw_text payload)) \<le> 65536"
    by (simp add: sample_run_eval)
  show ?thesis
    using transition_outcome [where env = sample_env and to = StateRunning and opts = no_options
        and s = sample_parked and rid = "''r''" and cap = 65536, OF _ cur(1)] cur payload
    by (auto simp: sample_env_def sample_cfg_def sample_good sample_parked_def CanTransition_def int64_max_def)
qed

text \<open>
  C3: a resumed run fences its past forever.  Once a parked run has been resumed, an append carrying
  a generation from before the resume is refused with the stale-generation error in every later
  state of the platform, whatever the other components do in between, and writes nothing.
\<close>
theorem resume_fences_old_appends:
  assumes reach: "reachable sha s" and parked: "find_run rid s = Some r" "run_state r = StateParked"
    and hook: "hook_frame sha env" and res: "TransitionTx env rid StateRunning opts s = Inr (r', t)"
    and later: "(platform_step sha)\<^sup>*\<^sup>* t u"
    and old: "ap_run a = rid" "ap_gen a \<le> run_generation r" "validate cfg a = Inr ()"
  shows "\<exists>g. run_generation r < g \<and> Append cfg now a u = (Inl (ErrStaleGeneration (ap_gen a) g), u)"
proof -
  have good: "good s" using reachable_ok [OF reach] by (simp add: platform_ok_def)
  have t: "reachable sha t" by (rule reachable_step [OF reach platform_step.transition [OF hook res]])
  have rid: "rid \<noteq> []"
    using good_run [OF good parked(1)] find_run_Some [OF parked(1)] by (auto simp: run_checks_def)
  from res obtain cur payload where *: "find_run rid s = Some cur"
    "0 \<le> next_generation cur StateRunning" "r' = transition_row env cur StateRunning"
    by (rule TransitionTx_Inr)
  with parked have cur: "cur = r" by simp
  have new: "run_generation r' = run_generation r + 1"
    using next_generation_ok(3) [of r StateRunning] *(2,3) good_run [OF good parked(1)] parked(2)
    by (simp add: cur transition_row_def generationBumps_def)
  have "find_run rid t = Some r'"
    using TransitionTx_state [OF good hook_frame_ok [OF hook] res] by (auto simp: IsTerminal_def)
  then obtain r'' where r'': "find_run rid u = Some r''" "run_generation r' \<le> run_generation r''"
    using steps_progress [OF t later] by (auto simp: progress_def)
  then have "ap_gen a < run_generation r''" using new old(2) by simp
  then have "Append cfg now a u = (Inl (ErrStaleGeneration (ap_gen a) (run_generation r'')), u)"
    using r''(1) old rid by (simp add: Append_def AppendTx_def checkGeneration_def tx_eval)
  moreover have "run_generation r < run_generation r''" using new r''(2) by simp
  ultimately show ?thesis by blast
qed

theorem resume_fences_old_appends_witness:
  "\<exists>g. Append sample_cfg 1000 sample_wedge
       (sample_db [StateQueued, StateClaimed, StateRunning, StateParked, StateRunning, StateCompleted]) =
     (Inl (ErrStaleGeneration 0 g),
       sample_db [StateQueued, StateClaimed, StateRunning, StateParked, StateRunning, StateCompleted])"
proof -
  let ?path = "[StateQueued, StateClaimed, StateRunning, StateParked]"
  obtain r where r: "find_run ''r'' (sample_db ?path) = Some r" "run_state r = StateParked"
    "run_generation r = 0"
    by (simp add: sample_run_eval cong: tx_bind_weak)
  obtain r' where r': "TransitionTx sample_env ''r'' StateRunning no_options (sample_db ?path) =
      Inr (r', sample_db (?path @ [StateRunning]))"
    by (simp add: sample_run_eval cong: tx_bind_weak)
  obtain c where c: "TransitionTx sample_env ''r'' StateCompleted no_options
      (sample_db (?path @ [StateRunning])) = Inr (c, sample_db (?path @ [StateRunning, StateCompleted]))"
    by (simp add: sample_run_eval cong: tx_bind_weak)
  have later: "(platform_step sha)\<^sup>*\<^sup>* (sample_db (?path @ [StateRunning]))
      (sample_db (?path @ [StateRunning, StateCompleted]))" for sha
    using platform_step.transition [OF sample_env_frame c] by (rule r_into_rtranclp)
  have "validate sample_cfg sample_wedge = Inr ()" "ap_run sample_wedge = ''r''" "ap_gen sample_wedge = 0"
    by (simp_all add: sample_wedge_def sample_run_eval)
  then show ?thesis
    using resume_fences_old_appends [OF sample_reachable r(1,2) sample_env_frame r' later,
        of sample_wedge sample_cfg 1000] r(3) by auto
qed

text \<open>
  C29: an ended run stays ended.  In every later state of the platform a run that is completed,
  finalized, tombstoned or died-at-gate is stored in the same state, and every transition asked of it
  is refused without a write.
\<close>
theorem ended_runs_stay:
  assumes reach: "reachable sha s" and run: "find_run rid s = Some r" "IsTerminal (run_state r)"
    and later: "(platform_step sha)\<^sup>*\<^sup>* s t"
  shows "\<exists>r'. find_run rid t = Some r' \<and> run_state r' = run_state r \<and>
    (\<forall>env to opts. Transition env rid to opts t = (Inl (ErrInvalidTransition (run_state r) to rid), t))"
proof -
  obtain r' where r': "find_run rid t = Some r'" "CanTransition\<^sup>*\<^sup>* (run_state r) (run_state r')"
    using steps_progress [OF reach later] run(1) by (auto simp: progress_def)
  have "run_state r' = run_state r" by (rule terminal_absorbs [OF r'(2) run(2)])
  moreover from this have "\<not> CanTransition (run_state r') to" for to
    using run_fsm.final_no_edge run(2) by simp
  ultimately show ?thesis
    using r'(1) by (auto simp: Transition_def TransitionTx_def tx_eval getTx_def)
qed

theorem ended_runs_stay_witness:
  "\<forall>env to opts. fst (Transition env ''r'' to opts sample_cancelled) =
     Inl (ErrInvalidTransition StateFinalized to ''r'')"
proof -
  obtain r where r: "find_run ''r'' sample_cancelled = Some r" "run_state r = StateFinalized"
    by (simp add: sample_run_eval cong: tx_bind_weak)
  then show ?thesis
    using ended_runs_stay [OF sample_reachable, of "''r''" "[StateQueued, StateFinalized]" r
        "\<lambda>x. x" "sample_db [StateQueued, StateFinalized]"]
    by (auto simp: sample_cancelled_def IsTerminal_def)
qed

text \<open>
  C2: the log is the truth.  In every reachable state, folding the birth and state-change events of
  a run in log order (each state change checked against the state reached so far and against the
  ratified edges) succeeds and yields exactly the state stored in the run's row, and yields nothing
  for a run that does not exist.
\<close>
theorem log_replays_to_stored_state:
  assumes "reachable sha s" "rid \<noteq> []"
  shows "replay (events_of rid s) None = Some (map_option run_state (find_run rid s))"
  using reachable_ok [OF assms(1)] assms(2) by (simp add: platform_ok_def good_def replay_ok_def)

theorem log_replays_to_stored_state_witness:
  "replay (events_of ''r'' sample_parked) None = Some (Some StateParked)"
  using log_replays_to_stored_state [OF sample_reachable, of "''r''"] sample_states(2)
  by (simp add: sample_parked_def)

text \<open>
  histories only move forward.  Between any two states of the platform the log of the earlier is
  a prefix of the log of the later, no run disappears, each run's stored state has moved along
  ratified edges, its generation has not gone down, and its owner, task, parent, dispatch and
  attempt number are unchanged.
\<close>
theorem histories_move_forward:
  assumes "reachable sha s" "(platform_step sha)\<^sup>*\<^sup>* s t"
  shows "(\<exists>es. t_events t = t_events s @ es) \<and>
    (\<forall>rid r. find_run rid s = Some r \<longrightarrow>
      (\<exists>r'. find_run rid t = Some r' \<and> CanTransition\<^sup>*\<^sup>* (run_state r) (run_state r') \<and>
         run_generation r \<le> run_generation r' \<and> run_user r' = run_user r \<and>
         run_task r' = run_task r \<and> run_parent r' = run_parent r \<and>
         run_dispatch r' = run_dispatch r \<and> run_attempts r' = run_attempts r))"
  using steps_progress [OF assms] by (simp add: progress_def log_extends_def)

theorem histories_move_forward_witness:
  "\<exists>es. t_events sample_parked = t_events sample_running @ es"
proof -
  obtain r where "TransitionTx sample_env ''r'' StateParked no_options sample_running = Inr (r, sample_parked)"
    by (simp add: sample_run_eval cong: tx_bind_weak)
  then have "(platform_step (\<lambda>x. x))\<^sup>*\<^sup>* sample_running sample_parked"
    by (intro r_into_rtranclp platform_step.transition [OF sample_env_frame])
  then show ?thesis
    using histories_move_forward [of "\<lambda>x. x" sample_running] sample_reachable
    by (simp add: sample_running_def)
qed

text \<open>
  one run per dispatch.  In every reachable state a dispatch id names at most one run, so a
  recovery fork is created at most once per dispatch even if two recovery passes race.
\<close>
theorem one_run_per_dispatch:
  assumes "reachable sha s" "a \<in> set (t_runs s)" "b \<in> set (t_runs s)"
    and "run_dispatch a = run_dispatch b" "run_dispatch a \<noteq> []"
  shows "a = b"
proof -
  have unique: "distinct (filter (\<lambda>d. d \<noteq> []) (map run_dispatch rows)) \<Longrightarrow> x \<in> set rows \<Longrightarrow> y \<in> set rows \<Longrightarrow>
      run_dispatch x = run_dispatch y \<Longrightarrow> run_dispatch x \<noteq> [] \<Longrightarrow> x = y" for x y rows
    by (induction rows) (auto simp: image_iff split: if_splits)
  have "distinct (filter (\<lambda>d. d \<noteq> []) (map run_dispatch (t_runs s)))"
    using reachable_ok [OF assms(1)] by (simp add: platform_ok_def good_def rows_good_def dispatches_def)
  then show ?thesis by (rule unique [OF _ assms(2-5)])
qed

definition sample_forked :: db where
  "sample_forked = snd (Create sample_env ((sample_new ''f'')\<lparr>nr_parent := ''r'', nr_dispatch := ''fork:r''\<rparr>)
     sample_running)"

theorem one_run_per_dispatch_witness:
  "\<exists>a\<in>set (t_runs sample_forked). run_dispatch a = ''fork:r'' \<and>
     (\<forall>b\<in>set (t_runs sample_forked). run_dispatch b = ''fork:r'' \<longrightarrow> b = a)"
proof -
  obtain f where "CreateTx sample_env ((sample_new ''f'')\<lparr>nr_parent := ''r'', nr_dispatch := ''fork:r''\<rparr>)
      EventCreated raw_empty sample_running = Inr (f, sample_forked)"
    and f: "f \<in> set (t_runs sample_forked)" "run_dispatch f = ''fork:r''"
    by (simp add: sample_forked_def has_run_def sample_run_eval cong: tx_bind_weak)
  then have "reachable (\<lambda>x. x) sample_forked"
    unfolding sample_running_def
    by (intro reachable_step [OF sample_reachable platform_step.create])
       (auto simp: sample_new_def int64_max_def)
  from one_run_per_dispatch [OF this f(1)] f show ?thesis by fastforce
qed

text \<open>
  a birth is recorded once.  A create that commits stores the row the caller asked for at the
  requested generation, appends exactly one birth event of that generation and leaves every other
  run as it was; creating the same run id again is refused as already existing, without a write.
\<close>
theorem create_once:
  assumes cr: "CreateTx env n EventCreated raw_empty s = Inr (r, t)" and id: "nr_id n = nr_id m"
    and again: "nr_user m \<noteq> []" "nr_state m = []"
  shows "Get (nr_id n) t = Inr r \<and> run_generation r = nr_generation n \<and> run_attempts r = nr_attempts n \<and>
    (\<exists>e. t_events t = t_events s @ [e] \<and> ev_run e = nr_id n \<and> ev_gen e = nr_generation n \<and>
       payload_state ''state'' e = Some (run_state r)) \<and>
    (\<forall>x. x \<noteq> nr_id n \<longrightarrow> find_run x t = find_run x s) \<and>
    Create env' m t = (Inl (ErrExists (nr_id m)), t)"
  using cr
proof (rule CreateTx_Inr)
  fix st payload
  let ?e = "new_event (next_rowid (map ev_seq (t_events s))) (env_now env)
      (run_append (nr_id n) (nr_generation n) (nr_user n) EventCreated payload)"
  assume *: "r = row_of_new (env_now env) n st" "insert_allowed r s"
    "created_payload st raw_empty = Inr payload"
    "t = s\<lparr>t_runs := t_runs s @ [r], t_events := t_events s @ [?e]\<rparr>"
  have r: "run_id r = nr_id n" "run_generation r = nr_generation n" "run_state r = st"
    "run_attempts r = nr_attempts n"
    using *(1) by (simp_all add: row_of_new_def)
  have new: "find_run (run_id r) s = None" "nr_id n \<noteq> []"
    using *(2) r(1) by (auto simp: insert_allowed_def run_checks_def)
  have find: "find_run x t = (if x = nr_id n then Some r else find_run x s)" for x
    using find_run_insert [OF new(1), of x] r(1) *(4) by (simp add: find_run_def)
  have "payload_state ''state'' ?e = Some st"
    by (rule payload_state_birth [where d = raw_empty])
       (use *(3) in \<open>simp add: new_event_def run_append_def\<close>)
  moreover have "\<not> insert_allowed (row_of_new now m StateNew) t" for now
    using find [of "nr_id n"] id by (simp add: insert_allowed_def row_of_new_def)
  then have "Create env' m t = (Inl (ErrExists (nr_id m)), t)"
    using again new(2) id
    by (simp add: Create_def CreateTx_def tx_eval insert_run_def row_of_new_def
        state_of_name_def all_states_def)
  ultimately show ?thesis
    using find *(4) r new(2) by (auto simp: Get_def new_event_def run_append_def)
qed

theorem create_once_witness:
  "\<exists>r. Get ''q'' (snd (Create sample_env (sample_new ''q'') sample_running)) = Inr r \<and>
     Create sample_env (sample_new ''q'') (snd (Create sample_env (sample_new ''q'') sample_running)) =
       (Inl (ErrExists ''q''), snd (Create sample_env (sample_new ''q'') sample_running))"
proof -
  obtain r where "CreateTx sample_env (sample_new ''q'') EventCreated raw_empty sample_running =
      Inr (r, snd (Create sample_env (sample_new ''q'') sample_running))"
    by (simp add: sample_run_eval cong: tx_bind_weak)
  from create_once [OF this, of "sample_new ''q''" sample_env] show ?thesis
    by (simp add: sample_new_def)
qed

text \<open>
  C36: a run that is never resumed changes state at most seven times.  Along any sequence of ratified
  transitions without a parked-to-running edge the number of transitions is bounded by seven.
\<close>
theorem unresumed_runs_end:
  assumes "successively (\<lambda>x y. CanTransition x y \<and> \<not> generationBumps x y) (st # sts)"
  shows "length sts \<le> 7"
proof -
  have "run_rank x \<le> 7" for x by (cases x) (simp_all add: run_rank_def)
  moreover have "run_rank st + length sts \<le> run_rank (last (st # sts))"
    by (rule run_fsm.path_length [OF assms])
  ultimately show ?thesis by (meson add_leD2 order_trans)
qed

theorem unresumed_runs_end_witness:
  "length [StateQueued, StateClaimed, StateRunning, StateDraining, StateCrashed, StateTombstoned] \<le> 7"
  by (rule unresumed_runs_end [of StateNew]) (simp add: CanTransition_def generationBumps_def)

section \<open>Leases\<close>

lemma keyed_good: "good s \<Longrightarrow> runs_keyed (t_runs s)"
  by (simp add: good_def rows_good_def)

text \<open>
  a superseded worker cannot keep its lease.  A heartbeat loop pinned at a generation the run has
  moved past writes nothing at any of its ticks, for any number of ticks and whatever the rest of the
  platform does between them: the database is the one the others alone produce.
\<close>
theorem superseded_hold_is_inert:
  assumes "good s" "find_run (hold_run h) s = Some r" "hold_gen h < run_generation r"
    and "\<And>env f s. (env, f) \<in> set ticks \<Longrightarrow> evolves s (f s)"
  shows "snd (hold_ticks ticks h s) = fold (\<lambda>(env, f). f) ticks s"
  using assms
proof (induction ticks arbitrary: h s r)
  case Nil
  then show ?case by simp
next
  case (Cons x ticks)
  obtain env f where x: "x = (env, f)" by (cases x)
  have t: "good (f s) \<and> progress s (f s)"
    using Cons.prems(1) Cons.prems(4) [of env f s] x by (simp add: evolves_def)
  then obtain r' where r': "find_run (hold_run h) (f s) = Some r'" "run_generation r \<le> run_generation r'"
    using Cons.prems(2) by (auto simp: progress_def)
  obtain h' t where tick: "hold_tick env h (f s) = (h', t)" by fastforce
  have "t = f s"
    using tick beat_stale [OF keyed_good r'(1), of "hold_gen h"] t r'(2) Cons.prems(3)
    by (auto simp: hold_tick_def)
  moreover have "hold_run h' = hold_run h" "hold_gen h' = hold_gen h"
    using hold_tick_gen [OF tick] by simp_all
  moreover have "snd (hold_ticks ticks h' (f s)) = fold (\<lambda>(env, f). f) ticks (f s)"
    by (rule Cons.IH [of "f s" h' r']) (use t r' Cons.prems(3,4) calculation in auto)
  ultimately show ?case using tick x by simp
qed

definition sample_hold :: hold where
  "sample_hold = \<lparr>hold_run = ''r'', hold_holder = ''w'', hold_gen = 0, hold_period = 3600\<rparr>"

theorem superseded_hold_is_inert_witness:
  "snd (hold_ticks [(sample_env, \<lambda>s. s), (sample_env, \<lambda>s. s)] sample_hold
     (sample_db [StateQueued, StateClaimed, StateRunning, StateParked, StateRunning])) =
   sample_db [StateQueued, StateClaimed, StateRunning, StateParked, StateRunning]"
proof -
  obtain r where r: "find_run ''r'' (sample_db [StateQueued, StateClaimed, StateRunning, StateParked, StateRunning])
      = Some r" "run_generation r = 1"
    by (simp add: sample_run_eval cong: tx_bind_weak)
  have "snd (hold_ticks [(sample_env, \<lambda>s. s), (sample_env, \<lambda>s. s)] sample_hold
      (sample_db [StateQueued, StateClaimed, StateRunning, StateParked, StateRunning])) =
    fold (\<lambda>(env, f). f) [(sample_env, \<lambda>s. s), (sample_env, \<lambda>s. s)]
      (sample_db [StateQueued, StateClaimed, StateRunning, StateParked, StateRunning])"
    by (rule superseded_hold_is_inert [OF sample_good])
       (use r in \<open>auto simp: sample_hold_def evolve.frame_refl\<close>)
  then show ?thesis by simp
qed

text \<open>
  a live worker keeps its lease.  A beat of a claimed, running or draining run stores the
  holder and a deadline of now plus the dead-after setting, records the run's last event as progress,
  leaves the log, the state and the generation alone, and the recovery ladder does not count the
  lease dead at any later moment up to that deadline plus its grace.
\<close>
theorem live_beat_renews:
  assumes good: "good s" and run: "find_run rid s = Some r"
    "run_state r \<in> {StateClaimed, StateRunning, StateDraining}"
    and dead: "set_duration (env_settings env) keyDeadAfter = Some deadAfter" "0 < env_now env" "0 < deadAfter"
    and holder: "holder \<noteq> []"
  shows "\<exists>r'. find_run rid (Beat True env rid holder s) = Some r' \<and>
    run_lease_holder r' = holder \<and> run_lease_deadline r' = env_now env + deadAfter \<and>
    run_heartbeat_seq r' = max_event_seq rid s \<and>
    run_state r' = run_state r \<and> run_generation r' = run_generation r \<and>
    t_events (Beat True env rid holder s) = t_events s \<and>
    (\<forall>now grace. now \<le> env_now env + deadAfter + grace \<longrightarrow> \<not> leaseDead now grace r')"
proof -
  have zero: "\<not> is_zero_time (env_now env + deadAfter)" using dead by (simp add: is_zero_time_def)
  obtain t where t: "RenewLeaseTx env rid holder (env_now env + deadAfter) (run_generation r) s = Inr (True, t)"
    "find_run rid t = Some (r\<lparr>run_lease_holder := holder, run_lease_deadline := env_now env + deadAfter,
      run_heartbeat_seq := max_event_seq rid s, run_updated := env_now env\<rparr>)"
    "t_events t = t_events s"
    using RenewLeaseTx_live [OF run(1) refl conjunct1 [OF good_run [OF good run(1)]] run(2)
        keyed_good [OF good] zero, of env holder] holder by auto
  have "Beat True env rid holder s = t"
    using run(1) dead(1) t(1) by (simp add: Beat_def pin_def Get_def beat_def read_duration_def write_tx_def)
  then show ?thesis using t(2,3) zero by (auto simp: leaseDead_def)
qed

theorem live_beat_renews_witness:
  "\<exists>r'. find_run ''r'' (Beat True sample_env ''r'' ''w'' sample_running) = Some r' \<and>
     run_lease_deadline r' = 4600 \<and> \<not> leaseDead 4600 0 r'"
proof -
  obtain r where r: "find_run ''r'' sample_running = Some r" "run_state r = StateRunning"
    by (simp add: sample_run_eval cong: tx_bind_weak)
  then show ?thesis
    using live_beat_renews [where env = sample_env and s = sample_running and rid = "''r''" and
        holder = "''w''" and deadAfter = 3600, OF _ r(1)]
    by (fastforce simp: sample_good sample_running_def sample_env_def sample_cfg_def)
qed

section \<open>Checkpoints\<close>

text \<open>
  a checkpoint is part of the history.  A checkpoint that commits belongs to a running or
  draining run, appends exactly one event of that run at its current generation and one row that
  points at this event, and is from then on the run's last checkpoint; every checkpoint row still
  points at an event of its own run.
\<close>
theorem checkpoint_written:
  assumes w: "CheckpointTx env n s = Inr (c, t)" and ok: "checkpoints_ok s"
  shows "LastCheckpoint (nc_run n) t = Some c \<and> checkpoints_ok t \<and>
    (\<exists>r e. find_run (nc_run n) s = Some r \<and> run_state r \<in> {StateRunning, StateDraining} \<and>
       t = s\<lparr>t_events := t_events s @ [e], t_checkpoints := t_checkpoints s @ [c]\<rparr> \<and>
       ev_run e = nc_run n \<and> ev_type e = EventCheckpoint \<and> ev_gen e = run_generation r \<and>
       ck_event_seq c = ev_seq e \<and> ck_run c = nc_run n \<and> ck_user c = run_user r)"
  using w
proof (rule CheckpointTx_Inr)
  fix r seq e
  assume "find_run (nc_run n) s = Some r" "run_state r \<in> {StateRunning, StateDraining}" "nc_run n \<noteq> []"
    "c = row_of_checkpoint (next_rowid (map ck_id (t_checkpoints s))) (env_now env) n (run_user r) seq"
    "e = new_event seq (env_now env) (run_append (nc_run n) (run_generation r) (run_user r)
       EventCheckpoint (checkpoint_payload n))"
    "t = s\<lparr>t_events := t_events s @ [e], t_checkpoints := t_checkpoints s @ [c]\<rparr>"
  then show ?thesis
    using LastCheckpoint_after_write [OF w ok] CheckpointTx_ok [OF w ok]
    by (auto simp: row_of_checkpoint_def new_event_def run_append_def)
qed

definition sample_checkpoint :: new_checkpoint where
  "sample_checkpoint = \<lparr>nc_run = ''r'', nc_usage = raw_empty, nc_session_substrate = [],
     nc_session_id = [], nc_message_index = 0, nc_cwd_key = [], nc_transcript = [],
     nc_ledger_revision = [], nc_artifact_ref = [], nc_model = [], nc_invocation_fp = [],
     nc_tool_schema = [], nc_prompt_schema = []\<rparr>"

theorem checkpoint_written_witness:
  "\<exists>c t. CheckpointTx sample_env sample_checkpoint sample_running = Inr (c, t) \<and>
     LastCheckpoint ''r'' t = Some c"
proof -
  obtain c t where "CheckpointTx sample_env sample_checkpoint sample_running = Inr (c, t)"
    by (simp add: CheckpointTx_def sample_checkpoint_def usage_of_def insert_checkpoint_def
        checkpoint_payload_def opt_int_def EventCheckpoint_def sample_run_eval cong: tx_bind_weak)
  moreover have "checkpoints_ok sample_running"
    by (simp add: checkpoints_ok_def sample_run_eval cong: tx_bind_weak)
  ultimately show ?thesis
    using checkpoint_written [of sample_env sample_checkpoint sample_running c t]
    by (auto simp: sample_checkpoint_def)
qed

section \<open>Freshness\<close>

text \<open>
  what a parked run's freshness means.  The evaluation calls a run fresh exactly when its
  checkpoint is unset or not older than the maximum age, the repository head, the plan and the price
  table are the stored ones, every stored source and cited entry is observed with the stored value,
  the four version fields are unchanged and no sibling was accepted; a run that is not fresh comes
  with at least one reason.
\<close>
theorem freshness_exact:
  assumes "set_duration cfg keyFreshnessMaxAge = Some maxAge"
  shows "\<exists>fr. EvaluateFreshness cfg inp now = Inr fr \<and> (fr_fresh fr \<longleftrightarrow> fr_reasons fr = []) \<and>
    (fr_fresh fr \<longleftrightarrow>
      (is_zero_time (fi_checkpoint inp) \<or> time_sub now (fi_checkpoint inp) \<le> maxAge) \<and>
      fp_repo_head (fi_stored inp) = fp_repo_head (fi_current inp) \<and>
      fp_spec_plan (fi_stored inp) = fp_spec_plan (fi_current inp) \<and>
      fp_price_table (fi_stored inp) = fp_price_table (fi_current inp) \<and>
      (\<forall>k\<in>fst ` set (fp_source_hashes (fi_stored inp)).
         map_of (fp_source_hashes (fi_current inp)) k = map_of (fp_source_hashes (fi_stored inp)) k) \<and>
      (\<forall>k\<in>fst ` set (fp_cited_entries (fi_stored inp)).
         map_of (fp_cited_entries (fi_current inp)) k = map_of (fp_cited_entries (fi_stored inp)) k) \<and>
      fi_stored_versions inp = fi_current_versions inp \<and> \<not> fi_sibling_accept inp)"
  using assms
  by (simp add: EvaluateFreshness_def Let_def fingerprintDrift_def mapDrift_Nil versionDrift_Nil
      read_duration_def not_less)

definition sample_freshness :: freshness_input where
  "sample_freshness = \<lparr>fi_checkpoint = 100,
     fi_stored = \<lparr>fp_repo_head = ''h'', fp_source_hashes = [(''k'', ''1'')], fp_spec_plan = [],
       fp_price_table = [], fp_cited_entries = []\<rparr>,
     fi_current = \<lparr>fp_repo_head = ''h'', fp_source_hashes = [(''k'', ''2'')], fp_spec_plan = [],
       fp_price_table = [], fp_cited_entries = []\<rparr>,
     fi_stored_versions = \<lparr>vf_model = [], vf_invocation = [], vf_tool_schema = [], vf_prompt_schema = []\<rparr>,
     fi_current_versions = \<lparr>vf_model = [], vf_invocation = [], vf_tool_schema = [], vf_prompt_schema = []\<rparr>,
     fi_sibling_accept = False\<rparr>"

theorem freshness_exact_witness:
  "\<exists>fr. EvaluateFreshness sample_cfg sample_freshness 200 = Inr fr \<and> \<not> fr_fresh fr"
  using freshness_exact [of sample_cfg 3600 sample_freshness 200]
  by (auto simp: sample_cfg_def sample_freshness_def)

text \<open>
  accepting a sibling routes every waiting run.  With a readable maximum age the routine returns
  all the runs it was given, in order: none of them can be taken up again without a new freshness
  decision.
\<close>
theorem sibling_accept_routes_all:
  assumes "set_duration cfg keyFreshnessMaxAge = Some maxAge"
  shows "FireSiblingAccept cfg rs now = Inr (map sr_run rs)"
  by (induction rs) (use assms in \<open>auto simp: EvaluateFreshness_def sibling_input_def Let_def read_duration_def\<close>)

definition sample_sibling :: sibling_run where
  "sample_sibling = \<lparr>sr_run = ''r'', sr_checkpoint = 100, sr_fingerprint = fi_stored sample_freshness,
     sr_versions = fi_stored_versions sample_freshness\<rparr>"

theorem sibling_accept_routes_all_witness:
  "FireSiblingAccept sample_cfg [sample_sibling] 200 = Inr [''r'']"
  using sibling_accept_routes_all [of sample_cfg 3600 "[sample_sibling]" 200]
  by (simp add: sample_cfg_def sample_sibling_def)

end
