(* ===== verification/Effect_Properties.thy ===== *)
theory Effect_Properties
  imports Sample_Data
begin

unbundle bit_operations_syntax

text \<open>
  The properties of the effect journal and of its canonical payload hash, each with a witness at a
  concrete input.
\<close>

section \<open>Sample effects\<close>

text \<open>A hash for the witnesses: the text with a mark in front (never empty).\<close>

definition sample_sha :: "string \<Rightarrow> string" where
  "sample_sha x = CHR ''#'' # x"

definition sample_je :: "time \<Rightarrow> journal_env" where
  "sample_je now = \<lparr>je_settings = sample_cfg, je_now = now, je_sha = sample_sha\<rparr>"

definition sample_payload :: raw where
  "sample_payload = marshal (JObj [(''a'', JNum ''1'')])"

definition sample_effect :: "effect_class \<Rightarrow> effect_state \<Rightarrow> effect_row" where
  "sample_effect cls st = \<lparr>eff_id = ''e'', eff_run = [], eff_user = ''ann'', eff_class = cls,
     eff_payload = sample_payload, eff_hash = hashPayload sample_sha sample_payload,
     eff_state = st, eff_approved_by = (if st = EffectProposed then [] else ''bob''),
     eff_approved_ts = (if st = EffectProposed then 0 else 1000),
     eff_key = (if st = EffectExecuting then ''e'' else []), eff_window_ref = [],
     eff_attempts = (if st = EffectExecuting then 1 else 0), eff_result = raw_empty,
     eff_created = 1000, eff_updated = 1000\<rparr>"

definition sample_journal :: "effect_class \<Rightarrow> effect_state \<Rightarrow> db" where
  "sample_journal cls st = empty_db\<lparr>t_effects := [sample_effect cls st]\<rparr>"

lemma sample_journal_find: "find_effect ''e'' (sample_journal cls st) = Some (sample_effect cls st)"
  by (simp add: find_effect_def tbl_find_def sample_journal_def sample_effect_def)

lemma canonical_sample: "canonicalJSON sample_payload = Some sample_payload"
  by (simp add: canonicalJSON_def sample_payload_def decoder_more_def)

lemma sample_journal_ok:
  "st \<in> {EffectProposed, EffectApproved, EffectExecuting} \<Longrightarrow> journal_ok sample_sha (sample_journal cls st)"
  using canonical_sample
  by (auto simp: journal_ok_def effects_keyed_def sample_journal_def empty_db_def eff_ok_def sample_effect_def)

section \<open>The canonical hash\<close>

lemma field_put_new: "k \<notin> set (map fst fs) \<Longrightarrow> set (field_put k v fs) = insert (k, v) (set fs)"
  by (induction k v fs rule: field_put.induct) auto

lemma foldl_field_put_set:
  "distinct (map fst fs) \<Longrightarrow> set (map fst fs) \<inter> set (map fst acc) = {} \<Longrightarrow>
   set (foldl (\<lambda>acc f. field_put (fst f) (snd f) acc) acc fs) = set acc \<union> set fs"
proof (induction fs arbitrary: acc)
  case Nil
  then show ?case by simp
next
  case (Cons f fs)
  then have new: "fst f \<notin> set (map fst acc)" by auto
  have "set (map fst fs) \<inter> set (map fst (field_put (fst f) (snd f) acc)) = {}"
    using Cons.prems unfolding set_field_put by auto
  with Cons.IH Cons.prems(1) field_put_new [OF new] show ?case by auto
qed

lemma keys_sorted_unique: "keys_sorted xs \<Longrightarrow> keys_sorted ys \<Longrightarrow> set xs = set ys \<Longrightarrow> xs = ys"
proof (induction xs arbitrary: ys)
  case Nil
  then show ?case by simp
next
  case (Cons x xs)
  then obtain y zs where ys: "ys = y # zs" by (cases ys) auto
  have xs: "\<forall>f\<in>set xs. fst x < fst f" "keys_sorted xs" and zs: "\<forall>f\<in>set zs. fst y < fst f" "keys_sorted zs"
    using Cons.prems(1,2) ys keys_sorted_Cons [of "fst x" "snd x"] keys_sorted_Cons [of "fst y" "snd y"] by auto
  have "x \<in> set (y # zs)" "y \<in> set (x # xs)" using Cons.prems(3) ys by auto
  then have "x = y" using xs(1) zs(1) by (metis less_asym set_ConsD)
  moreover have "x \<notin> set xs" "y \<notin> set zs" using xs zs by auto
  ultimately have "set xs = set zs" using Cons.prems(3) ys by auto
  with Cons.IH [OF xs(2) zs(2)] \<open>x = y\<close> ys show ?case by simp
qed

text \<open>
  the payload hash ignores the order of object keys and nothing else that matters.  Two object
  payloads with the same fields in any order (keys distinct) have the same canonical form and the
  same hash, and hashing a canonical form again gives the same hash.
\<close>
theorem canonical_hash_order:
  assumes "distinct (map fst fs)" "mset fs = mset gs"
  shows "CanonicalHash sha (marshal (JObj fs)) = CanonicalHash sha (marshal (JObj gs)) \<and>
    (\<forall>c. canonicalJSON (marshal (JObj fs)) = Some c \<longrightarrow>
       CanonicalHash sha c = CanonicalHash sha (marshal (JObj fs)))"
proof -
  let ?m = "map (\<lambda>f. (fst f, canon (snd f)))"
  let ?put = "foldl (\<lambda>acc f. field_put (fst f) (snd f) acc) []"
  have same: "set fs = set gs" using assms(2) by (rule mset_eq_setD)
  have "mset (map fst fs) = mset (map fst gs)" using assms(2) by (simp only: mset_map)
  then have dist: "distinct (map fst gs)" using mset_eq_imp_distinct_iff [of "map fst fs" "map fst gs"] assms(1) by simp
  have keys: "map fst (?m xs) = map fst xs" for xs :: "(string \<times> json) list" by simp
  have "set (?put (?m xs)) = set (?m xs)" if "distinct (map fst xs)" for xs
    using foldl_field_put_set [of "?m xs" "[]"] that keys [of xs] by (simp add: o_def)
  then have "set (?put (?m fs)) = set (?put (?m gs))"
    using assms(1) dist same by simp
  moreover have "keys_sorted (?put xs)" for xs :: "(string \<times> json) list"
    by (rule keys_sorted_foldl) (simp add: keys_sorted_def)
  ultimately have "?put (?m fs) = ?put (?m gs)" by (blast intro: keys_sorted_unique)
  then have "canon (JObj fs) = canon (JObj gs)" by simp
  then show ?thesis
    by (auto simp: CanonicalHash_def canonicalJSON_def decoder_more_def simp del: canon.simps)
       (simp add: canon_canon del: canon.simps)
qed

theorem canonical_hash_order_witness:
  "CanonicalHash sample_sha (marshal (JObj [(''b'', JNull), (''a'', JBool True)])) =
   CanonicalHash sample_sha (marshal (JObj [(''a'', JBool True), (''b'', JNull)]))"
  using canonical_hash_order [of "[(''b'', JNull), (''a'', JBool True)]" "[(''a'', JBool True), (''b'', JNull)]"]
  by (simp add: add_mset_commute)

section \<open>Effect ids\<close>

lemma version_nibble: "unat (drop_bit 4 ((x AND 0x0f) OR 0x40 :: 8 word)) = 4"
proof -
  have "x AND 0x0f = take_bit 4 x" by (simp add: take_bit_eq_mask mask_eq_exp_minus_1)
  then have "drop_bit 4 (x AND 0x0f) = 0" by (simp add: drop_bit_take_bit)
  then show ?thesis by (simp add: drop_bit_or)
qed

lemma variant_nibble: "unat (drop_bit 4 ((x AND 0x3f) OR 0x80 :: 8 word)) \<in> {8, 9, 10, 11}"
proof -
  define y where "y = drop_bit 4 (x AND 0x3f)"
  have "x AND 0x3f = take_bit 6 x" by (simp add: take_bit_eq_mask mask_eq_exp_minus_1)
  then have "y = take_bit 2 (drop_bit 4 x)" by (simp add: y_def drop_bit_take_bit)
  then have "unat y = unat (drop_bit 4 x) mod 4" by (simp only: unsigned_take_bit_eq) (simp add: take_bit_eq_mod)
  then have "unat y \<in> {0, 1, 2, 3}" by auto
  then have "y \<in> {0, 1, 2, 3}"
    by (elim insertE emptyE) (simp_all add: word_unat_eq_iff)
  moreover have "drop_bit 4 ((x AND 0x3f) OR 0x80) = y OR 8" by (simp add: y_def drop_bit_or)
  ultimately show ?thesis by (elim insertE emptyE) simp_all
qed

lemma variant_digit: "n \<in> {8, 9, 10, 11} \<Longrightarrow> hex_digit n \<in> set ''89ab''"
  by (elim insertE emptyE; simp only:; code_simp)

lemma list_of_16:
  assumes "length xs = 16"
  obtains a b c d e f g h i j k l m n p q where "xs = [a, b, c, d, e, f, g, h, i, j, k, l, m, n, p, q]"
  using assms by (auto simp: length_Suc_conv eval_nat_numeral)

text \<open>
  an effect id is a version-4 UUID.  For any sixteen random bytes the id has 36 characters,
  dashes at the four group boundaries, the version digit 4 and a variant digit 8, 9, a or b.
\<close>
theorem newUUID_shape:
  assumes "length drawn = 16"
  shows "length (newUUID drawn) = 36 \<and> newUUID drawn ! 8 = CHR ''-'' \<and> newUUID drawn ! 13 = CHR ''-'' \<and>
    newUUID drawn ! 18 = CHR ''-'' \<and> newUUID drawn ! 23 = CHR ''-'' \<and>
    newUUID drawn ! 14 = CHR ''4'' \<and> newUUID drawn ! 19 \<in> set ''89ab''"
proof -
  obtain a b c d e f g h i j k l m n p q where
    drawn: "drawn = [a, b, c, d, e, f, g, h, i, j, k, l, m, n, p, q]"
    using list_of_16 [OF assms] .
  have "hex_digit (unat (drop_bit 4 ((g AND 0x0f) OR 0x40))) = CHR ''4''"
    unfolding version_nibble by code_simp
  moreover have "hex_digit (unat (drop_bit 4 ((i AND 0x3f) OR 0x80))) \<in> set ''89ab''"
    by (rule variant_digit) (rule variant_nibble)
  ultimately show ?thesis
    by (simp add: drawn newUUID_def Let_def hex_bytes_def hex_byte_def drop_bit_or)
qed

theorem newUUID_shape_witness:
  "length (newUUID (replicate 16 0xff)) = 36 \<and> newUUID (replicate 16 0xff) ! 14 = CHR ''4''"
  using newUUID_shape [of "replicate 16 0xff"] by simp

section \<open>The journal\<close>

text \<open>
  C4: executions are accounted for, and an effect without idempotency is executed at most once.
  Over any sequence of journal operations from an empty journal (proposals, approvals, executions,
  outcomes, denials, crash recoveries, in any order), the attempts counter of an effect is exactly
  the number of executions begun, every execution used the effect id as its one idempotency key, and
  an effect of class D was begun at most once.
\<close>
theorem executions_counted:
  assumes run: "journal_run ops empty_db = (begun, s)"
    and sha: "\<forall>(je, op)\<in>set ops. je_sha (je 0) = sha"
    and e: "find_effect eid s = Some e"
  shows "int (count_list begun eid) = eff_attempts e \<and>
    (0 < count_list begun eid \<longrightarrow> eff_key e = eid) \<and>
    (eff_class e = ClassD \<longrightarrow> count_list begun eid \<le> 1)"
proof -
  have "journal_keeps sha empty_db s"
    using journal_run_keeps [OF sha, of empty_db] run by simp
  then have "eff_ok sha e"
    using empty_journal_ok find_effect_Some [OF e] by (auto simp: journal_keeps_def journal_ok_def)
  moreover have "int (count_list begun eid) = eff_attempts e"
    using attempts_run [of eid ops empty_db] run e
    by (simp add: attempts_of_def find_effect_def empty_db_def tbl_find_def)
  ultimately show ?thesis using find_effect_Some [OF e] by (auto simp: eff_ok_def split: if_splits)
qed

definition sample_proposal :: proposal where
  "sample_proposal = \<lparr>pr_run = [], pr_user = ''ann'', pr_class = ''D'', pr_payload = sample_payload,
     pr_window_ref = []\<rparr>"

text \<open>Propose, approve, begin, crash recovery, and a second attempt to begin.\<close>

definition sample_id :: string where
  "sample_id = newUUID (replicate 16 0)"

definition sample_ops :: "((nat \<Rightarrow> journal_env) \<times> journal_op) list" where
  "sample_ops = map (\<lambda>op. (\<lambda>n. sample_je 1000, op))
     [OpPropose (replicate 16 0) sample_proposal, OpApprove sample_id ''bob'', OpBegin sample_id,
      OpReconcile, OpBegin sample_id]"

lemma sample_id_nonempty: "sample_id \<noteq> []"
  by (simp add: sample_id_def newUUID_def Let_def)

lemmas journal_eval = Propose_def ProposeTx_def Approve_def BeginExecute_def begin_tx_def
  row_of_proposal_def insert_effect_def getEffectTx_def set_effect_def update_effects_def
  find_effect_def executing_row_def read_duration_def canonical_sample tbl_find_def tbl_update_def
  ReconcileInDoubt_def InState_def MarkUnknown_def finish_def unknown_card_def class_of_name_def

theorem executions_counted_witness:
  "\<exists>s e. journal_run sample_ops empty_db = ([sample_id], s) \<and> find_effect sample_id s = Some e \<and>
     eff_attempts e = 1 \<and> eff_key e = sample_id \<and> eff_state e = EffectUnknown"
proof -
  have "\<exists>s e. journal_run sample_ops empty_db = ([sample_id], s) \<and> find_effect sample_id s = Some e \<and>
      eff_state e = EffectUnknown"
    using sample_id_nonempty
    by (simp add: sample_ops_def sample_proposal_def sample_je_def sample_sha_def sample_cfg_def
        hashPayload_def time_sub_def int64_max_def int64_min_def
        empty_db_def journal_eval tx_eval sample_id_def [symmetric] cong: tx_bind_weak)
  then obtain s e where s: "journal_run sample_ops empty_db = ([sample_id], s)"
    and e: "find_effect sample_id s = Some e" "eff_state e = EffectUnknown" by blast
  have "\<forall>(je, op)\<in>set sample_ops. je_sha (je 0) = sample_sha"
    by (simp add: sample_ops_def sample_je_def)
  from executions_counted [OF s this e(1)] s e show ?thesis by auto
qed

text \<open>
  C6: an execution begins only under a live approval of this very payload.  When an execution
  begins, the row was approved, by somebody, no longer ago than the approval expiry, and the hash
  recorded with it is the hash of the payload now stored; the row becomes executing with one more
  attempt and the effect id as idempotency key, and no other effect is touched.
\<close>
theorem begin_needs_live_approval:
  assumes ok: "journal_ok sha s" and sha: "je_sha je = sha" and b: "BeginExecute je eid s = (Inr e, t)"
  shows "\<exists>cur expiry. find_effect eid s = Some cur \<and> eff_state cur = EffectApproved \<and>
    eff_approved_by cur \<noteq> [] \<and> set_duration (je_settings je) keyApprovalExpiry = Some expiry \<and>
    time_sub (je_now je) (eff_approved_ts cur) \<le> expiry \<and>
    sha (raw_text (eff_payload cur)) = eff_hash cur \<and>
    e = cur\<lparr>eff_state := EffectExecuting, eff_key := eid, eff_attempts := eff_attempts cur + 1,
      eff_updated := je_now je\<rparr> \<and>
    (\<forall>x. find_effect x t = (if x = eid then Some e else find_effect x s))"
proof -
  from BeginExecute_Inr [OF b] obtain cur expiry where cur: "find_effect eid s = Some cur"
      "eff_state cur = EffectApproved" "set_duration (je_settings je) keyApprovalExpiry = Some expiry"
      "time_sub (je_now je) (eff_approved_ts cur) \<le> expiry"
    and e: "e = executing_row je (if eff_key cur = [] then eff_id cur else eff_key cur) cur"
    and t: "t = update_effects (\<lambda>x. eff_id x = eid)
          (executing_row je (if eff_key cur = [] then eff_id cur else eff_key cur)) s"
      "find_effect eid t = Some e" by blast
  have id: "eff_id cur = eid" and eff: "eff_ok sha cur"
    using find_effect_Some [OF cur(1)] ok by (auto simp: journal_ok_def)
  then have key: "(if eff_key cur = [] then eff_id cur else eff_key cur) = eid"
    by (auto simp: eff_ok_def split: if_splits)
  have "find_effect x t = find_effect x s" if "x \<noteq> eid" for x
  proof -
    have "find_effect x t = map_option (\<lambda>e. if eff_id e = eid then executing_row je eid e else e) (find_effect x s)"
      unfolding t(1) key by (rule find_effect_update_any) (simp add: executing_row_def)
    with that find_effect_Some [of x s] show ?thesis by (cases "find_effect x s") auto
  qed
  then show ?thesis
    using cur e eff id key t(2) by (auto simp: eff_ok_def executing_row_def hashPayload_def)
qed

theorem begin_needs_live_approval_witness:
  "\<exists>e t. BeginExecute (sample_je 2000) ''e'' (sample_journal ClassA EffectApproved) = (Inr e, t) \<and>
     eff_key e = ''e''"
proof -
  obtain e t where b: "BeginExecute (sample_je 2000) ''e'' (sample_journal ClassA EffectApproved) = (Inr e, t)"
    by (simp add: sample_je_def sample_cfg_def journal_eval tx_eval sample_journal_def sample_effect_def
        hashPayload_def sample_sha_def empty_db_def time_sub_def int64_max_def int64_min_def cong: tx_bind_weak)
  have "journal_ok sample_sha (sample_journal ClassA EffectApproved)" by (rule sample_journal_ok) simp
  from begin_needs_live_approval [OF this _ b] b show ?thesis
    by (auto simp: sample_je_def)
qed

text \<open>An effect that is not approved stays so until an approval of it.\<close>

definition unapproved :: "string \<Rightarrow> db \<Rightarrow> bool" where
  "unapproved eid s \<longleftrightarrow> (\<exists>e. find_effect eid s = Some e \<and> eff_state e \<in> {EffectProposed, EffectFailed})"

lemma unapproved_update:
  assumes "unapproved eid s" "\<And>x. eff_id (f x) = eff_id x"
    and "\<And>x. find_effect eid s = Some x \<Longrightarrow> p x \<Longrightarrow> eff_state x \<in> {EffectProposed, EffectFailed} \<Longrightarrow>
      eff_state (f x) \<in> {EffectProposed, EffectFailed}"
  shows "unapproved eid (update_effects p f s)"
proof -
  obtain e where e: "find_effect eid s = Some e" "eff_state e \<in> {EffectProposed, EffectFailed}"
    using assms(1) by (auto simp: unapproved_def)
  moreover have "find_effect eid (update_effects p f s) = Some (if p e then f e else e)"
    using find_effect_update_any [OF assms(2), of eid p s] e(1) by simp
  ultimately show ?thesis using assms(3) [OF e(1)] unfolding unapproved_def by auto
qed

lemma unapproved_write:
  assumes "unapproved eid s" "\<And>x t. m s = Inr (x, t) \<Longrightarrow> unapproved eid t"
  shows "unapproved eid (snd (write_tx m s))"
  by (rule write_tx_cases [of m s]) (auto intro: assms)

text \<open>A guarded write of one row: of another effect, or of this one out of another state.\<close>

lemma unapproved_set:
  assumes "unapproved eid s" "find_effect eid' s = Some cur" "\<And>x. eff_id (f x) = eff_id x"
    and "eff_state cur \<in> {EffectProposed, EffectFailed} \<Longrightarrow> eid' = eid \<Longrightarrow> eff_state (f cur) \<in> {EffectProposed, EffectFailed}"
  shows "unapproved eid (update_effects (\<lambda>e. eff_id e = eid') f s)"
proof (rule unapproved_update [OF assms(1,3)])
  fix x assume x: "find_effect eid s = Some x" "eff_id x = eid'" "eff_state x \<in> {EffectProposed, EffectFailed}"
  then have "eid' = eid" using find_effect_Some [OF x(1)] by simp
  with x assms(2,4) show "eff_state (f x) \<in> {EffectProposed, EffectFailed}" by simp
qed

lemma unapproved_finish: "unapproved eid s \<Longrightarrow> unapproved eid (snd (finish je eid' to result s))"
  unfolding finish_def by (auto simp: tx_simps intro!: unapproved_write unapproved_set split: if_splits)

lemma unapproved_reconcile: "unapproved eid s \<Longrightarrow> unapproved eid (snd (reconcile_effects je n es s))"
proof (induction es arbitrary: n s)
  case (Cons e es)
  show ?case
  proof (cases "eff_class e = ClassD")
    case True
    obtain r t where m: "MarkUnknown (je n) (eff_id e) crash_window_note s = (r, t)"
      by (cases "MarkUnknown (je n) (eff_id e) crash_window_note s")
    then have t: "unapproved eid t"
      using unapproved_finish [OF Cons.prems, of "je n" "eff_id e" EffectUnknown] by (metis MarkUnknown_def snd_conv)
    show ?thesis
      using True m t Cons.IH [OF t, of "n + 1"] by (cases r; cases "reconcile_effects je (n + 1) es t") auto
  next
    case False
    then have "snd (reconcile_effects je n (e # es) s) = snd (reconcile_effects je (n + 1) es
        (update_effects (\<lambda>r. eff_id r = eff_id e \<and> eff_state r = EffectExecuting)
          (\<lambda>r. r\<lparr>eff_state := EffectApproved, eff_updated := je_now (je n)\<rparr>) s))"
      by (cases "eff_class e") (simp_all add: Let_def split: prod.splits)
    moreover have "unapproved eid (update_effects (\<lambda>r. eff_id r = eff_id e \<and> eff_state r = EffectExecuting)
          (\<lambda>r. r\<lparr>eff_state := EffectApproved, eff_updated := je_now (je n)\<rparr>) s)"
      by (rule unapproved_update [OF Cons.prems]) auto
    ultimately show ?thesis using Cons.IH by simp
  qed
qed simp

lemma unapproved_begin: "unapproved eid s \<Longrightarrow> unapproved eid (snd (BeginExecute je eid' s))"
proof -
  assume u: "unapproved eid s"
  have "unapproved eid (snd (write_tx (begin_tx je expiry eid') s))" for expiry
    by (rule unapproved_write [OF u])
      (auto simp: begin_tx_def tx_simps reapproval_reset_def executing_row_def
        intro: u unapproved_set [OF u] split: if_splits option.splits)
  with u show ?thesis by (auto simp: BeginExecute_def split: sum.splits prod.splits) (metis snd_conv)+
qed

lemma unapproved_step:
  assumes "unapproved eid s" "\<forall>a. op \<noteq> OpApprove eid a"
  shows "unapproved eid (snd (journal_step je op s))"
proof (cases op)
  case (OpPropose drawn p)
  have "unapproved eid (snd (Propose (je 0) drawn p s))"
    unfolding Propose_def using assms(1)
    by (intro unapproved_write) (auto simp: ProposeTx_def tx_simps insert_effect_def unapproved_def
        find_effect_append split: if_splits option.splits)
  then show ?thesis by (simp add: OpPropose)
next
  case (OpApprove eid' a)
  then have "eid' \<noteq> eid" using assms(2) by blast
  then have "unapproved eid (snd (Approve (je 0) eid' a s))"
    unfolding Approve_def using assms(1)
    by (auto simp: tx_simps intro!: unapproved_write unapproved_set split: if_splits option.splits)
  then show ?thesis by (simp add: OpApprove)
next
  case (OpDeny eid' a b)
  have "unapproved eid (snd (Deny (je 0) eid' a b s))"
    unfolding Deny_def using assms(1)
    by (auto simp: tx_simps intro!: unapproved_write unapproved_set split: if_splits)
  then show ?thesis by (simp add: OpDeny)
next
  case (OpBegin eid')
  then show ?thesis using unapproved_begin [OF assms(1), of "je 0" eid'] by (auto split: sum.splits prod.splits)
qed (simp_all add: assms(1) Succeed_def Fail_def MarkUnknown_def ReconcileInDoubt_def unapproved_finish unapproved_reconcile)

lemma unapproved_run:
  "unapproved eid s \<Longrightarrow> \<forall>x\<in>set ops. \<forall>a. snd x \<noteq> OpApprove eid a \<Longrightarrow> unapproved eid (snd (journal_run ops s))"
proof (induction ops arbitrary: s)
  case (Cons x ops)
  obtain je op where x: "x = (je, op)" by (cases x)
  obtain begun t where step: "journal_step je op s = (begun, t)" by fastforce
  obtain rest u where more: "journal_run ops t = (rest, u)" by fastforce
  have "unapproved eid t" using unapproved_step [OF Cons.prems(1), of op je] Cons.prems(2) step by (simp add: x)
  from Cons.IH [OF this] Cons.prems(2) show ?case by (simp add: x step more)
qed simp

lemma unapproved_refused: "unapproved eid s \<Longrightarrow> \<exists>err. BeginExecute je eid s = (Inl err, s)"
  by (auto simp: unapproved_def BeginExecute_def begin_tx_def tx_eval getEffectTx_def write_tx_def read_duration_def
      split: option.splits)

text \<open>
  C37: an approval that ran out is taken back.  Beginning an execution later than the approval
  expiry is refused with the expiry error, and the refusal commits the row's return to proposed
  without an approver.  From then on, whatever operations of the journal follow, in any number and order
  and in any environment, as long as none of them is an approval of this effect, beginning it is refused
  and changes nothing.
\<close>
theorem expired_approval_reset:
  assumes cur: "find_effect eid s = Some cur" "eff_state cur = EffectApproved"
    and expiry: "set_duration (je_settings je) keyApprovalExpiry = Some expiry"
    and late: "time_sub (je_now je) (eff_approved_ts cur) > expiry"
  shows "\<exists>t e. BeginExecute je eid s = (Inl (ErrApprovalExpired eid), t) \<and> find_effect eid t = Some e \<and>
    eff_state e = EffectProposed \<and> eff_approved_by e = [] \<and> eff_attempts e = eff_attempts cur \<and>
    (\<forall>ops je'. (\<forall>x\<in>set ops. \<forall>a. snd x \<noteq> OpApprove eid a) \<longrightarrow>
       (\<exists>err. BeginExecute je' eid (snd (journal_run ops t)) = (Inl err, snd (journal_run ops t))))"
proof -
  let ?t = "update_effects (\<lambda>e. eff_id e = eid) (reapproval_reset je) s"
  have "begin_tx je expiry eid s = Inr (Inl (ErrApprovalExpired eid), ?t)"
    using cur late by (simp add: begin_tx_def tx_eval getEffectTx_def set_effect_def)
  then have b: "BeginExecute je eid s = (Inl (ErrApprovalExpired eid), ?t)"
    using expiry by (simp add: BeginExecute_def read_duration_def write_tx_def)
  have e: "find_effect eid ?t = Some (reapproval_reset je cur)"
    using find_effect_Some [OF cur(1)] by (intro find_effect_update [OF cur(1)]) (simp_all add: reapproval_reset_def)
  then have "unapproved eid ?t" by (simp add: unapproved_def reapproval_reset_def)
  from unapproved_run [OF this] have "\<exists>err. BeginExecute je' eid (snd (journal_run ops ?t)) = (Inl err, snd (journal_run ops ?t))"
    if "\<forall>x\<in>set ops. \<forall>a. snd x \<noteq> OpApprove eid a" for ops je'
    using that by (intro unapproved_refused) blast
  with b e show ?thesis by (auto simp: reapproval_reset_def)
qed

theorem expired_approval_reset_witness:
  "\<exists>t. BeginExecute (sample_je 5000) ''e'' (sample_journal ClassA EffectApproved) =
     (Inl (ErrApprovalExpired ''e''), t)"
  using expired_approval_reset [OF sample_journal_find [of ClassA EffectApproved], where
      je = "sample_je 5000" and expiry = 3600]
  by (auto simp: sample_effect_def sample_je_def sample_cfg_def time_sub_def int64_max_def int64_min_def)

text \<open>
  C38: a payload that no longer matches its hash is never approved and never executed.  If the
  stored payload of an effect does not hash to the hash recorded at its proposal, approving it and
  beginning it both fail, and neither leaves it approved or executing that was not so before.
\<close>
theorem drifted_payload_never_executes:
  assumes cur: "find_effect eid s = Some cur"
    and drift: "CanonicalHash (je_sha je) (eff_payload cur) \<noteq> Some (eff_hash cur)"
  shows "(\<exists>err. Approve je eid approver s = (Inl err, s)) \<and>
    (\<exists>err t e. BeginExecute je eid s = (Inl err, t) \<and> find_effect eid t = Some e \<and>
       (eff_state e = eff_state cur \<or> eff_state e = EffectProposed) \<and> eff_attempts e = eff_attempts cur)"
proof -
  have "\<exists>err. Approve je eid approver s = (Inl err, s)"
    using cur drift
    by (auto simp: Approve_def tx_eval getEffectTx_def CanonicalHash_def split: option.splits)
  moreover have "\<exists>err t e. BeginExecute je eid s = (Inl err, t) \<and> find_effect eid t = Some e \<and>
       (eff_state e = eff_state cur \<or> eff_state e = EffectProposed) \<and> eff_attempts e = eff_attempts cur"
  proof (cases "set_duration (je_settings je) keyApprovalExpiry")
    case None
    then show ?thesis using cur by (simp add: BeginExecute_def read_duration_def)
  next
    case (Some expiry)
    let ?t = "update_effects (\<lambda>e. eff_id e = eid) (reapproval_reset je) s"
    have reset: "find_effect eid ?t = Some (reapproval_reset je cur)"
      using find_effect_Some [OF cur] by (intro find_effect_update [OF cur]) (simp_all add: reapproval_reset_def)
    have "(\<exists>err. begin_tx je expiry eid s = Inl err) \<or> (\<exists>err. begin_tx je expiry eid s = Inr (Inl err, ?t))"
      using cur drift
      by (auto simp: begin_tx_def tx_eval getEffectTx_def set_effect_def CanonicalHash_def split: option.splits)
    then show ?thesis
      using Some cur reset by (auto simp: BeginExecute_def read_duration_def write_tx_def reapproval_reset_def)
  qed
  ultimately show ?thesis by blast
qed

definition sample_tampered :: db where
  "sample_tampered = empty_db\<lparr>t_effects :=
     [(sample_effect ClassA EffectApproved)\<lparr>eff_payload := marshal (JObj [])\<rparr>]\<rparr>"

theorem drifted_payload_never_executes_witness:
  "\<exists>err t. BeginExecute (sample_je 2000) ''e'' sample_tampered = (Inl err, t)"
proof -
  let ?e = "(sample_effect ClassA EffectApproved)\<lparr>eff_payload := marshal (JObj [])\<rparr>"
  have "find_effect ''e'' sample_tampered = Some ?e"
    by (simp add: find_effect_def tbl_find_def sample_tampered_def sample_effect_def)
  moreover have "CanonicalHash (je_sha (sample_je 2000)) (eff_payload ?e) \<noteq> Some (eff_hash ?e)"
    by (simp add: CanonicalHash_def canonicalJSON_def decoder_more_def sample_effect_def sample_je_def
        hashPayload_def sample_sha_def sample_payload_def quote_text_def)
  ultimately show ?thesis using drifted_payload_never_executes by blast
qed

text \<open>
  what an effect is never changes, and a settled effect stays settled.  Over any sequence of
  journal operations an effect keeps its owner, run, class, payload and hash, its idempotency key
  once set, and never loses attempts; once succeeded, failed or of unknown outcome it stays so.
\<close>
theorem effects_immutable:
  assumes ok: "journal_ok sha s" and sha: "\<forall>(je, op)\<in>set ops. je_sha (je 0) = sha"
    and e: "find_effect eid s = Some e"
  shows "\<exists>e'. find_effect eid (snd (journal_run ops s)) = Some e' \<and>
    eff_user e' = eff_user e \<and> eff_run e' = eff_run e \<and> eff_class e' = eff_class e \<and>
    eff_payload e' = eff_payload e \<and> eff_hash e' = eff_hash e \<and> eff_attempts e \<le> eff_attempts e' \<and>
    (eff_key e \<noteq> [] \<longrightarrow> eff_key e' = eff_key e) \<and>
    (eff_state e \<in> {EffectSucceeded, EffectFailed, EffectUnknown} \<longrightarrow> eff_state e' = eff_state e)"
proof -
  let ?t = "snd (journal_run ops s)"
  have "journal_ok sha ?t" and "\<exists>e'\<in>set (t_effects ?t). eff_step e e'"
    using journal_run_keeps [OF sha, of s] ok find_effect_Some [OF e] by (auto simp: journal_keeps_def)
  then obtain e' where e': "find_effect eid ?t = Some e'" "eff_step e e'"
    using find_effect_iff find_effect_Some [OF e] by (force simp: eff_step_def)
  moreover have "eff_state e' = eff_state e" if "effect_final (eff_state e)"
    using effect_fsm.final_path e'(2) that by (simp add: eff_step_def)
  ultimately show ?thesis by (auto simp: eff_step_def effect_final_def)
qed

theorem effects_immutable_witness:
  "\<exists>e'. find_effect ''e'' (snd (journal_run [(\<lambda>n. sample_je 2000, OpBegin ''e'')]
      (sample_journal ClassA EffectApproved))) = Some e' \<and> eff_payload e' = sample_payload"
proof -
  have "journal_ok sample_sha (sample_journal ClassA EffectApproved)" by (rule sample_journal_ok) simp
  then show ?thesis
    using effects_immutable [OF _ _ sample_journal_find, of sample_sha ClassA EffectApproved
        "[(\<lambda>n. sample_je 2000, OpBegin ''e'')]"]
    by (auto simp: sample_je_def sample_effect_def)
qed

text \<open>
  C31: crash recovery leaves no effect in doubt.  The reconciliation pass always succeeds, reports
  exactly the executing effects, and settles each of them: of class D to unknown outcome with a card for a
  human as its result, of every other class back to approved (a replay under the same key), in both cases
  at a time of the pass and with every other column as it was.  Every other effect is as it was, row for
  row, no effect appears, and no other table is touched.
\<close>
theorem reconcile_settles_all:
  assumes "journal_ok sha s"
  shows "\<exists>out u. ReconcileInDoubt je s = ((None, out), u) \<and>
    (\<forall>eid. eid \<in> fst ` set out \<longleftrightarrow> (\<exists>e. find_effect eid s = Some e \<and> eff_state e = EffectExecuting)) \<and>
    (\<forall>eid e. find_effect eid s = Some e \<and> eff_state e = EffectExecuting \<longrightarrow>
       (\<exists>k. find_effect eid u = Some (if eff_class e = ClassD
          then e\<lparr>eff_state := EffectUnknown, eff_result := unknown_card crash_window_note, eff_updated := je_now (je k)\<rparr>
          else e\<lparr>eff_state := EffectApproved, eff_updated := je_now (je k)\<rparr>))) \<and>
    (\<forall>eid. (\<forall>e. find_effect eid s = Some e \<longrightarrow> eff_state e \<noteq> EffectExecuting) \<longrightarrow>
       find_effect eid u = find_effect eid s) \<and>
    (\<exists>rows. u = s\<lparr>t_effects := rows\<rparr>)"
  using ReconcileInDoubt_spec [OF assms, of je] unfolding settled_row_def .

theorem reconcile_settles_all_witness:
  "\<exists>e'. find_effect ''e'' (snd (ReconcileInDoubt (\<lambda>n. sample_je 2000) (sample_journal ClassD EffectExecuting)))
     = Some e' \<and> eff_state e' = EffectUnknown"
proof -
  have "journal_ok sample_sha (sample_journal ClassD EffectExecuting)" by (rule sample_journal_ok) simp
  from reconcile_settles_all [OF this, of "\<lambda>n. sample_je 2000"]
  show ?thesis
    using sample_journal_find [of ClassD EffectExecuting] by (fastforce simp: sample_effect_def)
qed

text \<open>
  every effect that reached the outside world was approved.  In every reachable state of the
  platform an executing, succeeded or unknown effect carries a non-empty approver, at least one
  attempt, its own id as idempotency key, and a payload that still hashes to the recorded hash.
\<close>
theorem executed_effects_were_approved:
  assumes "reachable sha s" "find_effect eid s = Some e"
    and "eff_state e \<in> {EffectExecuting, EffectSucceeded, EffectUnknown}"
  shows "eff_approved_by e \<noteq> [] \<and> 1 \<le> eff_attempts e \<and> eff_key e = eid \<and>
    sha (raw_text (eff_payload e)) = eff_hash e"
proof -
  have "eff_ok sha e" "eff_id e = eid"
    using reachable_ok [OF assms(1)] find_effect_Some [OF assms(2)]
    by (auto simp: platform_ok_def journal_ok_def)
  with assms(3) show ?thesis by (auto simp: eff_ok_def hashPayload_def)
qed

lemma sample_ops_reachable:
  "\<forall>(je, op)\<in>set ops. je_sha (je 0) = sha \<and> op \<noteq> OpReconcile \<Longrightarrow> reachable sha s \<Longrightarrow>
   reachable sha (snd (journal_run ops s))"
proof (induction ops arbitrary: s)
  case Nil
  then show ?case by simp
next
  case (Cons x ops)
  obtain je op where x: "x = (je, op)" by (cases x)
  have "reachable sha (snd (journal_step je op s))"
    using Cons.prems x by (intro reachable_step [OF _ platform_step.journal_op]) auto
  then have "reachable sha (snd (journal_run ops (snd (journal_step je op s))))"
    using Cons.prems(1) x by (intro Cons.IH) auto
  then show ?case
    by (cases "journal_step je op s"; cases "journal_run ops (snd (journal_step je op s))") (simp add: x)
qed

theorem executed_effects_were_approved_witness:
  "\<exists>e. find_effect sample_id (snd (journal_run (take 3 sample_ops) empty_db)) = Some e \<and>
     eff_state e = EffectExecuting \<and> eff_approved_by e \<noteq> [] \<and> eff_key e = sample_id"
proof -
  have "\<exists>e. find_effect sample_id (snd (journal_run (take 3 sample_ops) empty_db)) = Some e \<and>
      eff_state e = EffectExecuting"
    using sample_id_nonempty
    by (simp add: sample_ops_def sample_proposal_def sample_je_def sample_sha_def sample_cfg_def
        hashPayload_def time_sub_def int64_max_def int64_min_def
        empty_db_def journal_eval tx_eval sample_id_def [symmetric] cong: tx_bind_weak)
  then obtain e where e: "find_effect sample_id (snd (journal_run (take 3 sample_ops) empty_db)) = Some e"
    "eff_state e = EffectExecuting" by blast
  have "reachable sample_sha (snd (journal_run (take 3 sample_ops) empty_db))"
    by (rule sample_ops_reachable [OF _ reachable_empty]) (simp add: sample_ops_def sample_je_def)
  from executed_effects_were_approved [OF this e(1)] e show ?thesis by auto
qed

end
