(* ===== verification/Scheduler_Properties.thy ===== *)
theory Scheduler_Properties
  imports Sample_Data
begin

text \<open>
  The properties of the scheduler: enqueueing, the admission order and its hints, the claim pass with
  its gates, and the limit classifier, each with a witness at a concrete input.
\<close>

section \<open>Enqueueing\<close>

lemma EnqueueTx_state:
  assumes good: "good s" and hook: "sched_hook_ok env" and en: "EnqueueTx env rid cls s = Inr (x, t)"
  shows "\<exists>r. find_run rid t = Some r \<and> run_state r = StateQueued"
proof -
  from en obtain r u v where r: "find_run rid s = Some r"
    and st: "(case run_state r of
          StateNew \<Rightarrow> tx_bind (TransitionTx env rid StateQueued
                        (sched_options ''queued and waiting its turn'')) (\<lambda>_. tx_return ())
        | StateQueued \<Rightarrow> tx_return ()
        | st \<Rightarrow> tx_fail (CannotEnqueue rid st)) s = Inr (v, u)"
    and m: "materializeQueueRowTx env (run_id r) (run_user r) cls u = Inr (x, t)"
    unfolding EnqueueTx_def tx_bind_Inr getTx_Inr by blast
  have "find_run rid t = find_run rid u"
    using m by (intro find_run_cong) (auto simp: materializeQueueRowTx_def tx_simps split: if_splits)
  note same = this
  from st have "(u = s \<and> run_state r = StateQueued) \<or>
      (\<exists>r'. TransitionTx env rid StateQueued (sched_options ''queued and waiting its turn'') s = Inr (r', u))"
    by (cases "run_state r") (auto simp: tx_simps)
  moreover have "\<exists>r. find_run rid u = Some r \<and> run_state r = StateQueued"
    if "TransitionTx env rid StateQueued (sched_options ''queued and waiting its turn'') s = Inr (r', u)" for r'
    using TransitionTx_state [OF good sched_hook_ok_hook_ok [OF hook] that] by (auto simp: IsTerminal_def)
  ultimately have "\<exists>r. find_run rid u = Some r \<and> run_state r = StateQueued" using r by auto
  then show ?thesis using same by simp
qed

text \<open>
  enqueueing is exactly-once and repeatable.  When an enqueue commits, the run is queued and has
  exactly one active queue row; enqueueing it again, under any class, succeeds and changes nothing.
\<close>
theorem enqueue_once:
  assumes good: "good s" and q: "queue_ok s" and hook: "sched_hook_ok env"
    and en: "EnqueueTx env rid cls s = Inr (x, t)"
  shows "(\<exists>r. find_run rid t = Some r \<and> run_state r = StateQueued) \<and>
    tbl_count (\<lambda>q. q_run q = rid \<and> active_row q) (t_queue t) = 1 \<and>
    EnqueueTx env' rid cls' t = Inr ((), t)"
proof -
  let ?p = "\<lambda>q. q_run q = rid \<and> active_row q"
  obtain r where r: "find_run rid t = Some r" "run_state r = StateQueued"
    using EnqueueTx_state [OF good hook en] by blast
  have id: "run_id r = rid" using find_run_Some [OF r(1)] by simp
  have "tbl_count ?p (t_queue t) \<le> 1"
    using EnqueueTx_keeps [OF hook, of rid cls, THEN tx_relD, OF en] good q
    by (simp add: sched_keeps_def queue_ok_def)
  moreover have "0 < tbl_count ?p (t_queue t)"
  proof -
    from en obtain r0 u where "find_run rid s = Some r0"
      and m: "materializeQueueRowTx env (run_id r0) (run_user r0) cls u = Inr (x, t)"
      unfolding EnqueueTx_def tx_bind_Inr getTx_Inr by blast
    then have "run_id r0 = rid" using find_run_Some by blast
    with m show ?thesis
      by (auto simp: materializeQueueRowTx_def tx_simps active_row_def tbl_count_def split: if_splits)
  qed
  ultimately have one: "tbl_count ?p (t_queue t) = 1" by simp
  then have "EnqueueTx env' rid cls' t = Inr ((), t)"
    using r id by (simp add: EnqueueTx_def getTx_def tx_eval materializeQueueRowTx_def)
  with r one show ?thesis by blast
qed

lemma sample_sched_hook: "sched_hook_ok sample_env"
  using sample_env_frame hook_frame_sched by blast

lemma sample_queue_ok: "queue_ok (sample_db path)" "good (sample_db path)"
  using reachable_ok [OF sample_reachable, of "\<lambda>x. x" path] by (simp_all add: platform_ok_def)

lemmas queue_eval = EnqueueTx_def materializeQueueRowTx_def insert_queue_def active_row_def
  has_run_def sched_options_def

theorem enqueue_once_witness:
  "\<exists>t. EnqueueTx sample_env ''r'' ClassInteractive (sample_db []) = Inr ((), t) \<and>
     EnqueueTx sample_env ''r'' ClassProbe t = Inr ((), t)"
proof -
  have "\<exists>t. EnqueueTx sample_env ''r'' ClassInteractive (sample_db []) = Inr ((), t)"
    by (simp add: queue_eval ActorPlatform_def tx_eval json_eval append_eval run_eval sample_eval cong: tx_bind_weak)
  then show ?thesis
    using enqueue_once [OF sample_queue_ok(2,1) sample_sched_hook] by blast
qed

section \<open>The admission order\<close>

text \<open>
  the admission order is a function of what is queued, not of how the rows are stored.  Two
  databases with the same runs and the same queue rows in any order give the same ordered list of
  candidates.
\<close>
theorem admission_ignores_row_order:
  assumes "queue_ok s" "t_runs t = t_runs s" "mset (t_queue t) = mset (t_queue s)"
  shows "sortCandidates now (candidates s) = sortCandidates now (candidates t)"
proof (rule sortCandidates_rows)
  have run: "find_run rid t = find_run rid s" for rid by (rule find_run_cong) (rule assms(2))
  have concat: "mset (concat (map f xs)) = sum_mset (image_mset (\<lambda>x. mset (f x)) (mset xs))"
    for f :: "queue_row \<Rightarrow> candidate list" and xs by (induction xs) auto
  show "mset (candidates s) = mset (candidates t)"
    unfolding candidates_def concat run assms(3) by (rule refl)
  show "distinct (map c_queue (candidates s))" by (rule candidates_distinct [OF assms(1)])
qed

definition sample_queue_row :: "int \<Rightarrow> string \<Rightarrow> string \<Rightarrow> time \<Rightarrow> queue_row" where
  "sample_queue_row i rid cls since = \<lparr>q_id = i, q_run = rid, q_user = ''ann'', q_status = QueueQueued,
     q_claimed_by = [], q_lease_deadline = 0, q_priority_lane = cls, q_enqueued = since, q_hint_rank = 0\<rparr>"

text \<open>Two queued runs with a row each.\<close>

definition sample_two :: db where
  "sample_two = empty_db\<lparr>
     t_runs := map (\<lambda>rid. row_of_new 1000 (sample_new rid) StateQueued) [''a'', ''b''],
     t_queue := [sample_queue_row 1 ''a'' ''scheduled'' 100, sample_queue_row 2 ''b'' ''interactive'' 200]\<rparr>"

lemma sample_two_queue: "queue_ok sample_two"
  by (simp add: queue_ok_def queue_keyed_def sample_two_def sample_queue_row_def find_run_def
      tbl_find_def tbl_count_def row_of_new_def sample_new_def)

theorem admission_ignores_row_order_witness:
  "sortCandidates 1000 (candidates sample_two) =
   sortCandidates 1000 (candidates (sample_two\<lparr>t_queue := rev (t_queue sample_two)\<rparr>))"
  by (rule admission_ignores_row_order) (simp_all add: sample_two_queue)

text \<open>
  a person's priority hints reorder only that person's own runs.  Whatever ranks one person
  assigns to her queued runs, every position of the admission order keeps its owner and its workload
  class, and every position held by another person keeps exactly the same candidate.
\<close>
theorem hints_move_own_runs_only:
  assumes "distinct (map c_queue cands)" "p < length cands"
  shows "c_user (sortCandidates now (map (set_hints u f) cands) ! p) = c_user (sortCandidates now cands ! p) \<and>
    c_class (sortCandidates now (map (set_hints u f) cands) ! p) = c_class (sortCandidates now cands ! p) \<and>
    (c_user (sortCandidates now cands ! p) \<noteq> u \<longrightarrow>
       sortCandidates now (map (set_hints u f) cands) ! p = sortCandidates now cands ! p)"
  using hints_local [OF assms] by simp

theorem hints_move_own_runs_only_witness:
  "c_class (sortCandidates 1000 (map (set_hints ''ann'' c_queue) (candidates sample_two)) ! 0) =
   c_class (sortCandidates 1000 (candidates sample_two) ! 0)"
proof -
  have "0 < length (candidates sample_two)"
    by (simp add: candidates_def sample_two_def sample_queue_row_def find_run_def tbl_find_def
        row_of_new_def sample_new_def)
  from hints_move_own_runs_only [OF candidates_distinct [OF sample_two_queue] this] show ?thesis by blast
qed

text \<open>Without different hints the assigned keys are the natural ones.\<close>

lemma assigned_no_hints:
  assumes fin: "finite C" and inj: "inj_on (naturalKey now) C" and c: "c \<in> C"
    and same: "\<And>d. d \<in> C \<Longrightarrow> c_hint d = c_hint c"
  shows "assigned now C c = naturalKey now c"
proof -
  let ?K = "naturalKey now ` grp C c"
  have finK: "finite ?K" and cK: "naturalKey now c \<in> ?K"
    using fin c by (auto simp: grp_def same_group_def)
  have "{d \<in> grp C c. hint_key now d < hint_key now c} = {d \<in> grp C c. naturalKey now d < naturalKey now c}"
    using same by (auto simp: hint_key_def less_prod_def grp_def)
  then have "card {d \<in> grp C c. hint_key now d < hint_key now c} =
      card (naturalKey now ` {d \<in> grp C c. naturalKey now d < naturalKey now c})"
    using inj by (subst card_image) (auto simp: inj_on_def grp_def)
  also have "naturalKey now ` {d \<in> grp C c. naturalKey now d < naturalKey now c} =
      {k \<in> ?K. k < naturalKey now c}" by auto
  finally have rank: "card {d \<in> grp C c. hint_key now d < hint_key now c} = card {k \<in> ?K. k < naturalKey now c}" .
  let ?xs = "sorted_list_of_set ?K"
  have xs: "set ?xs = ?K" "distinct ?xs" "sorted ?xs" using finK by simp_all
  obtain p where p: "p < length ?xs" "?xs ! p = naturalKey now c"
    using cK xs(1) by (metis in_set_conv_nth)
  have "sort_key (\<lambda>k. k) ?xs = ?xs" using xs(3) by (simp add: sort_key_id_if_sorted)
  then have "card {k \<in> ?K. k < naturalKey now c} = p"
    using sort_key_position [of ?xs "\<lambda>k. k" p] xs p by simp
  with rank p(2) show ?thesis by (simp add: assigned_def)
qed

definition precedes :: "candidate \<Rightarrow> candidate \<Rightarrow> candidate list \<Rightarrow> bool" where
  "precedes a b zs \<longleftrightarrow> (\<exists>i j. i < j \<and> j < length zs \<and> c_queue (zs ! i) = c_queue a \<and> c_queue (zs ! j) = c_queue b)"

lemma admission_precedes:
  assumes dist: "distinct (map c_queue cands)" and ab: "a \<in> set cands" "b \<in> set cands"
    and less: "(c_class a \<noteq> ClassInteractive, assigned now (set cands) a) <
      (c_class b \<noteq> ClassInteractive, assigned now (set cands) b)"
  shows "precedes a b (sortCandidates now cands)"
proof -
  let ?zs = "sortCandidates now cands"
  let ?k = "\<lambda>c. c\<lparr>c_key := Some (assigned now (set cands) c)\<rparr>"
  have "?k a \<in> set ?zs" "?k b \<in> set ?zs"
    using ab unfolding set_sortCandidates permuteHints_assigned [OF dist] by auto
  then obtain i j where i: "i < length ?zs" "?zs ! i = ?k a" and j: "j < length ?zs" "?zs ! j = ?k b"
    by (metis in_set_conv_nth)
  have "i < j"
  proof (rule ccontr)
    assume "\<not> i < j"
    then have "map (admission_key now) ?zs ! j \<le> map (admission_key now) ?zs ! i"
      using i(1) by (intro sorted_nth_mono [OF sortCandidates_sorted]) simp_all
    then have "admission_key now (?zs ! j) \<le> admission_key now (?zs ! i)"
      using i(1) j(1) by (simp only: nth_map)
    moreover have "admission_key now (?zs ! i) = (c_class a \<noteq> ClassInteractive, assigned now (set cands) a)"
      "admission_key now (?zs ! j) = (c_class b \<noteq> ClassInteractive, assigned now (set cands) b)"
      using i(2) j(2) by simp_all
    ultimately show False using less by (simp only: leD not_less [symmetric] not_True_eq_False)
  qed
  with i j show ?thesis
    unfolding precedes_def by (intro exI [of _ i] exI [of _ j]) simp
qed

text \<open>
  interactive work first, then first come first served within a class.  In the admission order
  an interactive run stands before every run that is not interactive, whatever the hints; and when
  nobody expressed a preference, of two runs of the same class the one enqueued earlier stands first.
\<close>
theorem interactive_then_fifo:
  assumes dist: "distinct (map c_queue cands)" and ab: "a \<in> set cands" "b \<in> set cands"
    and order: "(c_class a = ClassInteractive \<and> c_class b \<noteq> ClassInteractive) \<or>
      ((\<forall>c\<in>set cands. c_hint c = 0) \<and> c_class a = c_class b \<and> c_enqueued a < c_enqueued b)"
  shows "precedes a b (sortCandidates now cands)"
proof (rule admission_precedes [OF dist ab])
  from order show "(c_class a \<noteq> ClassInteractive, assigned now (set cands) a) <
      (c_class b \<noteq> ClassInteractive, assigned now (set cands) b)"
  proof
    assume "c_class a = ClassInteractive \<and> c_class b \<noteq> ClassInteractive"
    then show ?thesis by (simp add: less_prod_def)
  next
    assume *: "(\<forall>c\<in>set cands. c_hint c = 0) \<and> c_class a = c_class b \<and> c_enqueued a < c_enqueued b"
    have "assigned now (set cands) c = naturalKey now c" if "c \<in> set cands" for c
      using that * by (intro assigned_no_hints [OF finite_set inj_natural [OF dist]]) simp_all
    with * ab natural_fifo [of a b now] show ?thesis by (simp add: less_prod_def less_order_key_def)
  qed
qed

definition sample_candidate :: "int \<Rightarrow> workload_class \<Rightarrow> time \<Rightarrow> candidate" where
  "sample_candidate i cls since = \<lparr>c_queue = i, c_run = ''r'', c_user = ''ann'', c_lane = ''anthropic'',
     c_substrate = ''claude'', c_class = cls, c_enqueued = since, c_hint = 0, c_key = None\<rparr>"

theorem interactive_then_fifo_witness:
  "precedes (sample_candidate 2 ClassBackground 100) (sample_candidate 1 ClassBackground 200)
     (sortCandidates 1000 [sample_candidate 1 ClassBackground 200, sample_candidate 2 ClassBackground 100])"
  by (rule interactive_then_fifo) (simp_all add: sample_candidate_def)

text \<open>
  C35: nothing starves.  When nobody expressed a preference, a run that is not a probe and has waited
  two hours and one second longer than another run that is not interactive stands before it in the
  admission order, whatever their classes.
\<close>
theorem aging_bounds_overtaking:
  assumes dist: "distinct (map c_queue cands)" and ab: "a \<in> set cands" "b \<in> set cands"
    and hints: "\<forall>c\<in>set cands. c_hint c = 0"
    and cls: "c_class a \<noteq> ClassProbe" "c_class b \<noteq> ClassInteractive"
    and wait: "c_enqueued a + 7201 * second \<le> c_enqueued b" "c_enqueued b \<le> now"
      "now - c_enqueued a \<le> int64_max"
  shows "precedes a b (sortCandidates now cands)"
proof (rule admission_precedes [OF dist ab])
  have "assigned now (set cands) c = naturalKey now c" if "c \<in> set cands" for c
    using that hints by (intro assigned_no_hints [OF finite_set inj_natural [OF dist]]) simp_all
  with ab cls(2) aged_before [OF cls(2,1) wait(2,3,1)]
  show "(c_class a \<noteq> ClassInteractive, assigned now (set cands) a) <
      (c_class b \<noteq> ClassInteractive, assigned now (set cands) b)"
    by (simp add: less_prod_def less_order_key_def)
qed

theorem aging_bounds_overtaking_witness:
  "precedes (sample_candidate 2 ClassBackground 0) (sample_candidate 1 ClassHumanBlocked (8000 * second))
     (sortCandidates (8000 * second)
        [sample_candidate 1 ClassHumanBlocked (8000 * second), sample_candidate 2 ClassBackground 0])"
  by (rule aging_bounds_overtaking) (simp_all add: sample_candidate_def second_def int64_max_def)

section \<open>The claim pass\<close>

text \<open>The state a pass claims from: after its two reconciles.\<close>

definition reconciled :: "sched_env \<Rightarrow> db \<Rightarrow> db" where
  "reconciled se s = snd (settleEndedRows se (snd (reconcileQueueRows (se_env se) s)))"

lemma reconciled_ok:
  assumes "good s" "queue_ok s" "receipts_ok se"
  shows "good (reconciled se s) \<and> queue_ok (reconciled se s)"
proof -
  let ?t = "snd (reconcileQueueRows (se_env se) s)"
  have "sched_keeps s (reconciled se s)"
    unfolding reconciled_def
    by (rule sched.frame_trans [OF reconcileQueueRows_keeps settleEndedRows_keeps [OF assms(3)]])
  with assms show ?thesis by (auto simp: sched_keeps_def evolves_def)
qed

lemma claimPass_cases:
  assumes "claimPass se s = ((e, rs), u)" "good s"
  obtains (idle) "rs = []" "u = reconciled se s"
  | (loop) bgStop paused where
      "read_float (env_settings (se_env se)) keyBgAdmitStop = Inr bgStop"
      "paused_map se (sortCandidates (env_now (se_env se)) (candidates (reconciled se s))) = Inr paused"
      "claim_loop se bgStop paused 0 (sortCandidates (env_now (se_env se)) (candidates (reconciled se s)))
         (activeSlots (reconciled se s)) (reconciled se s) = ((e, rs), u)"
proof -
  obtain t where t: "reconcileQueueRows (se_env se) s = (None, t)"
    using reconcileQueueRows_complete [OF assms(2)] by blast
  obtain e2 v where v: "settleEndedRows se t = (e2, v)" by fastforce
  have r: "reconciled se s = v" by (simp add: reconciled_def t v)
  have "(rs = [] \<and> u = v) \<or> (\<exists>bgStop paused.
      read_float (env_settings (se_env se)) keyBgAdmitStop = Inr bgStop \<and>
      paused_map se (sortCandidates (env_now (se_env se)) (candidates v)) = Inr paused \<and>
      claim_loop se bgStop paused 0 (sortCandidates (env_now (se_env se)) (candidates v))
        (activeSlots v) v = ((e, rs), u))"
    using assms(1) by (auto simp: claimPass_def t v Let_def split: option.splits if_splits sum.splits)
  then show thesis
  proof (elim disjE exE conjE)
    assume "rs = []" "u = v"
    then show thesis by (intro idle) (simp_all add: r)
  next
    fix bgStop paused
    assume "read_float (env_settings (se_env se)) keyBgAdmitStop = Inr bgStop" "paused_map se (sortCandidates (env_now (se_env se)) (candidates v)) = Inr paused"
      "claim_loop se bgStop paused 0 (sortCandidates (env_now (se_env se)) (candidates v))
        (activeSlots v) v = ((e, rs), u)"
    then show thesis by (intro loop) (simp_all add: r)
  qed
qed

lemma sorted_candidates_home:
  assumes "queue_ok u" "c \<in> set (sortCandidates now (candidates u))"
  shows "cand_home u c"
  by (rule sortCandidates_home [OF _ assms(2)]) (rule candidates_home [OF assms(1)])

text \<open>
  C18: a claim pass respects every lane's cap.  After a pass no lane of any person has more claimed,
  running and draining runs than its cap, unless it had that many already when the pass began to
  claim.
\<close>
theorem pass_respects_caps:
  assumes good: "good s" "queue_ok s" and env: "sched_hook_ok (se_env se)" "receipts_ok se"
    and pass: "claimPass se s = ((e, rs), u)"
  shows "activeSlots u (user, lane) \<le>
    max (activeSlots (reconciled se s) (user, lane)) (laneCap user lane (reconciled se s))"
  using pass good(1)
proof (cases rule: claimPass_cases)
  case idle
  then show ?thesis by simp
next
  case (loop bgStop paused)
  have v: "good (reconciled se s)" "queue_ok (reconciled se s)"
    using reconciled_ok [OF good env(2)] by simp_all
  have "activeSlots u (user, lane) \<le> max (activeSlots (reconciled se s) (user, lane))
      (laneCap (fst (user, lane)) (snd (user, lane)) (reconciled se s))"
    by (rule claim_loop_caps [OF loop(3) v(1) env(1)]) (auto intro: sorted_candidates_home [OF v(2)])
  then show ?thesis by simp
qed

definition sample_se :: sched_env where
  "sample_se = \<lparr>se_env = sample_env, se_leaseTTL = 0, se_pause = Some (\<lambda>u. Inr (u = ''ann'')),
     se_pressure = None, se_budgets = None, se_gpu = None, se_local_lane = [], se_receipts = None,
     se_live = (\<lambda>n. True)\<rparr>"

lemma sample_se_ok: "sched_hook_ok (se_env sample_se)" "receipts_ok sample_se" "receipts_total sample_se"
  by (simp_all add: sample_se_def sample_sched_hook receipts_ok_def receipts_total_def)

definition sample_queued :: db where
  "sample_queued = sample_db [StateQueued]"

lemma sample_queued_ok: "good sample_queued" "queue_ok sample_queued"
  by (simp_all add: sample_queued_def sample_queue_ok)

theorem pass_respects_caps_witness:
  "activeSlots (snd (claimPass sample_se sample_queued)) (''ann'', ''anthropic'') \<le>
     max (activeSlots (reconciled sample_se sample_queued) (''ann'', ''anthropic''))
       (laneCap ''ann'' ''anthropic'' (reconciled sample_se sample_queued))"
  using pass_respects_caps [OF sample_queued_ok sample_se_ok(1,2)]
  by (metis prod.exhaust snd_conv)

text \<open>
  a claim pass serves the queue in admission order.  The runs it dispatches are, in order, a
  subsequence of the ordered candidates: a run is only passed over because a gate held it back or
  somebody else took it, never reordered.
\<close>
theorem pass_in_admission_order:
  assumes good: "good s" "queue_ok s" and env: "sched_hook_ok (se_env se)" "receipts_ok se"
    and pass: "claimPass se s = ((e, rs), u)"
  shows "subseq (map run_id rs)
    (map c_run (sortCandidates (env_now (se_env se)) (candidates (reconciled se s))))"
  using pass good(1)
proof (cases rule: claimPass_cases)
  case idle
  then show ?thesis by simp
next
  case (loop bgStop paused)
  have "good (reconciled se s)" using reconciled_ok [OF good env(2)] by simp
  then show ?thesis by (rule claim_loop_subseq [OF loop(3) _ env(1)])
qed

theorem pass_in_admission_order_witness:
  "subseq (map run_id (snd (fst (claimPass sample_se sample_queued))))
    (map c_run (sortCandidates 1000 (candidates (reconciled sample_se sample_queued))))"
proof -
  obtain e rs u where "claimPass sample_se sample_queued = ((e, rs), u)" by (metis prod.exhaust)
  from pass_in_admission_order [OF sample_queued_ok sample_se_ok(1,2) this] this show ?thesis
    by (simp add: sample_se_def sample_env_def)
qed

text \<open>
  a pass first repairs the queue.  Its two reconciles always succeed (given a receipt
  materialiser that does), change no run, and leave no queued run without an active row and no active
  row on an ended run, from any reachable state, whatever crash or lost write came before.
\<close>
theorem reconciles_repair_queue:
  assumes good: "good s" "queue_ok s" and total: "receipts_total se"
  shows "fst (settleEndedRows se (snd (reconcileQueueRows (se_env se) s))) = None \<and>
    t_runs (reconciled se s) = t_runs s \<and>
    unqueued_runs (reconciled se s) = [] \<and> ended_rows (reconciled se s) = []"
proof -
  obtain t where t: "reconcileQueueRows (se_env se) s = (None, t)" "t_runs t = t_runs s" "unqueued_runs t = []"
    using reconcileQueueRows_complete [OF good(1)] by blast
  have "queue_ok t" and goodt: "good t" using reconcileQueueRows_keeps [of s "se_env se"] good t(1)
    by (simp_all add: sched_keeps_def evolves_def)
  then obtain v where v: "settleEndedRows se t = (None, v)" "t_runs v = t_runs t" "ended_rows v = []"
      "\<forall>q\<in>set (t_queue t). q \<notin> fst ` set (ended_rows t) \<longrightarrow> q \<in> set (t_queue v)"
    using settleEndedRows_complete [OF _ total] goodt by (auto simp: good_def)
  have "list_ex (\<lambda>q. q_run q = run_id r \<and> active_row q) (t_queue v)"
    if r: "r \<in> set (t_runs t)" "run_state r = StateQueued" for r
  proof -
    obtain q where q: "q \<in> set (t_queue t)" "q_run q = run_id r" "active_row q"
      using t(3) r by (auto simp: unqueued_runs_def filter_empty_conv list_ex_iff)
    have "find_run (q_run q) t = Some r" using find_run_mem [OF goodt r(1)] q(2) by simp
    then have "q \<notin> fst ` set (ended_rows t)"
      using r(2) by (auto simp: ended_rows_def ended_state_def split: if_splits option.splits)
    with v(4) q show ?thesis by (auto simp: list_ex_iff)
  qed
  then have "unqueued_runs v = []"
    using v(2) by (auto simp: unqueued_runs_def filter_empty_conv)
  moreover have "reconciled se s = v" by (simp add: reconciled_def t(1) v(1))
  ultimately show ?thesis using t v by simp
qed

theorem reconciles_repair_queue_witness:
  "unqueued_runs sample_queued \<noteq> [] \<and> unqueued_runs (reconciled sample_se sample_queued) = []"
proof -
  have "unqueued_runs sample_queued \<noteq> []"
    by (simp add: sample_queued_def unqueued_runs_def tx_eval json_eval append_eval run_eval sample_eval
        cong: tx_bind_weak)
  with reconciles_repair_queue [OF sample_queued_ok sample_se_ok(3)] show ?thesis by simp
qed

text \<open>Only admitted candidates are dispatched.\<close>

lemma claim_loop_admitted:
  assumes "claim_loop se bgStop paused n cs active s = ((e, rs), u)" "good s" "sched_hook_ok (se_env se)"
    and "r \<in> set rs"
  shows "\<exists>c\<in>set cs. c_run c = run_id r \<and> (\<exists>act v. admit se bgStop paused act c v = Inr True)"
  using assms
proof (induction cs arbitrary: n active s rs)
  case Nil
  then show ?case by simp
next
  case (Cons c cs)
  have keep: "good t" if "claimOne se c s = (res, t)" for res t
    using claimOne_keeps [OF Cons.prems(3), of s c] that Cons.prems(2)
    by (simp add: sched_keeps_def evolves_def)
  from Cons.prems(1) show ?case
  proof (cases rule: claim_loop_cases)
    case skip
    with Cons show ?thesis by fastforce
  next
    case (lost t)
    with Cons.IH [OF lost(3) keep [OF lost(2)] Cons.prems(3,4)] show ?thesis by auto
  next
    case (won r' t rs')
    have "run_id r' = c_run c" using claimOne_slots [OF won(2) Cons.prems(2)] by auto
    with won Cons.IH [OF won(4) keep [OF won(2)] Cons.prems(3)] Cons.prems(4) show ?thesis by auto
  qed (use Cons.prems in simp_all)
qed

lemma pausedOwners_sound:
  "pausedOwners paused cs out = Inr out' \<Longrightarrow> (\<And>u p. map_of out u = Some p \<Longrightarrow> paused u = Inr p) \<Longrightarrow>
   (\<forall>u p. map_of out' u = Some p \<longrightarrow> paused u = Inr p) \<and>
   (\<forall>u. map_of out u \<noteq> None \<longrightarrow> map_of out' u \<noteq> None) \<and>
   (\<forall>c\<in>set cs. c_class c = ClassBackground \<longrightarrow> map_of out' (c_user c) \<noteq> None)"
proof (induction paused cs out rule: pausedOwners.induct)
  case (1 paused out)
  then show ?case by simp
next
  case (2 paused c cs out)
  show ?case
  proof (cases "c_class c \<noteq> ClassBackground \<or> map_of out (c_user c) \<noteq> None")
    case True
    with 2 show ?thesis by auto
  next
    case False
    then obtain p where p: "paused (c_user c) = Inr p"
      "pausedOwners paused cs ((c_user c, p) # out) = Inr out'"
      using 2(3) by (auto split: sum.splits)
    have known: "paused u = Inr q" if "map_of ((c_user c, p) # out) u = Some q" for u q
      using that p(1) 2(4) by (auto split: if_splits)
    from 2(2) [OF False p known] show ?thesis by auto
  qed
qed

lemma candidates_run_unique:
  assumes "queue_ok s" "a \<in> set (candidates s)" "b \<in> set (candidates s)" "c_run a = c_run b"
  shows "a = b"
proof -
  obtain q r where q: "q \<in> set (t_queue s)" "q_status q = QueueQueued" "find_run (q_run q) s = Some r"
    "a = candidate_of q r"
    using candidates_props [OF assms(1,2)] by metis
  obtain q' r' where q': "q' \<in> set (t_queue s)" "q_status q' = QueueQueued" "find_run (q_run q') s = Some r'"
    "b = candidate_of q' r'"
    using candidates_props [OF assms(1,3)] by metis
  have same: "q_run q' = q_run q" using assms(4) q(4) q'(4) by (simp add: candidate_of_def)
  have "tbl_count (\<lambda>x. q_run x = q_run q \<and> active_row x) (t_queue s) \<le> 1"
    using assms(1) by (simp add: queue_ok_def)
  then have "length (filter (\<lambda>x. q_run x = q_run q \<and> active_row x) (t_queue s)) \<le> 1"
    by (simp add: tbl_count_def)
  moreover have "q \<in> set (filter (\<lambda>x. q_run x = q_run q \<and> active_row x) (t_queue s))"
    "q' \<in> set (filter (\<lambda>x. q_run x = q_run q \<and> active_row x) (t_queue s))"
    using q q' same by (simp_all add: active_row_def)
  ultimately have "q = q'"
    by (cases "filter (\<lambda>x. q_run x = q_run q \<and> active_row x) (t_queue s)") (auto simp del: set_filter)
  with q q' show ?thesis by simp
qed

text \<open>A background candidate is dispatched only through the pause gate and the pressure gate.\<close>

lemma dispatched_background:
  assumes good: "good s" "queue_ok s" and env: "sched_hook_ok (se_env se)" "receipts_ok se"
    and pass: "claimPass se s = ((e, rs), u)"
    and c: "c \<in> set (candidates (reconciled se s))" "c_class c = ClassBackground" "c_run c \<in> run_id ` set rs"
  shows "(\<forall>paused. se_pause se = Some paused \<longrightarrow> paused (c_user c) = Inr False) \<and>
    (\<exists>bgStop. read_float (env_settings (se_env se)) keyBgAdmitStop = Inr bgStop \<and>
      backgroundAdmits se c bgStop = Inr True)"
proof -
  let ?v = "reconciled se s"
  let ?cs = "sortCandidates (env_now (se_env se)) (candidates ?v)"
  obtain r where r: "r \<in> set rs" "c_run c = run_id r" using c(3) by auto
  from pass good(1) show ?thesis
  proof (cases rule: claimPass_cases)
    case idle
    with r show ?thesis by simp
  next
    case (loop bgStop owners)
    have v: "good ?v" "queue_ok ?v" using reconciled_ok [OF good env(2)] by simp_all
    from claim_loop_admitted [OF loop(3) v(1) env(1) r(1)] obtain d act w
      where d: "d \<in> set ?cs" "c_run d = run_id r" "admit se bgStop owners act d w = Inr True" by blast
    then obtain i where i: "i < length (candidates ?v)"
      "d = (candidates ?v ! i)\<lparr>c_key := Some (permuted_key (env_now (se_env se)) (candidates ?v) i)\<rparr>"
      unfolding set_sortCandidates permuteHints_def by auto
    have "candidates ?v ! i = c"
      using candidates_run_unique [OF v(2), of "candidates ?v ! i" c] i d(2) c(1) r(2) by simp
    then have dc: "c_class d = ClassBackground" "c_user d = c_user c" "c_lane d = c_lane c"
      using c(2) i(2) by simp_all
    then have "map_of owners (c_user d) \<noteq> Some True" "backgroundAdmits se d bgStop = Inr True"
      using d(3) by (auto simp: admit_def split: if_splits sum.splits bool.splits)
    moreover have "se_pause se = Some paused \<Longrightarrow> \<exists>p. map_of owners (c_user d) = Some p \<and> paused (c_user c) = Inr p"
      for paused
      using pausedOwners_sound [of paused ?cs "[]" owners] loop(2) d(1) dc
      by (fastforce simp: paused_map_def)
    moreover have "backgroundAdmits se d bgStop = backgroundAdmits se c bgStop"
      unfolding backgroundAdmits_def dc ..
    ultimately show ?thesis using loop(1) dc by auto
  qed
qed

text \<open>
  a paused person's background work does not start.  While the pause gate reports an owner as
  paused, a claim pass dispatches none of that owner's background candidates, even with free slots.
\<close>
theorem paused_background_not_dispatched:
  assumes good: "good s" "queue_ok s" and env: "sched_hook_ok (se_env se)" "receipts_ok se"
    and pass: "claimPass se s = ((e, rs), u)" and gate: "se_pause se = Some paused"
    and c: "c \<in> set (candidates (reconciled se s))" "c_class c = ClassBackground"
    and held: "paused (c_user c) = Inr True"
  shows "c_run c \<notin> run_id ` set rs"
  using dispatched_background [OF good env pass c] gate held by auto

definition sample_background :: db where
  "sample_background = snd (write_tx (EnqueueTx sample_env ''r'' ClassBackground) (sample_db []))"

lemma sample_background_ok: "good sample_background" "queue_ok sample_background"
proof -
  have "\<exists>x. EnqueueTx sample_env ''r'' ClassBackground (sample_db []) = Inr (x, sample_background)"
    unfolding sample_background_def
    by (rule write_committed)
       (simp add: queue_eval ActorPlatform_def tx_eval json_eval append_eval run_eval sample_eval cong: tx_bind_weak)
  then have "reachable (\<lambda>x. x) sample_background"
    using reachable_step [OF sample_reachable platform_step.enqueue [OF sample_env_frame]] by blast
  from reachable_ok [OF this] show "good sample_background" "queue_ok sample_background"
    by (simp_all add: platform_ok_def)
qed

theorem paused_background_not_dispatched_witness:
  "''r'' \<notin> run_id ` set (snd (fst (claimPass sample_se sample_background)))"
proof -
  have "\<exists>c\<in>set (candidates (reconciled sample_se sample_background)).
      c_class c = ClassBackground \<and> c_user c = ''ann'' \<and> c_run c = ''r''"
    by (simp add: sample_background_def sample_se_def reconciled_def settleEndedRows_def reconcileQueueRows_def
        unqueued_runs_def ended_rows_def candidates_def candidate_of_def workload_of_name_def ended_state_def
        queue_eval ActorPlatform_def tx_eval json_eval append_eval run_eval sample_eval cong: tx_bind_weak)
  then obtain c where c: "c \<in> set (candidates (reconciled sample_se sample_background))"
    "c_class c = ClassBackground" "c_user c = ''ann''" "c_run c = ''r''" by blast
  obtain e rs u where "claimPass sample_se sample_background = ((e, rs), u)" by (metis prod.exhaust)
  from paused_background_not_dispatched [OF sample_background_ok sample_se_ok(1,2) this _ c(1,2)] c this
  show ?thesis by (simp add: sample_se_def)
qed

text \<open>
  a queue row is claimed once.  When a claim wins a candidate, the run is claimed under a lease
  with the given deadline; the same candidate, claimed again by a second pass from the state the first
  one left, is lost without any write.
\<close>
theorem claimed_once:
  assumes good: "good s" and claim: "claimTx env deadline c s = Inr (Some r, t)"
  shows "(\<exists>r'. find_run (c_run c) t = Some r' \<and> run_state r' = StateClaimed \<and>
      run_lease_holder r' = claimHolder \<and> run_lease_deadline r' = deadline \<and>
      run_generation r' = run_generation r) \<and>
    claimTx env' deadline' c t = Inr (None, t)"
  using claim good
proof (rule claimTx_Inr)
  fix cur payload q
  assume *: "find_run (c_run c) s = Some cur" "run_state cur = StateQueued" "run_id cur = c_run c"
    "r = transition_row env cur StateClaimed"
    "q = update_queue (\<lambda>x. q_id x = c_queue c \<and> q_status x = QueueQueued)
       (\<lambda>x. x\<lparr>q_status := QueueClaimed, q_claimed_by := claimHolder, q_lease_deadline := deadline\<rparr>) s"
    "t = update_runs (\<lambda>r. run_id r = c_run c) (leased env deadline)
       (transition_db env cur StateClaimed payload q)"
  have q: "find_run rid q = find_run rid s" for rid by (rule find_run_cong) (simp add: *(5))
  have cur: "find_run (c_run c) q = Some cur" using *(1) q by simp
  have "run_id (transition_row env cur StateClaimed) = c_run c" using *(3) by (simp add: transition_row_def)
  then have run: "find_run (c_run c) t = Some (leased env deadline r)"
    using transition_db_find(1) [OF cur, of env StateClaimed payload] *(4,6) by (simp add: find_run_leased)
  let ?p = "\<lambda>x. q_id x = c_queue c \<and> q_status x = QueueQueued"
  have none: "\<forall>x\<in>set (t_queue t). \<not> ?p x"
    by (auto simp: *(5,6) transition_db_def set_tbl_update)
  then have "tbl_count ?p (t_queue t) = 0" unfolding tbl_count_0 by blast
  moreover have "update_queue ?p f t = t" for f
    using none by (simp add: update_queue_def tbl_update_none)
  ultimately have "claimTx env' deadline' c t = Inr (None, t)"
    by (simp add: claimTx_def tx_eval)
  with run *(4) show ?thesis by (auto simp: leased_def transition_row_def)
qed

theorem claimed_once_witness:
  "\<exists>c r t. claimTx sample_env 4600 c sample_background = Inr (Some r, t) \<and>
     claimTx sample_env 4600 c t = Inr (None, t)"
proof -
  let ?c = "(sample_candidate 1 ClassBackground 1000)\<lparr>c_queue := 1\<rparr>"
  have "\<exists>r t. claimTx sample_env 4600 ?c sample_background = Inr (Some r, t)"
    by (simp add: sample_background_def sample_candidate_def claimTx_def SetLeaseTx_def update_queue_def
        queue_eval ActorPlatform_def tx_eval json_eval append_eval run_eval sample_eval cong: tx_bind_weak)
  then show ?thesis using claimed_once [OF sample_background_ok(1)] by blast
qed

section \<open>Limits\<close>

text \<open>
  an authentication or payment status stops the lane.  A signal with status 401, 402 or 403 is
  never retried in place and never kills the run at a gate; it freezes the lane exactly unless the
  adapter documented it as depletion or model drift and its body carries no revocation language, and
  then it parks the run or surfaces the drift.
\<close>
theorem auth_status_freezes:
  assumes "ls_status sig \<in> {401, 402, 403}"
  shows "(Classify sig cfg = freeze \<longleftrightarrow>
      \<not> (ls_documented sig \<in> {DocumentedDepletion, DocumentedModelDrift} \<and>
         \<not> looksLikeDocumentedRevocation (ls_body sig))) \<and>
    la_kind (Classify sig cfg) \<in> {ActionLaneFreeze, ActionParkQuota, ActionParkProbe, ActionContinue} \<and>
    (la_kind (Classify sig cfg) = ActionContinue \<longrightarrow> la_surface (Classify sig cfg) = SurfaceModelDrift)"
proof -
  have auth: "auth_status (ls_status sig)" using assms by (auto simp: auth_status_def)
  show ?thesis
  proof (cases "exemptsAuthStatusFreeze sig")
    case False
    then have "Classify sig cfg = freeze" using auth by (simp add: Classify_def)
    with False auth show ?thesis by (auto simp: exemptsAuthStatusFreeze_def split: if_splits)
  next
    case True
    then have doc: "ls_documented sig \<in> {DocumentedDepletion, DocumentedModelDrift}"
      "\<not> looksLikeDocumentedRevocation (ls_body sig)"
      by (auto simp: exemptsAuthStatusFreeze_def split: if_splits)
    obtain a where a: "classifyDocumentedSignal sig cfg = Some a" "a \<noteq> freeze"
      "la_kind a \<in> {ActionParkQuota, ActionParkProbe, ActionContinue}"
      "la_kind a = ActionContinue \<longrightarrow> la_surface a = SurfaceModelDrift"
      using doc(1) by (cases "is_zero_time (ls_reset sig)")
        (auto simp: classifyDocumentedSignal_def action_defs)
    moreover have "Classify sig cfg = a" using True a(1) by (simp add: Classify_def)
    ultimately show ?thesis using doc by auto
  qed
qed

definition sample_signal :: limit_signal where
  "sample_signal = empty_signal\<lparr>ls_lane := ''anthropic'', ls_status := 403\<rparr>"

definition sample_limits :: limit_config where
  "sample_limits = \<lparr>lc_retry_cap = 3, lc_retry_ratio = 1 / 2, lc_probe_max = 600\<rparr>"

theorem auth_status_freezes_witness: "Classify sample_signal sample_limits = freeze"
  using auth_status_freezes [of sample_signal sample_limits]
  by (simp add: sample_signal_def empty_signal_def documented_defs)

text \<open>
  every verdict is backed by evidence.  A retry in place needs a transient signal (documented, or
  one of the two retryable coded errors of its lane, or an overload or bare rate-limit status) and
  carries the configured cap and ratio; a park until reset carries the reset time the signal itself
  named, never a missing one; a probing park carries the configured interval; and a run dies at a gate
  only on an exhausted engine.
\<close>
theorem verdicts_need_evidence:
  shows "(la_kind (Classify sig cfg) = ActionRetryInPlace \<longrightarrow>
      \<not> auth_status (ls_status sig) \<and> \<not> ls_engine_exhausted sig \<and>
      la_retry_cap (Classify sig cfg) = lc_retry_cap cfg \<and> la_retry_ratio (Classify sig cfg) = lc_retry_ratio cfg \<and>
      (ls_documented sig = DocumentedTransient \<or>
       (ls_lane sig = laneZAI \<and> ls_code sig \<in> {zaiRateLimit, zaiOverloaded}) \<or>
       (ls_lane sig = laneAnthropic \<and> ls_status sig \<in> {429, 529}))) \<and>
    (la_kind (Classify sig cfg) = ActionParkQuota \<longrightarrow>
      la_resume (Classify sig cfg) = ls_reset sig \<and> \<not> is_zero_time (ls_reset sig)) \<and>
    (la_kind (Classify sig cfg) = ActionParkProbe \<longrightarrow> la_probe_max (Classify sig cfg) = lc_probe_max cfg) \<and>
    (la_kind (Classify sig cfg) = ActionDiedAtGate \<longrightarrow> ls_engine_exhausted sig \<and> \<not> auth_status (ls_status sig))"
proof -
  let ?ok = "\<lambda>a. (la_kind a = ActionRetryInPlace \<longrightarrow>
      la_retry_cap a = lc_retry_cap cfg \<and> la_retry_ratio a = lc_retry_ratio cfg) \<and>
    (la_kind a = ActionParkQuota \<longrightarrow> la_resume a = ls_reset sig \<and> \<not> is_zero_time (ls_reset sig)) \<and>
    (la_kind a = ActionParkProbe \<longrightarrow> la_probe_max a = lc_probe_max cfg) \<and> la_kind a \<noteq> ActionDiedAtGate"
  have doc: "?ok a \<and> (la_kind a = ActionRetryInPlace \<longrightarrow> ls_documented sig = DocumentedTransient)"
    if "classifyDocumentedSignal sig cfg = Some a" for a
    using that by (auto simp: classifyDocumentedSignal_def action_defs split: if_splits)
  have coded: "?ok a \<and> (la_kind a = ActionRetryInPlace \<longrightarrow> ls_code sig \<in> {zaiRateLimit, zaiOverloaded})"
    if "classifyZAICode sig cfg = Some a" for a
    using that by (auto simp: classifyZAICode_def action_defs split: if_splits)
  have tail: "?ok (classifyGeneral sig cfg) \<and> (la_kind (classifyGeneral sig cfg) = ActionRetryInPlace \<longrightarrow>
      ls_lane sig = laneAnthropic \<and> ls_status sig \<in> {429, 529})"
    by (auto simp: classifyGeneral_def isTransient_def action_defs)
  have exempt: "la_kind a \<noteq> ActionRetryInPlace"
    if "exemptsAuthStatusFreeze sig" "classifyDocumentedSignal sig cfg = Some a" for a
    using that by (auto simp: exemptsAuthStatusFreeze_def classifyDocumentedSignal_def action_defs split: if_splits)
  let ?coded = "if ls_lane sig = laneZAI \<and> ls_code sig \<noteq> [] then classifyZAICode sig cfg else None"
  show ?thesis
  proof (cases "if exemptsAuthStatusFreeze sig then classifyDocumentedSignal sig cfg else None")
    case (Some a)
    then have "exemptsAuthStatusFreeze sig" "classifyDocumentedSignal sig cfg = Some a"
      by (simp_all split: if_splits)
    moreover have "Classify sig cfg = a" by (simp only: Classify_def Some option.case)
    ultimately show ?thesis using doc exempt by simp
  next
    case None
    have rest: "Classify sig cfg = (if auth_status (ls_status sig) then freeze
      else if ls_engine_exhausted sig then act ClassEngineCeiling ActionDiedAtGate SurfaceNone
      else case ?coded of Some a \<Rightarrow> a
        | None \<Rightarrow> (case classifyDocumentedSignal sig cfg of Some a \<Rightarrow> a | None \<Rightarrow> classifyGeneral sig cfg))"
      by (simp only: Classify_def None option.case)
    show ?thesis
    proof (cases "auth_status (ls_status sig) \<or> ls_engine_exhausted sig")
      case True
      then show ?thesis by (auto simp: rest act_def)
    next
      case live: False
      show ?thesis
      proof (cases ?coded)
        case (Some a)
        then have "classifyZAICode sig cfg = Some a" "ls_lane sig = laneZAI" by (simp_all split: if_splits)
        moreover have "Classify sig cfg = a" using live by (simp only: rest Some option.case de_Morgan_disj if_False)
        ultimately show ?thesis using coded live by auto
      next
        case no_code: None
        then have c: "Classify sig cfg = (case classifyDocumentedSignal sig cfg of
            Some a \<Rightarrow> a | None \<Rightarrow> classifyGeneral sig cfg)"
          using live by (simp only: rest no_code option.case de_Morgan_disj if_False)
        show ?thesis
          by (cases "classifyDocumentedSignal sig cfg") (use c doc tail live in auto)
      qed
    qed
  qed
qed

theorem verdicts_need_evidence_witness:
  "la_kind (Classify (sample_signal\<lparr>ls_status := 429, ls_reset := 5000\<rparr>) sample_limits) = ActionParkQuota \<and>
   la_resume (Classify (sample_signal\<lparr>ls_status := 429, ls_reset := 5000\<rparr>) sample_limits) = 5000"
proof -
  have "la_kind (Classify (sample_signal\<lparr>ls_status := 429, ls_reset := 5000\<rparr>) sample_limits) = ActionParkQuota"
    by (simp add: sample_signal_def empty_signal_def Classify_def exemptsAuthStatusFreeze_def auth_status_def
        classifyDocumentedSignal_def documented_defs laneZAI_def classifyGeneral_def isTransient_def
        laneAnthropic_def isDepletion_def is_zero_time_def)
  with verdicts_need_evidence [of "sample_signal\<lparr>ls_status := 429, ls_reset := 5000\<rparr>" sample_limits]
  show ?thesis by simp
qed

end
