(* ===== verification/Recovery_Properties.thy ===== *)
theory Recovery_Properties
  imports Sample_Data
begin

text \<open>
  The properties of the recovery ladder, each with a witness at a concrete input.
\<close>

definition sample_le :: ladder_env where
  "sample_le = \<lparr>le_env = sample_env, le_now = 9000, le_card_now = 9000, le_format = (\<lambda>t. ''t''),
     le_units = NoUnits, le_harvest = NoHarvest, le_nofork = None,
     le_journal = (\<lambda>n. \<lparr>je_settings = sample_cfg, je_now = 9000, je_sha = (\<lambda>x. x)\<rparr>)\<rparr>"

definition sample_status :: unit_status where
  "sample_status = \<lparr>us_state = UnitCorpseFailed, us_exit = 1, us_result = []\<rparr>"

definition sample_pc :: pass_config where
  "sample_pc = \<lparr>pc_dead = 3600, pc_stale = 3600, pc_max = 3, pc_grace = 0\<rparr>"

lemma sample_le_hook: "hook_ok (le_env sample_le)"
  by (simp add: sample_le_def sample_env_def)

definition sample_crashed :: db where
  "sample_crashed = sample_db [StateQueued, StateClaimed, StateRunning, StateCrashed]"

lemmas recovery_eval = crashAndBoundTx_def crash_reason_def boundTx_def forkTx_def fork_row_def fork_id_def fork_dispatch_def
  fork_detail_def BumpGenerationTx_def SuccessorByDispatchTx_def SuccessorOfTx_def LastCheckpointTx_def
  LastCheckpoint_def ladder_options_def ActorPlatform_def has_run_def json_int_def opt_int_def
  unitStateString.simps sample_le_def sample_status_def

lemma crash_parts:
  assumes good: "good s" and hook: "hook_ok (le_env le)"
    and tx: "crashAndBoundTx le r d sf mx status s = Inr (b, t)"
  obtains r0 crashed u where "find_run (run_id r) s = Some r0" "CanTransition (run_state r0) StateCrashed"
    "boundTx le crashed d sf mx u = Inr (b, t)" "good u" "find_run (run_id r) u = Some crashed"
    "run_id crashed = run_id r" "run_state crashed = StateCrashed" "run_attempts crashed = run_attempts r0"
    "run_generation crashed = run_generation r0"
proof -
  from tx obtain crashed u opts where
    tr: "TransitionTx (le_env le) (run_id r) StateCrashed opts s = Inr (crashed, u)"
    and bound: "boundTx le crashed d sf mx u = Inr (b, t)"
    unfolding crashAndBoundTx_def tx_bind_Inr by blast
  have st: "good u" "run_state crashed = StateCrashed" "run_id crashed = run_id r"
    "find_run (run_id r) u = Some crashed"
    using TransitionTx_state [OF good hook tr] by (auto simp: IsTerminal_iff)
  from tr show thesis
  proof (rule TransitionTx_Inr)
    fix cur payload
    assume "find_run (run_id r) s = Some cur" "CanTransition (run_state cur) StateCrashed"
      "crashed = transition_row (le_env le) cur StateCrashed"
    with st bound show thesis
      by (intro that [of cur crashed u]) (simp_all add: transition_row_def next_generation_def generationBumps_def)
  qed
qed

lemma fork_supersedes:
  assumes "good u" "find_run (run_id r) u = Some r" "run_state r = StateCrashed" "forkTx le r u = Inr (x, t)"
  shows "superseded r t"
  using assms(4,2,1)
proof (cases rule: forkTx_Inr)
  case (dispatched c)
  with assms(2,3) show ?thesis by (auto simp: superseded_def)
next
  case (forked c)
  with assms(3) find_run_Some [OF forked(2)] show ?thesis by (auto simp: superseded_def)
qed

text \<open>
  C5: no crash without its decision.  When the ladder declares a run crashed, the stored run could go to
  crashed, and the same transaction commits exactly one of three outcomes.  A run whose class may not be
  forked, or whose interruption is past the staleness bound, is finalized; else a run whose stored attempts
  are used up (one more would exceed the maximum) is tombstoned; both with an open card for a human.  In
  every other case it stays crashed with a successor under the dispatch of its next generation.
\<close>
theorem crash_commits_with_decision:
  assumes good: "good s" and hook: "hook_ok (le_env le)"
    and tx: "crashAndBoundTx le r d sf mx status s = Inr (b, t)"
  shows "\<exists>r0. find_run (run_id r) s = Some r0 \<and> CanTransition (run_state r0) StateCrashed \<and>
    (if (\<exists>f. le_nofork le = Some f \<and> f (run_id r)) \<or> d > sf
     then b = BoundFinalized \<and> ended_with_card (run_id r) StateFinalized t
     else if wrap64 (run_attempts r0 + 1) > mx
     then b = BoundTombstoned \<and> ended_with_card (run_id r) StateTombstoned t
     else b = BoundForked \<and> superseded r0 t)"
  using good hook tx
proof (rule crash_parts)
  fix r0 crashed u
  assume c: "find_run (run_id r) s = Some r0" "CanTransition (run_state r0) StateCrashed"
    "boundTx le crashed d sf mx u = Inr (b, t)" "good u" "find_run (run_id r) u = Some crashed"
    "run_id crashed = run_id r" "run_state crashed = StateCrashed" "run_attempts crashed = run_attempts r0"
    "run_generation crashed = run_generation r0"
  have id: "run_id r0 = run_id r" using find_run_Some [OF c(1)] by simp
  have "superseded r0 t" if "forkTx le crashed u = Inr (x, t)" for x
    using fork_supersedes [OF c(4) _ c(7) that] c(5,6,9) id by (simp add: superseded_def fork_dispatch_def)
  then show ?thesis
    using c(1,2) c(3)[unfolded boundTx_def] bound_terminal [OF c(4) hook, of crashed] c(6,8)
    by (auto simp: tx_bind_Inr tx_return_Inr split: if_splits option.splits)
qed

lemma sample_dec [simp]: "dec_int 1 = ''1''" "dec_int 0 = ''0''"
  by code_simp+

lemma sample_first_attempt: "map_option run_attempts (find_run ''r'' sample_running) = Some 0"
  by (simp add: sample_running_def tx_eval json_eval append_eval run_eval sample_eval cong: tx_bind_weak)

theorem crash_commits_with_decision_witness:
  "\<exists>r b t r0. crashAndBoundTx sample_le r 100 3600 3 sample_status sample_running = Inr (b, t) \<and>
     find_run ''r'' sample_running = Some r0 \<and> b = BoundForked \<and> superseded r0 t"
proof -
  obtain r where r: "find_run ''r'' sample_running = Some r" "run_attempts r = 0"
    using sample_first_attempt by auto
  have first: "wrap64 (run_attempts r + 1) \<le> 3" by (simp add: r(2) wrap64_def)
  have id: "run_id r = ''r''" using find_run_Some [OF r(1)] by simp
  have "\<exists>b t. crashAndBoundTx sample_le r 100 3600 3 sample_status sample_running = Inr (b, t)"
    using id
    by (simp add: recovery_eval sample_running_def tx_eval json_eval append_eval run_eval sample_eval cong: tx_bind_weak)
  then obtain b t where tx: "crashAndBoundTx sample_le r 100 3600 3 sample_status sample_running = Inr (b, t)"
    by blast
  have "good sample_running" by (simp add: sample_running_def sample_good)
  moreover have "le_nofork sample_le = None" by (simp add: sample_le_def)
  ultimately have "b = BoundForked \<and> superseded r t"
    using crash_commits_with_decision [OF _ sample_le_hook tx] id r(1) first by simp
  with tx r(1) show ?thesis by blast
qed

text \<open>
  C16: a fork fences the run it replaces, and is created once.  The first fork of an interruption
  creates one queued successor of the same owner and task, one attempt later and one generation
  later, and moves the interrupted run to that generation too: every append of its old worker is then
  refused.  Forking the same interruption again writes nothing, and a sweep of the superseded run writes
  nothing unless it finds the run's work finished (a terminal record in the harvest is written down before
  the successor is looked for).
\<close>
theorem fork_fences_and_is_single:
  assumes good: "good s" and run: "find_run (run_id r) s = Some r" and tx: "forkTx le r s = Inr (x, t)"
    and first: "\<forall>y\<in>set (t_runs s). run_dispatch y \<noteq> fork_dispatch r"
  shows "\<exists>c r'. find_run (fork_id r) t = Some c \<and> run_state c = StateQueued \<and>
      run_generation c = run_generation r + 1 \<and> run_attempts c = wrap64 (run_attempts r + 1) \<and>
      run_parent c = run_id r \<and> run_user c = run_user r \<and> run_task c = run_task r \<and>
      find_run (run_id r) t = Some r' \<and> run_generation r' = run_generation r + 1 \<and>
      run_state r' = run_state r \<and>
      (\<forall>cfg now a. ap_run a = run_id r \<and> ap_gen a \<le> run_generation r \<longrightarrow>
         (\<exists>e. Append cfg now a t = (Inl e, t))) \<and>
      forkTx le' r t = Inr ((), t) \<and> supersedeTx le' pc r d t = Inr (None, t) \<and>
      (\<forall>q recs. run_id q = run_id r \<and> le_harvest le' q (last_ckpt_seq (run_id q) t) = Inr recs \<and>
         \<not> list_ex hr_terminal recs \<longrightarrow> reconcileCrashed le' pc q rp t = ((None, rp), t))"
  using tx run good
proof (cases rule: forkTx_Inr)
  case (dispatched c)
  with first show ?thesis by blast
next
  case (forked c)
  have ok: "run_checks r" "run_generation r \<le> int64_max" "run_id r \<noteq> []"
    using good_run [OF good run] by (auto simp: run_checks_def)
  have gen: "wrap64 (run_generation r + 1) = run_generation r + 1"
    using forked(4,5) ok(1,2) wrap64_succ_checked [of "run_generation r"] by (simp add: run_checks_def)
  have c: "c \<in> set (t_runs t)" using find_run_Some [OF forked(2)] by simp
  obtain r' where r': "find_run (run_id r) t = Some r'" "run_generation r' = run_generation r + 1"
    "run_state r' = run_state r" using forked(11) gen by auto
  have fence: "\<exists>e. Append cfg now a t = (Inl e, t)"
    if "ap_run a = run_id r" "ap_gen a \<le> run_generation r" for cfg now a
    using that r' ok(3) by (cases "validate cfg a")
      (auto simp: Append_def AppendTx_def checkGeneration_def tx_eval)
  obtain c' where "tbl_find (\<lambda>x. run_dispatch x \<noteq> [] \<and> run_dispatch x = fork_dispatch r) (t_runs t) = Some c'"
    using c forked(7) fork_names_nonempty(2) [of r] by (cases "tbl_find (\<lambda>x. run_dispatch x \<noteq> [] \<and> run_dispatch x = fork_dispatch r) (t_runs t)")
      (auto simp: tbl_find_None simp del: fork_names_nonempty)
  then have again: "forkTx le' r t = Inr ((), t)"
    by (simp add: forkTx_def SuccessorByDispatchTx_def tx_eval)
  have sweep: "supersedeTx le' pc q d t = Inr (None, t)" if "run_id q = run_id r" for q d
    using c forked(6) ok(3) that by (intro supersedeTx_successor) simp_all
  have swept: "reconcileCrashed le' pc q rp t = ((None, rp), t)"
    if "run_id q = run_id r" "le_harvest le' q (last_ckpt_seq (run_id q) t) = Inr recs" "\<not> list_ex hr_terminal recs" for q recs
    using that(2,3) sweep [OF that(1)] by (simp add: reconcileCrashed_def write_tx_def)
  show ?thesis
    by (intro exI [of _ c] exI [of _ r'] conjI allI impI)
       (use forked gen r' fence again sweep swept in auto)
qed

theorem fork_fences_and_is_single_witness:
  "\<exists>r t. forkTx sample_le r sample_crashed = Inr ((), t) \<and> forkTx sample_le r t = Inr ((), t)"
proof -
  have "\<exists>r. find_run ''r'' sample_crashed = Some r \<and> run_id r = ''r'' \<and> (\<exists>t. forkTx sample_le r sample_crashed = Inr ((), t)) \<and>
      (\<forall>y\<in>set (t_runs sample_crashed). run_dispatch y \<noteq> fork_dispatch r)"
    by (simp add: recovery_eval sample_crashed_def tx_eval json_eval append_eval run_eval sample_eval cong: tx_bind_weak)
  then obtain r t where id: "find_run ''r'' sample_crashed = Some r" "run_id r = ''r''"
    and t: "forkTx sample_le r sample_crashed = Inr ((), t)"
    and first: "\<forall>y\<in>set (t_runs sample_crashed). run_dispatch y \<noteq> fork_dispatch r" by blast
  from id have r: "find_run (run_id r) sample_crashed = Some r" by simp
  have "good sample_crashed" by (simp add: sample_crashed_def sample_good)
  from fork_fences_and_is_single [OF this r t first] t show ?thesis by blast
qed

text \<open>
  the ladder does not kill the living.  A run whose unit is active, or whose unit is gone or
  unreadable while its lease still holds or its last event is recent, is never declared crashed by a
  sweep: unless its work is found finished, the sweep leaves every run as it is and writes at most one
  wedge notice for it.
\<close>
theorem sweep_spares_the_living:
  assumes good: "good s" and status: "le_units le r = Inr status"
    and harvest: "le_harvest le r (last_ckpt_seq (run_id r) s) = Inr recs" "\<not> list_ex hr_terminal recs"
    and alive: "us_state status = UnitActive \<or> (us_state status \<in> {UnitGone, UnitUnknown} \<and>
      (\<not> leaseDead (le_now le) (pc_grace pc) r \<or>
       time_sub (le_now le) (fst (lastRunEvent r s)) \<le> dur_add (pc_dead pc) (pc_grace pc)))"
    and res: "reconcileRun le pc r rp s = ((e, rp'), t)"
  shows "t_runs t = t_runs s \<and> (t_events t = t_events s \<or>
    (\<exists>ev. t_events t = t_events s @ [ev] \<and> ev_type ev = EventWedged \<and> ev_run ev = run_id r)) \<and>
    rp_forked rp' = rp_forked rp \<and> rp_tombstoned rp' = rp_tombstoned rp \<and> rp_finalized rp' = rp_finalized rp"
proof -
  obtain lastActivity lastType where last: "lastRunEvent r s = (lastActivity, lastType)" by fastforce
  define stalled where "stalled = time_sub (le_now le) lastActivity"
  define fresh where "fresh = (stalled \<le> dur_add (pc_dead pc) (pc_grace pc))"
  define beating where "beating = (\<not> is_zero_time (run_lease_deadline r) \<and> \<not> le_now le > run_lease_deadline r)"
  define verdict where "verdict = classify_run (us_state status) False fresh (leaseDead (le_now le) (pc_grace pc) r) beating"
  have verdict: "verdict \<in> {DoAlive, DoWedged, DoPending}"
    using alive last unfolding verdict_def fresh_def stalled_def by (auto simp: classify_run_def)
  have wedge: "t_runs u = t_runs s \<and> (t_events u = t_events s \<or>
      (\<exists>ev. t_events u = t_events s @ [ev] \<and> ev_type ev = EventWedged \<and> ev_run ev = run_id r))"
    if "flagWedged le r stalled s = (x, u)" for x u
  proof (cases "AppendTx (env_settings (le_env le)) (env_now (le_env le))
      (run_append (run_id r) (run_generation r) (run_user r) EventWedged (wedged_payload stalled)) s")
    case (Inl err)
    then show ?thesis using that by (simp add: flagWedged_def Append_def write_tx_def)
  next
    case (Inr y)
    obtain seq v where y: "y = (seq, v)" by (cases y)
    have "u = v" using that Inr y by (simp add: flagWedged_def Append_def write_tx_def)
    moreover have "t_runs v = t_runs s" "t_events v = t_events s @ [new_event seq (env_now (le_env le))
        (run_append (run_id r) (run_generation r) (run_user r) EventWedged (wedged_payload stalled))]"
      using Inr y by (simp_all add: AppendTx_Inr)
    ultimately show ?thesis by (simp add: new_event_def run_append_def)
  qed
  have step: "((e, rp'), t) = (case verdict of
      DoHarvest \<Rightarrow> (case write_tx (harvestTx le r recs status) s of
          (Inl e, t) \<Rightarrow> ((Some e, rp), t)
        | (Inr _, t) \<Rightarrow> ((None, rp\<lparr>rp_harvested := rp_harvested rp + 1\<rparr>), t))
    | DoAlive \<Rightarrow> ((None, rp\<lparr>rp_alive := rp_alive rp + 1\<rparr>), s)
    | DoWedged \<Rightarrow>
        (if lastType \<noteq> EventWedged then
           (case flagWedged le r stalled s of
              (Inl e, t) \<Rightarrow> ((Some e, rp), t)
            | (Inr _, t) \<Rightarrow> ((None, rp\<lparr>rp_wedged := rp_wedged rp + 1\<rparr>), t))
         else ((None, rp\<lparr>rp_wedged := rp_wedged rp + 1\<rparr>), s))
    | DoDead \<Rightarrow> (case write_tx (crashAndBoundTx le r stalled (pc_stale pc) (pc_max pc) status) s of
          (Inl e, t) \<Rightarrow> ((Some e, rp), t)
        | (Inr b, t) \<Rightarrow> ((None, count_bound b rp), t))
    | DoPending \<Rightarrow> ((None, rp\<lparr>rp_pending := rp_pending rp + 1\<rparr>), s))"
    using harvest(2)
    by (simp only: res [symmetric] reconcileRun_def status harvest(1) sum.case last prod.case Let_def
        verdict_def fresh_def stalled_def beating_def)
  obtain x u where flag: "flagWedged le r stalled s = (x, u)" by fastforce
  show ?thesis
    using verdict step wedge [OF flag] flag
    by (cases x) (auto split: if_splits)
qed

text \<open>A ladder whose units are all active.\<close>

definition sample_alive :: ladder_env where
  "sample_alive = sample_le\<lparr>le_units := (\<lambda>r. Inr \<lparr>us_state = UnitActive, us_exit = 0, us_result = []\<rparr>)\<rparr>"

theorem sweep_spares_the_living_witness:
  "\<exists>r. find_run ''r'' sample_running = Some r \<and>
     t_runs (snd (reconcileRun sample_alive sample_pc r (empty_report False) sample_running)) = t_runs sample_running"
proof -
  obtain r where r: "find_run ''r'' sample_running = Some r" using sample_states(1) by auto
  obtain e rp' t where res: "reconcileRun sample_alive sample_pc r (empty_report False) sample_running = ((e, rp'), t)"
    by (metis prod.exhaust)
  have "good sample_running" by (simp add: sample_running_def sample_good)
  from sweep_spares_the_living [OF this _ _ _ _ res] r res show ?thesis
    by (auto simp: sample_alive_def sample_le_def NoHarvest_def)
qed

end
