(* ===== verification/Metering.thy ===== *)
theory Metering
  imports Checkpoints Float64
begin

text \<open>
  \<open>internal/metering\<close>: \<open>metering.go\<close>, \<open>local.go\<close>, \<open>price.go\<close> and \<open>ledger.go\<close>.  What a paid call
  consumed (the usage block of its checkpoint, normalised), what it costs (the effective-dated price
  table with its two guards), and the consumption ledger: the checkpoint rows of a run folded into
  lines per model, lane and purpose.

  Dollars and weights are \<open>float64\<close>; every arithmetic step is rounded by \<open>fl\<close>.  A usage block is
  decoded as \<open>encoding/json\<close> decodes into a struct: keys match without regard to ASCII case, a later
  duplicate wins, a field of the wrong type is left as it was, and an ill-formed block decodes to the
  zero value.
\<close>

section \<open>Usage blocks\<close>

definition TierMeasured :: approx_tier where "TierMeasured = 1"
definition TierAggregate :: approx_tier where "TierAggregate = 2"
definition TierDerived :: approx_tier where "TierDerived = 3"
definition TierTokenizer :: approx_tier where "TierTokenizer = 4"
definition TierUnknown :: approx_tier where "TierUnknown = 5"

definition tier_valid :: "approx_tier \<Rightarrow> bool" where
  "tier_valid t \<longleftrightarrow> TierMeasured \<le> t \<and> t \<le> TierUnknown"

lemmas tier_defs = TierMeasured_def TierAggregate_def TierDerived_def TierTokenizer_def TierUnknown_def

text \<open>The per-bucket split of cache creation is carried by the code and read nowhere; it is left out.\<close>

record engine_usage =
  eu_input :: int
  eu_output :: int
  eu_cache_read :: int
  eu_cache_creation :: int
  eu_thinking :: int
  eu_web_search :: int
  eu_web_fetch :: int
  eu_request :: string

definition no_usage :: engine_usage where
  "no_usage = \<lparr>eu_input = 0, eu_output = 0, eu_cache_read = 0, eu_cache_creation = 0,
     eu_thinking = 0, eu_web_search = 0, eu_web_fetch = 0, eu_request = []\<rparr>"

text \<open>Decoding a member: the new value when it has the type, the old one otherwise.\<close>

definition lenient_int :: "json \<Rightarrow> int \<Rightarrow> int" where
  "lenient_int v old = (case v of JNum lit \<Rightarrow> (case parse_int lit of Some i \<Rightarrow> i | None \<Rightarrow> old) | _ \<Rightarrow> old)"

definition lenient_str :: "json \<Rightarrow> string \<Rightarrow> string" where
  "lenient_str v old = (case v of JStr s \<Rightarrow> s | _ \<Rightarrow> old)"

definition tool_member :: "string \<times> json \<Rightarrow> engine_usage \<Rightarrow> engine_usage" where
  "tool_member f eu = (let key = to_lower (fst f); v = snd f in
     if key = ''web_search_requests'' then eu\<lparr>eu_web_search := lenient_int v (eu_web_search eu)\<rparr>
     else if key = ''web_fetch_requests'' then eu\<lparr>eu_web_fetch := lenient_int v (eu_web_fetch eu)\<rparr>
     else eu)"

text \<open>\<open>null\<close> clears the pointer of the nested block; an object is decoded into it.\<close>

definition usage_member :: "string \<times> json \<Rightarrow> engine_usage \<Rightarrow> engine_usage" where
  "usage_member f eu = (let key = to_lower (fst f); v = snd f in
     if key = ''input_tokens'' then eu\<lparr>eu_input := lenient_int v (eu_input eu)\<rparr>
     else if key = ''output_tokens'' then eu\<lparr>eu_output := lenient_int v (eu_output eu)\<rparr>
     else if key = ''cache_read_input_tokens'' then eu\<lparr>eu_cache_read := lenient_int v (eu_cache_read eu)\<rparr>
     else if key = ''cache_creation_input_tokens''
       then eu\<lparr>eu_cache_creation := lenient_int v (eu_cache_creation eu)\<rparr>
     else if key = ''thinking_tokens'' then eu\<lparr>eu_thinking := lenient_int v (eu_thinking eu)\<rparr>
     else if key = ''request_id'' then eu\<lparr>eu_request := lenient_str v (eu_request eu)\<rparr>
     else if key = ''server_tool_use''
       then (case v of JNull \<Rightarrow> eu\<lparr>eu_web_search := 0, eu_web_fetch := 0\<rparr>
                     | JObj fs \<Rightarrow> fold tool_member fs eu | _ \<Rightarrow> eu)
     else eu)"

definition decode_usage :: "raw \<Rightarrow> engine_usage" where
  "decode_usage r = (case raw_json r of Some (JObj fs) \<Rightarrow> fold usage_member fs no_usage | _ \<Rightarrow> no_usage)"

record accounting =
  ac_prompt :: int
  ac_output :: int
  ac_cache_read :: int
  ac_cache_creation :: int
  ac_server_tools :: int
  ac_measured :: bool
  ac_request :: string

definition accounting_of :: "engine_usage \<Rightarrow> accounting" where
  "accounting_of eu =
     (let prompt = wrap64 (wrap64 (eu_cache_read eu + eu_cache_creation eu) + eu_input eu);
          output = wrap64 (eu_output eu + eu_thinking eu);
          tools = wrap64 (eu_web_search eu + eu_web_fetch eu)
      in \<lparr>ac_prompt = prompt, ac_output = output, ac_cache_read = eu_cache_read eu,
          ac_cache_creation = eu_cache_creation eu, ac_server_tools = tools,
          ac_measured = (prompt > 0 \<or> output > 0 \<or> tools > 0), ac_request = eu_request eu\<rparr>)"

definition normalize :: "raw \<Rightarrow> accounting" where
  "normalize r = accounting_of (decode_usage r)"

definition accounting_tier :: "accounting \<Rightarrow> approx_tier" where
  "accounting_tier a = (if ac_measured a then TierMeasured else TierUnknown)"

text \<open>\<open>None\<close> is the infinite divergence against a zero base.\<close>

definition absFrac :: "rat \<Rightarrow> rat \<Rightarrow> rat option" where
  "absFrac a b =
     (let d = \<bar>fl (a - b)\<bar>; base = \<bar>b\<bar>; eps = fl (1 / 10 ^ 12)
      in if base < eps then (if d < eps then Some 0 else None) else Some (fl (d / base)))"

section \<open>Local calls\<close>

definition LaneLocal :: string where "LaneLocal = ''local''"

text \<open>
  The local marker's lane: an error anywhere in the marker makes the whole decode fail, and then
  there is no marker.
\<close>

definition strict_str :: "json \<Rightarrow> string \<Rightarrow> string option" where
  "strict_str v old = (case v of JNull \<Rightarrow> Some old | JStr s \<Rightarrow> Some s | _ \<Rightarrow> None)"

fun marker_lane :: "(string \<times> json) list \<Rightarrow> string \<Rightarrow> string option" where
  "marker_lane [] lane = Some lane"
| "marker_lane ((k, v) # fs) lane =
     (if to_lower k = ''lane''
        then (case strict_str v lane of None \<Rightarrow> None | Some l \<Rightarrow> marker_lane fs l)
      else if to_lower k \<in> {''duty'', ''model'', ''model_sha256'', ''engine_build''}
        then (if strict_str v [] = None then None else marker_lane fs lane)
      else marker_lane fs lane)"

fun marker_of :: "(string \<times> json) list \<Rightarrow> string option \<Rightarrow> string option option" where
  "marker_of [] m = Some m"
| "marker_of ((k, v) # fs) m =
     (if to_lower k = ''local''
        then (case v of JNull \<Rightarrow> marker_of fs None
              | JObj inner \<Rightarrow> (case marker_lane inner (case m of None \<Rightarrow> [] | Some l \<Rightarrow> l) of
                    None \<Rightarrow> None | Some l \<Rightarrow> marker_of fs (Some l))
              | _ \<Rightarrow> None)
      else marker_of fs m)"

definition parseLocalMarker :: "raw \<Rightarrow> bool" where
  "parseLocalMarker r = (case raw_json r of
       Some (JObj fs) \<Rightarrow> marker_of fs None = Some (Some LaneLocal)
     | _ \<Rightarrow> False)"

definition effectiveLane :: "string \<Rightarrow> raw \<Rightarrow> string" where
  "effectiveLane runLane r = (if parseLocalMarker r then LaneLocal else runLane)"

section \<open>Prices\<close>

definition allZero :: "unit_prices \<Rightarrow> bool" where
  "allZero p \<longleftrightarrow> up_input p = 0 \<and> up_output p = 0 \<and> up_cache_read p = 0 \<and>
     up_cache_creation p = 0 \<and> up_server_tool p = 0"

text \<open>The lanes with explicit per-token billing (empty in the shipped configuration).\<close>

type_synonym metered_exceptions = "string \<Rightarrow> bool"

definition exception_currency :: "metered_exceptions \<Rightarrow> string \<Rightarrow> currency" where
  "exception_currency ex lane = (if ex lane then CurrencyReal else CurrencyAPIEquiv)"

record price_table =
  pt_version :: string
  pt_rows :: "price_row list"

definition NewEffectiveDatedTable :: "string \<Rightarrow> price_table" where
  "NewEffectiveDatedTable version = \<lparr>pt_version = version, pt_rows = []\<rparr>"

text \<open>\<open>sort.SliceStable\<close> by the effective instant.\<close>

definition AddPrices :: "price_row list \<Rightarrow> price_table \<Rightarrow> price_table" where
  "AddPrices rows t = t\<lparr>pt_rows := sort_key pr_effective (pt_rows t @ rows)\<rparr>"

fun lookup_from ::
  "string \<Rightarrow> string \<Rightarrow> time \<Rightarrow> price_row list \<Rightarrow> price_row option \<Rightarrow> price_row option" where
  "lookup_from model lane ts [] best = best"
| "lookup_from model lane ts (r # rs) best =
     (if pr_model r \<noteq> model \<or> pr_lane r \<noteq> lane then lookup_from model lane ts rs best
      else if pr_effective r > ts then lookup_from model lane ts rs best
      else case best of
        None \<Rightarrow> lookup_from model lane ts rs (Some r)
      | Some b \<Rightarrow> lookup_from model lane ts rs (if pr_effective r > pr_effective b then Some r else Some b))"

definition price_lookup :: "price_table \<Rightarrow> string \<Rightarrow> string \<Rightarrow> time \<Rightarrow> price_row option" where
  "price_lookup t model lane ts = lookup_from model lane ts (pt_rows t) None"

definition PromptTokensPricedInput :: "accounting \<Rightarrow> int" where
  "PromptTokensPricedInput a =
     (let n = wrap64 (wrap64 (ac_prompt a - ac_cache_read a) - ac_cache_creation a)
      in if n < 0 then 0 else n)"

text \<open>The outcome of pricing a row: unpriced, or a cost.\<close>

datatype priced_cost = Unpriced | Priced rat

definition times_price :: "int \<Rightarrow> rat \<Rightarrow> rat" where
  "times_price n p = fl (fl (of_int n) * p)"

definition row_cost :: "unit_prices \<Rightarrow> accounting \<Rightarrow> rat" where
  "row_cost p a =
     fl (fl (fl (fl (times_price (PromptTokensPricedInput a) (up_input p) +
       times_price (ac_cache_read a) (up_cache_read p)) +
       times_price (ac_cache_creation a) (up_cache_creation p)) +
       times_price (ac_output a) (up_output p)) +
       times_price (ac_server_tools a) (up_server_tool p))"

definition Price ::
  "price_table \<Rightarrow> string \<Rightarrow> string \<Rightarrow> time \<Rightarrow> accounting \<Rightarrow> currency \<Rightarrow> priced_cost" where
  "Price t model lane ts a cur = (case price_lookup t model lane ts of
       None \<Rightarrow> Unpriced
     | Some row \<Rightarrow>
         if cur = CurrencyAPIEquiv \<and> allZero (pr_prices row) then Unpriced
         else Priced (row_cost (pr_prices row) a))"

definition priceLocal :: priced_cost where "priceLocal = Priced 0"

section \<open>Purposes\<close>

definition RunSuffixIntake :: string where "RunSuffixIntake = ''.intake''"
definition RunSuffixExecute :: string where "RunSuffixExecute = ''.execute''"
definition RunSuffixVerify :: string where "RunSuffixVerify = ''.verify''"
definition RunSuffixCompose :: string where "RunSuffixCompose = ''.compose''"

lemmas suffix_defs = RunSuffixIntake_def RunSuffixExecute_def RunSuffixVerify_def RunSuffixCompose_def

definition is_digit :: "char \<Rightarrow> bool" where
  "is_digit c = (let n = of_char c :: nat in 48 \<le> n \<and> n \<le> 57)"

text \<open>
  One turn of \<open>StripForkSuffix\<close>'s loop.  \<open>strings.LastIndex(runID, ".g")\<close> splits the id at its last
  \<open>.g\<close>; \<open>last_fork\<close> returns the parts before and after it.
\<close>

fun last_fork :: "string \<Rightarrow> (string \<times> string) option" where
  "last_fork [] = None"
| "last_fork (c # cs) = (case last_fork cs of
      Some (a, b) \<Rightarrow> Some (c # a, b)
    | None \<Rightarrow> (case cs of
          [] \<Rightarrow> None
        | d # ds \<Rightarrow> if c = CHR ''.'' \<and> d = CHR ''g'' then Some ([], ds) else None))"

lemma last_fork_Some: "last_fork s = Some (a, b) \<Longrightarrow> s = a @ ''.g'' @ b"
proof (induction s arbitrary: a b)
  case (Cons c cs)
  show ?case
  proof (cases "last_fork cs")
    case None
    then show ?thesis using Cons.prems by (cases cs) (simp_all split: if_splits)
  next
    case (Some ab)
    obtain a' b' where "ab = (a', b')" by fastforce
    then show ?thesis using Cons.prems Cons.IH [of a' b'] Some by auto
  qed
qed simp

lemma last_fork_shorter: "last_fork s = Some (a, b) \<Longrightarrow> length a < length s"
  by (auto dest: last_fork_Some)

function StripForkSuffix :: "string \<Rightarrow> string" where
  "StripForkSuffix s = (case last_fork s of
       None \<Rightarrow> s
     | Some (a, b) \<Rightarrow> if b = [] \<or> \<not> list_all is_digit b then s else StripForkSuffix a)"
  by pat_completeness auto

termination
  by (relation "measure length") (auto dest: last_fork_shorter)

declare StripForkSuffix.simps [simp del]

definition derivePurpose :: "string \<Rightarrow> purpose" where
  "derivePurpose rid = (let base = StripForkSuffix rid in
     if ends_with RunSuffixIntake base then PurposeCeremony
     else if ends_with RunSuffixCompose base then PurposeCeremony
     else if ends_with RunSuffixVerify base then PurposeVerification
     else PurposeExecution)"

end
