(* ===== verification/Consumption_Ledger.thy ===== *)
theory Consumption_Ledger
  imports Metering
begin

text \<open>
  \<open>internal/metering/ledger.go\<close> and \<open>spend.go\<close>: the checkpoint rows of a run folded into the lines of a
  receipt, the divergence alarm, and the daily spend of a person.  The fold is proved to be a grouping:
  one line per (model, lane, purpose), each carrying exactly its rows.

  Row counts are unbounded integers (a table has fewer than \<open>2 ^ 63\<close> rows); token sums wrap.
\<close>

section \<open>The ledger\<close>

text \<open>The price table, the metered lanes and the settings of a \<open>Ledger\<close>.\<close>

record ledger_env =
  lg_prices :: price_table
  lg_exceptions :: metered_exceptions
  lg_settings :: settings

record source_row =
  sr_model :: string
  sr_lane :: string
  sr_usage :: raw
  sr_created :: time

record run_consumption =
  rn_run :: string
  rn_user :: string
  rn_items :: "line_item list"
  rn_usd :: rat
  rn_calls :: int
  rn_unpriced :: int
  rn_worst :: approx_tier

type_synonym line_key = "string \<times> string \<times> purpose"

definition line_key :: "line_item \<Rightarrow> line_key" where
  "line_key li = (li_model li, li_lane li, li_purpose li)"

definition row_key :: "string \<Rightarrow> source_row \<Rightarrow> line_key" where
  "row_key rid r = (sr_model r, effectiveLane (sr_lane r) (sr_usage r), derivePurpose rid)"

text \<open>The price of a row: a local call is free, every other is priced at its own instant.\<close>

definition price_source_row :: "ledger_env \<Rightarrow> source_row \<Rightarrow> priced_cost" where
  "price_source_row le r =
     (let lane = effectiveLane (sr_lane r) (sr_usage r)
      in if parseLocalMarker (sr_usage r) then priceLocal
         else Price (lg_prices le) (sr_model r) lane (sr_created r) (normalize (sr_usage r))
                (exception_currency (lg_exceptions le) lane))"

definition new_line :: "ledger_env \<Rightarrow> line_key \<Rightarrow> line_item" where
  "new_line le k = (case k of (model, lane, purpose) \<Rightarrow>
     \<lparr>li_model = model, li_lane = lane, li_purpose = purpose, li_tier = TierMeasured, li_calls = 0,
      li_prompt = 0, li_output = 0, li_cache_read = 0, li_cache_creation = 0, li_server_tools = 0,
      li_usd = 0, li_priced = 0, li_unpriced = 0,
      li_currency = exception_currency (lg_exceptions le) lane,
      li_version = pt_version (lg_prices le)\<rparr>)"

definition add_row :: "ledger_env \<Rightarrow> source_row \<Rightarrow> line_item \<Rightarrow> line_item" where
  "add_row le r li =
     (let acc = normalize (sr_usage r); li' = li\<lparr>
        li_calls := li_calls li + 1,
        li_prompt := wrap64 (li_prompt li + ac_prompt acc),
        li_output := wrap64 (li_output li + ac_output acc),
        li_cache_read := wrap64 (li_cache_read li + ac_cache_read acc),
        li_cache_creation := wrap64 (li_cache_creation li + ac_cache_creation acc),
        li_server_tools := wrap64 (li_server_tools li + ac_server_tools acc),
        li_tier := max (li_tier li) (accounting_tier acc)\<rparr>
      in case price_source_row le r of
           Unpriced \<Rightarrow> li'\<lparr>li_unpriced := li_unpriced li + 1\<rparr>
         | Priced c \<Rightarrow> li'\<lparr>li_usd := fl (li_usd li + c), li_priced := li_priced li + 1\<rparr>)"

text \<open>The line of the row's key is updated in place, or appended in order of first appearance.\<close>

fun put_line :: "ledger_env \<Rightarrow> string \<Rightarrow> source_row \<Rightarrow> line_item list \<Rightarrow> line_item list" where
  "put_line le rid r [] = [add_row le r (new_line le (row_key rid r))]"
| "put_line le rid r (li # lis) =
     (if line_key li = row_key rid r then add_row le r li # lis else li # put_line le rid r lis)"

definition fold_row :: "ledger_env \<Rightarrow> run_consumption \<Rightarrow> source_row \<Rightarrow> run_consumption" where
  "fold_row le rc r =
     (let rc' = rc\<lparr>rn_items := put_line le (rn_run rc) r (rn_items rc), rn_calls := rn_calls rc + 1,
        rn_worst := max (rn_worst rc) (accounting_tier (normalize (sr_usage r)))\<rparr>
      in case price_source_row le r of
           Unpriced \<Rightarrow> rc'\<lparr>rn_unpriced := rn_unpriced rc + 1\<rparr>
         | Priced c \<Rightarrow> rc'\<lparr>rn_usd := fl (rn_usd rc + c)\<rparr>)"

definition empty_consumption :: "string \<Rightarrow> string \<Rightarrow> run_consumption" where
  "empty_consumption rid user = \<lparr>rn_run = rid, rn_user = user, rn_items = [], rn_usd = 0, rn_calls = 0,
     rn_unpriced = 0, rn_worst = TierMeasured\<rparr>"

definition fold_rows :: "ledger_env \<Rightarrow> string \<Rightarrow> string \<Rightarrow> source_row list \<Rightarrow> run_consumption" where
  "fold_rows le rid user rows = foldl (fold_row le) (empty_consumption rid user) rows"

text \<open>A checkpoint joined with its run, in event order.\<close>

definition source_of :: "string \<Rightarrow> checkpoint_row \<Rightarrow> source_row" where
  "source_of lane c = \<lparr>sr_model = ck_model c, sr_lane = lane, sr_usage = ck_usage c,
     sr_created = ck_created c\<rparr>"

definition readCheckpoints :: "string \<Rightarrow> db \<Rightarrow> source_row list" where
  "readCheckpoints rid s = (case find_run rid s of
       None \<Rightarrow> []
     | Some r \<Rightarrow> map (source_of (run_lane r))
         (sort_key ck_event_seq (filter (\<lambda>c. ck_run c = rid) (t_checkpoints s))))"

definition RunConsumptionTx :: "ledger_env \<Rightarrow> string \<Rightarrow> run_consumption dbtx" where
  "RunConsumptionTx le rid =
     tx_bind (tx_read (readCheckpoints rid)) (\<lambda>rows.
     tx_bind (tx_some (find_run rid) (ReceiptForUnknownRun rid)) (\<lambda>r.
     tx_return (fold_rows le rid (run_user r) rows)))"

definition RunConsumption :: "ledger_env \<Rightarrow> string \<Rightarrow> db \<Rightarrow> (error + run_consumption) \<times> db" where
  "RunConsumption le rid = write_tx (RunConsumptionTx le rid)"

definition RequestIDsTx :: "string \<Rightarrow> string list dbtx" where
  "RequestIDsTx rid = tx_read (\<lambda>s. filter (\<lambda>i. i \<noteq> [])
     (map (\<lambda>r. ac_request (normalize (sr_usage r))) (readCheckpoints rid s)))"

definition RequestIDs :: "string \<Rightarrow> db \<Rightarrow> (error + string list) \<times> db" where
  "RequestIDs rid = write_tx (RequestIDsTx rid)"

section \<open>The divergence alarm\<close>

definition keyDivergenceAlarm :: string where "keyDivergenceAlarm = ''meter.value_divergence_alarm''"

record divergence =
  dv_fired :: bool
  dv_priced :: rat
  dv_engine :: rat
  dv_fraction :: "rat option" \<comment> \<open>\<open>None\<close> is infinite\<close>
  dv_threshold :: rat
  dv_comparable :: bool

definition CheckDivergence ::
  "ledger_env \<Rightarrow> run_consumption \<Rightarrow> rat \<Rightarrow> bool \<Rightarrow> error + divergence" where
  "CheckDivergence le priced estimate available =
     (case read_float (lg_settings le) keyDivergenceAlarm of
        Inl e \<Rightarrow> Inl e
      | Inr pct \<Rightarrow>
          (let al = \<lparr>dv_fired = False, dv_priced = rn_usd priced, dv_engine = estimate,
                 dv_fraction = Some 0, dv_threshold = fl (pct / 100), dv_comparable = False\<rparr>
           in if rn_unpriced priced > 0 \<or> rn_usd priced = 0 then Inr al
              else if \<not> available then Inr al
              else let f = absFrac (rn_usd priced) estimate
                   in Inr (al\<lparr>dv_comparable := True, dv_fraction := f,
                        dv_fired := (case f of None \<Rightarrow> True | Some q \<Rightarrow> q > dv_threshold al)\<rparr>)))"

section \<open>Grouping\<close>

lemma line_key_add_row [simp]: "line_key (add_row le r li) = line_key li"
  by (simp add: add_row_def line_key_def Let_def split: priced_cost.split)

lemma line_key_new_line [simp]: "line_key (new_line le k) = k"
  by (simp add: new_line_def line_key_def split: prod.split)

lemma keys_put_line:
  "map line_key (put_line le rid r lis) =
     (if row_key rid r \<in> line_key ` set lis then map line_key lis
      else map line_key lis @ [row_key rid r])"
  by (induction lis) (auto simp: image_iff)

text \<open>What a line says of the rows it groups.\<close>

definition tier_of_rows :: "source_row list \<Rightarrow> approx_tier" where
  "tier_of_rows rows =
     (if \<exists>r\<in>set rows. \<not> ac_measured (normalize (sr_usage r)) then TierUnknown else TierMeasured)"

definition tokens :: "(accounting \<Rightarrow> int) \<Rightarrow> source_row list \<Rightarrow> int" where
  "tokens f rows = wrap64 (sum_list (map (\<lambda>r. f (normalize (sr_usage r))) rows))"

definition priced_rows :: "ledger_env \<Rightarrow> source_row list \<Rightarrow> rat list" where
  "priced_rows le rows = concat (map (\<lambda>r. case price_source_row le r of Unpriced \<Rightarrow> [] | Priced c \<Rightarrow> [c]) rows)"

definition float_sum :: "rat list \<Rightarrow> rat" where
  "float_sum xs = foldl (\<lambda>acc x. fl (acc + x)) 0 xs"

definition line_groups :: "ledger_env \<Rightarrow> line_item \<Rightarrow> source_row list \<Rightarrow> bool" where
  "line_groups le li rows \<longleftrightarrow>
     li_calls li = int (length rows) \<and> li_priced li = int (length (priced_rows le rows)) \<and>
     li_unpriced li = int (length rows) - int (length (priced_rows le rows)) \<and>
     li_usd li = float_sum (priced_rows le rows) \<and> li_tier li = tier_of_rows rows \<and>
     li_prompt li = tokens ac_prompt rows \<and> li_output li = tokens ac_output rows \<and>
     li_cache_read li = tokens ac_cache_read rows \<and>
     li_cache_creation li = tokens ac_cache_creation rows \<and>
     li_server_tools li = tokens ac_server_tools rows"

lemma wrap64_0 [simp]: "wrap64 0 = 0"
  by (simp add: wrap64_def)

lemma wrap64_add: "wrap64 (wrap64 a + b) = wrap64 (a + b)"
proof -
  have "wrap64 a + b + 2 ^ 63 = (a + 2 ^ 63) mod 2 ^ 64 + b" by (simp add: wrap64_def)
  then have "(wrap64 a + b + 2 ^ 63) mod 2 ^ 64 = (a + 2 ^ 63 + b) mod 2 ^ 64"
    by (simp only: mod_add_left_eq)
  also have "a + 2 ^ 63 + b = a + b + 2 ^ 63" by simp
  finally show ?thesis by (simp only: wrap64_def [of "wrap64 a + b"] wrap64_def [of "a + b"])
qed

lemma tokens_snoc: "tokens f (rows @ [r]) = wrap64 (tokens f rows + f (normalize (sr_usage r)))"
  by (simp add: tokens_def wrap64_add)

lemma tier_of_rows_snoc:
  "tier_of_rows (rows @ [r]) = max (tier_of_rows rows) (accounting_tier (normalize (sr_usage r)))"
  by (auto simp: tier_of_rows_def accounting_tier_def tier_defs)

lemma priced_rows_snoc:
  "priced_rows le (rows @ [r]) =
     priced_rows le rows @ (case price_source_row le r of Unpriced \<Rightarrow> [] | Priced c \<Rightarrow> [c])"
  by (simp add: priced_rows_def)

lemma line_groups_add:
  "line_groups le li rows \<Longrightarrow> line_groups le (add_row le r li) (rows @ [r])"
  by (cases "price_source_row le r")
     (simp_all add: line_groups_def add_row_def Let_def tokens_snoc tier_of_rows_snoc priced_rows_snoc
       float_sum_def)

lemma line_groups_new: "line_groups le (new_line le k) []"
  by (cases k) (simp add: line_groups_def new_line_def tokens_def tier_of_rows_def priced_rows_def
      float_sum_def tier_defs)

definition rows_of :: "string \<Rightarrow> line_key \<Rightarrow> source_row list \<Rightarrow> source_row list" where
  "rows_of rid k rows = filter (\<lambda>r. row_key rid r = k) rows"

definition groups :: "ledger_env \<Rightarrow> string \<Rightarrow> line_item list \<Rightarrow> source_row list \<Rightarrow> bool" where
  "groups le rid lis rows \<longleftrightarrow> distinct (map line_key lis) \<and>
     line_key ` set lis = row_key rid ` set rows \<and>
     (\<forall>li\<in>set lis. line_groups le li (rows_of rid (line_key li) rows))"

lemma rows_of_snoc:
  "rows_of rid k (rows @ [r]) = rows_of rid k rows @ (if row_key rid r = k then [r] else [])"
  by (simp add: rows_of_def)

lemma put_line_cases:
  assumes "x \<in> set (put_line le rid r lis)" "distinct (map line_key lis)"
  obtains (same) "x \<in> set lis" "line_key x \<noteq> row_key rid r"
  | (updated) li where "li \<in> set lis" "line_key li = row_key rid r" "x = add_row le r li"
  | (fresh) "row_key rid r \<notin> line_key ` set lis" "x = add_row le r (new_line le (row_key rid r))"
  using assms
proof (induction lis arbitrary: thesis)
  case Nil
  then show ?case by simp
next
  case (Cons li lis)
  show ?case
  proof (cases "line_key li = row_key rid r")
    case True
    then have "x = add_row le r li \<or> x \<in> set lis" using Cons.prems(4) by simp
    moreover have "x \<in> set lis \<Longrightarrow> line_key x \<noteq> row_key rid r"
      using Cons.prems(5) True by force
    ultimately show ?thesis using Cons.prems(1,2) True by auto
  next
    case False
    then have "x = li \<or> x \<in> set (put_line le rid r lis)" using Cons.prems(4) by simp
    then show ?thesis
    proof
      assume "x = li"
      then show ?thesis using Cons.prems(1) False by simp
    next
      assume "x \<in> set (put_line le rid r lis)"
      from Cons.IH [OF _ _ _ this] Cons.prems False show ?thesis by (metis (no_types, lifting)
          distinct.simps(2) image_insert insert_iff list.set(2) list.simps(15) list.simps(9))
    qed
  qed
qed

lemma put_line_groups:
  assumes g: "groups le rid lis rows"
  shows "groups le rid (put_line le rid r lis) (rows @ [r])"
proof -
  have d: "distinct (map line_key lis)" and keys: "line_key ` set lis = row_key rid ` set rows"
    and each: "\<And>li. li \<in> set lis \<Longrightarrow> line_groups le li (rows_of rid (line_key li) rows)"
    using g by (auto simp: groups_def)
  have "distinct (map line_key (put_line le rid r lis))" using d by (auto simp: keys_put_line)
  moreover have "set (map line_key (put_line le rid r lis)) = row_key rid ` set (rows @ [r])"
    using keys unfolding keys_put_line by auto
  then have "line_key ` set (put_line le rid r lis) = row_key rid ` set (rows @ [r])" by simp
  moreover have "line_groups le x (rows_of rid (line_key x) (rows @ [r]))"
    if "x \<in> set (put_line le rid r lis)" for x
    using that d
  proof (cases rule: put_line_cases)
    case same
    then show ?thesis using each by (simp add: rows_of_snoc)
  next
    case (updated li)
    then show ?thesis using line_groups_add [OF each [of li]] by (simp add: rows_of_snoc)
  next
    case fresh
    then have "rows_of rid (row_key rid r) rows = []"
      using keys unfolding rows_of_def filter_empty_conv by (metis image_eqI)
    then show ?thesis using fresh line_groups_add [OF line_groups_new] by (simp add: rows_of_snoc)
  qed
  ultimately show ?thesis by (simp add: groups_def)
qed

lemma fold_rows_groups:
  "groups le rid (rn_items (fold_rows le rid user rows)) rows \<and> rn_run (fold_rows le rid user rows) = rid"
proof (induction rows rule: rev_induct)
  case Nil
  then show ?case by (simp add: fold_rows_def empty_consumption_def groups_def)
next
  case (snoc r rows)
  then show ?case
    by (cases "price_source_row le r") (simp_all add: fold_rows_def fold_row_def Let_def put_line_groups)
qed

lemma fold_rows_totals:
  "rn_calls (fold_rows le rid user rows) = int (length rows) \<and>
   rn_unpriced (fold_rows le rid user rows) = int (length rows) - int (length (priced_rows le rows)) \<and>
   rn_usd (fold_rows le rid user rows) = float_sum (priced_rows le rows) \<and>
   rn_worst (fold_rows le rid user rows) = tier_of_rows rows \<and>
   rn_user (fold_rows le rid user rows) = user"
proof (induction rows rule: rev_induct)
  case Nil
  then show ?case
    by (simp add: fold_rows_def empty_consumption_def priced_rows_def float_sum_def tier_of_rows_def)
next
  case (snoc r rows)
  then show ?case
    by (cases "price_source_row le r")
       (simp_all add: fold_rows_def fold_row_def Let_def priced_rows_snoc tier_of_rows_snoc float_sum_def)
qed

end
