(* ===== verification/Timestamps.thy ===== *)
theory Timestamps
  imports Json_Text
begin

text \<open>
  Stored instants.  A timestamp column holds the text \<open>t.UTC().Format(time.RFC3339Nano)\<close>: a prefix of
  fixed width down to the second (for the years 1 to 9999), then, unless the fraction is zero, a point
  and the nanoseconds without their trailing zeros, then \<open>Z\<close>.  SQL compares the texts, byte by byte.
  Between different seconds that is the order of the instants; within one second it is not, because
  \<open>Z\<close> is larger than the point and than every digit.
\<close>

definition pad9 :: "string \<Rightarrow> string" where
  "pad9 s = replicate (9 - length s) (CHR ''0'') @ s"

definition strip_zeros :: "string \<Rightarrow> string" where
  "strip_zeros s = rev (dropWhile (\<lambda>c. c = CHR ''0'') (rev s))"

definition frac_text :: "int \<Rightarrow> string" where
  "frac_text n = (if n = 0 then ''Z'' else ''.'' @ strip_zeros (pad9 (dec_int n)) @ ''Z'')"

definition stamp_less :: "time \<Rightarrow> time \<Rightarrow> bool" where
  "stamp_less a b \<longleftrightarrow> a div second < b div second \<or>
     (a div second = b div second \<and> frac_text (a mod second) < frac_text (b mod second))"

definition stamp_le :: "time \<Rightarrow> time \<Rightarrow> bool" where
  "stamp_le a b \<longleftrightarrow> \<not> stamp_less b a"

lemma second_div_less: "a div second < b div second \<Longrightarrow> a < b"
  using zdiv_mono1 [of b a second] by (auto simp: second_def not_less [symmetric])

lemma stamp_less_seconds:
  "a div second \<noteq> b div second \<Longrightarrow> stamp_less a b \<longleftrightarrow> a < b"
proof -
  assume ne: "a div second \<noteq> b div second"
  have "a < b \<Longrightarrow> a div second \<le> b div second" by (simp add: zdiv_mono1 second_def)
  with ne second_div_less [of a b] show ?thesis by (auto simp: stamp_less_def)
qed

lemma stamp_le_seconds:
  "a div second \<noteq> b div second \<Longrightarrow> stamp_le a b \<longleftrightarrow> a \<le> b"
  using stamp_less_seconds [of b a] by (auto simp: stamp_le_def)

lemma stamp_le_refl [simp]: "stamp_le a a"
  by (simp add: stamp_le_def stamp_less_def)

text \<open>Within a second the text order can be the reverse of the time order.\<close>

lemma stamp_inverted: "stamp_less 500000000 0"
  by (simp add: stamp_less_def second_def frac_text_def pad9_def strip_zeros_def dec_int_def
      dec_nat.simps digit_char_def less_char_def)

text \<open>UTC calendar days, counted from the zero instant.\<close>

definition day_length :: duration where "day_length = 86400 * second"

definition day_of :: "time \<Rightarrow> int" where "day_of t = t div day_length"

end
