(* ===== verification/Receipts.thy ===== *)
theory Receipts
  imports Consumption_Ledger Timestamps
begin

text \<open>
  \<open>internal/metering/receipt.go\<close>: the receipt of a run, written once, from its consumption, its park
  history and its request ids; and \<open>spend.go\<close>: what a person spent today against the median of the days
  before.  The fixed sentences of a receipt are represented by their label and reference.
\<close>

section \<open>Park history\<close>

text \<open>The decoder of a transition payload: an ill-typed member makes the whole event be skipped.\<close>

record transition_fields =
  tf_from :: string
  tf_to :: string
  tf_reason :: string

fun transition_fields_of :: "(string \<times> json) list \<Rightarrow> transition_fields \<Rightarrow> transition_fields option" where
  "transition_fields_of [] p = Some p"
| "transition_fields_of ((k, v) # fs) p =
     (let key = to_lower k in
      if key = ''from'' then (case strict_str v (tf_from p) of
          None \<Rightarrow> None | Some x \<Rightarrow> transition_fields_of fs (p\<lparr>tf_from := x\<rparr>))
      else if key = ''to'' then (case strict_str v (tf_to p) of
          None \<Rightarrow> None | Some x \<Rightarrow> transition_fields_of fs (p\<lparr>tf_to := x\<rparr>))
      else if key = ''reason'' then (case strict_str v (tf_reason p) of
          None \<Rightarrow> None | Some x \<Rightarrow> transition_fields_of fs (p\<lparr>tf_reason := x\<rparr>))
      else transition_fields_of fs p)"

definition decode_transition :: "raw \<Rightarrow> transition_fields option" where
  "decode_transition r = (let p0 = \<lparr>tf_from = [], tf_to = [], tf_reason = []\<rparr> in
     case raw_json r of
       Some (JObj fs) \<Rightarrow> transition_fields_of fs p0
     | Some JNull \<Rightarrow> Some p0
     | _ \<Rightarrow> None)"

definition open_park :: "time \<Rightarrow> string \<Rightarrow> park_episode" where
  "open_park t reason = \<lparr>pe_parked = t, pe_resumed = 0, pe_seconds = 0, pe_reason = reason,
     pe_cause = [], pe_ongoing = True\<rparr>"

definition close_park :: "time \<Rightarrow> string \<Rightarrow> park_episode \<Rightarrow> park_episode" where
  "close_park t cause e = e\<lparr>pe_resumed := t, pe_ongoing := False, pe_cause := cause,
     pe_seconds := (if is_zero_time (pe_parked e) then pe_seconds e
                    else trunc (seconds (time_sub t (pe_parked e))))\<rparr>"

fun park_episodes :: "event_row list \<Rightarrow> park_episode option \<Rightarrow> park_episode list" where
  "park_episodes [] None = []"
| "park_episodes [] (Some e) = [e]"
| "park_episodes (ev # evs) cur =
     (case decode_transition (ev_payload ev) of
        None \<Rightarrow> park_episodes evs cur
      | Some p \<Rightarrow>
          if tf_to p = state_name StateParked
            then park_episodes evs (Some (open_park (ev_time ev) (tf_reason p)))
          else case cur of
            Some e \<Rightarrow> if tf_from p = state_name StateParked
                        then close_park (ev_time ev) (tf_reason p) e # park_episodes evs None
                        else park_episodes evs cur
          | None \<Rightarrow> park_episodes evs cur)"

definition state_events :: "string \<Rightarrow> db \<Rightarrow> event_row list" where
  "state_events rid s =
     sort_key ev_seq (filter (\<lambda>e. ev_run e = rid \<and> ev_type e = EventState) (t_events s))"

definition parkHistory :: "string \<Rightarrow> db \<Rightarrow> park_episode list" where
  "parkHistory rid s = park_episodes (state_events rid s) None"

section \<open>Receipts\<close>

definition dominantCurrency :: "line_item list \<Rightarrow> currency" where
  "dominantCurrency items =
     (if list_ex (\<lambda>li. li_currency li = CurrencyReal) items then CurrencyReal else CurrencyAPIEquiv)"

definition DirectUseLabel :: string where "DirectUseLabel = ''direct-use estimate (heuristic)''"
definition DirectUseFormulaRef :: string where
  "DirectUseFormulaRef = ''Spec/benchmark-preregistration-v1.md '' @
     [char_of (194::nat), char_of (167::nat)] @ ''13''"

definition execution_items :: "run_consumption \<Rightarrow> line_item list" where
  "execution_items cons = filter (\<lambda>li. li_purpose li = PurposeExecution) (rn_items cons)"

definition directUse :: "run_consumption \<Rightarrow> direct_use" where
  "directUse cons =
     (let items = execution_items cons;
          priced = float_sum (map li_usd items);
          pricedCalls = sum_list (map li_priced items);
          unpricedCalls = sum_list (map li_unpriced items);
          cur = dominantCurrency items;
          blank = (unpricedCalls > 0 \<or> pricedCalls = 0)
      in \<lparr>du_label = DirectUseLabel, du_formula = DirectUseFormulaRef, du_unpriced = blank,
          du_usd = (if blank then 0 else priced), du_currency = cur\<rparr>)"

definition mode_note :: string where "mode_note = ''no change of mode during this work''"

definition receipt_of ::
  "time \<Rightarrow> run_consumption \<Rightarrow> park_episode list \<Rightarrow> string list \<Rightarrow> receipt" where
  "receipt_of now cons parks requests =
     \<lparr>rc_run = rn_run cons, rc_user = rn_user cons, rc_items = rn_items cons,
      rc_currency = dominantCurrency (rn_items cons), rc_usd = rn_usd cons, rc_calls = rn_calls cons,
      rc_unpriced = rn_unpriced cons, rc_worst = rn_worst cons, rc_parks = parks,
      rc_requests = requests, rc_mode = mode_note, rc_direct = directUse cons, rc_ts = now\<rparr>"

text \<open>\<open>ORDER BY receipt_id LIMIT 1\<close>.\<close>

definition existing_receipt :: "string \<Rightarrow> db \<Rightarrow> receipt option" where
  "existing_receipt rid s =
     (case sort_key rr_id (filter (\<lambda>r. rr_run r = rid) (t_receipts s)) of
        [] \<Rightarrow> None | r # _ \<Rightarrow> Some (rr_receipt r))"

definition insert_receipt :: "receipt \<Rightarrow> unit dbtx" where
  "insert_receipt r = (\<lambda>s.
     if rc_user r \<noteq> [] \<and> has_run (rc_run r) s
     then Inr ((), s\<lparr>t_receipts := t_receipts s @
       [\<lparr>rr_id = next_rowid (map rr_id (t_receipts s)), rr_run = rc_run r, rr_user = rc_user r,
         rr_receipt = r, rr_ts = rc_ts r\<rparr>]\<rparr>)
     else Inl (ConstraintFailed ''receipts''))"

definition MaterializeTx :: "ledger_env \<Rightarrow> time \<Rightarrow> string \<Rightarrow> receipt dbtx" where
  "MaterializeTx le now rid =
     tx_bind (tx_read (existing_receipt rid)) (\<lambda>prior.
       case prior of
         Some r \<Rightarrow> tx_return r
       | None \<Rightarrow>
           tx_bind (RunConsumptionTx le rid) (\<lambda>cons.
           tx_bind (tx_read (parkHistory rid)) (\<lambda>parks.
           tx_bind (RequestIDsTx rid) (\<lambda>requests.
           let r = receipt_of now cons parks requests
           in tx_bind (insert_receipt r) (\<lambda>_. tx_return r)))))"

definition Materialize :: "ledger_env \<Rightarrow> time \<Rightarrow> string \<Rightarrow> db \<Rightarrow> (error + receipt) \<times> db" where
  "Materialize le now rid = write_tx (MaterializeTx le now rid)"

section \<open>Spend\<close>

definition median :: "rat list \<Rightarrow> rat" where
  "median xs =
     (let s = sort xs; n = length xs
      in if n = 0 then 0
         else if odd n then s ! (n div 2)
         else fl (fl (s ! (n div 2 - 1) + s ! (n div 2)) / 2))"

record spend_window =
  sw_user :: string
  sw_day :: int
  sw_today :: rat
  sw_median :: rat
  sw_history :: nat
  sw_any_unpriced :: bool

text \<open>The totals per observed day, as an association list; an unpriced row observes its day only.\<close>

fun add_day :: "int \<Rightarrow> rat option \<Rightarrow> (int \<times> rat) list \<Rightarrow> (int \<times> rat) list" where
  "add_day d c [] = [(d, case c of None \<Rightarrow> 0 | Some x \<Rightarrow> fl (0 + x))]"
| "add_day d c ((d', t) # ds) =
     (if d' = d then (d', case c of None \<Rightarrow> t | Some x \<Rightarrow> fl (t + x)) # ds else (d', t) # add_day d c ds)"

definition spend_rows :: "string \<Rightarrow> time \<Rightarrow> time \<Rightarrow> db \<Rightarrow> source_row list" where
  "spend_rows user start stop s = concat (map (\<lambda>c.
     if ck_user c = user \<and> stamp_le start (ck_created c) \<and> stamp_less (ck_created c) stop
     then (case find_run (ck_run c) s of None \<Rightarrow> [] | Some r \<Rightarrow> [source_of (run_lane r) c])
     else []) (t_checkpoints s))"

definition cost_of :: "priced_cost \<Rightarrow> rat option" where
  "cost_of p = (case p of Unpriced \<Rightarrow> None | Priced c \<Rightarrow> Some c)"

definition per_day :: "ledger_env \<Rightarrow> source_row list \<Rightarrow> (int \<times> rat) list" where
  "per_day le rows =
     foldl (\<lambda>ds r. add_day (day_of (sr_created r)) (cost_of (price_source_row le r)) ds) [] rows"

definition SpendWindow :: "ledger_env \<Rightarrow> string \<Rightarrow> time \<Rightarrow> int \<Rightarrow> db \<Rightarrow> spend_window" where
  "SpendWindow le user asOf windowDays s =
     (let days = (if windowDays \<le> 0 then 1 else windowDays);
          today = day_of asOf;
          rows = spend_rows user ((today - days) * day_length) ((today + 1) * day_length) s;
          totals = per_day le rows;
          prior = filter (\<lambda>d. fst d \<noteq> today) totals
      in \<lparr>sw_user = user, sw_day = today,
          sw_today = (case map_of totals today of None \<Rightarrow> 0 | Some t \<Rightarrow> t),
          sw_median = median (map snd prior), sw_history = length prior,
          sw_any_unpriced = list_ex (\<lambda>r. price_source_row le r = Unpriced) rows\<rparr>)"

definition SpendOwners :: "time \<Rightarrow> db \<Rightarrow> string list" where
  "SpendOwners asOf s = (let today = day_of asOf in
     remdups (map ck_user (filter (\<lambda>c. stamp_le (today * day_length) (ck_created c) \<and>
       stamp_less (ck_created c) ((today + 1) * day_length)) (t_checkpoints s))))"

section \<open>Materialising\<close>

lemma insert_receipt_Inr [tx_simps]:
  "insert_receipt r s = Inr (u, t) \<longleftrightarrow> rc_user r \<noteq> [] \<and> has_run (rc_run r) s \<and>
     t = s\<lparr>t_receipts := t_receipts s @
       [\<lparr>rr_id = next_rowid (map rr_id (t_receipts s)), rr_run = rc_run r, rr_user = rc_user r,
         rr_receipt = r, rr_ts = rc_ts r\<rparr>]\<rparr>"
  by (auto simp: insert_receipt_def)

lemma existing_none: "existing_receipt rid s = None \<longleftrightarrow> (\<forall>x\<in>set (t_receipts s). rr_run x \<noteq> rid)"
proof -
  have "existing_receipt rid s = None \<longleftrightarrow> filter (\<lambda>r. rr_run r = rid) (t_receipts s) = []"
    by (auto simp: existing_receipt_def split: list.splits) (metis length_0_conv length_sort)
  then show ?thesis by (simp add: filter_empty_conv)
qed

lemma MaterializeTx_Inr:
  assumes "MaterializeTx le now rid s = Inr (r, t)"
  obtains (prior) "existing_receipt rid s = Some r" "t = s"
  | (fresh) run where "existing_receipt rid s = None" "find_run rid s = Some run" "run_user run \<noteq> []"
      "r = receipt_of now (fold_rows le rid (run_user run) (readCheckpoints rid s)) (parkHistory rid s)
         (filter (\<lambda>i. i \<noteq> []) (map (\<lambda>x. ac_request (normalize (sr_usage x))) (readCheckpoints rid s)))"
      "t = s\<lparr>t_receipts := t_receipts s @
         [\<lparr>rr_id = next_rowid (map rr_id (t_receipts s)), rr_run = rid, rr_user = run_user run,
           rr_receipt = r, rr_ts = now\<rparr>]\<rparr>"
proof (cases "existing_receipt rid s")
  case (Some x)
  with assms prior show thesis by (auto simp: MaterializeTx_def tx_simps)
next
  case None
  from assms None obtain run where run: "find_run rid s = Some run" and
    r: "r = receipt_of now (fold_rows le rid (run_user run) (readCheckpoints rid s)) (parkHistory rid s)
         (filter (\<lambda>i. i \<noteq> []) (map (\<lambda>x. ac_request (normalize (sr_usage x))) (readCheckpoints rid s)))" and
    ins: "insert_receipt r s = Inr ((), t)"
    by (auto simp: MaterializeTx_def RunConsumptionTx_def RequestIDsTx_def Let_def tx_simps)
  have f: "rc_run r = rid" "rc_user r = run_user run" "rc_ts r = now"
    using fold_rows_groups [of le rid "run_user run" "readCheckpoints rid s"]
      fold_rows_totals [of le rid "run_user run" "readCheckpoints rid s"] by (simp_all add: r receipt_of_def)
  show thesis
    using ins by (intro fresh [OF None run _ r]) (auto simp: insert_receipt_Inr f)
qed

end
