(* ===== verification/Pressure.thy ===== *)
theory Pressure
  imports Receipts Scheduler
begin

text \<open>
  \<open>internal/metering/pressure.go\<close> and \<open>budgets.go\<close>: the consumption-pressure gauge, the declared
  budgets and the pause switch; and these three plugged into the scheduler's interfaces, as the shell
  wires them.
\<close>

section \<open>The gauge\<close>

definition keyCacheReadWeight :: string where "keyCacheReadWeight = ''pressure.cache_read_weight''"
definition keyBgWindowFraction :: string where "keyBgWindowFraction = ''budget.background_window_fraction''"

record gauge_reading =
  gr_user :: string
  gr_lane :: string
  gr_tier :: approx_tier
  gr_consumption :: rat
  gr_weight :: rat
  gr_assumed :: bool
  gr_budget :: budget
  gr_pressure :: rat
  gr_background :: rat
  gr_applicable :: bool

definition row_weight :: "rat \<Rightarrow> accounting \<Rightarrow> rat" where
  "row_weight weight acc =
     fl (fl (fl (fl (of_int (PromptTokensPricedInput acc)) + fl (of_int (ac_cache_creation acc))) +
       fl (of_int (ac_output acc))) + fl (fl (of_int (ac_cache_read acc)) * weight))"

text \<open>The person's checkpoints, with the period's lower bound when one is pinned.\<close>

definition consumption_rows :: "string \<Rightarrow> (time \<Rightarrow> bool) \<Rightarrow> db \<Rightarrow> source_row list" where
  "consumption_rows user inperiod s = concat (map (\<lambda>c.
     case find_run (ck_run c) s of
       None \<Rightarrow> []
     | Some r \<Rightarrow> if run_user r = user \<and> inperiod (ck_created c) then [source_of (run_lane r) c] else [])
     (t_checkpoints s))"

definition period_filter :: "time \<Rightarrow> bool \<Rightarrow> time \<Rightarrow> bool" where
  "period_filter since pinned t \<longleftrightarrow> (pinned \<and> \<not> is_zero_time since \<longrightarrow> stamp_le since t)"

definition on_lane :: "string \<Rightarrow> source_row \<Rightarrow> bool" where
  "on_lane lane r \<longleftrightarrow> effectiveLane (sr_lane r) (sr_usage r) = lane"

definition weightedConsumption :: "string \<Rightarrow> string \<Rightarrow> time \<Rightarrow> bool \<Rightarrow> rat \<Rightarrow> db \<Rightarrow> rat" where
  "weightedConsumption user lane since pinned weight s =
     float_sum (map (\<lambda>r. row_weight weight (normalize (sr_usage r)))
       (filter (on_lane lane) (consumption_rows user (period_filter since pinned) s)))"

definition ReadGauge :: "settings \<Rightarrow> string \<Rightarrow> string \<Rightarrow> budget \<Rightarrow> db \<Rightarrow> error + gauge_reading" where
  "ReadGauge cfg user lane b s =
     (case read_float cfg keyCacheReadWeight of Inl e \<Rightarrow> Inl e | Inr weight \<Rightarrow>
     (case read_float cfg keyBgWindowFraction of Inl e \<Rightarrow> Inl e | Inr bgFraction \<Rightarrow>
       (let consumption = weightedConsumption user lane (bu_start b) (bu_declared b) weight s;
            applies = (bu_declared b \<and> bu_tokens b > 0)
        in Inr \<lparr>gr_user = user, gr_lane = lane, gr_tier = TierMeasured, gr_consumption = consumption,
             gr_weight = weight, gr_assumed = True, gr_budget = b,
             gr_pressure = (if applies then fl (consumption / fl (of_int (bu_tokens b))) else 0),
             gr_background = (if applies then fl (bgFraction * fl (of_int (bu_tokens b))) else 0),
             gr_applicable = applies\<rparr>)))"

section \<open>Budgets\<close>

definition budget_of_row :: "budget_row \<Rightarrow> budget" where
  "budget_of_row r = \<lparr>bu_tokens = bg_tokens r, bu_start = bg_start r, bu_declared = True\<rparr>"

definition find_budget :: "string \<Rightarrow> string \<Rightarrow> db \<Rightarrow> budget_row option" where
  "find_budget user lane s = tbl_find (\<lambda>r. bg_user r = user \<and> bg_lane r = lane) (t_budgets s)"

definition has_user :: "string \<Rightarrow> db \<Rightarrow> bool" where
  "has_user u s = list_ex (\<lambda>x. user_id x = u) (t_users s)"

text \<open>\<open>INSERT ... ON CONFLICT DO UPDATE\<close> of every column.\<close>

definition upsert :: "('a \<Rightarrow> bool) \<Rightarrow> 'a \<Rightarrow> 'a list \<Rightarrow> 'a list" where
  "upsert p row rows = (if list_ex p rows then tbl_update p (\<lambda>_. row) rows else rows @ [row])"

definition put_budget :: "budget_row \<Rightarrow> budget_row list \<Rightarrow> budget_row list" where
  "put_budget row = upsert (\<lambda>r. bg_user r = bg_user row \<and> bg_lane r = bg_lane row) row"

definition DeclareBudgetTx :: "budget_row \<Rightarrow> budget_row option dbtx" where
  "DeclareBudgetTx row =
     tx_bind (tx_read (has_user (bg_user row))) (\<lambda>known.
       if \<not> known then tx_fail (NoSuchPerson (bg_user row))
       else
         tx_bind (tx_read (find_budget (bg_user row) (bg_lane row))) (\<lambda>prior.
         tx_bind (tx_modify (\<lambda>s. s\<lparr>t_budgets := put_budget row (t_budgets s)\<rparr>)) (\<lambda>_.
         tx_return prior)))"

definition DeclareBudget :: "budget_row \<Rightarrow> db \<Rightarrow> (error + budget_row option) \<times> db" where
  "DeclareBudget row s =
     (if bg_user row = [] \<or> bg_lane row = [] \<or> bg_tokens row \<le> 0 \<or> bg_days row \<le> 0 \<or> bg_by row = []
      then (Inl (BadBudget (bg_user row) (bg_lane row)), s)
      else write_tx (DeclareBudgetTx
        (if is_zero_time (bg_start row) then row\<lparr>bg_start := bg_ts row\<rparr> else row)) s)"

definition BudgetFor :: "string \<Rightarrow> string \<Rightarrow> db \<Rightarrow> budget" where
  "BudgetFor user lane s =
     (case find_budget user lane s of None \<Rightarrow> UndeclaredBudget | Some r \<Rightarrow> budget_of_row r)"

section \<open>The pause switch\<close>

definition Paused :: "string \<Rightarrow> db \<Rightarrow> bool" where
  "Paused user s = (case tbl_find (\<lambda>x. user_id x = user) (t_users s) of
     None \<Rightarrow> False | Some x \<Rightarrow> user_paused x)"

definition SetPauseTx :: "string \<Rightarrow> bool \<Rightarrow> bool dbtx" where
  "SetPauseTx user paused =
     tx_bind (tx_some (\<lambda>s. tbl_find (\<lambda>x. user_id x = user) (t_users s)) (NoSuchPerson user)) (\<lambda>cur.
     tx_bind (tx_modify (\<lambda>s. s\<lparr>t_users :=
        tbl_update (\<lambda>x. user_id x = user) (\<lambda>x. x\<lparr>user_paused := paused\<rparr>) (t_users s)\<rparr>)) (\<lambda>_.
     tx_return (user_paused cur)))"

definition SetPause :: "string \<Rightarrow> bool \<Rightarrow> db \<Rightarrow> (error + bool) \<times> db" where
  "SetPause user paused = write_tx (SetPauseTx user paused)"

section \<open>The scheduler's readers\<close>

definition gauge_for_scheduler :: "gauge_reading \<Rightarrow> gauge" where
  "gauge_for_scheduler g = \<lparr>ga_applicable = gr_applicable g, ga_pressure = gr_pressure g\<rparr>"

text \<open>
  The scheduler with the metering stores behind its interfaces, as a pass over \<open>s\<close> reads them: its
  own transactions write none of the tables they read but the runs' states.
\<close>

definition metered_env :: "ledger_env \<Rightarrow> sched_env \<Rightarrow> db \<Rightarrow> sched_env" where
  "metered_env le se s = se\<lparr>
     se_receipts := Some (\<lambda>rid. tx_bind (MaterializeTx le (env_now (se_env se)) rid) (\<lambda>_. tx_return ())),
     se_pause := Some (\<lambda>u. Inr (Paused u s)),
     se_pressure := Some (\<lambda>u l b. case ReadGauge (env_settings (se_env se)) u l b s of
         Inl e \<Rightarrow> Inl e | Inr g \<Rightarrow> Inr (gauge_for_scheduler g)),
     se_budgets := Some (\<lambda>u l. Inr (BudgetFor u l s))\<rparr>"

section \<open>Lemmas\<close>

lemma tbl_find_update:
  assumes "tbl_find p rows = Some x" "\<And>y. p (f y)"
  shows "tbl_find p (tbl_update p f rows) = Some (f x)"
  using assms by (induction rows) (auto simp: tbl_find_def tbl_update_def)

lemma tbl_find_update_other:
  assumes "\<And>y. q y \<Longrightarrow> \<not> p y" "\<And>y. p y \<Longrightarrow> \<not> q (f y)"
  shows "tbl_find q (tbl_update p f rows) = tbl_find q rows"
  using assms by (induction rows) (auto simp: tbl_find_def tbl_update_def)

lemma tbl_find_update_same:
  assumes "tbl_find p rows = Some x" "\<And>y. p (f y) = p y"
  shows "tbl_find p (tbl_update p f rows) = Some (f x)"
proof -
  have "p (if p y then f y else y) = p y" for y using assms(2) by simp
  then have "tbl_find p (tbl_update p f rows) = map_option (\<lambda>y. if p y then f y else y) (tbl_find p rows)"
    unfolding tbl_update_def tbl_find_def by (induction rows) simp_all
  with assms(1) show ?thesis using tbl_find_Some [OF assms(1)] by simp
qed

lemma tbl_find_append:
  "tbl_find p (xs @ ys) = (case tbl_find p xs of None \<Rightarrow> tbl_find p ys | Some x \<Rightarrow> Some x)"
  by (induction xs) (auto simp: tbl_find_def)

lemma tbl_find_none: "\<not> list_ex p rows \<Longrightarrow> tbl_find p rows = None"
  by (auto simp: tbl_find_def find_None_iff list_ex_iff)

lemma upsert_find:
  assumes "p row"
  shows "tbl_find p (upsert p row rows) = Some row"
proof (cases "list_ex p rows")
  case True
  then obtain x where "tbl_find p rows = Some x"
    by (cases "tbl_find p rows") (auto simp: tbl_find_def find_None_iff list_ex_iff)
  from tbl_find_update [OF this, of "\<lambda>_. row"] True assms show ?thesis by (simp add: upsert_def)
next
  case False
  with assms show ?thesis by (simp add: upsert_def tbl_find_append tbl_find_none) (simp add: tbl_find_def)
qed

lemma upsert_other:
  assumes "\<And>y. q y \<Longrightarrow> \<not> p y" "\<not> q row"
  shows "tbl_find q (upsert p row rows) = tbl_find q rows"
  using assms
  by (auto simp: upsert_def tbl_find_append tbl_find_update_other tbl_find_def [of q "[row]"] split: option.splits)

lemma SetPause_Inr:
  "SetPause user paused s = (Inr prior, t) \<longleftrightarrow>
     (\<exists>x. tbl_find (\<lambda>x. user_id x = user) (t_users s) = Some x \<and> prior = user_paused x) \<and>
     t = s\<lparr>t_users := tbl_update (\<lambda>x. user_id x = user) (\<lambda>x. x\<lparr>user_paused := paused\<rparr>) (t_users s)\<rparr>"
  by (rule write_tx_cases [of "SetPauseTx user paused" s]) (auto simp: SetPause_def SetPauseTx_def tx_simps)

lemma Paused_SetPause:
  assumes "SetPause user paused s = (Inr prior, t)"
  shows "Paused u t = (if u = user then paused else Paused u s)" "prior = Paused user s"
proof -
  from assms obtain x where x: "tbl_find (\<lambda>x. user_id x = user) (t_users s) = Some x" "prior = user_paused x"
    and t: "t = s\<lparr>t_users := tbl_update (\<lambda>x. user_id x = user) (\<lambda>x. x\<lparr>user_paused := paused\<rparr>) (t_users s)\<rparr>"
    by (auto simp: SetPause_Inr)
  have "user_id x = user" using tbl_find_Some [OF x(1)] by simp
  have "tbl_find (\<lambda>x. user_id x = user) (t_users t) = Some (x\<lparr>user_paused := paused\<rparr>)"
    unfolding t by (simp add: tbl_find_update_same [OF x(1)])
  moreover have "u \<noteq> user \<Longrightarrow> tbl_find (\<lambda>x. user_id x = u) (t_users t) = tbl_find (\<lambda>x. user_id x = u) (t_users s)"
    unfolding t by (simp add: tbl_find_update_other)
  ultimately show "Paused u t = (if u = user then paused else Paused u s)" by (simp add: Paused_def)
  show "prior = Paused user s" using x by (simp add: Paused_def)
qed

lemma DeclareBudget_Inr:
  assumes "DeclareBudget row s = (Inr prior, t)"
  shows "prior = find_budget (bg_user row) (bg_lane row) s"
    "\<exists>row'. find_budget (bg_user row) (bg_lane row) t = Some row' \<and> bg_tokens row' = bg_tokens row \<and>
       bg_start row' = (if is_zero_time (bg_start row) then bg_ts row else bg_start row)"
    "(u, l) \<noteq> (bg_user row, bg_lane row) \<Longrightarrow> find_budget u l t = find_budget u l s"
    "0 < bg_tokens row" "has_user (bg_user row) s"
    "t_runs t = t_runs s \<and> t_checkpoints t = t_checkpoints s \<and> t_users t = t_users s"
proof -
  define row' where "row' = (if is_zero_time (bg_start row) then row\<lparr>bg_start := bg_ts row\<rparr> else row)"
  have key: "bg_user row' = bg_user row" "bg_lane row' = bg_lane row" "bg_tokens row' = bg_tokens row"
    "bg_start row' = (if is_zero_time (bg_start row) then bg_ts row else bg_start row)"
    by (simp_all add: row'_def)
  have ok: "0 < bg_tokens row" and tx: "DeclareBudgetTx row' s = Inr (prior, t)"
    using assms by (auto simp: DeclareBudget_def row'_def [symmetric] write_tx_def split: if_splits sum.splits)
  from tx have *: "has_user (bg_user row) s" "prior = find_budget (bg_user row) (bg_lane row) s"
    "t = s\<lparr>t_budgets := put_budget row' (t_budgets s)\<rparr>"
    by (auto simp: DeclareBudgetTx_def tx_simps key split: if_splits)
  have "tbl_find (\<lambda>r. bg_user r = bg_user row \<and> bg_lane r = bg_lane row) (put_budget row' rows) = Some row'" for rows
    unfolding put_budget_def key by (rule upsert_find) (simp add: key)
  then show "\<exists>row'. find_budget (bg_user row) (bg_lane row) t = Some row' \<and> bg_tokens row' = bg_tokens row \<and>
       bg_start row' = (if is_zero_time (bg_start row) then bg_ts row else bg_start row)"
    using *(3) key by (auto simp: find_budget_def)
  have "tbl_find (\<lambda>r. bg_user r = u \<and> bg_lane r = l) (put_budget row' rows) =
      tbl_find (\<lambda>r. bg_user r = u \<and> bg_lane r = l) rows" if "(u, l) \<noteq> (bg_user row, bg_lane row)" for rows
    unfolding put_budget_def by (rule upsert_other) (use that in \<open>auto simp: key\<close>)
  then show "(u, l) \<noteq> (bg_user row, bg_lane row) \<Longrightarrow> find_budget u l t = find_budget u l s"
    using *(3) by (simp add: find_budget_def)
  show "prior = find_budget (bg_user row) (bg_lane row) s" "0 < bg_tokens row" "has_user (bg_user row) s"
    "t_runs t = t_runs s \<and> t_checkpoints t = t_checkpoints s \<and> t_users t = t_users s"
    using * ok by simp_all
qed

lemma DeclareBudget_frame:
  "DeclareBudget row s = (Inr prior, t) \<Longrightarrow> \<exists>rows. t = s\<lparr>t_budgets := rows\<rparr>"
  by (auto simp: DeclareBudget_def DeclareBudgetTx_def write_tx_def tx_simps split: if_splits sum.splits)

end
