(* ===== verification/Plan_Units.thy ===== *)
theory Plan_Units
  imports Pressure
begin

text \<open>
  \<open>internal/metering/planunits.go\<close> and \<open>planbudgets.go\<close>: the plan documents of the flat-rate lanes
  (their charging multipliers, allowance windows and shared pools, and the gates a document passes), the
  plan budgets a person declares, and the reading that charges a person's requests against one.

  A document is taken as \<open>encoding/json\<close> decoded it; the directory the documents are embedded from is a
  list of paths, with \<open>None\<close> for a file that does not decode.  The members no function of the package reads (the notes
  on resets, monthly pools and tiers) are left out.  The sentences of a refusal are represented by a
  constructor.
\<close>

section \<open>Documents\<close>

record plan_multiplier =
  pm_name :: string
  pm_factor :: rat
  pm_days :: "string list"
  pm_from :: int
  pm_to :: int
  pm_offset :: int
  pm_default :: bool
  pm_verified :: string

record plan_quota =
  pq_name :: string
  pq_unit :: string
  pq_units :: rat
  pq_hours :: rat
  pq_unverified :: bool
  pq_verified :: string

record plan_doc =
  pd_lane :: string
  pd_plan :: string
  pd_unit :: string
  pd_assumed :: string
  pd_verified :: string
  pd_source :: string
  pd_pool :: string
  pd_pool_lanes :: "string list"
  pd_pool_note :: string
  pd_multipliers :: "plan_multiplier list"
  pd_quotas :: "plan_quota list"

definition CountsLane :: "plan_doc \<Rightarrow> string \<Rightarrow> bool" where
  "CountsLane d lane \<longleftrightarrow> lane = pd_lane d \<or> list_ex (\<lambda>m. m = lane) (pd_pool_lanes d)"

definition poolMembers :: "plan_doc \<Rightarrow> string list" where
  "poolMembers d = (if pd_pool d = [] then []
     else pd_lane d # filter (\<lambda>m. m \<noteq> pd_lane d) (pd_pool_lanes d))"

definition Quota :: "plan_doc \<Rightarrow> string \<Rightarrow> plan_quota option" where
  "Quota d name = find (\<lambda>q. pq_name q = name) (pd_quotas d)"

definition QuotaUnit :: "plan_doc \<Rightarrow> string \<Rightarrow> string" where
  "QuotaUnit d name = (case Quota d name of
      Some q \<Rightarrow> if pq_unit q \<noteq> [] then pq_unit q else pd_unit d
    | None \<Rightarrow> pd_unit d)"

record plan_window =
  pw_name :: string
  pw_unit :: string
  pw_allowance :: rat
  pw_hours :: rat
  pw_unverified :: bool

definition plan_windows :: "plan_doc \<Rightarrow> plan_window list" where
  "plan_windows d = map (\<lambda>q. \<lparr>pw_name = pq_name q, pw_unit = QuotaUnit d (pq_name q),
     pw_allowance = pq_units q, pw_hours = pq_hours q, pw_unverified = pq_unverified q\<rparr>) (pd_quotas d)"

subsection \<open>Dates\<close>

text \<open>\<open>time.Parse("2006-01-02", on)\<close> succeeds.\<close>

definition is_leap :: "int \<Rightarrow> bool" where
  "is_leap y \<longleftrightarrow> y mod 4 = 0 \<and> (y mod 100 \<noteq> 0 \<or> y mod 400 = 0)"

definition days_in :: "int \<Rightarrow> int \<Rightarrow> int" where
  "days_in m y = (if m = 2 then (if is_leap y then 29 else 28)
     else if m \<in> {4, 6, 9, 11} then 30 else 31)"

definition valid_date :: "string \<Rightarrow> bool" where
  "valid_date s \<longleftrightarrow> length s = 10 \<and> list_all is_digit (take 4 s) \<and>
     s ! 4 = CHR ''-'' \<and> s ! 7 = CHR ''-'' \<and>
     list_all is_digit [s ! 5, s ! 6, s ! 8, s ! 9] \<and>
     (let digit = (\<lambda>i. int (of_char (s ! i)) - 48);
          y = digit 0 * 1000 + digit 1 * 100 + digit 2 * 10 + digit 3;
          m = digit 5 * 10 + digit 6; d = digit 8 * 10 + digit 9
      in 1 \<le> m \<and> m \<le> 12 \<and> 1 \<le> d \<and> d \<le> days_in m y)"

subsection \<open>The gates of a document\<close>

definition multiplier_ok :: "plan_multiplier \<Rightarrow> bool" where
  "multiplier_ok m \<longleftrightarrow> pm_name m \<noteq> [] \<and> 0 < pm_factor m \<and> valid_date (pm_verified m) \<and>
     (\<not> pm_default m \<longrightarrow> 0 \<le> pm_from m \<and> pm_to m \<le> 24 \<and> pm_from m < pm_to m)"

fun quotas_ok :: "plan_quota list \<Rightarrow> string list \<Rightarrow> bool" where
  "quotas_ok [] seen \<longleftrightarrow> True"
| "quotas_ok (q # qs) seen \<longleftrightarrow> pq_name q \<noteq> [] \<and> \<not> list_ex (\<lambda>n. n = pq_name q) seen \<and>
     \<not> (pq_units q \<le> 0 \<and> \<not> pq_unverified q) \<and> \<not> (pq_units q > 0 \<and> pq_unverified q) \<and>
     0 < pq_hours q \<and> valid_date (pq_verified q) \<and> quotas_ok qs (pq_name q # seen)"

fun members_ok :: "string list \<Rightarrow> string list \<Rightarrow> bool" where
  "members_ok [] seen \<longleftrightarrow> True"
| "members_ok (m # ms) seen \<longleftrightarrow> m \<noteq> [] \<and> \<not> list_ex (\<lambda>n. n = m) seen \<and> members_ok ms (m # seen)"

definition validatePool :: "plan_doc \<Rightarrow> bool" where
  "validatePool d \<longleftrightarrow>
     (if pd_pool d = [] then pd_pool_lanes d = []
      else 2 \<le> length (pd_pool_lanes d) \<and> pd_pool_note d \<noteq> [] \<and> members_ok (pd_pool_lanes d) [] \<and>
           list_ex (\<lambda>m. m = pd_lane d) (pd_pool_lanes d))"

definition plan_doc_ok :: "plan_doc \<Rightarrow> bool" where
  "plan_doc_ok d \<longleftrightarrow> pd_lane d \<noteq> [] \<and> pd_unit d \<noteq> [] \<and> pd_assumed d \<noteq> [] \<and> pd_quotas d \<noteq> [] \<and>
     pd_multipliers d \<noteq> [] \<and> valid_date (pd_verified d) \<and> list_all multiplier_ok (pd_multipliers d) \<and>
     length (filter pm_default (pd_multipliers d)) = 1 \<and> quotas_ok (pd_quotas d) [] \<and> validatePool d"

subsection \<open>The directory\<close>

type_synonym plan_files = "(string \<times> plan_doc option) list"

text \<open>The lanes already counted, each with the path of the document that counts it.\<close>

fun claim_lanes :: "string \<Rightarrow> string list \<Rightarrow> (string \<rightharpoonup> string) \<Rightarrow> (string \<rightharpoonup> string) option" where
  "claim_lanes path [] byLane = Some byLane"
| "claim_lanes path (m # ms) byLane = (case byLane m of
      Some first \<Rightarrow> if first \<noteq> path then None else claim_lanes path ms (byLane(m \<mapsto> path))
    | None \<Rightarrow> claim_lanes path ms (byLane(m \<mapsto> path)))"

fun load_docs :: "plan_files \<Rightarrow> (string \<rightharpoonup> string) \<Rightarrow> error + plan_doc list" where
  "load_docs [] byLane = Inr []"
| "load_docs ((path, entry) # files) byLane =
     (if \<not> ends_with ''.json'' path then load_docs files byLane
      else case entry of
        None \<Rightarrow> Inl (ErrPlanDoc path)
      | Some d \<Rightarrow>
          if \<not> plan_doc_ok d then Inl (ErrPlanDoc (pd_lane d))
          else case claim_lanes path (poolMembers d @ [pd_lane d]) byLane of
            None \<Rightarrow> Inl (ErrPlanDoc (pd_lane d))
          | Some byLane' \<Rightarrow> (case load_docs files byLane' of
              Inl e \<Rightarrow> Inl e | Inr ds \<Rightarrow> Inr (d # ds)))"

definition loadPlanDocs :: "plan_files \<Rightarrow> error + plan_doc list" where
  "loadPlanDocs files = (case load_docs files Map.empty of
      Inl e \<Rightarrow> Inl e
    | Inr ds \<Rightarrow> if ds = [] then Inl (ErrPlanDoc []) else Inr (sort_key pd_lane ds))"

definition PlanDocFor :: "plan_files \<Rightarrow> string \<Rightarrow> plan_doc option" where
  "PlanDocFor files lane = (case loadPlanDocs files of
      Inl e \<Rightarrow> None
    | Inr ds \<Rightarrow> find (\<lambda>d. CountsLane d lane) ds)"

definition PoolBudgetLane :: "plan_files \<Rightarrow> string \<Rightarrow> string" where
  "PoolBudgetLane files lane = (case PlanDocFor files lane of
      None \<Rightarrow> lane
    | Some d \<Rightarrow> if pd_pool d = [] then lane else pd_lane d)"

section \<open>Refusals\<close>

datatype plan_refusal =
    PoolDeclaredElsewhere string
  | NoSuchWindow string
  | WindowUnitDiffers string
  | PeriodEnded

definition PlanPoolRefusal :: "plan_doc \<Rightarrow> string \<Rightarrow> plan_refusal option" where
  "PlanPoolRefusal d lane =
     (if pd_pool d = [] \<or> lane = pd_lane d \<or> \<not> CountsLane d lane then None
      else Some (PoolDeclaredElsewhere (pd_lane d)))"

definition PlanBudgetWindowRefusal :: "plan_doc \<Rightarrow> string \<Rightarrow> plan_refusal option" where
  "PlanBudgetWindowRefusal d w = (case Quota d w of
      None \<Rightarrow> Some (NoSuchWindow w)
    | Some q \<Rightarrow> if QuotaUnit d (pq_name q) \<noteq> pd_unit d then Some (WindowUnitDiffers w) else None)"

section \<open>Rates\<close>

definition weekday_names :: "string list" where
  "weekday_names = [''Mon'', ''Tue'', ''Wed'', ''Thu'', ''Fri'', ''Sat'', ''Sun'']"

text \<open>The zero instant, 1 January of year 1, is a Monday.\<close>

definition weekday :: "time \<Rightarrow> string" where
  "weekday t = weekday_names ! nat (day_of t mod 7)"

definition hour_of :: "time \<Rightarrow> int" where
  "hour_of t = (t mod day_length) div (3600 * second)"

definition covers :: "plan_multiplier \<Rightarrow> time \<Rightarrow> bool" where
  "covers m t =
     (let loc = t + pm_offset m * 60 * second
      in (pm_days m \<noteq> [] \<longrightarrow> list_ex (\<lambda>d. to_lower d = to_lower (weekday loc)) (pm_days m)) \<and>
         pm_from m \<le> hour_of loc \<and> hour_of loc < pm_to m)"

definition MultiplierAt :: "plan_doc \<Rightarrow> time \<Rightarrow> rat \<times> string" where
  "MultiplierAt d t = (case find (\<lambda>m. \<not> pm_default m \<and> covers m t) (pd_multipliers d) of
      Some m \<Rightarrow> (pm_factor m, pm_name m)
    | None \<Rightarrow> (case find pm_default (pd_multipliers d) of
        Some m \<Rightarrow> (pm_factor m, pm_name m)
      | None \<Rightarrow> (1, [])))"

definition StandardMultiplier :: "plan_doc \<Rightarrow> rat" where
  "StandardMultiplier d =
     (let standard = foldl (\<lambda>best m. if pm_factor m > best then pm_factor m else best) 0 (pd_multipliers d)
      in if standard = 0 then 1 else standard)"

section \<open>Plan budgets\<close>

record plan_budget =
  pl_units :: rat
  pl_start :: time
  pl_hours :: rat
  pl_declared :: bool
  pl_lane :: string
  pl_seeded :: string
  pl_fraction :: rat

definition UndeclaredPlanBudget :: plan_budget where
  "UndeclaredPlanBudget = \<lparr>pl_units = 0, pl_start = 0, pl_hours = 0, pl_declared = False,
     pl_lane = [], pl_seeded = [], pl_fraction = 0\<rparr>"

definition PlanBudgetProposalSeeded :: string where "PlanBudgetProposalSeeded = ''proposal-seeded''"
definition PlanBudgetOperatorSet :: string where "PlanBudgetOperatorSet = ''operator-set''"

definition row_budget :: "plan_budget_row \<Rightarrow> plan_budget" where
  "row_budget r = \<lparr>pl_units = pb_units r, pl_start = pb_start r, pl_hours = pb_hours r,
     pl_declared = True, pl_lane = pb_lane r, pl_seeded = pb_window r, pl_fraction = pb_fraction r\<rparr>"

definition plan_key :: "string \<Rightarrow> string \<Rightarrow> string \<Rightarrow> plan_budget_row \<Rightarrow> bool" where
  "plan_key user lane w r \<longleftrightarrow> pb_user r = user \<and> pb_lane r = lane \<and> pb_window r = w"

definition readPlanBudget :: "string \<Rightarrow> string \<Rightarrow> string \<Rightarrow> db \<Rightarrow> plan_budget_row option" where
  "readPlanBudget user lane w s = tbl_find (plan_key user lane w) (t_plan_budgets s)"

definition DeclarePlanTx :: "plan_budget_row \<Rightarrow> plan_budget_row option dbtx" where
  "DeclarePlanTx row =
     tx_bind (tx_read (has_user (pb_user row))) (\<lambda>known.
       if \<not> known then tx_fail (NoSuchPerson (pb_user row))
       else
         tx_bind (tx_read (readPlanBudget (pb_user row) (pb_lane row) (pb_window row))) (\<lambda>prior.
         tx_bind (tx_modify (\<lambda>s. s\<lparr>t_plan_budgets :=
           upsert (plan_key (pb_user row) (pb_lane row) (pb_window row)) row (t_plan_budgets s)\<rparr>)) (\<lambda>_.
         tx_return prior)))"

definition plan_row_ok :: "plan_budget_row \<Rightarrow> bool" where
  "plan_row_ok r \<longleftrightarrow> pb_user r \<noteq> [] \<and> pb_lane r \<noteq> [] \<and> pb_window r \<noteq> [] \<and> 0 < pb_units r \<and>
     0 < pb_hours r \<and> pb_unit r \<noteq> [] \<and> pb_by r \<noteq> [] \<and> \<not> is_zero_time (pb_ts r) \<and>
     (pb_source r = PlanBudgetProposalSeeded \<or> pb_source r = PlanBudgetOperatorSet)"

definition DeclarePlan ::
  "plan_files \<Rightarrow> plan_budget_row \<Rightarrow> db \<Rightarrow> (error + plan_budget_row option) \<times> db" where
  "DeclarePlan files row s =
     (let refused = PlanBudgetRefused (pb_user row) (pb_lane row) (pb_window row) in
      if \<not> plan_row_ok row then (Inl refused, s)
      else case PlanDocFor files (pb_lane row) of
        None \<Rightarrow> (Inl (NotAPlanLane (pb_lane row)), s)
      | Some d \<Rightarrow>
          if PlanPoolRefusal d (pb_lane row) \<noteq> None \<or> PlanBudgetWindowRefusal d (pb_window row) \<noteq> None \<or>
             pb_unit row \<noteq> QuotaUnit d (pb_window row)
          then (Inl refused, s)
          else write_tx (DeclarePlanTx
            (if is_zero_time (pb_start row) then row\<lparr>pb_start := pb_ts row\<rparr> else row)) s)"

definition PlanRows :: "string \<Rightarrow> string \<Rightarrow> db \<Rightarrow> plan_budget_row list" where
  "PlanRows user lane s =
     sort_key pb_window (filter (\<lambda>r. pb_user r = user \<and> pb_lane r = lane) (t_plan_budgets s))"

definition PlanBudgetFor :: "plan_files \<Rightarrow> string \<Rightarrow> string \<Rightarrow> string \<Rightarrow> db \<Rightarrow> plan_budget" where
  "PlanBudgetFor files user lane w s =
     (case readPlanBudget user (PoolBudgetLane files lane) w s of
        None \<Rightarrow> UndeclaredPlanBudget | Some r \<Rightarrow> row_budget r)"

text \<open>The conversion of hours to a duration: out of the range of 64 bits, the least integer.\<close>

definition hours_duration :: "rat \<Rightarrow> duration" where
  "hours_duration h = (let n = trunc (fl (h * 3600000000000))
     in if - (2 ^ 63) \<le> n \<and> n < 2 ^ 63 then n else - (2 ^ 63))"

definition planPeriodEnded :: "plan_budget \<Rightarrow> time \<Rightarrow> bool" where
  "planPeriodEnded b now \<longleftrightarrow>
     \<not> (is_zero_time (pl_start b) \<or> pl_hours b \<le> 0 \<or> is_zero_time now) \<and>
     now > pl_start b + hours_duration (pl_hours b)"

definition ProposePlanBudget :: "settings \<Rightarrow> plan_doc \<Rightarrow> string \<Rightarrow> time \<Rightarrow> error + plan_budget" where
  "ProposePlanBudget cfg d quota start = (case Quota d quota of
      None \<Rightarrow> Inl (ErrPlanDoc (pd_lane d))
    | Some q \<Rightarrow>
        if pq_unverified q then Inl (ErrPlanDoc (pd_lane d))
        else case read_float cfg keyBgWindowFraction of
          Inl e \<Rightarrow> Inl e
        | Inr fraction \<Rightarrow> Inr \<lparr>pl_units = fl (pq_units q * fraction), pl_start = start,
            pl_hours = pq_hours q, pl_declared = True, pl_lane = [], pl_seeded = pq_name q,
            pl_fraction = fraction\<rparr>)"

section \<open>The reading\<close>

text \<open>
  What one request charges: nothing outside the period, the rate at its own instant inside, and the
  standard rate when its stamp cannot be read (\<open>None\<close>).
\<close>

definition charge_at :: "plan_doc \<Rightarrow> time \<Rightarrow> bool \<Rightarrow> time \<Rightarrow> time option \<Rightarrow> rat option" where
  "charge_at d since pinned now at_time = (case at_time of
      None \<Rightarrow> Some (StandardMultiplier d)
    | Some t \<Rightarrow>
        if pinned \<and> \<not> is_zero_time since \<and> t < since then None
        else if \<not> is_zero_time now \<and> t > now then None
        else Some (fst (MultiplierAt d t)))"

definition plan_rows :: "string \<Rightarrow> plan_doc \<Rightarrow> db \<Rightarrow> source_row list" where
  "plan_rows user d s =
     filter (\<lambda>r. CountsLane d (effectiveLane (sr_lane r) (sr_usage r))) (consumption_rows user (\<lambda>_. True) s)"

definition planUnits :: "string \<Rightarrow> plan_doc \<Rightarrow> time \<Rightarrow> bool \<Rightarrow> time \<Rightarrow> db \<Rightarrow> int \<times> rat" where
  "planUnits user d since pinned now s =
     foldl (\<lambda>(calls, consumed) r. case charge_at d since pinned now (Some (sr_created r)) of
         None \<Rightarrow> (calls, consumed)
       | Some factor \<Rightarrow> (calls + 1, fl (consumed + factor))) (0, 0) (plan_rows user d s)"

record plan_reading =
  pg_user :: string
  pg_lane :: string
  pg_plan :: string
  pg_unit :: string
  pg_tier :: approx_tier
  pg_assumed :: string
  pg_verified :: string
  pg_source :: string
  pg_seed :: "(string \<times> rat \<times> rat) option"
  pg_budget :: plan_budget
  pg_calls :: int
  pg_consumed :: rat
  pg_multiplier :: rat
  pg_multiplier_window :: string
  pg_windows :: "plan_window list"
  pg_pool :: string
  pg_pool_lanes :: "string list"
  pg_pressure :: rat
  pg_background :: rat
  pg_applicable :: bool
  pg_refusal :: "plan_refusal option"

definition budget_refusal :: "plan_doc \<Rightarrow> plan_budget \<Rightarrow> time \<Rightarrow> plan_refusal option" where
  "budget_refusal d b now =
     (if PlanPoolRefusal d (pl_lane b) \<noteq> None then PlanPoolRefusal d (pl_lane b)
      else if PlanBudgetWindowRefusal d (pl_seeded b) \<noteq> None then PlanBudgetWindowRefusal d (pl_seeded b)
      else if planPeriodEnded b now then Some PeriodEnded else None)"

definition ReadPlanUnits ::
  "settings \<Rightarrow> string \<Rightarrow> string \<Rightarrow> plan_doc \<Rightarrow> plan_budget \<Rightarrow> time \<Rightarrow> db \<Rightarrow> error + plan_reading" where
  "ReadPlanUnits cfg user lane d b now s = (case read_float cfg keyBgWindowFraction of
      Inl e \<Rightarrow> Inl e
    | Inr bgFraction \<Rightarrow>
        (let (calls, consumed) = planUnits user d (pl_start b) (pl_declared b) now s;
             (factor, window) = MultiplierAt d now;
             denominates = (pl_declared b \<and> pl_units b > 0);
             refusal = (if denominates then budget_refusal d b now else None);
             applies = (denominates \<and> refusal = None)
         in Inr \<lparr>pg_user = user, pg_lane = lane, pg_plan = pd_plan d, pg_unit = pd_unit d,
              pg_tier = TierDerived, pg_assumed = pd_assumed d, pg_verified = pd_verified d,
              pg_source = pd_source d,
              pg_seed = map_option (\<lambda>q. (pq_name q, pq_units q, pq_hours q)) (Quota d (pl_seeded b)),
              pg_budget = b, pg_calls = calls, pg_consumed = consumed, pg_multiplier = factor,
              pg_multiplier_window = window, pg_windows = plan_windows d, pg_pool = pd_pool d,
              pg_pool_lanes = poolMembers d,
              pg_pressure = (if applies then fl (consumed / pl_units b) else 0),
              pg_background = (if applies then fl (bgFraction * pl_units b) else 0),
              pg_applicable = applies, pg_refusal = refusal\<rparr>))"

section \<open>Documents of a directory\<close>

lemma members_counted: "CountsLane d lane \<longleftrightarrow> lane = pd_lane d \<or> lane \<in> set (pd_pool_lanes d)"
  by (auto simp: CountsLane_def list_ex_iff)

text \<open>A valid document counts exactly the lanes the directory walk claims for it.\<close>

lemma claimed_lanes:
  "plan_doc_ok d \<Longrightarrow> set (poolMembers d @ [pd_lane d]) = {l. CountsLane d l}"
  by (auto simp: members_counted poolMembers_def plan_doc_ok_def validatePool_def split: if_splits)

lemma claim_lanes_Some:
  "claim_lanes path ms byLane = Some b \<Longrightarrow>
     (\<forall>m\<in>set ms. byLane m = None \<or> byLane m = Some path) \<and>
     b = (\<lambda>l. if l \<in> set ms then Some path else byLane l)"
proof (induction ms arbitrary: byLane)
  case Nil
  then show ?case by simp
next
  case (Cons m ms)
  then have *: "byLane m = None \<or> byLane m = Some path" "claim_lanes path ms (byLane(m \<mapsto> path)) = Some b"
    by (auto split: option.splits if_splits)
  from Cons.IH [OF this(2)] have
    ih: "\<forall>x\<in>set ms. (byLane(m \<mapsto> path)) x = None \<or> (byLane(m \<mapsto> path)) x = Some path"
    and b: "b = (\<lambda>l. if l \<in> set ms then Some path else (byLane(m \<mapsto> path)) l)" by blast+
  have "byLane x = None \<or> byLane x = Some path" if "x \<in> set (m # ms)" for x
    using ih *(1) that by (cases "x = m") fastforce+
  with b show ?case by auto
qed

lemma claim_lanes_counted:
  assumes "claim_lanes path (poolMembers d @ [pd_lane d]) byLane = Some b" "plan_doc_ok d"
  shows "CountsLane d l \<Longrightarrow> byLane l = None \<or> byLane l = Some path"
    "b l = (if CountsLane d l then Some path else byLane l)"
proof -
  from claim_lanes_Some [OF assms(1)]
  have "\<forall>m\<in>{l. CountsLane d l}. byLane m = None \<or> byLane m = Some path"
    "b = (\<lambda>l. if l \<in> {l. CountsLane d l} then Some path else byLane l)"
    unfolding claimed_lanes [OF assms(2)] by blast+
  then show "CountsLane d l \<Longrightarrow> byLane l = None \<or> byLane l = Some path"
    "b l = (if CountsLane d l then Some path else byLane l)" by simp_all
qed

lemma load_docs_ok: "load_docs files byLane = Inr ds \<Longrightarrow> d \<in> set ds \<Longrightarrow> plan_doc_ok d"
  by (induction files byLane arbitrary: ds rule: load_docs.induct)
     (auto split: if_splits option.splits sum.splits)

lemma load_docs_free:
  assumes "load_docs files byLane = Inr ds" "distinct (map fst files)"
    and "\<And>l p. byLane l = Some p \<Longrightarrow> p \<notin> fst ` set files" and "d \<in> set ds" "CountsLane d l"
  shows "byLane l = None"
  using assms
proof (induction files byLane arbitrary: ds rule: load_docs.induct)
  case (1 byLane)
  then show ?case by simp
next
  case (2 path entry files byLane)
  show ?case
  proof (cases "ends_with ''.json'' path")
    case False
    with 2 show ?thesis by (auto simp: image_iff)
  next
    case True
    with 2(3) obtain x b ds' where x: "entry = Some x" "plan_doc_ok x"
      and b: "claim_lanes path (poolMembers x @ [pd_lane x]) byLane = Some b"
      and ds: "load_docs files b = Inr ds'" "ds = x # ds'"
      by (auto split: if_splits option.splits sum.splits)
    have unclaimed: "byLane l \<noteq> Some path" using 2(5) by auto
    note counted = claim_lanes_counted [OF b x(2)]
    have claimed: "b l' = Some p \<Longrightarrow> p = path \<or> byLane l' = Some p" for l' p
      by (auto simp: counted(2) split: if_splits)
    show ?thesis
    proof (cases "d \<in> set ds'")
      case True
      have "b l = None"
        using 2(4,5) claimed by (intro "2.IH"(2) [OF _ x(1) _ b ds(1) _ _ True 2(7)]) (auto simp: x \<open>ends_with _ path\<close> dest!: claimed)
      then show ?thesis by (simp add: counted(2) split: if_splits)
    next
      case False
      then have "d = x" using 2(6) ds by simp
      then show ?thesis using counted(1) 2(7) unclaimed by auto
    qed
  qed
qed

text \<open>No lane is counted by two documents.\<close>

lemma load_docs_disjoint:
  assumes "load_docs files byLane = Inr ds" "distinct (map fst files)"
    and "\<And>l p. byLane l = Some p \<Longrightarrow> p \<notin> fst ` set files"
    and "d \<in> set ds" "d' \<in> set ds" "CountsLane d l" "CountsLane d' l"
  shows "d = d'"
  using assms
proof (induction files byLane arbitrary: ds rule: load_docs.induct)
  case (1 byLane)
  then show ?case by simp
next
  case (2 path entry files byLane)
  show ?case
  proof (cases "ends_with ''.json'' path")
    case False
    with 2 show ?thesis by (auto simp: image_iff)
  next
    case True
    with 2(3) obtain x b ds' where x: "entry = Some x" "plan_doc_ok x"
      and b: "claim_lanes path (poolMembers x @ [pd_lane x]) byLane = Some b"
      and ds: "load_docs files b = Inr ds'" "ds = x # ds'"
      by (auto split: if_splits option.splits sum.splits)
    have fresh: "p \<notin> fst ` set files" if "b l' = Some p" for l' p
      using that claim_lanes_counted(2) [OF b x(2)] 2(4,5) by (auto split: if_splits)
    have d: "distinct (map fst files)" using 2(4) by simp
    have apart: "\<not> CountsLane y l" if "y \<in> set ds'" "CountsLane x l" for y
      using load_docs_free [OF ds(1) d _ that(1), of l] fresh claim_lanes_counted(2) [OF b x(2), of l] that(2)
      by auto
    have "d \<in> set ds' \<Longrightarrow> d' \<in> set ds' \<Longrightarrow> d = d'"
      by (rule "2.IH"(2) [OF _ x(1) _ b ds(1) d _ _ _ 2(8,9)]) (use x(2) True fresh in auto)
    with apart 2(6-9) ds(2) show ?thesis by auto
  qed
qed

lemma PlanDocFor_Some:
  assumes "PlanDocFor files lane = Some d"
  shows "plan_doc_ok d" "CountsLane d lane"
proof -
  from assms obtain ds where ds: "load_docs files Map.empty = Inr ds"
    "find (\<lambda>d. CountsLane d lane) (sort_key pd_lane ds) = Some d"
    by (auto simp: PlanDocFor_def loadPlanDocs_def split: sum.splits if_splits)
  then have "d \<in> set ds" "CountsLane d lane" by (auto simp: find_Some_iff) (metis nth_mem set_sort length_sort)
  with load_docs_ok [OF ds(1)] show "plan_doc_ok d" "CountsLane d lane" by auto
qed

text \<open>Every lane a document counts resolves to that document.\<close>

lemma PlanDocFor_member:
  assumes "PlanDocFor files lane = Some d" "CountsLane d l" "distinct (map fst files)"
  shows "PlanDocFor files l = Some d"
proof -
  from assms(1) obtain ds where load: "load_docs files Map.empty = Inr ds" "ds \<noteq> []"
    "find (\<lambda>d. CountsLane d lane) (sort_key pd_lane ds) = Some d"
    by (auto simp: PlanDocFor_def loadPlanDocs_def split: sum.splits if_splits)
  then have d: "d \<in> set ds" by (auto simp: find_Some_iff) (metis nth_mem set_sort length_sort)
  have "\<exists>d'. find (\<lambda>d. CountsLane d l) (sort_key pd_lane ds) = Some d'"
    using d assms(2) by (metis find_None_iff not_Some_eq set_sort)
  then obtain d' where f: "find (\<lambda>d. CountsLane d l) (sort_key pd_lane ds) = Some d'" by blast
  then have "d' \<in> set ds" "CountsLane d' l" by (auto simp: find_Some_iff) (metis nth_mem set_sort length_sort)
  with load_docs_disjoint [OF load(1) assms(3) _ _ d _ assms(2), of d'] have "d' = d" by simp
  with f load show ?thesis by (simp add: PlanDocFor_def loadPlanDocs_def)
qed

lemma PoolBudgetLane_member:
  assumes "PlanDocFor files lane = Some d" "CountsLane d l" "distinct (map fst files)"
    and "PlanPoolRefusal d lane = None"
  shows "PoolBudgetLane files l = lane"
proof -
  have "plan_doc_ok d" "CountsLane d lane" using PlanDocFor_Some [OF assms(1)] .
  then show ?thesis
    using PlanDocFor_member [OF assms(1-3)] assms(2,4)
    by (auto simp: PoolBudgetLane_def PlanPoolRefusal_def plan_doc_ok_def validatePool_def members_counted
        split: if_splits)
qed

section \<open>Rates\<close>

lemma fold_max_ge:
  fixes f :: "'a \<Rightarrow> rat"
  shows "b \<le> foldl (\<lambda>best m. if f m > best then f m else best) b ms \<and>
    (\<forall>m\<in>set ms. f m \<le> foldl (\<lambda>best m. if f m > best then f m else best) b ms)"
  by (induction ms arbitrary: b) (auto, (meson less_le_not_le linorder_not_le order.trans)+)

lemma find_in_set: "find P xs = Some x \<Longrightarrow> x \<in> set xs \<and> P x"
  by (induction xs) (auto split: if_splits)

text \<open>Every instant has a rate, that of a row of the document: positive and at most the standard one.\<close>

lemma MultiplierAt_row:
  assumes "plan_doc_ok d"
  shows "\<exists>m\<in>set (pd_multipliers d). MultiplierAt d t = (pm_factor m, pm_name m) \<and> (pm_default m \<or> covers m t)"
proof -
  obtain m where "find pm_default (pd_multipliers d) = Some m"
    using assms unfolding plan_doc_ok_def
    by (metis find_None_iff filter_False length_0_conv zero_neq_one not_None_eq)
  then show ?thesis
    by (auto simp: MultiplierAt_def split: option.splits dest!: find_in_set)
qed

lemma MultiplierAt_bounds:
  assumes "plan_doc_ok d"
  shows "0 < fst (MultiplierAt d t)" "fst (MultiplierAt d t) \<le> StandardMultiplier d"
proof -
  obtain m where m: "m \<in> set (pd_multipliers d)" "fst (MultiplierAt d t) = pm_factor m"
    using MultiplierAt_row [OF assms, of t] by auto
  moreover have "list_all multiplier_ok (pd_multipliers d)" using assms by (simp add: plan_doc_ok_def)
  ultimately have pos: "0 < pm_factor m" by (auto simp: list_all_iff multiplier_ok_def)
  then show "0 < fst (MultiplierAt d t)" using m by simp
  show "fst (MultiplierAt d t) \<le> StandardMultiplier d"
    using fold_max_ge [where f = pm_factor and b = 0 and ms = "pd_multipliers d"] m pos
    by (fastforce simp: StandardMultiplier_def Let_def)
qed

section \<open>What a reading sums\<close>

definition in_plan_period :: "time \<Rightarrow> bool \<Rightarrow> time \<Rightarrow> time \<Rightarrow> bool" where
  "in_plan_period since pinned now t \<longleftrightarrow>
     \<not> (pinned \<and> \<not> is_zero_time since \<and> t < since) \<and> \<not> (\<not> is_zero_time now \<and> t > now)"

lemma planUnits_eq:
  "planUnits user d since pinned now s =
     (let rows = filter (\<lambda>r. in_plan_period since pinned now (sr_created r)) (plan_rows user d s)
      in (int (length rows), float_sum (map (\<lambda>r. fst (MultiplierAt d (sr_created r))) rows)))"
proof -
  let ?step = "\<lambda>(calls, consumed) r. case charge_at d since pinned now (Some (sr_created r)) of
         None \<Rightarrow> (calls, consumed) | Some factor \<Rightarrow> (calls + 1, fl (consumed + factor))"
  let ?in = "\<lambda>r. in_plan_period since pinned now (sr_created r)"
  let ?rate = "\<lambda>r. fst (MultiplierAt d (sr_created r))"
  have fold: "foldl ?step (n, q) rows =
      (n + int (length (filter ?in rows)), foldl (\<lambda>acc x. fl (acc + x)) q (map ?rate (filter ?in rows)))"
    for n q rows
    by (induction rows arbitrary: n q) (auto simp: charge_at_def in_plan_period_def)
  show ?thesis unfolding planUnits_def Let_def float_sum_def fold by simp
qed

lemma float_sum_mono:
  assumes "\<And>x. x \<in> set xs \<Longrightarrow> 0 \<le> f x \<and> f x \<le> g x"
  shows "0 \<le> float_sum (map f xs) \<and> float_sum (map f xs) \<le> float_sum (map g xs)"
  using assms
proof (induction xs rule: rev_induct)
  case Nil
  then show ?case by (simp add: float_sum_def)
next
  case (snoc x xs)
  then have *: "0 \<le> float_sum (map f xs)" "float_sum (map f xs) \<le> float_sum (map g xs)"
    "0 \<le> f x" "f x \<le> g x" by auto
  have step: "float_sum (map h (xs @ [x])) = fl (float_sum (map h xs) + h x)" for h
    by (simp add: float_sum_def)
  show ?case unfolding step using * by (auto intro!: fl_nonneg fl_mono add_mono)
qed

lemma ReadPlanUnits_declared:
  assumes "pl_declared b" "0 < pl_units b" "read_float cfg keyBgWindowFraction = Inr bg"
  shows "\<exists>g. ReadPlanUnits cfg user lane d b now s = Inr g \<and> pg_unit g = pd_unit d \<and>
    pg_applicable g = (budget_refusal d b now = None) \<and>
    (pg_calls g, pg_consumed g) = planUnits user d (pl_start b) True now s \<and>
    (pg_applicable g \<longrightarrow> pg_pressure g = fl (pg_consumed g / pl_units b))"
proof -
  obtain calls consumed where u: "planUnits user d (pl_start b) True now s = (calls, consumed)" by fastforce
  obtain factor w where m: "MultiplierAt d now = (factor, w)" by fastforce
  show ?thesis using assms by (simp add: ReadPlanUnits_def read_float_def u m Let_def split: option.splits)
qed

end
