(* ===== verification/Metering_Properties.thy ===== *)
theory Metering_Properties
  imports Plan_Units Scheduler_Properties Recovery
begin

text \<open>
  What the metering modules promise: the ledger is a grouping of the checkpoint rows, a price is the
  latest one in force, a receipt is written once, forks keep their purpose, and the pause switch and the
  budgets reach the scheduler.
\<close>

section \<open>Consumption\<close>

text \<open>
  C19: the consumption of a run is its checkpoints, grouped.  It has one line per (model, lane, purpose)
  that occurs, each line counts, prices and sums exactly the checkpoints of its key, and the totals are
  those of all the run's checkpoints; what could not be priced is counted, not charged as zero.
\<close>
theorem consumption_is_grouping:
  assumes "RunConsumption le rid s = (Inr rc, t)"
  shows "t = s \<and> (let rows = readCheckpoints rid s in
     distinct (map line_key (rn_items rc)) \<and>
     line_key ` set (rn_items rc) = row_key rid ` set rows \<and>
     (\<forall>li\<in>set (rn_items rc). let own = filter (\<lambda>r. row_key rid r = line_key li) rows in
        li_calls li = int (length own) \<and>
        li_unpriced li = int (length (filter (\<lambda>r. price_source_row le r = Unpriced) own)) \<and>
        li_usd li = float_sum (priced_rows le own) \<and>
        li_prompt li = wrap64 (\<Sum>r\<leftarrow>own. ac_prompt (normalize (sr_usage r))) \<and>
        li_output li = wrap64 (\<Sum>r\<leftarrow>own. ac_output (normalize (sr_usage r)))) \<and>
     rn_calls rc = int (length rows) \<and>
     rn_unpriced rc = int (length (filter (\<lambda>r. price_source_row le r = Unpriced) rows)) \<and>
     rn_usd rc = float_sum (priced_rows le rows))"
proof -
  let ?rows = "readCheckpoints rid s"
  have "\<exists>u. t = s \<and> rc = fold_rows le rid u ?rows"
    using assms by (auto simp: RunConsumption_def RunConsumptionTx_def write_tx_def tx_simps split: sum.splits)
  then obtain u where t: "t = s" and rc: "rc = fold_rows le rid u ?rows" by blast
  have unpriced: "int (length rows) - int (length (priced_rows le rows)) =
      int (length (filter (\<lambda>r. price_source_row le r = Unpriced) rows))" for rows
    by (induction rows) (auto simp: priced_rows_def split: priced_cost.split)
  have "groups le rid (rn_items rc) ?rows" using fold_rows_groups rc by simp
  then have "distinct (map line_key (rn_items rc))" "line_key ` set (rn_items rc) = row_key rid ` set ?rows"
    and "\<And>li. li \<in> set (rn_items rc) \<Longrightarrow> line_groups le li (rows_of rid (line_key li) ?rows)"
    by (auto simp: groups_def)
  moreover note fold_rows_totals [of le rid u ?rows]
  ultimately show ?thesis
    unfolding t Let_def rc line_groups_def tokens_def rows_of_def unpriced by simp
qed

text \<open>Two calls of the run \<open>r\<close>, one with a usage block and one without.\<close>

definition sample_ck :: "int \<Rightarrow> raw \<Rightarrow> time \<Rightarrow> checkpoint_row" where
  "sample_ck n usage at_time = \<lparr>ck_id = n, ck_run = ''r'', ck_user = ''ann'', ck_event_seq = n, ck_usage = usage,
     ck_session_substrate = [], ck_session_id = [], ck_message_index = 0, ck_cwd_key = [], ck_transcript = [],
     ck_ledger_revision = [], ck_artifact_ref = [], ck_model = ''opus'', ck_invocation_fp = [],
     ck_tool_schema = [], ck_prompt_schema = [], ck_created = at_time\<rparr>"

definition sample_metered :: db where
  "sample_metered = sample_running\<lparr>t_checkpoints :=
     [sample_ck 1 (marshal (JObj [(''input_tokens'', JNum ''7'')])) 10,
      sample_ck 2 raw_empty 20]\<rparr>"

definition sample_ledger :: ledger_env where
  "sample_ledger = \<lparr>lg_prices = NewEffectiveDatedTable ''v1'', lg_exceptions = (\<lambda>l. False), lg_settings = sample_cfg\<rparr>"

lemma sample_metered_run:
  "\<exists>r. find_run ''r'' sample_metered = Some r \<and> run_user r = ''ann'' \<and> run_lane r = ''anthropic''"
  by (simp add: sample_metered_def sample_running_def tx_eval json_eval append_eval run_eval sample_eval
      cong: tx_bind_weak)

lemma sample_metered_rows:
  "length (readCheckpoints ''r'' sample_metered) = 2"
  using sample_metered_run
  by (auto simp: readCheckpoints_def) (simp add: sample_metered_def sample_ck_def)

theorem consumption_is_grouping_witness:
  "case fst (RunConsumption sample_ledger ''r'' sample_metered) of Inl e \<Rightarrow> False | Inr rc \<Rightarrow> rn_calls rc = 2"
proof -
  obtain rc where "RunConsumption sample_ledger ''r'' sample_metered = (Inr rc, sample_metered)"
    using sample_metered_run
    by (auto simp: RunConsumption_def RunConsumptionTx_def write_tx_def tx_bind_def tx_read_def tx_some_def tx_return_def)
  from consumption_is_grouping [OF this] this sample_metered_rows show ?thesis
    by (simp add: Let_def)
qed

section \<open>Prices\<close>

definition in_force :: "string \<Rightarrow> string \<Rightarrow> time \<Rightarrow> price_row \<Rightarrow> bool" where
  "in_force model lane ts r \<longleftrightarrow> pr_model r = model \<and> pr_lane r = lane \<and> pr_effective r \<le> ts"

text \<open>The loop finds the first of the rows in force that has the latest effective instant.\<close>

definition latest :: "price_row list \<Rightarrow> price_row option" where
  "latest rows = (if rows = [] then None
     else Some (hd (filter (\<lambda>r. \<forall>x\<in>set rows. pr_effective x \<le> pr_effective r) rows)))"

lemma latest_snoc:
  "latest (rows @ [r]) = (case latest rows of None \<Rightarrow> Some r
     | Some b \<Rightarrow> Some (if pr_effective r > pr_effective b then r else b))"
proof (cases "rows = []")
  case True
  then show ?thesis by (simp add: latest_def)
next
  case False
  let ?top = "\<lambda>xs r. \<forall>x\<in>set xs. pr_effective x \<le> pr_effective (r :: price_row)"
  have "Max (pr_effective ` set rows) \<in> pr_effective ` set rows" using False by simp
  then obtain m where "m \<in> set rows" "pr_effective m = Max (pr_effective ` set rows)" by auto
  then have "\<exists>b\<in>set rows. ?top rows b" by (intro bexI [of _ m]) auto
  then have ne: "filter (?top rows) rows \<noteq> []" by (auto simp: filter_empty_conv)
  define b where "b = hd (filter (?top rows) rows)"
  have b: "b \<in> set rows" "?top rows b" using hd_in_set [OF ne] by (auto simp: b_def)
  have "filter (?top (rows @ [r])) (rows @ [r]) =
      (if pr_effective r > pr_effective b then [r] else filter (?top rows) rows @ (if ?top rows r then [r] else []))"
    using b by (auto simp: filter_empty_conv intro!: filter_cong)
  then show ?thesis using False ne by (auto simp: latest_def b_def [symmetric])
qed

lemma lookup_from_latest:
  assumes "\<And>b. best = Some b \<Longrightarrow> latest seen = Some b" "best = None \<Longrightarrow> seen = []"
  shows "lookup_from model lane ts rows best = latest (seen @ filter (in_force model lane ts) rows)"
  using assms
proof (induction rows arbitrary: seen best)
  case Nil
  then show ?case by (cases best) (simp_all add: latest_def)
next
  case (Cons r rows)
  show ?case
  proof (cases "in_force model lane ts r")
    case False
    then have "lookup_from model lane ts (r # rows) best = lookup_from model lane ts rows best"
      by (auto simp: in_force_def)
    with Cons.IH [OF Cons.prems] False show ?thesis by simp
  next
    case True
    define best' where "best' = (case best of None \<Rightarrow> Some r
      | Some b \<Rightarrow> Some (if pr_effective r > pr_effective b then r else b))"
    have step: "lookup_from model lane ts (r # rows) best = lookup_from model lane ts rows best'"
      using True by (auto simp: in_force_def best'_def split: option.split)
    have "latest (seen @ [r]) = best'"
      using Cons.prems unfolding latest_snoc best'_def by (cases best) (simp_all add: latest_def)
    then have "lookup_from model lane ts rows best' = latest ((seen @ [r]) @ filter (in_force model lane ts) rows)"
      by (intro Cons.IH) (auto simp: best'_def split: option.splits)
    with True step show ?thesis by simp
  qed
qed

lemma price_lookup_latest:
  "price_lookup t model lane ts = latest (filter (in_force model lane ts) (pt_rows t))"
  unfolding price_lookup_def by (subst lookup_from_latest [where seen = "[]"]) simp_all

lemma latest_props:
  assumes "latest rows = Some r"
  shows "r \<in> set rows" "x \<in> set rows \<Longrightarrow> pr_effective x \<le> pr_effective r"
proof -
  have ne: "rows \<noteq> []" using assms by (auto simp: latest_def split: if_splits)
  then have "Max (pr_effective ` set rows) \<in> pr_effective ` set rows" by simp
  then obtain m where m: "m \<in> set rows" "pr_effective m = Max (pr_effective ` set rows)" by auto
  have "filter (\<lambda>r. \<forall>x\<in>set rows. pr_effective x \<le> pr_effective r) rows \<noteq> []"
    using m by (auto simp: filter_empty_conv intro!: bexI [of _ m])
  from hd_in_set [OF this] assms ne show "r \<in> set rows" "x \<in> set rows \<Longrightarrow> pr_effective x \<le> pr_effective r"
    by (auto simp: latest_def)
qed

text \<open>Stably sorting by the effective instant keeps the first of the latest rows.\<close>

lemma latest_sort: "latest (sort_key pr_effective rows) = latest rows"
proof -
  have "filter (\<lambda>r. \<forall>x\<in>set rows. pr_effective x \<le> pr_effective r) (sort_key pr_effective rows) =
      filter (\<lambda>r. \<forall>x\<in>set rows. pr_effective x \<le> pr_effective r) rows"
  proof (cases "rows = []")
    case False
    then have "(\<forall>x\<in>set rows. pr_effective x \<le> pr_effective r) \<longleftrightarrow> Max (pr_effective ` set rows) \<le> pr_effective r"
      for r by simp
    moreover have "r \<in> set rows \<Longrightarrow> pr_effective r \<le> Max (pr_effective ` set rows)" for r by simp
    ultimately have "r \<in> set rows \<Longrightarrow> (\<forall>x\<in>set rows. pr_effective x \<le> pr_effective r) \<longleftrightarrow>
        pr_effective r = Max (pr_effective ` set rows)" for r by (metis antisym order_refl)
    then have "filter (\<lambda>r. \<forall>x\<in>set rows. pr_effective x \<le> pr_effective r) xs =
        filter (\<lambda>r. pr_effective r = Max (pr_effective ` set rows)) xs" if "set xs \<subseteq> set rows" for xs
      using that by (intro filter_cong) auto
    then show ?thesis by (simp add: sort_key_stable)
  qed simp
  then show ?thesis by (simp add: latest_def) (metis length_0_conv length_sort)
qed

text \<open>
  a call is priced by the row in force at its own instant.  The lookup returns a row of the
  call's model and lane that is the latest of those effective by then, and nothing when there is none;
  an all-zero row prices nothing on a flat-rate lane, so a missing price is never a silent zero; and rows
  added with a later effective date change no price of an earlier call.
\<close>
theorem price_in_force:
  "(price_lookup t model lane ts = None \<longleftrightarrow> (\<forall>r\<in>set (pt_rows t). \<not> in_force model lane ts r)) \<and>
   (\<forall>r. price_lookup t model lane ts = Some r \<longrightarrow> r \<in> set (pt_rows t) \<and> in_force model lane ts r \<and>
      (\<forall>x\<in>set (pt_rows t). in_force model lane ts x \<longrightarrow> pr_effective x \<le> pr_effective r)) \<and>
   (\<forall>c. Price t model lane ts acc CurrencyAPIEquiv = Priced c \<longrightarrow>
      (\<exists>r\<in>set (pt_rows t). in_force model lane ts r \<and> \<not> allZero (pr_prices r) \<and> c = row_cost (pr_prices r) acc)) \<and>
   (\<forall>rows. (\<forall>r\<in>set rows. pr_effective r > ts) \<longrightarrow>
      Price (AddPrices rows t) model lane ts acc cur = Price t model lane ts acc cur)"
proof -
  have "(price_lookup t model lane ts = None) = (\<forall>r\<in>set (pt_rows t). \<not> in_force model lane ts r)"
    by (auto simp: price_lookup_latest latest_def filter_empty_conv)
  moreover have chosen: "r \<in> set (pt_rows t)" "in_force model lane ts r"
    "\<forall>x\<in>set (pt_rows t). in_force model lane ts x \<longrightarrow> pr_effective x \<le> pr_effective r"
    if "price_lookup t model lane ts = Some r" for r
    using latest_props [OF that [unfolded price_lookup_latest]] by auto
  moreover have "\<exists>r\<in>set (pt_rows t). in_force model lane ts r \<and> \<not> allZero (pr_prices r) \<and>
      c = row_cost (pr_prices r) acc"
    if "Price t model lane ts acc CurrencyAPIEquiv = Priced c" for c
    using that chosen by (fastforce simp: Price_def split: option.splits if_splits)
  moreover have "price_lookup (AddPrices rows t) model lane ts = price_lookup t model lane ts"
    if "\<forall>r\<in>set rows. pr_effective r > ts" for rows
  proof -
    have "filter (in_force model lane ts) rows = []"
      using that by (auto simp: filter_empty_conv in_force_def)
    then show ?thesis by (simp add: price_lookup_latest AddPrices_def filter_sort latest_sort)
  qed
  ultimately show ?thesis by (simp add: Price_def)
qed

definition sample_price :: "rat \<Rightarrow> time \<Rightarrow> price_row" where
  "sample_price p t = \<lparr>pr_model = ''opus'', pr_lane = ''anthropic'', pr_prices = \<lparr>up_input = p, up_output = 0,
     up_cache_read = 0, up_cache_creation = 0, up_server_tool = 0\<rparr>, pr_effective = t, pr_verified = t,
     pr_source = []\<rparr>"

definition sample_table :: price_table where
  "sample_table = AddPrices [sample_price 1 5] (NewEffectiveDatedTable ''v1'')"

definition sample_call :: accounting where
  "sample_call = \<lparr>ac_prompt = 7, ac_output = 2, ac_cache_read = 0, ac_cache_creation = 0, ac_server_tools = 0,
     ac_measured = True, ac_request = []\<rparr>"

text \<open>A row effective at 100 leaves the call at 50 with the row that was in force then.\<close>

theorem price_in_force_witness:
  "price_lookup (AddPrices [sample_price 2 100] sample_table) ''opus'' ''anthropic'' 50 = Some (sample_price 1 5) \<and>
   Price (AddPrices [sample_price 2 100] sample_table) ''opus'' ''anthropic'' 50 sample_call CurrencyAPIEquiv =
     Price sample_table ''opus'' ''anthropic'' 50 sample_call CurrencyAPIEquiv"
proof
  note p = price_in_force [of sample_table "''opus''" "''anthropic''" 50 sample_call CurrencyAPIEquiv]
  show "Price (AddPrices [sample_price 2 100] sample_table) ''opus'' ''anthropic'' 50 sample_call CurrencyAPIEquiv =
     Price sample_table ''opus'' ''anthropic'' 50 sample_call CurrencyAPIEquiv"
    by (rule p [THEN conjunct2, THEN conjunct2, THEN conjunct2, rule_format]) (simp add: sample_price_def)
qed (simp add: sample_table_def AddPrices_def NewEffectiveDatedTable_def price_lookup_def sample_price_def)


section \<open>Receipts\<close>

lemma existing_append:
  assumes "existing_receipt rid s = None" "rr_run row = rid"
  shows "existing_receipt rid (s\<lparr>t_receipts := t_receipts s @ [row]\<rparr>) = Some (rr_receipt row)"
proof -
  have "filter (\<lambda>r. rr_run r = rid) (t_receipts s) = []"
    using assms(1) by (simp add: existing_none filter_empty_conv)
  with assms(2) show ?thesis by (simp add: existing_receipt_def)
qed

lemma existing_append_other:
  "rr_run row \<noteq> other \<Longrightarrow>
   existing_receipt other (s\<lparr>t_receipts := t_receipts s @ [row]\<rparr>) = existing_receipt other s"
  by (simp add: existing_receipt_def)

text \<open>
  C15: a run has one receipt, written once.  A successful materialisation leaves the run's receipt on
  record; repeated at any later time, with any prices or settings, it returns that same receipt and writes
  nothing; it touches no other table and no other run's receipt, and a fresh receipt states exactly the
  run's consumption.
\<close>
theorem receipt_once:
  assumes "Materialize le now rid s = (Inr r, t)"
  shows "existing_receipt rid t = Some r \<and>
    (\<forall>le' now'. Materialize le' now' rid t = (Inr r, t)) \<and>
    (existing_receipt rid s \<noteq> None \<longrightarrow> t = s) \<and>
    (\<forall>other. other \<noteq> rid \<longrightarrow> existing_receipt other t = existing_receipt other s) \<and>
    t\<lparr>t_receipts := t_receipts s\<rparr> = s \<and>
    (existing_receipt rid s = None \<longrightarrow> (\<exists>u. RunConsumption le rid s = (Inr u, s) \<and>
       rc_items r = rn_items u \<and> rc_usd r = rn_usd u \<and> rc_calls r = rn_calls u \<and>
       rc_unpriced r = rn_unpriced u))"
proof -
  have "MaterializeTx le now rid s = Inr (r, t)"
    using assms by (auto simp: Materialize_def write_tx_def split: sum.splits)
  then show ?thesis
  proof (cases rule: MaterializeTx_Inr)
    case prior
    then show ?thesis by (simp add: Materialize_def MaterializeTx_def tx_eval)
  next
    case (fresh run)
    have now: "existing_receipt rid t = Some r"
      unfolding fresh(5) by (subst existing_append) (simp_all add: fresh(1))
    then have "Materialize le' now' rid t = (Inr r, t)" for le' now'
      by (simp add: Materialize_def MaterializeTx_def tx_eval)
    moreover have "existing_receipt other t = existing_receipt other s" if "other \<noteq> rid" for other
      unfolding fresh(5) by (rule existing_append_other) (use that in simp)
    moreover have "RunConsumption le rid s = (Inr (fold_rows le rid (run_user run) (readCheckpoints rid s)), s)"
      using fresh(2) by (simp add: RunConsumption_def RunConsumptionTx_def tx_eval)
    ultimately show ?thesis using now fresh by (simp add: receipt_of_def)
  qed
qed

theorem receipt_once_witness:
  "\<exists>r t. Materialize sample_ledger 99 ''r'' sample_metered = (Inr r, t) \<and>
     Materialize sample_ledger 100 ''r'' t = (Inr r, t) \<and> rc_calls r = 2"
proof -
  obtain run where run: "find_run ''r'' sample_metered = Some run" "run_user run = ''ann''"
    using sample_metered_run by auto
  have none: "existing_receipt ''r'' sample_metered = None"
    by (simp add: existing_none sample_metered_def sample_running_def tx_eval json_eval append_eval run_eval
        sample_eval cong: tx_bind_weak)
  have f: "rc_user (receipt_of now (fold_rows le rid u rows) p q) = u"
    "rc_run (receipt_of now (fold_rows le rid u rows) p q) = rid" for now le rid u rows p q
    using fold_rows_groups [of le rid u rows] fold_rows_totals [of le rid u rows]
    by (simp_all add: receipt_of_def)
  obtain r t where rt: "Materialize sample_ledger 99 ''r'' sample_metered = (Inr r, t)"
    using run none f
    by (simp add: Materialize_def MaterializeTx_def RunConsumptionTx_def RequestIDsTx_def insert_receipt_def
        has_run_def Let_def tx_eval)
  from receipt_once [OF this] none obtain u where u: "RunConsumption sample_ledger ''r'' sample_metered = (Inr u, sample_metered)"
    "rc_calls r = rn_calls u" "Materialize sample_ledger 100 ''r'' t = (Inr r, t)" by auto
  have "u = fold_rows sample_ledger ''r'' ''ann'' (readCheckpoints ''r'' sample_metered)"
    using u(1) run by (simp add: RunConsumption_def RunConsumptionTx_def tx_eval)
  then have "rn_calls u = 2"
    using fold_rows_totals [of sample_ledger "''r''" "''ann''"] sample_metered_rows by simp
  with rt u show ?thesis by auto
qed

text \<open>The receipts the shell wires are a materialiser as the scheduler's settles rely on it.\<close>

lemma MaterializeTx_keeps: "tx_rel sched_keeps (MaterializeTx le now rid)"
proof (rule tx_relI)
  fix s r t
  assume "MaterializeTx le now rid s = Inr (r, t)"
  then show "sched_keeps s t"
  proof (cases rule: MaterializeTx_Inr)
    case prior
    then show ?thesis by (simp add: sched.frame_refl)
  next
    case (fresh run)
    show ?thesis by (rule sched_keeps_same_queue) (auto simp: fresh(5) intro!: evolves_cong)
  qed
qed

lemma MaterializeTx_total:
  assumes "find_run rid s = Some run" "run_user run \<noteq> []"
  shows "\<exists>r t. MaterializeTx le now rid s = Inr (r, t) \<and> t_runs t = t_runs s \<and> t_queue t = t_queue s \<and>
    existing_receipt rid t = Some r"
proof (cases "existing_receipt rid s")
  case (Some r)
  then show ?thesis by (simp add: MaterializeTx_def tx_eval)
next
  case None
  let ?cons = "fold_rows le rid (run_user run) (readCheckpoints rid s)"
  have f: "rn_run ?cons = rid" "rn_user ?cons = run_user run"
    using fold_rows_groups [of le rid "run_user run" "readCheckpoints rid s"]
      fold_rows_totals [of le rid "run_user run" "readCheckpoints rid s"] by simp_all
  obtain r t where rt: "MaterializeTx le now rid s = Inr (r, t)"
    using assms None f
    by (simp add: MaterializeTx_def RunConsumptionTx_def RequestIDsTx_def insert_receipt_def receipt_of_def
        has_run_def Let_def tx_eval)
  moreover from rt have "t_runs t = t_runs s \<and> t_queue t = t_queue s \<and> existing_receipt rid t = Some r"
  proof (cases rule: MaterializeTx_Inr)
    case prior
    then show ?thesis using None by simp
  next
    case (fresh run)
    then show ?thesis using existing_append [OF None] by simp
  qed
  ultimately show ?thesis by blast
qed

lemma metered_receipt_tx:
  "MaterializeTx le (env_now (se_env se)) rid u = Inr (rec, t) \<Longrightarrow>
   tx_bind (MaterializeTx le (env_now (se_env se)) rid) (\<lambda>_. tx_return ()) u = Inr ((), t)"
  by (simp add: tx_bind_def tx_return_def)

lemma metered_receipts:
  "receipts_ok (metered_env le se s)" "receipts_total (metered_env le se s)"
proof -
  have "tx_rel sched_keeps (tx_bind (MaterializeTx le now rid) (\<lambda>_. tx_return ()))" for now rid
    by (rule sched.rel_bind [OF MaterializeTx_keeps sched.rel_return])
  then show "receipts_ok (metered_env le se s)"
    unfolding receipts_ok_def metered_env_def by auto
  show "receipts_total (metered_env le se s)"
    unfolding receipts_total_def
  proof (intro allI impI)
    fix m rid r u
    assume m: "se_receipts (metered_env le se s) = Some m" and r: "find_run rid u = Some r" "run_checks r"
    have "m = (\<lambda>rid. tx_bind (MaterializeTx le (env_now (se_env se)) rid) (\<lambda>_. tx_return ()))"
      using m by (simp add: metered_env_def)
    moreover obtain rec t where "MaterializeTx le (env_now (se_env se)) rid u = Inr (rec, t)"
      "t_runs t = t_runs u" "t_queue t = t_queue u"
      using MaterializeTx_total [OF r(1)] r(2) unfolding run_checks_def by blast
    ultimately show "\<exists>t. m rid u = Inr ((), t) \<and> t_runs t = t_runs u \<and> t_queue t = t_queue u"
      using metered_receipt_tx by blast
  qed
qed

text \<open>
  C33: an ended run is settled with its receipt.  Settling a terminal run under the wiring of the shell
  succeeds, leaves no claimed queue row of the run, and leaves its receipt on record: the one that was
  there, or one made now; on a run that has not ended it is refused without a write.
\<close>
theorem settled_run_has_receipt:
  assumes good: "good s" and r: "find_run rid s = Some r"
  shows "case SettleRun (metered_env le se s0) rid s of
     (Inr _, t) \<Rightarrow> IsTerminal (run_state r) \<and> t_runs t = t_runs s \<and>
       (\<exists>rec. existing_receipt rid t = Some rec \<and> (\<forall>rec'. existing_receipt rid s = Some rec' \<longrightarrow> rec = rec')) \<and>
       (\<forall>q\<in>set (t_queue t). q_run q = rid \<longrightarrow> q_status q \<noteq> QueueClaimed)
   | (Inl e, t) \<Rightarrow> e = SettleNonTerminal rid (run_state r) \<and> \<not> IsTerminal (run_state r) \<and> t = s"
proof (cases "IsTerminal (run_state r)")
  case False
  with r show ?thesis by (simp add: SettleRun_def Get_def getTx_def tx_eval)
next
  case True
  let ?u = "update_queue (\<lambda>q. q_run q = rid \<and> q_status q = QueueClaimed) (\<lambda>q. q\<lparr>q_status := QueueDone\<rparr>) s"
  have id: "run_id r = rid" using r tbl_find_Some [of "\<lambda>x. run_id x = rid"] by (auto simp: find_run_def)
  have "run_user r \<noteq> []" using good r by (auto simp: good_def rows_good_def run_checks_def)
  moreover have u: "find_run rid ?u = Some r" using r find_run_cong [of ?u s] by simp
  ultimately obtain rec t where t: "MaterializeTx le (env_now (se_env se)) rid ?u = Inr (rec, t)"
    "t_runs t = t_runs ?u" "t_queue t = t_queue ?u" "existing_receipt rid t = Some rec"
    using MaterializeTx_total by blast
  have same: "existing_receipt rid s = Some rec' \<Longrightarrow> rec = rec'" for rec'
    using t(1) by (cases rule: MaterializeTx_Inr) (auto simp: existing_receipt_def update_queue_def)
  have "receipt_tx (metered_env le se s0) rid ?u = Inr ((), t)"
    using metered_receipt_tx [OF t(1)] by (simp add: receipt_tx_def metered_env_def)
  then have "write_tx (settleTerminalTx (metered_env le se s0) rid) s = (Inr (), t)"
    by (simp add: write_tx_def settleTerminalTx_def tx_bind_def tx_modify_def)
  then have run: "SettleRun (metered_env le se s0) rid s = (Inr (), t)"
    using r True id by (simp add: SettleRun_def Get_def settleTerminal_def)
  have "\<forall>q\<in>set (t_queue t). q_run q = rid \<longrightarrow> q_status q \<noteq> QueueClaimed"
    unfolding t(3) t_queue_update_queue set_tbl_update ball_simps(9) by simp
  moreover have "t_runs t = t_runs s" using t(2) by simp
  ultimately show ?thesis unfolding run prod.case sum.case using True t(4) same by blast
qed

theorem settled_run_has_receipt_witness:
  "\<exists>t rec. SettleRun (metered_env sample_ledger sample_se sample_cancelled) ''r'' sample_cancelled = (Inr (), t) \<and>
     existing_receipt ''r'' t = Some rec"
proof -
  obtain r where r: "find_run ''r'' sample_cancelled = Some r" "run_state r = StateFinalized"
    using sample_states(3) by auto
  have "good sample_cancelled" unfolding sample_cancelled_def by (rule sample_good)
  from settled_run_has_receipt [OF this r(1), of sample_ledger sample_se sample_cancelled] r(2)
  show ?thesis
    by (cases "SettleRun (metered_env sample_ledger sample_se sample_cancelled) ''r'' sample_cancelled")
       (auto simp: IsTerminal_def split: sum.splits)
qed

section \<open>Purposes\<close>

lemma last_fork_none: "list_all (\<lambda>c. c \<noteq> CHR ''.'') s \<Longrightarrow> last_fork s = None"
  by (induction s) (auto split: list.split)

lemma last_fork_append:
  "list_all (\<lambda>c. c \<noteq> CHR ''.'') b \<Longrightarrow> last_fork (a @ ''.g'' @ b) = Some (a, b)"
proof (induction a)
  case Nil
  then have "last_fork (CHR ''g'' # b) = None" by (intro last_fork_none) simp
  then show ?case by simp
next
  case (Cons c a)
  then show ?case by simp
qed

lemma is_digit_dec: "list_all is_digit (dec_nat n) \<and> dec_nat n \<noteq> []"
proof (induction n rule: dec_nat.induct)
  case (1 n)
  have "is_digit (digit_char d)" if "d < 10" for d
    using that by (simp add: is_digit_def digit_char_def)
  then show ?case using 1 by (subst (1 2) dec_nat.simps) (simp add: not_less)
qed

lemma last_fork_digits:
  assumes "list_all is_digit b"
  shows "last_fork (a @ ''.g'' @ b) = Some (a, b)"
proof -
  have "is_digit c \<Longrightarrow> c \<noteq> CHR ''.''" for c by (auto simp: is_digit_def)
  with assms have "list_all (\<lambda>c. c \<noteq> CHR ''.'') b" by (auto simp: list_all_iff)
  then show ?thesis by (rule last_fork_append)
qed

lemma StripForkSuffix_fork:
  "list_all is_digit b \<Longrightarrow> b \<noteq> [] \<Longrightarrow> StripForkSuffix (a @ ''.g'' @ b) = StripForkSuffix a"
  by (subst StripForkSuffix.simps) (simp only: last_fork_digits, simp)

lemma StripForkSuffix_cases:
  obtains (strip) a b where "last_fork s = Some (a, b)" "b \<noteq> []" "list_all is_digit b"
      "StripForkSuffix s = StripForkSuffix a"
  | (keep) "StripForkSuffix s = s" "\<And>a b. last_fork s = Some (a, b) \<Longrightarrow> b = [] \<or> \<not> list_all is_digit b"
proof (cases "\<exists>a b. last_fork s = Some (a, b) \<and> b \<noteq> [] \<and> list_all is_digit b")
  case True
  then show thesis using strip by (auto simp: StripForkSuffix.simps [of s])
next
  case False
  moreover from this have "StripForkSuffix s = s"
    by (subst StripForkSuffix.simps) (auto split: option.split)
  ultimately show thesis using keep by blast
qed

lemma StripForkSuffix_base:
  "StripForkSuffix s = a @ ''.g'' @ b \<Longrightarrow> b = [] \<or> \<not> list_all is_digit b"
proof (induction s rule: StripForkSuffix.induct)
  case (1 s)
  show ?case
  proof (cases s rule: StripForkSuffix_cases)
    case (strip a' b')
    with 1 show ?thesis by auto
  next
    case keep
    then have "s = a @ ''.g'' @ b" using 1(2) by (simp only:)
    then have "list_all is_digit b \<Longrightarrow> last_fork s = Some (a, b)" using last_fork_digits by (simp only:)
    with keep(2) show ?thesis by blast
  qed
qed

text \<open>
  a fork keeps the purpose of its run.  Whatever the id, a run superseded below the last generation
  has a fork whose id strips to the same base id, so its calls are charged to the same purpose as its
  parent's; stripping ends, and what it returns has no fork suffix left.
\<close>
theorem purpose_survives_fork:
  assumes "0 \<le> run_generation r" "run_generation r < int64_max"
  shows "StripForkSuffix (fork_id r) = StripForkSuffix (run_id r) \<and>
    derivePurpose (fork_id r) = derivePurpose (run_id r) \<and>
    (\<forall>a b. StripForkSuffix (run_id r) = a @ ''.g'' @ b \<longrightarrow> b = [] \<or> \<not> list_all is_digit b)"
proof -
  have "wrap64 (run_generation r + 1) = run_generation r + 1"
    using assms by (intro wrap64_id) (simp add: in64_def int64_max_def int64_min_def)
  then have "fork_id r = run_id r @ ''.g'' @ dec_nat (nat (run_generation r + 1))"
    using assms by (simp add: fork_id_def dec_int_def)
  moreover have "StripForkSuffix (run_id r @ ''.g'' @ dec_nat n) = StripForkSuffix (run_id r)" for n
    using is_digit_dec by (intro StripForkSuffix_fork) blast+
  ultimately have strip: "StripForkSuffix (fork_id r) = StripForkSuffix (run_id r)" by simp
  then show ?thesis unfolding derivePurpose_def using StripForkSuffix_base by simp
qed

definition sample_verify :: run_row where
  "sample_verify = the (find_run ''r'' (sample_db []))\<lparr>run_id := ''t.verify'', run_generation := 3\<rparr>"

theorem purpose_survives_fork_witness:
  "derivePurpose (fork_id sample_verify) = PurposeVerification"
proof -
  have "run_generation sample_verify = 3" "run_id sample_verify = ''t.verify''"
    by (simp_all add: sample_verify_def)
  moreover from this have "derivePurpose (fork_id sample_verify) = derivePurpose (run_id sample_verify)"
    using purpose_survives_fork [of sample_verify] by (simp add: int64_max_def)
  ultimately show ?thesis
    by (simp add: derivePurpose_def StripForkSuffix.simps suffix_defs ends_with_def)
qed

section \<open>The pause switch and the budgets at the scheduler\<close>

lemma metered_env_simps [simp]:
  "se_env (metered_env le se s) = se_env se"
  "se_pause (metered_env le se s) = Some (\<lambda>u. Inr (Paused u s))"
  "se_budgets (metered_env le se s) = Some (\<lambda>u l. Inr (BudgetFor u l s))"
  "se_pressure (metered_env le se s) = Some (\<lambda>u l b. case ReadGauge (env_settings (se_env se)) u l b s of
         Inl e \<Rightarrow> Inl e | Inr g \<Rightarrow> Inr (gauge_for_scheduler g))"
  by (simp_all add: metered_env_def)

lemma metered_dispatched:
  assumes "good s" "queue_ok s" "sched_hook_ok (se_env se)"
    and "claimPass (metered_env le se s) s = ((e, rs), u)"
    and "c \<in> set (candidates (reconciled (metered_env le se s) s))" "c_class c = ClassBackground"
      "c_run c \<in> run_id ` set rs"
  shows "\<not> Paused (c_user c) s \<and> (\<exists>stop g.
    read_float (env_settings (se_env se)) keyBgAdmitStop = Inr stop \<and>
    ReadGauge (env_settings (se_env se)) (c_user c) (c_lane c) (BudgetFor (c_user c) (c_lane c) s) s = Inr g \<and>
    (gr_applicable g \<longrightarrow> gr_pressure g < stop))"
proof -
  let ?se = "metered_env le se s"
  have hook: "sched_hook_ok (se_env ?se)" using assms(3) by simp
  from dispatched_background [OF assms(1,2) hook metered_receipts(1) assms(4-7)]
  obtain stop where "\<not> Paused (c_user c) s" and stop: "read_float (env_settings (se_env se)) keyBgAdmitStop = Inr stop"
    and adm: "backgroundAdmits ?se c stop = Inr True" by auto
  moreover from adm obtain g where
    "ReadGauge (env_settings (se_env se)) (c_user c) (c_lane c) (BudgetFor (c_user c) (c_lane c) s) s = Inr g"
    "gr_applicable g \<longrightarrow> gr_pressure g < stop"
    by (auto simp: backgroundAdmits_def gauge_for_scheduler_def split: sum.splits if_splits)
  ultimately show ?thesis by blast
qed

lemma stores_keep_good:
  assumes "good s" "queue_ok s" "t_runs t = t_runs s" "t_events t = t_events s" "t_queue t = t_queue s"
    "t_checkpoints t = t_checkpoints s" "t_effects t = t_effects s" "t_tasks t = t_tasks s" "t_asks t = t_asks s"
  shows "good t" "queue_ok t"
proof -
  have "sched_keeps s t" by (rule sched_keeps_same_queue) (use assms in \<open>auto intro!: evolves_cong\<close>)
  then show "good t" "queue_ok t" using assms by (auto simp: sched_keeps_def evolves_def)
qed

text \<open>
  A pass under the pause switch is the pass without the switch over the candidates it lets through: no
  gate of another candidate, of its own class or another, looks at the switch.
\<close>

definition held_back :: "db \<Rightarrow> candidate \<Rightarrow> bool" where
  "held_back s c \<longleftrightarrow> c_class c = ClassBackground \<and> Paused (c_user c) s"

lemma pausedOwners_reads:
  assumes "\<forall>u p. map_of out u = Some p \<longrightarrow> p = Paused u s"
  shows "\<exists>m. pausedOwners (\<lambda>u. Inr (Paused u s)) cs out = Inr m \<and>
    (\<forall>u p. map_of m u = Some p \<longrightarrow> p = Paused u s) \<and> (\<forall>u. map_of out u \<noteq> None \<longrightarrow> map_of m u \<noteq> None) \<and>
    (\<forall>c\<in>set cs. c_class c = ClassBackground \<longrightarrow> map_of m (c_user c) \<noteq> None)"
  using assms
proof (induction cs arbitrary: out)
  case (Cons c cs)
  show ?case
  proof (cases "c_class c \<noteq> ClassBackground \<or> map_of out (c_user c) \<noteq> None")
    case True
    from Cons.IH [OF Cons.prems] obtain m where m: "pausedOwners (\<lambda>u. Inr (Paused u s)) cs out = Inr m"
      "\<forall>u p. map_of m u = Some p \<longrightarrow> p = Paused u s" "\<forall>u. map_of out u \<noteq> None \<longrightarrow> map_of m u \<noteq> None"
      "\<forall>c\<in>set cs. c_class c = ClassBackground \<longrightarrow> map_of m (c_user c) \<noteq> None" by blast
    have "pausedOwners (\<lambda>u. Inr (Paused u s)) (c # cs) out = Inr m" using True m(1) by (subst pausedOwners.simps(2)) (simp only: if_True)
    moreover have "\<forall>c\<in>set (c # cs). c_class c = ClassBackground \<longrightarrow> map_of m (c_user c) \<noteq> None"
      using True m(3,4) unfolding list.set by blast
    ultimately show ?thesis using m(2,3) by blast
  next
    case False
    let ?out = "(c_user c, Paused (c_user c) s) # out"
    have "\<forall>u p. map_of ?out u = Some p \<longrightarrow> p = Paused u s" using Cons.prems by simp
    from Cons.IH [OF this] obtain m where m: "pausedOwners (\<lambda>u. Inr (Paused u s)) cs ?out = Inr m"
      "\<forall>u p. map_of m u = Some p \<longrightarrow> p = Paused u s" "\<forall>u. map_of ?out u \<noteq> None \<longrightarrow> map_of m u \<noteq> None"
      "\<forall>c\<in>set cs. c_class c = ClassBackground \<longrightarrow> map_of m (c_user c) \<noteq> None" by blast
    from m(3) have "map_of m (c_user c) \<noteq> None" "\<forall>u. map_of out u \<noteq> None \<longrightarrow> map_of m u \<noteq> None" by auto
    with False m show ?thesis by (intro exI [of _ m]) simp
  qed
qed simp

lemma paused_map_reads:
  obtains m where "paused_map (metered_env le se s) cands = Inr m"
    "\<forall>c\<in>set cands. c_class c = ClassBackground \<longrightarrow> map_of m (c_user c) = Some (Paused (c_user c) s)"
proof -
  obtain m where m: "pausedOwners (\<lambda>u. Inr (Paused u s)) cands [] = Inr m" "\<forall>u p. map_of m u = Some p \<longrightarrow> p = Paused u s"
    "\<forall>c\<in>set cands. c_class c = ClassBackground \<longrightarrow> map_of m (c_user c) \<noteq> None"
    using pausedOwners_reads [of "[]" s cands] by auto
  then have "\<forall>c\<in>set cands. c_class c = ClassBackground \<longrightarrow> map_of m (c_user c) = Some (Paused (c_user c) s)" by blast
  with m(1) show thesis by (intro that [of m]) (simp_all add: paused_map_def)
qed

lemma admit_pause:
  assumes "\<forall>c\<in>set (c # cs). c_class c = ClassBackground \<longrightarrow> map_of paused (c_user c) = Some (Paused (c_user c) s)"
  shows "admit se bg paused active c u = (if held_back s c then Inr False else admit se bg [] active c u)"
  using assms by (auto simp: admit_def held_back_def)

lemma claim_loop_pause:
  assumes "\<forall>n. se_live se n"
    and "\<forall>c\<in>set cs. c_class c = ClassBackground \<longrightarrow> map_of paused (c_user c) = Some (Paused (c_user c) s)"
  shows "claim_loop se bg paused n cs active u = claim_loop se bg [] n' (filter (\<lambda>c. \<not> held_back s c) cs) active u"
  using assms(2)
proof (induction cs arbitrary: n n' active u)
  case (Cons c cs)
  have tail: "claim_loop se bg paused n cs active u = claim_loop se bg [] n' (filter (\<lambda>c. \<not> held_back s c) cs) active u"
    for n n' active u using Cons by simp
  note one = admit_pause [OF Cons.prems, of se bg active u]
  show ?case
  proof (cases "held_back s c")
    case True
    with one assms(1) show ?thesis by (simp add: tail [of _ _ _ n'])
  next
    case False
    with one assms(1) show ?thesis
      by (simp add: tail [of _ _ _ "Suc n'"] split: sum.split bool.split option.split prod.split)
  qed
qed simp

lemma paused_loop:
  assumes "\<forall>n. se_live se n"
  shows "\<exists>paused. paused_map (metered_env le se s) cands = Inr paused \<and>
    (\<forall>bg n active u. claim_loop (metered_env le se s) bg paused n cands active u =
       claim_loop (metered_env le se s) bg [] n
         (filter (\<lambda>c. \<not> (c_class c = ClassBackground \<and> Paused (c_user c) s)) cands) active u)"
proof -
  obtain m where m: "paused_map (metered_env le se s) cands = Inr m"
    "\<forall>c\<in>set cands. c_class c = ClassBackground \<longrightarrow> map_of m (c_user c) = Some (Paused (c_user c) s)"
    by (rule paused_map_reads)
  have "\<forall>n. se_live (metered_env le se s) n" using assms by (simp add: metered_env_def)
  from claim_loop_pause [OF this m(2)] m(1) show ?thesis unfolding held_back_def by blast
qed

text \<open>
  C10: the pause switch stops a person's background work, and only that.  Pausing reports the state it
  replaced, changes nobody else's switch and is undone by unpausing; while it is set, a claim pass under
  the shell's wiring dispatches none of the person's background candidates.  Whatever candidates a pass
  has, in whatever slots and state, a pass that is not cut short by a shutdown does what it would do with
  no switch set over the candidates that are not background work of a paused person: the person's work
  of every other class, and everybody else's, is gated as before.
\<close>
theorem pause_stops_background:
  assumes good: "good s0" "queue_ok s0" "sched_hook_ok (se_env se)"
    and pause: "SetPause user True s0 = (Inr prior, s)"
  shows "prior = Paused user s0 \<and> (\<forall>u. Paused u s = (u = user \<or> Paused u s0)) \<and>
    (\<exists>t. SetPause user False s = (Inr True, t) \<and> (\<forall>u. Paused u t = (u \<noteq> user \<and> Paused u s0))) \<and>
    (\<forall>c\<in>set (candidates (reconciled (metered_env le se s) s)). c_class c = ClassBackground \<and> c_user c = user \<longrightarrow>
       c_run c \<notin> run_id ` set (snd (fst (claimPass (metered_env le se s) s)))) \<and>
    ((\<forall>n. se_live se n) \<longrightarrow> (\<forall>cands. \<exists>paused. paused_map (metered_env le se s) cands = Inr paused \<and>
       (\<forall>bg n active u. claim_loop (metered_env le se s) bg paused n cands active u =
          claim_loop (metered_env le se s) bg [] n
            (filter (\<lambda>c. \<not> (c_class c = ClassBackground \<and> Paused (c_user c) s)) cands) active u)))"
proof -
  from pause [unfolded SetPause_Inr] have st: "t_runs s = t_runs s0" "t_events s = t_events s0"
    "t_queue s = t_queue s0" "t_checkpoints s = t_checkpoints s0" "t_effects s = t_effects s0"
    "t_tasks s = t_tasks s0" "t_asks s = t_asks s0" by auto
  note g = stores_keep_good [OF good(1,2) st]
  have paused: "Paused u s = (u = user \<or> Paused u s0)" for u using Paused_SetPause(1) [OF pause] by auto
  obtain x where x: "tbl_find (\<lambda>x. user_id x = user) (t_users s) = Some x" "user_paused x"
    using paused [of user] by (auto simp: Paused_def split: option.splits)
  then obtain t where t: "SetPause user False s = (Inr True, t)"
    using SetPause_Inr [of user False s True] by auto
  have "c_run c \<notin> run_id ` set (snd (fst (claimPass (metered_env le se s) s)))"
    if "c \<in> set (candidates (reconciled (metered_env le se s) s))" "c_class c = ClassBackground" "c_user c = user" for c
    using metered_dispatched [OF g good(3) _ that(1,2), of _ "snd (fst (claimPass (metered_env le se s) s))"]
      paused [of user] that(3) by (metis prod.collapse)
  moreover have "Paused u t = (u \<noteq> user \<and> Paused u s0)" for u
    using Paused_SetPause(1) [OF t, of u] paused [of u] by auto
  ultimately show ?thesis
    using paused t Paused_SetPause(2) [OF pause] paused_loop [of se le s] by blast
qed

definition sample_user_db :: db where
  "sample_user_db = sample_background\<lparr>t_users := [\<lparr>user_id = ''ann'', user_paused = False\<rparr>]\<rparr>"

lemma sample_user_ok: "good sample_user_db" "queue_ok sample_user_db" "sched_hook_ok (se_env sample_se)"
  using stores_keep_good [OF sample_background_ok, of sample_user_db] sample_se_ok(1)
  by (simp_all add: sample_user_db_def)

theorem pause_stops_background_witness:
  "\<exists>s t. SetPause ''ann'' True sample_user_db = (Inr False, s) \<and> Paused ''ann'' s \<and>
     SetPause ''ann'' False s = (Inr True, t) \<and> \<not> Paused ''ann'' t"
proof -
  have users: "t_users sample_user_db = [\<lparr>user_id = ''ann'', user_paused = False\<rparr>]"
    by (simp add: sample_user_db_def)
  have "\<exists>s. SetPause ''ann'' True sample_user_db = (Inr False, s)"
    unfolding SetPause_Inr users by (simp add: tbl_find_def)
  then obtain s where s: "SetPause ''ann'' True sample_user_db = (Inr False, s)" by blast
  note p = pause_stops_background [OF sample_user_ok s, of sample_ledger]
  have "Paused ''ann'' s" using conjunct1 [OF conjunct2 [OF p]] by simp
  moreover obtain t where "SetPause ''ann'' False s = (Inr True, t)" "\<not> Paused ''ann'' t"
    using conjunct1 [OF conjunct2 [OF conjunct2 [OF p]]] by auto
  ultimately show ?thesis using s by (intro exI conjI)
qed

text \<open>
  C30: a declared budget bounds background work.  Once a budget is declared for a person's lane (it
  replaces exactly that row and is what the next reading divides by), a claim pass under the shell's wiring
  dispatches a background candidate of that lane only while its weighted consumption since the period
  began, as a share of the budget, is below the admission stop.  The length of the period plays no part:
  also a budget whose period has elapsed divides all consumption since its start and stops background
  work.  A comment of \<open>planPeriodEnded\<close> in \<open>internal/metering/planunits.go\<close> says that migration 0017
  records an elapsed token budget as inapplicable; the token gauge does not do that, and this theorem
  states what it does.
\<close>
theorem budget_bounds_background:
  assumes good: "good s0" "queue_ok s0" "sched_hook_ok (se_env se)"
    and decl: "DeclareBudget row s0 = (Inr prior, s)"
  shows "prior = find_budget (bg_user row) (bg_lane row) s0 \<and>
    (\<forall>u l. (u, l) \<noteq> (bg_user row, bg_lane row) \<longrightarrow> BudgetFor u l s = BudgetFor u l s0) \<and>
    BudgetFor (bg_user row) (bg_lane row) s = \<lparr>bu_tokens = bg_tokens row,
      bu_start = (if is_zero_time (bg_start row) then bg_ts row else bg_start row), bu_declared = True\<rparr> \<and>
    (\<forall>c\<in>set (candidates (reconciled (metered_env le se s) s)).
       c_class c = ClassBackground \<and> c_user c = bg_user row \<and> c_lane c = bg_lane row \<and>
       c_run c \<in> run_id ` set (snd (fst (claimPass (metered_env le se s) s))) \<longrightarrow>
       (\<exists>stop weight. set_float (env_settings (se_env se)) keyBgAdmitStop = Some stop \<and>
          set_float (env_settings (se_env se)) keyCacheReadWeight = Some weight \<and>
          fl (weightedConsumption (bg_user row) (bg_lane row)
              (if is_zero_time (bg_start row) then bg_ts row else bg_start row) True weight s /
            fl (of_int (bg_tokens row))) < stop))"
    (is "_ \<and> _ \<and> _ = ?b \<and> _")
proof -
  note d = DeclareBudget_Inr [OF decl]
  have b: "BudgetFor (bg_user row) (bg_lane row) s = ?b"
    using d(2) by (auto simp: BudgetFor_def budget_of_row_def)
  have g: "good s" "queue_ok s"
    using stores_keep_good [OF good(1,2), of s] DeclareBudget_frame [OF decl] by auto
  have "\<exists>stop weight. set_float (env_settings (se_env se)) keyBgAdmitStop = Some stop \<and>
      set_float (env_settings (se_env se)) keyCacheReadWeight = Some weight \<and>
      fl (weightedConsumption (bg_user row) (bg_lane row) (bu_start ?b) True weight s / fl (of_int (bg_tokens row))) < stop"
    if c: "c \<in> set (candidates (reconciled (metered_env le se s) s))" "c_class c = ClassBackground"
      "c_user c = bg_user row" "c_lane c = bg_lane row"
      "c_run c \<in> run_id ` set (snd (fst (claimPass (metered_env le se s) s)))" for c
  proof -
    obtain e rs u where pass: "claimPass (metered_env le se s) s = ((e, rs), u)" by (metis prod.collapse)
    from metered_dispatched [OF g good(3) pass c(1,2)] c(5) pass obtain stop gr where
      gr: "set_float (env_settings (se_env se)) keyBgAdmitStop = Some stop"
      "ReadGauge (env_settings (se_env se)) (bg_user row) (bg_lane row) ?b s = Inr gr"
      "gr_applicable gr \<longrightarrow> gr_pressure gr < stop"
      by (auto simp: c(3,4) b)
    then show ?thesis
      using d(4) by (auto simp: ReadGauge_def Let_def split: sum.splits)
  qed
  moreover have "BudgetFor u l s = BudgetFor u l s0" if "(u, l) \<noteq> (bg_user row, bg_lane row)" for u l
    using d(3) [OF that] by (simp add: BudgetFor_def)
  ultimately show ?thesis using d(1) b by simp
qed

definition sample_budget :: budget_row where
  "sample_budget = \<lparr>bg_user = ''ann'', bg_lane = ''anthropic'', bg_tokens = 100, bg_start = 0, bg_days = 7,
     bg_ts = 900, bg_by = ''ann''\<rparr>"

theorem budget_bounds_background_witness:
  "\<exists>s. DeclareBudget sample_budget sample_user_db = (Inr None, s) \<and>
     BudgetFor ''ann'' ''anthropic'' s = \<lparr>bu_tokens = 100, bu_start = 900, bu_declared = True\<rparr>"
proof -
  have users: "t_users sample_user_db = [\<lparr>user_id = ''ann'', user_paused = False\<rparr>]"
    by (simp add: sample_user_db_def)
  have "\<exists>prior s. DeclareBudget sample_budget sample_user_db = (Inr prior, s)"
    by (simp add: DeclareBudget_def DeclareBudgetTx_def sample_budget_def has_user_def users tx_eval)
  then obtain prior s where s: "DeclareBudget sample_budget sample_user_db = (Inr prior, s)" by blast
  note p = budget_bounds_background [OF sample_user_ok s, of sample_ledger]
  have "t_budgets sample_user_db = []"
    by (simp add: sample_user_db_def sample_background_def queue_eval ActorPlatform_def tx_eval json_eval
        append_eval run_eval sample_eval cong: tx_bind_weak)
  then have "prior = None" using conjunct1 [OF p] by (simp add: find_budget_def tbl_find_def)
  moreover have "BudgetFor ''ann'' ''anthropic'' s = \<lparr>bu_tokens = 100, bu_start = 900, bu_declared = True\<rparr>"
    using conjunct1 [OF conjunct2 [OF conjunct2 [OF p]]] by (simp add: sample_budget_def is_zero_time_def)
  ultimately show ?thesis using s by auto
qed

section \<open>Plan budgets\<close>

text \<open>The two documents that ship, \<open>plandata/zai.json\<close> and \<open>plandata/kimi.json\<close>.\<close>

definition zai_doc :: plan_doc where
  "zai_doc = \<lparr>pd_lane = ''zai'', pd_plan = ''GLM Coding Max'', pd_unit = ''credits'', pd_assumed = ''ASSUMED.'',
     pd_verified = ''2026-08-23'', pd_source = ''https://docs.z.ai/devpack/overview'', pd_pool = [],
     pd_pool_lanes = [], pd_pool_note = [],
     pd_multipliers =
       [\<lparr>pm_name = ''peak'', pm_factor = 1, pm_days = [''Mon'', ''Tue'', ''Wed'', ''Thu'', ''Fri''],
         pm_from = 14, pm_to = 18, pm_offset = 480, pm_default = False, pm_verified = ''2026-08-23''\<rparr>,
        \<lparr>pm_name = ''off-peak'', pm_factor = 1 / 2, pm_days = [], pm_from = 0, pm_to = 0, pm_offset = 0,
         pm_default = True, pm_verified = ''2026-08-23''\<rparr>],
     pd_quotas =
       [\<lparr>pq_name = ''rolling-5h'', pq_unit = [], pq_units = 28000, pq_hours = 5, pq_unverified = False,
         pq_verified = ''2026-08-23''\<rparr>,
        \<lparr>pq_name = ''weekly'', pq_unit = [], pq_units = 140000, pq_hours = 168, pq_unverified = False,
         pq_verified = ''2026-08-23''\<rparr>]\<rparr>"

definition kimi_doc :: plan_doc where
  "kimi_doc = \<lparr>pd_lane = ''kimi'', pd_plan = ''Kimi Code membership'', pd_unit = ''requests'',
     pd_assumed = ''ASSUMED'', pd_verified = ''2026-08-24'', pd_source = ''https://www.kimi.com/code/docs/en/'',
     pd_pool = ''kimi-code-membership'', pd_pool_lanes = [''kimi'', ''kimi-cli''],
     pd_pool_note = ''ONE ALLOWANCE, TWO LANES'',
     pd_multipliers = [\<lparr>pm_name = ''standard'', pm_factor = 1, pm_days = [], pm_from = 0, pm_to = 0,
         pm_offset = 0, pm_default = True, pm_verified = ''2026-08-24''\<rparr>],
     pd_quotas =
       [\<lparr>pq_name = ''rolling-5h'', pq_unit = ''requests'', pq_units = 300, pq_hours = 5, pq_unverified = False,
         pq_verified = ''2026-08-24''\<rparr>,
        \<lparr>pq_name = ''weekly'', pq_unit = ''credits'', pq_units = 0, pq_hours = 168, pq_unverified = True,
         pq_verified = ''2026-08-24''\<rparr>]\<rparr>"

definition shipped_docs :: plan_files where
  "shipped_docs = [(''plandata/kimi.json'', Some kimi_doc), (''plandata/zai.json'', Some zai_doc)]"

lemmas plan_eval = plan_doc_ok_def valid_date_def multiplier_ok_def validatePool_def is_digit_def days_in_def
  is_leap_def Let_def

lemma shipped_ok: "plan_doc_ok kimi_doc" "plan_doc_ok zai_doc"
  by (simp_all add: kimi_doc_def zai_doc_def plan_eval)

lemma shipped_docs_for:
  "PlanDocFor shipped_docs ''kimi'' = Some kimi_doc" "PlanDocFor shipped_docs ''kimi-cli'' = Some kimi_doc"
  "PlanDocFor shipped_docs ''zai'' = Some zai_doc"
proof -
  have members: "poolMembers kimi_doc = [''kimi'', ''kimi-cli'']" "poolMembers zai_doc = []"
    "pd_lane kimi_doc = ''kimi''" "pd_lane zai_doc = ''zai''"
    by (simp_all add: poolMembers_def kimi_doc_def zai_doc_def)
  have "loadPlanDocs shipped_docs = Inr [kimi_doc, zai_doc]"
    by (simp add: loadPlanDocs_def shipped_docs_def ends_with_def shipped_ok members less_char_def)
  moreover have "CountsLane kimi_doc l = (l = ''kimi'' \<or> l = ''kimi-cli'')" "CountsLane zai_doc l = (l = ''zai'')" for l
    by (auto simp: CountsLane_def kimi_doc_def zai_doc_def)
  ultimately show "PlanDocFor shipped_docs ''kimi'' = Some kimi_doc"
    "PlanDocFor shipped_docs ''kimi-cli'' = Some kimi_doc" "PlanDocFor shipped_docs ''zai'' = Some zai_doc"
    by (simp_all add: PlanDocFor_def)
qed

lemma DeclarePlan_Inr:
  assumes "DeclarePlan files row s = (Inr prior, t)"
  obtains d row' where "PlanDocFor files (pb_lane row) = Some d" "PlanPoolRefusal d (pb_lane row) = None"
    "PlanBudgetWindowRefusal d (pb_window row) = None" "0 < pb_units row"
    "row' = (if is_zero_time (pb_start row) then row\<lparr>pb_start := pb_ts row\<rparr> else row)"
    "prior = readPlanBudget (pb_user row) (pb_lane row) (pb_window row) s"
    "t = s\<lparr>t_plan_budgets := upsert (plan_key (pb_user row) (pb_lane row) (pb_window row)) row' (t_plan_budgets s)\<rparr>"
proof -
  define row' where "row' = (if is_zero_time (pb_start row) then row\<lparr>pb_start := pb_ts row\<rparr> else row)"
  have keys: "pb_user row' = pb_user row" "pb_lane row' = pb_lane row" "pb_window row' = pb_window row"
    by (simp_all add: row'_def)
  from assms obtain d where d: "PlanDocFor files (pb_lane row) = Some d" "PlanPoolRefusal d (pb_lane row) = None"
    "PlanBudgetWindowRefusal d (pb_window row) = None" "plan_row_ok row"
    "write_tx (DeclarePlanTx row') s = (Inr prior, t)"
    by (auto simp: DeclarePlan_def row'_def Let_def split: if_splits option.splits)
  from d(5) have "prior = readPlanBudget (pb_user row) (pb_lane row) (pb_window row) s"
    "t = s\<lparr>t_plan_budgets := upsert (plan_key (pb_user row) (pb_lane row) (pb_window row)) row' (t_plan_budgets s)\<rparr>"
    by (auto simp: write_tx_def DeclarePlanTx_def keys tx_simps split: sum.splits if_splits)
  with d(1-4) show thesis by (intro that [OF _ _ _ _ row'_def]) (simp_all add: plan_row_ok_def)
qed

text \<open>
  C22: a plan budget is declared once for the lanes that share its allowance.  After a declaration
  succeeds, every lane the document counts reads that budget, through one row that replaced the old one, and
  the reading of each divides the same calls, those of all the lanes together, by it, until its period
  ends; no other budget changes.
\<close>
theorem plan_budget_covers_pool:
  assumes files: "distinct (map fst files)" and decl: "DeclarePlan files row s = (Inr prior, t)"
  shows "\<exists>d b. PlanDocFor files (pb_lane row) = Some d \<and>
    b = row_budget (if is_zero_time (pb_start row) then row\<lparr>pb_start := pb_ts row\<rparr> else row) \<and>
    (\<forall>lane. CountsLane d lane \<longrightarrow> PlanDocFor files lane = Some d \<and>
       PlanBudgetFor files (pb_user row) lane (pb_window row) t = b) \<and>
    (\<forall>user lane w. readPlanBudget user lane w t =
       (if (user, lane, w) = (pb_user row, pb_lane row, pb_window row) then readPlanBudget user lane w t
        else readPlanBudget user lane w s)) \<and>
    (\<forall>cfg lane now u bg. read_float cfg keyBgWindowFraction = Inr bg \<longrightarrow> CountsLane d lane \<longrightarrow>
       (\<exists>g. ReadPlanUnits cfg (pb_user row) lane d b now u = Inr g \<and> pg_unit g = pd_unit d \<and>
         pg_applicable g = (\<not> planPeriodEnded b now) \<and>
         (pg_calls g, pg_consumed g) = planUnits (pb_user row) d (pl_start b) True now u \<and>
         (pg_applicable g \<longrightarrow> pg_pressure g = fl (pg_consumed g / pb_units row))))"
proof -
  from decl obtain d row' where d: "PlanDocFor files (pb_lane row) = Some d"
    "PlanPoolRefusal d (pb_lane row) = None" "PlanBudgetWindowRefusal d (pb_window row) = None" "0 < pb_units row"
    and row': "row' = (if is_zero_time (pb_start row) then row\<lparr>pb_start := pb_ts row\<rparr> else row)"
    and t: "t = s\<lparr>t_plan_budgets := upsert (plan_key (pb_user row) (pb_lane row) (pb_window row)) row' (t_plan_budgets s)\<rparr>"
    by (rule DeclarePlan_Inr)
  have keys: "pb_user row' = pb_user row" "pb_lane row' = pb_lane row" "pb_window row' = pb_window row"
    "pb_units row' = pb_units row" by (simp_all add: row')
  have stored: "readPlanBudget (pb_user row) (pb_lane row) (pb_window row) t = Some row'"
    unfolding t readPlanBudget_def by (simp add: upsert_find plan_key_def keys)
  have others: "readPlanBudget user lane w t = readPlanBudget user lane w s"
    if "(user, lane, w) \<noteq> (pb_user row, pb_lane row, pb_window row)" for user lane w
  proof -
    have "tbl_find (plan_key user lane w) (upsert (plan_key (pb_user row) (pb_lane row) (pb_window row)) row' rows) =
        tbl_find (plan_key user lane w) rows" for rows
      by (rule upsert_other) (use that in \<open>auto simp: plan_key_def keys\<close>)
    then show ?thesis by (simp add: t readPlanBudget_def)
  qed
  have member: "PlanDocFor files lane = Some d" "PlanBudgetFor files (pb_user row) lane (pb_window row) t = row_budget row'"
    if "CountsLane d lane" for lane
    using PlanDocFor_member [OF d(1) that files] PoolBudgetLane_member [OF d(1) that files d(2)] stored
    by (simp_all add: PlanBudgetFor_def)
  have refusal: "budget_refusal d (row_budget row') now = (if planPeriodEnded (row_budget row') now then Some PeriodEnded else None)"
    for now using d(2,3) by (simp add: budget_refusal_def row_budget_def keys)
  have "\<exists>g. ReadPlanUnits cfg (pb_user row) lane d (row_budget row') now u = Inr g \<and> pg_unit g = pd_unit d \<and>
      pg_applicable g = (\<not> planPeriodEnded (row_budget row') now) \<and>
      (pg_calls g, pg_consumed g) = planUnits (pb_user row) d (pl_start (row_budget row')) True now u \<and>
      (pg_applicable g \<longrightarrow> pg_pressure g = fl (pg_consumed g / pb_units row))"
    if "read_float cfg keyBgWindowFraction = Inr bg" for cfg lane now u bg
  proof -
    have b: "pl_declared (row_budget row')" "0 < pl_units (row_budget row')" "pl_units (row_budget row') = pb_units row"
      using d(4) by (simp_all add: row_budget_def keys)
    have none: "(budget_refusal d (row_budget row') now = None) = (\<not> planPeriodEnded (row_budget row') now)"
      using refusal [of now] by simp
    show ?thesis using ReadPlanUnits_declared [OF b(1,2) that, of "pb_user row" lane d now u] unfolding b(3) none .
  qed
  with member others d(1) show ?thesis unfolding row' by fastforce
qed

definition sample_plan_row :: plan_budget_row where
  "sample_plan_row = \<lparr>pb_user = ''ann'', pb_lane = ''kimi'', pb_window = ''rolling-5h'', pb_units = 240,
     pb_unit = ''requests'', pb_start = 0, pb_hours = 5, pb_source = ''operator-set'', pb_seeded = [],
     pb_fraction = 0, pb_ts = 900, pb_by = ''ann''\<rparr>"

theorem plan_budget_covers_pool_witness:
  "\<exists>t. DeclarePlan shipped_docs sample_plan_row sample_user_db = (Inr None, t) \<and>
     pl_units (PlanBudgetFor shipped_docs ''ann'' ''kimi-cli'' ''rolling-5h'' t) = 240"
proof -
  have users: "t_users sample_user_db = [\<lparr>user_id = ''ann'', user_paused = False\<rparr>]" "t_plan_budgets sample_user_db = []"
    by (simp_all add: sample_user_db_def sample_background_def queue_eval ActorPlatform_def tx_eval json_eval
        append_eval run_eval sample_eval cong: tx_bind_weak)
  have q: "PlanPoolRefusal kimi_doc ''kimi'' = None" "PlanBudgetWindowRefusal kimi_doc ''rolling-5h'' = None"
    "QuotaUnit kimi_doc ''rolling-5h'' = ''requests''"
    by (simp_all add: PlanPoolRefusal_def PlanBudgetWindowRefusal_def QuotaUnit_def Quota_def kimi_doc_def)
  have "\<exists>t. DeclarePlan shipped_docs sample_plan_row sample_user_db = (Inr None, t)"
    by (simp add: DeclarePlan_def DeclarePlanTx_def sample_plan_row_def plan_row_ok_def PlanBudgetOperatorSet_def
        is_zero_time_def shipped_docs_for q has_user_def users readPlanBudget_def tbl_find_def tx_eval)
  then obtain t where t: "DeclarePlan shipped_docs sample_plan_row sample_user_db = (Inr None, t)" by blast
  from plan_budget_covers_pool [OF _ this]
  have "PlanBudgetFor shipped_docs ''ann'' ''kimi-cli'' ''rolling-5h'' t =
      row_budget (sample_plan_row\<lparr>pb_start := 900\<rparr>)"
    by (auto simp: shipped_docs_def [THEN arg_cong [of _ _ "map fst"]] sample_plan_row_def is_zero_time_def
        shipped_docs_for CountsLane_def kimi_doc_def)
  with t show ?thesis by (simp add: row_budget_def sample_plan_row_def)
qed

text \<open>
  every call on a plan's lanes is charged, at its own instant's rate.  For a document in use, a reading
  counts exactly the person's calls on its lanes that lie in the period and sums their rates, each that of
  a row of the document, positive and at most the standard rate, so no call is free and none is charged
  above the standard.
\<close>
theorem plan_calls_charged:
  assumes "PlanDocFor files lane = Some d"
  shows "(\<forall>t. 0 < fst (MultiplierAt d t) \<and> fst (MultiplierAt d t) \<le> StandardMultiplier d \<and>
      (\<exists>m\<in>set (pd_multipliers d). MultiplierAt d t = (pm_factor m, pm_name m) \<and> (pm_default m \<or> covers m t))) \<and>
    (let rows = filter (\<lambda>r. in_plan_period since pinned now (sr_created r)) (plan_rows user d s);
         (calls, consumed) = planUnits user d since pinned now s
     in calls = int (length rows) \<and>
        consumed = float_sum (map (\<lambda>r. fst (MultiplierAt d (sr_created r))) rows) \<and>
        0 \<le> consumed \<and> consumed \<le> float_sum (map (\<lambda>r. StandardMultiplier d) rows))"
proof -
  note ok = PlanDocFor_Some(1) [OF assms]
  let ?rows = "filter (\<lambda>r. in_plan_period since pinned now (sr_created r)) (plan_rows user d s)"
  have "0 \<le> float_sum (map (\<lambda>r. fst (MultiplierAt d (sr_created r))) ?rows) \<and>
      float_sum (map (\<lambda>r. fst (MultiplierAt d (sr_created r))) ?rows) \<le> float_sum (map (\<lambda>r. StandardMultiplier d) ?rows)"
    using MultiplierAt_bounds [OF ok] by (intro float_sum_mono) (auto intro: less_imp_le)
  then show ?thesis
    using MultiplierAt_bounds [OF ok] MultiplierAt_row [OF ok] unfolding planUnits_eq Let_def by simp
qed

theorem plan_calls_charged_witness:
  "\<forall>t. fst (MultiplierAt zai_doc t) \<le> 1"
proof -
  have "StandardMultiplier zai_doc = 1" by (simp add: StandardMultiplier_def zai_doc_def)
  then show ?thesis using plan_calls_charged [OF shipped_docs_for(3)] by simp
qed

section \<open>Spend\<close>

lemma add_day_find:
  "map_of (add_day d c ds) d' = (if d' = d then Some (case map_of ds d of
       None \<Rightarrow> (case c of None \<Rightarrow> 0 | Some x \<Rightarrow> fl (0 + x))
     | Some t \<Rightarrow> (case c of None \<Rightarrow> t | Some x \<Rightarrow> fl (t + x))) else map_of ds d')"
  by (induction d c ds rule: add_day.induct) auto

lemma add_day_keys: "set (map fst (add_day d c ds)) = insert d (set (map fst ds))"
  by (induction d c ds rule: add_day.induct) auto

lemma add_day_distinct: "distinct (map fst ds) \<Longrightarrow> distinct (map fst (add_day d c ds))"
  by (induction d c ds rule: add_day.induct) (use add_day_keys in auto)

lemma per_day_groups:
  "distinct (map fst (per_day le rows)) \<and>
   map_of (per_day le rows) d =
     (let own = filter (\<lambda>r. day_of (sr_created r) = d) rows
      in if own = [] then None else Some (float_sum (priced_rows le own)))"
proof (induction rows rule: rev_induct)
  case Nil
  then show ?case by (simp add: per_day_def)
next
  case (snoc r rows)
  let ?c = "cost_of (price_source_row le r)"
  have step: "per_day le (rows @ [r]) = add_day (day_of (sr_created r)) ?c (per_day le rows)"
    by (simp add: per_day_def)
  have empty: "priced_rows le [] = []" by (simp add: priced_rows_def)
  from snoc show ?case
    unfolding step
    by (cases "price_source_row le r")
       (auto simp: add_day_distinct add_day_find cost_of_def priced_rows_snoc float_sum_def Let_def empty
         priced_rows_def [of le "[]"] split: if_splits)
qed

text \<open>
  a person's spend is totalled per calendar day.  Today's figure is the sum of the priced calls of
  today in the window and the history counts the distinct earlier days with a call, unpriced ones
  included; a call is in the window exactly when its instant is, except within the very second of a bound,
  where the stored texts are compared.
\<close>
theorem spend_by_day:
  "let days = (if windowDays \<le> 0 then 1 else windowDays); today = day_of asOf;
       start = (today - days) * day_length; stop = (today + 1) * day_length;
       rows = spend_rows user start stop s; w = SpendWindow le user asOf windowDays s
   in sw_today w = float_sum (priced_rows le (filter (\<lambda>r. day_of (sr_created r) = today) rows)) \<and>
      sw_history w = card ((\<lambda>r. day_of (sr_created r)) ` set rows - {today}) \<and>
      (\<forall>c\<in>set (t_checkpoints s). \<forall>r. ck_user c = user \<and> find_run (ck_run c) s = Some r \<and>
         ck_created c div second \<noteq> start div second \<and> ck_created c div second \<noteq> stop div second \<longrightarrow>
         (start \<le> ck_created c \<and> ck_created c < stop \<longrightarrow> source_of (run_lane r) c \<in> set rows)) \<and>
      (\<forall>r\<in>set rows. sr_created r div second \<noteq> start div second \<and> sr_created r div second \<noteq> stop div second \<longrightarrow>
         start \<le> sr_created r \<and> sr_created r < stop)"
proof -
  define days where "days = (if windowDays \<le> 0 then 1 else windowDays)"
  define today where "today = day_of asOf"
  define start where "start = (today - days) * day_length"
  define stop where "stop = (today + 1) * day_length"
  define rows where "rows = spend_rows user start stop s"
  have w: "SpendWindow le user asOf windowDays s = \<lparr>sw_user = user, sw_day = today,
          sw_today = (case map_of (per_day le rows) today of None \<Rightarrow> 0 | Some t \<Rightarrow> t),
          sw_median = median (map snd (filter (\<lambda>d. fst d \<noteq> today) (per_day le rows))),
          sw_history = length (filter (\<lambda>d. fst d \<noteq> today) (per_day le rows)),
          sw_any_unpriced = list_ex (\<lambda>r. price_source_row le r = Unpriced) rows\<rparr>"
    by (simp add: SpendWindow_def Let_def days_def today_def start_def stop_def rows_def)
  note g = per_day_groups [of le rows]
  have keys: "set (map fst (per_day le rows)) = (\<lambda>r. day_of (sr_created r)) ` set rows"
  proof -
    have "d \<in> set (map fst (per_day le rows)) \<longleftrightarrow> d \<in> (\<lambda>r. day_of (sr_created r)) ` set rows" for d
      using per_day_groups [of le rows d] map_of_eq_None_iff [of "per_day le rows" d]
      by (auto simp: Let_def filter_empty_conv split: if_splits)
    then show ?thesis by blast
  qed
  have "length (filter (\<lambda>d. fst d \<noteq> today) (per_day le rows)) =
      card (set (filter (\<lambda>d. d \<noteq> today) (map fst (per_day le rows))))"
    using g by (subst distinct_card) (simp_all add: filter_map comp_def distinct_map_filter)
  also have "set (filter (\<lambda>d. d \<noteq> today) (map fst (per_day le rows))) =
      (\<lambda>r. day_of (sr_created r)) ` set rows - {today}"
    unfolding set_filter keys by auto
  finally have hist: "sw_history (SpendWindow le user asOf windowDays s) =
      card ((\<lambda>r. day_of (sr_created r)) ` set rows - {today})" by (simp add: w)
  have zero: "float_sum (priced_rows le []) = 0" by (simp add: priced_rows_def float_sum_def)
  have "sw_today (SpendWindow le user asOf windowDays s) =
      float_sum (priced_rows le (filter (\<lambda>r. day_of (sr_created r) = today) rows))"
    using conjunct2 [OF g, of today] zero by (simp add: w Let_def split: if_splits)
  moreover have "source_of (run_lane r) c \<in> set rows"
    if "c \<in> set (t_checkpoints s)" "ck_user c = user" "find_run (ck_run c) s = Some r"
      "ck_created c div second \<noteq> start div second" "ck_created c div second \<noteq> stop div second"
      "start \<le> ck_created c" "ck_created c < stop" for c r
    using that by (force simp: rows_def spend_rows_def stamp_le_seconds stamp_less_seconds)
  moreover have "start \<le> sr_created r \<and> sr_created r < stop"
    if "r \<in> set rows" "sr_created r div second \<noteq> start div second" "sr_created r div second \<noteq> stop div second" for r
    using that stamp_le_seconds [of start "sr_created r"] stamp_less_seconds [of "sr_created r" stop]
    by (auto simp: rows_def spend_rows_def source_of_def split: if_splits option.splits)
  ultimately show ?thesis
    using hist unfolding Let_def days_def [symmetric] today_def [symmetric] start_def [symmetric]
      stop_def [symmetric] rows_def [symmetric] by blast
qed

text \<open>One call, half a second after midnight.\<close>

definition sample_day_db :: db where
  "sample_day_db = sample_running\<lparr>t_checkpoints := [sample_ck 1 raw_empty (738000 * day_length + 500000000)]\<rparr>"

theorem spend_by_day_witness:
  "sw_history (SpendWindow sample_ledger ''ann'' (738000 * day_length + 3600 * second) 1 sample_day_db) = 0 \<and>
   day_of (738000 * day_length + 500000000) = 738000"
proof -
  have "spend_rows ''ann'' (737999 * day_length) (738001 * day_length) sample_day_db =
      [source_of ''anthropic'' (sample_ck 1 raw_empty (738000 * day_length + 500000000))]"
    using sample_metered_run
    by (auto simp: sample_day_db_def sample_metered_def spend_rows_def sample_ck_def find_run_def
        stamp_le_seconds stamp_less_seconds day_length_def second_def)
  with spend_by_day [of 1 "738000 * day_length + 3600 * second" "''ann''" sample_day_db sample_ledger] show ?thesis
    by (simp add: Let_def day_of_def day_length_def second_def source_of_def sample_ck_def)
qed

text \<open>
  Within the second of a bound the texts decide, and they order the half second after midnight before
  midnight: the owner of the day's only call, made at that instant, is not among the day's spend owners.
\<close>

lemma stamp_inverted_day: "stamp_less (n * day_length + 500000000) (n * day_length)"
proof -
  have e: "n * day_length = (n * 86400) * second" by (simp add: day_length_def)
  have "((n * 86400) * second + 500000000) div second = n * 86400" "(n * 86400) * second div second = n * 86400"
    "((n * 86400) * second + 500000000) mod second = 500000000" "(n * 86400) * second mod second = 0"
    by (simp_all only: div_mult_self3 mod_mult_self3 div_mult_self_is_m nonzero_mult_div_cancel_right
        mod_mult_self2_is_0) (simp_all add: second_def)
  then show ?thesis unfolding e
    by (simp add: stamp_less_def frac_text_def pad9_def strip_zeros_def dec_int_def dec_nat.simps
        digit_char_def less_char_def)
qed

lemma first_half_second_missed:
  "SpendOwners (738000 * day_length + 3600 * second) sample_day_db = []"
proof -
  have "day_of (738000 * day_length + 3600 * second) = 738000"
    by (simp add: day_of_def day_length_def second_def)
  then show ?thesis
    using stamp_inverted_day [of 738000]
    by (simp add: SpendOwners_def Let_def sample_day_db_def sample_ck_def stamp_le_def)
qed

end
