(* ===== verification/Port_Pool.thy ===== *)
theory Port_Pool
  imports Tx_Prelude
begin

text \<open>
  \<open>internal/portpool\<close>: the file-backed pool of preview ports, shared by processes through one directory.
  The state is that of the directory, per port its reservation file and its lock file; every system call
  on them is one step, so the calls of different processes interleave.  Within a process the mutex of the
  allocator leaves one operation at a time.

  A reservation appears in one piece (a temporary file is linked into place), so a reservation file is
  absent, complete, or unreadable.  Failures of the disk itself (no space, no permission) are not modelled.
\<close>

section \<open>The pool\<close>

record reservation =
  rv_port :: int
  rv_owner :: string
  rv_at :: time

datatype slot = Unreadable | Reserved reservation

record pool =
  pf_res :: "int \<rightharpoonup> slot"
  pf_lock :: "int \<rightharpoonup> time" \<comment> \<open>the modification time of the lock file\<close>

record allocator =
  al_lo :: int
  al_hi :: int
  al_stale :: duration

datatype pool_error = ErrPoolExhausted | ErrBadOwner | ErrBadRange int int | NoReservationDir

definition DefaultRangeLo :: int where "DefaultRangeLo = 47600"
definition DefaultRangeHi :: int where "DefaultRangeHi = 47619"
definition DefaultStaleAfter :: duration where "DefaultStaleAfter = 48 * hour"
definition lockStale :: duration where "lockStale = 30 * second"

definition new_allocator :: "string \<Rightarrow> int \<Rightarrow> int \<Rightarrow> duration \<Rightarrow> pool_error + allocator" where
  "new_allocator dir lo0 hi0 staleAfter =
     (if dir = [] then Inl NoReservationDir
      else
        let (lo, hi) = (if lo0 = 0 \<and> hi0 = 0 then (DefaultRangeLo, DefaultRangeHi) else (lo0, hi0))
        in if lo \<le> 0 \<or> hi < lo then Inl (ErrBadRange lo hi)
           else Inr \<lparr>al_lo = lo, al_hi = hi,
                  al_stale = (if staleAfter = 0 then DefaultStaleAfter else staleAfter)\<rparr>)"

text \<open>A file that is absent or unreadable counts as stale.\<close>

definition stale :: "allocator \<Rightarrow> slot option \<Rightarrow> time \<Rightarrow> bool" where
  "stale al f now = (case f of
      Some (Reserved r) \<Rightarrow> time_sub now (rv_at r) > al_stale al
    | _ \<Rightarrow> True)"

section \<open>Operations alone on the directory\<close>

definition fresh_reservation :: "int \<Rightarrow> string \<Rightarrow> time \<Rightarrow> slot" where
  "fresh_reservation port owner now = Reserved \<lparr>rv_port = port, rv_owner = owner, rv_at = now\<rparr>"

definition tryClaim :: "int \<Rightarrow> string \<Rightarrow> time \<Rightarrow> pool \<Rightarrow> bool \<times> pool" where
  "tryClaim port owner now fs = (case pf_res fs port of
      Some _ \<Rightarrow> (False, fs)
    | None \<Rightarrow> (True, fs\<lparr>pf_res := (pf_res fs)(port \<mapsto> fresh_reservation port owner now)\<rparr>))"

text \<open>Opening the lock file, taking over one older than \<open>lockStale\<close>; \<open>wall\<close> is the wall clock.\<close>

definition open_lock :: "time \<Rightarrow> int \<Rightarrow> pool \<Rightarrow> bool \<times> pool" where
  "open_lock wall port fs = (case pf_lock fs port of
      None \<Rightarrow> (True, fs\<lparr>pf_lock := (pf_lock fs)(port \<mapsto> wall)\<rparr>)
    | Some since \<Rightarrow>
        if time_sub wall since > lockStale
        then (True, fs\<lparr>pf_lock := (pf_lock fs)(port \<mapsto> wall)\<rparr>)
        else (False, fs))"

definition reclaimAndClaim :: "allocator \<Rightarrow> time \<Rightarrow> int \<Rightarrow> string \<Rightarrow> time \<Rightarrow> pool \<Rightarrow> bool \<times> pool" where
  "reclaimAndClaim al wall port owner now fs =
     (if al_stale al < 0 \<or> \<not> stale al (pf_res fs port) now then (False, fs)
      else case open_lock wall port fs of
        (False, fs1) \<Rightarrow> (False, fs1)
      | (True, fs1) \<Rightarrow>
          if \<not> stale al (pf_res fs1 port) now
          then (False, fs1\<lparr>pf_lock := (pf_lock fs1)(port := None)\<rparr>)
          else (case tryClaim port owner now (fs1\<lparr>pf_res := (pf_res fs1)(port := None)\<rparr>) of
            (ok, fs2) \<Rightarrow> (ok, fs2\<lparr>pf_lock := (pf_lock fs2)(port := None)\<rparr>)))"

fun allocate_from ::
  "allocator \<Rightarrow> time \<Rightarrow> string \<Rightarrow> time \<Rightarrow> nat \<Rightarrow> int \<Rightarrow> pool \<Rightarrow> (pool_error + int) \<times> pool" where
  "allocate_from al wall owner now 0 port fs = (Inl ErrPoolExhausted, fs)"
| "allocate_from al wall owner now (Suc n) port fs =
     (case tryClaim port owner now fs of
        (True, fs1) \<Rightarrow> (Inr port, fs1)
      | (False, fs1) \<Rightarrow> (case reclaimAndClaim al wall port owner now fs1 of
            (True, fs2) \<Rightarrow> (Inr port, fs2)
          | (False, fs2) \<Rightarrow> allocate_from al wall owner now n (port + 1) fs2))"

definition pool_size :: "allocator \<Rightarrow> nat" where
  "pool_size al = nat (al_hi al - al_lo al + 1)"

definition Allocate :: "allocator \<Rightarrow> time \<Rightarrow> string \<Rightarrow> time \<Rightarrow> pool \<Rightarrow> (pool_error + int) \<times> pool" where
  "Allocate al wall owner now fs =
     (if owner = [] then (Inl ErrBadOwner, fs)
      else allocate_from al wall owner now (pool_size al) (al_lo al) fs)"

definition Release :: "int \<Rightarrow> pool \<Rightarrow> pool" where
  "Release port fs = fs\<lparr>pf_res := (pf_res fs)(port := None)\<rparr>"

text \<open>The directory's reservation files, in some order.\<close>

definition list_reservations :: "int list \<Rightarrow> pool \<Rightarrow> reservation list" where
  "list_reservations ports fs = concat (map (\<lambda>p. case pf_res fs p of
      Some (Reserved r) \<Rightarrow> [r] | _ \<Rightarrow> []) ports)"

section \<open>The daemon's handlers\<close>

datatype response = OK int | NoContent | BadRequest | Conflict

definition handle_allocate ::
  "allocator \<Rightarrow> time \<Rightarrow> time \<Rightarrow> string option \<Rightarrow> pool \<Rightarrow> response \<times> pool" where
  "handle_allocate al wall now body fs = (case body of
      None \<Rightarrow> (BadRequest, fs)
    | Some owner \<Rightarrow> (case Allocate al wall owner now fs of
          (Inr port, fs1) \<Rightarrow> (OK port, fs1)
        | (Inl ErrPoolExhausted, fs1) \<Rightarrow> (Conflict, fs1)
        | (Inl _, fs1) \<Rightarrow> (BadRequest, fs1)))"

definition handle_release :: "int option \<Rightarrow> pool \<Rightarrow> response \<times> pool" where
  "handle_release body fs = (case body of None \<Rightarrow> (BadRequest, fs) | Some port \<Rightarrow> (NoContent, Release port fs))"

section \<open>Processes\<close>

text \<open>
  Where an allocation stands between two system calls.  \<open>Leaving port got\<close> is the deferred removal of
  the lock file: \<open>got\<close> tells whether the port was claimed.
\<close>

datatype position =
    Resting
  | Claiming int
  | Checking int
  | Locking int
  | Statting int
  | Stealing int
  | Relocking int
  | Rechecking int
  | Removing int
  | Linking int
  | Leaving int bool
  | Finished "pool_error + int"

record process =
  ps_owner :: string
  ps_now :: time
  ps_at :: position

definition next_port :: "allocator \<Rightarrow> int \<Rightarrow> position" where
  "next_port al port = (if port < al_hi al then Claiming (port + 1) else Finished (Inl ErrPoolExhausted))"

definition begin_allocate :: "allocator \<Rightarrow> string \<Rightarrow> time \<Rightarrow> process" where
  "begin_allocate al owner now = \<lparr>ps_owner = owner, ps_now = now,
     ps_at = (if owner = [] then Finished (Inl ErrBadOwner)
              else if al_lo al \<le> al_hi al then Claiming (al_lo al)
              else Finished (Inl ErrPoolExhausted))\<rparr>"

text \<open>One system call of an allocation.\<close>

definition advance :: "allocator \<Rightarrow> time \<Rightarrow> process \<Rightarrow> pool \<Rightarrow> position \<times> pool" where
  "advance al wall p fs = (case ps_at p of
      Resting \<Rightarrow> (Resting, fs)
    | Claiming port \<Rightarrow> (case tryClaim port (ps_owner p) (ps_now p) fs of
          (True, fs1) \<Rightarrow> (Finished (Inr port), fs1) | (False, fs1) \<Rightarrow> (Checking port, fs1))
    | Checking port \<Rightarrow>
        if al_stale al < 0 \<or> \<not> stale al (pf_res fs port) (ps_now p) then (next_port al port, fs)
        else (Locking port, fs)
    | Locking port \<Rightarrow> (case pf_lock fs port of
          None \<Rightarrow> (Rechecking port, fs\<lparr>pf_lock := (pf_lock fs)(port \<mapsto> wall)\<rparr>)
        | Some _ \<Rightarrow> (Statting port, fs))
    | Statting port \<Rightarrow> (case pf_lock fs port of
          None \<Rightarrow> (next_port al port, fs)
        | Some since \<Rightarrow> if time_sub wall since > lockStale then (Stealing port, fs) else (next_port al port, fs))
    | Stealing port \<Rightarrow> (Relocking port, fs\<lparr>pf_lock := (pf_lock fs)(port := None)\<rparr>)
    | Relocking port \<Rightarrow> (case pf_lock fs port of
          None \<Rightarrow> (Rechecking port, fs\<lparr>pf_lock := (pf_lock fs)(port \<mapsto> wall)\<rparr>)
        | Some _ \<Rightarrow> (next_port al port, fs))
    | Rechecking port \<Rightarrow>
        if \<not> stale al (pf_res fs port) (ps_now p) then (Leaving port False, fs) else (Removing port, fs)
    | Removing port \<Rightarrow> (Linking port, fs\<lparr>pf_res := (pf_res fs)(port := None)\<rparr>)
    | Linking port \<Rightarrow> (case tryClaim port (ps_owner p) (ps_now p) fs of
          (got, fs1) \<Rightarrow> (Leaving port got, fs1))
    | Leaving port got \<Rightarrow>
        (if got then Finished (Inr port) else next_port al port, fs\<lparr>pf_lock := (pf_lock fs)(port := None)\<rparr>)
    | Finished r \<Rightarrow> (Finished r, fs))"

record world =
  w_fs :: pool
  w_wall :: time
  w_procs :: "nat \<Rightarrow> process"

datatype event = Began nat | Advanced nat | Released int | Crashed nat | Ticked

inductive pool_step :: "allocator \<Rightarrow> world \<Rightarrow> event \<Rightarrow> world \<Rightarrow> bool" for al where
  began: "ps_at (w_procs w i) = Resting \<or> (\<exists>r. ps_at (w_procs w i) = Finished r) \<Longrightarrow>
    pool_step al w (Began i) (w\<lparr>w_procs := (w_procs w)(i := begin_allocate al owner now)\<rparr>)"
| advanced: "advance al (w_wall w) (w_procs w i) (w_fs w) = (pos, fs) \<Longrightarrow>
    pool_step al w (Advanced i) (w\<lparr>w_fs := fs, w_procs := (w_procs w)(i := (w_procs w i)\<lparr>ps_at := pos\<rparr>)\<rparr>)"
| released: "pool_step al w (Released port) (w\<lparr>w_fs := Release port (w_fs w)\<rparr>)"
| crashed: "pool_step al w (Crashed i) (w\<lparr>w_procs := (w_procs w)(i := (w_procs w i)\<lparr>ps_at := Resting\<rparr>)\<rparr>)"
| ticked: "w_wall w \<le> wall \<Longrightarrow> pool_step al w Ticked (w\<lparr>w_wall := wall\<rparr>)"

end
