(* ===== verification/Port_Properties.thy ===== *)
theory Port_Properties
  imports Port_Pool
begin

text \<open>
  What the port pool promises: an allocation alone takes the lowest port it may; the same code run call by
  call computes the same; and processes interleaving on one directory never lose a live reservation to a
  reclaim, unless a reservation is released, or a lock taken over, while another process is inside the
  reclaim section of that port.  The last restriction is needed: without it two processes can be granted
  one port.
\<close>

section \<open>What an allocation promises\<close>

text \<open>
  A port may be taken when nobody has reserved it, or, if reclaiming is on, when its reservation is
  unreadable or older than the staleness bound and no other process holds the lock of the port, a lock older
  than 30 seconds not counting.
\<close>

definition available :: "allocator \<Rightarrow> time \<Rightarrow> time \<Rightarrow> pool \<Rightarrow> int \<Rightarrow> bool" where
  "available al wall now fs port \<longleftrightarrow> (case pf_res fs port of
      None \<Rightarrow> True
    | Some f \<Rightarrow> 0 \<le> al_stale al \<and>
        (case f of Unreadable \<Rightarrow> True | Reserved r \<Rightarrow> al_stale al < time_sub now (rv_at r)) \<and>
        (case pf_lock fs port of None \<Rightarrow> True | Some since \<Rightarrow> 30 * second < time_sub wall since))"

text \<open>
  The lowest such port is reserved for the owner; the lock of a reclaimed port is gone afterwards, and the
  rest of the directory is as it was.
\<close>

definition allocation_spec ::
  "allocator \<Rightarrow> time \<Rightarrow> string \<Rightarrow> time \<Rightarrow> pool \<Rightarrow> (pool_error + int) \<times> pool" where
  "allocation_spec al wall owner now fs =
     (if owner = [] then (Inl ErrBadOwner, fs)
      else case find (available al wall now fs) [al_lo al..al_hi al] of
        None \<Rightarrow> (Inl ErrPoolExhausted, fs)
      | Some port \<Rightarrow> (Inr port,
          \<lparr>pf_res = (pf_res fs)(port \<mapsto> Reserved \<lparr>rv_port = port, rv_owner = owner, rv_at = now\<rparr>),
           pf_lock = (if pf_res fs port = None then pf_lock fs else (pf_lock fs)(port := None))\<rparr>))"

lemma one_port:
  "(case tryClaim port owner now fs of
      (True, fs1) \<Rightarrow> (True, fs1) | (False, fs1) \<Rightarrow> reclaimAndClaim al wall port owner now fs1) =
   (if available al wall now fs port
    then (True, \<lparr>pf_res = (pf_res fs)(port \<mapsto> fresh_reservation port owner now),
       pf_lock = (if pf_res fs port = None then pf_lock fs else (pf_lock fs)(port := None))\<rparr>)
    else (False, fs))"
  by (auto simp: tryClaim_def reclaimAndClaim_def open_lock_def available_def stale_def lockStale_def not_less fun_eq_iff
      intro!: pool.equality split: option.splits slot.splits)

lemma allocate_from_spec:
  "allocate_from al wall owner now n port fs =
     (case find (available al wall now fs) [port..port + int n - 1] of
        None \<Rightarrow> (Inl ErrPoolExhausted, fs)
      | Some p \<Rightarrow> (Inr p, \<lparr>pf_res = (pf_res fs)(p \<mapsto> fresh_reservation p owner now),
          pf_lock = (if pf_res fs p = None then pf_lock fs else (pf_lock fs)(p := None))\<rparr>))"
proof (induction n arbitrary: port)
  case (Suc n)
  have ports: "[port..port + int (Suc n) - 1] = port # [port + 1..(port + 1) + int n - 1]"
    by (subst upto_rec1) (simp_all add: algebra_simps)
  have "allocate_from al wall owner now (Suc n) port fs =
      (case (case tryClaim port owner now fs of
          (True, fs1) \<Rightarrow> (True, fs1) | (False, fs1) \<Rightarrow> reclaimAndClaim al wall port owner now fs1) of
        (True, fs2) \<Rightarrow> (Inr port, fs2)
      | (False, fs2) \<Rightarrow> allocate_from al wall owner now n (port + 1) fs2)"
    by (simp split: prod.split bool.split)
  then show ?case unfolding one_port ports using Suc by simp
qed simp

lemma Allocate_spec: "Allocate al wall owner now fs = allocation_spec al wall owner now fs"
proof -
  have "[al_lo al..al_lo al + int (pool_size al) - 1] = [al_lo al..al_hi al]"
    by (cases "al_lo al \<le> al_hi al") (simp_all add: pool_size_def)
  then show ?thesis
    by (simp add: Allocate_def allocation_spec_def allocate_from_spec fresh_reservation_def cong: option.case_cong)
qed

section \<open>Call by call\<close>

definition solo :: "allocator \<Rightarrow> time \<Rightarrow> process \<times> pool \<Rightarrow> process \<times> pool" where
  "solo al wall x = (case advance al wall (fst x) (snd x) of (pos, fs) \<Rightarrow> ((fst x)\<lparr>ps_at := pos\<rparr>, fs))"

definition runs_to :: "allocator \<Rightarrow> time \<Rightarrow> nat \<Rightarrow> process \<times> pool \<Rightarrow> process \<times> pool \<Rightarrow> bool" where
  "runs_to al wall n x y \<longleftrightarrow> (\<exists>m\<le>n. (solo al wall ^^ m) x = y)"

lemma runs_to_refl: "runs_to al wall n x x"
  unfolding runs_to_def by (rule exI [of _ 0]) simp

lemma runs_to_step: "runs_to al wall n (solo al wall x) y \<Longrightarrow> runs_to al wall (Suc n) x y"
proof -
  assume "runs_to al wall n (solo al wall x) y"
  then obtain m where "m \<le> n" "(solo al wall ^^ m) (solo al wall x) = y" by (auto simp: runs_to_def)
  then show ?thesis unfolding runs_to_def
    by (intro exI [of _ "Suc m"]) (simp add: funpow_swap1)
qed

lemma runs_to_trans: "runs_to al wall n x y \<Longrightarrow> runs_to al wall k y z \<Longrightarrow> runs_to al wall (n + k) x z"
  unfolding runs_to_def
  by (elim exE conjE) (rule_tac x = "ma + m" in exI, simp add: funpow_add)

lemma runs_to_more: "runs_to al wall n x y \<Longrightarrow> n \<le> k \<Longrightarrow> runs_to al wall k x y"
  by (auto simp: runs_to_def intro: order_trans)

text \<open>A port takes at most ten calls.\<close>

lemma solo_port:
  assumes "ps_at p = Claiming port"
  shows "runs_to al wall 10 (p, fs)
    (case (case tryClaim port (ps_owner p) (ps_now p) fs of
       (True, fs1) \<Rightarrow> (True, fs1)
     | (False, fs1) \<Rightarrow> reclaimAndClaim al wall port (ps_owner p) (ps_now p) fs1) of
       (True, fs2) \<Rightarrow> (p\<lparr>ps_at := Finished (Inr port)\<rparr>, fs2)
     | (False, fs2) \<Rightarrow> (p\<lparr>ps_at := next_port al port\<rparr>, fs2))"
proof -
  let ?go = "\<lambda>n. (solo al wall ^^ n) (p, fs)"
  let ?r = "case tryClaim port (ps_owner p) (ps_now p) fs of
       (True, fs1) \<Rightarrow> (True, fs1)
     | (False, fs1) \<Rightarrow> reclaimAndClaim al wall port (ps_owner p) (ps_now p) fs1"
  have at: "\<And>k fs'. k \<le> 10 \<Longrightarrow> ?go k = (p\<lparr>ps_at := (if fst ?r then Finished (Inr port) else next_port al port)\<rparr>, snd ?r) \<Longrightarrow> ?thesis"
    unfolding runs_to_def by (cases ?r) (auto split: bool.split)
  note ev = eval_nat_numeral solo_def advance_def tryClaim_def reclaimAndClaim_def open_lock_def assms
  show ?thesis
  proof (cases "pf_res fs port")
    case None
    show ?thesis by (rule at [of 1]) (simp_all add: ev None)
  next
    case taken: (Some f)
    show ?thesis
    proof (cases "al_stale al < 0 \<or> \<not> stale al (Some f) (ps_now p)")
      case True
      show ?thesis by (rule at [of 2]) (use True in \<open>simp_all add: ev taken\<close>)
    next
      case False
      then have st: "\<not> al_stale al < 0" "stale al (Some f) (ps_now p)" by auto
      show ?thesis
      proof (cases "pf_lock fs port")
        case None
        show ?thesis by (rule at [of 7]) (simp_all add: ev taken st None)
      next
        case (Some since)
        show ?thesis
        proof (cases "time_sub wall since > lockStale")
          case True
          show ?thesis by (rule at [of 10]) (simp_all add: ev taken st Some True)
        next
          case False
          show ?thesis by (rule at [of 4]) (simp_all add: ev taken st Some False)
        qed
      qed
    qed
  qed
qed

text \<open>
  Run call by call with no other process in the directory, an allocation ends, within ten system calls
  a port, with the result and the directory of \<open>Allocate\<close>.
\<close>

lemma solo_refines_allocate:
  "\<exists>n\<le>10 * pool_size al. \<exists>p. (solo al wall ^^ n) (begin_allocate al owner now, fs) =
     (p, snd (Allocate al wall owner now fs)) \<and> ps_at p = Finished (fst (Allocate al wall owner now fs))"
proof -
  have step: "runs_to al wall (10 * n) (p, fs) (p\<lparr>ps_at := Finished (fst r)\<rparr>, snd r)"
    if "ps_at p = (if n = 0 then Finished (Inl ErrPoolExhausted) else Claiming port)"
      "int n = al_hi al - port + 1 \<or> (n = 0 \<and> port > al_hi al)"
      "r = allocate_from al wall (ps_owner p) (ps_now p) n port fs" for n p port fs r
    using that
  proof (induction n arbitrary: p port fs)
    case 0
    then have same: "p\<lparr>ps_at := Finished (Inl ErrPoolExhausted)\<rparr> = p" by (intro process.equality) simp_all
    have r: "r = (Inl ErrPoolExhausted, fs)" using 0 by simp
    show ?case unfolding r fst_conv snd_conv same by (rule runs_to_refl)
  next
    case (Suc n)
    obtain ok fs2 where one: "(case tryClaim port (ps_owner p) (ps_now p) fs of
       (True, fs1) \<Rightarrow> (True, fs1)
     | (False, fs1) \<Rightarrow> reclaimAndClaim al wall port (ps_owner p) (ps_now p) fs1) = (ok, fs2)" by fastforce
    have at: "ps_at p = Claiming port" using Suc.prems(1) by simp
    note go = solo_port [OF at, of al wall fs, unfolded one]
    show ?case
    proof (cases ok)
      case True
      with one Suc.prems(3) have "r = (Inr port, fs2)" by (auto split: prod.splits bool.splits)
      with go True show ?thesis by (auto intro: runs_to_more)
    next
      case False
      with one Suc.prems(3) have r: "r = allocate_from al wall (ps_owner p) (ps_now p) n (port + 1) fs2"
        by (auto split: prod.splits bool.splits)
      have "next_port al port = (if n = 0 then Finished (Inl ErrPoolExhausted) else Claiming (port + 1))"
        using Suc.prems(2) by (auto simp: next_port_def)
      then have "runs_to al wall (10 * n) (p\<lparr>ps_at := next_port al port\<rparr>, fs2)
          ((p\<lparr>ps_at := next_port al port\<rparr>)\<lparr>ps_at := Finished (fst r)\<rparr>, snd r)"
        using Suc.prems(2) r by (intro Suc.IH) auto
      with go False show ?thesis using runs_to_trans [OF go] by simp
    qed
  qed
  show ?thesis
  proof (cases "owner = []")
    case True
    then show ?thesis by (intro exI [of _ 0]) (simp add: begin_allocate_def Allocate_def)
  next
    case False
    have "runs_to al wall (10 * pool_size al) (begin_allocate al owner now, fs)
        ((begin_allocate al owner now)\<lparr>ps_at := Finished (fst (Allocate al wall owner now fs))\<rparr>,
          snd (Allocate al wall owner now fs))"
      by (rule step [where port = "al_lo al"])
         (use False in \<open>auto simp: begin_allocate_def Allocate_def pool_size_def\<close>)
    then show ?thesis unfolding runs_to_def by fastforce
  qed
qed

text \<open>
  C34: an allocation takes the lowest port it may.  Run call by call with no other process in the directory
  it ends, within ten system calls a port, with exactly what \<open>allocation_spec\<close> says: the lowest port of the
  range that has no reservation, or one that is unreadable or older than the staleness bound while reclaiming
  is on and no lock younger than 30 seconds guards it; that port then carries the reservation of the owner
  and the time, a reclaimed port has no lock file any more, and nothing else in the directory has changed.
  With no such port it reports the pool exhausted, for an empty owner an error, and writes nothing.  The
  one-piece model \<open>Allocate\<close> computes the same, and releasing the port makes it available again.
\<close>

theorem allocation_takes_lowest:
  "(\<exists>n\<le>10 * pool_size al. \<exists>p. (solo al wall ^^ n) (begin_allocate al owner now, fs) =
       (p, snd (allocation_spec al wall owner now fs)) \<and>
     ps_at p = Finished (fst (allocation_spec al wall owner now fs))) \<and>
   Allocate al wall owner now fs = allocation_spec al wall owner now fs \<and>
   available al wall' now' (Release port fs') port"
  using solo_refines_allocate [of al wall owner now fs] by (simp add: Allocate_spec available_def Release_def)

text \<open>A range of three ports: the first held by a live preview, the second by one that died long ago.\<close>

definition sample_al :: allocator where
  "sample_al = \<lparr>al_lo = 1, al_hi = 3, al_stale = hour\<rparr>"

definition sample_pool :: pool where
  "sample_pool = \<lparr>pf_res = [1 \<mapsto> fresh_reservation 1 ''x'' (2 * hour), 2 \<mapsto> fresh_reservation 2 ''z'' 0],
     pf_lock = Map.empty\<rparr>"

theorem allocation_takes_lowest_witness:
  "fst (Allocate sample_al 0 ''y'' (2 * hour) sample_pool) = Inr 2"
  unfolding allocation_takes_lowest [THEN conjunct2, THEN conjunct1]
  by (simp add: allocation_spec_def available_def sample_al_def sample_pool_def upto.simps fresh_reservation_def
      time_sub_def hour_def second_def int64_min_def int64_max_def)

section \<open>Interleaving\<close>

definition at_pos :: "world \<Rightarrow> nat \<Rightarrow> position" where
  "at_pos w i = ps_at (w_procs w i)"

definition reclaiming :: "int \<Rightarrow> position \<Rightarrow> bool" where
  "reclaiming port pos \<longleftrightarrow> pos \<in> {Checking port, Locking port, Statting port, Stealing port,
     Relocking port, Rechecking port, Removing port, Linking port, Leaving port True, Leaving port False}"

definition locked :: "int \<Rightarrow> position \<Rightarrow> bool" where
  "locked port pos \<longleftrightarrow>
     pos \<in> {Rechecking port, Removing port, Linking port, Leaving port True, Leaving port False}"

text \<open>A step in which no lock is taken over and no port released that a process is reclaiming.\<close>

definition calm :: "world \<Rightarrow> event \<Rightarrow> bool" where
  "calm w l = (case l of
      Advanced i \<Rightarrow> (\<forall>port. at_pos w i \<noteq> Stealing port)
    | Released port \<Rightarrow> (\<forall>i. \<not> reclaiming port (at_pos w i))
    | _ \<Rightarrow> True)"

inductive calmly :: "allocator \<Rightarrow> world \<Rightarrow> world \<Rightarrow> bool" for al w where
  start: "calmly al w w"
| step: "calmly al w u \<Longrightarrow> pool_step al u l v \<Longrightarrow> calm u l \<Longrightarrow> calmly al w v"

definition pool_inv :: "allocator \<Rightarrow> world \<Rightarrow> bool" where
  "pool_inv al w \<longleftrightarrow>
     (\<forall>i port. locked port (at_pos w i) \<longrightarrow> pf_lock (w_fs w) port \<noteq> None \<and>
        (\<forall>j. locked port (at_pos w j) \<longrightarrow> j = i)) \<and>
     (\<forall>i port. reclaiming port (at_pos w i) \<longrightarrow>
        pf_res (w_fs w) port \<noteq> None \<or> pf_lock (w_fs w) port \<noteq> None) \<and>
     (\<forall>i port. at_pos w i \<in> {Rechecking port, Leaving port True, Leaving port False} \<longrightarrow>
        pf_res (w_fs w) port \<noteq> None) \<and>
     (\<forall>i port. at_pos w i = Removing port \<longrightarrow>
        (\<exists>f. pf_res (w_fs w) port = Some f \<and> stale al (Some f) (ps_now (w_procs w i)))) \<and>
     (\<forall>i port. at_pos w i \<noteq> Relocking port)"

lemma not_reclaiming_next: "\<not> reclaiming q (next_port al port)" "next_port al port \<noteq> Relocking q"
    "next_port al port \<noteq> Removing q" "\<not> locked q (next_port al port)"
    "next_port al port \<notin> {Rechecking q, Leaving q True, Leaving q False}"
  by (simp_all add: next_port_def reclaiming_def locked_def)

lemma locked_reclaiming: "locked port pos \<Longrightarrow> reclaiming port pos"
  by (auto simp: locked_def reclaiming_def)

lemma locked_iff:
  "locked q (Rechecking port) = (q = port)" "locked q (Removing port) = (q = port)"
  "locked q (Linking port) = (q = port)" "locked q (Leaving port got) = (q = port)"
  "\<not> locked q (Finished r)" "\<not> locked q (Checking port)" "\<not> locked q (Locking port)"
  "\<not> locked q (Statting port)" "\<not> locked q (Stealing port)" "\<not> locked q (Claiming port)" "\<not> locked q Resting"
  by (cases got; simp add: locked_def; blast)+

lemma reclaiming_iff:
  "reclaiming q (Rechecking port) = (q = port)" "reclaiming q (Removing port) = (q = port)"
  "reclaiming q (Linking port) = (q = port)" "reclaiming q (Leaving port got) = (q = port)"
  "\<not> reclaiming q (Finished r)" "reclaiming q (Checking port) = (q = port)" "reclaiming q (Locking port) = (q = port)"
  "reclaiming q (Statting port) = (q = port)" "reclaiming q (Stealing port) = (q = port)"
  "\<not> reclaiming q (Claiming port)" "\<not> reclaiming q Resting"
  by (cases got; simp add: reclaiming_def; blast)+

text \<open>What a calm call does to the files and to the caller's position.\<close>

lemma advance_cases:
  assumes "advance al wall p fs = (pos, fs')" "\<And>port. ps_at p \<noteq> Stealing port" "\<And>port. ps_at p \<noteq> Relocking port"
  obtains (stay) "fs' = fs" "pos = ps_at p" "\<And>port. \<not> reclaiming port pos"
  | (claimed) port where "ps_at p = Claiming port" "pf_res fs port = None" "pos = Finished (Inr port)"
      "fs' = fs\<lparr>pf_res := (pf_res fs)(port \<mapsto> fresh_reservation port (ps_owner p) (ps_now p))\<rparr>"
  | (taken) port where "ps_at p = Claiming port" "pf_res fs port \<noteq> None" "pos = Checking port" "fs' = fs"
  | (skipped) port where "reclaiming port (ps_at p)" "\<not> locked port (ps_at p)" "pos = next_port al port" "fs' = fs"
  | (looked) port where "reclaiming port (ps_at p)" "\<not> locked port (ps_at p)"
      "pos \<in> {Locking port, Statting port, Stealing port}" "fs' = fs"
  | (locking) port where "ps_at p = Locking port" "pf_lock fs port = None" "pos = Rechecking port"
      "fs' = fs\<lparr>pf_lock := (pf_lock fs)(port \<mapsto> wall)\<rparr>"
  | (kept) port where "ps_at p = Rechecking port" "pos = Leaving port False" "fs' = fs"
  | (judged) port where "ps_at p = Rechecking port" "stale al (pf_res fs port) (ps_now p)" "pos = Removing port" "fs' = fs"
  | (removed) port where "ps_at p = Removing port" "pos = Linking port"
      "fs' = fs\<lparr>pf_res := (pf_res fs)(port := None)\<rparr>"
  | (linked) port got where "ps_at p = Linking port" "pos = Leaving port got" "pf_res fs' port \<noteq> None"
      "pf_lock fs' = pf_lock fs" "\<And>q. q \<noteq> port \<Longrightarrow> pf_res fs' q = pf_res fs q"
      "\<And>f. pf_res fs port = Some f \<Longrightarrow> pf_res fs' port = Some f"
  | (left) port got where "ps_at p = Leaving port got" "pos = (if got then Finished (Inr port) else next_port al port)"
      "fs' = fs\<lparr>pf_lock := (pf_lock fs)(port := None)\<rparr>"
proof (cases "ps_at p")
  case Resting
  with assms(1) stay show thesis by (auto simp: advance_def reclaiming_def)
next
  case (Claiming port)
  with assms(1) claimed taken show thesis by (auto simp: advance_def tryClaim_def split: option.splits)
next
  case (Checking port)
  then have "reclaiming port (ps_at p)" "\<not> locked port (ps_at p)" by (simp_all add: reclaiming_def locked_def)
  with Checking assms(1) skipped looked show thesis by (auto simp: advance_def split: if_splits)
next
  case (Locking port)
  then have "reclaiming port (ps_at p)" "\<not> locked port (ps_at p)" by (simp_all add: reclaiming_def locked_def)
  with Locking assms(1) looked locking show thesis by (auto simp: advance_def split: option.splits)
next
  case (Statting port)
  then have "reclaiming port (ps_at p)" "\<not> locked port (ps_at p)" by (simp_all add: reclaiming_def locked_def)
  with Statting assms(1) looked skipped show thesis by (auto simp: advance_def split: option.splits if_splits)
next
  case (Rechecking port)
  with assms(1) kept judged show thesis by (auto simp: advance_def split: if_splits)
next
  case (Removing port)
  with assms(1) removed show thesis by (auto simp: advance_def)
next
  case (Linking port)
  show thesis
  proof (cases "pf_res fs port")
    case None
    with Linking assms(1) show thesis
      by (intro linked [of port True]) (auto simp: advance_def tryClaim_def)
  next
    case (Some f)
    with Linking assms(1) show thesis
      by (intro linked [of port False]) (auto simp: advance_def tryClaim_def)
  qed
next
  case (Leaving port got)
  with assms(1) left show thesis by (auto simp: advance_def)
next
  case (Finished r)
  with assms(1) have "pos = Finished r" "fs' = fs" by (simp_all add: advance_def)
  with Finished show thesis by (intro stay) (simp_all add: reclaiming_iff)
qed (use assms(2,3) in auto)

lemma pool_invD:
  assumes "pool_inv al w"
  shows "locked port (at_pos w i) \<Longrightarrow> pf_lock (w_fs w) port \<noteq> None"
    "locked port (at_pos w i) \<Longrightarrow> locked port (at_pos w j) \<Longrightarrow> j = i"
    "reclaiming port (at_pos w i) \<Longrightarrow> pf_res (w_fs w) port \<noteq> None \<or> pf_lock (w_fs w) port \<noteq> None"
    "at_pos w i = Rechecking port \<Longrightarrow> pf_res (w_fs w) port \<noteq> None"
    "at_pos w i = Leaving port got \<Longrightarrow> pf_res (w_fs w) port \<noteq> None"
    "at_pos w i = Removing port \<Longrightarrow>
       \<exists>f. pf_res (w_fs w) port = Some f \<and> stale al (Some f) (ps_now (w_procs w i))"
    "at_pos w i \<noteq> Relocking port"
proof -
  have res: "\<forall>i port. at_pos w i \<in> {Rechecking port, Leaving port True, Leaving port False} \<longrightarrow>
      pf_res (w_fs w) port \<noteq> None"
    using assms unfolding pool_inv_def by (elim conjE) assumption
  show "at_pos w i = Rechecking port \<Longrightarrow> pf_res (w_fs w) port \<noteq> None"
    "at_pos w i = Leaving port got \<Longrightarrow> pf_res (w_fs w) port \<noteq> None"
    using res [rule_format, of i port] by (simp, cases got, simp_all)
qed (use assms in \<open>simp_all add: pool_inv_def\<close>)

lemma pool_invI:
  assumes "\<And>i port. locked port (at_pos w i) \<Longrightarrow> pf_lock (w_fs w) port \<noteq> None"
    "\<And>i j port. locked port (at_pos w i) \<Longrightarrow> locked port (at_pos w j) \<Longrightarrow> j = i"
    "\<And>i port. reclaiming port (at_pos w i) \<Longrightarrow> pf_res (w_fs w) port \<noteq> None \<or> pf_lock (w_fs w) port \<noteq> None"
    "\<And>i port. at_pos w i = Rechecking port \<Longrightarrow> pf_res (w_fs w) port \<noteq> None"
    "\<And>i port got. at_pos w i = Leaving port got \<Longrightarrow> pf_res (w_fs w) port \<noteq> None"
    "\<And>i port. at_pos w i = Removing port \<Longrightarrow>
       \<exists>f. pf_res (w_fs w) port = Some f \<and> stale al (Some f) (ps_now (w_procs w i))"
    "\<And>i port. at_pos w i \<noteq> Relocking port"
  shows "pool_inv al w"
  unfolding pool_inv_def using assms by blast

lemma at_pos_step [simp]:
  "at_pos (w\<lparr>w_fs := fs, w_procs := (w_procs w)(i := p)\<rparr>) j = (if j = i then ps_at p else at_pos w j)"
  "at_pos (w\<lparr>w_procs := (w_procs w)(i := p)\<rparr>) j = (if j = i then ps_at p else at_pos w j)"
  "at_pos (w\<lparr>w_fs := fs\<rparr>) j = at_pos w j" "at_pos (w\<lparr>w_wall := t\<rparr>) j = at_pos w j"
  by (simp_all add: at_pos_def)

text \<open>A process that leaves the section, or is not yet in it, changes nothing the others rely on.\<close>

lemma inv_outside:
  assumes "pool_inv al w" "\<And>q. \<not> reclaiming q (ps_at p)" "\<And>q. ps_at p \<noteq> Relocking q"
  shows "pool_inv al (w\<lparr>w_procs := (w_procs w)(i := p)\<rparr>)"
proof -
  have out: "\<not> locked q (ps_at p)" "ps_at p \<noteq> Rechecking q" "ps_at p \<noteq> Leaving q g" "ps_at p \<noteq> Removing q" for q g
    using assms(2) [of q] locked_reclaiming [of q "ps_at p"] by (auto simp: reclaiming_iff)
  note inv = pool_invD [OF assms(1)]
  show ?thesis
  proof (rule pool_invI)
    let ?w = "w\<lparr>w_procs := (w_procs w)(i := p)\<rparr>"
    fix j k q got
    have other: "at_pos ?w j = at_pos w j \<and> j \<noteq> i"
      if "reclaiming q (at_pos ?w j) \<or> at_pos ?w j = Relocking q" for j q
      using that assms(2,3) by (auto split: if_splits)
    have fs: "w_fs ?w = w_fs w" by simp
    show "locked q (at_pos ?w j) \<Longrightarrow> pf_lock (w_fs ?w) q \<noteq> None"
      unfolding fs using other [of q j] inv(1) [of q j] locked_reclaiming [of q "at_pos ?w j"] by metis
    show "reclaiming q (at_pos ?w j) \<Longrightarrow> pf_res (w_fs ?w) q \<noteq> None \<or> pf_lock (w_fs ?w) q \<noteq> None"
      unfolding fs using other [of q j] inv(3) [of q j] by metis
    show "at_pos ?w j \<noteq> Relocking q" using other [of q j] inv(7) [of j q] by metis
    have in_w: "locked q (at_pos w j)" if l: "locked q (at_pos ?w j)" for j
    proof -
      have "at_pos ?w j = at_pos w j" using other [OF disjI1 [OF locked_reclaiming [OF l]]] by (rule conjunct1)
      with l show ?thesis by (simp only:)
    qed
    show "k = j" if "locked q (at_pos ?w j)" "locked q (at_pos ?w k)"
      by (rule inv(2) [OF in_w [OF that(1)] in_w [OF that(2)]])
    have mine: "at_pos w j = pos \<and> j \<noteq> i" if "at_pos ?w j = pos" "reclaiming q pos" for j pos
      using other [of q j] that by metis
    show "pf_res (w_fs ?w) q \<noteq> None" if h: "at_pos ?w j = Rechecking q"
      unfolding fs using mine [OF h] inv(4) [of j q] by (simp only: reclaiming_iff simp_thms)
    show "pf_res (w_fs ?w) q \<noteq> None" if h: "at_pos ?w j = Leaving q got"
      unfolding fs using mine [OF h] inv(5) [of j q got] by (simp only: reclaiming_iff simp_thms)
    show "\<exists>f. pf_res (w_fs ?w) q = Some f \<and> stale al (Some f) (ps_now (w_procs ?w j))"
      if h: "at_pos ?w j = Removing q"
    proof -
      have "at_pos w j = Removing q" "j \<noteq> i" using mine [OF h] by (simp_all only: reclaiming_iff simp_thms)
      with inv(6) [of j q] show ?thesis by simp
    qed
  qed
qed

lemma inv_fs:
  assumes "pool_inv al w"
    and "\<And>q i. locked q (at_pos w i) \<Longrightarrow> pf_lock fs q \<noteq> None"
    and "\<And>q i. reclaiming q (at_pos w i) \<Longrightarrow> pf_res fs q \<noteq> None \<or> pf_lock fs q \<noteq> None"
    and "\<And>q i f. at_pos w i \<in> {Rechecking q, Removing q, Leaving q True, Leaving q False} \<Longrightarrow>
      pf_res (w_fs w) q = Some f \<Longrightarrow> pf_res fs q = Some f"
  shows "pool_inv al (w\<lparr>w_fs := fs\<rparr>)"
proof (rule pool_invI)
  fix i q got
  note inv = pool_invD [OF assms(1)]
  let ?w = "w\<lparr>w_fs := fs\<rparr>"
  show "at_pos ?w i = Rechecking q \<Longrightarrow> pf_res (w_fs ?w) q \<noteq> None"
    using inv(4) [of i q] assms(4) [of i q] by auto
  show "at_pos ?w i = Leaving q got \<Longrightarrow> pf_res (w_fs ?w) q \<noteq> None"
    using inv(5) [of i q got] assms(4) [of i q] by (cases got) auto
  show "at_pos ?w i = Removing q \<Longrightarrow>
      \<exists>f. pf_res (w_fs ?w) q = Some f \<and> stale al (Some f) (ps_now (w_procs ?w i))"
    using inv(6) [of i q] assms(4) [of i q] by auto
qed (use pool_invD [OF assms(1)] assms(2,3) in auto)

lemma inv_move:
  assumes inv: "pool_inv al w"
    and lock: "\<And>q j. locked q pos \<Longrightarrow> pf_lock (w_fs w) q \<noteq> None \<and> (j \<noteq> i \<longrightarrow> \<not> locked q (at_pos w j))"
    and occupied: "\<And>q. reclaiming q pos \<Longrightarrow> pf_res (w_fs w) q \<noteq> None \<or> pf_lock (w_fs w) q \<noteq> None"
    and present: "\<And>q got. pos = Rechecking q \<or> pos = Leaving q got \<Longrightarrow> pf_res (w_fs w) q \<noteq> None"
    and judged: "\<And>q. pos = Removing q \<Longrightarrow>
      \<exists>f. pf_res (w_fs w) q = Some f \<and> stale al (Some f) (ps_now (w_procs w i))"
    and no: "\<And>q. pos \<noteq> Relocking q"
  shows "pool_inv al (w\<lparr>w_procs := (w_procs w)(i := (w_procs w i)\<lparr>ps_at := pos\<rparr>)\<rparr>)" (is "pool_inv al ?w")
proof (rule pool_invI)
  note I = pool_invD [OF inv]
  have fs: "w_fs ?w = w_fs w" by simp
  have at: "at_pos ?w j = (if j = i then pos else at_pos w j)" for j by simp
  fix j k q got
  show "pf_lock (w_fs ?w) q \<noteq> None" if "locked q (at_pos ?w j)"
    unfolding fs using that lock [of q j] I(1) [of q j] unfolding at by (cases "j = i") simp_all
  show "k = j" if "locked q (at_pos ?w j)" "locked q (at_pos ?w k)"
    using that lock [of q j] lock [of q k] I(2) [of q j k] unfolding at by (cases "j = i"; cases "k = i") simp_all
  show "pf_res (w_fs ?w) q \<noteq> None \<or> pf_lock (w_fs ?w) q \<noteq> None" if "reclaiming q (at_pos ?w j)"
    unfolding fs using that occupied [of q] I(3) [of q j] unfolding at by (cases "j = i") simp_all
  show "pf_res (w_fs ?w) q \<noteq> None" if "at_pos ?w j = Rechecking q"
    unfolding fs using that present [of q] I(4) [of j q] unfolding at by (cases "j = i") simp_all
  show "pf_res (w_fs ?w) q \<noteq> None" if "at_pos ?w j = Leaving q got"
    unfolding fs using that present [of q got] I(5) [of j q got] unfolding at by (cases "j = i") simp_all
  show "\<exists>f. pf_res (w_fs ?w) q = Some f \<and> stale al (Some f) (ps_now (w_procs ?w j))"
    if "at_pos ?w j = Removing q"
    using that judged [of q] I(6) [of j q] unfolding fs at by (cases "j = i") simp_all
  show "at_pos ?w j \<noteq> Relocking q" using no [of q] I(7) [of j q] unfolding at by (cases "j = i") simp_all
qed

lemma locked_owner: "pool_inv al w \<Longrightarrow> locked q (at_pos w i) \<Longrightarrow> j \<noteq> i \<Longrightarrow> \<not> locked q (at_pos w j)"
  using pool_invD(2) by blast

lemma in_reclaim:
  "pos \<in> {Rechecking q, Removing q, Leaving q True, Leaving q False} \<Longrightarrow> locked q pos"
  by (auto simp: locked_def)

text \<open>The invariant survives every calm step.\<close>

lemma inv_advance:
  assumes inv: "pool_inv al w" and adv: "advance al (w_wall w) (w_procs w i) (w_fs w) = (pos, fs)"
    and calm: "\<And>port. at_pos w i \<noteq> Stealing port"
  shows "pool_inv al (w\<lparr>w_fs := fs, w_procs := (w_procs w)(i := (w_procs w i)\<lparr>ps_at := pos\<rparr>)\<rparr>)"
proof -
  let ?p = "(w_procs w i)\<lparr>ps_at := pos\<rparr>"
  let ?fs = "w\<lparr>w_fs := fs\<rparr>" and ?mv = "w\<lparr>w_procs := (w_procs w)(i := ?p)\<rparr>"
  have mv_fs: "w\<lparr>w_fs := fs, w_procs := (w_procs w)(i := ?p)\<rparr> = ?mv\<lparr>w_fs := fs\<rparr>" by simp
  have fs_mv: "w\<lparr>w_fs := fs, w_procs := (w_procs w)(i := ?p)\<rparr> =
      ?fs\<lparr>w_procs := (w_procs ?fs)(i := (w_procs ?fs i)\<lparr>ps_at := pos\<rparr>)\<rparr>" by simp
  have at: "ps_at (w_procs w i) = at_pos w i" by (simp add: at_pos_def)
  note I = pool_invD [OF inv]
  have no: "ps_at (w_procs w i) \<noteq> Stealing port" "ps_at (w_procs w i) \<noteq> Relocking port" for port
    using calm I(7) at by simp_all
  from adv no show ?thesis
  proof (cases rule: advance_cases)
    case stay
    then have "w\<lparr>w_fs := fs, w_procs := (w_procs w)(i := ?p)\<rparr> = w"
      by (intro world.equality) (simp_all add: fun_upd_idem_iff)
    then show ?thesis using inv by simp
  next
    case (claimed port)
    have "pool_inv al ?fs"
      by (rule inv_fs [OF inv]) (use I(1,3) claimed in \<open>auto simp: reclaiming_iff\<close>)
    then show ?thesis unfolding fs_mv by (rule inv_outside) (simp_all add: claimed reclaiming_iff)
  next
    case (taken port)
    have "pool_inv al ?mv"
      by (rule inv_move [OF inv]) (use taken in \<open>simp_all add: locked_iff reclaiming_iff\<close>)
    then show ?thesis using taken by simp
  next
    case (skipped port)
    have "pool_inv al ?mv"
      by (rule inv_outside [OF inv]) (simp_all add: skipped not_reclaiming_next)
    then show ?thesis using skipped by simp
  next
    case (looked port)
    have "pool_inv al ?mv"
      by (rule inv_move [OF inv]) (use looked I(3) [of port i] at in \<open>auto simp: locked_iff reclaiming_iff\<close>)
    then show ?thesis using looked by simp
  next
    case (locking port)
    have "pool_inv al ?fs"
      by (rule inv_fs [OF inv]) (use I(1,3) locking in auto)
    moreover have "pf_res (w_fs w) port \<noteq> None"
      using I(3) [of port i] locking at by (simp add: reclaiming_iff)
    moreover have "\<not> locked port (at_pos w j)" for j using I(1) [of port j] locking by auto
    ultimately show ?thesis unfolding fs_mv
      by (intro inv_move) (use locking in \<open>auto simp: locked_iff reclaiming_iff\<close>)
  next
    case (kept port)
    have own: "locked port (at_pos w i)" using kept at by (simp add: locked_iff)
    have "pool_inv al ?mv"
      using I(1) [OF own] I(4) [of i port] kept at locked_owner [OF inv own]
      by (intro inv_move [OF inv]) (auto simp: locked_iff reclaiming_iff)
    then show ?thesis using kept by simp
  next
    case (judged port)
    have own: "locked port (at_pos w i)" using judged at by (simp add: locked_iff)
    have "pool_inv al ?mv"
      using I(1) [OF own] I(4) [of i port] judged at locked_owner [OF inv own]
      by (intro inv_move [OF inv]) (auto simp: locked_iff reclaiming_iff)
    then show ?thesis using judged by simp
  next
    case (removed port)
    have own: "locked port (at_pos w i)" using removed at by (simp add: locked_iff)
    have mv: "pool_inv al ?mv"
      using I(1) [OF own] removed at locked_owner [OF inv own]
      by (intro inv_move [OF inv]) (auto simp: locked_iff reclaiming_iff)
    have "q \<noteq> port" if "at_pos ?mv j \<in> {Rechecking q, Removing q, Leaving q True, Leaving q False}" for q j
      using that in_reclaim [OF that] locked_owner [OF inv own, of j] removed by (auto split: if_splits)
    then show ?thesis unfolding mv_fs
      using removed pool_invD(1,3) [OF mv] I(1) [OF own]
      by (intro inv_fs [OF mv]) (auto split: if_splits)
  next
    case (linked port got)
    have own: "locked port (at_pos w i)" using linked at by (simp add: locked_iff)
    have res: "pf_res (w_fs w) q = Some f \<Longrightarrow> pf_res fs q = Some f" for q f
      using linked(5,6) by (cases "q = port") auto
    have "pool_inv al ?fs"
    proof (rule inv_fs [OF inv])
      show "pf_lock fs q \<noteq> None" if "locked q (at_pos w j)" for q j
        using I(1) [OF that] linked(4) by simp
      show "pf_res fs q \<noteq> None \<or> pf_lock fs q \<noteq> None" if "reclaiming q (at_pos w j)" for q j
        using I(3) [OF that] linked(4) res by (auto simp: not_None_eq)
    qed (use res in blast)
    then show ?thesis unfolding fs_mv
      using I(1) [OF own] linked locked_owner [OF inv own]
      by (intro inv_move) (auto simp: locked_iff reclaiming_iff)
  next
    case (left port got)
    have own: "locked port (at_pos w i)" using left at by (simp add: locked_iff)
    have out: "\<not> reclaiming q pos" "pos \<noteq> Relocking q" for q
      using left by (auto simp: not_reclaiming_next reclaiming_iff)
    have mv: "pool_inv al ?mv" by (rule inv_outside [OF inv]) (use out in simp_all)
    have free: "\<not> locked port (at_pos ?mv j)" for j
      using locked_owner [OF inv own, of j] out [of port] locked_reclaiming by auto
    have occupied: "pf_res (w_fs w) port \<noteq> None" using I(5) left at by simp
    have fs: "pf_res fs = pf_res (w_fs w)" "pf_lock fs q = (if q = port then None else pf_lock (w_fs w) q)" for q
      using left by simp_all
    have keep: "w_fs ?mv = w_fs w" by simp
    have "pool_inv al (?mv\<lparr>w_fs := fs\<rparr>)"
    proof (rule inv_fs [OF mv])
      show "pf_lock fs q \<noteq> None" if "locked q (at_pos ?mv j)" for q j
        using pool_invD(1) [OF mv that] that free [of j] unfolding fs keep by (cases "q = port") (simp_all only: if_True if_False simp_thms)
      show "pf_res fs q \<noteq> None \<or> pf_lock fs q \<noteq> None" if "reclaiming q (at_pos ?mv j)" for q j
        using pool_invD(3) [OF mv that] occupied unfolding fs keep by (cases "q = port") (simp_all only: if_True if_False simp_thms)
      show "pf_res fs q = Some f" if "pf_res (w_fs ?mv) q = Some f" for q f
        using that unfolding fs keep .
    qed
    then show ?thesis unfolding mv_fs .
  qed
qed

lemma inv_step:
  assumes "pool_inv al w" "pool_step al w l w'" "calm w l"
  shows "pool_inv al w'"
  using assms(2)
proof (cases rule: pool_step.cases)
  case (began i owner now)
  show ?thesis unfolding began
    by (rule inv_outside [OF assms(1)]) (auto simp: begin_allocate_def reclaiming_iff)
next
  case (advanced i pos fs)
  show ?thesis unfolding advanced
    by (rule inv_advance [OF assms(1) advanced(3)]) (use assms(3) advanced in \<open>simp add: calm_def\<close>)
next
  case (released port)
  have quiet: "\<not> reclaiming port (at_pos w i)" for i using assms(3) released by (simp add: calm_def)
  show ?thesis unfolding released
  proof (rule inv_fs [OF assms(1)])
    show "pf_lock (Release port (w_fs w)) q \<noteq> None" if "locked q (at_pos w i)" for q i
      using pool_invD(1) [OF assms(1) that] by (simp add: Release_def)
    show "pf_res (Release port (w_fs w)) q \<noteq> None \<or> pf_lock (Release port (w_fs w)) q \<noteq> None"
      if "reclaiming q (at_pos w i)" for q i
      using pool_invD(3) [OF assms(1) that] quiet [of i] that by (cases "q = port") (simp_all add: Release_def)
    show "pf_res (Release port (w_fs w)) q = Some f"
      if "at_pos w i \<in> {Rechecking q, Removing q, Leaving q True, Leaving q False}" "pf_res (w_fs w) q = Some f" for q i f
      using locked_reclaiming [OF in_reclaim [OF that(1)]] quiet [of i] that(2)
      by (cases "q = port") (simp_all add: Release_def)
  qed
next
  case (crashed i)
  show ?thesis unfolding crashed by (rule inv_outside [OF assms(1)]) (simp_all add: reclaiming_iff)
next
  case (ticked wall)
  have "pool_inv al (w\<lparr>w_wall := wall\<rparr>)"
    using assms(1) unfolding pool_inv_def by (simp add: at_pos_def)
  then show ?thesis using ticked by simp
qed

definition quiet_world :: "pool \<Rightarrow> time \<Rightarrow> world" where
  "quiet_world fs wall = \<lparr>w_fs = fs, w_wall = wall,
     w_procs = (\<lambda>i. \<lparr>ps_owner = [], ps_now = 0, ps_at = Resting\<rparr>)\<rparr>"

lemma calmly_inv: "calmly al (quiet_world fs wall) w \<Longrightarrow> pool_inv al w"
proof (induction rule: calmly.induct)
  case start
  show ?case by (rule pool_invI) (simp_all add: quiet_world_def at_pos_def locked_iff reclaiming_iff)
qed (rule inv_step)

lemma advance_res:
  "advance al wall p fs = (pos, fs') \<Longrightarrow> (\<And>q. ps_at p \<notin> {Claiming q, Removing q, Linking q}) \<Longrightarrow>
   pf_res fs' = pf_res fs"
  by (cases "ps_at p") (auto simp: advance_def split: if_splits option.splits)

text \<open>
  C8: interleaving allocations never reclaim a live reservation.  Along any interleaving of any number of
  processes, crashes included, in which no lock is taken over and no port is released while a process is
  inside its reclaim section, a reservation file changes only in two ways: its holder releases it, or a
  reclaimer that alone holds the port's lock removes one that is stale by the reclaimer's clock.  A grant
  is always a file that was absent.
\<close>
theorem live_reservations_survive:
  assumes "calmly al (quiet_world fs wall) w" and step: "pool_step al w l w'" "calm w l"
    and change: "pf_res (w_fs w') port \<noteq> pf_res (w_fs w) port"
  shows "(\<exists>i. l = Advanced i \<and> pf_res (w_fs w) port = None \<and>
       pf_res (w_fs w') port = Some (fresh_reservation port (ps_owner (w_procs w i)) (ps_now (w_procs w i)))) \<or>
    l = Released port \<or>
    (\<exists>i f. l = Advanced i \<and> at_pos w i = Removing port \<and> pf_res (w_fs w) port = Some f \<and>
       stale al (Some f) (ps_now (w_procs w i)) \<and> pf_res (w_fs w') port = None \<and>
       (\<forall>j. j \<noteq> i \<longrightarrow> \<not> locked port (at_pos w j)))"
  using step(1)
proof (cases rule: pool_step.cases)
  case (advanced i pos fs')
  have inv: "pool_inv al w" by (rule calmly_inv [OF assms(1)])
  have fs: "w_fs w' = fs'" using advanced by simp
  have granted: ?thesis
    if "pf_res (w_fs w) q = None" "pf_res (w_fs w') \<noteq> pf_res (w_fs w)"
      "pf_res (w_fs w') = (pf_res (w_fs w))(q \<mapsto> fresh_reservation q (ps_owner (w_procs w i)) (ps_now (w_procs w i)))" for q
  proof -
    have "q = port" using that(3) change by (auto split: if_splits)
    with that advanced(1) show ?thesis by (intro disjI1 exI [of _ i]) simp
  qed
  show ?thesis
  proof (cases "ps_at (w_procs w i)")
    case (Claiming q)
    then have "pf_res fs' = pf_res (w_fs w) \<or> (pf_res (w_fs w) q = None \<and>
        pf_res fs' = (pf_res (w_fs w))(q \<mapsto> fresh_reservation q (ps_owner (w_procs w i)) (ps_now (w_procs w i))))"
      using advanced(3) by (auto simp: advance_def tryClaim_def split: option.splits)
    with change fs granted [of q] show ?thesis by metis
  next
    case (Linking q)
    then have "pf_res fs' = pf_res (w_fs w) \<or> (pf_res (w_fs w) q = None \<and>
        pf_res fs' = (pf_res (w_fs w))(q \<mapsto> fresh_reservation q (ps_owner (w_procs w i)) (ps_now (w_procs w i))))"
      using advanced(3) by (auto simp: advance_def tryClaim_def split: option.splits)
    with change fs granted [of q] show ?thesis by metis
  next
    case (Removing q)
    then have res: "pf_res fs' = (pf_res (w_fs w))(q := None)" using advanced(3) by (auto simp: advance_def)
    then have "q = port" "pf_res fs' port = None" using change fs by (auto split: if_splits)
    moreover have at: "at_pos w i = Removing q" using Removing by (simp add: at_pos_def)
    moreover have "locked q (at_pos w i)" using at by (simp add: locked_iff)
    ultimately show ?thesis
      using advanced(1) fs pool_invD(6) [OF inv at] locked_owner [OF inv] by blast
  qed (use advance_res [OF advanced(3)] change fs in simp_all)
next
  case (released q)
  then show ?thesis using change by (auto simp: Release_def split: if_splits)
qed (use change in auto)

definition do_begin :: "allocator \<Rightarrow> nat \<Rightarrow> string \<Rightarrow> time \<Rightarrow> world \<Rightarrow> world" where
  "do_begin al i owner now w = w\<lparr>w_procs := (w_procs w)(i := begin_allocate al owner now)\<rparr>"

definition do_advance :: "allocator \<Rightarrow> nat \<Rightarrow> world \<Rightarrow> world" where
  "do_advance al i w = (case advance al (w_wall w) (w_procs w i) (w_fs w) of
     (pos, fs) \<Rightarrow> w\<lparr>w_fs := fs, w_procs := (w_procs w)(i := (w_procs w i)\<lparr>ps_at := pos\<rparr>)\<rparr>)"

lemma do_advance_step: "pool_step al w (Advanced i) (do_advance al i w)"
  by (cases "advance al (w_wall w) (w_procs w i) (w_fs w)") (simp add: do_advance_def pool_step.advanced)

lemma do_begin_step: "at_pos w i = Resting \<Longrightarrow> pool_step al w (Began i) (do_begin al i owner now w)"
  unfolding do_begin_def at_pos_def by (rule pool_step.began) simp

text \<open>A range of one port, held by a live preview; a process finds it taken.\<close>

definition one_al :: allocator where "one_al = \<lparr>al_lo = 1, al_hi = 1, al_stale = hour\<rparr>"

definition taken_world :: world where
  "taken_world = do_advance one_al 0 (do_begin one_al 0 ''a'' 200
     (quiet_world \<lparr>pf_res = [1 \<mapsto> fresh_reservation 1 ''x'' 100], pf_lock = Map.empty\<rparr> 0))"

lemma taken_world_calm: "calmly one_al (quiet_world \<lparr>pf_res = [1 \<mapsto> fresh_reservation 1 ''x'' 100], pf_lock = Map.empty\<rparr> 0)
    taken_world"
proof -
  let ?q = "quiet_world \<lparr>pf_res = [1 \<mapsto> fresh_reservation 1 ''x'' 100], pf_lock = Map.empty\<rparr> 0"
  have "calmly one_al ?q (do_begin one_al 0 ''a'' 200 ?q)"
    by (rule calmly.step [OF calmly.start do_begin_step]) (simp_all add: at_pos_def quiet_world_def calm_def)
  then show ?thesis unfolding taken_world_def
    by (rule calmly.step [OF _ do_advance_step])
       (simp add: calm_def do_begin_def at_pos_def begin_allocate_def one_al_def)
qed

definition starting_world :: world where
  "starting_world = do_begin one_al 0 ''a'' 200 (quiet_world \<lparr>pf_res = Map.empty, pf_lock = Map.empty\<rparr> 0)"

theorem live_reservations_survive_witness:
  "pf_res (w_fs (do_advance one_al 0 starting_world)) 1 = Some (fresh_reservation 1 ''a'' 200)"
proof -
  let ?q = "quiet_world \<lparr>pf_res = Map.empty, pf_lock = Map.empty\<rparr> 0"
  have calm: "calmly one_al ?q starting_world" unfolding starting_world_def
    by (rule calmly.step [OF calmly.start do_begin_step]) (simp_all add: at_pos_def quiet_world_def calm_def)
  have start: "ps_at (w_procs starting_world 0) = Claiming 1" "ps_owner (w_procs starting_world 0) = ''a''"
    "ps_now (w_procs starting_world 0) = 200" "pf_res (w_fs starting_world) 1 = None"
    by (simp_all add: starting_world_def do_begin_def begin_allocate_def one_al_def quiet_world_def)
  have "pf_res (w_fs (do_advance one_al 0 starting_world)) 1 \<noteq> pf_res (w_fs starting_world) 1"
    by (simp add: do_advance_def advance_def tryClaim_def start)
  from live_reservations_survive [OF calm do_advance_step _ this] show ?thesis
    using start by (auto simp: calm_def at_pos_def)
qed

text \<open>
  The calm steps cannot be given up.  While a process has found the port taken, its holder releases it; the
  absent file then counts as stale, so the process takes the lock to reclaim it; a second process claims the
  freed port; and the first removes that live reservation and claims the port as well.
\<close>

definition raced_world :: world where
  "raced_world = do_advance one_al 0 (do_advance one_al 0 (do_advance one_al 0
     (do_advance one_al 1 (do_begin one_al 1 ''b'' 200
       (do_advance one_al 0 (do_advance one_al 0 (do_advance one_al 0
         (taken_world\<lparr>w_fs := Release 1 (w_fs taken_world)\<rparr>))))))))"

lemma release_races_reclaim:
  "(\<lambda>w w'. \<exists>l. pool_step one_al w l w')\<^sup>*\<^sup>* taken_world raced_world \<and>
   at_pos raced_world 0 = Finished (Inr 1) \<and> at_pos raced_world 1 = Finished (Inr 1) \<and>
   pf_res (w_fs raced_world) 1 = Some (fresh_reservation 1 ''a'' 200)"
proof -
  let ?R = "\<lambda>w w'. \<exists>l. pool_step one_al w l w'"
  let ?w1 = "taken_world\<lparr>w_fs := Release 1 (w_fs taken_world)\<rparr>"
  let ?w4 = "do_advance one_al 0 (do_advance one_al 0 (do_advance one_al 0 ?w1))"
  have adv: "?R\<^sup>*\<^sup>* taken_world w \<Longrightarrow> ?R\<^sup>*\<^sup>* taken_world (do_advance one_al i w)" for i w
    by (rule rtranclp.rtrancl_into_rtrancl) (auto intro: do_advance_step)
  have t: "taken_world = \<lparr>w_fs = \<lparr>pf_res = [1 \<mapsto> fresh_reservation 1 ''x'' 100], pf_lock = Map.empty\<rparr>, w_wall = 0,
     w_procs = (\<lambda>i. \<lparr>ps_owner = [], ps_now = 0, ps_at = Resting\<rparr>)
       (0 := \<lparr>ps_owner = ''a'', ps_now = 200, ps_at = Checking 1\<rparr>)\<rparr>"
    by (simp add: taken_world_def quiet_world_def do_begin_def do_advance_def begin_allocate_def advance_def
        tryClaim_def one_al_def)
  have w4: "?w4 = \<lparr>w_fs = \<lparr>pf_res = Map.empty, pf_lock = [1 \<mapsto> 0]\<rparr>, w_wall = 0,
     w_procs = (\<lambda>i. \<lparr>ps_owner = [], ps_now = 0, ps_at = Resting\<rparr>)
       (0 := \<lparr>ps_owner = ''a'', ps_now = 200, ps_at = Removing 1\<rparr>)\<rparr>"
    by (simp add: t do_advance_def advance_def Release_def stale_def one_al_def hour_def second_def)
  have "?R\<^sup>*\<^sup>* taken_world ?w1" by (rule r_into_rtranclp) (blast intro: pool_step.released)
  then have "?R\<^sup>*\<^sup>* taken_world ?w4" by (intro adv)
  moreover have "at_pos ?w4 1 = Resting" by (simp add: w4 at_pos_def)
  then have "?R ?w4 (do_begin one_al 1 ''b'' 200 ?w4)" by (blast intro: do_begin_step)
  ultimately have "?R\<^sup>*\<^sup>* taken_world (do_begin one_al 1 ''b'' 200 ?w4)" by (rule rtranclp.rtrancl_into_rtrancl)
  then have reached: "?R\<^sup>*\<^sup>* taken_world raced_world" unfolding raced_world_def by (intro adv)
  let ?p0 = "\<lparr>ps_owner = ''a'', ps_now = 200, ps_at = Finished (Inr 1)\<rparr>"
  let ?p1 = "\<lparr>ps_owner = ''b'', ps_now = 200, ps_at = Finished (Inr 1)\<rparr>"
  have raced: "raced_world = \<lparr>w_fs = \<lparr>pf_res = [1 \<mapsto> fresh_reservation 1 ''a'' 200], pf_lock = Map.empty\<rparr>, w_wall = 0,
     w_procs = (\<lambda>i. \<lparr>ps_owner = [], ps_now = 0, ps_at = Resting\<rparr>)(0 := ?p0, 1 := ?p1)\<rparr>"
    unfolding raced_world_def w4
    by (simp add: do_begin_def do_advance_def begin_allocate_def advance_def tryClaim_def one_al_def
        fun_upd_twist)
  have "at_pos raced_world 0 = Finished (Inr 1) \<and> at_pos raced_world 1 = Finished (Inr 1) \<and>
      pf_res (w_fs raced_world) 1 = Some (fresh_reservation 1 ''a'' 200)"
    unfolding raced by (simp add: at_pos_def)
  with reached show ?thesis by blast
qed

end
