(* ===== verification/Local_Seats.thy ===== *)
theory Local_Seats
  imports Platform_Db
begin

text \<open>
  \<open>internal/local/local.go\<close>, \<open>manifest.go\<close> and \<open>alias.go\<close>: the names of the duty aliases, the committed
  table of model seats, and the resolution of an alias to its seat over the alias map of the settings.
  A seat keeps what the code reads of it; the card link, the role and the free-text notes are left out.
\<close>

definition AliasUtility :: string where "AliasUtility = ''utility''"
definition AliasIntakeTriage :: string where "AliasIntakeTriage = ''intake-triage''"
definition AliasWatchdog :: string where "AliasWatchdog = ''watchdog-disambiguator''"
definition AliasEmbedder :: string where "AliasEmbedder = ''embedder''"
definition keyAlias :: string where "keyAlias = ''local.alias''"
definition LlamaCppPin :: string where "LlamaCppPin = ''b10085''"

definition normalizeAlias :: "string \<Rightarrow> string" where
  "normalizeAlias a = trim_space (to_lower a)"

definition aliasUrgent :: "string \<Rightarrow> bool" where
  "aliasUrgent alias \<longleftrightarrow> normalizeAlias alias = AliasWatchdog"

section \<open>The manifest\<close>

record gguf_file =
  gf_repo :: string
  gf_name :: string
  gf_sha :: string

record seat =
  st_seat :: string
  st_model :: string
  st_license :: string
  st_conflict :: bool
  st_exception :: bool
  st_files :: "gguf_file list"
  st_quant :: string
  st_pool :: string
  st_context :: int
  st_serving :: int
  st_gpu :: bool
  st_servable :: bool
  st_pulled :: bool

definition gguf :: "string \<Rightarrow> string \<Rightarrow> string \<Rightarrow> gguf_file" where
  "gguf repo name sha = \<lparr>gf_repo = repo, gf_name = name, gf_sha = sha\<rparr>"

text \<open>The shape most rows share: a pulled, servable, clean-licensed seat of the 12 GB pool.\<close>

definition pool12_seat :: "string \<Rightarrow> string \<Rightarrow> gguf_file list \<Rightarrow> string \<Rightarrow> int \<Rightarrow> int \<Rightarrow> seat" where
  "pool12_seat key model files quant ctx serving =
     \<lparr>st_seat = key, st_model = model, st_license = ''Apache-2.0'', st_conflict = False,
      st_exception = False, st_files = files, st_quant = quant, st_pool = ''pool12'', st_context = ctx,
      st_serving = serving, st_gpu = True, st_servable = True, st_pulled = True\<rparr>"

definition Manifest :: "seat list" where
  "Manifest =
    [pool12_seat ''workhorse'' ''Qwen3.5-9B''
       [gguf ''unsloth/Qwen3.5-9B-GGUF'' ''Qwen3.5-9B-Q5_K_M.gguf''
          ''dc2a39aef291f91a9116ad214058da0d86eb648743a124bd8c333787c4b9c91c''] ''Q5_K_M'' 32768 8192,
     pool12_seat ''fast'' ''Qwen3.5-4B''
       [gguf ''unsloth/Qwen3.5-4B-GGUF'' ''Qwen3.5-4B-Q4_K_M.gguf''
          ''00fe7986ff5f6b463e62455821146049db6f9313603938a70800d1fb69ef11a4''] ''Q4_K_M'' 32768 16384,
     (pool12_seat ''workhorse-alternate'' ''Gemma 4 12B QAT''
       [gguf ''google/gemma-4-12B-it-qat-q4_0-gguf'' ''gemma-4-12b-it-qat-q4_0.gguf''
          ''93567e57a8fe10b23569b9d9ec38cd005deedf71e29477c421a4b83f418a538b'']
       ''first-party int4 QAT'' 131072 4096)\<lparr>st_conflict := True\<rparr>,
     pool12_seat ''Granite Guardian 8B'' ''Granite Guardian 3.3-8B''
       [gguf ''ibm-granite/granite-guardian-3.3-8b-GGUF'' ''granite-guardian-3.3-8b-Q5_K_M.gguf''
          ''d7a29778234185881e126e07cb72d97c0215310e239c77a76819153f5e0c842f''] ''Q5_K_M'' 131072 8192,
     pool12_seat ''Granite Guardian 4.1 8B'' ''Granite Guardian 4.1-8B''
       [gguf ''ibm-granite/granite-guardian-4.1-8b-GGUF'' ''granite-guardian-4.1-8b-Q5_K_M.gguf''
          ''4bb6aa91e991822559583f77d40c860027f856a7f79fe1c6c3c3c35b97c838a5''] ''Q5_K_M'' 131072 8192,
     (pool12_seat ''Bespoke-MiniCheck-7B'' ''Bespoke-MiniCheck-7B''
       [gguf ''mradermacher/Bespoke-MiniCheck-7B-GGUF'' ''Bespoke-MiniCheck-7B.Q5_K_M.gguf'' []]
       ''Q5_K_M'' 32768 8192)\<lparr>st_license := ''CC-BY-NC-4.0'', st_exception := True, st_pulled := False\<rparr>,
     (pool12_seat ''MiniCheck-Flan-T5-0.8B'' ''MiniCheck-Flan-T5-Large''
       [gguf ''nvhf/MiniCheck-Flan-T5-Large-Q6_K-GGUF'' ''minicheck-flan-t5-large-q6_k.gguf''
          ''d332117fff35b692f1006944ab8f11fd254b22fa0ef5a0a6e6ca9765d01c5e75'']
       ''Q6_K'' 2048 0)\<lparr>st_license := ''MIT'', st_pool := ''cpu'', st_gpu := False, st_servable := False\<rparr>,
     (pool12_seat ''DeBERTa-class NLI cross-encoder'' ''cross-encoder/nli-deberta-v3-base'' []
       ''n/a (encoder classification head)'' 512 0)\<lparr>st_pool := ''cpu'', st_gpu := False, st_servable := False,
          st_pulled := False\<rparr>,
     pool12_seat ''Arctic-Text2SQL-R1-7B'' ''Arctic-Text2SQL-R1-7B''
       [gguf ''mradermacher/Arctic-Text2SQL-R1-7B-GGUF'' ''Arctic-Text2SQL-R1-7B.Q5_K_M.gguf''
          ''157cc3e1caafb02a7e4c7abc6e23fbe1bb1b75ef1623fc54885bd17b1a8c0c5d''] ''Q5_K_M'' 32768 8192,
     (pool12_seat ''Qwen3-Embedding-0.6B'' ''Qwen3-Embedding-0.6B'' [] ''Q8_0'' 0 0)\<lparr>st_pool := [],
          st_gpu := False, st_servable := False, st_pulled := False\<rparr>]"

definition seatByKey :: "string \<Rightarrow> seat option" where
  "seatByKey key = find (\<lambda>s. st_seat s = key) Manifest"

definition ModelHash :: "seat \<Rightarrow> string" where
  "ModelHash s = (case st_files s of [] \<Rightarrow> [] | f # _ \<Rightarrow> gf_sha f)"

section \<open>Aliases\<close>

definition Resolve :: "settings \<Rightarrow> string \<Rightarrow> error + (string \<times> seat)" where
  "Resolve cfg alias =
     (let a = normalizeAlias alias
      in if a = AliasEmbedder then Inl (LocalError ErrEmbedderPostGate)
         else (case read_map cfg keyAlias of
             Inl e \<Rightarrow> Inl e
           | Inr m \<Rightarrow> (case m a of
               None \<Rightarrow> Inl (LocalError (ErrUnknownAlias alias))
             | Some target \<Rightarrow> (case seatByKey target of
                 None \<Rightarrow> Inl (LocalError (ErrNoSeat alias target))
               | Some s \<Rightarrow> Inr (a, s)))))"

definition SeatFor :: "settings \<Rightarrow> string \<Rightarrow> error + seat" where
  "SeatFor cfg alias = (case Resolve cfg alias of Inl e \<Rightarrow> Inl e | Inr (a, s) \<Rightarrow> Inr s)"

text \<open>The shipped value of the alias map (\<open>internal/settings/index.go\<close>).\<close>

definition default_aliases :: "(string \<times> string) list" where
  "default_aliases =
    [(''utility'', ''workhorse''), (''intake-triage'', ''fast''), (''watchdog-disambiguator'', ''fast''),
     (''watchlist-triage'', ''fast''), (''intent-filling'', ''fast''),
     (''sql-open'', ''Arctic-Text2SQL-R1-7B''), (''entailment'', ''Granite Guardian 8B''),
     (''contradiction-screen'', ''DeBERTa-class NLI cross-encoder''),
     (''distill-summarize'', ''workhorse''), (''embedder'', ''Qwen3-Embedding-0.6B'')]"

section \<open>Lemmas\<close>

lemma Resolve_seat: "Resolve cfg alias = Inr (a, s) \<Longrightarrow> a = normalizeAlias alias \<and> s \<in> set Manifest"
  by (auto simp: Resolve_def Let_def seatByKey_def find_Some_iff split: if_splits sum.splits option.splits)

lemma SeatFor_manifest: "SeatFor cfg alias = Inr s \<Longrightarrow> s \<in> set Manifest"
  by (auto simp: SeatFor_def split: sum.splits dest: Resolve_seat)

text \<open>Every seat the table marks pulled carries a hash, and only servable seats sit on the GPU.\<close>

lemma manifest_pulled_hashed: "\<forall>s\<in>set Manifest. st_pulled s \<longrightarrow> ModelHash s \<noteq> []"
  by (simp add: Manifest_def pool12_seat_def gguf_def ModelHash_def)

lemma manifest_gpu_servable: "\<forall>s\<in>set Manifest. st_gpu s \<longrightarrow> st_servable s"
  by (simp add: Manifest_def pool12_seat_def)

lemma manifest_keys: "distinct (map st_seat Manifest)"
  by (simp add: Manifest_def pool12_seat_def)

lemma default_aliases_resolve:
  "\<forall>(alias, target) \<in> set default_aliases. \<exists>s. seatByKey target = Some s \<and> st_seat s = target"
  by (simp add: default_aliases_def seatByKey_def Manifest_def pool12_seat_def)

end
