(* ===== verification/Vram_Admission.thy ===== *)
theory Vram_Admission
  imports Platform_Db
begin

text \<open>
  \<open>internal/local/vram.go\<close>: the video memory ledger and the admission check of the local tier, the
  sleep-gated read of the graphics devices, and the battery policy.  What the host answers is given:
  the PCI and power-supply entries of sysfs as file contents in directory order, and \<open>nvidia-smi\<close> as a
  function from an address to its decoded XML document.  A refusal is its reason with the numbers the
  sentence carries; the sentences themselves are not modelled.
\<close>

section \<open>Reading the devices\<close>

record gpu_process =
  gp_pid :: int
  gp_type :: string
  gp_name :: string
  gp_used :: int

record gpu_reading =
  gr_addr :: string
  gr_uuid :: string
  gr_suspended :: bool
  gr_free :: int
  gr_total :: int
  gr_procs :: "gpu_process list"

text \<open>A PCI device directory: its name and the contents of the three files read (empty when unreadable).\<close>

record pci_device =
  pci_name :: string
  pci_vendor :: string
  pci_class :: string
  pci_status :: string

text \<open>The decoded \<open>nvidia-smi -q -x\<close> document.\<close>

record smi_process =
  sm_pid :: int
  sm_type :: string
  sm_name :: string
  sm_used :: string

record smi_gpu =
  sg_uuid :: string
  sg_total :: string
  sg_free :: string
  sg_procs :: "smi_process list"

definition parseMiB :: "string \<Rightarrow> int" where
  "parseMiB s = (case ParseInt64 (trim_space (trim_suffix ''MiB'' (trim_space s))) of
       None \<Rightarrow> 0 | Some n \<Rightarrow> n)"

definition process_of :: "smi_process \<Rightarrow> gpu_process" where
  "process_of p = \<lparr>gp_pid = sm_pid p, gp_type = trim_space (sm_type p), gp_name = trim_space (sm_name p),
     gp_used = parseMiB (sm_used p)\<rparr>"

definition parseSMIXML :: "string \<Rightarrow> smi_gpu list \<Rightarrow> error + gpu_reading" where
  "parseSMIXML addr gpus = (case gpus of
       [] \<Rightarrow> Inl (LocalError (SmiWithoutGpu addr))
     | g # _ \<Rightarrow> Inr \<lparr>gr_addr = addr, gr_uuid = trim_space (sg_uuid g), gr_suspended = False,
           gr_free = parseMiB (sg_free g), gr_total = parseMiB (sg_total g),
           gr_procs = map process_of (sg_procs g)\<rparr>)"

definition enumerateNVIDIAGPUs :: "pci_device list option \<Rightarrow> error + pci_device list" where
  "enumerateNVIDIAGPUs entries = (case entries of
       None \<Rightarrow> Inl (LocalError GpuReadFailed)
     | Some ds \<Rightarrow> Inr (filter (\<lambda>d. trim_space (pci_vendor d) = ''0x10de'' \<and>
           starts_with ''0x0300'' (trim_space (pci_class d))) ds))"

definition suspended :: "pci_device \<Rightarrow> bool" where
  "suspended d \<longleftrightarrow> trim_space (pci_status d) = ''suspended''"

definition asleep :: "string \<Rightarrow> gpu_reading" where
  "asleep addr = \<lparr>gr_addr = addr, gr_uuid = [], gr_suspended = True, gr_free = 0, gr_total = 0, gr_procs = []\<rparr>"

type_synonym smi = "string \<Rightarrow> smi_gpu list option"

definition readActive :: "smi \<Rightarrow> string \<Rightarrow> error + gpu_reading" where
  "readActive smi addr = (case smi addr of
       None \<Rightarrow> Inl (LocalError (SmiReadFailed addr)) | Some gpus \<Rightarrow> parseSMIXML addr gpus)"

fun read_devices :: "smi \<Rightarrow> pci_device list \<Rightarrow> error + gpu_reading list" where
  "read_devices smi [] = Inr []"
| "read_devices smi (d # ds) =
     (case (if suspended d then Inr (asleep (pci_name d)) else readActive smi (pci_name d)) of
        Inl e \<Rightarrow> Inl e
      | Inr g \<Rightarrow> (case read_devices smi ds of Inl e \<Rightarrow> Inl e | Inr gs \<Rightarrow> Inr (g # gs)))"

definition gpu_Read :: "smi \<Rightarrow> pci_device list option \<Rightarrow> error + gpu_reading list" where
  "gpu_Read smi entries = (case enumerateNVIDIAGPUs entries of Inl e \<Rightarrow> Inl e | Inr ds \<Rightarrow> read_devices smi ds)"

text \<open>The power supplies, each by the contents of its \<open>type\<close> and \<open>online\<close> files.\<close>

fun on_battery :: "(string \<times> string) list \<Rightarrow> bool \<Rightarrow> bool" where
  "on_battery [] sawMains = sawMains"
| "on_battery ((ty, online) # ps) sawMains =
     (if trim_space ty \<noteq> ''Mains'' then on_battery ps sawMains
      else if trim_space online = ''1'' then False
      else on_battery ps True)"

definition OnBattery :: "(string \<times> string) list option \<Rightarrow> bool" where
  "OnBattery entries = (case entries of None \<Rightarrow> False | Some ps \<Rightarrow> on_battery ps False)"

section \<open>The ledger\<close>

record footprint_key =
  fk_model :: string
  fk_quant :: string
  fk_context :: int
  fk_slots :: int
  fk_build :: string

text \<open>
  The footprint map as its entries, in the order a range over it visits them (Go leaves that order
  open, so the lemmas hold for every order).
\<close>

type_synonym footprints = "(footprint_key \<times> int) list"

definition SetFootprint :: "footprint_key \<Rightarrow> int \<Rightarrow> footprints \<Rightarrow> footprints" where
  "SetFootprint k mib l = (k, mib) # filter (\<lambda>e. fst e \<noteq> k) l"

definition FootprintByKey :: "footprint_key \<Rightarrow> footprints \<Rightarrow> int option" where
  "FootprintByKey k l = map_of l k"

definition Footprint :: "string \<Rightarrow> footprints \<Rightarrow> int option" where
  "Footprint model l = map_option snd (find (\<lambda>e. fk_model (fst e) = model) l)"

section \<open>Admission\<close>

definition keyGuardBandMB :: string where "keyGuardBandMB = ''local.vram.guard_band_mb''"
definition keyBatteryGPUAdmission :: string where
  "keyBatteryGPUAdmission = ''local.battery.gpu_admission''"
definition BatteryNever :: string where "BatteryNever = ''never''"
definition BatteryUrgentOnly :: string where "BatteryUrgentOnly = ''urgent-only''"
definition BatteryAlways :: string where "BatteryAlways = ''always''"

lemmas battery_defs = BatteryNever_def BatteryUrgentOnly_def BatteryAlways_def

text \<open>The mutable part of an admitter: a kill whose recovery is not verified yet, and its target.\<close>

record admitter =
  ad_pending :: bool
  ad_target :: int

definition new_admitter :: admitter where
  "new_admitter = \<lparr>ad_pending = False, ad_target = 0\<rparr>"

datatype refusal =
    RecoveryUnverified | OnBatteryNever | OnBatteryNotUrgent | NoGpuPresent
  | LowMemory int int int "int option"

datatype admission = Admit | Refuse refusal

text \<open>
  What one call of \<open>admit\<close> meets: the reading of the re-verification, the battery state, the
  reading of the check itself.
\<close>

record vram_env =
  ve_settings :: settings
  ve_ledger :: footprints
  ve_recheck :: "error + gpu_reading list"
  ve_battery :: "bool option"
  ve_reading :: "error + gpu_reading list"

definition poolGPU :: "gpu_reading list \<Rightarrow> gpu_reading option" where
  "poolGPU readings = (case readings of [] \<Rightarrow> None | g # _ \<Rightarrow> Some g)"

definition markKilled :: "int \<Rightarrow> int \<Rightarrow> admitter \<Rightarrow> admitter" where
  "markKilled preKillFree freed a =
     a\<lparr>ad_pending := True, ad_target := wrap64 (preKillFree + go_div (wrap64 (freed * 3)) 4)\<rparr>"

definition clearRecovery :: "admitter \<Rightarrow> admitter" where
  "clearRecovery a = a\<lparr>ad_pending := False, ad_target := 0\<rparr>"

definition reverify :: "error + gpu_reading list \<Rightarrow> admitter \<Rightarrow> bool \<times> admitter" where
  "reverify reading a = (case reading of
       Inl e \<Rightarrow> (False, a)
     | Inr readings \<Rightarrow> (case poolGPU readings of
           None \<Rightarrow> (False, a)
         | Some g \<Rightarrow> if gr_suspended g \<or> gr_free g \<ge> ad_target a then (True, clearRecovery a) else (False, a)))"

text \<open>The battery policy: \<open>None\<close> lets the check go on.\<close>

definition battery_gate :: "vram_env \<Rightarrow> bool \<Rightarrow> error + refusal option" where
  "battery_gate ve urgent = (case ve_battery ve of
       None \<Rightarrow> Inl (LocalError PowerReadFailed)
     | Some False \<Rightarrow> Inr None
     | Some True \<Rightarrow> (case read_string (ve_settings ve) keyBatteryGPUAdmission of
           Inl e \<Rightarrow> Inl e
         | Inr mode \<Rightarrow>
             if mode = BatteryNever then Inr (Some OnBatteryNever)
             else if mode = BatteryUrgentOnly then Inr (if urgent then None else Some OnBatteryNotUrgent)
             else if mode = BatteryAlways then Inr None
             else Inl (LocalError (UnexpectedBatteryMode mode))))"

definition memory_check :: "vram_env \<Rightarrow> string \<Rightarrow> error + admission" where
  "memory_check ve model = (case read_int (ve_settings ve) keyGuardBandMB of
       Inl e \<Rightarrow> Inl e
     | Inr guard \<Rightarrow> (case ve_reading ve of
           Inl e \<Rightarrow> Inl e
         | Inr readings \<Rightarrow> (case poolGPU readings of
               None \<Rightarrow> Inr (Refuse NoGpuPresent)
             | Some g \<Rightarrow>
                 if gr_suspended g then Inr Admit
                 else (let foot = Footprint model (ve_ledger ve);
                           need = wrap64 ((case foot of None \<Rightarrow> 0 | Some f \<Rightarrow> f) + guard)
                       in if gr_free g \<ge> need then Inr Admit
                          else Inr (Refuse (LowMemory (gr_free g) need guard foot))))))"

definition vram_admit :: "vram_env \<Rightarrow> string \<Rightarrow> bool \<Rightarrow> admitter \<Rightarrow> (error + admission) \<times> admitter" where
  "vram_admit ve model urgent a =
     (let (clear, a') = (if ad_pending a then reverify (ve_recheck ve) a else (True, a))
      in if \<not> clear then (Inr (Refuse RecoveryUnverified), a')
         else (case battery_gate ve urgent of
             Inl e \<Rightarrow> (Inl e, a')
           | Inr (Some why) \<Rightarrow> (Inr (Refuse why), a')
           | Inr None \<Rightarrow> (memory_check ve model, a')))"

text \<open>The two entries; a nil admitter admits everything.\<close>

definition AdmitDuty ::
  "vram_env option \<Rightarrow> string \<Rightarrow> bool \<Rightarrow> admitter \<Rightarrow> (error + admission) \<times> admitter" where
  "AdmitDuty ve model urgent a = (case ve of
       None \<Rightarrow> (Inr Admit, a) | Some v \<Rightarrow> vram_admit v model urgent a)"

definition AdmitLoad :: "vram_env option \<Rightarrow> string \<Rightarrow> admitter \<Rightarrow> (error + admission) \<times> admitter" where
  "AdmitLoad ve model = AdmitDuty ve model False"

section \<open>Lemmas\<close>

text \<open>The sleep gate: a suspended device is reported asleep, whatever \<open>nvidia-smi\<close> would say of it.\<close>

lemma read_devices_sleep_gated:
  "(\<And>d. d \<in> set ds \<Longrightarrow> \<not> suspended d \<Longrightarrow> smi (pci_name d) = smi' (pci_name d)) \<Longrightarrow>
   read_devices smi ds = read_devices smi' ds"
  by (induction ds) (auto simp: readActive_def split: sum.splits)

lemma read_devices_shape:
  "read_devices smi ds = Inr gs \<Longrightarrow>
   list_all2 (\<lambda>d g. gr_addr g = pci_name d \<and> gr_suspended g = suspended d \<and>
     (suspended d \<longrightarrow> g = asleep (pci_name d))) ds gs"
  by (induction ds arbitrary: gs)
     (auto simp: asleep_def readActive_def parseSMIXML_def split: sum.splits option.splits list.splits if_splits)

lemma on_battery_iff:
  "on_battery ps saw \<longleftrightarrow>
     (\<forall>p\<in>set ps. trim_space (fst p) = ''Mains'' \<longrightarrow> trim_space (snd p) \<noteq> ''1'') \<and>
     (saw \<or> (\<exists>p\<in>set ps. trim_space (fst p) = ''Mains''))"
  by (induction ps saw rule: on_battery.induct) auto

lemma Footprint_Some: "Footprint model l = Some f \<Longrightarrow> \<exists>k. (k, f) \<in> set l \<and> fk_model k = model"
  by (auto simp: Footprint_def find_Some_iff) (metis fst_conv nth_mem)

lemma Footprint_None: "Footprint model l = None \<longleftrightarrow> (\<forall>e\<in>set l. fk_model (fst e) \<noteq> model)"
  by (auto simp: Footprint_def find_None_iff)

lemma SetFootprint_lookup:
  "FootprintByKey k' (SetFootprint k mib l) = (if k' = k then Some mib else FootprintByKey k' l)"
  by (induction l) (auto simp: FootprintByKey_def SetFootprint_def)

text \<open>What a recovery needs.\<close>

definition recovered :: "int \<Rightarrow> error + gpu_reading list \<Rightarrow> bool" where
  "recovered target reading \<longleftrightarrow> (\<exists>g gs. reading = Inr (g # gs) \<and> (gr_suspended g \<or> gr_free g \<ge> target))"

lemma reverify_iff:
  "reverify reading a =
     (if recovered (ad_target a) reading then (True, clearRecovery a) else (False, a))"
  by (auto simp: reverify_def recovered_def poolGPU_def split: sum.splits list.splits)

lemma vram_admit_state:
  "snd (vram_admit ve model urgent a) =
     (if ad_pending a \<and> recovered (ad_target a) (ve_recheck ve) then clearRecovery a else a)"
  by (cases "ad_pending a"; cases "recovered (ad_target a) (ve_recheck ve)")
     (simp_all add: vram_admit_def reverify_iff Let_def split: sum.split option.split)

text \<open>Enough live memory, by the numbers of the reading and of the ledger.\<close>

definition enough_memory :: "vram_env \<Rightarrow> string \<Rightarrow> bool" where
  "enough_memory ve model \<longleftrightarrow> (\<exists>guard g gs. set_int (ve_settings ve) keyGuardBandMB = Some guard \<and>
     ve_reading ve = Inr (g # gs) \<and>
     (gr_suspended g \<or>
      gr_free g \<ge> wrap64 ((case Footprint model (ve_ledger ve) of None \<Rightarrow> 0 | Some f \<Rightarrow> f) + guard)))"

definition battery_allows :: "vram_env \<Rightarrow> bool \<Rightarrow> bool" where
  "battery_allows ve urgent \<longleftrightarrow> ve_battery ve = Some False \<or>
     (ve_battery ve = Some True \<and>
      (set_string (ve_settings ve) keyBatteryGPUAdmission = Some BatteryAlways \<or>
       (urgent \<and> set_string (ve_settings ve) keyBatteryGPUAdmission = Some BatteryUrgentOnly)))"

lemma memory_check_iff: "memory_check ve model = Inr Admit \<longleftrightarrow> enough_memory ve model"
  by (auto simp: memory_check_def enough_memory_def poolGPU_def read_int_def Let_def
      split: option.splits sum.splits list.splits)

lemma battery_distinct [simp]:
  "BatteryNever \<noteq> BatteryUrgentOnly" "BatteryNever \<noteq> BatteryAlways" "BatteryUrgentOnly \<noteq> BatteryAlways"
  "BatteryUrgentOnly \<noteq> BatteryNever" "BatteryAlways \<noteq> BatteryNever" "BatteryAlways \<noteq> BatteryUrgentOnly"
  by (simp_all add: battery_defs)

lemma battery_gate_iff: "battery_gate ve urgent = Inr None \<longleftrightarrow> battery_allows ve urgent"
proof (cases "ve_battery ve = Some True")
  case True
  then show ?thesis
    by (cases "set_string (ve_settings ve) keyBatteryGPUAdmission")
       (auto simp: battery_gate_def battery_allows_def read_string_def)
next
  case False
  then show ?thesis
    by (cases "ve_battery ve") (auto simp: battery_gate_def battery_allows_def)
qed

text \<open>Admission, spelt out.\<close>

lemma vram_admit_iff:
  "fst (vram_admit ve model urgent a) = Inr Admit \<longleftrightarrow>
     (ad_pending a \<longrightarrow> recovered (ad_target a) (ve_recheck ve)) \<and> battery_allows ve urgent \<and>
     enough_memory ve model"
proof -
  have "fst (case battery_gate ve urgent of Inl e \<Rightarrow> (Inl e, a')
           | Inr (Some why) \<Rightarrow> (Inr (Refuse why), a')
           | Inr None \<Rightarrow> (memory_check ve model, a')) = Inr Admit \<longleftrightarrow>
        battery_allows ve urgent \<and> enough_memory ve model" for a' :: admitter
    unfolding battery_gate_iff [symmetric] memory_check_iff [symmetric]
    by (simp split: sum.split option.split)
  then show ?thesis by (simp add: vram_admit_def reverify_iff Let_def)
qed

end
