(* ===== verification/Local_Duty.thy ===== *)
theory Local_Duty
  imports Checkpoints Local_Seats Vram_Admission
begin

text \<open>
  \<open>internal/local/client.go\<close>, \<open>usage.go\<close>, \<open>duty.go\<close> and the stop switch of \<open>eagerunload.go\<close>: one call of a duty on the
  local tier.  The client's request is the JSON it posts, and the exchange with the model server is a
  parameter that answers it with a decoded reply; the token log-probabilities of a reply are carried by
  the code to callers outside this development and are left out.  A duty call passes the operator's
  stop switch, the alias map, the abstain belt and the memory admission, and then lands one usage row
  on the run it serves.
\<close>

section \<open>The client\<close>

record chat_spec =
  cs_model :: string
  cs_system :: string
  cs_user :: string
  cs_messages :: "(string \<times> string) list option"
  cs_schema :: raw
  cs_name :: string
  cs_max :: int
  cs_logprobs :: bool
  cs_nothink :: bool

record completion =
  co_content :: raw
  co_in :: int
  co_out :: int
  co_finish :: string
  co_logprobs :: "json list"

text \<open>A reply of status 200 as \<open>chatResponse\<close> reads it; its choices are their content, finish
  reason and token log-probabilities.\<close>

record chat_reply =
  cy_error :: bool
  cy_choices :: "(raw \<times> string \<times> json list) list"
  cy_prompt :: int
  cy_completion :: int

datatype exchange =
    Unreachable | Unread | Status int | Undecodable | Reply chat_reply

definition message_json :: "string \<times> string \<Rightarrow> json" where
  "message_json m = JObj [(''role'', JStr (fst m)), (''content'', JStr (snd m))]"

definition spec_messages :: "chat_spec \<Rightarrow> (string \<times> string) list" where
  "spec_messages spec = (case cs_messages spec of
       Some ms \<Rightarrow> ms
     | None \<Rightarrow> (if cs_system spec = [] then [] else [(''system'', cs_system spec)]) @ [(''user'', cs_user spec)])"

definition response_format :: "chat_spec \<Rightarrow> (string \<times> json) list option" where
  "response_format spec =
     (if raw_text (cs_schema spec) = [] then Some []
      else (case raw_json (cs_schema spec) of
          None \<Rightarrow> None
        | Some schema \<Rightarrow> Some [(''response_format'', JObj [(''type'', JStr ''json_schema''),
            (''json_schema'', JObj [(''name'', JStr (if cs_name spec = [] then ''duty'' else cs_name spec)),
               (''schema'', schema), (''strict'', JBool True)])])]))"

definition chat_request :: "chat_spec \<Rightarrow> error + json" where
  "chat_request spec = (case response_format spec of
       None \<Rightarrow> Inl (MarshalFailed ''chat request'')
     | Some fmt \<Rightarrow> Inr (JObj
         ([(''model'', JStr (cs_model spec)),
           (''messages'', JArr (map message_json (spec_messages spec))),
           (''temperature'', JNum ''0'')] @
          opt_int ''max_tokens'' (cs_max spec) @ fmt @ opt_bool ''logprobs'' (cs_logprobs spec) @
          (if cs_logprobs spec then [(''top_logprobs'', JNum ''2'')] else []) @
          (if cs_nothink spec
           then [(''chat_template_kwargs'', JObj [(''enable_thinking'', JBool False)])] else []))))"

definition Chat :: "(json \<Rightarrow> exchange) \<Rightarrow> chat_spec \<Rightarrow> error + completion" where
  "Chat post spec = (case chat_request spec of
       Inl e \<Rightarrow> Inl e
     | Inr body \<Rightarrow> (case post body of
           Unreachable \<Rightarrow> Inl (LocalError ErrStackAbsent)
         | Unread \<Rightarrow> Inl (LocalError ChatFailed)
         | Status n \<Rightarrow> Inl (LocalError (ChatStatus n))
         | Undecodable \<Rightarrow> Inl (LocalError ChatUndecodable)
         | Reply r \<Rightarrow>
             if cy_error r then Inl (LocalError ChatRefused)
             else (case cy_choices r of
                 [] \<Rightarrow> Inl (LocalError ChatNoChoices)
               | (content, finish, logprobs) # _ \<Rightarrow> Inr \<lparr>co_content = content, co_in = cy_prompt r,
                   co_out = cy_completion r, co_finish = finish, co_logprobs = logprobs\<rparr>)))"

section \<open>The stop switch\<close>

text \<open>
  The admission gate: backed by a flag file when it has a path (the file's content, if it exists), an
  in-memory flag otherwise.  A failing file operation is the \<open>False\<close> of \<open>disk\<close>.
\<close>

record admissions =
  am_backed :: bool
  am_file :: "string option"
  am_stopped :: bool
  am_reason :: string

definition NewAdmissions :: "bool \<Rightarrow> string option \<Rightarrow> admissions" where
  "NewAdmissions backed file = \<lparr>am_backed = backed, am_file = file, am_stopped = False, am_reason = []\<rparr>"

definition Stopped :: "admissions \<Rightarrow> bool" where
  "Stopped a = (if am_backed a then am_file a \<noteq> None else am_stopped a)"

definition Reason :: "admissions \<Rightarrow> string" where
  "Reason a = (if am_backed a then (case am_file a of None \<Rightarrow> [] | Some t \<Rightarrow> t) else am_reason a)"

definition StopAdmissions :: "bool \<Rightarrow> string \<Rightarrow> admissions \<Rightarrow> (error + unit) \<times> admissions" where
  "StopAdmissions disk reason a =
     (if am_backed a
      then (if disk then (Inr (), a\<lparr>am_file := Some reason\<rparr>) else (Inl (LocalError AdmissionsFlagFailed), a))
      else (Inr (), a\<lparr>am_stopped := True, am_reason := reason\<rparr>))"

definition ResumeAdmissions :: "bool \<Rightarrow> admissions \<Rightarrow> (error + unit) \<times> admissions" where
  "ResumeAdmissions disk a =
     (if am_backed a
      then (if disk \<or> am_file a = None then (Inr (), a\<lparr>am_file := None\<rparr>)
            else (Inl (LocalError AdmissionsFlagFailed), a))
      else (Inr (), a\<lparr>am_stopped := False, am_reason := []\<rparr>))"

section \<open>The usage row\<close>

definition UsageJSON :: "string \<Rightarrow> string \<Rightarrow> string \<Rightarrow> string \<Rightarrow> int \<Rightarrow> int \<Rightarrow> raw" where
  "UsageJSON duty model sha build inTok outTok = marshal (JObj
     [(''input_tokens'', json_int inTok), (''output_tokens'', json_int outTok),
      (''local'', JObj [(''lane'', JStr ''local''), (''duty'', JStr duty), (''model'', JStr model),
         (''model_sha256'', JStr sha), (''engine_build'', JStr build)])])"

section \<open>Duty calls\<close>

record duty_request =
  dr_alias :: string
  dr_system :: string
  dr_user :: string
  dr_schema :: raw
  dr_name :: string
  dr_max :: int
  dr_classification :: bool
  dr_nothink :: bool

record duty_result =
  du_model :: string
  du_content :: raw
  du_in :: int
  du_out :: int
  du_checkpoint :: int
  du_finish :: string

text \<open>
  A wired duty caller and what one call meets: the store's environment, the stop switch, the admitter's
  surroundings (\<open>None\<close> when no admitter is wired), the server, and the wording of an error.
\<close>

record duty_env =
  de_env :: env
  de_adm :: admissions
  de_vram :: "vram_env option"
  de_post :: "json \<Rightarrow> exchange"
  de_text :: "error \<Rightarrow> string"

definition EventLocalUnmeteredDefect :: string where
  "EventLocalUnmeteredDefect = ''local.unmetered_defect''"

definition platform_append :: "string \<Rightarrow> raw \<Rightarrow> append" where
  "platform_append ty payload = \<lparr>ap_run = [], ap_gen = 0, ap_user = ActorPlatform, ap_type = ty,
     ap_version = 1, ap_payload = payload, ap_time = 0\<rparr>"

definition abstain_tokens :: "string list" where
  "abstain_tokens = [''abstain'', ''unclear'', ''unknown'']"

definition assertAbstain :: "raw \<Rightarrow> error + unit" where
  "assertAbstain schema =
     (if \<not> raw_valid schema then Inl (LocalError SchemaNotJSON)
      else if list_ex (\<lambda>t. str_contains (raw_text schema) (quote_text t)) abstain_tokens then Inr ()
      else Inl (LocalError NoAbstainMember))"

text \<open>\<open>strings.EqualFold\<close> against an ASCII word (ASCII folding).\<close>

definition equal_fold :: "string \<Rightarrow> string \<Rightarrow> bool" where
  "equal_fold a b \<longleftrightarrow> to_lower a = to_lower b"

definition truncated :: "int \<Rightarrow> completion \<Rightarrow> bool" where
  "truncated maxTokens c \<longleftrightarrow> equal_fold (co_finish c) ''length'' \<or> (maxTokens > 0 \<and> co_out c \<ge> maxTokens)"

definition surfaceUnmeteredDefect :: "duty_env \<Rightarrow> string \<Rightarrow> string \<Rightarrow> error \<Rightarrow> db \<Rightarrow> db" where
  "surfaceUnmeteredDefect de rid alias cause s =
     snd (Append (env_settings (de_env de)) (env_now (de_env de))
       (platform_append EventLocalUnmeteredDefect (marshal (JObj
          [(''run'', JStr rid), (''duty'', JStr alias), (''cause'', JStr (de_text de cause))]))) s)"

definition usage_checkpoint :: "string \<Rightarrow> string \<Rightarrow> seat \<Rightarrow> completion \<Rightarrow> new_checkpoint" where
  "usage_checkpoint rid alias st c =
     \<lparr>nc_run = rid,
      nc_usage = UsageJSON alias (st_model st) (ModelHash st) LlamaCppPin (co_in c) (co_out c),
      nc_session_substrate = ''local'', nc_session_id = [], nc_message_index = 0, nc_cwd_key = [],
      nc_transcript = [], nc_ledger_revision = [], nc_artifact_ref = [], nc_model = st_model st,
      nc_invocation_fp = [], nc_tool_schema = [], nc_prompt_schema = []\<rparr>"

definition duty_spec :: "seat \<Rightarrow> duty_request \<Rightarrow> chat_spec" where
  "duty_spec st d = \<lparr>cs_model = st_model st, cs_system = dr_system d, cs_user = dr_user d,
     cs_messages = None, cs_schema = dr_schema d, cs_name = dr_name d, cs_max = dr_max d,
     cs_logprobs = dr_classification d, cs_nothink = dr_nothink d \<or> dr_classification d\<rparr>"

text \<open>The part of \<open>callOnSeat\<close> after the reply: the usage row, then the truncation verdict.\<close>

definition meter_reply ::
  "duty_env \<Rightarrow> string \<Rightarrow> string \<Rightarrow> seat \<Rightarrow> duty_request \<Rightarrow> completion \<Rightarrow> db \<Rightarrow> (error + duty_result) \<times> db" where
  "meter_reply de rid alias st d c s =
     (case WriteCheckpoint (de_env de) (usage_checkpoint rid alias st c) s of
        (Inl e, t) \<Rightarrow> (Inl (LocalError (MeteringWriteFailed alias)), surfaceUnmeteredDefect de rid alias e t)
      | (Inr cp, t) \<Rightarrow>
          if truncated (dr_max d) c then (Inl (LocalError (ErrTruncated alias)), t)
          else (Inr \<lparr>du_model = st_model st, du_content = co_content c, du_in = co_in c,
                 du_out = co_out c, du_checkpoint = ck_id cp, du_finish = co_finish c\<rparr>, t))"

definition preflight :: "seat \<Rightarrow> duty_request \<Rightarrow> error + unit" where
  "preflight st d =
     (if \<not> st_servable st then Inl (LocalError (ErrNotServable (st_model st)))
      else if dr_classification d \<and> raw_text (dr_schema d) \<noteq> [] then assertAbstain (dr_schema d)
      else Inr ())"

definition callOnSeat ::
  "duty_env \<Rightarrow> string \<Rightarrow> string \<Rightarrow> seat \<Rightarrow> duty_request \<Rightarrow> admitter \<Rightarrow> db \<Rightarrow>
   (error + duty_result) \<times> admitter \<times> db" where
  "callOnSeat de rid alias st d a s =
     (case preflight st d of
        Inl e \<Rightarrow> (Inl e, a, s)
      | Inr _ \<Rightarrow> (case AdmitDuty (de_vram de) (st_model st) (aliasUrgent alias) a of
          (Inl e, a') \<Rightarrow> (Inl e, a', s)
        | (Inr (Refuse why), a') \<Rightarrow> (Inl (LocalError (ErrGPUAdmissionRefused alias)), a', s)
        | (Inr Admit, a') \<Rightarrow> (case Chat (de_post de) (duty_spec st d) of
            Inl e \<Rightarrow> (Inl e, a', s)
          | Inr c \<Rightarrow> (case meter_reply de rid alias st d c s of (r, t) \<Rightarrow> (r, a', t)))))"

text \<open>\<open>Call\<close> and \<open>CallSeat\<close>; a nil duty (nothing wired) is \<open>None\<close>.\<close>

definition duty_gate :: "duty_env \<Rightarrow> string \<Rightarrow> string \<Rightarrow> error + unit" where
  "duty_gate de rid alias =
     (if rid = [] then Inl (LocalError (NoConsumingRun alias))
      else if Stopped (de_adm de) then Inl (LocalError ErrAdmissionsStopped)
      else Inr ())"

definition DutyCall ::
  "duty_env option \<Rightarrow> string \<Rightarrow> duty_request \<Rightarrow> admitter \<Rightarrow> db \<Rightarrow> (error + duty_result) \<times> admitter \<times> db" where
  "DutyCall duty rid d a s = (case duty of
       None \<Rightarrow> (Inl (LocalError ErrStackAbsent), a, s)
     | Some de \<Rightarrow> (case duty_gate de rid (dr_alias d) of
           Inl e \<Rightarrow> (Inl e, a, s)
         | Inr _ \<Rightarrow> (case SeatFor (env_settings (de_env de)) (dr_alias d) of
               Inl e \<Rightarrow> (Inl e, a, s)
             | Inr st \<Rightarrow> callOnSeat de rid (dr_alias d) st d a s)))"

definition CallSeat ::
  "duty_env option \<Rightarrow> string \<Rightarrow> string \<Rightarrow> seat \<Rightarrow> duty_request \<Rightarrow> admitter \<Rightarrow> db \<Rightarrow>
   (error + duty_result) \<times> admitter \<times> db" where
  "CallSeat duty rid alias st d a s = (case duty of
       None \<Rightarrow> (Inl (LocalError ErrStackAbsent), a, s)
     | Some de \<Rightarrow> (case duty_gate de rid alias of
           Inl e \<Rightarrow> (Inl e, a, s)
         | Inr _ \<Rightarrow> callOnSeat de rid alias st d a s))"

section \<open>Lemmas\<close>

lemma neutral_local [simp]: "neutral_type EventLocalUnmeteredDefect"
  by (simp add: neutral_type_def event_type_defs EventLocalUnmeteredDefect_def)

lemma Append_cases:
  "(\<exists>e. Append cfg now a s = (Inl e, s)) \<or>
   (\<exists>seq. Append cfg now a s =
      (Inr seq, s\<lparr>t_events := t_events s @ [new_event seq now a]\<rparr>) \<and> validate cfg a = Inr ())"
proof (cases "AppendTx cfg now a s")
  case (Inr p)
  then show ?thesis by (cases p) (auto simp: Append_def AppendTx_Inr)
qed (simp add: Append_def)

lemma Append_tables:
  "t_checkpoints (snd (Append cfg now a s)) = t_checkpoints s"
  "t_runs (snd (Append cfg now a s)) = t_runs s"
  "t_queue (snd (Append cfg now a s)) = t_queue s"
  "t_effects (snd (Append cfg now a s)) = t_effects s"
  using Append_cases [of cfg now a s] by auto

lemma surface_tables:
  "t_checkpoints (surfaceUnmeteredDefect de rid alias e s) = t_checkpoints s"
  "t_runs (surfaceUnmeteredDefect de rid alias e s) = t_runs s"
  by (simp_all add: surfaceUnmeteredDefect_def Append_tables)

lemma WriteCheckpoint_cases:
  obtains (refused) e where "WriteCheckpoint env n s = (Inl e, s)"
  | (written) c u where "WriteCheckpoint env n s = (Inr c, u)" "CheckpointTx env n s = Inr (c, u)"
  unfolding WriteCheckpoint_def by (cases "CheckpointTx env n s") auto

text \<open>What \<open>meter_reply\<close> leaves: the usage row on success and on truncation, nothing but the defect otherwise.\<close>

lemma meter_reply_cases:
  obtains (metered) c u where "CheckpointTx (de_env de) (usage_checkpoint rid alias st co) s = Inr (c, u)"
      "snd (meter_reply de rid alias st d co s) = u"
      "fst (meter_reply de rid alias st d co s) = (if truncated (dr_max d) co
         then Inl (LocalError (ErrTruncated alias))
         else Inr \<lparr>du_model = st_model st, du_content = co_content co, du_in = co_in co,
                du_out = co_out co, du_checkpoint = ck_id c, du_finish = co_finish co\<rparr>)"
  | (unmetered) e where "fst (meter_reply de rid alias st d co s) = Inl (LocalError (MeteringWriteFailed alias))"
      "snd (meter_reply de rid alias st d co s) = surfaceUnmeteredDefect de rid alias e s"
  by (rule WriteCheckpoint_cases [of "de_env de" "usage_checkpoint rid alias st co" s])
     (auto simp: meter_reply_def)

text \<open>\<open>callOnSeat\<close> either stops before the server is asked, or ends in \<open>meter_reply\<close>.\<close>

lemma callOnSeat_cases:
  obtains (stopped) e a' where "callOnSeat de rid alias st d a s = (Inl e, a', s)"
  | (called) co a' where "Chat (de_post de) (duty_spec st d) = Inr co" "st_servable st"
      "AdmitDuty (de_vram de) (st_model st) (aliasUrgent alias) a = (Inr Admit, a')"
      "callOnSeat de rid alias st d a s =
         (fst (meter_reply de rid alias st d co s), a', snd (meter_reply de rid alias st d co s))"
proof (cases "preflight st d")
  case (Inl e)
  then show thesis using stopped [of e a] by (simp add: callOnSeat_def)
next
  case (Inr u)
  then have servable: "st_servable st" by (auto simp: preflight_def split: if_splits)
  obtain r a' where adm: "AdmitDuty (de_vram de) (st_model st) (aliasUrgent alias) a = (r, a')" by fastforce
  show thesis
  proof (cases "r = Inr Admit")
    case True
    show thesis
    proof (cases "Chat (de_post de) (duty_spec st d)")
      case (Inl e)
      with \<open>preflight st d = Inr u\<close> adm True show thesis
        using stopped [of e a'] by (simp add: callOnSeat_def)
    next
      case (Inr co)
      show thesis
        by (rule called [OF Inr servable]) (use \<open>preflight st d = Inr u\<close> adm True Inr in
            \<open>simp_all add: callOnSeat_def split: prod.split\<close>)
    qed
  next
    case False
    with \<open>preflight st d = Inr u\<close> adm have "\<exists>e. callOnSeat de rid alias st d a s = (Inl e, a', s)"
      by (simp add: callOnSeat_def split: sum.split admission.split)
    with stopped show thesis by blast
  qed
qed

lemma DutyCall_cases:
  obtains (stopped) e a' where "DutyCall duty rid d a s = (Inl e, a', s)"
  | (called) de st where "duty = Some de" "rid \<noteq> []" "\<not> Stopped (de_adm de)"
      "SeatFor (env_settings (de_env de)) (dr_alias d) = Inr st"
      "DutyCall duty rid d a s = callOnSeat de rid (dr_alias d) st d a s"
proof (cases duty)
  case None
  then show thesis using stopped by (simp add: DutyCall_def)
next
  case (Some de)
  show thesis
  proof (cases "duty_gate de rid (dr_alias d)")
    case (Inl e)
    with Some show thesis using stopped by (simp add: DutyCall_def)
  next
    case (Inr u)
    then have gate: "rid \<noteq> []" "\<not> Stopped (de_adm de)" by (auto simp: duty_gate_def split: if_splits)
    show thesis
      using Some Inr stopped called [OF Some gate]
      by (cases "SeatFor (env_settings (de_env de)) (dr_alias d)") (simp_all add: DutyCall_def)
  qed
qed

end
