(* ===== verification/Gpu_Preempt.thy ===== *)
theory Gpu_Preempt
  imports Vram_Admission
begin

text \<open>
  \<open>internal/local/preempt.go\<close>: the forced kill of a model server (SIGTERM, a grace, SIGKILL) and the
  verification that its memory came back.  The two waiting loops are functions of the observations they
  make, one per turn of the loop; a list that ends stands for a caller that gave up.
\<close>

text \<open>What one turn sees: the probe of the pid, and whether the deadline passed or the context ended.\<close>

record probe =
  pb_gone :: bool
  pb_late :: bool
  pb_done :: bool

fun waitExit :: "probe list \<Rightarrow> bool" where
  "waitExit [] = False"
| "waitExit (p # ps) =
     (if pb_gone p then True else if pb_late p then False else if pb_done p then False else waitExit ps)"

record recovery_turn =
  rt_reading :: "error + gpu_reading list"
  rt_late :: bool
  rt_done :: bool

fun verifyRecovery :: "int \<Rightarrow> recovery_turn list \<Rightarrow> error + unit" where
  "verifyRecovery want [] = Inl (LocalError Cancelled)"
| "verifyRecovery want (t # ts) =
     (case rt_reading t of
        Inl e \<Rightarrow> Inl e
      | Inr readings \<Rightarrow>
          if (case poolGPU readings of None \<Rightarrow> False | Some g \<Rightarrow> gr_suspended g \<or> gr_free g \<ge> want) then Inr ()
          else if rt_late t then Inl (LocalError RecoveryNotVerified)
          else if rt_done t then Inl (LocalError Cancelled)
          else verifyRecovery want ts)"

datatype signal_result = SignalOk | NoProcess | SignalError

text \<open>What one kill meets.\<close>

record kill_env =
  ke_settings :: settings
  ke_before :: "error + gpu_reading list"
  ke_term :: signal_result
  ke_grace :: "probe list"
  ke_kill :: signal_result
  ke_last :: "probe list"
  ke_turns :: "recovery_turn list"

definition keyUnloadGrace :: string where "keyUnloadGrace = ''local.unload.term_grace_s''"

fun held_by :: "int \<Rightarrow> gpu_process list \<Rightarrow> int \<Rightarrow> int" where
  "held_by pid [] held = held"
| "held_by pid (p # ps) held = held_by pid ps (if gp_pid p = pid then gp_used p else held)"

definition readPidHold :: "error + gpu_reading list \<Rightarrow> int \<Rightarrow> int \<times> int" where
  "readPidHold reading pid = (case reading of
       Inl e \<Rightarrow> (0, 0)
     | Inr readings \<Rightarrow> (case poolGPU readings of
           None \<Rightarrow> (0, 0)
         | Some g \<Rightarrow> if gr_suspended g then (0, 0) else (gr_free g, held_by pid (gr_procs g) 0)))"

text \<open>SIGTERM, the grace, then the mandatory SIGKILL: \<open>Inr ()\<close> when the process is gone.\<close>

definition stop_process :: "kill_env \<Rightarrow> int \<Rightarrow> error + unit" where
  "stop_process ke pid =
     (if ke_term ke = SignalError then Inl (LocalError (SignalFailed pid))
      else if waitExit (ke_grace ke) then Inr ()
      else if ke_kill ke = SignalError then Inl (LocalError (SignalFailed pid))
      else if waitExit (ke_last ke) then Inr ()
      else Inl (LocalError (SurvivedKill pid)))"

definition recovery_target :: "int \<Rightarrow> int \<Rightarrow> int" where
  "recovery_target preFree held = wrap64 (preFree + go_div (wrap64 (held * 3)) 4)"

text \<open>The admitter is optional (\<open>None\<close>).\<close>

definition KillBackend :: "kill_env \<Rightarrow> int \<Rightarrow> admitter option \<Rightarrow> (error + unit) \<times> admitter option" where
  "KillBackend ke pid ad =
     (case read_int (ke_settings ke) keyUnloadGrace of
        Inl e \<Rightarrow> (Inl e, ad)
      | Inr grace \<Rightarrow> (let (preFree, held) = readPidHold (ke_before ke) pid in
          (case stop_process ke pid of
             Inl e \<Rightarrow> (Inl e, ad)
           | Inr _ \<Rightarrow>
               (case verifyRecovery (recovery_target preFree held) (ke_turns ke) of
                  Inl e \<Rightarrow> (Inl e, map_option (markKilled preFree held) ad)
                | Inr _ \<Rightarrow> (Inr (), map_option (\<lambda>a. clearRecovery (markKilled preFree held a)) ad)))))"

fun kill_wedged ::
  "(int \<Rightarrow> kill_env) \<Rightarrow> gpu_process list \<Rightarrow> admitter option \<Rightarrow> (error + unit) \<times> admitter option" where
  "kill_wedged ke [] ad = (Inr (), ad)"
| "kill_wedged ke (p # ps) ad =
     (if \<not> str_contains (gp_name p) ''llama-server'' then kill_wedged ke ps ad
      else (case KillBackend (ke (gp_pid p)) (gp_pid p) ad of
          (Inl e, ad') \<Rightarrow> (Inl e, ad')
        | (Inr _, ad') \<Rightarrow> kill_wedged ke ps ad'))"

definition ForceKillWedged ::
  "(int \<Rightarrow> kill_env) \<Rightarrow> error + gpu_reading list \<Rightarrow> admitter option \<Rightarrow> (error + unit) \<times> admitter option" where
  "ForceKillWedged ke reading ad = (case reading of
       Inl e \<Rightarrow> (Inl e, ad)
     | Inr readings \<Rightarrow> (case poolGPU readings of
           None \<Rightarrow> (Inr (), ad)
         | Some g \<Rightarrow> if gr_suspended g then (Inr (), ad) else kill_wedged ke (gr_procs g) ad))"

section \<open>Lemmas\<close>

lemma waitExit_gone: "waitExit ps \<Longrightarrow> \<exists>p\<in>set ps. pb_gone p"
  by (induction ps) (auto split: if_splits)

lemma verifyRecovery_ok: "verifyRecovery want ts = Inr () \<Longrightarrow> \<exists>t\<in>set ts. recovered want (rt_reading t)"
proof (induction ts)
  case (Cons t ts)
  show ?case
  proof (cases "recovered want (rt_reading t)")
    case False
    then have "verifyRecovery want ts = Inr ()"
      using Cons.prems by (auto simp: recovered_def poolGPU_def split: sum.splits list.splits if_splits)
    with Cons.IH show ?thesis by auto
  qed simp
qed simp

lemma markKilled_target:
  "markKilled preFree held a = a\<lparr>ad_pending := True, ad_target := recovery_target preFree held\<rparr>"
  by (simp add: markKilled_def recovery_target_def)

text \<open>How a kill ends: untouched gate, a gate left closed, or a verified recovery.\<close>

lemma KillBackend_cases:
  obtains (before) e where "KillBackend ke pid ad = (Inl e, ad)"
  | (gated) e preFree held where "(preFree, held) = readPidHold (ke_before ke) pid"
      "KillBackend ke pid ad = (Inl e, map_option (markKilled preFree held) ad)"
  | (clear) preFree held t where "(preFree, held) = readPidHold (ke_before ke) pid"
      "t \<in> set (ke_turns ke)" "recovered (recovery_target preFree held) (rt_reading t)"
      "KillBackend ke pid ad = (Inr (), map_option clearRecovery ad)"
proof -
  obtain preFree held where hold: "readPidHold (ke_before ke) pid = (preFree, held)" by fastforce
  have both: "map_option (\<lambda>a. clearRecovery (markKilled preFree held a)) ad = map_option clearRecovery ad"
    by (cases ad) (simp_all add: clearRecovery_def markKilled_target)
  show thesis
  proof (cases "read_int (ke_settings ke) keyUnloadGrace")
    case (Inl e)
    then show thesis using before by (simp add: KillBackend_def)
  next
    case (Inr grace)
    note grace = this
    show thesis
    proof (cases "stop_process ke pid")
      case (Inl e)
      with grace show thesis using before by (simp add: KillBackend_def hold read_int_def)
    next
      case (Inr u)
      note stop = this
      show thesis
      proof (cases "verifyRecovery (recovery_target preFree held) (ke_turns ke)")
        case (Inl e)
        with grace stop show thesis using gated [OF hold [symmetric]] by (simp add: KillBackend_def hold read_int_def)
      next
        case (Inr v)
        then obtain t where "t \<in> set (ke_turns ke)" "recovered (recovery_target preFree held) (rt_reading t)"
          using verifyRecovery_ok by fastforce
        with grace stop Inr both show thesis using clear [OF hold [symmetric]] by (simp add: KillBackend_def hold read_int_def)
      qed
    qed
  qed
qed

end
