(* ===== verification/Eager_Unload.thy ===== *)
theory Eager_Unload
  imports Local_Duty Gpu_Preempt
begin

text \<open>
  \<open>internal/local/eagerunload.go\<close>: the operator-wins switch.  It stops the local lane's admissions,
  unloads every model and force-kills a server that will not let go of its memory; resuming reopens the
  lane.  Both acts are recorded on the event log.
\<close>

section \<open>The eager unload\<close>

definition EventLocalAdmissionsStopped :: string where
  "EventLocalAdmissionsStopped = ''local.admissions_stopped''"
definition EventLocalAdmissionsResumed :: string where
  "EventLocalAdmissionsResumed = ''local.admissions_resumed''"

text \<open>\<open>record\<close>: one platform event; a failing append is only logged.\<close>

definition record_unload :: "env \<Rightarrow> string \<Rightarrow> string \<Rightarrow> string option \<Rightarrow> db \<Rightarrow> db" where
  "record_unload env actor ty err s =
     snd (Append (env_settings env) (env_now env) (platform_append ty (marshal (JObj
       ([(''actor'', JStr actor), (''unload_ok'', JBool (err = None))] @
        opt_str ''unload_err'' (case err of None \<Rightarrow> [] | Some t \<Rightarrow> t))))) s)"

text \<open>
  \<open>Engage\<close>: the stop first, then the best-effort unload (the text of its error, if any) and the kill
  of a wedged server, whose failure is only logged.
\<close>

definition kill_leg ::
  "((int \<Rightarrow> kill_env) \<times> (error + gpu_reading list)) option \<Rightarrow> admitter option \<Rightarrow> admitter option" where
  "kill_leg preempt ad = (case preempt of
       None \<Rightarrow> ad | Some (ke, reading) \<Rightarrow> snd (ForceKillWedged ke reading ad))"

definition Engage ::
  "env \<Rightarrow> bool \<Rightarrow> string \<Rightarrow> string option \<Rightarrow> ((int \<Rightarrow> kill_env) \<times> (error + gpu_reading list)) option \<Rightarrow>
   admissions \<Rightarrow> admitter option \<Rightarrow> db \<Rightarrow> (error + unit) \<times> admissions \<times> admitter option \<times> db" where
  "Engage env disk actor unloadErr preempt a ad s =
     (case StopAdmissions disk (''eager-unload engaged by '' @ actor) a of
        (Inl e, a') \<Rightarrow> (Inl e, a', ad, s)
      | (Inr _, a') \<Rightarrow>
          (if unloadErr = None then Inr () else Inl (LocalError UnloadFailed), a', kill_leg preempt ad,
           record_unload env actor EventLocalAdmissionsStopped unloadErr s))"

definition ResumeUnload ::
  "env \<Rightarrow> bool \<Rightarrow> string \<Rightarrow> admissions \<Rightarrow> db \<Rightarrow> (error + unit) \<times> admissions \<times> db" where
  "ResumeUnload env disk actor a s =
     (case ResumeAdmissions disk a of
        (Inl e, a') \<Rightarrow> (Inl e, a', s)
      | (Inr _, a') \<Rightarrow> (Inr (), a', record_unload env actor EventLocalAdmissionsResumed None s))"

section \<open>Lemmas\<close>

lemma neutral_unload [simp]:
  "neutral_type EventLocalAdmissionsStopped" "neutral_type EventLocalAdmissionsResumed"
  by (simp_all add: neutral_type_def event_type_defs EventLocalAdmissionsStopped_def
      EventLocalAdmissionsResumed_def)

text \<open>The gate: what was stopped stays stopped until a resume, and the file survives a restart.\<close>

lemma Stopped_after_stop: "StopAdmissions disk why a = (Inr (), a') \<Longrightarrow> Stopped a' \<and> Reason a' = why"
  by (auto simp: StopAdmissions_def Stopped_def Reason_def split: if_splits)

lemma Stopped_after_resume: "ResumeAdmissions disk a = (Inr (), a') \<Longrightarrow> \<not> Stopped a'"
  by (auto simp: ResumeAdmissions_def Stopped_def split: if_splits)

lemma Stopped_restart: "am_backed a \<Longrightarrow> Stopped (NewAdmissions True (am_file a)) = Stopped a"
  by (simp add: Stopped_def NewAdmissions_def)

text \<open>
  The operator wins even when the unload fails or the kill does: once the switch is thrown every duty
  call is refused before it reads an alias, asks the memory or reaches the server.
\<close>

lemma Engage_stops_calls:
  assumes "Engage env disk actor unloadErr preempt a ad s = (r, a', ad', t)"
    and "am_backed a \<longrightarrow> disk" "rid \<noteq> []"
  shows "DutyCall (Some (de\<lparr>de_adm := a'\<rparr>)) rid d b u = (Inl (LocalError ErrAdmissionsStopped), b, u)"
proof -
  have "Stopped a'"
    using assms(1,2) by (auto simp: Engage_def StopAdmissions_def Stopped_def split: if_splits)
  with assms(3) show ?thesis by (simp add: DutyCall_def duty_gate_def)
qed

end
