(* ===== verification/Gpu_Broker.thy ===== *)
theory Gpu_Broker
  imports Local_Duty Metering
begin

text \<open>
  \<open>internal/local/gpubroker.go\<close>: the sandboxed plane of the local tier.  Tokens are minted for a run,
  resolved, rate-limited and revoked in a registry; the handler serves exactly three routes to a caller
  that shows a live token.  A reply is its status and, on success, its JSON body; the sentences of the
  error replies are left out.  A request body that repeats its \<open>messages\<close> key is read as the last one.
\<close>

section \<open>Grants and tokens\<close>

record grant =
  gt_run :: string
  gt_owner :: string
  gt_class :: string
  gt_models :: "string list"
  gt_rate :: int
  gt_bytes :: int
  gt_logprobs :: bool
  gt_expires :: time

definition allows :: "grant \<Rightarrow> string \<Rightarrow> bool" where
  "allows g alias = list_ex (\<lambda>m. normalizeAlias m = normalizeAlias alias) (gt_models g)"

record token_state =
  tk_grant :: grant
  tk_start :: time
  tk_count :: int

type_synonym registry = "(string \<times> token_state) list"

definition tok_find :: "string \<Rightarrow> registry \<Rightarrow> token_state option" where
  "tok_find tok reg = map_of reg tok"

definition tok_put :: "string \<Rightarrow> token_state \<Rightarrow> registry \<Rightarrow> registry" where
  "tok_put tok st reg = (tok, st) # filter (\<lambda>e. fst e \<noteq> tok) reg"

definition tok_drop :: "string \<Rightarrow> registry \<Rightarrow> registry" where
  "tok_drop tok reg = filter (\<lambda>e. fst e \<noteq> tok) reg"

definition minute :: duration where "minute = 60 * second"

text \<open>\<open>hex.EncodeToString\<close>.\<close>

definition hex_text :: "nat list \<Rightarrow> string" where
  "hex_text bytes = concat (map (\<lambda>b. [hex_digit (b div 16), hex_digit (b mod 16)]) bytes)"

text \<open>\<open>Mint\<close> over the 32 drawn bytes (\<open>None\<close> when the random source fails).\<close>

definition Mint :: "nat list option \<Rightarrow> time \<Rightarrow> grant \<Rightarrow> registry \<Rightarrow> (error + string) \<times> registry" where
  "Mint drawn now g reg =
     (if equal_fold (gt_class g) ''C0'' then (Inl (LocalError GrantForC0), reg)
      else if gt_run g = [] then (Inl (LocalError GrantWithoutRun), reg)
      else (case drawn of
          None \<Rightarrow> (Inl (LocalError RandomFailed), reg)
        | Some bytes \<Rightarrow> (Inr (hex_text bytes),
            tok_put (hex_text bytes) \<lparr>tk_grant = g, tk_start = now, tk_count = 0\<rparr> reg)))"

definition expired :: "time \<Rightarrow> grant \<Rightarrow> bool" where
  "expired now g \<longleftrightarrow> \<not> is_zero_time (gt_expires g) \<and> now > gt_expires g"

definition ResolveToken :: "string \<Rightarrow> time \<Rightarrow> registry \<Rightarrow> grant option \<times> registry" where
  "ResolveToken tok now reg = (case tok_find tok reg of
       None \<Rightarrow> (None, reg)
     | Some st \<Rightarrow> if expired now (tk_grant st) then (None, tok_drop tok reg) else (Some (tk_grant st), reg))"

definition RevokeRun :: "string \<Rightarrow> registry \<Rightarrow> registry" where
  "RevokeRun rid reg = filter (\<lambda>e. gt_run (tk_grant (snd e)) \<noteq> rid) reg"

definition rateOK :: "string \<Rightarrow> time \<Rightarrow> registry \<Rightarrow> bool \<times> registry" where
  "rateOK tok now reg = (case tok_find tok reg of
       None \<Rightarrow> (False, reg)
     | Some st \<Rightarrow>
         if gt_rate (tk_grant st) \<le> 0 then (True, reg)
         else (let st1 = (if time_sub now (tk_start st) \<ge> minute
                          then st\<lparr>tk_start := now, tk_count := 0\<rparr> else st);
                   st2 = st1\<lparr>tk_count := wrap64 (tk_count st1 + 1)\<rparr>
               in (tk_count st2 \<le> gt_rate (tk_grant st), tok_put tok st2 reg)))"

section \<open>The handler\<close>

record sandbox_request =
  rq_method :: string
  rq_path :: string
  rq_auth :: string
  rq_body :: raw
  rq_readable :: bool

type_synonym http_reply = "int \<times> json option"

text \<open>\<open>strings.Cut\<close> at the first space.\<close>

fun cut_space :: "string \<Rightarrow> (string \<times> string) option" where
  "cut_space [] = None"
| "cut_space (c # cs) = (if c = CHR '' '' then Some ([], cs)
     else (case cut_space cs of None \<Rightarrow> None | Some (a, b) \<Rightarrow> Some (c # a, b)))"

definition bearer_token :: "string \<Rightarrow> string option" where
  "bearer_token header = (case cut_space header of
       None \<Rightarrow> None
     | Some (scheme, tok) \<Rightarrow> if equal_fold scheme ''Bearer'' then Some (trim_space tok) else None)"

definition bearer ::
  "sandbox_request \<Rightarrow> time \<Rightarrow> registry \<Rightarrow> (int + grant) \<times> registry" where
  "bearer rq now reg = (case bearer_token (rq_auth rq) of
       None \<Rightarrow> (Inl 401, reg)
     | Some tok \<Rightarrow> (case ResolveToken tok now reg of
           (None, reg') \<Rightarrow> (Inl 401, reg')
         | (Some g, reg') \<Rightarrow> (case rateOK tok now reg' of
               (False, reg'') \<Rightarrow> (Inl 429, reg'')
             | (True, reg'') \<Rightarrow> (Inr g, reg''))))"

record sandbox_chat =
  sc_model :: string
  sc_messages :: "(string \<times> string) list option"
  sc_logprobs :: bool
  sc_max :: int

text \<open>\<open>json.Unmarshal\<close> into the request struct: a member of the wrong type fails the decode.\<close>

fun message_member :: "(string \<times> json) list \<Rightarrow> string \<times> string \<Rightarrow> (string \<times> string) option" where
  "message_member [] m = Some m"
| "message_member ((k, v) # fs) m =
     (if to_lower k = ''role'' then (case strict_str v (fst m) of
          None \<Rightarrow> None | Some t \<Rightarrow> message_member fs (t, snd m))
      else if to_lower k = ''content'' then (case strict_str v (snd m) of
          None \<Rightarrow> None | Some t \<Rightarrow> message_member fs (fst m, t))
      else message_member fs m)"

fun message_list :: "json list \<Rightarrow> (string \<times> string) list option" where
  "message_list [] = Some []"
| "message_list (v # vs) =
     (case (case v of JNull \<Rightarrow> Some ([], []) | JObj fs \<Rightarrow> message_member fs ([], []) | _ \<Rightarrow> None) of
        None \<Rightarrow> None
      | Some m \<Rightarrow> map_option (Cons m) (message_list vs))"

definition chat_member :: "string \<times> json \<Rightarrow> sandbox_chat \<Rightarrow> sandbox_chat option" where
  "chat_member f c = (let key = to_lower (fst f); v = snd f in
     if key = ''model'' then map_option (\<lambda>t. c\<lparr>sc_model := t\<rparr>) (strict_str v (sc_model c))
     else if key = ''messages'' then (case v of
         JNull \<Rightarrow> Some (c\<lparr>sc_messages := None\<rparr>)
       | JArr vs \<Rightarrow> map_option (\<lambda>ms. c\<lparr>sc_messages := Some ms\<rparr>) (message_list vs)
       | _ \<Rightarrow> None)
     else if key = ''logprobs'' then (case v of
         JNull \<Rightarrow> Some c | JBool b \<Rightarrow> Some (c\<lparr>sc_logprobs := b\<rparr>) | _ \<Rightarrow> None)
     else if key = ''max_tokens'' then (case v of
         JNull \<Rightarrow> Some c
       | JNum lit \<Rightarrow> map_option (\<lambda>i. c\<lparr>sc_max := i\<rparr>) (parse_int lit)
       | _ \<Rightarrow> None)
     else Some c)"

fun chat_members :: "(string \<times> json) list \<Rightarrow> sandbox_chat \<Rightarrow> sandbox_chat option" where
  "chat_members [] c = Some c"
| "chat_members (f # fs) c = (case chat_member f c of None \<Rightarrow> None | Some c' \<Rightarrow> chat_members fs c')"

definition decode_chat :: "raw \<Rightarrow> sandbox_chat option" where
  "decode_chat r = (let zero = \<lparr>sc_model = [], sc_messages = None, sc_logprobs = False, sc_max = 0\<rparr> in
     (case raw_json r of
        None \<Rightarrow> None
      | Some JNull \<Rightarrow> Some zero
      | Some (JObj fs) \<Rightarrow> chat_members fs zero
      | Some v \<Rightarrow> None))"

definition keySandboxLogprobs :: string where "keySandboxLogprobs = ''local.broker.sandbox_logprobs''"

text \<open>The checks of \<open>handleChat\<close> before the server is asked: the status of a refusal, or the request and its seat.\<close>

definition logprobs_gate :: "settings \<Rightarrow> grant \<Rightarrow> sandbox_chat \<Rightarrow> int option" where
  "logprobs_gate cfg g c =
     (if \<not> sc_logprobs c then None
      else (case read_bool cfg keySandboxLogprobs of
          Inl e \<Rightarrow> Some 500
        | Inr live \<Rightarrow> if \<not> gt_logprobs g \<or> \<not> live then Some 403 else None))"

definition size_limit :: "grant \<Rightarrow> int" where
  "size_limit g = (if gt_bytes g \<le> 0 then 1048576 else gt_bytes g)"

definition chat_gate :: "settings \<Rightarrow> grant \<Rightarrow> sandbox_request \<Rightarrow> int + (sandbox_chat \<times> seat)" where
  "chat_gate cfg g rq =
     (if \<not> rq_readable rq then Inl 400
      else if int (length (raw_text (rq_body rq))) > size_limit g then Inl 413
      else (case decode_chat (rq_body rq) of
          None \<Rightarrow> Inl 400
        | Some c \<Rightarrow>
            if \<not> allows g (sc_model c) then Inl 403
            else (case logprobs_gate cfg g c of
                Some status \<Rightarrow> Inl status
              | None \<Rightarrow> (case SeatFor cfg (sc_model c) of
                    Inl e \<Rightarrow> Inl 400
                  | Inr st \<Rightarrow> if \<not> st_servable st then Inl 503 else Inr (c, st)))))"

definition sandbox_spec :: "seat \<Rightarrow> sandbox_chat \<Rightarrow> chat_spec" where
  "sandbox_spec st c = \<lparr>cs_model = st_model st, cs_system = [], cs_user = [], cs_messages = sc_messages c,
     cs_schema = raw_empty, cs_name = [], cs_max = sc_max c, cs_logprobs = sc_logprobs c, cs_nothink = False\<rparr>"

definition surface_sandbox :: "duty_env \<Rightarrow> string \<Rightarrow> error \<Rightarrow> db \<Rightarrow> db" where
  "surface_sandbox de rid cause s =
     snd (Append (env_settings (de_env de)) (env_now (de_env de))
       (platform_append EventLocalUnmeteredDefect (marshal (JObj
          [(''run'', JStr rid), (''plane'', JStr ''sandboxed''), (''cause'', JStr (de_text de cause))]))) s)"

definition meter_sandbox ::
  "duty_env \<Rightarrow> grant \<Rightarrow> string \<Rightarrow> seat \<Rightarrow> completion \<Rightarrow> db \<Rightarrow> (error + unit) \<times> db" where
  "meter_sandbox de g alias st co s =
     (case WriteCheckpoint (de_env de) (usage_checkpoint (gt_run g) alias st co) s of
        (Inl e, t) \<Rightarrow> (Inl e, surface_sandbox de (gt_run g) e t)
      | (Inr cp, t) \<Rightarrow> (Inr (), t))"

definition chat_body :: "sandbox_chat \<Rightarrow> completion \<Rightarrow> json" where
  "chat_body c co = JObj
     [(''choices'', JArr [JObj
        ([(''finish_reason'', JStr (co_finish co))] @
         (if sc_logprobs c \<and> co_logprobs co \<noteq> []
          then [(''logprobs'', JObj [(''content'', JArr (co_logprobs co))])] else []) @
         [(''message'', JObj [(''content'', JStr (raw_text (co_content co))), (''role'', JStr ''assistant'')])])]),
      (''usage'', JObj [(''completion_tokens'', json_int (co_out co)), (''prompt_tokens'', json_int (co_in co))])]"

definition handleChat :: "duty_env \<Rightarrow> grant \<Rightarrow> sandbox_request \<Rightarrow> db \<Rightarrow> http_reply \<times> db" where
  "handleChat de g rq s =
     (case chat_gate (env_settings (de_env de)) g rq of
        Inl status \<Rightarrow> ((status, None), s)
      | Inr (c, st) \<Rightarrow> (case Chat (de_post de) (sandbox_spec st c) of
            Inl e \<Rightarrow> ((502, None), s)
          | Inr co \<Rightarrow> (case meter_sandbox de g (sc_model c) st co s of
                (Inl e, t) \<Rightarrow> ((500, None), t)
              | (Inr _, t) \<Rightarrow> ((200, Some (chat_body c co)), t))))"

definition models_body :: "grant \<Rightarrow> json" where
  "models_body g = JObj
     [(''data'', JArr (map (\<lambda>m. JObj [(''id'', JStr m), (''object'', JStr ''model'')]) (gt_models g))),
      (''object'', JStr ''list'')]"

text \<open>
  \<open>Handler\<close>: the mux (a GET pattern serves HEAD too, a known path with another method is 405, the path
  is clean), then \<open>bearer\<close>, then the route.
\<close>

definition sandbox_routes :: "(string \<times> string) list" where
  "sandbox_routes = [(''POST'', ''/v1/chat/completions''), (''POST'', ''/v1/embeddings''), (''GET'', ''/v1/models''),
     (''HEAD'', ''/v1/models'')]"

definition ServeSandbox ::
  "duty_env \<Rightarrow> time \<Rightarrow> sandbox_request \<Rightarrow> registry \<Rightarrow> db \<Rightarrow> http_reply \<times> registry \<times> db" where
  "ServeSandbox de now rq reg s =
     (if (rq_method rq, rq_path rq) \<notin> set sandbox_routes then
        ((if rq_path rq \<in> snd ` set sandbox_routes then 405 else 404, None), reg, s)
      else (case bearer rq now reg of
          (Inl status, reg') \<Rightarrow> ((status, None), reg', s)
        | (Inr g, reg') \<Rightarrow>
            if rq_path rq = ''/v1/chat/completions'' then
              (case handleChat de g rq s of (reply, t) \<Rightarrow> (reply, reg', t))
            else if rq_path rq = ''/v1/embeddings'' then ((503, None), reg', s)
            else ((200, Some (models_body g)), reg', s)))"

end
