(* ===== verification/Local_Properties.thy ===== *)
theory Local_Properties
  imports Eager_Unload Gpu_Broker Consumption_Ledger Sample_Data
begin

text \<open>
  What the local tier promises: memory is admitted by the live reading, a kill whose memory did not come
  back closes the gate, every call that reached the model is on the books at no cost, and the sandboxed
  plane serves only what its token grants.
\<close>

section \<open>Memory admission\<close>

definition admission_calls :: "(vram_env \<times> string \<times> bool) list \<Rightarrow> admitter \<Rightarrow> (error + admission) list" where
  "admission_calls calls a = fst (fold (\<lambda>(ve, model, urgent) (rs, a).
     (case vram_admit ve model urgent a of (r, a') \<Rightarrow> (rs @ [r], a'))) calls ([], a))"

lemma gated_calls:
  assumes "ad_pending a" "\<forall>c\<in>set calls. \<not> recovered (ad_target a) (ve_recheck (fst c))"
  shows "set (admission_calls calls a) \<subseteq> {Inr (Refuse RecoveryUnverified)}"
proof -
  have "set (fst (fold (\<lambda>(ve, model, urgent) (rs, a).
     (case vram_admit ve model urgent a of (r, a') \<Rightarrow> (rs @ [r], a'))) calls (rs, a)))
      \<subseteq> set rs \<union> {Inr (Refuse RecoveryUnverified)}" for rs
    using assms(2)
  proof (induction calls arbitrary: rs)
    case (Cons c calls)
    obtain ve model urgent where c: "c = (ve, model, urgent)" by (cases c)
    with Cons.prems assms(1) have "vram_admit ve model urgent a = (Inr (Refuse RecoveryUnverified), a)"
      by (simp add: vram_admit_def reverify_iff)
    with Cons.IH [of "rs @ [Inr (Refuse RecoveryUnverified)]"] Cons.prems c show ?case by auto
  qed auto
  from this [of "[]"] show ?thesis by (simp add: admission_calls_def)
qed

text \<open>
  C21: a load is admitted by the live memory reading.  The check admits exactly when an earlier
  kill's recovery is verified (or there was none), the battery policy allows it, and the first device
  either sleeps or shows at least the guard band plus the measured footprint of the model as free; a
  footprint belief alone never admits and never refuses.
\<close>

theorem admission_by_live_memory:
  "fst (vram_admit ve model urgent a) = Inr Admit \<longleftrightarrow>
     (ad_pending a \<longrightarrow> recovered (ad_target a) (ve_recheck ve)) \<and>
     (ve_battery ve = Some False \<or>
      ve_battery ve = Some True \<and>
        (set_string (ve_settings ve) keyBatteryGPUAdmission = Some BatteryAlways \<or>
         urgent \<and> set_string (ve_settings ve) keyBatteryGPUAdmission = Some BatteryUrgentOnly)) \<and>
     (\<exists>guard g gs. set_int (ve_settings ve) keyGuardBandMB = Some guard \<and> ve_reading ve = Inr (g # gs) \<and>
        (gr_suspended g \<or>
         gr_free g \<ge> wrap64 ((case Footprint model (ve_ledger ve) of None \<Rightarrow> 0 | Some f \<Rightarrow> f) + guard)))"
  by (simp add: vram_admit_iff battery_allows_def enough_memory_def)

definition sample_gpu :: "int \<Rightarrow> gpu_reading" where
  "sample_gpu free = \<lparr>gr_addr = ''0000:01:00.0'', gr_uuid = ''u'', gr_suspended = False, gr_free = free,
     gr_total = 12000, gr_procs = []\<rparr>"

definition sample_vram :: "int \<Rightarrow> vram_env" where
  "sample_vram free = \<lparr>ve_settings = sample_cfg, ve_ledger = [], ve_recheck = Inr [sample_gpu free],
     ve_battery = Some False, ve_reading = Inr [sample_gpu free]\<rparr>"

theorem admission_by_live_memory_witness:
  "fst (vram_admit (sample_vram 70000) ''m'' False new_admitter) = Inr Admit \<and>
   fst (vram_admit (sample_vram 60000) ''m'' False new_admitter) \<noteq> Inr Admit"
  unfolding admission_by_live_memory
  by (simp add: sample_vram_def sample_gpu_def new_admitter_def sample_cfg_def Footprint_def wrap64_def)

text \<open>
  C17: a kill whose memory did not come back keeps the gate closed.  If the forced kill of a server
  ends in an error after the process was stopped, every later admission is refused until some live
  reading shows the recovery target free or the device asleep; if the kill reports success, such a
  reading was seen and the gate is open.
\<close>

theorem kill_gates_admission:
  assumes "KillBackend ke pid (Some a) = (r, Some a')"
  shows "(r = Inr () \<longrightarrow> \<not> ad_pending a' \<and>
       (\<exists>t\<in>set (ke_turns ke). case readPidHold (ke_before ke) pid of
          (preFree, held) \<Rightarrow> recovered (recovery_target preFree held) (rt_reading t))) \<and>
     (stop_process ke pid = Inr () \<and> r \<noteq> Inr () \<and> set_int (ke_settings ke) keyUnloadGrace \<noteq> None \<and>
      (\<forall>c\<in>set calls. \<not> recovered (ad_target a') (ve_recheck (fst c))) \<longrightarrow>
        set (admission_calls calls a') \<subseteq> {Inr (Refuse RecoveryUnverified)})"
  (is "?open \<and> ?closed")
proof
  show ?open
    using assms by (rule_tac KillBackend_cases [of ke pid "Some a"])
      (auto simp: clearRecovery_def split: prod.splits)
  show ?closed
  proof (intro impI, elim conjE)
    assume stopped: "stop_process ke pid = Inr ()" and failed: "r \<noteq> Inr ()"
      and grace: "set_int (ke_settings ke) keyUnloadGrace \<noteq> None"
      and calls: "\<forall>c\<in>set calls. \<not> recovered (ad_target a') (ve_recheck (fst c))"
    from assms stopped failed grace have "ad_pending a'"
      by (auto simp: KillBackend_def read_int_def markKilled_def split: option.splits sum.splits prod.splits)
    then show "set (admission_calls calls a') \<subseteq> {Inr (Refuse RecoveryUnverified)}"
      using calls by (rule gated_calls)
  qed
qed

definition sample_kill :: "recovery_turn list \<Rightarrow> kill_env" where
  "sample_kill turns = \<lparr>ke_settings = sample_cfg, ke_before = Inr [sample_gpu 1000], ke_term = SignalOk,
     ke_grace = [\<lparr>pb_gone = True, pb_late = False, pb_done = False\<rparr>], ke_kill = SignalOk, ke_last = [],
     ke_turns = turns\<rparr>"

definition sample_turn :: "int \<Rightarrow> bool \<Rightarrow> recovery_turn" where
  "sample_turn free late = \<lparr>rt_reading = Inr [sample_gpu free], rt_late = late, rt_done = False\<rparr>"

lemmas kill_eval = sample_kill_def sample_turn_def sample_gpu_def sample_cfg_def KillBackend_def
  readPidHold_def poolGPU_def stop_process_def recovery_target_def wrap64_def go_div_def
  markKilled_target clearRecovery_def new_admitter_def read_int_def

theorem kill_gates_admission_witness:
  "set (admission_calls [(sample_vram 900, ''m'', True)]
     (the (snd (KillBackend (sample_kill [sample_turn 900 True]) 7 (Some new_admitter)))))
   \<subseteq> {Inr (Refuse RecoveryUnverified)}"
proof -
  have k: "KillBackend (sample_kill [sample_turn 900 True]) 7 (Some new_admitter) =
      (Inl (LocalError RecoveryNotVerified), Some \<lparr>ad_pending = True, ad_target = 1000\<rparr>)"
    by (simp add: kill_eval)
  have stop: "stop_process (sample_kill [sample_turn 900 True]) 7 = Inr ()" by (simp add: kill_eval)
  have grace: "set_int (ke_settings (sample_kill [sample_turn 900 True])) keyUnloadGrace \<noteq> None"
    by (simp add: kill_eval)
  have low: "\<forall>c\<in>set [(sample_vram 900, ''m'', True)].
      \<not> recovered (ad_target \<lparr>ad_pending = True, ad_target = 1000\<rparr>) (ve_recheck (fst c))"
    by (simp add: recovered_def sample_vram_def sample_gpu_def)
  from kill_gates_admission [OF k, of "[(sample_vram 900, ''m'', True)]"] stop grace low k
  show ?thesis by simp
qed

section \<open>Duty calls\<close>

lemma usage_is_local: "parseLocalMarker (UsageJSON duty model sha build i j)"
  by (simp add: parseLocalMarker_def UsageJSON_def strict_str_def LaneLocal_def to_lower_def lower_char_def)

lemma usage_checkpoint_free:
  assumes "CheckpointTx env (usage_checkpoint rid alias st co) s = Inr (c, u)"
  shows "t_checkpoints u = t_checkpoints s @ [c] \<and> ck_run c = rid \<and> t_runs u = t_runs s \<and>
    parseLocalMarker (ck_usage c)"
  using assms
proof (rule CheckpointTx_Inr)
  fix r seq e
  assume c: "c = row_of_checkpoint (next_rowid (map ck_id (t_checkpoints s))) (env_now env)
      (usage_checkpoint rid alias st co) (run_user r) seq"
    and u: "u = s\<lparr>t_events := t_events s @ [e], t_checkpoints := t_checkpoints s @ [c]\<rparr>"
  have "usage_of (usage_checkpoint rid alias st co) =
      UsageJSON alias (st_model st) (ModelHash st) LlamaCppPin (co_in co) (co_out co)"
    by (simp add: usage_of_def usage_checkpoint_def UsageJSON_def)
  with c u show ?thesis by (simp add: row_of_checkpoint_def usage_checkpoint_def usage_is_local)
qed

lemma free_row: "parseLocalMarker (sr_usage r) \<Longrightarrow> price_source_row le r = Priced 0"
  by (simp add: price_source_row_def priceLocal_def)

text \<open>
  C7: every local call is on the books, at no cost.  A duty call adds at most one checkpoint row,
  only to the run it serves, and touches no run; a call that returns a result added exactly one, whose
  id it returns; and the price table has no say over the row: whatever it holds, the row costs nothing.
\<close>

theorem local_call_metered_free:
  assumes "DutyCall duty rid d a s = (r, a', t)"
  shows "(t_checkpoints t = t_checkpoints s \<or>
     (\<exists>c. t_checkpoints t = t_checkpoints s @ [c] \<and> ck_run c = rid \<and>
       (\<forall>le lane ts. price_source_row le \<lparr>sr_model = ck_model c, sr_lane = lane, sr_usage = ck_usage c,
          sr_created = ts\<rparr> = Priced 0))) \<and>
     (\<forall>res. r = Inr res \<longrightarrow> (\<exists>c. t_checkpoints t = t_checkpoints s @ [c] \<and> ck_id c = du_checkpoint res)) \<and>
     t_runs t = t_runs s"
  (is "?goal r t")
proof (rule DutyCall_cases [of duty rid d a s])
  fix e b assume "DutyCall duty rid d a s = (Inl e, b, s)"
  with assms show ?thesis by auto
next
  fix de st assume call: "DutyCall duty rid d a s = callOnSeat de rid (dr_alias d) st d a s"
  show ?thesis
  proof (rule callOnSeat_cases [of de rid "dr_alias d" st d a s])
    fix e b assume "callOnSeat de rid (dr_alias d) st d a s = (Inl e, b, s)"
    with assms call show ?thesis by auto
  next
    fix co b assume "callOnSeat de rid (dr_alias d) st d a s =
      (fst (meter_reply de rid (dr_alias d) st d co s), b, snd (meter_reply de rid (dr_alias d) st d co s))"
    with assms call have rt: "r = fst (meter_reply de rid (dr_alias d) st d co s)"
      "t = snd (meter_reply de rid (dr_alias d) st d co s)" by simp_all
    show ?thesis
    proof (rule meter_reply_cases [of de rid "dr_alias d" st co s d])
      fix c u assume w: "CheckpointTx (de_env de) (usage_checkpoint rid (dr_alias d) st co) s = Inr (c, u)"
        "snd (meter_reply de rid (dr_alias d) st d co s) = u"
        "fst (meter_reply de rid (dr_alias d) st d co s) = (if truncated (dr_max d) co
           then Inl (LocalError (ErrTruncated (dr_alias d)))
           else Inr \<lparr>du_model = st_model st, du_content = co_content co, du_in = co_in co,
                  du_out = co_out co, du_checkpoint = ck_id c, du_finish = co_finish co\<rparr>)"
      from usage_checkpoint_free [OF w(1)] w(2,3) rt show ?thesis
        by (auto simp: free_row split: if_splits)
    next
      fix e assume "fst (meter_reply de rid (dr_alias d) st d co s) =
          Inl (LocalError (MeteringWriteFailed (dr_alias d)))"
        "snd (meter_reply de rid (dr_alias d) st d co s) = surfaceUnmeteredDefect de rid (dr_alias d) e s"
      with rt show ?thesis by (simp add: surface_tables)
    qed
  qed
qed

definition sample_duty :: duty_env where
  "sample_duty = \<lparr>de_env = sample_env\<lparr>env_settings := sample_cfg\<lparr>set_map := (\<lambda>k. Some (map_of default_aliases))\<rparr>\<rparr>,
     de_adm = NewAdmissions False None, de_vram = None,
     de_post = (\<lambda>body. Reply \<lparr>cy_error = False, cy_choices = [(raw_empty, ''stop'', [])], cy_prompt = 7,
       cy_completion = 2\<rparr>), de_text = (\<lambda>e. [])\<rparr>"

definition sample_ask :: duty_request where
  "sample_ask = \<lparr>dr_alias = ''utility'', dr_system = [], dr_user = ''hello'', dr_schema = raw_empty,
     dr_name = [], dr_max = 100, dr_classification = False, dr_nothink = False\<rparr>"

lemmas duty_eval = DutyCall_def duty_gate_def SeatFor_def Resolve_def normalizeAlias_def trim_space_def
  is_space_def to_lower_def lower_char_def AliasEmbedder_def read_map_def keyAlias_def default_aliases_def
  seatByKey_def Manifest_def pool12_seat_def callOnSeat_def preflight_def AdmitDuty_def Chat_def
  chat_request_def response_format_def duty_spec_def meter_reply_def WriteCheckpoint_def CheckpointTx_def
  usage_checkpoint_def usage_of_def UsageJSON_def truncated_def equal_fold_def sample_duty_def
  sample_ask_def Stopped_def NewAdmissions_def checkpoint_payload_def insert_checkpoint_def
  row_of_checkpoint_def EventCheckpoint_def opt_int_def opt_bool_def

lemma sample_call: "\<exists>res. fst (DutyCall (Some sample_duty) ''r'' sample_ask new_admitter sample_running) = Inr res"
  by (simp add: duty_eval sample_running_def tx_eval json_eval append_eval run_eval sample_eval
      cong: tx_bind_weak)

theorem local_call_metered_free_witness:
  "\<exists>c. t_checkpoints (snd (snd (DutyCall (Some sample_duty) ''r'' sample_ask new_admitter sample_running)))
     = t_checkpoints sample_running @ [c]"
proof -
  obtain r a t where call: "DutyCall (Some sample_duty) ''r'' sample_ask new_admitter sample_running = (r, a, t)"
    by (cases "DutyCall (Some sample_duty) ''r'' sample_ask new_admitter sample_running")
  from sample_call obtain res where "r = Inr res" unfolding call by auto
  with local_call_metered_free [OF call] call show ?thesis by auto
qed

section \<open>The sandboxed plane\<close>

lemma bearer_cases:
  obtains (refused) status where "fst (bearer rq now reg) = Inl status" "status \<noteq> 200"
  | (granted) tok st where "bearer_token (rq_auth rq) = Some tok" "tok_find tok reg = Some st"
      "\<not> expired now (tk_grant st)" "fst (rateOK tok now reg)" "fst (bearer rq now reg) = Inr (tk_grant st)"
proof (cases "bearer_token (rq_auth rq)")
  case (Some tok)
  show thesis
  proof (cases "tok_find tok reg")
    case None
    with Some show thesis using refused by (simp add: bearer_def ResolveToken_def)
  next
    case (Some st)
    show thesis
    proof (cases "expired now (tk_grant st)")
      case True
      with Some \<open>bearer_token (rq_auth rq) = Some tok\<close> show thesis
        using refused by (simp add: bearer_def ResolveToken_def)
    next
      case False
      with Some \<open>bearer_token (rq_auth rq) = Some tok\<close> show thesis using granted refused
        by (cases "rateOK tok now reg"; cases "fst (rateOK tok now reg)") (simp_all add: bearer_def ResolveToken_def)
    qed
  qed
qed (simp add: bearer_def refused)

lemma chat_gate_Inr:
  "chat_gate cfg g rq = Inr (c, st) \<Longrightarrow>
   int (length (raw_text (rq_body rq))) \<le> size_limit g \<and> decode_chat (rq_body rq) = Some c \<and>
   allows g (sc_model c) \<and> SeatFor cfg (sc_model c) = Inr st \<and> st_servable st \<and>
   (sc_logprobs c \<longrightarrow> gt_logprobs g \<and> set_bool cfg keySandboxLogprobs = Some True)"
  by (auto simp: chat_gate_def logprobs_gate_def read_bool_def split: if_splits option.splits sum.splits)

lemma chat_gate_Inl: "chat_gate cfg g rq = Inl status \<Longrightarrow> status \<noteq> 200"
  by (auto simp: chat_gate_def logprobs_gate_def read_bool_def split: if_splits option.splits sum.splits)

lemma surface_sandbox_tables:
  "t_checkpoints (surface_sandbox de rid e s) = t_checkpoints s" "t_runs (surface_sandbox de rid e s) = t_runs s"
  by (simp_all add: surface_sandbox_def Append_tables)

lemma handleChat_cases:
  assumes "handleChat de g rq s = (reply, t)"
  obtains (refused) status where "reply = (status, None)" "status \<noteq> 200"
      "t_checkpoints t = t_checkpoints s" "t_runs t = t_runs s"
  | (served) c st co cp where "reply = (200, Some (chat_body c co))"
      "chat_gate (env_settings (de_env de)) g rq = Inr (c, st)"
      "CheckpointTx (de_env de) (usage_checkpoint (gt_run g) (sc_model c) st co) s = Inr (cp, t)"
proof (cases "chat_gate (env_settings (de_env de)) g rq")
  case (Inl status)
  with assms refused chat_gate_Inl [OF Inl] show thesis by (auto simp: handleChat_def)
next
  case (Inr p)
  obtain c st where p: "p = (c, st)" by (cases p)
  show thesis
  proof (cases "Chat (de_post de) (sandbox_spec st c)")
    case (Inl e)
    with assms Inr p have "reply = (502, None)" "t = s" by (simp_all add: handleChat_def)
    then show thesis by (simp add: refused)
  next
    case co: (Inr co)
    show thesis
    proof (rule WriteCheckpoint_cases [of "de_env de" "usage_checkpoint (gt_run g) (sc_model c) st co" s])
      fix e assume "WriteCheckpoint (de_env de) (usage_checkpoint (gt_run g) (sc_model c) st co) s = (Inl e, s)"
      with assms refused Inr p co show thesis
        by (auto simp: handleChat_def meter_sandbox_def surface_sandbox_tables)
    next
      fix cp u
      assume "WriteCheckpoint (de_env de) (usage_checkpoint (gt_run g) (sc_model c) st co) s = (Inr cp, u)"
        "CheckpointTx (de_env de) (usage_checkpoint (gt_run g) (sc_model c) st co) s = Inr (cp, u)"
      with assms served Inr p co show thesis by (auto simp: handleChat_def meter_sandbox_def)
    qed
  qed
qed

text \<open>
  C9: the sandboxed plane serves only what a live token grants.  A served reply belongs to a bearer
  token that resolves, has not expired and is within its rate; a served chat names an allowed duty,
  fits the grant's size budget, carries token probabilities only if both the grant and the live setting
  allow them, and lands exactly one free usage row, on the run of the grant; the model list is the
  grant's own; and no other request adds a usage row.  Runs are never touched.
\<close>

theorem sandbox_confined:
  assumes "ServeSandbox de now rq reg s = ((status, body), reg', t)"
  shows "t_runs t = t_runs s \<and> (status \<noteq> 200 \<longrightarrow> body = None \<and> t_checkpoints t = t_checkpoints s) \<and>
    (status = 200 \<longrightarrow> (\<exists>tok st. bearer_token (rq_auth rq) = Some tok \<and> tok_find tok reg = Some st \<and>
       \<not> expired now (tk_grant st) \<and> fst (rateOK tok now reg) \<and>
       (rq_path rq = ''/v1/models'' \<and> body = Some (models_body (tk_grant st)) \<and> t = s \<or>
        rq_path rq = ''/v1/chat/completions'' \<and> (\<exists>c co cp. body = Some (chat_body c co) \<and>
          decode_chat (rq_body rq) = Some c \<and> allows (tk_grant st) (sc_model c) \<and>
          int (length (raw_text (rq_body rq))) \<le> size_limit (tk_grant st) \<and>
          (sc_logprobs c \<longrightarrow> gt_logprobs (tk_grant st) \<and>
             set_bool (env_settings (de_env de)) keySandboxLogprobs = Some True) \<and>
          t_checkpoints t = t_checkpoints s @ [cp] \<and> ck_run cp = gt_run (tk_grant st) \<and>
          parseLocalMarker (ck_usage cp)))))"
proof (cases "(rq_method rq, rq_path rq) \<in> set sandbox_routes")
  case False
  with assms show ?thesis by (auto simp: ServeSandbox_def split: if_splits)
next
  case route: True
  obtain b r1 where b: "bearer rq now reg = (b, r1)" by fastforce
  show ?thesis
  proof (rule bearer_cases [of rq now reg])
    fix code assume "fst (bearer rq now reg) = Inl code" "code \<noteq> 200"
    with assms route b show ?thesis by (auto simp: ServeSandbox_def)
  next
    fix tok st assume tok: "bearer_token (rq_auth rq) = Some tok" "tok_find tok reg = Some st"
      "\<not> expired now (tk_grant st)" "fst (rateOK tok now reg)" "fst (bearer rq now reg) = Inr (tk_grant st)"
    show ?thesis
    proof (cases "rq_path rq = ''/v1/chat/completions''")
      case True
      with assms route b tok(5) have h: "handleChat de (tk_grant st) rq s = ((status, body), t)"
        by (auto simp: ServeSandbox_def split: prod.splits)
      show ?thesis
        using h
      proof (rule handleChat_cases)
        fix code assume "(status, body) = (code, None)" "code \<noteq> 200" "t_checkpoints t = t_checkpoints s"
          "t_runs t = t_runs s"
        then show ?thesis by simp
      next
        fix c se co cp
        assume "(status, body) = (200, Some (chat_body c co))"
          "chat_gate (env_settings (de_env de)) (tk_grant st) rq = Inr (c, se)"
          "CheckpointTx (de_env de) (usage_checkpoint (gt_run (tk_grant st)) (sc_model c) se co) s = Inr (cp, t)"
        with True tok chat_gate_Inr usage_checkpoint_free show ?thesis by blast
      qed
    next
      case False
      with assms route b tok show ?thesis by (auto simp: ServeSandbox_def sandbox_routes_def split: if_splits)
    qed
  qed
qed

definition sample_grant :: grant where
  "sample_grant = \<lparr>gt_run = ''r'', gt_owner = ''ann'', gt_class = ''C1'', gt_models = [''utility''],
     gt_rate = 2, gt_bytes = 0, gt_logprobs = False, gt_expires = 0\<rparr>"

definition sample_registry :: registry where
  "sample_registry = [(''t0'', \<lparr>tk_grant = sample_grant, tk_start = 0, tk_count = 0\<rparr>)]"

definition sample_rq :: "string \<Rightarrow> sandbox_request" where
  "sample_rq alias = \<lparr>rq_method = ''POST'', rq_path = ''/v1/chat/completions'', rq_auth = ''Bearer t0'',
     rq_body = marshal (JObj [(''model'', JStr alias)]), rq_readable = True\<rparr>"

lemmas sandbox_eval = ServeSandbox_def sandbox_routes_def bearer_def bearer_token_def ResolveToken_def
  rateOK_def tok_find_def tok_put_def expired_def handleChat_def chat_gate_def size_limit_def decode_chat_def
  chat_member_def strict_str_def allows_def logprobs_gate_def sandbox_spec_def spec_messages_def meter_sandbox_def
  sample_grant_def sample_registry_def sample_rq_def time_sub_def minute_def second_def

lemma sample_served:
  "fst (fst (ServeSandbox sample_duty 10 (sample_rq ''utility'') sample_registry sample_running)) = 200"
  by (simp add: sandbox_eval duty_eval sample_running_def tx_eval json_eval append_eval run_eval sample_eval
      int64_min_def cong: tx_bind_weak)

theorem sandbox_confined_witness:
  "\<exists>cp. t_checkpoints (snd (snd (ServeSandbox sample_duty 10 (sample_rq ''utility'') sample_registry sample_running)))
     = t_checkpoints sample_running @ [cp] \<and> ck_run cp = ''r''"
proof -
  obtain status body reg t where run: "ServeSandbox sample_duty 10 (sample_rq ''utility'') sample_registry
      sample_running = ((status, body), reg, t)"
    by (metis prod.exhaust)
  with sample_served have "status = 200" by simp
  moreover have "rq_path (sample_rq ''utility'') \<noteq> ''/v1/models''" by (simp add: sample_rq_def)
  moreover have "gt_run (tk_grant st) = ''r''" if "tok_find tok sample_registry = Some st" for tok st
    using that by (auto simp: tok_find_def sample_registry_def sample_grant_def split: if_splits)
  ultimately show ?thesis using sandbox_confined [OF run] run by fastforce
qed

text \<open>The rate counter: fresh calls inside one window succeed exactly up to the limit.\<close>

fun rate_calls :: "string \<Rightarrow> time list \<Rightarrow> registry \<Rightarrow> bool list" where
  "rate_calls tok [] reg = []"
| "rate_calls tok (now # ts) reg = (case rateOK tok now reg of (ok, reg') \<Rightarrow> ok # rate_calls tok ts reg')"

lemma tok_find_put: "tok_find tok (tok_put tok st reg) = Some st"
  by (simp add: tok_find_def tok_put_def)

lemma rate_calls_window:
  assumes "tok_find tok reg = Some st" "gt_rate (tk_grant st) > 0" "0 \<le> tk_count st"
    "tk_count st + int (length ts) \<le> int64_max" "\<forall>t\<in>set ts. time_sub t (tk_start st) < minute"
  shows "rate_calls tok ts reg = map (\<lambda>k. tk_count st + int k + 1 \<le> gt_rate (tk_grant st)) [0..<length ts]"
  using assms
proof (induction ts arbitrary: reg st)
  case (Cons now ts)
  let ?st = "st\<lparr>tk_count := tk_count st + 1\<rparr>"
  have "wrap64 (tk_count st + 1) = tk_count st + 1"
    using Cons.prems by (intro wrap64_id) (simp add: in64_def int64_min_def int64_max_def)
  then have r: "rateOK tok now reg = (tk_count st + 1 \<le> gt_rate (tk_grant st), tok_put tok ?st reg)"
    using Cons.prems by (simp add: rateOK_def Let_def)
  have "rate_calls tok ts (tok_put tok ?st reg) =
      map (\<lambda>k. tk_count ?st + int k + 1 \<le> gt_rate (tk_grant ?st)) [0..<length ts]"
    by (rule Cons.IH) (use Cons.prems in \<open>simp_all add: tok_find_put\<close>)
  moreover have "[0..<length (now # ts)] = 0 # map Suc [0..<length ts]"
    by (simp add: map_Suc_upt upt_conv_Cons del: upt_Suc)
  ultimately show ?case using r by (simp add: algebra_simps del: upt_Suc)
qed simp

text \<open>The calls of a sandbox at the broker's door, one after the other.\<close>

fun bearer_calls :: "(sandbox_request \<times> time) list \<Rightarrow> registry \<Rightarrow> (int + grant) list" where
  "bearer_calls [] reg = []"
| "bearer_calls ((rq, now) # cs) reg = (case bearer rq now reg of (reply, reg') \<Rightarrow> reply # bearer_calls cs reg')"

lemma bearer_calls_rate:
  assumes "tok_find tok reg = Some st" "\<forall>(rq, t)\<in>set cs. bearer_token (rq_auth rq) = Some tok \<and> \<not> expired t (tk_grant st)"
  shows "bearer_calls cs reg = map (\<lambda>ok. if ok then Inr (tk_grant st) else Inl 429) (rate_calls tok (map snd cs) reg)"
  using assms
proof (induction cs arbitrary: reg st)
  case (Cons c cs)
  obtain rq now where c: "c = (rq, now)" by (cases c)
  obtain ok reg' where r: "rateOK tok now reg = (ok, reg')" by fastforce
  then obtain st' where st': "tok_find tok reg' = Some st'" "tk_grant st' = tk_grant st"
    using Cons.prems(1) by (auto simp: rateOK_def Let_def tok_find_put split: if_splits)
  have "bearer rq now reg = (if ok then Inr (tk_grant st) else Inl 429, reg')"
    using Cons.prems r by (simp add: bearer_def ResolveToken_def c split: bool.split)
  moreover have "bearer_calls cs reg' = map (\<lambda>ok. if ok then Inr (tk_grant st) else Inl 429) (rate_calls tok (map snd cs) reg')"
    using Cons.IH [OF st'(1)] Cons.prems(2) st'(2) by simp
  ultimately show ?case using r by (simp add: c)
qed simp

lemma bearer_unknown:
  assumes "tok_find tok reg = None" "bearer_token (rq_auth rq) = Some tok"
  shows "bearer rq t reg = (Inl 401, reg) \<and> rateOK tok t reg = (False, reg)"
  using assms by (simp add: bearer_def ResolveToken_def rateOK_def)

text \<open>
  C32: the rate of a token is kept, for as long as the grant lives.  Of the requests that carry a freshly
  minted token with a rate (zero means no limit) within a minute of its minting and before its grant
  expires, exactly the first \<open>rate\<close> get past the broker's door with the grant, and all later ones are
  turned away with 429.  A request after the
  expiry is turned away with 401 and the token is dropped; a request with an unknown token gets 401, and
  its rate check fails, without a change of the registry; revoking a run makes its token unknown.  No grant
  of class C0 is ever minted, in any spelling of the class.
\<close>

theorem rate_kept:
  assumes "Mint (Some bytes) now g reg = (Inr tok, reg')" "gt_rate g > 0"
    and "int (length cs) \<le> int64_max"
    and "\<forall>(rq, t)\<in>set cs. bearer_token (rq_auth rq) = Some tok \<and> time_sub t now < minute \<and> \<not> expired t g"
  shows "bearer_calls cs reg' = map (\<lambda>k. if int k < gt_rate g then Inr g else Inl 429) [0..<length cs] \<and>
     (\<forall>rq t. bearer_token (rq_auth rq) = Some tok \<and> expired t g \<longrightarrow>
        (\<exists>reg''. bearer rq t reg' = (Inl 401, reg'') \<and> tok_find tok reg'' = None)) \<and>
     (\<forall>rq t tok' r. bearer_token (rq_auth rq) = Some tok' \<and> tok_find tok' r = None \<longrightarrow>
        bearer rq t r = (Inl 401, r) \<and> rateOK tok' t r = (False, r)) \<and>
     tok_find tok (RevokeRun (gt_run g) reg') = None \<and>
     (\<forall>drawn t g' r. equal_fold (gt_class g') ''C0'' \<longrightarrow> Mint drawn t g' r = (Inl (LocalError GrantForC0), r))"
proof -
  let ?st = "\<lparr>tk_grant = g, tk_start = now, tk_count = 0\<rparr>"
  from assms(1) have m: "reg' = tok_put tok ?st reg" by (auto simp: Mint_def split: if_splits)
  have find: "tok_find tok reg' = Some ?st" by (simp add: m tok_find_put)
  have "tok \<notin> fst ` set (RevokeRun (gt_run g) reg')" by (auto simp: m RevokeRun_def tok_put_def)
  then have "tok_find tok (RevokeRun (gt_run g) reg') = None" by (simp add: tok_find_def map_of_eq_None_iff)
  moreover
  have in_time: "\<forall>t\<in>set (map snd cs). time_sub t now < minute"
    using assms(4) by fastforce
  have "rate_calls tok (map snd cs) reg' = map (\<lambda>k. int k < gt_rate g) [0..<length cs]"
    using rate_calls_window [OF find, of "map snd cs"] assms(2,3) in_time by (simp add: add1_zle_eq)
  then have "bearer_calls cs reg' = map (\<lambda>k. if int k < gt_rate g then Inr g else Inl 429) [0..<length cs]"
    using bearer_calls_rate [OF find, of cs] assms(4) by (simp add: o_def case_prod_unfold)
  moreover have "\<exists>reg''. bearer rq t reg' = (Inl 401, reg'') \<and> tok_find tok reg'' = None"
    if "bearer_token (rq_auth rq) = Some tok" "expired t g" for rq t
  proof -
    have "tok_find tok (tok_drop tok reg') = None"
      by (auto simp: tok_find_def tok_drop_def map_of_eq_None_iff)
    with that find show ?thesis by (simp add: bearer_def ResolveToken_def)
  qed
  moreover have "Mint drawn t g' r = (Inl (LocalError GrantForC0), r)" if "equal_fold (gt_class g') ''C0''" for drawn t g' r
    using that by (simp add: Mint_def)
  ultimately show ?thesis using bearer_unknown by blast
qed

definition sample_door :: "time \<Rightarrow> sandbox_request \<times> time" where
  "sample_door t = (\<lparr>rq_method = ''GET'', rq_path = ''/v1/models'', rq_auth = ''Bearer '' @ hex_text [171], rq_body = raw_empty,
     rq_readable = True\<rparr>, t)"

theorem rate_kept_witness:
  "map isl (bearer_calls (map sample_door [1, 2, 3]) (snd (Mint (Some [171]) 0 sample_grant []))) = [False, False, True]"
proof -
  have m: "Mint (Some [171]) 0 sample_grant [] = (Inr (hex_text [171]), snd (Mint (Some [171]) 0 sample_grant []))"
    by (simp add: Mint_def sample_grant_def equal_fold_def to_lower_def lower_char_def)
  have "bearer_token (''Bearer '' @ hex_text [171]) = Some (hex_text [171])" by code_simp
  then have t: "\<forall>(rq, t)\<in>set (map sample_door [1, 2, 3]). bearer_token (rq_auth rq) = Some (hex_text [171]) \<and>
      time_sub t 0 < minute \<and> \<not> expired t sample_grant"
    by (simp add: sample_door_def time_sub_def minute_def second_def int64_min_def int64_max_def expired_def sample_grant_def
      is_zero_time_def)
  have "gt_rate sample_grant > 0" by (simp add: sample_grant_def)
  from rate_kept [OF m this _ t, THEN conjunct1] show ?thesis by (simp add: int64_max_def sample_grant_def upt_rec)
qed

end
