(* ===== verification/Watch_Signals.thy ===== *)
theory Watch_Signals
  imports Metering Run_Store
begin

text \<open>
  \<open>internal/watchdog/watchdog.go\<close> and \<open>tier0.go\<close>: the rules of the watchdog and its counters over a run's
  recent events.  A payload is read through \<open>json.Unmarshal\<close> into a map: an object whose numbers all fit
  a \<open>float64\<close>, the last value of a repeated key.  The hash is a parameter that gives hexadecimal text.
\<close>

section \<open>Names\<close>

definition EventFlagged :: string where "EventFlagged = ''watchdog.flagged''"
definition EventAnnotated :: string where "EventAnnotated = ''watchdog.annotated''"
definition EventSuppressed :: string where "EventSuppressed = ''watchdog.suppressed''"

definition RuleLoop :: string where "RuleLoop = ''watchdog.loop''"
definition RulePingPong :: string where "RulePingPong = ''watchdog.pingpong''"
definition RuleErrorLoop :: string where "RuleErrorLoop = ''watchdog.error_loop''"
definition RuleSilence :: string where "RuleSilence = ''watchdog.silence''"
definition RuleSpend :: string where "RuleSpend = ''watchdog.spend''"
definition RuleSuspiciousCompletion :: string where
  "RuleSuspiciousCompletion = ''watchdog.suspicious_completion''"
definition RuleResumeReconcile :: string where "RuleResumeReconcile = ''watchdog.resume_reconcile''"
definition RuleListener :: string where "RuleListener = ''watchdog.listener''"
definition RuleOrganAbsence :: string where "RuleOrganAbsence = ''watchdog.organ_absence''"
definition RuleEventLogSize :: string where "RuleEventLogSize = ''watchdog.event_log_size''"
definition RuleDeadMan :: string where "RuleDeadMan = ''watchdog.dead_man''"
definition RuleFlagNowRate :: string where "RuleFlagNowRate = ''watchdog.flag_now_rate''"
definition RuleRetuneProposal :: string where "RuleRetuneProposal = ''watchdog.retune_proposal''"

lemmas rule_defs = RuleLoop_def RulePingPong_def RuleErrorLoop_def RuleSilence_def RuleSpend_def
  RuleSuspiciousCompletion_def RuleResumeReconcile_def RuleListener_def RuleOrganAbsence_def
  RuleEventLogSize_def RuleDeadMan_def RuleFlagNowRate_def RuleRetuneProposal_def

definition SeverityFlagNow :: string where "SeverityFlagNow = ''flag-now''"
definition SeverityDailyDigest :: string where "SeverityDailyDigest = ''daily-digest''"

definition keyLoopRepeat :: string where "keyLoopRepeat = ''watchdog.loop_repeat''"
definition keyPingPongCycles :: string where "keyPingPongCycles = ''watchdog.pingpong_cycles''"
definition keyErrorLoop :: string where "keyErrorLoop = ''watchdog.error_loop''"
definition keySilenceBudget :: string where "keySilenceBudget = ''watchdog.silence_budget''"
definition keySpendMedianMult :: string where "keySpendMedianMult = ''watchdog.spend_median_mult''"
definition keySpendArmDays :: string where "keySpendArmDays = ''watchdog.spend_arm_days''"
definition keyFlagNowTarget :: string where "keyFlagNowTarget = ''watchdog.flag_now_target''"
definition keySuppressRetune :: string where "keySuppressRetune = ''watchdog.suppress_retune_count''"

definition recentWindow :: nat where "recentWindow = 128"
definition allGenerations :: int where "allGenerations = - 1"
definition eventLogSizeThresholdBytes :: int where "eventLogSizeThresholdBytes = 512 * 2 ^ 20"

definition severityFor :: "string \<Rightarrow> string" where
  "severityFor rule =
     (if rule \<in> {RuleLoop, RulePingPong, RuleErrorLoop, RuleSilence, RuleSpend, RuleListener, RuleDeadMan}
      then SeverityFlagNow else SeverityDailyDigest)"

section \<open>Reading payloads\<close>

definition ten_pow :: "int \<Rightarrow> rat" where
  "ten_pow e = (if 0 \<le> e then 10 ^ nat e else 1 / 10 ^ nat (- e))"

definition digits_value :: "string \<Rightarrow> rat" where
  "digits_value ds = foldl (\<lambda>acc c. 10 * acc + (of_nat (of_char c) - 48)) 0 ds"

definition exponent_of :: "string \<Rightarrow> int" where
  "exponent_of s = (case s of
       [] \<Rightarrow> 0
     | c # cs \<Rightarrow> \<comment> \<open>\<open>c\<close> is \<open>e\<close> or \<open>E\<close>\<close>
         (case cs of
            [] \<Rightarrow> 0
          | d # ds \<Rightarrow> if d = CHR ''-'' then - floor (digits_value ds)
                     else if d = CHR ''+'' then floor (digits_value ds) else floor (digits_value cs)))"

text \<open>The value of a JSON number literal.\<close>

definition literal_value :: "string \<Rightarrow> rat" where
  "literal_value lit =
     (let neg = starts_with ''-'' lit;
          s = (if neg then tl lit else lit);
          whole = takeWhile is_digit s;
          s1 = dropWhile is_digit s;
          frac = (if starts_with ''.'' s1 then takeWhile is_digit (tl s1) else []);
          s2 = (if starts_with ''.'' s1 then dropWhile is_digit (tl s1) else s1);
          v = digits_value (whole @ frac) * ten_pow (exponent_of s2 - int (length frac))
      in if neg then - v else v)"

text \<open>A \<open>float64\<close> holds magnitudes that round below \<open>2 ^ 1024\<close>; those up to \<open>2 ^ -1075\<close> round to zero.\<close>

definition float_fits :: "rat \<Rightarrow> bool" where
  "float_fits v \<longleftrightarrow> \<bar>v\<bar> < 2 ^ 1024 - 2 ^ 970"

definition float_is_zero :: "rat \<Rightarrow> bool" where
  "float_is_zero v \<longleftrightarrow> \<bar>v\<bar> * 2 ^ 1075 \<le> 1"

fun numbers_fit :: "json \<Rightarrow> bool" where
  "numbers_fit (JNum lit) = float_fits (literal_value lit)"
| "numbers_fit (JArr xs) = list_all numbers_fit xs"
| "numbers_fit (JObj fs) = list_all (\<lambda>f. numbers_fit (snd f)) fs"
| "numbers_fit _ = True"

definition decodeObject :: "raw \<Rightarrow> string \<rightharpoonup> json" where
  "decodeObject payload = (case raw_json payload of
       Some (JObj fs) \<Rightarrow> if numbers_fit (JObj fs) then map_of (rev fs) else Map.empty
     | _ \<Rightarrow> Map.empty)"

fun first_string :: "(string \<rightharpoonup> json) \<Rightarrow> string list \<Rightarrow> string" where
  "first_string m [] = []"
| "first_string m (k # ks) = (case m k of
       Some (JStr s) \<Rightarrow> if s \<noteq> [] then s else first_string m ks
     | _ \<Rightarrow> first_string m ks)"

definition firstString :: "raw \<Rightarrow> string list \<Rightarrow> string" where
  "firstString payload ks = first_string (decodeObject payload) ks"

fun first_bool :: "(string \<rightharpoonup> json) \<Rightarrow> string list \<Rightarrow> bool" where
  "first_bool m [] = False"
| "first_bool m (k # ks) = (case m k of Some (JBool b) \<Rightarrow> b | _ \<Rightarrow> first_bool m ks)"

definition firstBool :: "raw \<Rightarrow> string list \<Rightarrow> bool" where
  "firstBool payload ks = first_bool (decodeObject payload) ks"

fun first_number :: "(string \<rightharpoonup> json) \<Rightarrow> string list \<Rightarrow> rat option" where
  "first_number m [] = None"
| "first_number m (k # ks) = (case m k of
       Some (JNum lit) \<Rightarrow> Some (literal_value lit) | _ \<Rightarrow> first_number m ks)"

definition firstNumber :: "raw \<Rightarrow> string list \<Rightarrow> rat option" where
  "firstNumber payload ks = first_number (decodeObject payload) ks"

section \<open>Recent events\<close>

record recent_event =
  re_seq :: int
  re_type :: string
  re_payload :: raw
  re_time :: time

definition recent_of :: "event_row \<Rightarrow> recent_event" where
  "recent_of e = \<lparr>re_seq = ev_seq e, re_type = ev_type e, re_payload = ev_payload e, re_time = ev_time e\<rparr>"

text \<open>The rows of a run, newest first; a NULL run id (the empty text) matches no query.\<close>

definition newest_first :: "string \<Rightarrow> db \<Rightarrow> event_row list" where
  "newest_first rid s = sort_key (\<lambda>e. - ev_seq e) (filter (\<lambda>e. rid \<noteq> [] \<and> ev_run e = rid) (t_events s))"

definition readRecentEvents :: "string \<Rightarrow> int \<Rightarrow> nat \<Rightarrow> db \<Rightarrow> recent_event list" where
  "readRecentEvents rid generation limit s =
     rev (map recent_of (take limit
       (filter (\<lambda>e. generation \<ge> 0 \<longrightarrow> ev_gen e = generation) (newest_first rid s))))"

definition is_tool_event :: "string \<Rightarrow> bool" where
  "is_tool_event ty \<longleftrightarrow> ty = ''tool.completed'' \<or> ty = ''engine.tool_result''"

definition toolCompleted :: "recent_event list \<Rightarrow> recent_event list" where
  "toolCompleted events = filter (\<lambda>e. is_tool_event (re_type e)) events"

definition tool_keys :: "string list" where "tool_keys = [''tool'', ''name'', ''tool_name'']"

definition toolSignature :: "(string \<Rightarrow> string) \<Rightarrow> raw \<Rightarrow> string" where
  "toolSignature sha pay =
     (let name = firstString pay tool_keys in
      if name = [] then []
      else
        let given = firstString pay [''args_digest'', ''digest''];
            args = firstString pay [''args'', ''tool_input'', ''input''];
            digest = (if given = [] \<and> args \<noteq> [] then ''sha256:'' @ take 16 (sha args) else given)
        in take 16 (sha (name @ [char_of (0::nat)] @ digest)))"

definition isToolError :: "raw \<Rightarrow> bool" where
  "isToolError pay \<longleftrightarrow>
     firstBool pay [''is_error'', ''error'', ''failed''] \<or>
     firstString pay [''status'', ''outcome'', ''result''] \<in> {''error'', ''failed'', ''failure''} \<or>
     (case firstNumber pay [''exit_code'', ''exit_status'', ''returncode''] of
        None \<Rightarrow> False | Some code \<Rightarrow> \<not> float_is_zero code)"

section \<open>The counters\<close>

record spend_evidence =
  se_today :: rat
  se_median :: rat
  se_multiplier :: rat
  se_days :: int
  se_armed :: bool
  se_dormant :: bool

record trigger =
  tr_rule :: string
  tr_signature :: string
  tr_counts :: "(string \<times> int) list"
  tr_detail :: string
  tr_spend :: "spend_evidence option"
  tr_nopark :: bool

definition plain_trigger :: "string \<Rightarrow> string \<Rightarrow> (string \<times> int) list \<Rightarrow> string \<Rightarrow> trigger" where
  "plain_trigger rule sig counts detail = \<lparr>tr_rule = rule, tr_signature = sig, tr_counts = counts,
     tr_detail = detail, tr_spend = None, tr_nopark = False\<rparr>"

definition last_n :: "nat \<Rightarrow> 'a list \<Rightarrow> 'a list" where
  "last_n n xs = drop (length xs - n) xs"

definition loopTrip :: "(string \<Rightarrow> string) \<Rightarrow> recent_event list \<Rightarrow> int \<Rightarrow> trigger option" where
  "loopTrip sha tools n =
     (if n < 1 \<or> int (length tools) < n then None
      else
        let last = last_n (nat n) tools; sig = toolSignature sha (re_payload (hd last)) in
        if sig = [] then None
        else if list_ex (\<lambda>e. toolSignature sha (re_payload e) \<noteq> sig) (tl last) then None
        else Some (plain_trigger RuleLoop sig [(''repeats'', n)]
               ''identical tool-call signature repeated consecutively''))"

text \<open>The index loop of \<open>pingPongTrip\<close>: position \<open>i\<close> holds \<open>a\<close> when even and \<open>b\<close> when odd.\<close>

fun alternates :: "nat \<Rightarrow> string \<Rightarrow> string \<Rightarrow> string list \<Rightarrow> bool" where
  "alternates i a b [] = True"
| "alternates i a b (s # ss) = (s = (if i mod 2 = 1 then b else a) \<and> alternates (i + 1) a b ss)"

text \<open>
  \<open>cycles * 2\<close> does not wrap: the settings registry bounds the key by 12, and no window is longer
  than \<open>recentWindow\<close>.
\<close>

definition pingPongTrip :: "(string \<Rightarrow> string) \<Rightarrow> recent_event list \<Rightarrow> int \<Rightarrow> trigger option" where
  "pingPongTrip sha tools cycles =
     (if cycles < 1 \<or> int (length tools) < cycles * 2 then None
      else
        let sigs = map (\<lambda>e. toolSignature sha (re_payload e)) (last_n (nat (cycles * 2)) tools) in
        if list_ex (\<lambda>s. s = []) sigs then None
        else
          let a = sigs ! 0; b = sigs ! 1 in
          if a = b then None
          else if \<not> alternates 0 a b sigs then None
          else Some (plain_trigger RulePingPong (a @ ''/'' @ b) [(''cycles'', cycles)]
                 ''two tool-call signatures alternating (ping-pong)''))"

definition errorLoopTrip :: "recent_event list \<Rightarrow> int \<Rightarrow> trigger option" where
  "errorLoopTrip tools n =
     (if n < 1 \<or> int (length tools) < n then None
      else
        let last = last_n (nat n) tools; name = firstString (re_payload (hd last)) tool_keys in
        if name = [] then None
        else if list_ex (\<lambda>e. \<not> isToolError (re_payload e) \<or> firstString (re_payload e) tool_keys \<noteq> name) last
        then None
        else Some (plain_trigger RuleErrorLoop name [(''errors'', n)] ''the same action erroring repeatedly''))"

definition behavioralWatchStates :: "run_state list" where
  "behavioralWatchStates = [StateRunning, StateDraining]"

definition isCleanCompletion :: "run_state \<Rightarrow> bool" where
  "isCleanCompletion st \<longleftrightarrow> state_name st = ''completed''"

definition classExpectsActivity :: "run_row \<Rightarrow> bool" where
  "classExpectsActivity r \<longleftrightarrow> run_user r \<noteq> ActorPlatform \<and>
     (let base = StripForkSuffix (run_id r) in ends_with ''.execute'' base \<or> ends_with ''.verify'' base)"

definition suspicious_trigger :: trigger where
  "suspicious_trigger = plain_trigger RuleSuspiciousCompletion []
     [(''tool_completed'', 0), (''verdicts'', 0)]
     ''run completed with zero tool calls and zero verdicts where its class expects them (silent-failure class)''"

definition suspicious_completion :: "run_row \<Rightarrow> recent_event list \<Rightarrow> trigger option" where
  "suspicious_completion r events =
     (if \<not> classExpectsActivity r then None
      else
        let tools = length (filter (\<lambda>e. is_tool_event (re_type e)) events);
            verdicts = length (filter (\<lambda>e. re_type e = ''verdict.recorded'' \<or> re_type e = ''verify.round'') events)
        in if tools = 0 \<and> verdicts = 0 then Some suspicious_trigger else None)"

text \<open>The behavioural counters in their order, each with its setting read before it.\<close>

definition behavioral_trip ::
  "(string \<Rightarrow> string) \<Rightarrow> settings \<Rightarrow> recent_event list \<Rightarrow> error + trigger option" where
  "behavioral_trip sha cfg tools =
     (case read_int cfg keyLoopRepeat of
        Inl e \<Rightarrow> Inl e
      | Inr loopN \<Rightarrow> (case loopTrip sha tools loopN of
          Some trig \<Rightarrow> Inr (Some trig)
        | None \<Rightarrow> (case read_int cfg keyPingPongCycles of
            Inl e \<Rightarrow> Inl e
          | Inr ppN \<Rightarrow> (case pingPongTrip sha tools ppN of
              Some trig \<Rightarrow> Inr (Some trig)
            | None \<Rightarrow> (case read_int cfg keyErrorLoop of
                Inl e \<Rightarrow> Inl e
              | Inr elN \<Rightarrow> Inr (errorLoopTrip tools elN))))))"

section \<open>Lemmas\<close>

lemma severity_run_rules [simp]:
  "severityFor RuleLoop = SeverityFlagNow" "severityFor RuleSilence = SeverityFlagNow"
  "severityFor RuleFlagNowRate = SeverityDailyDigest"
  by (simp_all add: severityFor_def rule_defs)

lemma isCleanCompletion_iff [simp]: "isCleanCompletion st \<longleftrightarrow> st = StateCompleted"
  by (cases st) (simp_all add: isCleanCompletion_def)

lemma behavioral_states [simp]: "set behavioralWatchStates = {StateRunning, StateDraining}"
  by (simp add: behavioralWatchStates_def)

lemma decodeObject_marshal:
  "numbers_fit (JObj fs) \<Longrightarrow> decodeObject (marshal (JObj fs)) = map_of (rev fs)"
  by (simp add: decodeObject_def)

lemma trip_rules:
  "loopTrip sha tools n = Some trig \<Longrightarrow> tr_rule trig = RuleLoop \<and> \<not> tr_nopark trig"
  "pingPongTrip sha tools n = Some trig \<Longrightarrow> tr_rule trig = RulePingPong \<and> \<not> tr_nopark trig"
  "errorLoopTrip tools n = Some trig \<Longrightarrow> tr_rule trig = RuleErrorLoop \<and> \<not> tr_nopark trig"
  by (auto simp: loopTrip_def pingPongTrip_def errorLoopTrip_def plain_trigger_def Let_def split: if_splits)

lemma trips_need_tools:
  "loopTrip sha [] n = None" "pingPongTrip sha [] n = None" "errorLoopTrip [] n = None"
  by (auto simp: loopTrip_def pingPongTrip_def errorLoopTrip_def)

lemma set_newest_first: "set (newest_first rid s) = {e \<in> set (t_events s). rid \<noteq> [] \<and> ev_run e = rid}"
  by (auto simp: newest_first_def)

lemma newest_first_cong: "t_events s = t_events t \<Longrightarrow> newest_first rid s = newest_first rid t"
  by (simp add: newest_first_def)

lemma newest_first_desc: "sorted_wrt (\<lambda>x y. ev_seq x \<ge> ev_seq y) (newest_first rid s)"
proof -
  have "sorted (map (\<lambda>e. - ev_seq e) (newest_first rid s))" by (simp add: newest_first_def)
  then show ?thesis by (simp add: sorted_map)
qed

text \<open>A newer event of the run goes to the front.\<close>

lemma sort_key_snoc_min:
  assumes "\<forall>x\<in>set xs. f e < f x"
  shows "sort_key f (xs @ [e]) = e # sort_key f xs"
proof -
  have "foldr (insort_key f) xs (e # ys) = e # foldr (insort_key f) xs ys" for ys
    using assms by (induction xs) auto
  then show ?thesis by (simp add: sort_key_def)
qed

lemma newest_first_append:
  assumes "t_events t = t_events s @ [e]" "\<forall>x\<in>set (t_events s). ev_seq x < ev_seq e"
  shows "newest_first rid t = (if rid \<noteq> [] \<and> ev_run e = rid then [e] else []) @ newest_first rid s"
  using assms by (simp add: newest_first_def sort_key_snoc_min)

end
