(* ===== verification/Watch_Annotate.thy ===== *)
theory Watch_Annotate
  imports Watch_Signals Local_Duty
begin

text \<open>
  \<open>internal/watchdog/tier1.go\<close>: the local-model annotation of a tripped rule, and the advisory meter the
  shell wires for it (\<open>advisoryMeter\<close> of \<open>internal/shell/local_seams.go\<close>).  Texts outside ASCII are
  written by their bytes.  An annotation carries a verdict of the model, or \<open>unclear\<close> when the model
  failed or answered anything else.
\<close>

definition utf8 :: "nat list \<Rightarrow> string" where "utf8 bs = map char_of bs"

definition em_dash :: string where "em_dash = utf8 [226, 128, 148]"
definition ellipsis :: string where "ellipsis = utf8 [226, 128, 166]"
definition arrow :: string where "arrow = utf8 [226, 134, 146]"
definition newline :: string where "newline = utf8 [10]"

definition VerdictLoop :: string where "VerdictLoop = ''loop''"
definition VerdictProductive :: string where "VerdictProductive = ''productive''"
definition VerdictUnclear :: string where "VerdictUnclear = ''unclear''"
definition disambigMaxTokens :: int where "disambigMaxTokens = 320"

section \<open>The surroundings of a watchdog\<close>

text \<open>
  What one evaluation meets: the hash, the store's environment, the duty caller (\<open>None\<close>: not
  configured), whether an advisory meter is wired, the wording of errors, and the JSON text of the
  \<open>float64\<close> nearest to a number.
\<close>

record watch_env =
  wd_sha :: "string \<Rightarrow> string"
  wd_env :: env
  wd_duty :: "duty_env option"
  wd_meter :: bool
  wd_text :: "error \<Rightarrow> string"
  wd_float :: "rat \<Rightarrow> string"

definition watch_append :: "watch_env \<Rightarrow> append \<Rightarrow> int dbtx" where
  "watch_append wd a = AppendTx (env_settings (wd_env wd)) (env_now (wd_env wd)) a"

section \<open>The prompt\<close>

definition schema_field :: "string \<Rightarrow> (string \<times> json) list \<Rightarrow> string \<Rightarrow> (string \<times> json)" where
  "schema_field name shape description = (name, JObj (shape @ [(''description'', JStr description)]))"

definition WatchdogSchema :: raw where
  "WatchdogSchema = marshal (JObj
     [(''type'', JStr ''object''),
      (''properties'', JObj
        [schema_field ''reason'' [(''type'', JStr ''string'')]
           (''brief free-text reasoning '' @ em_dash @ '' fill this FIRST, before the verdict''),
         schema_field ''verdict'' [(''type'', JStr ''string''),
            (''enum'', JArr [JStr ''loop'', JStr ''productive'', JStr ''unclear''])]
           (''loop = stuck repeating; productive = making genuine progress; unclear = cannot tell (abstain '' @
            em_dash @ '' never guess, S12.4)''),
         schema_field ''confidence'' [(''type'', JStr ''number'')] ''0.0-1.0 confidence in the verdict'',
         schema_field ''evidence'' [(''type'', JStr ''string'')] ''one-line evidence for the verdict'']),
      (''required'', JArr [JStr ''reason'', JStr ''verdict'', JStr ''confidence'', JStr ''evidence'']),
      (''additionalProperties'', JBool False)])"

definition annotatable :: "string \<Rightarrow> bool" where
  "annotatable rule \<longleftrightarrow> rule \<in> {RuleLoop, RulePingPong, RuleErrorLoop, RuleSuspiciousCompletion}"

definition truncate :: "string \<Rightarrow> nat \<Rightarrow> string" where
  "truncate s n = (if length s \<le> n then s else take n s @ ellipsis)"

definition request_types :: "string list" where
  "request_types = [''engine.message'', ''intake.state'', EventCreated]"

fun originalRequest :: "recent_event list \<Rightarrow> string" where
  "originalRequest [] = ''(original request not recorded in the run'' @ utf8 [39] @ ''s recent events)''"
| "originalRequest (e # es) =
     (let s = firstString (re_payload e) [''request'', ''objective'', ''text'', ''content'', ''summary'', ''line''] in
      if re_type e \<in> set request_types \<and> s \<noteq> [] then truncate s 400 else originalRequest es)"

definition turn_line :: "recent_event \<Rightarrow> string" where
  "turn_line e =
     (if is_tool_event (re_type e)
      then let tool = firstString (re_payload e) tool_keys in
        ''- tool '' @ (if tool = [] then ''?'' else tool) @
        (if isToolError (re_payload e) then '' [ERROR]'' else [])
      else ''- '' @ re_type e @ '' '' @ truncate (firstString (re_payload e)
        (tool_keys @ [''excerpt'', ''summary'', ''line'', ''reason'', ''text''])) 120)"

definition lastTurns :: "recent_event list \<Rightarrow> nat \<Rightarrow> string list" where
  "lastTurns events n = map turn_line (last_n n events)"

definition disambiguatorPrompt :: "run_row \<Rightarrow> trigger \<Rightarrow> recent_event list \<Rightarrow> raw \<Rightarrow> string" where
  "disambiguatorPrompt r trig events schema =
     ''ORIGINAL REQUEST (task '' @ run_task r @ ''): '' @ originalRequest events @ newline @ newline @
     ''TIER-0 TRIGGER: '' @ tr_rule trig @ '' '' @ em_dash @ '' '' @ tr_detail trig @ newline @ newline @
     ''RECENT TURNS (oldest '' @ arrow @ '' newest):'' @ newline @
     concat (map (\<lambda>line. line @ newline) (lastTurns events 14)) @
     newline @ ''Is this run stuck in a loop or making genuine progress? Respond with JSON matching this schema:'' @
     newline @ raw_text schema @ newline"

definition judge_system :: string where
  "judge_system =
     ''You judge whether an agent run is STUCK IN A LOOP or making GENUINE PROGRESS from its recent turns. '' @
     ''Reason briefly FIRST, then answer verdict '' @ utf8 [226, 136, 136] @ '' {loop, productive, unclear}. '' @
     ''Answer `unclear` when you cannot tell '' @ em_dash @ '' NEVER guess a label. '' @
     ''This is advisory: you annotate, you never stop or kill anything.''"

definition annotation_request :: "run_row \<Rightarrow> trigger \<Rightarrow> recent_event list \<Rightarrow> duty_request" where
  "annotation_request r trig events = \<lparr>dr_alias = AliasWatchdog, dr_system = judge_system,
     dr_user = disambiguatorPrompt r trig events WatchdogSchema, dr_schema = WatchdogSchema,
     dr_name = ''watchdog-disambiguator'', dr_max = disambigMaxTokens, dr_classification = True,
     dr_nothink = False\<rparr>"

section \<open>The verdict\<close>

record annotation =
  an_rule :: string
  an_verdict :: string
  an_confidence :: rat
  an_evidence :: string
  an_reason :: string
  an_model :: string
  an_abstained :: bool

definition validVerdict :: "string \<Rightarrow> bool" where
  "validVerdict v \<longleftrightarrow> v = VerdictLoop \<or> v = VerdictProductive \<or> v = VerdictUnclear"

text \<open>The decoder of the reply (member names fold case, \<open>null\<close> leaves a member as it is).\<close>

definition verdict_member :: "annotation \<Rightarrow> string \<times> json \<Rightarrow> annotation option" where
  "verdict_member d f = (let key = to_lower (fst f); v = snd f in
     if key = ''reason'' then map_option (\<lambda>x. d\<lparr>an_reason := x\<rparr>) (strict_str v (an_reason d))
     else if key = ''verdict'' then map_option (\<lambda>x. d\<lparr>an_verdict := x\<rparr>) (strict_str v (an_verdict d))
     else if key = ''evidence'' then map_option (\<lambda>x. d\<lparr>an_evidence := x\<rparr>) (strict_str v (an_evidence d))
     else if key = ''confidence'' then
       (case v of
          JNull \<Rightarrow> Some d
        | JNum lit \<Rightarrow> if float_fits (literal_value lit) then Some (d\<lparr>an_confidence := literal_value lit\<rparr>) else None
        | _ \<Rightarrow> None)
     else Some d)"

fun verdict_members :: "annotation \<Rightarrow> (string \<times> json) list \<Rightarrow> annotation option" where
  "verdict_members d [] = Some d"
| "verdict_members d (f # fs) = (case verdict_member d f of None \<Rightarrow> None | Some d' \<Rightarrow> verdict_members d' fs)"

definition empty_annotation :: "string \<Rightarrow> annotation" where
  "empty_annotation rule = \<lparr>an_rule = rule, an_verdict = [], an_confidence = 0, an_evidence = [],
     an_reason = [], an_model = [], an_abstained = False\<rparr>"

definition decode_verdict :: "string \<Rightarrow> raw \<Rightarrow> annotation option" where
  "decode_verdict rule content = (case raw_json content of
       Some (JObj fs) \<Rightarrow> verdict_members (empty_annotation rule) fs
     | Some JNull \<Rightarrow> Some (empty_annotation rule)
     | _ \<Rightarrow> None)"

definition annotation_of :: "watch_env \<Rightarrow> string \<Rightarrow> error + duty_result \<Rightarrow> annotation" where
  "annotation_of wd rule res = (case res of
       Inl e \<Rightarrow> (empty_annotation rule)\<lparr>an_verdict := VerdictUnclear,
         an_evidence := ''disambiguator unavailable or abstained'', an_reason := wd_text wd e, an_abstained := True\<rparr>
     | Inr d \<Rightarrow>
         (let unparsed = (empty_annotation rule)\<lparr>an_verdict := VerdictUnclear,
                an_evidence := ''unparseable disambiguator output'', an_abstained := True\<rparr>
          in (case decode_verdict rule (du_content d) of
                None \<Rightarrow> unparsed
              | Some out \<Rightarrow>
                  if \<not> validVerdict (an_verdict out) then unparsed
                  else out\<lparr>an_abstained := (an_verdict out = VerdictUnclear)\<rparr>)\<lparr>an_model := du_model d\<rparr>))"

definition annotation_payload :: "watch_env \<Rightarrow> annotation \<Rightarrow> raw" where
  "annotation_payload wd a = marshal (JObj
     ([(''rule'', JStr (an_rule a)), (''verdict'', JStr (an_verdict a)),
       (''confidence'', JNum (wd_float wd (an_confidence a))), (''evidence'', JStr (an_evidence a))] @
      opt_str ''reason'' (an_reason a) @ opt_str ''model'' (an_model a) @
      opt_bool ''abstained'' (an_abstained a) @ [(''actor'', JStr ActorPlatform)]))"

section \<open>The advisory meter\<close>

text \<open>\<open>time.Now().UnixNano()\<close>; instants count from the year 1.\<close>

definition unix_nano :: "time \<Rightarrow> int" where
  "unix_nano t = wrap64 (t - 62135596800 * second)"

definition platform_options :: "string \<Rightarrow> transition_options" where
  "platform_options reason = \<lparr>to_reason = reason, to_actor = ActorPlatform, to_detail = raw_empty\<rparr>"

definition platform_run :: "string \<Rightarrow> new_run" where
  "platform_run rid = \<lparr>nr_id = rid, nr_user = ActorPlatform, nr_task = [], nr_substrate = ''local'',
     nr_lane = LaneLocal, nr_workspace = [], nr_ceiling_time = 0, nr_ceiling_steps = 0, nr_ceiling_cost = 0,
     nr_state = [], nr_generation = 0, nr_parent = [], nr_dispatch = [], nr_attempts = 0\<rparr>"

text \<open>Transitions one after the other, each in its own transaction, until one fails.\<close>

fun drive :: "env \<Rightarrow> string \<Rightarrow> run_state list \<Rightarrow> db \<Rightarrow> (error + unit) \<times> db" where
  "drive env rid [] s = (Inr (), s)"
| "drive env rid (to # tos) s = (case Transition env rid to (platform_options []) s of
       (Inl e, t) \<Rightarrow> (Inl e, t) | (Inr _, t) \<Rightarrow> drive env rid tos t)"

text \<open>A platform run created and driven to running, as the meter and the dead-man probe do it.\<close>

definition start_platform_run :: "env \<Rightarrow> string \<Rightarrow> db \<Rightarrow> (error + unit) \<times> db" where
  "start_platform_run env rid s = (case Create env (platform_run rid) s of
       (Inl e, t) \<Rightarrow> (Inl e, t)
     | (Inr _, t) \<Rightarrow> drive env rid [StateQueued, StateClaimed, StateRunning] t)"

definition advisory_id :: "env \<Rightarrow> string \<Rightarrow> string" where
  "advisory_id env purpose = ''platform.advisory.'' @ purpose @ ''.'' @ dec_int (unix_nano (env_now env))"

definition advisoryMeter :: "env \<Rightarrow> string \<Rightarrow> db \<Rightarrow> (error + string) \<times> db" where
  "advisoryMeter env purpose s =
     (let rid = advisory_id env purpose in
      case start_platform_run env rid s of
        (Inl e, t) \<Rightarrow> (Inl e, t) | (Inr _, t) \<Rightarrow> (Inr rid, t))"

definition settle_advisory :: "env \<Rightarrow> string \<Rightarrow> db \<Rightarrow> db" where
  "settle_advisory env rid s = snd (Transition env rid StateCompleted (platform_options []) s)"

section \<open>Annotating\<close>

definition appendAnnotation :: "watch_env \<Rightarrow> string \<Rightarrow> annotation \<Rightarrow> db \<Rightarrow> (error + int) \<times> db" where
  "appendAnnotation wd rid ann s = (case Get rid s of
       Inl e \<Rightarrow> (Inl e, s)
     | Inr cur \<Rightarrow> write_tx (watch_append wd
         (run_append rid (run_generation cur) (run_user cur) EventAnnotated (annotation_payload wd ann))) s)"

text \<open>The call on the metering run, then the appended verdict; its sequence number when appended.\<close>

definition annotate_on ::
  "watch_env \<Rightarrow> string \<Rightarrow> run_row \<Rightarrow> trigger \<Rightarrow> recent_event list \<Rightarrow> admitter \<Rightarrow> db \<Rightarrow> int option \<times> admitter \<times> db" where
  "annotate_on wd meterRun r trig events a s =
     (case DutyCall (wd_duty wd) meterRun (annotation_request r trig events) a s of
        (res, a', t) \<Rightarrow> (case appendAnnotation wd (run_id r) (annotation_of wd (tr_rule trig) res) t of
          (Inl _, u) \<Rightarrow> (None, a', u)
        | (Inr seq, u) \<Rightarrow> (Some seq, a', u)))"

definition annotate ::
  "watch_env \<Rightarrow> run_row \<Rightarrow> trigger \<Rightarrow> recent_event list \<Rightarrow> admitter \<Rightarrow> db \<Rightarrow> int option \<times> admitter \<times> db" where
  "annotate wd r trig events a s =
     (if wd_duty wd = None \<or> \<not> annotatable (tr_rule trig) then (None, a, s)
      else if run_state r = StateRunning \<or> run_state r = StateDraining
        then annotate_on wd (run_id r) r trig events a s
      else if \<not> wd_meter wd then (None, a, s)
      else (case advisoryMeter (wd_env wd) ''watchdog-disambiguator'' s of
          (Inl _, t) \<Rightarrow> (None, a, t)
        | (Inr rid, t) \<Rightarrow> (case annotate_on wd rid r trig events a t of
            (ref, a', u) \<Rightarrow> (ref, a', settle_advisory (wd_env wd) rid u))))"

section \<open>What an annotation may change\<close>

text \<open>
  The effects of the watchdog's own writes on the runs: the log and the runs grow, and a run that was
  there keeps its row, except for the runs of one named set.
\<close>

definition runs_kept :: "(string \<Rightarrow> bool) \<Rightarrow> db \<Rightarrow> db \<Rightarrow> bool" where
  "runs_kept own s t \<longleftrightarrow> (\<forall>rid. \<not> own rid \<longrightarrow> find_run rid t = find_run rid s)"

interpretation kept: tx_frame "runs_kept own" for own
  by unfold_locales (auto simp: runs_kept_def)

lemma runs_kept_mono: "runs_kept p s t \<Longrightarrow> (\<And>x. p x \<Longrightarrow> q x) \<Longrightarrow> runs_kept q s t"
  by (auto simp: runs_kept_def)

lemma runs_kept_same: "t_runs t = t_runs s \<Longrightarrow> runs_kept own s t"
  by (simp add: runs_kept_def find_run_def)

lemma AppendTx_kept: "tx_rel (runs_kept own) (AppendTx cfg now a)"
  by (rule tx_relI) (auto simp: AppendTx_Inr intro: runs_kept_same)

lemma annotation_verdict: "validVerdict (an_verdict (annotation_of wd rule res))"
  by (auto simp: annotation_of_def validVerdict_def Let_def split: sum.splits option.splits)

end
