(* ===== verification/Watch_Flags.thy ===== *)
theory Watch_Flags
  imports Watch_Annotate
begin

text \<open>
  \<open>internal/watchdog/tier2.go\<close>, \<open>suppress.go\<close> and the evaluation of \<open>tier0.go\<close>: the flags of the watchdog, the
  open flags derived from the log, the park that goes with a flag, suppression, and one evaluation of a
  run.  A flag parks along the edge of the run machine or stands alone; nothing else changes a run.
\<close>

section \<open>Flags\<close>

text \<open>A Go map is encoded with its keys in order.\<close>

definition counts_json :: "(string \<times> int) list \<Rightarrow> (string \<times> json) list" where
  "counts_json counts = (if counts = [] then []
     else [(''counts'', JObj (foldl (\<lambda>acc f. field_put (fst f) (json_int (snd f)) acc) [] counts))])"

definition spend_json :: "(rat \<Rightarrow> string) \<Rightarrow> spend_evidence option \<Rightarrow> (string \<times> json) list" where
  "spend_json num ev = (case ev of None \<Rightarrow> [] | Some e \<Rightarrow>
     [(''spend_vs_baseline'', JObj
        [(''today_usd'', JNum (num (se_today e))), (''median_usd'', JNum (num (se_median e))),
         (''multiplier'', JNum (num (se_multiplier e))), (''days_of_history'', json_int (se_days e)),
         (''armed'', JBool (se_armed e)), (''dormant'', JBool (se_dormant e))])])"

definition flag_payload :: "watch_env \<Rightarrow> trigger \<Rightarrow> string \<Rightarrow> int option \<Rightarrow> bool \<Rightarrow> raw" where
  "flag_payload wd trig class ref parked = marshal (JObj
     ([(''rule'', JStr (tr_rule trig)), (''anomaly_class'', JStr class),
       (''severity'', JStr (severityFor (tr_rule trig)))] @
      opt_str ''signature'' (tr_signature trig) @ counts_json (tr_counts trig) @
      spend_json (wd_float wd) (tr_spend trig) @
      (case ref of None \<Rightarrow> [] | Some seq \<Rightarrow> [(''annotation_ref'', json_int seq)]) @
      opt_str ''detail'' (tr_detail trig) @
      [(''parked'', JBool parked), (''actor'', JStr ActorPlatform)]))"

definition flag_class :: "raw \<Rightarrow> string" where
  "flag_class payload = firstString payload [''anomaly_class'', ''rule'']"

definition latestFlagSeq :: "string \<Rightarrow> string \<Rightarrow> db \<Rightarrow> int option" where
  "latestFlagSeq rid class s =
     map_option ev_seq (find (\<lambda>e. ev_type e = EventFlagged \<and> flag_class (ev_payload e) = class) (newest_first rid s))"

text \<open>One later event that clears a run's flag: a suppression of the rule, or a move to running.\<close>

definition supersedes :: "string \<Rightarrow> event_row \<Rightarrow> bool" where
  "supersedes class e =
     (if ev_type e = EventSuppressed then firstString (ev_payload e) [''rule''] = class
      else if ev_type e = EventState \<or> ev_type e = ''run.state''
        then firstString (ev_payload e) [''to''] = state_name StateRunning
      else False)"

definition supersededAfter :: "string \<Rightarrow> string \<Rightarrow> int \<Rightarrow> db \<Rightarrow> bool" where
  "supersededAfter rid class after s \<longleftrightarrow>
     list_ex (\<lambda>e. rid \<noteq> [] \<and> ev_run e = rid \<and> ev_seq e > after \<and> supersedes class e) (t_events s)"

definition openFlagExists :: "string \<Rightarrow> string \<Rightarrow> db \<Rightarrow> bool" where
  "openFlagExists rid class s = (case latestFlagSeq rid class s of
       None \<Rightarrow> False | Some seq \<Rightarrow> \<not> supersededAfter rid class seq s)"

text \<open>The run-less rows, newest first.\<close>

definition ownerless_newest :: "db \<Rightarrow> event_row list" where
  "ownerless_newest s = sort_key (\<lambda>e. - ev_seq e) (filter (\<lambda>e. ev_run e = []) (t_events s))"

definition openOwnerlessFlagExists :: "string \<Rightarrow> db \<Rightarrow> bool" where
  "openOwnerlessFlagExists class s =
     (case find (\<lambda>e. ev_type e = EventFlagged \<and> flag_class (ev_payload e) = class) (ownerless_newest s) of
        None \<Rightarrow> False
      | Some f \<Rightarrow> \<not> list_ex (\<lambda>e. ev_run e = [] \<and> ev_type e = EventSuppressed \<and> ev_seq e > ev_seq f \<and>
            firstString (ev_payload e) [''rule''] = class) (t_events s))"

section \<open>Park and flag\<close>

definition parkAndFlagTx :: "watch_env \<Rightarrow> string \<Rightarrow> trigger \<Rightarrow> int option \<Rightarrow> unit dbtx" where
  "parkAndFlagTx wd rid trig ref =
     tx_bind (getTx rid) (\<lambda>cur.
     tx_bind (if \<not> tr_nopark trig \<and> CanTransition (run_state cur) StateParked
              then tx_bind (TransitionTx (wd_env wd) rid StateParked
                     (platform_options (''watchdog:'' @ tr_rule trig))) (\<lambda>updated.
                   tx_return (run_generation updated, True))
              else tx_return (run_generation cur, False)) (\<lambda>(gen, parked).
     tx_bind (watch_append wd (run_append rid gen (run_user cur) EventFlagged
                (flag_payload wd trig (tr_rule trig) ref parked))) (\<lambda>_.
     tx_return ())))"

definition parkAndFlag :: "watch_env \<Rightarrow> string \<Rightarrow> trigger \<Rightarrow> int option \<Rightarrow> db \<Rightarrow> (error + unit) \<times> db" where
  "parkAndFlag wd rid trig ref s = write_tx (parkAndFlagTx wd rid trig ref) s"

definition flag :: "watch_env \<Rightarrow> run_row \<Rightarrow> trigger \<Rightarrow> admitter \<Rightarrow> db \<Rightarrow> (error + unit) \<times> admitter \<times> db" where
  "flag wd r trig a s =
     (if openFlagExists (run_id r) (tr_rule trig) s then (Inr (), a, s)
      else
        (case (if annotatable (tr_rule trig)
               then annotate wd r trig (readRecentEvents (run_id r) (run_generation r) recentWindow s) a s
               else (None, a, s)) of
           (ref, a', t) \<Rightarrow> (case parkAndFlag wd (run_id r) trig ref t of (res, u) \<Rightarrow> (res, a', u))))"

definition user_append :: "string \<Rightarrow> string \<Rightarrow> raw \<Rightarrow> append" where
  "user_append user ty payload = \<lparr>ap_run = [], ap_gen = 0, ap_user = user, ap_type = ty,
     ap_version = 1, ap_payload = payload, ap_time = 0\<rparr>"

definition ownerlessFlag :: "watch_env \<Rightarrow> string \<Rightarrow> trigger \<Rightarrow> string \<Rightarrow> db \<Rightarrow> (error + unit) \<times> db" where
  "ownerlessFlag wd user trig class s =
     (if openOwnerlessFlagExists class s then (Inr (), s)
      else (case write_tx (watch_append wd (user_append user EventFlagged
              (flag_payload wd trig class None False))) s of
          (Inl e, t) \<Rightarrow> (Inl e, t) | (Inr _, t) \<Rightarrow> (Inr (), t)))"

definition flagPlatform :: "watch_env \<Rightarrow> trigger \<Rightarrow> db \<Rightarrow> (error + unit) \<times> db" where
  "flagPlatform wd trig s = ownerlessFlag wd ActorPlatform trig (tr_rule trig) s"

section \<open>Evaluating a run\<close>

definition EvaluateRun :: "watch_env \<Rightarrow> string \<Rightarrow> admitter \<Rightarrow> db \<Rightarrow> (error + unit) \<times> admitter \<times> db" where
  "EvaluateRun wd rid a s = (case Get rid s of
       Inl _ \<Rightarrow> (Inr (), a, s)
     | Inr r \<Rightarrow>
         if run_state r \<notin> set behavioralWatchStates then
           (if isCleanCompletion (run_state r) then
              (case suspicious_completion r (readRecentEvents rid allGenerations recentWindow s) of
                 None \<Rightarrow> (Inr (), a, s) | Some trig \<Rightarrow> flag wd r trig a s)
            else (Inr (), a, s))
         else (case behavioral_trip (wd_sha wd) (env_settings (wd_env wd))
                      (toolCompleted (readRecentEvents rid (run_generation r) recentWindow s)) of
             Inl e \<Rightarrow> (Inl e, a, s)
           | Inr None \<Rightarrow> (Inr (), a, s)
           | Inr (Some trig) \<Rightarrow> flag wd r trig a s))"

definition wakes_tier0 :: "event_row \<Rightarrow> bool" where
  "wakes_tier0 e \<longleftrightarrow> ev_run e \<noteq> [] \<and>
     (is_tool_event (ev_type e) \<or> ev_type e = EventState \<or> ev_type e = ''run.state'')"

definition touched :: "event_row list \<Rightarrow> string list" where
  "touched events = remdups (map ev_run (filter wakes_tier0 events))"

text \<open>
  \<open>Tail\<close>: the touched runs are a Go map, visited in any order (\<open>order\<close>); each run meets its own
  surroundings, and an error on one run does not stop the batch.
\<close>

definition Tail ::
  "(string \<Rightarrow> watch_env) \<Rightarrow> (string list \<Rightarrow> string list) \<Rightarrow> int \<Rightarrow> admitter \<Rightarrow> db \<Rightarrow>
   (error + int) \<times> admitter \<times> db" where
  "Tail we order after a s = (case After after 256 s of
       Inl e \<Rightarrow> (Inl e, a, s)
     | Inr events \<Rightarrow>
         (case fold (\<lambda>rid (a, s). snd (EvaluateRun (we rid) rid a s)) (order (touched events)) (a, s) of
            (a', t) \<Rightarrow> (Inr (next_cursor after events), a', t)))"

section \<open>Suppression\<close>

definition baseRule :: "string \<Rightarrow> string" where
  "baseRule rule = takeWhile (\<lambda>c. c \<noteq> CHR '':'') rule"

definition retuneKeyFor :: "string \<Rightarrow> string" where
  "retuneKeyFor rule =
     (if rule = RuleLoop then keyLoopRepeat
      else if rule = RulePingPong then keyPingPongCycles
      else if rule = RuleErrorLoop then keyErrorLoop
      else if rule = RuleSilence then keySilenceBudget
      else if rule = RuleSpend then keySpendMedianMult
      else [])"

definition suppressCount :: "string \<Rightarrow> db \<Rightarrow> int" where
  "suppressCount base s = int (length (filter (\<lambda>e. ev_type e = EventSuppressed \<and>
     baseRule (firstString (ev_payload e) [''rule'']) = base) (t_events s)))"

definition suppress_payload :: "string \<Rightarrow> string \<Rightarrow> int \<Rightarrow> bool \<Rightarrow> raw" where
  "suppress_payload rule actor count propose = marshal (JObj
     [(''rule'', JStr rule), (''actor'', JStr actor), (''count'', json_int count),
      (''reason'', JStr ''operator suppression (tuning signal, S14.4)''), (''propose_retune'', JBool propose)])"

definition retune_trigger :: "string \<Rightarrow> int \<Rightarrow> string \<Rightarrow> trigger" where
  "retune_trigger base count key = plain_trigger RuleRetuneProposal key [(''suppressions'', count)]
     (''rule '' @ base @ '' suppressed '' @ dec_int count @ utf8 [195, 151] @ '' '' @ em_dash @
      '' consider raising '' @ utf8 [226, 154, 153] @ '' '' @ key @
      '' (a proposal; the operator sets it in the settings surface, never an auto-move)'')"

definition proposeRetune :: "watch_env \<Rightarrow> string \<Rightarrow> int \<Rightarrow> db \<Rightarrow> (error + unit) \<times> db" where
  "proposeRetune wd base count s =
     (let key = retuneKeyFor base in
      if key = [] then (Inr (), s)
      else ownerlessFlag wd ActorPlatform (retune_trigger base count key) (RuleRetuneProposal @ '':'' @ key) s)"

definition suppress_append :: "string \<Rightarrow> raw \<Rightarrow> db \<Rightarrow> error + append" where
  "suppress_append rid payload s =
     (if rid = [] then Inr (user_append ActorPlatform EventSuppressed payload)
      else (case Get rid s of
          Inl e \<Rightarrow> Inl e
        | Inr r \<Rightarrow> Inr (run_append rid (run_generation r) (run_user r) EventSuppressed payload)))"

definition Suppress :: "watch_env \<Rightarrow> string \<Rightarrow> string \<Rightarrow> string \<Rightarrow> db \<Rightarrow> (error + unit) \<times> db" where
  "Suppress wd actor rid rule s =
     (let base = baseRule rule; count = suppressCount base s + 1 in
      case read_int (env_settings (wd_env wd)) keySuppressRetune of
        Inl e \<Rightarrow> (Inl e, s)
      | Inr retuneN \<Rightarrow>
          (let propose = (retuneN > 0 \<and> count mod retuneN = 0 \<and> retuneKeyFor base \<noteq> []) in
           case suppress_append rid (suppress_payload rule actor count propose) s of
             Inl e \<Rightarrow> (Inl e, s)
           | Inr ap \<Rightarrow> (case write_tx (watch_append wd ap) s of
               (Inl e, t) \<Rightarrow> (Inl e, t)
             | (Inr _, t) \<Rightarrow> if propose then proposeRetune wd base count t else (Inr (), t))))"

end
