(* ===== verification/Watch_Sweep.thy ===== *)
theory Watch_Sweep
  imports Watch_Flags Receipts Lease_Keeper
begin

text \<open>
  \<open>internal/watchdog/sweep.go\<close> and \<open>deadman.go\<close>: the time-based rules, the platform checks, the rate of
  urgent flags, and the dead-man probe of the watchdog itself.  \<open>time.Parse\<close>, the wording of a silence
  or spend detail and the readings of the host are parameters; an unreadable instant is the zero time.
\<close>

record wake_status =
  wk_pending :: bool
  wk_completed :: bool
  wk_missing :: "string list"

record organ_status =
  og_organ :: string
  og_up :: bool

record wal_stat =
  wl_wal :: int
  wl_rows :: int
  wl_events :: int

text \<open>Readers that are not wired are \<open>None\<close>; a failing one is an error.\<close>

record sweep_env =
  sw_wd :: watch_env
  sw_of :: "string \<Rightarrow> watch_env"
  sw_now :: time
  sw_parse :: "string \<Rightarrow> time"
  sw_silence_text :: "duration \<Rightarrow> string \<Rightarrow> duration \<Rightarrow> string"
  sw_spend_text :: "spend_evidence \<Rightarrow> string"
  sw_spend :: "ledger_env option"
  sw_wake :: "(error + wake_status) option"
  sw_listener :: "(error + (string \<times> string) list) option"
  sw_organs :: "(error + organ_status list) option"
  sw_wal :: "(error + wal_stat) option"

definition sweep_settings :: "sweep_env \<Rightarrow> settings" where
  "sweep_settings se = env_settings (wd_env (sw_wd se))"

section \<open>Silence\<close>

definition silenceWatchStates :: "run_state list" where
  "silenceWatchStates = [StateRunning, StateDraining, StateParked]"

definition hasOpenAsk :: "string \<Rightarrow> db \<Rightarrow> bool" where
  "hasOpenAsk rid s \<longleftrightarrow> list_ex (\<lambda>k. ask_run k = rid \<and> ask_answered k = 0) (t_asks s)"

definition resume_keys :: "string list" where
  "resume_keys = [''parked_until'', ''parked-until'', ''resets_at'', ''resets-at'', ''reset_at'']"

definition parkResumeTime :: "sweep_env \<Rightarrow> string \<Rightarrow> db \<Rightarrow> time option" where
  "parkResumeTime se rid s =
     (case find (\<lambda>e. ev_type e \<in> {''limit.event'', ''engine.rate_limit'', ''run.parked''}) (newest_first rid s) of
        None \<Rightarrow> None
      | Some e \<Rightarrow>
          (let txt = firstString (ev_payload e) resume_keys in
           if txt \<noteq> [] \<and> \<not> is_zero_time (sw_parse se txt) then Some (sw_parse se txt) else None))"

definition newestEventTS :: "string \<Rightarrow> db \<Rightarrow> time option" where
  "newestEventTS rid s = (case newest_first rid s of [] \<Rightarrow> None | e # _ \<Rightarrow> Some (ev_time e))"

definition silenceWatched :: "sweep_env \<Rightarrow> run_row \<Rightarrow> db \<Rightarrow> bool" where
  "silenceWatched se r s =
     (if run_state r = StateRunning \<or> run_state r = StateDraining then \<not> hasOpenAsk (run_id r) s
      else if run_state r = StateParked then
        (if hasOpenAsk (run_id r) s then False
         else (case parkResumeTime se (run_id r) s of None \<Rightarrow> False | Some rt \<Rightarrow> rt < sw_now se))
      else False)"

definition role_suffixes :: "string list" where
  "role_suffixes = [''.intake'', ''.execute'', ''.verify'', ''.compose'']"

definition runType :: "run_row \<Rightarrow> string" where
  "runType r =
     (case find (\<lambda>suf. ends_with suf (StripForkSuffix (run_id r))) role_suffixes of
        Some suf \<Rightarrow> tl suf
      | None \<Rightarrow> if run_lane r \<noteq> [] then run_lane r else ''default'')"

definition holderGone :: "run_row \<Rightarrow> time \<Rightarrow> duration \<Rightarrow> duration \<Rightarrow> bool" where
  "holderGone r now silent deadAfter =
     (if run_state r \<noteq> StateRunning \<and> run_state r \<noteq> StateDraining then False
      else if silent \<le> deadAfter then False
      else is_zero_time (run_lease_deadline r) \<or> now > run_lease_deadline r)"

definition silence_budget :: "(string \<rightharpoonup> string) \<Rightarrow> duration \<Rightarrow> run_row \<Rightarrow> duration" where
  "silence_budget budgets seed r = (case budgets (runType r) of
       None \<Rightarrow> seed
     | Some v \<Rightarrow> (case ParseInt64 (trim_space v) of
         Some secs \<Rightarrow> if secs > 0 then wrap64 (secs * second) else seed
       | None \<Rightarrow> seed))"

definition handoff_note :: string where
  "handoff_note = ''; nothing is driving it and the recovery pass will classify it '' @ em_dash @
     '' the card stands, the run is left where the pass can see it''"

definition silence_trigger :: "sweep_env \<Rightarrow> run_row \<Rightarrow> duration \<Rightarrow> duration \<Rightarrow> duration \<Rightarrow> trigger" where
  "silence_trigger se r silent budget seed =
     (let gone = holderGone r (sw_now se) silent seed in
      \<lparr>tr_rule = RuleSilence, tr_signature = [],
       tr_counts = [(''silent_seconds'', trunc (seconds silent)), (''budget_seconds'', trunc (seconds budget))],
       tr_detail = sw_silence_text se silent (runType r) budget @ (if gone then handoff_note else []),
       tr_spend = None, tr_nopark = gone\<rparr>)"

definition silence_of :: "sweep_env \<Rightarrow> (string \<rightharpoonup> string) \<Rightarrow> duration \<Rightarrow> run_row \<Rightarrow> db \<Rightarrow> trigger option" where
  "silence_of se budgets seed r s =
     (if \<not> silenceWatched se r s then None
      else (case newestEventTS (run_id r) s of
          None \<Rightarrow> None
        | Some newest \<Rightarrow>
            (let silent = time_sub (sw_now se) newest; budget = silence_budget budgets seed r in
             if is_zero_time newest \<or> silent \<le> budget then None
             else Some (silence_trigger se r silent budget seed))))"

fun silence_loop ::
  "sweep_env \<Rightarrow> (string \<rightharpoonup> string) \<Rightarrow> duration \<Rightarrow> run_row list \<Rightarrow> admitter \<Rightarrow> db \<Rightarrow>
   (error + unit) \<times> admitter \<times> db" where
  "silence_loop se budgets seed [] a s = (Inr (), a, s)"
| "silence_loop se budgets seed (r # rs) a s = (case silence_of se budgets seed r s of
       None \<Rightarrow> silence_loop se budgets seed rs a s
     | Some trig \<Rightarrow> (case flag (sw_of se (run_id r)) r trig a s of
         (Inl e, a', t) \<Rightarrow> (Inl e, a', t)
       | (Inr _, a', t) \<Rightarrow> silence_loop se budgets seed rs a' t))"

definition sweepSilence :: "sweep_env \<Rightarrow> admitter \<Rightarrow> db \<Rightarrow> (error + unit) \<times> admitter \<times> db" where
  "sweepSilence se a s = (case read_map (sweep_settings se) keySilenceBudget of
       Inl e \<Rightarrow> (Inl e, a, s)
     | Inr budgets \<Rightarrow> (case read_duration (sweep_settings se) keyDeadAfter of
         Inl e \<Rightarrow> (Inl e, a, s)
       | Inr seed \<Rightarrow> silence_loop se budgets seed (InStates silenceWatchStates s) a s))"

section \<open>Spend\<close>

definition spend_of :: "sweep_env \<Rightarrow> ledger_env \<Rightarrow> rat \<Rightarrow> int \<Rightarrow> string \<Rightarrow> db \<Rightarrow> spend_evidence option" where
  "spend_of se le mult armDays owner s =
     (let win = SpendWindow le owner (sw_now se) armDays s;
          armed = (\<not> sw_any_unpriced win \<and> int (sw_history win) \<ge> armDays)
      in if \<not> armed \<or> sw_median win \<le> 0 \<or> sw_today win \<le> fl (mult * sw_median win) then None
         else Some \<lparr>se_today = sw_today win, se_median = sw_median win, se_multiplier = mult,
                se_days = int (sw_history win), se_armed = armed, se_dormant = sw_any_unpriced win\<rparr>)"

definition spend_trigger :: "sweep_env \<Rightarrow> spend_evidence \<Rightarrow> trigger" where
  "spend_trigger se ev = \<lparr>tr_rule = RuleSpend, tr_signature = [], tr_counts = [],
     tr_detail = sw_spend_text se ev, tr_spend = Some ev, tr_nopark = False\<rparr>"

fun spend_loop :: "sweep_env \<Rightarrow> ledger_env \<Rightarrow> rat \<Rightarrow> int \<Rightarrow> string list \<Rightarrow> db \<Rightarrow> (error + unit) \<times> db" where
  "spend_loop se le mult armDays [] s = (Inr (), s)"
| "spend_loop se le mult armDays (owner # owners) s =
     (if owner = ActorPlatform then spend_loop se le mult armDays owners s
      else (case spend_of se le mult armDays owner s of
          None \<Rightarrow> spend_loop se le mult armDays owners s
        | Some ev \<Rightarrow> (case ownerlessFlag (sw_wd se) owner (spend_trigger se ev) (RuleSpend @ '':'' @ owner) s of
            (Inl e, t) \<Rightarrow> (Inl e, t) | (Inr _, t) \<Rightarrow> spend_loop se le mult armDays owners t)))"

definition sweepSpend :: "sweep_env \<Rightarrow> db \<Rightarrow> (error + unit) \<times> db" where
  "sweepSpend se s = (case sw_spend se of
       None \<Rightarrow> (Inr (), s)
     | Some le \<Rightarrow> (case read_float (sweep_settings se) keySpendMedianMult of
         Inl e \<Rightarrow> (Inl e, s)
       | Inr mult \<Rightarrow> (case read_int (sweep_settings se) keySpendArmDays of
           Inl e \<Rightarrow> (Inl e, s)
         | Inr armDays \<Rightarrow> spend_loop se le mult armDays (SpendOwners (sw_now se) s) s)))"

section \<open>Platform checks\<close>

fun join_with :: "string \<Rightarrow> string list \<Rightarrow> string" where
  "join_with sep [] = []"
| "join_with sep [x] = x"
| "join_with sep (x # y # ys) = x @ sep @ join_with sep (y # ys)"

definition checkResumeReconcile :: "sweep_env \<Rightarrow> db \<Rightarrow> (error + unit) \<times> db" where
  "checkResumeReconcile se s = (case sw_wake se of
       None \<Rightarrow> (Inr (), s)
     | Some (Inl e) \<Rightarrow> (Inl e, s)
     | Some (Inr st) \<Rightarrow>
         if \<not> wk_pending st \<or> wk_completed st then (Inr (), s)
         else flagPlatform (sw_wd se) (plain_trigger RuleResumeReconcile []
                [(''missing_steps'', int (length (wk_missing st)))]
                (''a wake reconcile did not complete all S01.7 steps: '' @ join_with '', '' (wk_missing st))) s)"

definition checkListeners :: "sweep_env \<Rightarrow> db \<Rightarrow> (error + unit) \<times> db" where
  "checkListeners se s = (case sw_listener se of
       None \<Rightarrow> (Inr (), s)
     | Some (Inl e) \<Rightarrow> (Inl e, s)
     | Some (Inr foreign) \<Rightarrow>
         if foreign = [] then (Inr (), s)
         else flagPlatform (sw_wd se) (plain_trigger RuleListener (join_with '','' (map fst foreign))
                [(''foreign_listeners'', int (length foreign))]
                (''a sinet process listens beyond loopback / the operator allowlist: '' @
                 join_with '', '' (map fst foreign))) s)"

definition plainOrganName :: "string \<Rightarrow> string" where
  "plainOrganName organ =
     (if organ = ''watchlist'' then ''The helper that watches web pages for changes''
      else ''One of the platform'' @ utf8 [39] @ ''s background helpers ('' @ organ @ '')'')"

definition organ_trigger :: "string \<Rightarrow> trigger" where
  "organ_trigger organ = plain_trigger RuleOrganAbsence [] []
     (plainOrganName organ @ '' is not running just now, so the platform is carrying on without it '' @ em_dash @
      '' nothing else stops, and anything it would have done waits until it is back. '' @
      ''What it needs in order to start is in the platform log.'')"

fun organ_loop :: "sweep_env \<Rightarrow> organ_status list \<Rightarrow> db \<Rightarrow> (error + unit) \<times> db" where
  "organ_loop se [] s = (Inr (), s)"
| "organ_loop se (st # sts) s =
     (if og_up st then organ_loop se sts s
      else (case ownerlessFlag (sw_wd se) ActorPlatform (organ_trigger (og_organ st))
                   (RuleOrganAbsence @ '':'' @ og_organ st) s of
          (Inl e, t) \<Rightarrow> (Inl e, t) | (Inr _, t) \<Rightarrow> organ_loop se sts t))"

definition checkOrgans :: "sweep_env \<Rightarrow> db \<Rightarrow> (error + unit) \<times> db" where
  "checkOrgans se s = (case sw_organs se of
       None \<Rightarrow> (Inr (), s)
     | Some (Inl e) \<Rightarrow> (Inl e, s)
     | Some (Inr sts) \<Rightarrow> organ_loop se sts s)"

text \<open>SQLite's \<open>LENGTH\<close> of a text counts characters, not bytes.\<close>

definition sql_length :: "string \<Rightarrow> int" where
  "sql_length txt = int (length (filter (\<lambda>c. let n = of_char c :: nat in n < 128 \<or> 192 \<le> n) txt))"

definition log_size :: "sweep_env \<Rightarrow> db \<Rightarrow> error + (int \<times> string)" where
  "log_size se s = (case sw_wal se of
       Some (Inl e) \<Rightarrow> Inl e
     | Some (Inr w) \<Rightarrow> Inr (wrap64 (wl_wal w + wl_events w),
         ''wal='' @ dec_int (wl_wal w) @ '' bytes, run_events='' @ dec_int (wl_events w) @ '' bytes ('' @
         dec_int (wl_rows w) @ '' rows)'')
     | None \<Rightarrow>
         (let total = sum_list (map (\<lambda>e. sql_length (raw_text (ev_payload e))) (t_events s)) in
          Inr (total, ''run_events='' @ dec_int total @ '' bytes ('' @ dec_int (int (length (t_events s))) @ '' rows)'')))"

definition checkEventLogSize :: "sweep_env \<Rightarrow> db \<Rightarrow> (error + unit) \<times> db" where
  "checkEventLogSize se s = (case log_size se s of
       Inl e \<Rightarrow> (Inl e, s)
     | Inr (bytes, note) \<Rightarrow>
         if bytes \<le> eventLogSizeThresholdBytes then (Inr (), s)
         else flagPlatform (sw_wd se) (plain_trigger RuleEventLogSize []
                [(''bytes'', bytes), (''threshold_bytes'', eventLogSizeThresholdBytes)]
                (''the event log has grown past the structural threshold: '' @ note)) s)"

definition canaryPrefix :: string where "canaryPrefix = ''platform.deadman.''"

definition flagNowCountSince :: "time \<Rightarrow> db \<Rightarrow> int" where
  "flagNowCountSince since s = int (length (filter (\<lambda>e. ev_type e = EventFlagged \<and> stamp_less since (ev_time e) \<and>
     \<not> starts_with canaryPrefix (ev_run e) \<and> firstString (ev_payload e) [''severity''] = SeverityFlagNow) (t_events s)))"

definition rate_trigger :: "int \<Rightarrow> int \<Rightarrow> trigger" where
  "rate_trigger n target = plain_trigger RuleFlagNowRate []
     [(''flag_now_24h'', n), (''target_per_day'', target)]
     (dec_int n @ '' flag-now alerts in the last 24h exceeds the target of '' @ dec_int target @ ''/day '' @ em_dash @
      '' the watchdog may be too chatty (a self-monitoring meta-alert)'')"

definition checkFlagNowRate :: "sweep_env \<Rightarrow> db \<Rightarrow> (error + unit) \<times> db" where
  "checkFlagNowRate se s = (case read_int (sweep_settings se) keyFlagNowTarget of
       Inl e \<Rightarrow> (Inl e, s)
     | Inr target \<Rightarrow>
         (let n = flagNowCountSince (sw_now se - 24 * hour) s in
          if n \<le> target then (Inr (), s) else flagPlatform (sw_wd se) (rate_trigger n target) s))"

section \<open>The sweep\<close>

text \<open>Every step runs; the errors of the failing ones are joined under their names.\<close>

definition sweep_steps :: "sweep_env \<Rightarrow> (string \<times> (admitter \<times> db \<Rightarrow> (error + unit) \<times> admitter \<times> db)) list" where
  "sweep_steps se =
     [(''silence'', \<lambda>(a, s). sweepSilence se a s),
      (''spend'', \<lambda>(a, s). (case sweepSpend se s of (r, t) \<Rightarrow> (r, a, t))),
      (''resume-reconcile'', \<lambda>(a, s). (case checkResumeReconcile se s of (r, t) \<Rightarrow> (r, a, t))),
      (''listener-audit'', \<lambda>(a, s). (case checkListeners se s of (r, t) \<Rightarrow> (r, a, t))),
      (''organ-absence'', \<lambda>(a, s). (case checkOrgans se s of (r, t) \<Rightarrow> (r, a, t))),
      (''event-log-size'', \<lambda>(a, s). (case checkEventLogSize se s of (r, t) \<Rightarrow> (r, a, t))),
      (''flag-now-rate'', \<lambda>(a, s). (case checkFlagNowRate se s of (r, t) \<Rightarrow> (r, a, t)))]"

fun run_steps ::
  "(string \<times> (admitter \<times> db \<Rightarrow> (error + unit) \<times> admitter \<times> db)) list \<Rightarrow> admitter \<times> db \<Rightarrow>
   (string \<times> error) list \<times> admitter \<times> db" where
  "run_steps [] x = ([], x)"
| "run_steps ((name, step) # steps) x = (case step x of
       (res, y) \<Rightarrow> (case run_steps steps y of
         (errs, z) \<Rightarrow> ((case res of Inl e \<Rightarrow> [(name, e)] | Inr _ \<Rightarrow> []) @ errs, z)))"

definition Sweep :: "sweep_env \<Rightarrow> admitter \<Rightarrow> db \<Rightarrow> (string \<times> error) list \<times> admitter \<times> db" where
  "Sweep se a s = run_steps (sweep_steps se) (a, s)"

section \<open>The dead-man probe\<close>

definition DeadManInterval :: duration where "DeadManInterval = 24 * hour"

text \<open>\<open>LIKE\<close> ignores the case of ASCII letters.\<close>

definition lastDeadManTime :: "db \<Rightarrow> time option" where
  "lastDeadManTime s = map_option ev_time
     (find (\<lambda>e. ev_run e \<noteq> [] \<and> starts_with canaryPrefix (to_lower (ev_run e)) \<and> ev_type e = EventCreated)
        (sort_key (\<lambda>e. - ev_seq e) (t_events s)))"

definition deadManDue :: "time \<Rightarrow> db \<Rightarrow> bool" where
  "deadManDue now s = (case lastDeadManTime s of
       None \<Rightarrow> True | Some born \<Rightarrow> time_sub now born \<ge> DeadManInterval)"

definition canary_id :: "env \<Rightarrow> string" where
  "canary_id env = canaryPrefix @ dec_int (unix_nano (env_now env))"

definition createCanary :: "env \<Rightarrow> string \<Rightarrow> db \<Rightarrow> (error + run_row) \<times> db" where
  "createCanary env rid s = (case start_platform_run env rid s of
       (Inl e, t) \<Rightarrow> (Inl e, t) | (Inr _, t) \<Rightarrow> (Get rid t, t))"

definition liveness_request :: duty_request where
  "liveness_request = \<lparr>dr_alias = AliasWatchdog,
     dr_system = ''Liveness probe. Reason briefly, then answer verdict=productive.'',
     dr_user = ''This is a liveness check. Respond with verdict=productive.'', dr_schema = WatchdogSchema,
     dr_name = ''watchdog-deadman-liveness'', dr_max = disambigMaxTokens, dr_classification = True,
     dr_nothink = False\<rparr>"

definition deadManLiveness :: "watch_env \<Rightarrow> string \<Rightarrow> admitter \<Rightarrow> db \<Rightarrow> bool \<times> admitter \<times> db" where
  "deadManLiveness wd rid a s =
     (if wd_duty wd = None then (True, a, s)
      else (case DutyCall (wd_duty wd) rid liveness_request a s of
          (Inl _, a', t) \<Rightarrow> (False, a', t) | (Inr _, a', t) \<Rightarrow> (True, a', t)))"

definition canary_payload :: raw where
  "canary_payload = marshal (JObj
     [(''args_digest'', JStr ''sha256:deadman-canary''),
      (''excerpt'', JStr ''synthetic known-anomaly trace (dead-man canary)''),
      (''tool'', JStr ''deadman.synthetic'')])"

fun inject_events :: "watch_env \<Rightarrow> run_row \<Rightarrow> nat \<Rightarrow> db \<Rightarrow> (error + unit) \<times> db" where
  "inject_events wd r 0 s = (Inr (), s)"
| "inject_events wd r (Suc n) s =
     (case write_tx (watch_append wd
             (run_append (run_id r) (run_generation r) ActorPlatform ''tool.completed'' canary_payload)) s of
        (Inl e, t) \<Rightarrow> (Inl e, t) | (Inr _, t) \<Rightarrow> inject_events wd r n t)"

definition injectLoopTrace :: "watch_env \<Rightarrow> run_row \<Rightarrow> db \<Rightarrow> (error + unit) \<times> db" where
  "injectLoopTrace wd r s = (case read_int (env_settings (wd_env wd)) keyLoopRepeat of
       Inl e \<Rightarrow> (Inl e, s) | Inr n \<Rightarrow> inject_events wd r (nat n) s)"

definition canaryFlagged :: "string \<Rightarrow> db \<Rightarrow> bool" where
  "canaryFlagged rid s \<longleftrightarrow> latestFlagSeq rid RuleLoop s \<noteq> None"

definition terminateCanary :: "env \<Rightarrow> string \<Rightarrow> db \<Rightarrow> db" where
  "terminateCanary env rid s = (case Get rid s of
       Inl _ \<Rightarrow> s
     | Inr r \<Rightarrow>
         if run_state r = StateParked
           then snd (Transition env rid StateFinalized (platform_options ''dead-man canary complete'') s)
         else if run_state r = StateRunning \<or> run_state r = StateDraining
           then snd (Transition env rid StateCompleted (platform_options ''dead-man canary complete'') s)
         else s)"

definition boolToInt :: "bool \<Rightarrow> int" where "boolToInt b = (if b then 1 else 0)"

definition alarm_trigger :: "bool \<Rightarrow> bool \<Rightarrow> trigger" where
  "alarm_trigger detected alive = plain_trigger RuleDeadMan []
     [(''detected'', boolToInt detected), (''local_alive'', boolToInt alive)]
     (''dead-man canary FAILED:'' @
      (if detected then [] else '' the detection machinery did not flag a known synthetic loop'') @
      (if alive then [] else '' the $0 local liveness call did not answer''))"

text \<open>The probe on its started canary, without the cleanup that follows on every path.\<close>

definition probe_canary :: "watch_env \<Rightarrow> run_row \<Rightarrow> string \<Rightarrow> admitter \<Rightarrow> db \<Rightarrow> (error + unit) \<times> admitter \<times> db" where
  "probe_canary wd canary rid a s =
     (case deadManLiveness wd rid a s of (alive, a1, s1) \<Rightarrow>
     (case injectLoopTrace wd canary s1 of
        (Inl e, s2) \<Rightarrow> (Inl e, a1, s2)
      | (Inr _, s2) \<Rightarrow> (case EvaluateRun wd rid a1 s2 of
          (Inl e, a2, s3) \<Rightarrow> (Inl e, a2, s3)
        | (Inr _, a2, s3) \<Rightarrow>
            (let detected = canaryFlagged rid s3 in
             if detected \<and> alive then (Inr (), a2, s3)
             else (case flagPlatform wd (alarm_trigger detected alive) s3 of (r, s4) \<Rightarrow> (r, a2, s4))))))"

definition DeadManProbe :: "watch_env \<Rightarrow> admitter \<Rightarrow> db \<Rightarrow> (error + unit) \<times> admitter \<times> db" where
  "DeadManProbe wd a s =
     (let rid = canary_id (wd_env wd) in
      case createCanary (wd_env wd) rid s of
        (Inl e, t) \<Rightarrow> (Inl e, a, t)
      | (Inr canary, t) \<Rightarrow> (case probe_canary wd canary rid a t of
          (r, a', u) \<Rightarrow> (r, a', terminateCanary (wd_env wd) rid u)))"

definition DeadManProbeIfDue :: "watch_env \<Rightarrow> admitter \<Rightarrow> db \<Rightarrow> (error + unit) \<times> admitter \<times> db" where
  "DeadManProbeIfDue wd a s =
     (if deadManDue (env_now (wd_env wd)) s then DeadManProbe wd a s else (Inr (), a, s))"

end
