(* ===== verification/Watch_Frames.thy ===== *)
theory Watch_Frames
  imports Watch_Sweep Platform_Passes
begin

text \<open>
  What the handlers of the watchdog leave alone.  \<open>watch_frame\<close> collects what the relation between the
  states before and after has to tolerate: neutral appends, checkpoints, the park with its flag, and the
  watchdog's own short runs.  Every handler then respects the relation; it is shown of the platform's
  invariants and of \<open>parks_only\<close>, which says that other people's runs are at most parked, with a flag.
\<close>

definition own_run :: "string \<Rightarrow> bool" where
  "own_run rid \<longleftrightarrow> starts_with ''platform.'' rid"

definition watch_frame :: "(db \<Rightarrow> db \<Rightarrow> bool) \<Rightarrow> watch_env \<Rightarrow> bool" where
  "watch_frame R wd \<longleftrightarrow> tx_frame R \<and>
     (\<forall>cfg now a. neutral_type (ap_type a) \<longrightarrow> tx_rel R (AppendTx cfg now a)) \<and>
     (\<forall>env n. tx_rel R (CheckpointTx env n)) \<and>
     (\<forall>rid trig ref. tx_rel R (parkAndFlagTx wd rid trig ref)) \<and>
     (\<forall>rid to opts. own_run rid \<longrightarrow> tx_rel R (TransitionTx (wd_env wd) rid to opts)) \<and>
     (\<forall>rid. own_run rid \<longrightarrow> tx_rel R (CreateTx (wd_env wd) (platform_run rid) EventCreated raw_empty))"

lemma watch_neutral [simp]:
  "neutral_type EventFlagged" "neutral_type EventAnnotated" "neutral_type EventSuppressed"
  "neutral_type ''tool.completed''"
  by (simp_all add: neutral_type_def event_type_defs EventFlagged_def EventAnnotated_def EventSuppressed_def)

lemma own_names [simp]: "own_run (advisory_id env p)" "own_run (canary_id env)"
  by (simp_all add: own_run_def advisory_id_def canary_id_def canaryPrefix_def)

lemma append_types [simp]:
  "ap_type (run_append rid gen user ty pl) = ty" "ap_type (user_append user ty pl) = ty"
  "ap_type (platform_append ty pl) = ty"
  by (simp_all add: run_append_def user_append_def platform_append_def)

section \<open>The handlers\<close>

lemma frame_of: "watch_frame R wd \<Longrightarrow> tx_frame R"
  by (simp add: watch_frame_def)

lemma frame_write:
  "watch_frame R wd \<Longrightarrow> tx_rel R m \<Longrightarrow> R s (snd (write_tx m s))"
  by (rule tx_frame.rel_write [OF frame_of])

lemma frame_step:
  "watch_frame R wd \<Longrightarrow> R s t \<Longrightarrow> R t u \<Longrightarrow> R s u"
  by (rule tx_frame.frame_trans [OF frame_of])

lemma frame_same: "watch_frame R wd \<Longrightarrow> R s s"
  by (rule tx_frame.frame_refl [OF frame_of])

lemma frame_parts:
  assumes "watch_frame R wd"
  shows "neutral_type (ap_type a) \<Longrightarrow> R s (snd (write_tx (AppendTx cfg now a) s))"
    "R s (snd (write_tx (CheckpointTx env n) s))"
    "R s (snd (parkAndFlag wd rid trig ref s))"
    "own_run rid \<Longrightarrow> R s (snd (Transition (wd_env wd) rid to opts s))"
    "own_run rid \<Longrightarrow> R s (snd (Create (wd_env wd) (platform_run rid) s))"
  using assms unfolding parkAndFlag_def Transition_def Create_def
  by (auto intro!: frame_write [OF assms] simp: watch_frame_def)

lemma meter_reply_frame:
  assumes "watch_frame R wd"
  shows "R s (snd (meter_reply de rid alias st d co s))"
proof (rule meter_reply_cases [of de rid "alias" st co s d])
  fix c u
  assume "CheckpointTx (de_env de) (usage_checkpoint rid alias st co) s = Inr (c, u)"
    "snd (meter_reply de rid alias st d co s) = u"
  with frame_parts(2) [OF assms, of s "de_env de" "usage_checkpoint rid alias st co"] show ?thesis by simp
next
  fix e assume "snd (meter_reply de rid alias st d co s) = surfaceUnmeteredDefect de rid alias e s"
  then show ?thesis
    using frame_parts(1) [OF assms] by (simp add: surfaceUnmeteredDefect_def Append_def)
qed

lemma DutyCall_frame:
  assumes "watch_frame R wd" "DutyCall duty rid d a s = (res, a', t)"
  shows "R s t"
proof (rule DutyCall_cases [of duty rid d a s])
  fix e b assume "DutyCall duty rid d a s = (Inl e, b, s)"
  with assms(2) frame_same [OF assms(1)] show ?thesis by simp
next
  fix de st assume call: "DutyCall duty rid d a s = callOnSeat de rid (dr_alias d) st d a s"
  show ?thesis
    by (rule callOnSeat_cases [of de rid "dr_alias d" st d a s])
      (use assms(2) call meter_reply_frame [OF assms(1)] frame_same [OF assms(1)] in auto)
qed

lemma appendAnnotation_frame:
  assumes fr: "watch_frame R wd"
  shows "R s (snd (appendAnnotation wd rid ann s))"
  by (auto simp: appendAnnotation_def watch_append_def frame_same [OF fr] frame_parts(1) [OF fr] split: sum.split)

lemma annotate_on_frame:
  assumes fr: "watch_frame R wd"
  shows "R s (snd (snd (annotate_on wd m r trig events a s)))"
proof -
  obtain res a' t where d: "DutyCall (wd_duty wd) m (annotation_request r trig events) a s = (res, a', t)"
    by (metis prod.exhaust)
  have "R s t" by (rule DutyCall_frame [OF fr d])
  then have "R s (snd (appendAnnotation wd (run_id r) (annotation_of wd (tr_rule trig) res) t))"
    by (rule frame_step [OF fr]) (rule appendAnnotation_frame [OF fr])
  then show ?thesis by (auto simp: annotate_on_def d split: prod.split sum.split)
qed

lemma drive_frame: "watch_frame R wd \<Longrightarrow> own_run rid \<Longrightarrow> R s (snd (drive (wd_env wd) rid tos s))"
proof (induction tos arbitrary: s)
  case (Cons to tos)
  obtain x t where m: "Transition (wd_env wd) rid to (platform_options []) s = (x, t)" by fastforce
  have "R s t" using frame_parts(4) [OF Cons.prems, of s to "platform_options []"] m by simp
  with m Cons show ?case by (cases x) (auto intro: frame_step [OF Cons.prems(1)])
qed (simp add: frame_same [where wd = wd])

lemma start_platform_run_frame:
  assumes "watch_frame R wd" "own_run rid"
  shows "R s (snd (start_platform_run (wd_env wd) rid s))"
proof -
  obtain x t where m: "Create (wd_env wd) (platform_run rid) s = (x, t)" by fastforce
  have "R s t" using frame_parts(5) [OF assms, of s] m by simp
  with m drive_frame [OF assms] show ?thesis
    by (cases x) (auto simp: start_platform_run_def simp del: drive.simps intro: frame_step [OF assms(1)])
qed

lemma annotate_frame:
  assumes fr: "watch_frame R wd"
  shows "R s (snd (snd (annotate wd r trig events a s)))"
proof -
  define rid where "rid = advisory_id (wd_env wd) ''watchdog-disambiguator''"
  obtain x t where m: "start_platform_run (wd_env wd) rid s = (x, t)" by fastforce
  have st: "R s t" using start_platform_run_frame [OF fr, of rid s] m by (simp add: rid_def)
  obtain ref a' u where n: "annotate_on wd rid r trig events a t = (ref, a', u)" by (metis prod.exhaust)
  have tu: "R t u" using annotate_on_frame [OF fr, of t rid r trig events a] n by simp
  have "R u (settle_advisory (wd_env wd) rid u)"
    using frame_parts(4) [OF fr, of rid u] by (simp add: settle_advisory_def rid_def)
  with st tu have "R s (settle_advisory (wd_env wd) rid u)" by (blast intro: frame_step [OF fr])
  with st m n show ?thesis
    by (cases x) (simp_all add: annotate_def advisoryMeter_def Let_def rid_def [symmetric]
        frame_same [OF fr] annotate_on_frame [OF fr])
qed

lemma flag_frame:
  assumes fr: "watch_frame R wd"
  shows "R s (snd (snd (flag wd r trig a s)))"
proof (cases "openFlagExists (run_id r) (tr_rule trig) s")
  case False
  obtain ref a' t where m: "(if annotatable (tr_rule trig)
               then annotate wd r trig (readRecentEvents (run_id r) (run_generation r) recentWindow s) a s
               else (None, a, s)) = (ref, a', t)" by (metis prod.exhaust)
  then have st: "R s t"
    using annotate_frame [OF fr, of s r trig _ a] frame_same [OF fr] by (auto split: if_splits) (metis snd_conv)
  have "R t (snd (parkAndFlag wd (run_id r) trig ref t))" by (rule frame_parts(3) [OF fr])
  with st have "R s (snd (parkAndFlag wd (run_id r) trig ref t))" by (rule frame_step [OF fr])
  then show ?thesis using False m by (auto simp: flag_def split: prod.splits)
qed (simp add: flag_def frame_same [OF fr])

lemma ownerlessFlag_frame:
  assumes fr: "watch_frame R wd"
  shows "R s (snd (ownerlessFlag wd user trig class s))"
proof -
  have "R s (snd (write_tx (watch_append wd (user_append user EventFlagged pl)) s))" for pl
    unfolding watch_append_def by (rule frame_parts(1) [OF fr]) simp
  then show ?thesis
    by (auto simp: ownerlessFlag_def frame_same [OF fr] split: prod.split sum.split) (metis snd_conv)+
qed

lemma EvaluateRun_frame:
  assumes fr: "watch_frame R wd"
  shows "R s (snd (snd (EvaluateRun wd rid a s)))"
  by (auto simp: EvaluateRun_def frame_same [OF fr] flag_frame [OF fr] split: sum.split option.split)

lemma Tail_frame:
  assumes "\<forall>rid. watch_frame R (we rid)"
  shows "R s (snd (snd (Tail we order after a s)))"
proof -
  note fr = assms [THEN spec]
  have "R s (snd (fold (\<lambda>rid (a, s). snd (EvaluateRun (we rid) rid a s)) rids (a, s)))" for rids
  proof (induction rids arbitrary: a s)
    case (Cons rid rids)
    obtain x b t where m: "EvaluateRun (we rid) rid a s = (x, b, t)" by (metis prod.exhaust)
    have "R s t" using EvaluateRun_frame [OF fr, of s rid rid a] m by simp
    with Cons [where a = b and s = t] m show ?case
      by (auto intro: frame_step [OF fr [of rid]])
  qed (simp add: frame_same [OF fr])
  then show ?thesis
    by (simp add: Tail_def frame_same [OF fr] case_prod_unfold split: sum.split)
qed

lemma Suppress_frame:
  assumes fr: "watch_frame R wd"
  shows "R s (snd (Suppress wd actor rid rule s))"
proof -
  have ap: "neutral_type (ap_type ap)" if "suppress_append rid pl s = Inr ap" for pl ap
    using that by (auto simp: suppress_append_def split: if_splits sum.splits)
  have w: "R s t" if "suppress_append rid pl s = Inr ap" "write_tx (watch_append wd ap) s = (x, t)" for pl ap x t
    using frame_parts(1) [OF fr ap [OF that(1)], of s "env_settings (wd_env wd)" "env_now (wd_env wd)"] that(2)
    by (simp add: watch_append_def)
  have p: "R t (snd (proposeRetune wd base n t))" for base n t
    by (simp add: proposeRetune_def Let_def frame_same [OF fr] ownerlessFlag_frame [OF fr])
  show ?thesis
    by (auto simp: Suppress_def Let_def frame_same [OF fr] split: sum.split prod.split
        intro: w frame_step [OF fr w p])
qed

section \<open>The sweep and the probe\<close>

lemma silence_loop_frame:
  assumes "\<forall>rid. watch_frame R (sw_of se rid)"
  shows "R s (snd (snd (silence_loop se budgets seed rs a s)))"
proof (induction rs arbitrary: a s)
  case Nil
  then show ?case using assms by (simp add: frame_same [OF assms [THEN spec]])
next
  case (Cons r rs)
  note fr = assms [THEN spec]
  show ?case
  proof (cases "silence_of se budgets seed r s")
    case (Some trig)
    obtain x b t where m: "flag (sw_of se (run_id r)) r trig a s = (x, b, t)" by (metis prod.exhaust)
    have "R s t" using flag_frame [OF fr, of s "run_id r" r trig a] m by simp
    with Cons [where a = b and s = t] m Some show ?thesis
      by (cases x) (auto intro: frame_step [OF fr [of "run_id r"]])
  qed (simp add: Cons)
qed

lemma platform_loops_frame:
  assumes fr: "watch_frame R (sw_wd se)"
  shows "R s (snd (spend_loop se le m days owners s))" "R s (snd (organ_loop se sts s))"
proof -
  show "R s (snd (spend_loop se le m days owners s))"
  proof (induction owners arbitrary: s)
    case (Cons owner owners)
    have one: "R s t" if "ownerlessFlag (sw_wd se) owner trig cls s = (x, t)" for trig cls x t
      using ownerlessFlag_frame [OF fr, of s owner trig cls] that by simp
    show ?case using Cons
      by (auto split: option.split prod.split sum.split intro: one frame_step [OF fr one])
  qed (simp add: frame_same [OF fr])
  show "R s (snd (organ_loop se sts s))"
  proof (induction sts arbitrary: s)
    case (Cons st sts)
    have one: "R s t" if "ownerlessFlag (sw_wd se) ActorPlatform trig cls s = (x, t)" for trig cls x t
      using ownerlessFlag_frame [OF fr, of s ActorPlatform trig cls] that by simp
    show ?case using Cons
      by (auto split: prod.split sum.split intro: one frame_step [OF fr one])
  qed (simp add: frame_same [OF fr])
qed

lemma checks_frame:
  assumes fr: "watch_frame R (sw_wd se)"
  shows "R s (snd (sweepSpend se s))" "R s (snd (checkResumeReconcile se s))"
    "R s (snd (checkListeners se s))" "R s (snd (checkOrgans se s))"
    "R s (snd (checkEventLogSize se s))" "R s (snd (checkFlagNowRate se s))"
  using platform_loops_frame [OF fr] ownerlessFlag_frame [OF fr] frame_same [OF fr]
  by (auto simp: sweepSpend_def checkResumeReconcile_def checkListeners_def checkOrgans_def
      checkEventLogSize_def checkFlagNowRate_def flagPlatform_def Let_def split: option.split sum.split)

lemma run_steps_frame:
  assumes "tx_frame R" "\<And>name step a s. (name, step) \<in> set steps \<Longrightarrow> R s (snd (snd (step (a, s))))"
  shows "R s (snd (snd (run_steps steps (a, s))))"
  using assms(2)
proof (induction steps arbitrary: a s)
  case (Cons p steps)
  obtain name step where p: "p = (name, step)" by (cases p)
  obtain x b t where m: "step (a, s) = (x, b, t)" by (metis prod.exhaust)
  have "R s t" using Cons.prems [of name step s a] p m by simp
  moreover have "R t (snd (snd (run_steps steps (b, t))))"
    by (rule Cons.IH) (use Cons.prems in auto)
  ultimately have "R s (snd (snd (run_steps steps (b, t))))" by (rule tx_frame.frame_trans [OF assms(1)])
  with p m show ?case by (auto split: prod.split)
qed (simp add: tx_frame.frame_refl [OF assms(1)])

lemma Sweep_frame:
  assumes "watch_frame R (sw_wd se)" "\<forall>rid. watch_frame R (sw_of se rid)"
  shows "R s (snd (snd (Sweep se a s)))"
proof -
  have sil: "R s (snd (snd (sweepSilence se a s)))" for a s
    using silence_loop_frame [OF assms(2)] frame_same [OF assms(1)]
    by (auto simp: sweepSilence_def split: sum.split)
  have lift: "R s (snd f) \<Longrightarrow> R s (snd (snd (case f of (r, t) \<Rightarrow> (r, a, t))))"
    for f :: "(error + unit) \<times> db" and s and a :: admitter by (cases f) simp
  show ?thesis
    unfolding Sweep_def
    by (rule run_steps_frame [OF frame_of [OF assms(1)]])
      (auto simp: sweep_steps_def intro: sil lift checks_frame [OF assms(1)])
qed

lemma inject_frame: "watch_frame R wd \<Longrightarrow> R s (snd (inject_events wd r n s))"
proof (induction n arbitrary: s)
  case (Suc n)
  define m where "m = watch_append wd
    (run_append (run_id r) (run_generation r) ActorPlatform ''tool.completed'' canary_payload)"
  obtain x t where w: "write_tx m s = (x, t)" by fastforce
  have "R s t" using frame_parts(1) [OF Suc.prems, of
      "run_append (run_id r) (run_generation r) ActorPlatform ''tool.completed'' canary_payload" s
      "env_settings (wd_env wd)" "env_now (wd_env wd)"] w
    by (simp add: m_def watch_append_def)
  with Suc w show ?case
    by (cases x) (auto simp: m_def [symmetric] intro: frame_step [OF Suc.prems])
qed (simp add: frame_same [where wd = wd])

lemma liveness_frame:
  assumes "watch_frame R wd"
  shows "R s (snd (snd (deadManLiveness wd rid a s)))"
proof -
  obtain x b t where m: "DutyCall (wd_duty wd) rid liveness_request a s = (x, b, t)" by (metis prod.exhaust)
  from DutyCall_frame [OF assms m] show ?thesis
    by (cases x) (simp_all add: deadManLiveness_def m frame_same [OF assms])
qed

lemma probe_canary_frame:
  assumes fr: "watch_frame R wd"
  shows "R s (snd (snd (probe_canary wd canary rid a s)))"
proof -
  obtain alive a1 s1 where l: "deadManLiveness wd rid a s = (alive, a1, s1)" by (metis prod.exhaust)
  have 1: "R s s1" using liveness_frame [OF fr, of s rid a] l by simp
  obtain x s2 where i: "injectLoopTrace wd canary s1 = (x, s2)" by fastforce
  have "R s1 s2" using inject_frame [OF fr, of s1 canary] i frame_same [OF fr, of s1]
    by (auto simp: injectLoopTrace_def split: sum.splits) (metis snd_conv)
  with 1 have 2: "R s s2" by (rule frame_step [OF fr])
  obtain y a2 s3 where e: "EvaluateRun wd rid a1 s2 = (y, a2, s3)" by (metis prod.exhaust)
  have "R s2 s3" using EvaluateRun_frame [OF fr, of s2 rid a1] e by simp
  with 2 have 3: "R s s3" by (rule frame_step [OF fr])
  have "R s (snd (flagPlatform wd trig s3))" for trig
    using 3 ownerlessFlag_frame [OF fr] unfolding flagPlatform_def by (rule frame_step [OF fr])
  with 2 3 show ?thesis
    by (cases x; cases y) (simp_all add: probe_canary_def l i e Let_def case_prod_unfold)
qed

lemma DeadManProbe_frame:
  assumes fr: "watch_frame R wd"
  shows "R s (snd (snd (DeadManProbe wd a s)))"
proof -
  define rid where "rid = canary_id (wd_env wd)"
  have own: "own_run rid" by (simp add: rid_def)
  obtain x t where c: "createCanary (wd_env wd) rid s = (x, t)" by fastforce
  have st: "R s t" using start_platform_run_frame [OF fr own, of s] c
    by (auto simp: createCanary_def split: prod.splits sum.splits)
  show ?thesis
  proof (cases x)
    case (Inr canary)
    obtain y b u where p: "probe_canary wd canary rid a t = (y, b, u)" by (metis prod.exhaust)
    have "R t u" using probe_canary_frame [OF fr, of t canary rid a] p by simp
    moreover have "R u (terminateCanary (wd_env wd) rid u)"
      using frame_parts(4) [OF fr own] by (auto simp: terminateCanary_def frame_same [OF fr] split: sum.split)
    ultimately have "R s (terminateCanary (wd_env wd) rid u)" using st by (blast intro: frame_step [OF fr])
    with Inr c p show ?thesis by (simp add: DeadManProbe_def Let_def rid_def [symmetric])
  qed (use c st in \<open>simp add: DeadManProbe_def Let_def rid_def [symmetric]\<close>)
qed

lemma DeadManProbeIfDue_frame:
  "watch_frame R wd \<Longrightarrow> R s (snd (snd (DeadManProbeIfDue wd a s)))"
  by (simp add: DeadManProbeIfDue_def DeadManProbe_frame frame_same [where wd = wd])

end
