(* ===== verification/Watch_Properties.thy ===== *)
theory Watch_Properties
  imports Watch_Frames Sample_Data
begin

text \<open>
  What the watchdog promises: its counters are exact, it only parks and flags, a resumed run is not
  flagged for its old trace, one flag stands per run and rule until somebody clears it, a suppression
  clears and counts, and the dead-man probe cannot fail silently.
\<close>

section \<open>Payloads it reads back\<close>

lemma digit_char_value: "d < 10 \<Longrightarrow> of_char (digit_char d) = 48 + d"
  by (simp add: digit_char_def take_bit_eq_mod)

lemma is_digit_char: "d < 10 \<Longrightarrow> is_digit (digit_char d)"
  by (simp add: is_digit_def digit_char_def take_bit_eq_mod)

lemma digits_value_snoc: "digits_value (ds @ [c]) = 10 * digits_value ds + (of_nat (of_char c) - 48)"
  by (simp add: digits_value_def)

lemma dec_nat_digits: "list_all is_digit (dec_nat n) \<and> digits_value (dec_nat n) = of_nat n"
proof (induction n rule: dec_nat.induct)
  case (1 n)
  show ?case
  proof (cases "n < 10")
    case True
    then show ?thesis
      by (subst (1 2) dec_nat.simps) (simp add: is_digit_char digits_value_def digit_char_value)
  next
    case False
    have "rat_of_nat n = 10 * of_nat (n div 10) + of_nat (n mod 10)"
      by (metis div_mult_mod_eq mult.commute of_nat_add of_nat_mult of_nat_numeral)
    with False 1 show ?thesis
      by (subst (1 2) dec_nat.simps) (simp add: is_digit_char digits_value_snoc digit_char_value)
  qed
qed

lemma literal_dec_nat: "literal_value (dec_nat n) = of_nat n"
proof -
  have d: "list_all is_digit (dec_nat n)" "digits_value (dec_nat n) = of_nat n"
    using dec_nat_digits [of n] by auto
  have "\<not> starts_with ''-'' (dec_nat n)"
    using hd_dec_nat [of n] by (cases "dec_nat n") auto
  moreover have "takeWhile is_digit (dec_nat n) = dec_nat n" "dropWhile is_digit (dec_nat n) = []"
    using d(1) by (auto simp: list_all_iff takeWhile_eq_all_conv dropWhile_eq_Nil_conv)
  ultimately show ?thesis unfolding literal_value_def Let_def
    by (simp only: d(2) if_False starts_with.simps append_Nil2 list.size exponent_of_def list.case)
      (simp add: ten_pow_def d(2))
qed

lemma literal_dec_int: "literal_value (dec_int i) = of_int i"
proof (cases "i < 0")
  case True
  have "literal_value (CHR ''-'' # dec_nat (nat (- i))) = - literal_value (dec_nat (nat (- i)))"
    using hd_dec_nat [of "nat (- i)"]
    by (cases "dec_nat (nat (- i))") (auto simp: literal_value_def Let_def)
  with True show ?thesis by (simp add: dec_int_def literal_dec_nat)
qed (simp add: dec_int_def literal_dec_nat)

lemma json_int_fits [simp]: "in64 i \<Longrightarrow> numbers_fit (json_int i)"
proof -
  assume "in64 i"
  then have "\<bar>i\<bar> \<le> 2 ^ 63" by (simp add: in64_def int64_min_def int64_max_def abs_le_iff)
  then have "\<bar>rat_of_int i\<bar> \<le> rat_of_int (2 ^ 63)" by (metis of_int_abs of_int_le_iff)
  also have "\<dots> < 2 ^ 1024 - 2 ^ 970" by simp
  finally show ?thesis by (simp add: json_int_def float_fits_def literal_dec_int)
qed

definition trigger_ok :: "trigger \<Rightarrow> bool" where
  "trigger_ok trig \<longleftrightarrow> tr_spend trig = None \<and> (\<forall>c\<in>set (tr_counts trig). in64 (snd c))"

lemma counts_fit:
  assumes "\<forall>c\<in>set counts. in64 (snd c)"
  shows "list_all (\<lambda>f. numbers_fit (snd f)) (counts_json counts)"
proof -
  have "numbers_fit (snd f)"
    if "f \<in> set (foldl (\<lambda>acc f. field_put (fst f) (json_int (snd f)) acc) acc cs)"
      "\<forall>f\<in>set acc. numbers_fit (snd f)" "\<forall>c\<in>set cs. in64 (snd c)" for f cs and acc :: "(string \<times> json) list"
    using that
  proof (induction cs arbitrary: acc)
    case (Cons c cs)
    show ?case
      by (rule Cons.IH [of "field_put (fst c) (json_int (snd c)) acc"]) (use Cons.prems in \<open>auto dest!: snd_field_put\<close>)
  qed simp
  from this [of _ "[]" counts] assms show ?thesis by (auto simp: counts_json_def list_all_iff)
qed

text \<open>A flag's own payload reads back as its class.\<close>

lemma flag_class_payload:
  assumes "trigger_ok trig" "\<forall>q. ref = Some q \<longrightarrow> in64 q" "class \<noteq> []"
  shows "flag_class (flag_payload wd trig class ref parked) = class"
proof -
  define rest where "rest = opt_str ''signature'' (tr_signature trig) @ counts_json (tr_counts trig) @
      spend_json (wd_float wd) (tr_spend trig) @
      (case ref of None \<Rightarrow> [] | Some seq \<Rightarrow> [(''annotation_ref'', json_int seq)]) @
      opt_str ''detail'' (tr_detail trig) @ [(''parked'', JBool parked), (''actor'', JStr ActorPlatform)]"
  have keys: "''anomaly_class'' \<notin> fst ` set rest"
    by (auto simp: rest_def opt_str_def counts_json_def spend_json_def split: option.splits)
  have "list_all (\<lambda>f. numbers_fit (snd f)) rest"
    using assms(1,2) counts_fit [of "tr_counts trig"]
    by (auto simp: rest_def trigger_ok_def opt_str_def spend_json_def list_all_iff split: option.splits)
  moreover have "map_of (rev rest) ''anomaly_class'' = None"
    using keys by (simp add: map_of_eq_None_iff)
  ultimately show ?thesis
    using assms(3) by (simp add: flag_class_def firstString_def flag_payload_def decodeObject_def
        rest_def [symmetric] map_add_def)
qed

section \<open>The counters\<close>

lemma alternates_pairs:
  "alternates i a b ss \<longleftrightarrow> (\<forall>k<length ss. ss ! k = (if (i + k) mod 2 = 1 then b else a))"
proof (induction i a b ss rule: alternates.induct)
  case (2 i a b s ss)
  then show ?case by (auto simp: less_Suc_eq_0_disj nth_Cons')
qed simp

lemma nth_concat_pairs:
  "k < 2 * n \<Longrightarrow> concat (replicate n [a, b]) ! k = (if k mod 2 = 1 then b else a)"
proof (induction n arbitrary: k)
  case (Suc n)
  show ?case
  proof (cases "k < 2")
    case True
    then show ?thesis by (cases k) (auto simp: less_Suc_eq)
  next
    case False
    then obtain j where "k = j + 2" by (metis le_add_diff_inverse2 not_less)
    with Suc show ?thesis by simp
  qed
qed simp

lemma length_concat_pairs: "length (concat (replicate n [a, b])) = 2 * n"
  by (induction n) simp_all

lemma alternation_iff:
  assumes "length sigs = 2 * n" "0 < n"
  shows "alternates 0 (sigs ! 0) (sigs ! 1) sigs \<longleftrightarrow> (\<exists>a b. sigs = concat (replicate n [a, b]))"
proof
  assume alt: "alternates 0 (sigs ! 0) (sigs ! 1) sigs"
  define a b where "a = sigs ! 0" and "b = sigs ! 1"
  with alt have "alternates 0 a b sigs" by (simp only:)
  then have "\<forall>k<length sigs. sigs ! k = (if k mod 2 = 1 then b else a)"
    by (simp add: alternates_pairs)
  then have "sigs = concat (replicate n [a, b])"
    using assms(1) by (rule_tac nth_equalityI) (simp_all add: length_concat_pairs nth_concat_pairs)
  then show "\<exists>a b. sigs = concat (replicate n [a, b])" by blast
next
  assume "\<exists>a b. sigs = concat (replicate n [a, b])"
  then obtain a b where s: "sigs = concat (replicate n [a, b])" by blast
  have "sigs ! 0 = a" "sigs ! 1 = b" using assms(2) by (simp_all add: s nth_concat_pairs)
  then show "alternates 0 (sigs ! 0) (sigs ! 1) sigs"
    by (simp add: alternates_pairs s length_concat_pairs nth_concat_pairs)
qed

definition signatures :: "(string \<Rightarrow> string) \<Rightarrow> recent_event list \<Rightarrow> string list" where
  "signatures sha es = map (\<lambda>e. toolSignature sha (re_payload e)) es"

lemma map_eq_replicate: "map f es = replicate (length es) c \<longleftrightarrow> (\<forall>e\<in>set es. f e = c)"
  by (induction es) auto

lemma guarded_pair:
  "(\<And>a b. E a b \<Longrightarrow> P = R a b) \<Longrightarrow> (P \<and> (\<exists>a b. E a b)) = (\<exists>a b. R a b \<and> E a b)"
  by blast

lemma last_n_length [simp]: "n \<le> length xs \<Longrightarrow> length (last_n n xs) = n"
  by (simp add: last_n_def)

lemma last_n_cons:
  assumes "1 \<le> n" "n \<le> int (length tools)"
  shows "\<exists>e es. last_n (nat n) tools = e # es \<and> length es = nat n - 1"
proof -
  have "length (last_n (nat n) tools) = nat n" using assms by simp
  with assms show ?thesis by (cases "last_n (nat n) tools") auto
qed

lemma loop_exact:
  "loopTrip sha tools n \<noteq> None \<longleftrightarrow> 1 \<le> n \<and> n \<le> int (length tools) \<and>
      (\<exists>sig. sig \<noteq> [] \<and> signatures sha (last_n (nat n) tools) = replicate (nat n) sig)"
proof (cases "1 \<le> n \<and> n \<le> int (length tools)")
  case True
  with last_n_cons [of n tools] obtain e es where l: "last_n (nat n) tools = e # es" "length es = nat n - 1" by auto
  with True have "nat n = Suc (length es)" by simp
  with True l(1) show ?thesis
    by (auto simp: loopTrip_def Let_def signatures_def list_ex_iff map_eq_replicate split: if_splits)
qed (auto simp: loopTrip_def)

lemma error_exact:
  "errorLoopTrip tools n \<noteq> None \<longleftrightarrow> 1 \<le> n \<and> n \<le> int (length tools) \<and>
      (\<exists>name. name \<noteq> [] \<and> (\<forall>e\<in>set (last_n (nat n) tools).
         isToolError (re_payload e) \<and> firstString (re_payload e) tool_keys = name))"
proof (cases "1 \<le> n \<and> n \<le> int (length tools)")
  case True
  with last_n_cons [of n tools] obtain e es where l: "last_n (nat n) tools = e # es" by auto
  with True show ?thesis by (auto simp: errorLoopTrip_def Let_def list_ex_iff split: if_splits)
qed (auto simp: errorLoopTrip_def)

lemma pingpong_exact:
  "pingPongTrip sha tools n \<noteq> None \<longleftrightarrow> 1 \<le> n \<and> 2 * n \<le> int (length tools) \<and>
      (\<exists>a b. a \<noteq> [] \<and> b \<noteq> [] \<and> a \<noteq> b \<and>
         signatures sha (last_n (nat (2 * n)) tools) = concat (replicate (nat n) [a, b]))"
proof (cases "1 \<le> n \<and> 2 * n \<le> int (length tools)")
  case True
  define sigs where "sigs = signatures sha (last_n (nat (2 * n)) tools)"
  have len: "length sigs = 2 * nat n" "0 < nat n" using True by (auto simp: sigs_def signatures_def nat_mult_distrib)
  have trip: "pingPongTrip sha tools n \<noteq> None \<longleftrightarrow> [] \<notin> set sigs \<and> sigs ! 0 \<noteq> sigs ! 1 \<and>
      alternates 0 (sigs ! 0) (sigs ! 1) sigs"
    using True by (auto simp: pingPongTrip_def Let_def sigs_def signatures_def mult.commute list_ex_iff)
  have pair: "[] \<notin> set sigs \<and> sigs ! 0 \<noteq> sigs ! 1 \<longleftrightarrow> a \<noteq> [] \<and> b \<noteq> [] \<and> a \<noteq> b"
    if "sigs = concat (replicate (nat n) [a, b])" for a b
  proof -
    have "set sigs = {a, b}" using len(2) by (auto simp: that)
    moreover have "sigs ! 0 = a" "sigs ! 1 = b" using len(2) by (simp_all add: that nth_concat_pairs)
    ultimately show ?thesis by (simp only: insert_iff empty_iff) blast
  qed
  have "([] \<notin> set sigs \<and> sigs ! 0 \<noteq> sigs ! 1) \<and> (\<exists>a b. sigs = concat (replicate (nat n) [a, b])) \<longleftrightarrow>
      (\<exists>a b. (a \<noteq> [] \<and> b \<noteq> [] \<and> a \<noteq> b) \<and> sigs = concat (replicate (nat n) [a, b]))"
    by (rule guarded_pair) (rule pair)
  with True show ?thesis
    unfolding trip alternation_iff [OF len] sigs_def [symmetric] by (simp only: conj_assoc simp_thms)
qed (auto simp: pingPongTrip_def)

lemma nameless_no_signature: "firstString p tool_keys = [] \<Longrightarrow> toolSignature sha p = []"
  by (simp add: toolSignature_def)

lemma named_signature:
  "firstString p tool_keys \<noteq> [] \<Longrightarrow>
   toolSignature sha p = take 16 (sha (firstString p tool_keys @ [char_of (0::nat)] @
     (if firstString p [''args_digest'', ''digest''] \<noteq> [] then firstString p [''args_digest'', ''digest'']
      else if firstString p [''args'', ''tool_input'', ''input''] \<noteq> []
        then ''sha256:'' @ take 16 (sha (firstString p [''args'', ''tool_input'', ''input'']))
      else [])))"
  by (simp add: toolSignature_def Let_def)

text \<open>One completion without a name in the window a rule looks at, and the rule does not trip.\<close>

lemma nameless_no_trip:
  assumes "firstString (re_payload e) tool_keys = []"
  shows "e \<in> set (last_n (nat n) tools) \<Longrightarrow> loopTrip sha tools n = None"
    and "e \<in> set (last_n (nat n) tools) \<Longrightarrow> errorLoopTrip tools n = None"
    and "e \<in> set (last_n (nat (2 * n)) tools) \<Longrightarrow> pingPongTrip sha tools n = None"
proof -
  have sig: "[] \<in> set (signatures sha xs)" if "e \<in> set xs" for xs
    using that nameless_no_signature [OF assms, of sha] by (force simp: signatures_def)
  show "loopTrip sha tools n = None" if e: "e \<in> set (last_n (nat n) tools)"
  proof (rule ccontr)
    assume "loopTrip sha tools n \<noteq> None"
    then obtain s where "s \<noteq> []" "signatures sha (last_n (nat n) tools) = replicate (nat n) s"
      unfolding loop_exact by blast
    with sig [OF e] show False by (simp add: in_set_replicate)
  qed
  show "errorLoopTrip tools n = None" if e: "e \<in> set (last_n (nat n) tools)"
    using e assms error_exact [of tools n] by auto
  show "pingPongTrip sha tools n = None" if e: "e \<in> set (last_n (nat (2 * n)) tools)"
  proof (rule ccontr)
    assume "pingPongTrip sha tools n \<noteq> None"
    then obtain a b where "a \<noteq> []" "b \<noteq> []"
      "signatures sha (last_n (nat (2 * n)) tools) = concat (replicate (nat n) [a, b])"
      unfolding pingpong_exact by blast
    with sig [OF e] show False by (auto simp: set_replicate_conv_if split: if_splits)
  qed
qed

text \<open>
  C40: the counters count what they say.  The loop rule trips exactly when the last \<open>n\<close> tool
  completions carry one and the same signature; the ping-pong rule exactly when the last \<open>2 n\<close>
  signatures are \<open>n\<close> repetitions of one pair of different signatures; the error rule exactly when the
  last \<open>n\<close> tool completions are failures of one tool.  A completion without a tool name has no signature,
  and with one of them among the completions a rule looks at, that rule does not trip; of a named one the
  signature is the first sixteen characters of the hash of the name and the digest of its arguments: the
  digest the completion gives, else the shortened hash of the arguments it gives, else none.
\<close>

theorem counters_exact:
  "(loopTrip sha tools n \<noteq> None \<longleftrightarrow> 1 \<le> n \<and> n \<le> int (length tools) \<and>
      (\<exists>sig. sig \<noteq> [] \<and> signatures sha (last_n (nat n) tools) = replicate (nat n) sig)) \<and>
   (pingPongTrip sha tools n \<noteq> None \<longleftrightarrow> 1 \<le> n \<and> 2 * n \<le> int (length tools) \<and>
      (\<exists>a b. a \<noteq> [] \<and> b \<noteq> [] \<and> a \<noteq> b \<and>
         signatures sha (last_n (nat (2 * n)) tools) = concat (replicate (nat n) [a, b]))) \<and>
   (errorLoopTrip tools n \<noteq> None \<longleftrightarrow> 1 \<le> n \<and> n \<le> int (length tools) \<and>
      (\<exists>name. name \<noteq> [] \<and> (\<forall>e\<in>set (last_n (nat n) tools).
         isToolError (re_payload e) \<and> firstString (re_payload e) tool_keys = name))) \<and>
   (\<forall>p. firstString p tool_keys = [] \<longrightarrow> toolSignature sha p = []) \<and>
   ((\<exists>e\<in>set (last_n (nat n) tools). firstString (re_payload e) tool_keys = []) \<longrightarrow>
      loopTrip sha tools n = None \<and> errorLoopTrip tools n = None) \<and>
   ((\<exists>e\<in>set (last_n (nat (2 * n)) tools). firstString (re_payload e) tool_keys = []) \<longrightarrow>
      pingPongTrip sha tools n = None) \<and>
   (\<forall>p. firstString p tool_keys \<noteq> [] \<longrightarrow>
      toolSignature sha p = take 16 (sha (firstString p tool_keys @ [char_of (0::nat)] @
        (if firstString p [''args_digest'', ''digest''] \<noteq> [] then firstString p [''args_digest'', ''digest'']
         else if firstString p [''args'', ''tool_input'', ''input''] \<noteq> []
           then ''sha256:'' @ take 16 (sha (firstString p [''args'', ''tool_input'', ''input'']))
         else []))))"
proof (intro conjI)
  show "(\<exists>e\<in>set (last_n (nat n) tools). firstString (re_payload e) tool_keys = []) \<longrightarrow>
      loopTrip sha tools n = None \<and> errorLoopTrip tools n = None"
    using nameless_no_trip(1,2) by blast
  show "(\<exists>e\<in>set (last_n (nat (2 * n)) tools). firstString (re_payload e) tool_keys = []) \<longrightarrow>
      pingPongTrip sha tools n = None"
    using nameless_no_trip(3) by blast
qed (rule loop_exact pingpong_exact error_exact | (intro allI impI, erule nameless_no_signature named_signature))+

definition sample_tool :: "string \<Rightarrow> recent_event" where
  "sample_tool name = \<lparr>re_seq = 1, re_type = ''tool.completed'',
     re_payload = marshal (JObj [(''tool'', JStr name)]), re_time = 0\<rparr>"

lemmas signal_eval = firstString_def decodeObject_def toolSignature_def tool_keys_def Let_def

theorem counters_exact_witness:
  "loopTrip (\<lambda>x. x) [sample_tool ''a'', sample_tool ''b'', sample_tool ''b''] 2 \<noteq> None"
  unfolding counters_exact [THEN conjunct1]
  by (simp add: signatures_def last_n_def sample_tool_def signal_eval numeral_2_eq_2 Cons_eq_append_conv)

section \<open>Parking only\<close>

text \<open>
  Other people's runs: each is as it was, or it was running or draining and is parked now, nothing else
  of its row having changed but the time stamp, and a flag of it is among the new events.
\<close>

definition parks_only :: "db \<Rightarrow> db \<Rightarrow> bool" where
  "parks_only s t \<longleftrightarrow> (\<exists>new. t_events t = t_events s @ new \<and> (\<forall>rid. \<not> own_run rid \<longrightarrow>
     find_run rid t = find_run rid s \<or>
     (\<exists>r ts. find_run rid s = Some r \<and> run_state r \<in> {StateRunning, StateDraining} \<and>
        find_run rid t = Some (r\<lparr>run_state := StateParked, run_updated := ts\<rparr>) \<and>
        (\<exists>e\<in>set new. ev_run e = rid \<and> ev_type e = EventFlagged))))"

lemma parks_only_trans:
  assumes "parks_only s t" "parks_only t u"
  shows "parks_only s u"
proof -
  from assms obtain n m where n: "t_events t = t_events s @ n" and m: "t_events u = t_events t @ m"
    unfolding parks_only_def by blast
  have "find_run rid u = find_run rid s \<or>
     (\<exists>r ts. find_run rid s = Some r \<and> run_state r \<in> {StateRunning, StateDraining} \<and>
        find_run rid u = Some (r\<lparr>run_state := StateParked, run_updated := ts\<rparr>) \<and>
        (\<exists>e\<in>set (n @ m). ev_run e = rid \<and> ev_type e = EventFlagged))" if "\<not> own_run rid" for rid
    using assms that unfolding parks_only_def n m by fastforce
  with n m show ?thesis unfolding parks_only_def by (intro exI [of _ "n @ m"]) simp
qed

interpretation parks: tx_frame parks_only
  by unfold_locales (simp add: parks_only_def, rule parks_only_trans)

lemma parks_only_append: "t_runs t = t_runs s \<Longrightarrow> t_events t = t_events s @ es \<Longrightarrow> parks_only s t"
  by (auto simp: parks_only_def find_run_def)

text \<open>What the park-and-flag transaction leaves: a parked run with its flag, or the flag alone.\<close>

definition flag_event :: "watch_env \<Rightarrow> run_row \<Rightarrow> trigger \<Rightarrow> int option \<Rightarrow> bool \<Rightarrow> db \<Rightarrow> event_row" where
  "flag_event wd cur trig ref parked s =
     new_event (next_rowid (map ev_seq (t_events s))) (env_now (wd_env wd))
       (run_append (run_id cur) (run_generation cur) (run_user cur) EventFlagged
          (flag_payload wd trig (tr_rule trig) ref parked))"

lemma parkAndFlagTx_Inr:
  assumes "parkAndFlagTx wd rid trig ref s = Inr (x, t)"
  obtains (alone) cur where "find_run rid s = Some cur"
      "tr_nopark trig \<or> run_state cur \<notin> {StateRunning, StateDraining}"
      "t = s\<lparr>t_events := t_events s @ [flag_event wd cur trig ref False s]\<rparr>"
  | (parked) cur payload u where "find_run rid s = Some cur" "\<not> tr_nopark trig"
      "run_state cur \<in> {StateRunning, StateDraining}"
      "u = transition_db (wd_env wd) cur StateParked payload s"
      "t = u\<lparr>t_events := t_events u @ [flag_event wd cur trig ref True u]\<rparr>"
proof -
  from assms obtain cur gen pk u where cur: "find_run rid s = Some cur"
    and m: "(if \<not> tr_nopark trig \<and> CanTransition (run_state cur) StateParked
              then tx_bind (TransitionTx (wd_env wd) rid StateParked
                     (platform_options (''watchdog:'' @ tr_rule trig))) (\<lambda>updated.
                   tx_return (run_generation updated, True))
              else tx_return (run_generation cur, False)) s = Inr ((gen, pk), u)"
    and a: "t = u\<lparr>t_events := t_events u @ [new_event (next_rowid (map ev_seq (t_events u))) (env_now (wd_env wd))
        (run_append rid gen (run_user cur) EventFlagged (flag_payload wd trig (tr_rule trig) ref pk))]\<rparr>"
    unfolding parkAndFlagTx_def by (auto simp: tx_simps getTx_def watch_append_def AppendTx_Inr split: prod.splits)
  have id: "run_id cur = rid" using find_run_Some [OF cur] by simp
  have edge: "CanTransition (run_state cur) StateParked \<longleftrightarrow> run_state cur \<in> {StateRunning, StateDraining}"
    by (cases "run_state cur") (simp_all add: CanTransition_def)
  show thesis
  proof (cases "\<not> tr_nopark trig \<and> run_state cur \<in> {StateRunning, StateDraining}")
    case True
    with m edge obtain r where tr: "TransitionTx (wd_env wd) rid StateParked
        (platform_options (''watchdog:'' @ tr_rule trig)) s = Inr (r, u)" "gen = run_generation r" "pk"
      by (auto simp: tx_simps)
    from tr(1) show thesis
    proof (rule TransitionTx_Inr)
      fix cur' payload v
      assume v: "find_run rid s = Some cur'" "v = transition_db (wd_env wd) cur' StateParked payload s"
        "r = transition_row (wd_env wd) cur' StateParked" "run_hook (wd_env wd) StateParked r v = Inr ((), u)"
      have "u = v" using v(4) by (auto simp: run_hook_def IsTerminal_def tx_simps split: option.splits)
      moreover have "gen = run_generation cur"
        using v(1,3) cur tr(2) True by (auto simp: transition_row_def next_generation_def generationBumps_def)
      ultimately show thesis
        using parked [where cur = cur and payload = payload and u = u] True v(1,2) cur a tr(3) id
        by (simp add: flag_event_def)
    qed
  next
    case False
    with m edge have "gen = run_generation cur" "\<not> pk" "u = s" by (auto simp: tx_simps split: if_splits)
    with alone [OF cur] False a id show thesis by (auto simp: flag_event_def)
  qed
qed

lemma parks_only_one:
  assumes "t_events t = t_events s @ new" "\<And>x. x \<noteq> rid \<Longrightarrow> find_run x t = find_run x s"
    and "find_run rid s = Some cur" "run_state cur \<in> {StateRunning, StateDraining}"
    and "find_run rid t = Some (cur\<lparr>run_state := StateParked, run_updated := ts\<rparr>)"
    and "\<exists>e\<in>set new. ev_run e = rid \<and> ev_type e = EventFlagged"
  shows "parks_only s t"
proof -
  have "find_run x t = find_run x s \<or>
     (\<exists>r ts. find_run x s = Some r \<and> run_state r \<in> {StateRunning, StateDraining} \<and>
        find_run x t = Some (r\<lparr>run_state := StateParked, run_updated := ts\<rparr>) \<and>
        (\<exists>e\<in>set new. ev_run e = x \<and> ev_type e = EventFlagged))" for x
    using assms(2) [of x] assms(3-6) by (cases "x = rid") blast+
  with assms(1) show ?thesis unfolding parks_only_def by blast
qed

lemma parks_only_own:
  "t_events t = t_events s @ new \<Longrightarrow> (\<And>x. \<not> own_run x \<Longrightarrow> find_run x t = find_run x s) \<Longrightarrow> parks_only s t"
  unfolding parks_only_def by blast

definition quiet_hook :: "env \<Rightarrow> bool" where
  "quiet_hook env \<longleftrightarrow> (\<forall>h r. env_hook env = Some h \<longrightarrow> tx_rel parks_only (h r))"

lemma parkAndFlagTx_parks: "tx_rel parks_only (parkAndFlagTx wd rid trig ref)"
proof (rule tx_relI)
  fix s x t assume "parkAndFlagTx wd rid trig ref s = Inr (x, t)"
  then show "parks_only s t"
  proof (rule parkAndFlagTx_Inr)
    fix cur payload u
    assume p: "find_run rid s = Some cur" "run_state cur \<in> {StateRunning, StateDraining}"
      "u = transition_db (wd_env wd) cur StateParked payload s"
      "t = u\<lparr>t_events := t_events u @ [flag_event wd cur trig ref True u]\<rparr>"
    have runs: "find_run x t = find_run x u" for x by (simp add: p(4) find_run_def)
    have row: "transition_row (wd_env wd) cur StateParked =
        cur\<lparr>run_state := StateParked, run_updated := env_now (wd_env wd)\<rparr>"
      using p(2) by (auto simp: transition_row_def next_generation_def generationBumps_def)
    have ev: "ev_run (flag_event wd cur trig ref True u) = rid" "ev_type (flag_event wd cur trig ref True u) = EventFlagged"
      using find_run_Some [OF p(1)] by (simp_all add: flag_event_def new_event_def run_append_def)
    define new where "new = [transition_event (wd_env wd) cur StateParked payload (next_rowid (map ev_seq (t_events s))),
        flag_event wd cur trig ref True u]"
    have "t_events t = t_events s @ new" by (simp add: p(3,4) transition_db_def new_def)
    moreover have "find_run x t = find_run x s" if "x \<noteq> rid" for x
      using transition_db_find(2) [OF p(1) that] by (simp add: runs p(3))
    moreover have "find_run rid t = Some (cur\<lparr>run_state := StateParked, run_updated := env_now (wd_env wd)\<rparr>)"
      using transition_db_find(1) [OF p(1)] row by (simp add: runs p(3))
    moreover have "\<exists>e\<in>set new. ev_run e = rid \<and> ev_type e = EventFlagged" using ev by (simp add: new_def)
    ultimately show ?thesis by (rule parks_only_one [OF _ _ p(1,2)])
  qed (simp add: parks_only_append)
qed

lemma own_transition_parks:
  assumes "quiet_hook env" "own_run rid"
  shows "tx_rel parks_only (TransitionTx env rid to opts)"
proof (rule tx_relI)
  fix s r t assume "TransitionTx env rid to opts s = Inr (r, t)"
  then show "parks_only s t"
  proof (rule TransitionTx_Inr)
    fix cur payload u
    assume u: "find_run rid s = Some cur" "u = transition_db env cur to payload s" "run_hook env to r u = Inr ((), t)"
    have "find_run x u = find_run x s" if "\<not> own_run x" for x
      using transition_db_find(2) [OF u(1), of x] assms(2) that by (auto simp: u(2))
    moreover have "\<exists>new. t_events u = t_events s @ new" by (simp add: u(2) transition_db_def)
    ultimately have "parks_only s u" by (blast intro: parks_only_own)
    moreover have "parks_only u t"
      using u(3) assms(1) by (auto simp: run_hook_def quiet_hook_def tx_rel_def tx_simps parks.frame_refl
          split: option.splits if_splits)
    ultimately show ?thesis by (rule parks.frame_trans)
  qed
qed

lemma own_create_parks:
  assumes "own_run rid"
  shows "tx_rel parks_only (CreateTx env (platform_run rid) ty detail)"
proof (rule tx_relI)
  fix s r t assume "CreateTx env (platform_run rid) ty detail s = Inr (r, t)"
  then show "parks_only s t"
  proof (rule CreateTx_Inr)
    fix st payload
    assume r: "r = row_of_new (env_now env) (platform_run rid) st"
      "t = s\<lparr>t_runs := t_runs s @ [r], t_events := t_events s @
       [new_event (next_rowid (map ev_seq (t_events s))) (env_now env)
          (run_append (nr_id (platform_run rid)) (nr_generation (platform_run rid)) (nr_user (platform_run rid)) ty payload)]\<rparr>"
    have "run_id r = rid" by (simp add: r(1) row_of_new_def platform_run_def)
    then have "find_run x t = find_run x s" if "x \<noteq> rid" for x
      using that by (simp add: r(2) find_run_def tbl_find_def find_append split: option.split)
    with assms have "find_run x t = find_run x s" if "\<not> own_run x" for x using that by (cases "x = rid") simp_all
    moreover have "\<exists>new. t_events t = t_events s @ new" by (simp add: r(2))
    ultimately show ?thesis by (blast intro: parks_only_own)
  qed
qed

lemma CheckpointTx_parks: "tx_rel parks_only (CheckpointTx env n)"
proof (rule tx_relI)
  fix s x t assume "CheckpointTx env n s = Inr (x, t)"
  then show "parks_only s t" by (rule CheckpointTx_Inr) (simp add: parks_only_append)
qed

lemma watch_parks: "quiet_hook (wd_env wd) \<Longrightarrow> watch_frame parks_only wd"
  unfolding watch_frame_def
  by (auto simp: parks.tx_frame_axioms parkAndFlagTx_parks own_transition_parks own_create_parks
      CheckpointTx_parks AppendTx_Inr intro!: tx_relI parks_only_append)

text \<open>
  C13: the watchdog only parks, and says so.  Whatever a tail, a sweep, an evaluation, a suppression
  or a dead-man probe does, every run outside the platform's own is afterwards as it was, or it was
  running or draining and is parked now with nothing else of its row changed but the time stamp, and
  its flag is among the new events.  Nothing is killed, finished, resumed or removed.  The run-end hook,
  which runs when the canary is finalized, is assumed to respect the same frame.
\<close>

theorem watchdog_only_parks:
  assumes "\<forall>rid. quiet_hook (wd_env (we rid))" "quiet_hook (wd_env (sw_wd se))"
    "\<forall>rid. quiet_hook (wd_env (sw_of se rid))"
    and "t \<in> {snd (snd (Tail we order after a s)), snd (snd (EvaluateRun (we rid) rid a s)),
      snd (snd (Sweep se a s)), snd (Suppress (we []) actor rid rule s), snd (snd (DeadManProbeIfDue (we []) a s))}"
    and "\<not> starts_with ''platform.'' rid'" "find_run rid' s = Some r"
  shows "find_run rid' t = Some r \<or>
    (run_state r \<in> {StateRunning, StateDraining} \<and>
     (\<exists>ts. find_run rid' t = Some (r\<lparr>run_state := StateParked, run_updated := ts\<rparr>)) \<and>
     (\<exists>new. t_events t = t_events s @ new \<and> (\<exists>e\<in>set new. ev_run e = rid' \<and> ev_type e = EventFlagged)))"
proof -
  have "\<forall>rid. watch_frame parks_only (we rid)" "watch_frame parks_only (sw_wd se)"
    "\<forall>rid. watch_frame parks_only (sw_of se rid)"
    using assms(1-3) by (simp_all add: watch_parks)
  with assms(4) have "parks_only s t"
    by (auto simp: Tail_frame EvaluateRun_frame Sweep_frame Suppress_frame DeadManProbeIfDue_frame)
  with assms(5,6) show ?thesis unfolding parks_only_def own_run_def by fastforce
qed

definition sample_watch :: watch_env where
  "sample_watch = \<lparr>wd_sha = (\<lambda>x. x), wd_env = sample_env, wd_duty = None, wd_meter = False,
     wd_text = (\<lambda>e. []), wd_float = (\<lambda>q. ''0'')\<rparr>"

definition sample_sweep :: sweep_env where
  "sample_sweep = \<lparr>sw_wd = sample_watch, sw_of = (\<lambda>rid. sample_watch), sw_now = 5000, sw_parse = (\<lambda>t. 0),
     sw_silence_text = (\<lambda>a b c. []), sw_spend_text = (\<lambda>e. []), sw_spend = None, sw_wake = None,
     sw_listener = None, sw_organs = None, sw_wal = None\<rparr>"

lemma sample_quiet [simp]: "quiet_hook sample_env" "wd_env sample_watch = sample_env"
  by (simp_all add: quiet_hook_def sample_env_def sample_watch_def)

theorem watchdog_only_parks_witness:
  "find_run ''r'' (snd (snd (Sweep sample_sweep new_admitter sample_running))) \<noteq> None"
proof -
  from sample_states(1) obtain r where r: "find_run ''r'' sample_running = Some r" by auto
  have "\<not> starts_with ''platform.'' ''r''" by simp
  let ?t = "snd (snd (Sweep sample_sweep new_admitter sample_running))"
  have env: "sw_wd sample_sweep = sample_watch" "sw_of sample_sweep = (\<lambda>rid. sample_watch)"
    by (simp_all add: sample_sweep_def)
  have "find_run ''r'' ?t = Some r \<or> (run_state r \<in> {StateRunning, StateDraining} \<and>
     (\<exists>ts. find_run ''r'' ?t = Some (r\<lparr>run_state := StateParked, run_updated := ts\<rparr>)) \<and>
     (\<exists>new. t_events ?t = t_events sample_running @ new \<and> (\<exists>e\<in>set new. ev_run e = ''r'' \<and> ev_type e = EventFlagged)))"
    by (rule watchdog_only_parks [where we = "\<lambda>rid. sample_watch" and se = sample_sweep and
        a = new_admitter and s = sample_running, OF _ _ _ _ \<open>\<not> starts_with ''platform.'' ''r''\<close> r])
      (simp_all add: env)
  then show ?thesis by auto
qed

section \<open>Resuming\<close>

lemma no_tools_no_trip:
  assumes "set_int cfg keyLoopRepeat \<noteq> None" "set_int cfg keyPingPongCycles \<noteq> None" "set_int cfg keyErrorLoop \<noteq> None"
  shows "behavioral_trip sha cfg [] = Inr None"
  using assms by (auto simp: behavioral_trip_def trips_need_tools read_int_def)

lemma recent_tools_subset:
  "set (toolCompleted (readRecentEvents rid gen limit s)) \<subseteq>
   recent_of ` {e \<in> set (t_events s). ev_run e = rid \<and> (gen \<ge> 0 \<longrightarrow> ev_gen e = gen) \<and> is_tool_event (ev_type e)}"
  by (auto simp: toolCompleted_def readRecentEvents_def recent_of_def set_newest_first dest!: in_set_takeD)

text \<open>Right after a resume, the run's new generation holds the transition alone.\<close>

lemma resumed_trace:
  assumes "good s" "find_run rid s = Some cur" "run_state cur = StateParked"
    and "TransitionTx env rid StateRunning opts s = Inr (r, t)"
  shows "0 \<le> run_generation r \<and> run_state r = StateRunning \<and>
    (\<forall>e\<in>set (t_events t). ev_run e = rid \<and> ev_gen e = run_generation r \<longrightarrow> ev_type e = EventState)"
  using assms(4)
proof (rule TransitionTx_Inr)
  fix cur' payload v
  assume v: "find_run rid s = Some cur'" "0 \<le> next_generation cur' StateRunning"
    "v = transition_db env cur' StateRunning payload s" "r = transition_row env cur' StateRunning"
    "run_hook env StateRunning r v = Inr ((), t)"
  have tv: "t = v" using v(5) by (auto simp: run_hook_def IsTerminal_def tx_simps split: option.splits)
  have cur: "cur' = cur" using v(1) assms(2) by simp
  have gen: "run_generation r = wrap64 (run_generation cur + 1)"
    using assms(3) by (simp add: v(4) cur transition_row_def next_generation_def generationBumps_def)
  have "rows_good s" "fenced s" using assms(1) by (simp_all add: good_def)
  then have bounds: "0 \<le> run_generation cur" "run_generation cur \<le> int64_max"
    using assms(2) by (auto simp: rows_good_def run_checks_def)
  have pos: "0 \<le> run_generation r" using v(2) by (simp add: v(4) transition_row_def)
  with gen bounds have up: "run_generation r = run_generation cur + 1"
    using wrap64_succ [OF bounds] by (auto simp: int64_min_def split: if_splits)
  have "rid \<noteq> []" using good_run [OF assms(1,2)] find_run_Some [OF assms(2)] by (auto simp: run_checks_def)
  then have "\<not> (ev_run e = rid \<and> ev_gen e = run_generation r)" if "e \<in> set (t_events s)" for e
    using that \<open>fenced s\<close> assms(2) up by (fastforce simp: fenced_def)
  with pos show ?thesis
    by (auto simp: tv v(3,4) transition_row_def transition_db_def transition_event_def new_event_def run_append_def)
qed

lemma no_recent_tools:
  assumes "\<forall>e\<in>set (t_events u). ev_run e = rid \<and> ev_gen e = gen \<longrightarrow> \<not> is_tool_event (ev_type e)" "0 \<le> gen"
  shows "toolCompleted (readRecentEvents rid gen limit u) = []"
proof -
  have "{e \<in> set (t_events u). ev_run e = rid \<and> (0 \<le> gen \<longrightarrow> ev_gen e = gen) \<and> is_tool_event (ev_type e)} = {}"
    using assms by auto
  then show ?thesis using recent_tools_subset [of rid gen limit u] by (simp only: image_empty subset_empty set_empty)
qed

text \<open>
  C14: a resumed run is not flagged for its old trace.  When an operator resumes a parked run, the
  next evaluation of the watchdog finds no tool completion of the new generation, so whatever the run
  had done before, no counter trips, no call of the model is made and the state stays as it is, until
  the resumed run completes a tool itself.
\<close>

theorem resumed_run_not_reflagged:
  assumes "good s" "find_run rid s = Some cur" "run_state cur = StateParked"
    and "TransitionTx env rid StateRunning opts s = Inr (r, t)"
    and "log_extends t u" "find_run rid u = Some r"
    and "\<forall>e\<in>set (drop (length (t_events t)) (t_events u)). ev_run e = rid \<longrightarrow> \<not> is_tool_event (ev_type e)"
    and "set_int (env_settings (wd_env wd)) keyLoopRepeat \<noteq> None"
    and "set_int (env_settings (wd_env wd)) keyPingPongCycles \<noteq> None"
    and "set_int (env_settings (wd_env wd)) keyErrorLoop \<noteq> None"
  shows "EvaluateRun wd rid a u = (Inr (), a, u)"
proof -
  obtain es where u: "t_events u = t_events t @ es" using assms(5) by (auto simp: log_extends_def)
  note tr = resumed_trace [OF assms(1-4)]
  have "\<not> is_tool_event EventState" by (simp add: is_tool_event_def event_type_defs)
  then have "\<forall>e\<in>set (t_events u). ev_run e = rid \<and> ev_gen e = run_generation r \<longrightarrow> \<not> is_tool_event (ev_type e)"
    using tr assms(7) by (auto simp: u)
  then have "toolCompleted (readRecentEvents rid (run_generation r) recentWindow u) = []"
    using tr by (intro no_recent_tools) auto
  with tr show ?thesis
    using assms(6) no_tools_no_trip [OF assms(8-10)] by (simp add: EvaluateRun_def Get_def)
qed

theorem resumed_run_not_reflagged_witness:
  "EvaluateRun sample_watch ''r'' new_admitter (sample_step StateRunning sample_parked) =
     (Inr (), new_admitter, sample_step StateRunning sample_parked)"
proof -
  have good: "good sample_parked" by (simp add: sample_parked_def sample_good)
  from sample_states(2) obtain cur where cur: "find_run ''r'' sample_parked = Some cur" "run_state cur = StateParked" by auto
  have "\<not> isl (fst (write_tx (TransitionTx sample_env ''r'' StateRunning no_options) sample_parked))"
    by (simp add: sample_parked_def tx_eval json_eval append_eval run_eval sample_eval cong: tx_bind_weak)
  from write_committed [OF this] obtain r
    where tr: "TransitionTx sample_env ''r'' StateRunning no_options sample_parked = Inr (r, sample_step StateRunning sample_parked)"
    by (auto simp: sample_step_def Transition_def)
  have found: "find_run ''r'' (sample_step StateRunning sample_parked) = Some r"
    using tr by (rule TransitionTx_Inr)
      (auto simp: run_hook_def sample_env_def tx_simps dest: transition_db_find(1))
  show ?thesis
    by (rule resumed_run_not_reflagged [OF good cur tr _ found]) (simp_all add: log.frame_refl sample_env_def sample_cfg_def)
qed

end
