(* ===== verification/Watch_Standing.thy ===== *)
theory Watch_Standing
  imports Watch_Properties
begin

text \<open>
  The open flags of the watchdog: one stands per run and rule from the moment it is written until a
  suppression of the rule or a resume; a suppression closes it, counts once for the rule, and opens
  the card that proposes a new threshold whenever the count is a multiple of the setting.
\<close>

section \<open>The frames of the handlers\<close>

lemma parkAndFlagTx_rel:
  assumes fr: "tx_frame R" and tr: "\<And>rid to opts. tx_rel R (TransitionTx (wd_env wd) rid to opts)"
    and ap: "\<And>cfg now a. neutral_type (ap_type a) \<Longrightarrow> tx_rel R (AppendTx cfg now a)"
  shows "tx_rel R (parkAndFlagTx wd rid trig ref)"
  unfolding parkAndFlagTx_def watch_append_def getTx_def
  by (auto intro!: tx_frame.rel_bind [OF fr] tx_frame.rel_some [OF fr] tx_frame.rel_return [OF fr] tr ap
      split: prod.split)

lemma watch_evolves: "hook_ok (wd_env wd) \<Longrightarrow> watch_frame evolves wd"
  unfolding watch_frame_def
  by (auto intro!: parkAndFlagTx_rel TransitionTx_evolves CheckpointTx_evolves AppendTx_evolves CreateTx_evolves
      evolve.tx_frame_axioms simp: platform_run_def int64_max_def)

lemma watch_platform: "hook_frame sha (wd_env wd) \<Longrightarrow> watch_frame (platform_keeps sha) wd"
  unfolding watch_frame_def
  by (auto intro!: parkAndFlagTx_rel TransitionTx_platform basic_platform platform.tx_frame_axioms
      simp: platform_run_def int64_max_def)

section \<open>The order of the log\<close>

lemma newest_first_rev:
  assumes "log_ordered s"
  shows "newest_first rid s = rev (filter (\<lambda>e. rid \<noteq> [] \<and> ev_run e = rid) (t_events s))"
proof -
  have rv: "sorted_wrt (<) (map ev_seq es) \<Longrightarrow> sort_key (\<lambda>e. - ev_seq e) es = rev es" for es
    by (induction es rule: rev_induct) (auto simp: sorted_wrt_append sort_key_snoc_min)
  have "sorted_wrt (<) (map ev_seq (filter p (t_events s)))" for p
    using assms by (simp add: log_ordered_def sorted_wrt_map sorted_wrt_filter)
  then show ?thesis unfolding newest_first_def by (rule rv)
qed

lemma log_ordered_snoc:
  "log_ordered s \<Longrightarrow> t_events t = t_events s @ [e] \<Longrightarrow> ev_seq e = next_rowid (map ev_seq (t_events s)) \<Longrightarrow>
   log_ordered t \<and> (\<forall>x\<in>set (t_events s). ev_seq x < ev_seq e)"
  by (auto simp: log_ordered_def sorted_wrt_append next_rowid_pos next_rowid_gt)

lemma newest_first_ext:
  assumes "log_ordered u" "log_ordered t" "t_events u = t_events t @ new"
  shows "newest_first rid u = rev (filter (\<lambda>e. rid \<noteq> [] \<and> ev_run e = rid) new) @ newest_first rid t"
  using assms by (simp add: newest_first_rev)

section \<open>A flag stands\<close>

lemma flag_event_open:
  assumes "log_ordered s" "t_events t = t_events s @ [flag_event wd cur trig ref parked s]"
    and "trigger_ok trig" "tr_rule trig \<noteq> []" "\<forall>q. ref = Some q \<longrightarrow> in64 q" "run_id cur \<noteq> []"
  shows "openFlagExists (run_id cur) (tr_rule trig) t \<and> log_ordered t"
proof -
  let ?f = "flag_event wd cur trig ref parked s"
  have f: "ev_run ?f = run_id cur" "ev_type ?f = EventFlagged" "flag_class (ev_payload ?f) = tr_rule trig"
    "ev_seq ?f = next_rowid (map ev_seq (t_events s))"
    using flag_class_payload [OF assms(3,5,4)] by (simp_all add: flag_event_def new_event_def run_append_def)
  note ord = log_ordered_snoc [OF assms(1,2) f(4)]
  have "newest_first (run_id cur) t = ?f # newest_first (run_id cur) s"
    using newest_first_append [OF assms(2)] ord f(1) assms(6) by simp
  then have "latestFlagSeq (run_id cur) (tr_rule trig) t = Some (ev_seq ?f)" using f by (simp add: latestFlagSeq_def)
  moreover have "\<not> supersededAfter (run_id cur) (tr_rule trig) (ev_seq ?f) t"
    using ord by (auto simp: supersededAfter_def list_ex_iff assms(2) dest: less_asym)
  ultimately show ?thesis using ord by (simp add: openFlagExists_def)
qed

lemma transition_db_ordered:
  assumes "log_ordered s"
  shows "log_ordered (transition_db env cur to payload s)"
proof -
  have "t_events (transition_db env cur to payload s) = t_events s @
      [transition_event env cur to payload (next_rowid (map ev_seq (t_events s)))]"
    by (simp add: transition_db_def)
  from log_ordered_snoc [OF assms this] show ?thesis by (simp add: transition_event_def new_event_def)
qed

lemma parkAndFlag_open:
  assumes "parkAndFlag wd rid trig ref s = (Inr (), t)" "good s"
    and "trigger_ok trig" "tr_rule trig \<noteq> []" "\<forall>q. ref = Some q \<longrightarrow> in64 q"
  shows "openFlagExists rid (tr_rule trig) t \<and> log_ordered t"
proof -
  have ord: "log_ordered s" using assms(2) by (simp add: good_def)
  obtain x where "parkAndFlagTx wd rid trig ref s = Inr (x, t)"
    using assms(1) by (cases "parkAndFlagTx wd rid trig ref s") (auto simp: parkAndFlag_def write_tx_def split: sum.splits prod.splits)
  then show ?thesis
  proof (rule parkAndFlagTx_Inr)
    fix cur assume c: "find_run rid s = Some cur" "t = s\<lparr>t_events := t_events s @ [flag_event wd cur trig ref False s]\<rparr>"
    have "run_id cur = rid" "rid \<noteq> []"
      using find_run_Some [OF c(1)] good_run [OF assms(2) c(1)] by (auto simp: run_checks_def)
    then show ?thesis using flag_event_open [OF ord _ assms(3-5), of t wd cur False] c(2) by simp
  next
    fix cur payload u
    assume c: "find_run rid s = Some cur" "u = transition_db (wd_env wd) cur StateParked payload s"
      "t = u\<lparr>t_events := t_events u @ [flag_event wd cur trig ref True u]\<rparr>"
    have "run_id cur = rid" "rid \<noteq> []"
      using find_run_Some [OF c(1)] good_run [OF assms(2) c(1)] by (auto simp: run_checks_def)
    moreover have "log_ordered u" unfolding c(2) by (rule transition_db_ordered [OF ord])
    ultimately show ?thesis using flag_event_open [OF _ _ assms(3-5), of u t wd cur True] c(3) by simp
  qed
qed

lemma found_in_set: "find p xs = Some x \<Longrightarrow> x \<in> set xs \<and> p x"
  by (auto simp: find_Some_iff)

text \<open>An open flag stays open while nothing of the run clears it.\<close>

lemma open_stands:
  assumes "openFlagExists rid cls t" "log_ordered t" "log_ordered u" "t_events u = t_events t @ new"
    and quiet: "\<forall>e\<in>set new. ev_run e = rid \<longrightarrow> \<not> supersedes cls e"
  shows "openFlagExists rid cls u"
proof -
  let ?p = "\<lambda>e. ev_type e = EventFlagged \<and> flag_class (ev_payload e) = cls"
  let ?q = "\<lambda>e. rid \<noteq> [] \<and> ev_run e = rid"
  obtain f where f: "find ?p (newest_first rid t) = Some f" "\<not> supersededAfter rid cls (ev_seq f) t"
    using assms(1) by (auto simp: openFlagExists_def latestFlagSeq_def split: option.splits)
  from found_in_set [OF f(1)] have "f \<in> set (t_events t)" by (simp add: set_newest_first)
  have above: "\<forall>x\<in>set (t_events t). \<forall>e\<in>set new. ev_seq x < ev_seq e"
    using assms(3) by (auto simp: log_ordered_def assms(4) sorted_wrt_append)
  obtain g where g: "find ?p (newest_first rid u) = Some g" "g = f \<or> g \<in> set new"
  proof (cases "find ?p (rev (filter ?q new))")
    case None
    with f(1) that [of f] show thesis by (simp add: newest_first_ext [OF assms(3,2,4)] find_append)
  next
    case (Some h)
    from found_in_set [OF Some] have "h \<in> set new" by simp
    with Some that [of h] show thesis by (simp add: newest_first_ext [OF assms(3,2,4)] find_append)
  qed
  have le: "ev_seq f \<le> ev_seq g" using g(2) above \<open>f \<in> set (t_events t)\<close> by (auto intro: less_imp_le)
  have "\<not> (rid \<noteq> [] \<and> ev_run e = rid \<and> ev_seq e > ev_seq g \<and> supersedes cls e)" if "e \<in> set (t_events u)" for e
  proof (cases "e \<in> set new")
    case True
    with quiet show ?thesis by blast
  next
    case False
    with that have e: "e \<in> set (t_events t)" by (simp add: assms(4))
    show ?thesis
    proof
      assume h: "rid \<noteq> [] \<and> ev_run e = rid \<and> ev_seq e > ev_seq g \<and> supersedes cls e"
      with le have "ev_seq f < ev_seq e" by simp
      with h e f(2) show False unfolding supersededAfter_def list_ex_iff by blast
    qed
  qed
  then have "\<not> supersededAfter rid cls (ev_seq g) u" unfolding supersededAfter_def list_ex_iff by blast
  with g(1) show ?thesis by (simp add: openFlagExists_def latestFlagSeq_def)
qed

lemma annotation_ref:
  assumes fr: "watch_frame evolves wd" and "good s" and "annotate wd r trig events a s = (Some q, a', t)"
  shows "\<exists>e\<in>set (t_events t). ev_seq e = q"
proof -
  have on: "\<exists>e\<in>set (t_events u). ev_seq e = q" if m: "annotate_on wd m r trig events a s = (Some q, a', u)" for m s u
  proof -
    obtain res b v where d: "DutyCall (wd_duty wd) m (annotation_request r trig events) a s = (res, b, v)"
      by (metis prod.exhaust)
    from m d show ?thesis
      by (auto simp: annotate_on_def appendAnnotation_def watch_append_def write_tx_def AppendTx_Inr new_event_def
          split: sum.splits prod.splits) 
  qed
  show ?thesis
  proof (cases "annotate_on wd (run_id r) r trig events a s = (Some q, a', t)")
    case False
    with assms(3) obtain x v u where m: "advisoryMeter (wd_env wd) ''watchdog-disambiguator'' s = (Inr x, v)"
      "annotate_on wd x r trig events a v = (Some q, a', u)" "t = settle_advisory (wd_env wd) x u"
      by (auto simp: annotate_def split: if_splits sum.splits prod.splits)
    have own: "own_run x" using m(1) by (auto simp: advisoryMeter_def Let_def split: sum.splits prod.splits)
    have "evolves s v"
      using start_platform_run_frame [OF fr own_names(1) [of "wd_env wd" "''watchdog-disambiguator''"], of s] m(1)
      by (auto simp: advisoryMeter_def Let_def split: sum.splits prod.splits)
    with assms(2) have "good v" by (simp add: evolves_def)
    then have "good u" using annotate_on_frame [OF fr, of v x r trig events a] m(2) by (simp add: evolves_def)
    moreover have "evolves u t" using frame_parts(4) [OF fr own, of u StateCompleted "platform_options []"] m(3)
      by (simp add: settle_advisory_def)
    ultimately have "log_extends u t" by (simp add: evolves_def progress_def)
    with on [OF m(2)] show ?thesis by (auto simp: log_extends_def)
  qed (rule on)
qed

lemma flag_open:
  assumes "flag wd r trig a s = (Inr (), a', t)" "good s" "hook_ok (wd_env wd)"
    and "trigger_ok trig" "tr_rule trig \<noteq> []" "\<forall>e\<in>set (t_events t). ev_seq e \<le> int64_max"
  shows "openFlagExists (run_id r) (tr_rule trig) t \<and> log_ordered t"
proof (cases "openFlagExists (run_id r) (tr_rule trig) s")
  case True
  with assms(1,2) show ?thesis by (simp add: flag_def good_def)
next
  case False
  note fr = watch_evolves [OF assms(3)]
  obtain ref b u where m: "(if annotatable (tr_rule trig)
      then annotate wd r trig (readRecentEvents (run_id r) (run_generation r) recentWindow s) a s
      else (None, a, s)) = (ref, b, u)" by (metis prod.exhaust)
  have "evolves s u"
    using annotate_frame [OF fr, of s r trig "readRecentEvents (run_id r) (run_generation r) recentWindow s" a] m
      evolve.frame_refl [of s] by (auto split: if_splits)
  with assms(2) have gu: "good u" by (simp add: evolves_def)
  from False m assms(1) have p: "parkAndFlag wd (run_id r) trig ref u = (Inr (), t)"
    by (auto simp: flag_def split: prod.splits)
  have "evolves u t" using frame_parts(3) [OF fr, of u "run_id r" trig ref] p by simp
  with gu have ext: "log_extends u t" by (simp add: evolves_def progress_def)
  have "in64 q" if q: "ref = Some q" for q
  proof -
    have "annotate wd r trig (readRecentEvents (run_id r) (run_generation r) recentWindow s) a s = (Some q, b, u)"
      using m q by (auto split: if_splits)
    from annotation_ref [OF fr assms(2) this] obtain e where e: "e \<in> set (t_events u)" "ev_seq e = q" by blast
    then have "0 < q" using gu by (auto simp: good_def log_ordered_def)
    moreover have "q \<le> int64_max" using e ext assms(6) by (auto simp: log_extends_def)
    ultimately show ?thesis by (simp add: in64_def int64_min_def)
  qed
  then show ?thesis using parkAndFlag_open [OF p gu assms(4,5)] by blast
qed

text \<open>
  C23: one flag stands per run and rule.  Once a flag of a run is written it is open, and as long as
  nothing of that run clears it (a suppression of the rule or a move to running), flagging the same run
  for the same rule again, from any later state and with any evidence, writes nothing and asks no model.
\<close>

theorem one_flag_stands:
  assumes "flag wd r trig a s = (Inr (), a', t)" "good s" "hook_ok (wd_env wd)"
    and "trigger_ok trig" "tr_rule trig \<noteq> []" "\<forall>e\<in>set (t_events t). ev_seq e \<le> int64_max"
    and "log_ordered u" "t_events u = t_events t @ new"
    and "\<forall>e\<in>set new. ev_run e = run_id r \<longrightarrow> \<not> supersedes (tr_rule trig) e"
    and "run_id r' = run_id r" "tr_rule trig' = tr_rule trig"
  shows "flag wd' r' trig' b u = (Inr (), b, u)"
proof -
  from flag_open [OF assms(1-6)] have "openFlagExists (run_id r) (tr_rule trig) t" "log_ordered t" by simp_all
  from open_stands [OF this assms(7-9)] show ?thesis using assms(10,11) by (simp add: flag_def)
qed

definition sample_trigger :: trigger where
  "sample_trigger = plain_trigger RuleSilence [] [] []"

definition sample_flagged :: "run_row \<Rightarrow> (error + unit) \<times> admitter \<times> db" where
  "sample_flagged r = flag sample_watch r sample_trigger new_admitter sample_running"

lemmas flag_eval = flag_def openFlagExists_def latestFlagSeq_def newest_first_def annotatable_def
  rule_defs sample_trigger_def plain_trigger_def parkAndFlag_def parkAndFlagTx_def watch_append_def
  platform_options_def flag_payload_def opt_int_def opt_bool_def spend_json_def counts_json_def
  severityFor_def SeverityFlagNow_def SeverityDailyDigest_def EventFlagged_def sample_watch_def tx_guard_def ActorPlatform_def

lemma sample_flag_written:
  assumes "run_id r = ''r''"
  shows "fst (sample_flagged r) = Inr () \<and> (\<forall>e\<in>set (t_events (snd (snd (sample_flagged r)))). ev_seq e \<le> int64_max)"
  using assms
  by (simp add: sample_flagged_def flag_eval sample_running_def tx_eval json_eval append_eval run_eval sample_eval
      cong: tx_bind_weak)

theorem one_flag_stands_witness:
  "\<exists>r t. find_run ''r'' sample_running = Some r \<and> sample_flagged r = (Inr (), new_admitter, t) \<and>
     flag sample_watch r sample_trigger new_admitter t = (Inr (), new_admitter, t)"
proof -
  from sample_states(1) obtain r where r: "find_run ''r'' sample_running = Some r" by auto
  from find_run_Some [OF r] have rid: "run_id r = ''r''" by simp
  obtain b t where f: "flag sample_watch r sample_trigger new_admitter sample_running = (Inr (), b, t)"
    using sample_flag_written [OF rid] by (cases "sample_flagged r") (auto simp: sample_flagged_def)
  have b: "b = new_admitter"
    using f by (auto simp: flag_def annotatable_def sample_trigger_def plain_trigger_def rule_defs split: if_splits prod.splits)
  have good: "good sample_running" by (simp add: sample_running_def sample_good)
  have hook: "hook_ok (wd_env sample_watch)" using hook_frame_ok [OF sample_env_frame] by simp
  have tr: "trigger_ok sample_trigger" "tr_rule sample_trigger \<noteq> []"
    by (simp_all add: trigger_ok_def sample_trigger_def plain_trigger_def rule_defs)
  have seqs: "\<forall>e\<in>set (t_events t). ev_seq e \<le> int64_max"
    using sample_flag_written [OF rid] f by (simp add: sample_flagged_def)
  have ord: "log_ordered t" using flag_open [OF f good hook tr seqs] by simp
  have "flag sample_watch r sample_trigger new_admitter t = (Inr (), new_admitter, t)"
    by (rule one_flag_stands [OF f good hook tr seqs ord, of "[]"]) simp_all
  with r f b show ?thesis by (auto simp: sample_flagged_def)
qed

section \<open>Suppression\<close>

lemma watch_types_distinct [simp]:
  "EventFlagged \<noteq> EventSuppressed" "EventSuppressed \<noteq> EventFlagged"
  by (simp_all add: EventFlagged_def EventSuppressed_def)

lemma suppressed_rule:
  "in64 n \<Longrightarrow> firstString (suppress_payload rule actor n p) [''rule''] = rule"
  by (simp add: firstString_def suppress_payload_def decodeObject_def)

lemma suppressCount_snoc:
  "t_events t = t_events s @ [e] \<Longrightarrow> suppressCount base t = suppressCount base s +
     (if ev_type e = EventSuppressed \<and> baseRule (firstString (ev_payload e) [''rule'']) = base then 1 else 0)"
  by (simp add: suppressCount_def)

text \<open>The run-less flags, like those of a run.\<close>

definition ownerless_class :: "string \<Rightarrow> event_row \<Rightarrow> bool" where
  "ownerless_class cls e \<longleftrightarrow> ev_run e = [] \<and> ev_type e = EventFlagged \<and> flag_class (ev_payload e) = cls"

lemma ownerless_newest_snoc:
  assumes "t_events t = t_events s @ [e]" "\<forall>x\<in>set (t_events s). ev_seq x < ev_seq e"
  shows "ownerless_newest t = (if ev_run e = [] then [e] else []) @ ownerless_newest s"
  using assms by (simp add: ownerless_newest_def sort_key_snoc_min)

lemma newest_set: "e \<in> set (ownerless_newest s) \<longleftrightarrow> e \<in> set (t_events s) \<and> ev_run e = []"
  by (auto simp: ownerless_newest_def)

lemma suppressed_not_open:
  fixes s t :: db
  assumes "t_events t = t_events s @ [e]" "\<forall>x\<in>set (t_events s). ev_seq x < ev_seq e"
    and e: "ev_type e = EventSuppressed" "firstString (ev_payload e) [''rule''] = rule"
  shows "ev_run e = rid \<Longrightarrow> rid \<noteq> [] \<Longrightarrow> \<not> openFlagExists rid rule t"
    and "ev_run e = [] \<Longrightarrow> \<not> openOwnerlessFlagExists rule t"
proof -
  assume rid: "ev_run e = rid" "rid \<noteq> []"
  have "supersededAfter rid rule q t" if q: "latestFlagSeq rid rule t = Some q" for q
  proof -
    have nf: "newest_first rid t = e # newest_first rid s" using newest_first_append [OF assms(1,2)] rid by simp
    with q e(1) obtain f where f: "find (\<lambda>e. ev_type e = EventFlagged \<and> flag_class (ev_payload e) = rule)
        (newest_first rid s) = Some f" "ev_seq f = q" by (auto simp: latestFlagSeq_def)
    from found_in_set [OF f(1)] have "f \<in> set (t_events s)" by (simp add: set_newest_first)
    with assms(2) f(2) have "q < ev_seq e" by auto
    with e rid show ?thesis by (simp add: supersededAfter_def assms(1) supersedes_def)
  qed
  then show "\<not> openFlagExists rid rule t" by (simp add: openFlagExists_def split: option.split)
next
  assume rid: "ev_run e = []"
  let ?p = "\<lambda>e. ev_type e = EventFlagged \<and> flag_class (ev_payload e) = rule"
  show "\<not> openOwnerlessFlagExists rule t"
  proof (cases "find ?p (ownerless_newest t)")
    case (Some f)
    have "ownerless_newest t = e # ownerless_newest s" using ownerless_newest_snoc [OF assms(1,2)] rid by simp
    with Some e(1) have "find ?p (ownerless_newest s) = Some f" by simp
    from found_in_set [OF this] have "f \<in> set (t_events s)" by (simp add: newest_set)
    with assms(2) e rid Some show ?thesis by (auto simp: openOwnerlessFlagExists_def assms(1))
  qed (simp add: openOwnerlessFlagExists_def)
qed

lemma ownerlessFlag_cases:
  assumes "ownerlessFlag wd user trig class s = (Inr (), t)"
  obtains (stood) "openOwnerlessFlagExists class s" "t = s"
  | (written) e where "t = s\<lparr>t_events := t_events s @ [e]\<rparr>" "ev_run e = []" "ev_type e = EventFlagged"
      "ev_payload e = flag_payload wd trig class None False" "ev_seq e = next_rowid (map ev_seq (t_events s))"
proof (cases "openOwnerlessFlagExists class s")
  case False
  with assms obtain q where "watch_append wd (user_append user EventFlagged (flag_payload wd trig class None False)) s = Inr (q, t)"
    by (auto simp: ownerlessFlag_def write_tx_def split: sum.splits prod.splits)
  then show thesis by (intro written) (auto simp: watch_append_def AppendTx_Inr new_event_def user_append_def)
next
  case True
  with assms show thesis by (intro stood) (simp_all add: ownerlessFlag_def)
qed

lemma ownerlessFlag_open:
  assumes "ownerlessFlag wd user trig class s = (Inr (), t)" "log_ordered s" "trigger_ok trig" "class \<noteq> []"
  shows "openOwnerlessFlagExists class t"
  using assms(1)
proof (rule ownerlessFlag_cases)
  fix e assume t: "t = s\<lparr>t_events := t_events s @ [e]\<rparr>" "ev_run e = []" "ev_type e = EventFlagged"
    "ev_payload e = flag_payload wd trig class None False" "ev_seq e = next_rowid (map ev_seq (t_events s))"
  have ev: "t_events t = t_events s @ [e]" by (simp add: t(1))
  note ord = log_ordered_snoc [OF assms(2) ev t(5)]
  have "flag_class (ev_payload e) = class" using flag_class_payload [OF assms(3) _ assms(4), of None] t(4) by simp
  with ownerless_newest_snoc [OF ev] ord t(2,3)
  have "find (\<lambda>e. ev_type e = EventFlagged \<and> flag_class (ev_payload e) = class) (ownerless_newest t) = Some e" by simp
  then show ?thesis
    using ord by (auto simp: openOwnerlessFlagExists_def list_ex_iff ev dest: less_asym)
qed simp

text \<open>What a successful suppression wrote: its event, then at most the proposal's card.\<close>

lemma Suppress_cases:
  assumes "Suppress wd actor rid rule s = (Inr (), t)"
  obtains e u n where "set_int (env_settings (wd_env wd)) keySuppressRetune = Some n"
    "u = s\<lparr>t_events := t_events s @ [e]\<rparr>" "ev_seq e = next_rowid (map ev_seq (t_events s))"
    "ev_run e = rid" "ev_type e = EventSuppressed"
    "ev_payload e = suppress_payload rule actor (suppressCount (baseRule rule) s + 1)
       (n > 0 \<and> (suppressCount (baseRule rule) s + 1) mod n = 0 \<and> retuneKeyFor (baseRule rule) \<noteq> [])"
    "if n > 0 \<and> (suppressCount (baseRule rule) s + 1) mod n = 0 \<and> retuneKeyFor (baseRule rule) \<noteq> []
     then proposeRetune wd (baseRule rule) (suppressCount (baseRule rule) s + 1) u = (Inr (), t) else t = u"
proof -
  let ?n = "suppressCount (baseRule rule) s + 1"
  obtain n where n: "set_int (env_settings (wd_env wd)) keySuppressRetune = Some n"
    using assms by (cases "set_int (env_settings (wd_env wd)) keySuppressRetune") (auto simp: Suppress_def read_int_def)
  define propose where "propose = (n > 0 \<and> ?n mod n = 0 \<and> retuneKeyFor (baseRule rule) \<noteq> [])"
  obtain ap where ap: "suppress_append rid (suppress_payload rule actor ?n propose) s = Inr ap"
    using assms n by (cases "suppress_append rid (suppress_payload rule actor ?n propose) s")
      (auto simp: Suppress_def Let_def read_int_def propose_def)
  obtain q u where w: "watch_append wd ap s = Inr (q, u)"
    using assms n ap by (cases "watch_append wd ap s") (auto simp: Suppress_def Let_def read_int_def propose_def write_tx_def)
  have t: "if propose then proposeRetune wd (baseRule rule) ?n u = (Inr (), t) else t = u"
    using assms n ap w by (simp add: Suppress_def Let_def read_int_def propose_def [symmetric] split: if_splits)
  have e: "u = s\<lparr>t_events := t_events s @ [new_event q (env_now (wd_env wd)) ap]\<rparr>"
    "q = next_rowid (map ev_seq (t_events s))"
    using w by (auto simp: watch_append_def AppendTx_Inr)
  have f: "ap_run ap = rid" "ap_type ap = EventSuppressed" "ap_payload ap = suppress_payload rule actor ?n propose"
    using ap by (auto simp: suppress_append_def user_append_def run_append_def split: if_splits sum.splits)
  show thesis
    by (rule that [OF n e(1)]) (use e(2) f t in \<open>simp_all add: new_event_def propose_def\<close>)
qed

lemma propose_keeps:
  fixes s t :: db
  assumes "proposeRetune wd base n s = (Inr (), t)" "log_ordered s" "rule \<noteq> RuleRetuneProposal @ '':'' @ retuneKeyFor base"
    and "in64 n"
  shows "suppressCount b t = suppressCount b s \<and> t_runs t = t_runs s \<and>
    (openFlagExists rid rule t \<longrightarrow> openFlagExists rid rule s) \<and>
    (openOwnerlessFlagExists rule t \<longrightarrow> openOwnerlessFlagExists rule s)"
proof (cases "retuneKeyFor base = []")
  case True
  with assms(1) show ?thesis by (simp add: proposeRetune_def)
next
  case False
  define cls where "cls = RuleRetuneProposal @ '':'' @ retuneKeyFor base"
  from assms(1) False have "ownerlessFlag wd ActorPlatform (retune_trigger base n (retuneKeyFor base)) cls s = (Inr (), t)"
    by (simp add: proposeRetune_def Let_def cls_def)
  then show ?thesis
  proof (rule ownerlessFlag_cases)
    fix e assume t: "t = s\<lparr>t_events := t_events s @ [e]\<rparr>" "ev_run e = []" "ev_type e = EventFlagged"
      "ev_payload e = flag_payload wd (retune_trigger base n (retuneKeyFor base)) cls None False"
      "ev_seq e = next_rowid (map ev_seq (t_events s))"
    have ev: "t_events t = t_events s @ [e]" by (simp add: t(1))
    note ord = log_ordered_snoc [OF assms(2) ev t(5)]
    have kind: "flag_class (ev_payload e) = cls"
      unfolding t(4) by (rule flag_class_payload)
        (simp_all add: retune_trigger_def plain_trigger_def trigger_ok_def assms(4) cls_def)
    have "newest_first rid t = newest_first rid s"
      using newest_first_append [OF ev, of rid] ord t(2) by (cases "rid = []") simp_all
    then have run: "latestFlagSeq rid rule t = latestFlagSeq rid rule s" by (simp add: latestFlagSeq_def)
    have sup: "supersededAfter rid rule q t = supersededAfter rid rule q s" for q
      using t(2) by (auto simp: supersededAfter_def ev)
    have "ownerless_newest t = e # ownerless_newest s" using ownerless_newest_snoc [OF ev] ord t(2) by simp
    with kind assms(3) have own: "find (\<lambda>e. ev_type e = EventFlagged \<and> flag_class (ev_payload e) = rule) (ownerless_newest t) =
        find (\<lambda>e. ev_type e = EventFlagged \<and> flag_class (ev_payload e) = rule) (ownerless_newest s)"
      by (simp add: cls_def)
    have "suppressCount b t = suppressCount b s" using t(3) by (simp add: suppressCount_snoc [OF ev])
    moreover have "openFlagExists rid rule t = openFlagExists rid rule s" by (simp add: openFlagExists_def run sup split: option.split)
    moreover have "openOwnerlessFlagExists rule t = openOwnerlessFlagExists rule s"
      using t(3) by (simp add: openOwnerlessFlagExists_def own ev split: option.split)
    ultimately show ?thesis by (simp add: t(1))
  qed simp
qed

lemma base_of_retune: "rule = RuleRetuneProposal @ '':'' @ key \<Longrightarrow> retuneKeyFor (baseRule rule) = []"
  by (simp add: baseRule_def retuneKeyFor_def rule_defs)

text \<open>
  C39: a suppression clears, counts, and proposes.  A successful suppression of a rule appends its event,
  under the run it names, raises the count of its base rule by one and closes the flag it names (of the
  run, or without a run).  When the new count is a multiple of the setting and the rule has a threshold of
  its own, a card proposing to raise it stands open afterwards, which takes at most one more event;
  otherwise nothing but the suppression is written.  In both cases the log keeps what it held, and no other
  table changes.
\<close>

theorem suppress_clears_and_counts:
  assumes "Suppress wd actor rid rule s = (Inr (), t)" "log_ordered s"
    and "suppressCount (baseRule rule) s < int64_max"
  shows "suppressCount (baseRule rule) t = suppressCount (baseRule rule) s + 1 \<and>
    (if rid = [] then \<not> openOwnerlessFlagExists rule t else \<not> openFlagExists rid rule t) \<and>
    (\<exists>n e. set_int (env_settings (wd_env wd)) keySuppressRetune = Some n \<and>
      ev_run e = rid \<and> ev_type e = EventSuppressed \<and> firstString (ev_payload e) [''rule''] = rule \<and>
      (if n > 0 \<and> (suppressCount (baseRule rule) s + 1) mod n = 0 \<and> retuneKeyFor (baseRule rule) \<noteq> []
       then openOwnerlessFlagExists (RuleRetuneProposal @ '':'' @ retuneKeyFor (baseRule rule)) t \<and>
         (\<exists>card. t = s\<lparr>t_events := t_events s @ e # card\<rparr> \<and> length card \<le> 1 \<and>
            (\<forall>c\<in>set card. ev_run c = [] \<and> ev_type c = EventFlagged))
       else t = s\<lparr>t_events := t_events s @ [e]\<rparr>))"
  using assms(1)
proof (rule Suppress_cases)
  fix e u n
  let ?n = "suppressCount (baseRule rule) s + 1"
  assume n: "set_int (env_settings (wd_env wd)) keySuppressRetune = Some n"
    and us: "u = s\<lparr>t_events := t_events s @ [e]\<rparr>" and seq: "ev_seq e = next_rowid (map ev_seq (t_events s))"
    and e: "ev_run e = rid" "ev_type e = EventSuppressed"
      "ev_payload e = suppress_payload rule actor ?n (n > 0 \<and> ?n mod n = 0 \<and> retuneKeyFor (baseRule rule) \<noteq> [])"
    and t: "if n > 0 \<and> ?n mod n = 0 \<and> retuneKeyFor (baseRule rule) \<noteq> []
      then proposeRetune wd (baseRule rule) ?n u = (Inr (), t) else t = u"
  have u: "t_events u = t_events s @ [e]" by (simp add: us)
  have "0 \<le> suppressCount (baseRule rule) s" by (simp add: suppressCount_def)
  with assms(3) have fits: "in64 ?n" by (simp add: in64_def int64_min_def)
  have ord: "log_ordered u" "\<forall>x\<in>set (t_events s). ev_seq x < ev_seq e" using log_ordered_snoc [OF assms(2) u seq] by auto
  have named: "firstString (ev_payload e) [''rule''] = rule" by (simp only: e(3) suppressed_rule [OF fits])
  have count: "suppressCount (baseRule rule) u = ?n" by (simp add: suppressCount_snoc [OF u] e(2) named)
  have closed: "if rid = [] then \<not> openOwnerlessFlagExists rule u else \<not> openFlagExists rid rule u"
    using suppressed_not_open [OF u ord(2) e(2) named] e(1) by auto
  show ?thesis
  proof (cases "n > 0 \<and> ?n mod n = 0 \<and> retuneKeyFor (baseRule rule) \<noteq> []")
    case True
    with t have p: "proposeRetune wd (baseRule rule) ?n u = (Inr (), t)" by simp
    have "rule \<noteq> RuleRetuneProposal @ '':'' @ retuneKeyFor (baseRule rule)" using True base_of_retune by metis
    from propose_keeps [OF p ord(1) this fits, of "baseRule rule" rid] count closed
    have "suppressCount (baseRule rule) t = ?n"
      "if rid = [] then \<not> openOwnerlessFlagExists rule t else \<not> openFlagExists rid rule t" by auto
    moreover have "openOwnerlessFlagExists (RuleRetuneProposal @ '':'' @ retuneKeyFor (baseRule rule)) t"
      using p True by (intro ownerlessFlag_open [OF _ ord(1)])
        (auto simp: proposeRetune_def Let_def retune_trigger_def plain_trigger_def trigger_ok_def fits)
    moreover from p True have "ownerlessFlag wd ActorPlatform (retune_trigger (baseRule rule) ?n (retuneKeyFor (baseRule rule)))
        (RuleRetuneProposal @ '':'' @ retuneKeyFor (baseRule rule)) u = (Inr (), t)"
      by (simp add: proposeRetune_def Let_def)
    then have "\<exists>card. t = s\<lparr>t_events := t_events s @ e # card\<rparr> \<and> length card \<le> 1 \<and>
        (\<forall>c\<in>set card. ev_run c = [] \<and> ev_type c = EventFlagged)"
    proof (rule ownerlessFlag_cases)
      assume "t = u"
      then show ?thesis by (intro exI [of _ "[]"]) (simp add: us)
    next
      fix c assume "t = u\<lparr>t_events := t_events u @ [c]\<rparr>" "ev_run c = []" "ev_type c = EventFlagged"
      then show ?thesis by (intro exI [of _ "[c]"]) (simp add: us)
    qed
    ultimately show ?thesis using n True e(1,2) named by (intro conjI exI [of _ n] exI [of _ e]) simp_all
  next
    case False
    with t have tu: "t = u" by (simp only: if_False)
    have new: "t = s\<lparr>t_events := t_events s @ [e]\<rparr>" by (simp only: tu us)
    have "(if rid = [] then \<not> openOwnerlessFlagExists rule t else \<not> openFlagExists rid rule t)"
      "suppressCount (baseRule rule) t = ?n" unfolding tu by (fact closed, fact count)
    then show ?thesis
      by (intro conjI exI [of _ n] exI [of _ e]) (assumption | rule n e named | (subst if_not_P [OF False], rule new))+
  qed
qed

theorem suppress_clears_and_counts_witness:
  "\<exists>t. Suppress sample_watch ''ann'' [] RuleLoop sample_running = (Inr (), t) \<and> \<not> openOwnerlessFlagExists RuleLoop t"
proof -
  obtain r t where f: "Suppress sample_watch ''ann'' [] RuleLoop sample_running = (r, t)" by fastforce
  have "fst (Suppress sample_watch ''ann'' [] RuleLoop sample_running) = Inr ()"
    by (simp add: Suppress_def suppress_append_def suppressCount_def baseRule_def rule_defs EventSuppressed_def
        suppress_payload_def user_append_def sample_watch_def watch_append_def keySuppressRetune_def ActorPlatform_def
        retuneKeyFor_def json_int_def dec_int_def dec_nat.simps digit_char_def sample_running_def tx_eval json_eval append_eval run_eval sample_eval cong: tx_bind_weak)
  with f have ok: "Suppress sample_watch ''ann'' [] RuleLoop sample_running = (Inr (), t)" by simp
  have ord: "log_ordered sample_running" using sample_good by (simp add: sample_running_def good_def)
  have "suppressCount (baseRule RuleLoop) sample_running < int64_max"
    by (simp add: suppressCount_def EventSuppressed_def int64_max_def sample_running_def tx_eval json_eval append_eval
        run_eval sample_eval cong: tx_bind_weak)
  from suppress_clears_and_counts [OF ok ord this] ok show ?thesis by simp
qed

end
