(* ===== verification/Watch_Deadman.thy ===== *)
theory Watch_Deadman
  imports Watch_Standing Run_Properties Recovery_Properties
begin

text \<open>
  The watchdog and the rest of the platform: the silence rule against the recovery pass, and the
  dead-man probe against the counters it is meant to exercise.
\<close>

section \<open>Silence and recovery\<close>

lemma newest_is_last:
  "run_id r \<noteq> [] \<Longrightarrow> newest_first (run_id r) s = e # es \<Longrightarrow> lastRunEvent r s = (ev_time e, ev_type e)"
  by (simp add: lastRunEvent_def newest_first_def)

lemma holderGone_iff:
  "holderGone r now silent dead \<longleftrightarrow> run_state r \<in> {StateRunning, StateDraining} \<and> silent > dead \<and> leaseDead now 0 r"
  by (auto simp: holderGone_def leaseDead_def)

lemma silence_of_Some:
  assumes "silence_of se budgets seed r s = Some trig"
  obtains e es where "newest_first (run_id r) s = e # es"
    "trig = silence_trigger se r (time_sub (sw_now se) (ev_time e)) (silence_budget budgets seed r) seed"
  using assms by (auto simp: silence_of_def newestEventTS_def Let_def split: if_splits option.splits list.splits)

text \<open>A silence trigger that asks for no park flags alone; its event becomes the run's newest.\<close>

lemma nopark_flag:
  assumes "flag wd r trig a s = (Inr (), a', t)" "\<not> openFlagExists (run_id r) (tr_rule trig) s"
    and "tr_nopark trig" "tr_rule trig = RuleSilence" "find_run (run_id r) s = Some r"
  shows "t = s\<lparr>t_events := t_events s @ [flag_event wd r trig None False s]\<rparr>"
proof -
  have "\<not> annotatable RuleSilence" by (simp add: annotatable_def rule_defs)
  with assms(1,2,4) have "parkAndFlag wd (run_id r) trig None s = (Inr (), t)"
    by (auto simp: flag_def split: prod.splits)
  then obtain x where "parkAndFlagTx wd (run_id r) trig None s = Inr (x, t)"
    by (cases "parkAndFlagTx wd (run_id r) trig None s") (auto simp: parkAndFlag_def write_tx_def split: sum.splits prod.splits)
  then show ?thesis by (rule parkAndFlagTx_Inr) (use assms(3,5) in auto)
qed

text \<open>
  C24: silence hands over to recovery, and postpones it once.  A silent run is left unparked exactly
  when it is running or draining and the recovery pass, reading the same lease and the same newest
  event with no wake grace and no body of the run to be seen, classifies it as dead.  But the flag is
  itself an event of the run: from then on, for as long as the dead-after bound, the same pass counts
  the run alive and leaves it where it is, neither parked nor collected.
\<close>

theorem silence_handoff:
  assumes "silence_of se budgets seed r s = Some trig" "find_run (run_id r) s = Some r" "good s"
    and "le_now le = sw_now se" "pc_dead pc = seed" "pc_grace pc = 0" "in64 seed"
    and "us_state status \<in> {UnitGone, UnitUnknown}" "\<not> list_ex hr_terminal recs"
  shows "(tr_nopark trig \<longleftrightarrow> run_state r \<in> {StateRunning, StateDraining} \<and>
      classify_run (us_state status) (list_ex hr_terminal recs)
        (time_sub (le_now le) (fst (lastRunEvent r s)) \<le> dur_add (pc_dead pc) (pc_grace pc))
        (leaseDead (le_now le) (pc_grace pc) r)
        (\<not> is_zero_time (run_lease_deadline r) \<and> \<not> le_now le > run_lease_deadline r) = DoDead) \<and>
    (tr_nopark trig \<and> \<not> openFlagExists (run_id r) RuleSilence s \<and> flag wd r trig a s = (Inr (), a', t) \<and>
     le_now le' \<ge> le_now le \<and> time_sub (le_now le') (env_now (wd_env wd)) \<le> seed \<and> le_units le' r = Inr status \<and>
     le_harvest le' r (last_ckpt_seq (run_id r) t) = Inr recs
     \<longrightarrow> reconcileRun le' pc r rp t = ((None, rp\<lparr>rp_alive := rp_alive rp + 1\<rparr>), t) \<and>
        find_run (run_id r) t = Some r)"
    (is "?same \<and> (?flagged \<longrightarrow> ?alive)")
proof -
  have rid: "run_id r \<noteq> []" using good_run [OF assms(3,2)] by (auto simp: run_checks_def)
  obtain e es where e: "newest_first (run_id r) s = e # es"
    "trig = silence_trigger se r (time_sub (sw_now se) (ev_time e)) (silence_budget budgets seed r) seed"
    using assms(1) by (rule silence_of_Some)
  have seed: "dur_add seed 0 = seed" using assms(7) by (simp add: dur_add_def wrap64_id)
  have np: "tr_nopark trig \<longleftrightarrow> holderGone r (sw_now se) (time_sub (sw_now se) (ev_time e)) seed"
    and rule: "tr_rule trig = RuleSilence"
    by (simp_all add: e(2) silence_trigger_def Let_def)
  have ?same
    unfolding np holderGone_iff classify_dead_iff
    using assms(4-6,8,9) seed newest_is_last [OF rid e(1)] by auto
  moreover have ?alive if f: ?flagged
  proof -
    have t: "t = s\<lparr>t_events := t_events s @ [flag_event wd r trig None False s]\<rparr>"
      using nopark_flag [of wd r trig a s a' t] f rule assms(2) by simp
    let ?f = "flag_event wd r trig None False s"
    have fe: "ev_run ?f = run_id r" "ev_time ?f = env_now (wd_env wd)"
      "ev_seq ?f = next_rowid (map ev_seq (t_events s))"
      by (simp_all add: flag_event_def new_event_def run_append_def is_zero_time_def)
    have "log_ordered s" using assms(3) by (simp add: good_def)
    from log_ordered_snoc [OF this _ fe(3), of t] have "\<forall>x\<in>set (t_events s). ev_seq x < ev_seq ?f" by (simp add: t)
    then have "newest_first (run_id r) t = ?f # newest_first (run_id r) s"
      using newest_first_append [of t s ?f "run_id r"] rid fe(1) by (simp add: t)
    from newest_is_last [OF rid this] fe(2) have last: "fst (lastRunEvent r t) = env_now (wd_env wd)" by simp
    have "leaseDead (le_now le) 0 r" using f np by (simp add: holderGone_iff assms(4))
    with f have lease: "leaseDead (le_now le') 0 r" by (auto simp: leaseDead_def split: if_splits)
    have "find_run (run_id r) t = Some r" using assms(2) by (simp add: t find_run_def)
    with f last lease seed assms(5,6,8,9) show ?thesis
      by (cases "lastRunEvent r t") (auto simp: reconcileRun_def classify_run_def)
  qed
  ultimately show ?thesis by blast
qed

definition late_watch :: watch_env where
  "late_watch = sample_watch\<lparr>wd_env := sample_env\<lparr>env_now := 5000\<rparr>\<rparr>"

definition late_le :: ladder_env where
  "late_le = sample_le\<lparr>le_now := 5000, le_units := (\<lambda>r. Inr \<lparr>us_state = UnitGone, us_exit = 0, us_result = []\<rparr>),
     le_harvest := (\<lambda>r n. Inr [])\<rparr>"

definition late_trigger :: "run_row \<Rightarrow> trigger option" where
  "late_trigger r = silence_of sample_sweep Map.empty 3600 r sample_running"

text \<open>A few thousand nanoseconds are no second.\<close>

lemma seconds_short:
  assumes "0 \<le> d" "d \<le> 5000"
  shows "trunc (seconds d) = 0"
proof -
  have "go_div d second = 0" using assms by (simp add: go_div_nonneg second_def)
  then have s: "seconds d = fl (fl (of_int d / 1000000000))" by (simp add: seconds_def)
  define q where "q = rat_of_int d / 1000000000"
  have q: "0 \<le> q" "q \<le> 1 / 100000" using assms by (simp_all add: q_def)
  then have "\<bar>fl q - q\<bar> \<le> 1 / 2 ^ 19" by (intro fl_error_small) simp_all
  with q(2) have "fl q \<le> 1 / 10000" unfolding abs_le_iff by simp
  with fl_nonneg [OF q(1)] have f: "0 \<le> fl q" "fl q \<le> 1 / 10000" by simp_all
  then have "\<bar>fl (fl q) - fl q\<bar> \<le> 1 / 2 ^ 19" by (intro fl_error_small) simp_all
  with f(2) have "fl (fl q) < 1" unfolding abs_le_iff by simp
  with fl_nonneg [OF f(1)] have "0 \<le> fl (fl q)" "fl (fl q) < 1" by simp_all
  then show ?thesis by (simp add: s q_def [symmetric] trunc_def floor_eq_iff)
qed

lemma sample_running_reads:
  "hasOpenAsk rid sample_running = False" "newestEventTS ''r'' sample_running = Some 1000"
  by (simp_all add: hasOpenAsk_def newestEventTS_def newest_first_def sample_running_def tx_eval json_eval append_eval
      run_eval sample_eval cong: tx_bind_weak)

lemma sample_running_row:
  assumes "find_run ''r'' sample_running = Some r"
  shows "run_id r = ''r'' \<and> run_state r = StateRunning \<and> run_lease_deadline r = 0"
  using assms
  by (auto simp add: sample_running_def tx_eval json_eval append_eval run_eval sample_eval cong: tx_bind_weak)

lemma handoff_length:
  "handoff_note \<noteq> []" "length (concat (map escape_char handoff_note)) < 1000" "length (json_text (json_int 0)) < 1000"
  by (simp add: handoff_note_def, code_simp, simp add: json_int_def dec_int_def dec_nat.simps)

lemma late_trigger_eq:
  assumes "find_run ''r'' sample_running = Some r"
  shows "late_trigger r = Some (silence_trigger sample_sweep r 4000 3600 3600)"
  using sample_running_row [OF assms]
  by (simp add: late_trigger_def silence_of_def silenceWatched_def sample_running_reads silence_budget_def
      sample_sweep_def time_sub_def int64_max_def int64_min_def is_zero_time_def)

lemma late_flag:
  assumes "find_run ''r'' sample_running = Some r"
  shows "\<exists>trig. late_trigger r = Some trig \<and> tr_nopark trig \<and> \<not> openFlagExists ''r'' RuleSilence sample_running \<and>
    fst (flag late_watch r trig new_admitter sample_running) = Inr ()"
proof -
  let ?trig = "silence_trigger sample_sweep r 4000 3600 3600"
  note row = sample_running_row [OF assms]
  have gone: "holderGone r 5000 4000 3600"
    using row by (simp add: holderGone_def is_zero_time_def)
  have trig: "?trig = \<lparr>tr_rule = RuleSilence, tr_signature = [], tr_counts = [(''silent_seconds'', 0), (''budget_seconds'', 0)],
      tr_detail = handoff_note, tr_spend = None, tr_nopark = True\<rparr>"
    using gone by (simp add: silence_trigger_def sample_sweep_def seconds_short)
  have "\<not> openFlagExists ''r'' RuleSilence sample_running"
    by (simp add: flag_eval sample_running_def tx_eval json_eval append_eval run_eval sample_eval cong: tx_bind_weak)
  moreover have "fst (flag late_watch r ?trig new_admitter sample_running) = Inr ()"
    using row handoff_length unfolding trig
    by (simp add: flag_eval late_watch_def sample_running_def tx_eval json_eval append_eval run_eval sample_eval
        cong: tx_bind_weak)
  moreover have "tr_nopark ?trig" by (simp only: trig trigger.simps)
  ultimately show ?thesis using late_trigger_eq [OF assms] by blast
qed

theorem silence_handoff_witness:
  "\<exists>r trig t rp. find_run ''r'' sample_running = Some r \<and> late_trigger r = Some trig \<and> tr_nopark trig \<and>
     flag late_watch r trig new_admitter sample_running = (Inr (), new_admitter, t) \<and>
     reconcileRun late_le sample_pc r rp t = ((None, rp\<lparr>rp_alive := rp_alive rp + 1\<rparr>), t)"
proof -
  from sample_states(1) obtain r where r: "find_run ''r'' sample_running = Some r" by auto
  from find_run_Some [OF r] have rid: "run_id r = ''r''" by simp
  obtain trig where trig: "late_trigger r = Some trig" "tr_nopark trig"
    "\<not> openFlagExists ''r'' RuleSilence sample_running"
    "fst (flag late_watch r trig new_admitter sample_running) = Inr ()"
    using late_flag [OF r] by blast
  then obtain b t where f: "flag late_watch r trig new_admitter sample_running = (Inr (), b, t)"
    by (cases "flag late_watch r trig new_admitter sample_running") auto
  have "tr_rule trig = RuleSilence"
    using trig(1) by (auto simp: late_trigger_def silence_trigger_def Let_def elim!: silence_of_Some)
  then have b: "b = new_admitter"
    using f by (auto simp: flag_def annotatable_def rule_defs split: if_splits prod.splits)
  have good: "good sample_running" by (simp add: sample_running_def sample_good)
  have "reconcileRun late_le sample_pc r (empty_report False) t =
      ((None, (empty_report False)\<lparr>rp_alive := rp_alive (empty_report False) + 1\<rparr>), t)"
    using silence_handoff [OF trig(1)[unfolded late_trigger_def] _ good, of late_le sample_pc
        "\<lparr>us_state = UnitGone, us_exit = 0, us_result = []\<rparr>" "[]" late_watch new_admitter b t late_le "empty_report False"]
      r rid trig(2,3) f
    by (simp add: late_le_def sample_pc_def sample_sweep_def in64_def int64_min_def int64_max_def late_watch_def time_sub_def)
  with r trig(1,2) f b show ?thesis by blast
qed

section \<open>The dead-man probe\<close>

lemma alarm_ok: "trigger_ok (alarm_trigger detected alive)" "tr_rule (alarm_trigger detected alive) = RuleDeadMan"
  by (simp_all add: alarm_trigger_def plain_trigger_def trigger_ok_def boolToInt_def in64_def int64_min_def int64_max_def)

lemma RuleDeadMan_ne [simp]: "RuleDeadMan \<noteq> []"
  by (simp add: rule_defs)

text \<open>
  The dead-man probe cannot fail silently.  Whenever it ends without an error, either the counters
  flagged the canary's synthetic loop and the local judge answered, or an alarm card of the platform is
  open before the canary is put away.
\<close>

lemma probe_speaks:
  assumes "DeadManProbe wd a s = (Inr (), a', t)" "good s" "hook_ok (wd_env wd)"
  shows "\<exists>canary v u. createCanary (wd_env wd) (canary_id (wd_env wd)) s = (Inr canary, v) \<and>
    t = terminateCanary (wd_env wd) (canary_id (wd_env wd)) u \<and>
    (canaryFlagged (canary_id (wd_env wd)) u \<and> fst (deadManLiveness wd (canary_id (wd_env wd)) a v) \<or>
     openOwnerlessFlagExists RuleDeadMan u)"
proof -
  let ?rid = "canary_id (wd_env wd)"
  note fr = watch_evolves [OF assms(3)]
  obtain canary v where c: "createCanary (wd_env wd) ?rid s = (Inr canary, v)"
    using assms(1) by (auto simp: DeadManProbe_def Let_def split: prod.splits sum.splits)
  obtain res b u where p: "probe_canary wd canary ?rid a v = (res, b, u)" by (metis prod.exhaust)
  with assms(1) c have res: "res = Inr ()" "t = terminateCanary (wd_env wd) ?rid u"
    by (auto simp: DeadManProbe_def)
  obtain alive a1 s1 where l: "deadManLiveness wd ?rid a v = (alive, a1, s1)" by (metis prod.exhaust)
  from p res l obtain s2 a2 s3 where m: "injectLoopTrace wd canary s1 = (Inr (), s2)"
    "EvaluateRun wd ?rid a1 s2 = (Inr (), a2, s3)"
    and f: "if canaryFlagged ?rid s3 \<and> alive then u = s3
      else flagPlatform wd (alarm_trigger (canaryFlagged ?rid s3) alive) s3 = (Inr (), u)"
    by (auto simp: probe_canary_def Let_def split: sum.splits prod.splits if_splits)
  show ?thesis
  proof (cases "canaryFlagged ?rid s3 \<and> alive")
    case True
    with f l res(2) c show ?thesis by auto
  next
    case False
    have "evolves s v" 
      using start_platform_run_frame [OF fr own_names(2) [of "wd_env wd"], of s] c
      by (auto simp: createCanary_def split: sum.splits prod.splits)
    moreover have "evolves v s1" using liveness_frame [OF fr, of v ?rid a] l by simp
    moreover have "evolves s1 s2" 
      using m(1) inject_frame [OF fr, of s1 canary]
      by (auto simp: injectLoopTrace_def split: sum.splits) (metis snd_conv)
    moreover have "evolves s2 s3" using EvaluateRun_frame [OF fr, of s2 ?rid a1] m(2) by simp
    ultimately have "good s3" using assms(2) by (simp add: evolves_def)
    then have "log_ordered s3" by (simp add: good_def)
    with False f alarm_ok have "openOwnerlessFlagExists RuleDeadMan u"
      by (auto simp: flagPlatform_def intro: ownerlessFlag_open)
    with res(2) c show ?thesis by blast
  qed
qed

end
