(* ===== verification/Watch_Detects.thy ===== *)
theory Watch_Detects
  imports Watch_Deadman
begin

text \<open>
  The dead-man probe on a healthy platform: the canary is created, driven to running, made to loop,
  caught by the counters, parked by its flag and finalized, and nothing but its own events is written.
\<close>

section \<open>The canary's steps\<close>

text \<open>The canary in a state, its own events at the end of the log.\<close>

definition canary_in :: "db \<Rightarrow> string \<Rightarrow> run_state \<Rightarrow> event_row list \<Rightarrow> db \<Rightarrow> bool" where
  "canary_in s rid st new t \<longleftrightarrow> good t \<and> t_events t = t_events s @ new \<and>
     (\<forall>e\<in>set new. ev_run e = rid \<and> ev_gen e = 0) \<and>
     (\<exists>r. find_run rid t = Some r \<and> run_state r = st \<and> run_generation r = 0 \<and> run_user r = ActorPlatform)"

text \<open>What an event of the canary tells: its type and, of a change of state, the state it leads to.\<close>

definition story :: "event_row \<Rightarrow> string \<times> run_state option" where
  "story e = (ev_type e, if ev_type e = EventState then payload_state ''to'' e else None)"

text \<open>
  The run-end hook does nothing for a run of the platform.  \<open>WriteAtRunEndTx\<close> of
  \<open>internal/retention/summary.go\<close>, the hook the shell installs, reads the owner of the run first and
  returns without a write when it is the platform.
\<close>

definition spares_platform :: "env \<Rightarrow> bool" where
  "spares_platform env \<longleftrightarrow> (\<forall>h r s. env_hook env = Some h \<and> find_run (run_id r) s = Some r \<and>
     run_user r = ActorPlatform \<longrightarrow> h r s = Inr ((), s))"

definition payload_room :: "env \<Rightarrow> bool" where
  "payload_room env \<longleftrightarrow> (\<exists>cap. set_int (env_settings env) keyPayloadCap = Some cap \<and> 4096 \<le> cap)"

lemma text_of_marshal: "raw_text (marshal v) = json_text v"
  by (simp add: marshal_def)

lemma ActorPlatform_ne [simp]: "ActorPlatform \<noteq> []"
  by (simp add: ActorPlatform_def)

lemma canary_step:
  assumes c: "canary_in s rid st new t" "rid \<noteq> []" and env: "payload_room env" "spares_platform env"
    and edge: "CanTransition st to" "\<not> generationBumps st to"
    and payload: "transition_payload st to opts = Inr payload" "length (raw_text payload) \<le> 4096"
  shows "\<exists>r u e. TransitionTx env rid to opts t = Inr (r, u) \<and> canary_in s rid to (new @ [e]) u \<and>
    story e = (EventState, Some to) \<and> run_generation r = 0"
proof -
  obtain r where r: "find_run rid t = Some r" "run_state r = st" "run_generation r = 0" "run_user r = ActorPlatform"
    using c(1) by (auto simp: canary_in_def)
  have good: "good t" and ev: "t_events t = t_events s @ new" "\<forall>e\<in>set new. ev_run e = rid \<and> ev_gen e = 0"
    using c(1) by (simp_all add: canary_in_def)
  have gen: "next_generation r to = 0" using r edge(2) by (simp add: next_generation_def)
  have id: "run_id r = rid" using find_run_Some [OF r(1)] by simp
  let ?u = "transition_db env r to payload t" and ?e = "transition_event env r to payload (next_rowid (map ev_seq (t_events t)))"
  have chk: "run_checks (transition_row env r to)"
    using good_run [OF good r(1)] gen by (simp add: transition_row_def run_checks_def)
  have valid: "raw_valid payload" "raw_text payload \<noteq> []"
    using payload(1) by (auto simp: transition_payload_def text_of_marshal split: option.splits)
  have valid: "validate (env_settings env) (run_append rid (next_generation r to) (run_user r) EventState payload) = Inr ()"
    using payload c(2) r(4) gen env(1) valid
    by (auto simp: validate_Inr run_append_def event_type_defs payload_room_def)
  have row: "find_run rid ?u = Some (transition_row env r to)" "run_id (transition_row env r to) = rid"
    "run_user (transition_row env r to) = ActorPlatform"
    using transition_db_find(1) [OF r(1)] id r(4) by (simp_all add: transition_row_def)
  then have hook: "run_hook env to (transition_row env r to) ?u = Inr ((), ?u)"
    using env(2) by (auto simp: run_hook_def spares_platform_def tx_return_def split: option.split)
  have tr: "TransitionTx env rid to opts t = Inr (transition_row env r to, ?u)"
    using good r edge(1) chk payload(1) valid hook
    by (intro TransitionTx_runs) (simp_all add: good_def rows_good_def)
  have "good ?u"
    using transition_db_good [OF good r(1), where to = to and env = env and opts = opts and payload = payload] r(2) edge(1) gen payload(1) by simp
  moreover have "find_run rid ?u = Some (transition_row env r to)"
    using transition_db_find(1) [OF r(1)] by simp
  ultimately have "canary_in s rid to (new @ [?e]) ?u"
    using ev gen id r by (simp add: canary_in_def transition_db_def transition_row_def transition_event_def
        new_event_def run_append_def)
  moreover have "ev_type ?e = EventState" "ev_payload ?e = payload"
    by (simp_all add: transition_event_def new_event_def run_append_def)
  then have "story ?e = (EventState, Some to)"
    using payload_state_transition(2) [of st to opts ?e] payload(1) by (simp add: story_def)
  ultimately show ?thesis
    using tr gen by (intro exI [of _ "transition_row env r to"] exI [of _ ?u] exI [of _ ?e]) (simp add: transition_row_def)
qed

lemma canary_append:
  assumes c: "canary_in s rid st new t" "rid \<noteq> []" and env: "payload_room (wd_env wd)"
    and ty: "neutral_type ty" "ty \<noteq> []"
    and p: "length (json_text v) \<le> 4096" "json_text v \<noteq> []"
  shows "\<exists>q u e. watch_append wd (run_append rid 0 ActorPlatform ty (marshal v)) t = Inr (q, u) \<and>
    canary_in s rid st (new @ [e]) u \<and> ev_type e = ty \<and> ev_payload e = marshal v"
proof -
  obtain r where r: "find_run rid t = Some r" "run_state r = st" "run_generation r = 0" "run_user r = ActorPlatform"
    using c(1) by (auto simp: canary_in_def)
  let ?a = "run_append rid 0 ActorPlatform ty (marshal v)"
  let ?e = "new_event (next_rowid (map ev_seq (t_events t))) (env_now (wd_env wd)) ?a"
  let ?u = "t\<lparr>t_events := t_events t @ [?e]\<rparr>"
  have "validate (env_settings (wd_env wd)) ?a = Inr ()"
    using c(2) ty(2) p env by (auto simp: validate_Inr run_append_def payload_room_def text_of_marshal)
  with r c(2) have ap: "watch_append wd ?a t = Inr (ev_seq ?e, ?u)"
    by (simp add: watch_append_def AppendTx_Inr run_append_def new_event_def)
  have "tx_rel evolves (watch_append wd ?a)"
    unfolding watch_append_def by (rule AppendTx_evolves) (simp add: run_append_def ty(1))
  with ap c(1) have "good ?u" by (auto simp: tx_rel_def evolves_def canary_in_def)
  then have "canary_in s rid st (new @ [?e]) ?u"
    using c(1) r by (auto simp: canary_in_def find_run_def new_event_def run_append_def)
  with ap show ?thesis by (auto simp: new_event_def run_append_def)
qed

lemma tool_neutral [simp]: "neutral_type ''tool.completed''"
  by (simp add: neutral_type_def event_type_defs)

lemma canary_payload_length: "length (json_text (JObj
     [(''args_digest'', JStr ''sha256:deadman-canary''),
      (''excerpt'', JStr ''synthetic known-anomaly trace (dead-man canary)''),
      (''tool'', JStr ''deadman.synthetic'')])) \<le> 4096"
  by (simp add: json_eval)

lemma canary_injects:
  assumes "canary_in s rid st new t" "rid \<noteq> []" "payload_room (wd_env wd)" "run_id r = rid" "run_generation r = 0"
  shows "\<exists>u tools. inject_events wd r n t = (Inr (), u) \<and> canary_in s rid st (new @ tools) u \<and> length tools = n \<and>
    (\<forall>e\<in>set tools. ev_type e = ''tool.completed'' \<and> ev_payload e = canary_payload)"
  using assms(1)
proof (induction n arbitrary: new t)
  case (Suc n)
  obtain q u e where e: "watch_append wd (run_append rid 0 ActorPlatform ''tool.completed'' canary_payload) t = Inr (q, u)"
    "canary_in s rid st (new @ [e]) u" "ev_type e = ''tool.completed''" "ev_payload e = canary_payload"
    using canary_append [OF Suc.prems assms(2,3) tool_neutral _ canary_payload_length]
    unfolding canary_payload_def [symmetric] by auto
  from Suc.IH [OF e(2)] obtain v tools where v: "inject_events wd r n u = (Inr (), v)"
    "canary_in s rid st ((new @ [e]) @ tools) v" "length tools = n"
    "\<forall>e\<in>set tools. ev_type e = ''tool.completed'' \<and> ev_payload e = canary_payload" by blast
  with e assms(4,5) show ?case
    by (intro exI [of _ v] exI [of _ "e # tools"]) (simp add: write_tx_def)
qed (use assms in \<open>auto intro!: exI [of _ "[]"]\<close>)

lemma platform_run_sel: "nr_id (platform_run rid) = rid" "nr_user (platform_run rid) = ActorPlatform"
  "nr_state (platform_run rid) = []" "nr_generation (platform_run rid) = 0"
  by (simp_all add: platform_run_def)

lemma canary_born:
  assumes "good s" "find_run rid s = None" "rid \<noteq> []" "payload_room env"
  shows "\<exists>r u e. Create env (platform_run rid) s = (Inr r, u) \<and> canary_in s rid StateNew [e] u \<and> ev_type e = EventCreated"
proof -
  let ?r = "row_of_new (env_now env) (platform_run rid) StateNew"
  let ?v = "JObj [(''state'', JStr (state_name StateNew))]"
  let ?a = "run_append rid 0 ActorPlatform EventCreated (marshal ?v)"
  let ?e = "new_event (next_rowid (map ev_seq (t_events s))) (env_now env) ?a"
  let ?u = "s\<lparr>t_runs := t_runs s @ [?r], t_events := t_events s @ [?e]\<rparr>"
  have row: "run_id ?r = rid" "run_state ?r = StateNew" "run_generation ?r = 0" "run_user ?r = ActorPlatform"
    by (simp_all add: row_of_new_def platform_run_def)
  have ins: "insert_run ?r s = Inr ((), s\<lparr>t_runs := t_runs s @ [?r]\<rparr>)"
    using assms(2,3) row by (simp add: insert_run_def insert_allowed_def run_checks_def) (simp add: row_of_new_def platform_run_def)
  have "length (json_text ?v) \<le> 4096" "json_text ?v \<noteq> []" by (simp_all add: json_eval)
  then have "validate (env_settings env) ?a = Inr ()"
    using assms(3,4) by (auto simp: validate_Inr run_append_def payload_room_def text_of_marshal event_type_defs)
  moreover have found: "find_run rid (s\<lparr>t_runs := t_runs s @ [?r], t_events := es\<rparr>) = Some ?r" for es
    using assms(2) row(1) by (auto simp: find_run_def tbl_find_def find_append split: option.split)
  moreover have "find_run rid (s\<lparr>t_runs := t_runs s @ [?r]\<rparr>) = Some ?r"
    using assms(2) row(1) by (auto simp: find_run_def tbl_find_def find_append split: option.split)
  ultimately have ap: "AppendTx (env_settings env) (env_now env) ?a (s\<lparr>t_runs := t_runs s @ [?r]\<rparr>) = Inr (ev_seq ?e, ?u)"
    using row(3) by (simp add: AppendTx_Inr run_append_def new_event_def)
  have cr: "CreateTx env (platform_run rid) EventCreated raw_empty s = Inr (?r, ?u)"
    using ins ap found assms(3)
    by (simp add: CreateTx_def tx_eval getTx_def created_payload_def state_of_name_def all_states_def platform_run_sel)
  have "tx_rel evolves (CreateTx env (platform_run rid) EventCreated raw_empty)"
    by (rule CreateTx_evolves) (simp_all add: platform_run_def int64_max_def)
  with cr assms(1) have "good ?u" by (auto simp: tx_rel_def evolves_def)
  then have "canary_in s rid StateNew [?e] ?u"
    using found row by (simp add: canary_in_def new_event_def run_append_def)
  with cr show ?thesis by (auto simp: Create_def write_tx_def new_event_def run_append_def)
qed

text \<open>The transitions a canary takes, with the reasons the probe gives.\<close>

definition canary_edges :: "(run_state \<times> run_state \<times> string) list" where
  "canary_edges = [(StateNew, StateQueued, []), (StateQueued, StateClaimed, []), (StateClaimed, StateRunning, []),
     (StateRunning, StateParked, ''watchdog:watchdog.loop''), (StateParked, StateFinalized, ''dead-man canary complete'')]"

lemma canary_edges_ok:
  "(st, to, reason) \<in> set canary_edges \<Longrightarrow> CanTransition st to \<and> \<not> generationBumps st to \<and>
     (\<exists>payload. transition_payload st to (platform_options reason) = Inr payload \<and> length (raw_text payload) \<le> 4096)"
  by (auto simp: canary_edges_def CanTransition_def generationBumps_def transition_payload_def platform_options_def
      ActorPlatform_def text_of_marshal json_eval)

lemma canary_takes:
  assumes "canary_in s rid st new t" "rid \<noteq> []" "payload_room env" "spares_platform env" "(st, to, reason) \<in> set canary_edges"
  shows "\<exists>r u e. TransitionTx env rid to (platform_options reason) t = Inr (r, u) \<and> canary_in s rid to (new @ [e]) u \<and>
    story e = (EventState, Some to) \<and> run_generation r = 0"
proof -
  from canary_edges_ok [OF assms(5)] obtain payload where
    "CanTransition st to" "\<not> generationBumps st to"
    "transition_payload st to (platform_options reason) = Inr payload" "length (raw_text payload) \<le> 4096" by blast
  from canary_step [OF assms(1-4) this] show ?thesis .
qed

definition canary_start :: "(string \<times> run_state option) list" where
  "canary_start = [(EventCreated, None), (EventState, Some StateQueued), (EventState, Some StateClaimed),
     (EventState, Some StateRunning)]"

lemma canary_start_types:
  assumes "map story pre = canary_start" "e \<in> set pre"
  shows "ev_type e = EventCreated \<or> ev_type e = EventState"
proof -
  have "story e \<in> set canary_start" using assms by (metis imageI list.set_map)
  then show ?thesis by (auto simp: canary_start_def story_def)
qed

lemma canary_started:
  assumes "good s" "find_run rid s = None" "rid \<noteq> []" "payload_room env" "spares_platform env"
  shows "\<exists>u pre. start_platform_run env rid s = (Inr (), u) \<and> canary_in s rid StateRunning pre u \<and>
    map story pre = canary_start"
proof -
  obtain r0 u0 e0 where b: "Create env (platform_run rid) s = (Inr r0, u0)" "canary_in s rid StateNew [e0] u0"
    "ev_type e0 = EventCreated" using canary_born [OF assms(1-4)] by blast
  obtain r1 u1 e1 where q: "TransitionTx env rid StateQueued (platform_options []) u0 = Inr (r1, u1)"
    "canary_in s rid StateQueued ([e0] @ [e1]) u1" "story e1 = (EventState, Some StateQueued)"
    using canary_takes [OF b(2) assms(3-5), of StateQueued "[]"] by (auto simp: canary_edges_def)
  obtain r2 u2 e2 where c: "TransitionTx env rid StateClaimed (platform_options []) u1 = Inr (r2, u2)"
    "canary_in s rid StateClaimed (([e0] @ [e1]) @ [e2]) u2" "story e2 = (EventState, Some StateClaimed)"
    using canary_takes [OF q(2) assms(3-5), of StateClaimed "[]"] by (auto simp: canary_edges_def)
  obtain r3 u3 e3 where n: "TransitionTx env rid StateRunning (platform_options []) u2 = Inr (r3, u3)"
    "canary_in s rid StateRunning ((([e0] @ [e1]) @ [e2]) @ [e3]) u3" "story e3 = (EventState, Some StateRunning)"
    using canary_takes [OF c(2) assms(3-5), of StateRunning "[]"] by (auto simp: canary_edges_def)
  have "start_platform_run env rid s = (Inr (), u3)"
    using b(1) q(1) c(1) n(1) by (simp add: start_platform_run_def Transition_def write_tx_def)
  moreover have "story e0 = (EventCreated, None)" using b(3) by (simp add: story_def event_type_defs)
  ultimately show ?thesis using n q(3) c(3)
    by (intro exI [of _ u3] exI [of _ "[e0, e1, e2, e3]"]) (simp add: canary_start_def)
qed

section \<open>The counters catch it\<close>

lemma canary_signature:
  "toolSignature sha canary_payload = take 16 (sha (''deadman.synthetic'' @ [char_of (0::nat)] @ ''sha256:deadman-canary''))"
  by (simp add: canary_payload_def signal_eval)

lemma canary_reads:
  assumes "canary_in s rid st (pre @ tools) t" "good s" "find_run rid s = None" "rid \<noteq> []" "length tools \<le> 128"
    and "\<forall>e\<in>set tools. ev_type e = ''tool.completed''" "\<forall>e\<in>set pre. ev_type e = EventCreated \<or> ev_type e = EventState"
  shows "toolCompleted (readRecentEvents rid 0 recentWindow t) = map recent_of tools"
proof -
  have c: "good t" "t_events t = t_events s @ pre @ tools" "\<forall>e\<in>set (pre @ tools). ev_run e = rid \<and> ev_gen e = 0"
    using assms(1) by (simp_all add: canary_in_def)
  have old: "ev_run e \<noteq> rid" if "e \<in> set (t_events s)" for e
    using that assms(2-4) by (fastforce simp: good_def fenced_def)
  have "newest_first rid t = rev (filter (\<lambda>e. rid \<noteq> [] \<and> ev_run e = rid) (t_events t))"
    using c(1) by (simp add: newest_first_rev good_def)
  also have "\<dots> = rev tools @ rev pre" using c(2,3) old assms(4) by (simp add: filter_id_conv filter_empty_conv)
  finally have nf: "newest_first rid t = rev tools @ rev pre" .
  have "readRecentEvents rid 0 recentWindow t =
      map recent_of (rev (take (recentWindow - length tools) (rev pre)) @ tools)"
    using c(3) assms(5) by (simp add: readRecentEvents_def nf filter_id_conv recentWindow_def rev_map)
  moreover have "\<not> is_tool_event (ev_type e)" if "e \<in> set (take k (rev pre))" for e k
  proof -
    have "ev_type e = EventCreated \<or> ev_type e = EventState" using assms(7) that by (auto dest!: in_set_takeD)
    then show ?thesis by (auto simp: is_tool_event_def event_type_defs)
  qed
  ultimately show ?thesis
    using assms(6) by (simp add: toolCompleted_def recent_of_def filter_empty_conv filter_id_conv is_tool_event_def)
qed

lemma loop_of_canary:
  assumes "1 \<le> n" "length tools = nat n" "\<forall>e\<in>set tools. ev_payload e = canary_payload"
    and "toolSignature sha canary_payload \<noteq> []"
  shows "loopTrip sha (map recent_of tools) n =
    Some (plain_trigger RuleLoop (toolSignature sha canary_payload) [(''repeats'', n)]
      ''identical tool-call signature repeated consecutively'')"
proof -
  obtain e es where t: "tools = e # es" using assms(1,2) by (cases tools) auto
  have "last_n (nat n) (map recent_of tools) = map recent_of tools" using assms(2) by (simp add: last_n_def)
  with assms t show ?thesis by (auto simp: loopTrip_def Let_def list_ex_iff recent_of_def)
qed

lemma escape_length: "length (escape_char c) \<le> 6"
  by (simp add: escape_char_def Let_def)

lemma escapes_length: "length (concat (map escape_char s)) \<le> 6 * length s"
proof (induction s)
  case (Cons c s)
  then show ?case using escape_length [of c] by simp
qed simp

lemma small_dec:
  assumes "0 \<le> n" "n \<le> 128"
  shows "length (dec_int n) \<le> 3"
proof -
  have "nat n div 10 div 10 < 10" using assms by simp
  with assms show ?thesis
    by (simp add: dec_int_def) (subst dec_nat.simps, simp, subst dec_nat.simps, simp, subst dec_nat.simps, simp)
qed

lemma canary_flag_payload:
  assumes "length sig \<le> 16" "1 \<le> n" "n \<le> 128"
  shows "\<exists>v. flag_payload wd (plain_trigger RuleLoop sig [(''repeats'', n)]
      ''identical tool-call signature repeated consecutively'') RuleLoop None True = marshal v \<and>
    length (json_text v) \<le> 4096 \<and> json_text v \<noteq> []"
proof -
  let ?p = "flag_payload wd (plain_trigger RuleLoop sig [(''repeats'', n)]
      ''identical tool-call signature repeated consecutively'') RuleLoop None True"
  have "length (dec_int n) \<le> 3" "length (concat (map escape_char sig)) \<le> 96"
    using small_dec [of n] escapes_length [of sig] assms by simp_all
  then have "length (raw_text ?p) \<le> 4096 \<and> raw_text ?p \<noteq> []"
    by (simp add: flag_payload_def text_of_marshal plain_trigger_def counts_json_def spend_json_def severityFor_def
        SeverityFlagNow_def rule_defs ActorPlatform_def json_int_def json_eval)
  moreover obtain v where "?p = marshal v" by (auto simp: flag_payload_def)
  ultimately show ?thesis by (auto simp: text_of_marshal)
qed

lemma canary_flagged:
  assumes c: "canary_in s rid StateRunning new t" "rid \<noteq> []" and fresh: "good s" "find_run rid s = None"
    and env: "payload_room (wd_env wd)" "spares_platform (wd_env wd)" "wd_duty wd = None"
    and new: "\<forall>e\<in>set new. ev_type e \<noteq> EventFlagged"
    and trig: "trig = plain_trigger RuleLoop sig [(''repeats'', n)] ''identical tool-call signature repeated consecutively''"
      "length sig \<le> 16" "1 \<le> n" "n \<le> 128"
    and r: "run_id r = rid" "run_state r = StateRunning"
  shows "\<exists>u e f. flag wd r trig a t = (Inr (), a, u) \<and> canary_in s rid StateParked (new @ [e, f]) u \<and>
    story e = (EventState, Some StateParked) \<and> ev_type f = EventFlagged \<and> flag_class (ev_payload f) = RuleLoop \<and>
    openFlagExists rid RuleLoop u"
proof -
  have rule: "tr_rule trig = RuleLoop" "\<not> tr_nopark trig" by (simp_all add: trig(1) plain_trigger_def)
  have old: "ev_run e \<noteq> rid" if "e \<in> set (t_events s)" for e
    using that fresh c(2) by (fastforce simp: good_def fenced_def)
  have "e \<in> set new" if "e \<in> set (newest_first rid t)" for e
    using that c old by (auto simp: set_newest_first canary_in_def)
  then have none: "\<not> openFlagExists rid RuleLoop t"
    using new by (auto simp: openFlagExists_def latestFlagSeq_def split: option.split dest!: found_in_set)
  obtain q u e where p: "TransitionTx (wd_env wd) rid StateParked (platform_options ''watchdog:watchdog.loop'') t = Inr (q, u)"
    "canary_in s rid StateParked (new @ [e]) u" "story e = (EventState, Some StateParked)" "run_generation q = 0"
    using canary_takes [OF c env(1,2), of StateParked "''watchdog:watchdog.loop''"] by (auto simp: canary_edges_def)
  obtain v where v: "flag_payload wd trig RuleLoop None True = marshal v" "length (json_text v) \<le> 4096" "json_text v \<noteq> []"
    using canary_flag_payload [OF trig(2-4)] unfolding trig(1) by blast
  obtain k w f where f: "watch_append wd (run_append rid 0 ActorPlatform EventFlagged (marshal v)) u = Inr (k, w)"
    "canary_in s rid StateParked ((new @ [e]) @ [f]) w" "ev_type f = EventFlagged" "ev_payload f = marshal v"
    using canary_append [OF p(2) c(2) env(1) _ _ v(2,3), of EventFlagged] by (auto simp: EventFlagged_def neutral_type_def event_type_defs)
  obtain cur where cur: "find_run rid t = Some cur" "run_state cur = StateRunning" "run_user cur = ActorPlatform"
    using c(1) by (auto simp: canary_in_def)
  have park: "parkAndFlag wd rid trig None t = (Inr (), w)"
    using cur p(1,4) f(1) v(1) rule
    by (simp add: parkAndFlag_def parkAndFlagTx_def write_tx_def tx_eval getTx_def CanTransition_def rule_defs)
  have "annotate wd r trig es a t = (None, a, t)" for es using env(3) by (simp add: annotate_def)
  then have fl: "flag wd r trig a t = (Inr (), a, w)"
    using none park rule(1) r(1) by (simp add: flag_def)
  have "openFlagExists rid RuleLoop w"
    using parkAndFlag_open [OF park] c(1) rule(1) trig(3,4)
    by (simp add: canary_in_def trigger_ok_def trig(1) plain_trigger_def rule_defs in64_def int64_min_def int64_max_def)
  moreover have "flag_class (ev_payload f) = RuleLoop"
    unfolding f(4) v(1) [symmetric] by (rule flag_class_payload)
      (use trig in \<open>simp_all add: trigger_ok_def plain_trigger_def rule_defs in64_def int64_min_def int64_max_def\<close>)
  ultimately show ?thesis using fl f(2,3) p(3) by (intro exI [of _ w] exI [of _ e] exI [of _ f]) simp
qed

text \<open>From the injected trace to the parked canary: the counters trip, the flag parks, no alarm.\<close>

lemma canary_caught:
  assumes u: "canary_in s rid StateRunning pre u" "map story pre = canary_start"
    and fresh: "good s" "find_run rid s = None" "rid \<noteq> []"
    and env: "payload_room (wd_env wd)" "spares_platform (wd_env wd)" "wd_duty wd = None"
    and n: "set_int (env_settings (wd_env wd)) keyLoopRepeat = Some n" "1 \<le> n" "n \<le> 128"
    and sha: "toolSignature (wd_sha wd) canary_payload \<noteq> []"
    and canary: "run_id canary = rid" "run_generation canary = 0"
  shows "\<exists>w new. probe_canary wd canary rid a u = (Inr (), a, w) \<and> canary_in s rid StateParked new w \<and>
    map story new = canary_start @ replicate (nat n) (''tool.completed'', None) @
      [(EventState, Some StateParked), (EventFlagged, None)] \<and>
    (\<forall>e\<in>set new. ev_type e = EventFlagged \<longrightarrow> flag_class (ev_payload e) = RuleLoop)"
proof -
  obtain v tools where v: "inject_events wd canary (nat n) u = (Inr (), v)" "canary_in s rid StateRunning (pre @ tools) v"
    "length tools = nat n" "\<forall>e\<in>set tools. ev_type e = ''tool.completed'' \<and> ev_payload e = canary_payload"
    using canary_injects [OF u(1) fresh(3) env(1) canary] by blast
  then obtain r where r: "find_run rid v = Some r" "run_state r = StateRunning" "run_generation r = 0" "run_id r = rid"
    by (auto simp: canary_in_def dest: find_run_Some)
  define trig where "trig = plain_trigger RuleLoop (toolSignature (wd_sha wd) canary_payload) [(''repeats'', n)]
      ''identical tool-call signature repeated consecutively''"
  have len: "length (toolSignature (wd_sha wd) canary_payload) \<le> 16" by (simp add: canary_signature)
  have start: "\<forall>e\<in>set pre. ev_type e = EventCreated \<or> ev_type e = EventState"
    using canary_start_types [OF u(2)] by blast
  have "toolCompleted (readRecentEvents rid 0 recentWindow v) = map recent_of tools"
    using canary_reads [OF v(2) fresh] v(3,4) start n(3) by simp
  then have trip: "behavioral_trip (wd_sha wd) (env_settings (wd_env wd))
      (toolCompleted (readRecentEvents rid 0 recentWindow v)) = Inr (Some trig)"
    using loop_of_canary [OF n(2) v(3) _ sha] v(4) n(1) by (simp add: behavioral_trip_def read_int_def trig_def)
  have "\<forall>e\<in>set (pre @ tools). ev_type e \<noteq> EventFlagged"
    using start v(4) by (auto simp: EventFlagged_def event_type_defs)
  from canary_flagged [OF v(2) fresh(3,1,2) env this trig_def len n(2,3) r(4,2)]
  obtain w e f where w: "flag wd r trig a v = (Inr (), a, w)" "canary_in s rid StateParked ((pre @ tools) @ [e, f]) w"
    "story e = (EventState, Some StateParked)" "ev_type f = EventFlagged" "flag_class (ev_payload f) = RuleLoop"
    "openFlagExists rid RuleLoop w" by blast
  have "EvaluateRun wd rid a v = (Inr (), a, w)"
    using r(1-3) trip w(1) by (simp add: EvaluateRun_def Get_def behavioralWatchStates_def)
  moreover have "canaryFlagged rid w" using w(6) by (auto simp: canaryFlagged_def openFlagExists_def split: option.splits)
  ultimately have "probe_canary wd canary rid a u = (Inr (), a, w)"
    using v(1) env(3) n(1) by (simp add: probe_canary_def deadManLiveness_def injectLoopTrace_def read_int_def)
  moreover have "map story tools = replicate (nat n) (''tool.completed'', None)"
    using v(3,4) by (auto simp: story_def event_type_defs intro!: replicate_eqI)
  moreover have "story f = (EventFlagged, None)" using w(4) by (simp add: story_def EventFlagged_def event_type_defs)
  moreover have "\<forall>x\<in>set (pre @ tools @ [e]). ev_type x \<noteq> EventFlagged"
    using start v(4) w(3) by (auto simp: story_def EventFlagged_def event_type_defs)
  ultimately show ?thesis using w(2,3,5) u(2)
    by (intro exI [of _ w] exI [of _ "(pre @ tools) @ [e, f]"]) auto
qed

text \<open>What the log tells of a canary that was caught.\<close>

definition canary_story :: "nat \<Rightarrow> (string \<times> run_state option) list" where
  "canary_story n = [(EventCreated, None), (EventState, Some StateQueued), (EventState, Some StateClaimed),
     (EventState, Some StateRunning)] @ replicate n (''tool.completed'', None) @
     [(EventState, Some StateParked), (EventFlagged, None), (EventState, Some StateFinalized)]"

lemma probe_detects:
  assumes "good s" "find_run (canary_id (wd_env wd)) s = None"
    and "payload_room (wd_env wd)" "spares_platform (wd_env wd)" "wd_duty wd = None"
    and "set_int (env_settings (wd_env wd)) keyLoopRepeat = Some n" "1 \<le> n" "n \<le> 128"
    and "wd_sha wd (''deadman.synthetic'' @ [char_of (0::nat)] @ ''sha256:deadman-canary'') \<noteq> []"
  shows "\<exists>t new r. DeadManProbe wd a s = (Inr (), a, t) \<and> t_events t = t_events s @ new \<and>
    (\<forall>e\<in>set new. ev_run e = canary_id (wd_env wd)) \<and> map story new = canary_story (nat n) \<and>
    (\<forall>e\<in>set new. ev_type e = EventFlagged \<longrightarrow> flag_class (ev_payload e) = RuleLoop) \<and>
    find_run (canary_id (wd_env wd)) t = Some r \<and> run_state r = StateFinalized"
proof -
  define rid where "rid = canary_id (wd_env wd)"
  have ne: "rid \<noteq> []" by (simp add: rid_def canary_id_def canaryPrefix_def)
  note fresh = assms(1) assms(2)[folded rid_def]
  obtain u pre where u: "start_platform_run (wd_env wd) rid s = (Inr (), u)" "canary_in s rid StateRunning pre u"
    "map story pre = canary_start"
    using canary_started [OF fresh ne assms(3,4)] by blast
  then obtain canary where canary: "find_run rid u = Some canary" "run_id canary = rid" "run_generation canary = 0"
    by (auto simp: canary_in_def dest: find_run_Some)
  have sha: "toolSignature (wd_sha wd) canary_payload \<noteq> []"
    using assms(9) by (simp only: canary_signature) simp
  obtain w new where w: "probe_canary wd canary rid a u = (Inr (), a, w)" "canary_in s rid StateParked new w"
    "map story new = canary_start @ replicate (nat n) (''tool.completed'', None) @
      [(EventState, Some StateParked), (EventFlagged, None)]"
    "\<forall>e\<in>set new. ev_type e = EventFlagged \<longrightarrow> flag_class (ev_payload e) = RuleLoop"
    using canary_caught [OF u(2,3) fresh ne assms(3-8) sha canary(2,3)] by blast
  obtain q t g where t: "TransitionTx (wd_env wd) rid StateFinalized (platform_options ''dead-man canary complete'') w = Inr (q, t)"
    "canary_in s rid StateFinalized (new @ [g]) t" "story g = (EventState, Some StateFinalized)"
    using canary_takes [OF w(2) ne assms(3,4), of StateFinalized "''dead-man canary complete''"] by (auto simp: canary_edges_def)
  have "createCanary (wd_env wd) rid s = (Inr canary, u)" using u(1) canary(1) by (simp add: createCanary_def Get_def)
  moreover have "terminateCanary (wd_env wd) rid w = t"
    using w(2) t(1) by (auto simp: terminateCanary_def Get_def canary_in_def Transition_def write_tx_def)
  ultimately have run: "DeadManProbe wd a s = (Inr (), a, t)"
    using w(1) by (simp add: DeadManProbe_def Let_def rid_def)
  obtain r where r: "find_run rid t = Some r" "run_state r = StateFinalized" using t(2) by (auto simp: canary_in_def)
  have "map story (new @ [g]) = canary_story (nat n)" using w(3) t(3) by (simp add: canary_story_def canary_start_def)
  moreover have "ev_type g \<noteq> EventFlagged" using t(3) by (auto simp: story_def EventFlagged_def event_type_defs)
  ultimately show ?thesis using run r t(2) w(4) unfolding rid_def [symmetric]
    by (intro exI [of _ t] exI [of _ "new @ [g]"] exI [of _ r]) (auto simp: canary_in_def)
qed

text \<open>
  C25: the dead-man probe works, and cannot fail silently.  Suppose the name of the canary is unused, the
  payload bound is at least four kilobytes, the repeat threshold is at least one and at most the counters'
  window of 128 events, the hash of the canary's call is not empty, no local judge is configured, and the
  run-end hook, if there is one, writes nothing for a run of the platform.  Then the probe succeeds, and the
  events it appends, all of the canary, are exactly: its creation, the way to queued, claimed and running,
  as many tool completions as the threshold, the change to parked, one flag, which names the loop rule, and
  the change to finalized; the canary's row ends finalized.  In every environment, a probe that ends without
  an error leaves either a flagged canary and a judge that answered, or an open alarm card of the platform.
\<close>

theorem dead_man_probe:
  assumes "good s" "hook_ok (wd_env wd)"
  shows "(find_run (canary_id (wd_env wd)) s = None \<and> payload_room (wd_env wd) \<and> spares_platform (wd_env wd) \<and>
    wd_duty wd = None \<and> set_int (env_settings (wd_env wd)) keyLoopRepeat = Some n \<and> 1 \<le> n \<and> n \<le> 128 \<and>
    wd_sha wd (''deadman.synthetic'' @ [char_of (0::nat)] @ ''sha256:deadman-canary'') \<noteq> [] \<longrightarrow>
      (\<exists>t new r. DeadManProbe wd a s = (Inr (), a, t) \<and> t_events t = t_events s @ new \<and>
        (\<forall>e\<in>set new. ev_run e = canary_id (wd_env wd)) \<and> map story new = canary_story (nat n) \<and>
        (\<forall>e\<in>set new. ev_type e = EventFlagged \<longrightarrow> flag_class (ev_payload e) = RuleLoop) \<and>
        find_run (canary_id (wd_env wd)) t = Some r \<and> run_state r = StateFinalized)) \<and>
    (DeadManProbe wd a s = (Inr (), a', t) \<longrightarrow>
      (\<exists>canary v u. createCanary (wd_env wd) (canary_id (wd_env wd)) s = (Inr canary, v) \<and>
        t = terminateCanary (wd_env wd) (canary_id (wd_env wd)) u \<and>
        (canaryFlagged (canary_id (wd_env wd)) u \<and> fst (deadManLiveness wd (canary_id (wd_env wd)) a v) \<or>
         openOwnerlessFlagExists RuleDeadMan u)))"
  using probe_detects [OF assms(1)] probe_speaks [OF _ assms] by blast

text \<open>
  An environment with a hook: like the shell's it lets runs of the platform be, and it refuses the end
  of any other.
\<close>

definition hooked_env :: env where
  "hooked_env = sample_env\<lparr>env_hook := Some (\<lambda>r. if run_user r = ActorPlatform then tx_return () else tx_fail EmptyUserID),
     env_settings := sample_cfg\<lparr>set_int := (\<lambda>k. if k = keyLoopRepeat then Some 5 else Some 65536)\<rparr>\<rparr>"

lemma hooked_env: "hook_ok hooked_env" "spares_platform hooked_env"
  unfolding hook_ok_def spares_platform_def hooked_env_def
  by (auto intro: evolve.frame_rules) (simp add: tx_return_def)

definition probe_watch :: watch_env where
  "probe_watch = sample_watch\<lparr>wd_env := hooked_env\<rparr>"

theorem dead_man_probe_witness:
  "\<exists>t new. DeadManProbe probe_watch new_admitter sample_running = (Inr (), new_admitter, t) \<and>
     t_events t = t_events sample_running @ new \<and> map story new = canary_story 5"
proof -
  have good: "good sample_running" by (simp add: sample_running_def sample_good)
  have hook: "hook_ok (wd_env probe_watch)" "spares_platform (wd_env probe_watch)"
    by (simp_all add: probe_watch_def hooked_env)
  have "canary_id (wd_env probe_watch) \<noteq> ''r''" by (simp add: canary_id_def canaryPrefix_def)
  then have fresh: "find_run (canary_id (wd_env probe_watch)) sample_running = None"
    by (simp add: sample_run_eval cong: tx_bind_weak)
  have "keyPayloadCap \<noteq> keyLoopRepeat" by (simp add: keyPayloadCap_def keyLoopRepeat_def)
  then have room: "payload_room (wd_env probe_watch)"
    by (simp add: payload_room_def probe_watch_def hooked_env_def sample_env_def)
  have rest: "wd_duty probe_watch = None"
    "set_int (env_settings (wd_env probe_watch)) keyLoopRepeat = Some 5"
    "wd_sha probe_watch (''deadman.synthetic'' @ [char_of (0::nat)] @ ''sha256:deadman-canary'') \<noteq> []"
    by (simp_all add: probe_watch_def hooked_env_def sample_env_def sample_watch_def)
  from dead_man_probe [OF good hook(1), THEN conjunct1, of 5 new_admitter] fresh room rest hook(2)
  show ?thesis by auto
qed

end
