(* ===== verification/Float_Facts.thy ===== *)
theory Float_Facts
  imports Float64
begin

text \<open>Rounding is idempotent, and exact on the integers of at most 53 bits.\<close>

lemma binade_eqI: "two_pow k \<le> x \<Longrightarrow> x < two_pow (k + 1) \<Longrightarrow> - 64 < k \<Longrightarrow> k \<le> 63 \<Longrightarrow> binade x = k"
proof -
  assume a: "two_pow k \<le> x" "x < two_pow (k + 1)" "- 64 < k" "k \<le> 63"
  have le: "binade x \<le> k" using binade_less [of x k] a by simp
  show "binade x = k"
  proof (rule ccontr)
    assume "binade x \<noteq> k"
    with le have lt: "binade x + 1 \<le> k" by simp
    with a(4) have "x < two_pow (binade x + 1)" by (intro binade_high) simp
    also have "\<dots> \<le> two_pow k" using lt by (rule two_pow_mono)
    finally show False using a(1) by simp
  qed
qed

lemma fl_of_grid: "0 < y \<Longrightarrow> y / ulp y = of_int k \<Longrightarrow> fl y = y"
  by (simp add: fl_pos) (metis nonzero_eq_divide_eq ulp_nonneg(2))

lemma binade_mono: "x \<le> y \<Longrightarrow> binade x \<le> binade y"
proof (rule ccontr)
  assume xy: "x \<le> y" and "\<not> binade x \<le> binade y"
  then have lt: "binade y + 1 \<le> binade x" by simp
  then have "- 64 < binade x" using binade_bounds(1) [of y] by simp
  then have "two_pow (binade x) \<le> x" by (rule binade_low)
  moreover have "y < two_pow (binade y + 1)" using lt binade_bounds(2) [of x] by (intro binade_high) simp
  moreover have "two_pow (binade y + 1) \<le> two_pow (binade x)" using lt by (rule two_pow_mono)
  ultimately show False using xy by linarith
qed

text \<open>The significand a positive number rounds to, and the binade of the result.\<close>

definition significand :: "rat \<Rightarrow> int" where
  "significand x = round_half_even (x / ulp x)"

lemma fl_significand: "0 < x \<Longrightarrow> fl x = of_int (significand x) * ulp x"
  by (simp add: fl_pos significand_def)

lemma significand_high:
  assumes "binade x < 63"
  shows "significand x \<le> 2 ^ 53"
proof -
  have "x < two_pow (binade x + 1)" using assms by (rule binade_high)
  then have "x / ulp x < 2 ^ 53" by (simp add: pos_divide_less_eq ulp_scale(2))
  then have "significand x \<le> round_half_even (of_int (2 ^ 53))"
    unfolding significand_def by (intro round_half_even_mono) simp
  then show ?thesis by (simp only: round_half_even_of_int)
qed

lemma significand_low:
  assumes "- 64 < binade x"
  shows "2 ^ 52 \<le> significand x"
proof -
  have "2 ^ 52 * ulp x \<le> x" using binade_low [OF assms] ulp_scale(1) [of x] by simp
  then have "(2::rat) ^ 52 \<le> x / ulp x" by (simp add: pos_le_divide_eq)
  then have "round_half_even (of_int (2 ^ 52)) \<le> significand x"
    unfolding significand_def by (intro round_half_even_mono) simp
  then show ?thesis by (simp only: round_half_even_of_int)
qed

lemma binade_two_pow: "- 64 < k \<Longrightarrow> k \<le> 63 \<Longrightarrow> binade (two_pow k) = k"
  using two_pow_Suc [of k] two_pow_pos [of k] by (intro binade_eqI) simp_all

lemma fl_binade_ge:
  assumes "0 < x"
  shows "binade x \<le> binade (fl x)"
proof (cases "binade x = - 64")
  case False
  then have b: "- 64 < binade x" using binade_bounds(1) [of x] by simp
  have "rat_of_int (2 ^ 52) \<le> of_int (significand x)" using significand_low [OF b] by (simp only: of_int_le_iff)
  then have "two_pow (binade x) \<le> fl x" using assms by (simp add: fl_significand ulp_scale(1))
  then have "binade (two_pow (binade x)) \<le> binade (fl x)" by (rule binade_mono)
  with b show ?thesis using binade_bounds(2) [of x] by (simp add: binade_two_pow)
qed (use binade_bounds(1) [of "fl x"] in simp)

lemma fl_binade:
  assumes "0 < x"
  shows "binade (fl x) = binade x \<or> fl x = two_pow (binade (fl x)) \<and> - 64 < binade (fl x)"
proof (cases "binade x = 63")
  case True
  then show ?thesis using fl_binade_ge [OF assms] binade_bounds(2) [of "fl x"] by simp
next
  case False
  then have b: "binade x < 63" using binade_bounds(2) [of x] by simp
  show ?thesis
  proof (cases "significand x = 2 ^ 53")
    case True
    then have e: "fl x = two_pow (binade x + 1)" using assms by (simp add: fl_significand ulp_scale(2))
    have "binade (fl x) = binade x + 1"
      unfolding e using binade_bounds(1) [of x] b by (intro binade_two_pow) simp_all
    with e show ?thesis using binade_bounds(1) [of x] by simp
  next
    case False
    with significand_high [OF b] have "rat_of_int (significand x) < of_int (2 ^ 53)" by (simp only: of_int_less_iff)
    then have "fl x < two_pow (binade x + 1)" using assms by (simp add: fl_significand ulp_scale(2))
    then have "binade (fl x) \<le> binade x" using binade_bounds(1) [of x] by (intro binade_less) simp_all
    with fl_binade_ge [OF assms] show ?thesis by simp
  qed
qed

lemma fl_idem_pos:
  assumes "0 < x"
  shows "fl (fl x) = fl x"
proof (cases "fl x = 0")
  case False
  then have pos: "0 < fl x" using fl_nonneg [of x] assms by simp
  from fl_binade [OF assms] show ?thesis
  proof
    assume "binade (fl x) = binade x"
    then have "ulp (fl x) = ulp x" by (simp add: ulp_def)
    then have "fl x / ulp (fl x) = of_int (significand x)" using assms by (simp add: fl_significand)
    then show ?thesis by (rule fl_of_grid [OF pos])
  next
    assume "fl x = two_pow (binade (fl x)) \<and> - 64 < binade (fl x)"
    then have "fl x / ulp (fl x) = of_int (2 ^ 52)" using ulp_scale(1) [of "fl x"] by (simp add: field_simps)
    then show ?thesis by (rule fl_of_grid [OF pos])
  qed
qed simp

lemma fl_minus: "fl (- x) = - fl x"
  by (simp add: fl_def sgn_rat_def)

lemma fl_idem [simp]: "fl (fl x) = fl x"
proof (cases "x < 0")
  case True
  then have "fl (fl (- x)) = fl (- x)" by (intro fl_idem_pos) simp
  then show ?thesis by (simp add: fl_minus)
next
  case False
  then show ?thesis by (cases "x = 0") (auto intro: fl_idem_pos)
qed

lemma two_pow_nat: "two_pow (int k) = 2 ^ k"
  by (simp add: two_pow_def)

lemma fl_small_int:
  assumes "\<bar>i\<bar> \<le> 2 ^ 53"
  shows "fl (of_int i) = of_int i"
proof -
  have pos: "fl (of_int j) = of_int j" if j: "0 < j" "j < 2 ^ 53" for j
  proof -
    have "rat_of_int j < of_int (2 ^ 53)" using j by (simp only: of_int_less_iff)
    then have "rat_of_int j < two_pow (52 + 1)" by (simp add: two_pow_def)
    then have b: "binade (of_int j) \<le> 52" by (rule binade_less) simp
    define k where "k = nat (52 - binade (of_int j))"
    have "ulp (rat_of_int j) = 1 / 2 ^ k"
      using b by (cases "binade (rat_of_int j) = 52") (simp_all add: ulp_def two_pow_def k_def)
    then have "of_int j / ulp (rat_of_int j) = of_int (j * 2 ^ k)" by simp
    then show ?thesis using j(1) by (intro fl_of_grid [where k = "j * 2 ^ k"]) simp_all
  qed
  have top: "fl (of_int (2 ^ 53)) = of_int (2 ^ 53)"
  proof -
    have "binade (of_int (2 ^ 53)) = 53" by (rule binade_eqI) (simp_all add: two_pow_def)
    then have "of_int (2 ^ 53) / ulp (rat_of_int (2 ^ 53)) = of_int (2 ^ 52)" by (simp add: ulp_def two_pow_def)
    then show ?thesis by (intro fl_of_grid) simp_all
  qed
  consider "i = 0" | "0 < i" "i < 2 ^ 53" | "i = 2 ^ 53" | "i < 0" "- i < 2 ^ 53" | "- i = 2 ^ 53"
    using assms by linarith
  then show ?thesis
  proof cases
    case 4
    then show ?thesis using pos [of "- i"] by (simp add: fl_minus)
  next
    case 5
    then have "i = - (2 ^ 53)" by simp
    then show ?thesis using top by (simp add: fl_minus)
  qed (use pos [of i] top in simp_all)
qed

end
