(* ===== verification/Float_Wide.thy ===== *)
theory Float_Wide
  imports Float_Facts Watch_Properties
begin

text \<open>
  The \<open>float64\<close> of a decimal literal of any magnitude: the rounding of \<open>Float64\<close>, which is exact up to
  \<open>2 ^ 64\<close>, on the scaled value.  What a literal rounds to is a \<open>float64\<close> again and has a decimal text.
\<close>

fun round_scaled :: "nat \<Rightarrow> rat \<Rightarrow> rat" where
  "round_scaled 0 x = fl x"
| "round_scaled (Suc n) x = (if \<bar>x\<bar> < 2 ^ 64 then fl x else 2 ^ 64 * round_scaled n (x / 2 ^ 64))"

definition float_of :: "rat \<Rightarrow> rat" where
  "float_of x = round_scaled 15 x"

lemma float_of_small: "\<bar>x\<bar> < 2 ^ 64 \<Longrightarrow> float_of x = fl x"
  using round_scaled.simps(2) [of 14 x] by (simp add: float_of_def)

lemma round_scaled_minus: "round_scaled n (- x) = - round_scaled n x"
  by (induction n arbitrary: x) (simp_all add: fl_minus)

lemma fl_1: "fl 1 = 1"
  using fl_small_int [of 1] by simp

lemma fl_ge_1: "1 \<le> x \<Longrightarrow> 1 \<le> fl x"
  using fl_mono [of 1 x] fl_1 by simp

lemma binade_top: "2 ^ 63 \<le> x \<Longrightarrow> binade x = 63"
proof -
  assume "2 ^ 63 \<le> x"
  then have "binade (two_pow 63) \<le> binade x" by (intro binade_mono) (simp add: two_pow_def)
  then show "binade x = 63" using binade_bounds(2) [of x] by (simp add: binade_two_pow)
qed

lemma fl_two_pow_64: "fl (2 ^ 64) = 2 ^ 64"
proof -
  have "binade (2 ^ 64) = 63" by (rule binade_top) simp
  then have "2 ^ 64 / ulp (2 ^ 64) = of_int (2 ^ 53)" by (simp add: ulp_def two_pow_def)
  then show ?thesis by (intro fl_of_grid) simp_all
qed

lemma round_scaled_ge_1: "1 \<le> x \<Longrightarrow> 1 \<le> round_scaled n x"
proof (induction n arbitrary: x)
  case (Suc n)
  show ?case
  proof (cases "\<bar>x\<bar> < 2 ^ 64")
    case False
    with Suc.prems have "1 \<le> x / 2 ^ 64" by simp
    then have "1 \<le> round_scaled n (x / 2 ^ 64)" by (rule Suc.IH)
    with False show ?thesis by simp
  qed (simp add: fl_ge_1 Suc.prems)
qed (simp add: fl_ge_1)

lemma round_scaled_idem_nonneg: "0 \<le> x \<Longrightarrow> round_scaled n (round_scaled n x) = round_scaled n x"
proof (induction n arbitrary: x)
  case (Suc n)
  show ?case
  proof (cases "x < 2 ^ 64")
    case True
    then have le: "fl x \<le> 2 ^ 64" using fl_mono [of x "2 ^ 64"] Suc.prems fl_two_pow_64 by simp
    have one: "round_scaled n 1 = 1" by (cases n) (simp_all add: fl_1)
    show ?thesis
      using True Suc.prems le fl_nonneg [of x] one by (cases "fl x = 2 ^ 64") simp_all
  next
    case False
    then have "1 \<le> x / 2 ^ 64" by simp
    then have "1 \<le> round_scaled n (x / 2 ^ 64)" by (rule round_scaled_ge_1)
    then show ?thesis using False Suc.IH [of "x / 2 ^ 64"] by simp
  qed
qed simp

lemma float_of_idem [simp]: "float_of (float_of x) = float_of x"
  using round_scaled_idem_nonneg [of x 15] round_scaled_idem_nonneg [of "- x" 15]
  by (cases "0 \<le> x") (simp_all add: float_of_def round_scaled_minus)

section \<open>The largest number\<close>

lemma fl_top:
  assumes "0 \<le> x" "x < 2 ^ 64 - 2 ^ 10"
  shows "fl x \<le> 2 ^ 64 - 2 ^ 11"
proof (cases "x \<le> 2 ^ 64 - 2 ^ 11")
  case True
  let ?m = "2 ^ 64 - 2 ^ 11 :: rat"
  have "binade ?m = 63" by (rule binade_top) simp
  then have "?m / ulp ?m = of_int (2 ^ 53 - 1)" by (simp add: ulp_def two_pow_def)
  then have "fl ?m = ?m" by (intro fl_of_grid) simp_all
  with True fl_mono [OF assms(1) True] show ?thesis by simp
next
  case False
  have b: "binade x = 63" by (rule binade_top) (use False in simp)
  then have u: "ulp x = 2 ^ 11" by (simp add: ulp_def two_pow_def)
  have r: "2 ^ 53 - 1 < x / ulp x" "x / ulp x < 2 ^ 53 - 1 / 2" using False assms(2) by (simp_all add: u)
  have "x / ulp x < 2 ^ 53" by (rule less_trans [OF r(2)]) simp
  with r(1) have "\<lfloor>x / ulp x\<rfloor> = 2 ^ 53 - 1" by (simp add: floor_eq_iff)
  then have "round_half_even (x / ulp x) = 2 ^ 53 - 1" using r by (simp add: round_half_even_def Let_def)
  moreover have "0 < x" using False by simp
  ultimately show ?thesis by (simp add: fl_pos u)
qed

lemma round_scaled_top:
  "0 \<le> x \<Longrightarrow> x < 2 ^ (64 * Suc n) - 2 ^ (64 * Suc n - 54) \<Longrightarrow>
   round_scaled n x \<le> 2 ^ (64 * Suc n) - 2 ^ (64 * Suc n - 53)"
proof (induction n arbitrary: x)
  case 0
  then show ?case using fl_top [of x] by simp
next
  case (Suc n)
  let ?k = "64 * Suc n"
  have e: "(2::rat) ^ (64 * Suc (Suc n)) = 2 ^ 64 * 2 ^ ?k" "(2::rat) ^ (64 * Suc (Suc n) - 54) = 2 ^ 64 * 2 ^ (?k - 54)"
    "(2::rat) ^ (64 * Suc (Suc n) - 53) = 2 ^ 64 * 2 ^ (?k - 53)"
    by (simp_all only: power_add [symmetric]) (simp_all add: algebra_simps)
  show ?case
  proof (cases "x < 2 ^ 64")
    case True
    then have "fl x \<le> 2 ^ 64" using fl_mono [of x "2 ^ 64"] Suc.prems(1) fl_two_pow_64 by simp
    also have "(2::rat) ^ 64 * 1 \<le> 2 ^ 64 * ((2 ^ 53 - 1) * 2 ^ (?k - 53))"
    proof (rule mult_left_mono)
      have "(1::rat) * 1 \<le> (2 ^ 53 - 1) * 2 ^ (?k - 53)" by (rule mult_mono) simp_all
      then show "(1::rat) \<le> (2 ^ 53 - 1) * 2 ^ (?k - 53)" by simp
    qed simp
    also have "(2 ^ 53 - 1) * 2 ^ (?k - 53) = 2 ^ ?k - (2::rat) ^ (?k - 53)"
      by (simp only: left_diff_distrib power_add [symmetric]) simp
    finally show ?thesis using True Suc.prems(1) unfolding e by (simp add: algebra_simps)
  next
    case False
    have "x / 2 ^ 64 < 2 ^ ?k - 2 ^ (?k - 54)" using Suc.prems(2) unfolding e by (simp add: field_simps)
    moreover have "0 \<le> x / 2 ^ 64" using Suc.prems(1) by simp
    ultimately have "round_scaled n (x / 2 ^ 64) \<le> 2 ^ ?k - 2 ^ (?k - 53)" using Suc.IH [of "x / 2 ^ 64"] by simp
    with False show ?thesis unfolding e by simp
  qed
qed

lemma float_of_fits: "float_fits x \<Longrightarrow> float_fits (float_of x)"
proof -
  have top: "float_of y < 2 ^ 1024 - 2 ^ 970" if "0 \<le> y" "y < 2 ^ 1024 - 2 ^ 970" for y
  proof -
    have "float_of y \<le> 2 ^ 1024 - 2 ^ 971" using round_scaled_top [of y 15] that by (simp add: float_of_def)
    also have "\<dots> < 2 ^ 1024 - 2 ^ 970" by simp
    finally show ?thesis .
  qed
  have nonneg: "0 \<le> round_scaled n y" if "0 \<le> y" for n y
    using that by (induction n arbitrary: y) (simp_all add: fl_nonneg)
  assume "float_fits x"
  then show "float_fits (float_of x)"
    using top [of x] top [of "- x"] nonneg [of x 15] nonneg [of "- x" 15]
    by (cases "0 \<le> x") (simp_all add: float_fits_def float_of_def round_scaled_minus)
qed

section \<open>A decimal text\<close>

text \<open>Every \<open>float64\<close> is a multiple of \<open>2 ^ -116\<close>, so 116 decimals write it exactly.\<close>

definition decimal_text :: "rat \<Rightarrow> string" where
  "decimal_text q = dec_int \<lfloor>q * 10 ^ 116\<rfloor> @ ''e-116''"

lemma fl_multiple: "\<exists>i. fl x = of_int i / 2 ^ 116"
proof -
  have "two_pow (binade y - 52) = of_int (2 ^ nat (binade y + 64)) / 2 ^ 116" for y
    using two_pow_add [of "- 116" "nat (binade y + 64)"] binade_bounds(1) [of y] by (simp add: two_pow_def)
  then have "fl x = of_int (round_half_even (x / ulp x) * 2 ^ nat (binade x + 64)) / 2 ^ 116" if "0 < x" for x
    using fl_pos [OF that] by (simp add: ulp_def)
  then have pos: "\<exists>i. fl x = of_int i / 2 ^ 116" if "0 < x" for x using that by blast
  consider "0 < x" | "x = 0" | "0 < - x" by linarith
  then show ?thesis
  proof cases
    case 3
    from pos [OF 3] obtain i where "- fl x = of_int i / 2 ^ 116" by (auto simp: fl_minus)
    then have "fl x = of_int (- i) / 2 ^ 116" by simp
    then show ?thesis by blast
  next
    case 2
    then have "fl x = of_int 0 / 2 ^ 116" by simp
    then show ?thesis by blast
  qed (rule pos)
qed

lemma round_scaled_multiple: "\<exists>i. round_scaled n x = of_int i / 2 ^ 116"
proof (induction n arbitrary: x)
  case 0
  show ?case unfolding round_scaled.simps by (rule fl_multiple)
next
  case (Suc n)
  obtain i where "round_scaled n (x / 2 ^ 64) = of_int i / 2 ^ 116" using Suc by blast
  then have "2 ^ 64 * round_scaled n (x / 2 ^ 64) = of_int (2 ^ 64 * i) / 2 ^ 116" by simp
  then have "\<exists>i. 2 ^ 64 * round_scaled n (x / 2 ^ 64) = of_int i / 2 ^ 116" by blast
  then show ?case using fl_multiple [of x] by (cases "\<bar>x\<bar> < 2 ^ 64") simp_all
qed

lemma literal_exponent_nat: "literal_value (dec_nat n @ ''e-116'') = of_nat n / 10 ^ 116"
proof -
  have d: "list_all is_digit (dec_nat n)" "digits_value (dec_nat n) = of_nat n"
    using dec_nat_digits [of n] by auto
  have "\<not> starts_with ''-'' (dec_nat n @ ''e-116'')"
    using hd_dec_nat [of n] by (cases "dec_nat n") auto
  moreover have "takeWhile is_digit (dec_nat n @ ''e-116'') = dec_nat n"
    "dropWhile is_digit (dec_nat n @ ''e-116'') = ''e-116''"
    using d(1) by (simp_all add: list_all_iff takeWhile_append2 dropWhile_append2 is_digit_def)
  moreover have "exponent_of ''e-116'' = - 116" by (simp add: exponent_of_def digits_value_def)
  ultimately show ?thesis unfolding literal_value_def Let_def
    by (simp add: d(2) ten_pow_def)
qed

lemma literal_exponent: "literal_value (dec_int i @ ''e-116'') = of_int i / 10 ^ 116"
proof (cases "i < 0")
  case True
  have "literal_value (CHR ''-'' # dec_nat (nat (- i)) @ ''e-116'') = - literal_value (dec_nat (nat (- i)) @ ''e-116'')"
    using hd_dec_nat [of "nat (- i)"]
    by (cases "dec_nat (nat (- i))") (auto simp: literal_value_def Let_def)
  with True show ?thesis by (simp add: dec_int_def literal_exponent_nat)
qed (simp add: dec_int_def literal_exponent_nat)

lemma decimal_text_value: "float_of q = q \<Longrightarrow> literal_value (decimal_text q) = q"
proof -
  assume "float_of q = q"
  then obtain i where i: "q = of_int i / 2 ^ 116" using round_scaled_multiple [of 15 q] by (auto simp: float_of_def)
  have "(10::rat) ^ 116 = 2 ^ 116 * 5 ^ 116" by (simp only: power_mult_distrib [symmetric]) simp
  with i have m: "q * 10 ^ 116 = of_int (i * 5 ^ 116)" by simp
  then have "\<lfloor>q * 10 ^ 116\<rfloor> = i * 5 ^ 116" by (simp only: floor_of_int)
  then have "literal_value (decimal_text q) = of_int (i * 5 ^ 116) / 10 ^ 116"
    by (simp only: decimal_text_def literal_exponent)
  also have "\<dots> = q" by (simp only: m [symmetric]) simp
  finally show ?thesis .
qed

end
