(* ===== verification/Settings_Values.thy ===== *)
theory Settings_Values
  imports Float_Wide
begin

text \<open>
  The values of the settings registry (\<open>internal/settings/settings.go\<close>): the types and the
  declarations, the canonical representation of a value and its JSON, the decoding of a write, the
  clamp and the actors.  A declaration's title, help and provenance are display text and left out.
\<close>

section \<open>Types and declarations\<close>

datatype cfg_type = TypeBool | TypeInt | TypeFloat | TypeDuration | TypeString | TypeEnum | TypeList | TypeMap

definition numeric :: "cfg_type \<Rightarrow> bool" where
  "numeric t \<longleftrightarrow> t = TypeInt \<or> t = TypeFloat \<or> t = TypeDuration"

text \<open>The canonical representations; a map keeps its keys in order, as it is encoded.\<close>

datatype cfg_value =
    VBool bool
  | VInt int
  | VFloat rat
  | VString string
  | VList "string list"
  | VMap "(string \<times> string) list"

record cfg_decl =
  d_key :: string
  d_section :: string
  d_type :: cfg_type
  d_unit :: string
  d_default :: cfg_value
  d_min :: "rat option"
  d_max :: "rat option"
  d_minexcl :: bool
  d_enum :: "string list"
  d_auto :: bool
  d_peruser :: bool
  d_restart :: bool
  d_dormant :: string

definition Domain :: "cfg_decl \<Rightarrow> string" where
  "Domain d = (if CHR ''.'' \<in> set (d_key d) then takeWhile (\<lambda>c. c \<noteq> CHR ''.'') (d_key d) else d_key d)"

section \<open>Actors and errors\<close>

datatype actor_kind = ActorOperator | ActorAutomation | ActorOther string

record cfg_actor =
  ac_kind :: actor_kind
  ac_id :: string

definition kind_name :: "actor_kind \<Rightarrow> string" where
  "kind_name k = (case k of ActorOperator \<Rightarrow> ''operator'' | ActorAutomation \<Rightarrow> ''automation'' | ActorOther s \<Rightarrow> s)"

definition actor_text :: "cfg_actor \<Rightarrow> string" where
  "actor_text a = kind_name (ac_kind a) @ '':'' @ ac_id a"

datatype cfg_error =
    ErrUnknownKey string
  | ErrNotAttached
  | ErrOutOfBounds
  | ErrAutomation
  | ErrInvalidRequest
  | CfgFault string \<comment> \<open>an unmarked error, named by its place\<close>
  | CfgStore error \<comment> \<open>an error of the write transaction\<close>

definition actor_check :: "cfg_actor \<Rightarrow> cfg_error + unit" where
  "actor_check a = (case ac_kind a of
       ActorOther _ \<Rightarrow> Inl (CfgFault ''unknown actor kind'')
     | _ \<Rightarrow> if ac_id a = [] then Inl (CfgFault ''actor id is empty'') else Inr ())"

section \<open>Checking values\<close>

text \<open>A value of the declared type's canonical representation.\<close>

definition typed_as :: "cfg_type \<Rightarrow> cfg_value \<Rightarrow> bool" where
  "typed_as t v = (case v of
       VBool _ \<Rightarrow> t = TypeBool
     | VInt _ \<Rightarrow> t = TypeInt \<or> t = TypeDuration
     | VFloat _ \<Rightarrow> t = TypeFloat
     | VString _ \<Rightarrow> t = TypeString \<or> t = TypeEnum
     | VList _ \<Rightarrow> t = TypeList
     | VMap _ \<Rightarrow> t = TypeMap)"

definition checkType :: "cfg_decl \<Rightarrow> cfg_value \<Rightarrow> cfg_error + cfg_value" where
  "checkType d v =
     (if \<not> typed_as (d_type d) v then Inl ErrInvalidRequest
      else case v of
          VString s \<Rightarrow> if d_type d = TypeEnum \<and> s \<notin> set (d_enum d) then Inl ErrInvalidRequest else Inr v
        | _ \<Rightarrow> Inr v)"

text \<open>
  \<open>json.Unmarshal\<close> into a \<open>bool\<close>, \<open>float64\<close>, \<open>string\<close>, \<open>[]string\<close> and \<open>map[string]string\<close>: a JSON null
  leaves the zero value.  A \<open>float64\<close> is the literal rounded.
\<close>

definition json_bool :: "json \<Rightarrow> bool option" where
  "json_bool j = (case j of JBool b \<Rightarrow> Some b | JNull \<Rightarrow> Some False | _ \<Rightarrow> None)"

definition json_float :: "json \<Rightarrow> rat option" where
  "json_float j = (case j of
       JNum lit \<Rightarrow> if float_fits (literal_value lit) then Some (float_of (literal_value lit)) else None
     | JNull \<Rightarrow> Some 0
     | _ \<Rightarrow> None)"

definition json_string :: "json \<Rightarrow> string option" where
  "json_string j = (case j of JStr s \<Rightarrow> Some s | JNull \<Rightarrow> Some [] | _ \<Rightarrow> None)"

fun json_strings :: "json list \<Rightarrow> string list option" where
  "json_strings [] = Some []"
| "json_strings (j # js) = (case json_string j of
       None \<Rightarrow> None | Some s \<Rightarrow> map_option (\<lambda>ss. s # ss) (json_strings js))"

fun json_members :: "(string \<times> string) list \<Rightarrow> (string \<times> json) list \<Rightarrow> (string \<times> string) list option" where
  "json_members acc [] = Some acc"
| "json_members acc ((k, j) # fs) = (case json_string j of
       None \<Rightarrow> None | Some s \<Rightarrow> json_members (field_put k s acc) fs)"

definition json_list :: "json \<Rightarrow> string list option" where
  "json_list j = (case j of JArr js \<Rightarrow> json_strings js | JNull \<Rightarrow> Some [] | _ \<Rightarrow> None)"

definition json_map :: "json \<Rightarrow> (string \<times> string) list option" where
  "json_map j = (case j of JObj fs \<Rightarrow> json_members [] fs | JNull \<Rightarrow> Some [] | _ \<Rightarrow> None)"

text \<open>The conversion \<open>int64(f)\<close> of a whole \<open>float64\<close>; out of range it gives the least value, as on amd64.\<close>

definition int64_of_float :: "rat \<Rightarrow> int" where
  "int64_of_float q = (if of_int int64_min \<le> q \<and> q \<le> of_int int64_max then trunc q else int64_min)"

definition dec :: "'a option \<Rightarrow> cfg_error + 'a" where
  "dec x = (case x of None \<Rightarrow> Inl ErrInvalidRequest | Some v \<Rightarrow> Inr v)"

definition decode_json :: "cfg_decl \<Rightarrow> json \<Rightarrow> cfg_error + cfg_value" where
  "decode_json d j = (case d_type d of
       TypeBool \<Rightarrow> map_sum id VBool (dec (json_bool j))
     | TypeFloat \<Rightarrow> map_sum id VFloat (dec (json_float j))
     | TypeList \<Rightarrow> map_sum id VList (dec (json_list j))
     | TypeMap \<Rightarrow> map_sum id VMap (dec (json_map j))
     | TypeString \<Rightarrow> (case json_string j of
           None \<Rightarrow> Inl ErrInvalidRequest | Some s \<Rightarrow> checkType d (VString s))
     | TypeEnum \<Rightarrow> (case json_string j of
           None \<Rightarrow> Inl ErrInvalidRequest | Some s \<Rightarrow> checkType d (VString s))
     | _ \<Rightarrow> (case json_float j of
           None \<Rightarrow> Inl ErrInvalidRequest
         | Some f \<Rightarrow> if f \<noteq> of_int (trunc f) then Inl ErrInvalidRequest else Inr (VInt (int64_of_float f))))"

definition decodeValue :: "cfg_decl \<Rightarrow> raw \<Rightarrow> cfg_error + cfg_value" where
  "decodeValue d r = (case raw_json r of None \<Rightarrow> Inl ErrInvalidRequest | Some j \<Rightarrow> decode_json d j)"

text \<open>
  The numeric view.  A value of another type than the declaration's panics in the type assertion; here
  it has no view, and \<open>values_typed\<close> shows that no such value is ever held.
\<close>

definition numericOf :: "cfg_decl \<Rightarrow> cfg_value \<Rightarrow> rat option" where
  "numericOf d v = (case v of
       VInt i \<Rightarrow> if d_type d = TypeInt \<or> d_type d = TypeDuration then Some (fl (of_int i)) else None
     | VFloat q \<Rightarrow> if d_type d = TypeFloat then Some q else None
     | _ \<Rightarrow> None)"

type_synonym cfg_bounds = "rat option \<times> rat option"

definition checkClamp :: "cfg_decl \<Rightarrow> cfg_bounds option \<Rightarrow> rat \<Rightarrow> bool" where
  "checkClamp d ov n =
     (let floor = (case ov of Some (Some f, _) \<Rightarrow> Some f | _ \<Rightarrow> d_min d);
          declared = (case ov of Some (Some f, _) \<Rightarrow> False | _ \<Rightarrow> True);
          ceiling = (case ov of Some (_, Some c) \<Rightarrow> Some c | _ \<Rightarrow> d_max d)
      in (case floor of None \<Rightarrow> True
          | Some m \<Rightarrow> if d_minexcl d \<and> declared then n > m else n \<ge> m) \<and>
         (case ceiling of None \<Rightarrow> True | Some m \<Rightarrow> n \<le> m))"

text \<open>
  A value of its declaration: of the type, a member of the enumeration, representable; and a value inside bounds.
\<close>

definition in_clamp :: "cfg_decl \<Rightarrow> cfg_bounds option \<Rightarrow> cfg_value \<Rightarrow> bool" where
  "in_clamp d ov v = (case numericOf d v of None \<Rightarrow> True | Some n \<Rightarrow> checkClamp d ov n)"

definition value_ok :: "cfg_decl \<Rightarrow> cfg_value \<Rightarrow> bool" where
  "value_ok d v \<longleftrightarrow> checkType d v = Inr v \<and> (case v of
       VInt i \<Rightarrow> in64 i \<and> fl (of_int i) = of_int i
     | VFloat q \<Rightarrow> float_of q = q \<and> float_fits q
     | VMap m \<Rightarrow> keys_sorted m
     | _ \<Rightarrow> True)"

definition validateDecl :: "cfg_decl \<Rightarrow> bool" where
  "validateDecl d \<longleftrightarrow> d_key d \<noteq> [] \<and> d_section d \<noteq> [] \<and> Domain d \<noteq> d_key d \<and>
     checkType d (d_default d) = Inr (d_default d) \<and>
     (if d_type d = TypeEnum then d_enum d \<noteq> [] else d_enum d = []) \<and>
     (numeric (d_type d) \<or> d_min d = None \<and> d_max d = None) \<and>
     (case (d_min d, d_max d) of (Some m, Some x) \<Rightarrow> m \<le> x | _ \<Rightarrow> True) \<and>
     in_clamp d None (d_default d) \<and>
     (d_auto d \<longrightarrow> numeric (d_type d))"

section \<open>The stored text of a value\<close>

definition value_json :: "(rat \<Rightarrow> string) \<Rightarrow> cfg_value \<Rightarrow> json" where
  "value_json ftext v = (case v of
       VBool b \<Rightarrow> JBool b
     | VInt i \<Rightarrow> json_int i
     | VFloat q \<Rightarrow> JNum (ftext q)
     | VString s \<Rightarrow> JStr s
     | VList l \<Rightarrow> JArr (map JStr l)
     | VMap m \<Rightarrow> JObj (map (\<lambda>(k, s). (k, JStr s)) m))"

definition value_raw :: "(rat \<Rightarrow> string) \<Rightarrow> cfg_value \<Rightarrow> raw" where
  "value_raw ftext v = marshal (value_json ftext v)"

end
