(* ===== verification/Settings_Index.thy ===== *)
theory Settings_Index
  imports Settings_Values
begin

text \<open>
  The declaration index of \<open>internal/settings/index.go\<close>: every setting with its type, default, bounds
  and flags, section by section, and the relational rules between settings.
\<close>

definition plain_decl :: "string \<Rightarrow> string \<Rightarrow> cfg_type \<Rightarrow> cfg_value \<Rightarrow> cfg_decl" where
  "plain_decl key sec t v = \<lparr>d_key = key, d_section = sec, d_type = t, d_unit = [], d_default = v,
     d_min = None, d_max = None, d_minexcl = False, d_enum = [], d_auto = False, d_peruser = False,
     d_restart = False, d_dormant = []\<rparr>"

definition index_shell :: "cfg_decl list" where
  "index_shell =
    [(plain_decl ''shell.drain_grace'' ''S01'' TypeDuration (VInt 900))
       \<lparr>d_unit := ''seconds'', d_min := Some 60, d_max := Some 86400\<rparr>,
     (plain_decl ''shell.watchdog_sec'' ''S01'' TypeInt (VInt 30))
       \<lparr>d_unit := ''seconds'', d_min := Some 10, d_max := Some 300\<rparr>,
     (plain_decl ''shell.inhibit_delay_max'' ''S01'' TypeDuration (VInt 30))
       \<lparr>d_unit := ''seconds'', d_min := Some 5, d_max := Some 60, d_restart := True\<rparr>,
     (plain_decl ''shell.journal_max_use'' ''S01'' TypeInt (VInt 4294967296))
       \<lparr>d_unit := ''bytes'', d_min := Some 536870912, d_max := Some 34359738368,
        d_restart := True\<rparr>]"

definition index_state :: "cfg_decl list" where
  "index_state =
    [(plain_decl ''state.synchronous'' ''S02'' TypeEnum (VString ''FULL''))
       \<lparr>d_enum := [''FULL'', ''NORMAL'']\<rparr>,
     (plain_decl ''state.busy_timeout'' ''S02'' TypeDuration (VInt 5))
       \<lparr>d_unit := ''seconds'', d_min := Some 5\<rparr>,
     (plain_decl ''state.wal_truncate_interval'' ''S02'' TypeDuration (VInt 3600))
       \<lparr>d_unit := ''seconds'', d_min := Some 300, d_max := Some 86400\<rparr>,
     (plain_decl ''state.event_payload_cap'' ''S02'' TypeInt (VInt 65536))
       \<lparr>d_unit := ''bytes'', d_min := Some 4096, d_max := Some 1048576\<rparr>]"

definition index_recovery :: "cfg_decl list" where
  "index_recovery =
    [(plain_decl ''recovery.heartbeat'' ''S02'' TypeDuration (VInt 60))
       \<lparr>d_unit := ''seconds'', d_min := Some 15, d_max := Some 300\<rparr>,
     (plain_decl ''recovery.dead_after'' ''S02'' TypeDuration (VInt 300))
       \<lparr>d_unit := ''seconds''\<rparr>,
     (plain_decl ''recovery.wake_grace'' ''S02'' TypeDuration (VInt 120))
       \<lparr>d_unit := ''seconds'', d_min := Some 30, d_max := Some 600\<rparr>,
     (plain_decl ''recovery.max_attempts'' ''S02'' TypeInt (VInt 3))
       \<lparr>d_min := Some 1, d_max := Some 5\<rparr>,
     (plain_decl ''recovery.stale_finalize'' ''S02'' TypeDuration (VInt 86400))
       \<lparr>d_unit := ''seconds'', d_min := Some 3600\<rparr>,
     (plain_decl ''recovery.sweep_interval'' ''S02'' TypeDuration (VInt 300))
       \<lparr>d_unit := ''seconds'', d_min := Some 60, d_max := Some 1800\<rparr>]"

definition index_effects :: "cfg_decl list" where
  "index_effects =
    [(plain_decl ''effects.approval_expiry'' ''S02'' TypeDuration (VInt 604800))
       \<lparr>d_unit := ''seconds'', d_min := Some 3600, d_max := Some 2592000\<rparr>]"

definition index_claims :: "cfg_decl list" where
  "index_claims =
    [(plain_decl ''claims.default_write'' ''S02'' TypeEnum (VString ''whole-project''))
       \<lparr>d_enum := [''declared-set'', ''whole-project'']\<rparr>]"

definition index_freshness :: "cfg_decl list" where
  "index_freshness =
    [(plain_decl ''freshness.max_age'' ''S02'' TypeDuration (VInt 86400))
       \<lparr>d_unit := ''seconds'', d_min := Some 3600\<rparr>,
     (plain_decl ''freshness.hold_vs_park'' ''S02'' TypeDuration (VInt 600))
       \<lparr>d_unit := ''seconds'', d_min := Some 60, d_max := Some 3600\<rparr>]"

definition index_adapter :: "cfg_decl list" where
  "index_adapter =
    [(plain_decl ''adapter.claude.cleanup_period_days'' ''S03'' TypeInt (VInt 365))
       \<lparr>d_unit := ''days'', d_min := Some 30\<rparr>,
     (plain_decl ''adapter.engine_ceiling_backstop_mult'' ''S03'' TypeFloat (VFloat 2))
       \<lparr>d_unit := ''multiplier'', d_min := Some 2\<rparr>,
     (plain_decl ''adapter.parallel_gate_fallback'' ''S03'' TypeEnum (VString ''serialize-by-deny''))
       \<lparr>d_enum := [''serialize-by-deny'', ''hold-process'']\<rparr>]"

definition index_orchestration :: "cfg_decl list" where
  "index_orchestration =
    [(plain_decl ''orchestration.depth_cap'' ''S04'' TypeInt (VInt 2))
       \<lparr>d_min := Some 0, d_max := Some 2\<rparr>,
     (plain_decl ''orchestration.max_concurrent_helpers'' ''S04'' TypeInt (VInt 4))
       \<lparr>d_min := Some 0, d_auto := True\<rparr>,
     (plain_decl ''orchestration.helper_turns'' ''S04'' TypeInt (VInt 20))
       \<lparr>d_unit := ''turns'', d_min := Some 1, d_auto := True\<rparr>,
     (plain_decl ''orchestration.helper_tokens'' ''S04'' TypeInt (VInt 80000))
       \<lparr>d_unit := ''tokens'', d_min := Some 1, d_auto := True\<rparr>,
     (plain_decl ''orchestration.spawn_budget'' ''S04'' TypeInt (VInt 8))
       \<lparr>d_min := Some 0\<rparr>,
     (plain_decl ''orchestration.report_tokens'' ''S04'' TypeInt (VInt 2000))
       \<lparr>d_unit := ''tokens'', d_min := Some 1\<rparr>,
     (plain_decl ''orchestration.bulk_offload_tokens'' ''S04'' TypeInt (VInt 20000))
       \<lparr>d_unit := ''tokens'', d_min := Some 1\<rparr>,
     (plain_decl ''orchestration.helper_retry_limit'' ''S04'' TypeInt (VInt 1))
       \<lparr>d_min := Some 0\<rparr>,
     (plain_decl ''orchestration.stagger_identical_prefix'' ''S04'' TypeBool (VBool True))]"

definition index_context :: "cfg_decl list" where
  "index_context =
    [(plain_decl ''context.stage_fit_target'' ''S05'' TypeFloat (VFloat (fl (50 / 100))))
       \<lparr>d_unit := ''ratio'', d_min := Some (fl (20 / 100)), d_max := Some (fl (70 / 100)),
        d_auto := True\<rparr>,
     (plain_decl ''context.stage_overflow_threshold'' ''S05'' TypeFloat (VFloat (fl (70 / 100))))
       \<lparr>d_unit := ''ratio'', d_max := Some (fl (85 / 100)), d_auto := True\<rparr>,
     (plain_decl ''context.conventions_max_lines'' ''S05'' TypeInt (VInt 150))
       \<lparr>d_unit := ''lines'', d_min := Some 50, d_max := Some 400\<rparr>,
     (plain_decl ''context.recitation_interval_turns'' ''S05'' TypeInt (VInt 10))
       \<lparr>d_unit := ''turns''\<rparr>]"

definition index_intake :: "cfg_decl list" where
  "index_intake =
    [(plain_decl ''intake.zero_interaction_cost_usd'' ''S06'' TypeFloat (VFloat (fl (50 / 100))))
       \<lparr>d_unit := ''USD'', d_min := Some 0, d_peruser := True\<rparr>,
     (plain_decl ''intake.clearance_floor.low'' ''S06'' TypeInt (VInt 60))
       \<lparr>d_unit := ''score'', d_min := Some 0, d_max := Some 100\<rparr>,
     (plain_decl ''intake.clearance_floor.standard'' ''S06'' TypeInt (VInt 75))
       \<lparr>d_unit := ''score'', d_min := Some 0, d_max := Some 100\<rparr>,
     (plain_decl ''intake.clearance_floor.high'' ''S06'' TypeInt (VInt 90))
       \<lparr>d_unit := ''score'', d_min := Some 0, d_max := Some 100\<rparr>,
     (plain_decl ''intake.size_recheck_factor'' ''S06'' TypeFloat (VFloat 2))
       \<lparr>d_unit := ''multiplier'', d_min := Some 1, d_minexcl := True\<rparr>,
     (plain_decl ''intake.coverage_autofix_rounds'' ''S06'' TypeInt (VInt 1))
       \<lparr>d_unit := ''rounds'', d_min := Some 0, d_max := Some 2\<rparr>,
     (plain_decl ''intake.critique_revise_rounds'' ''S06'' TypeInt (VInt 1))
       \<lparr>d_unit := ''rounds'', d_min := Some 0, d_max := Some 2\<rparr>]"

definition index_verification :: "cfg_decl list" where
  "index_verification =
    [(plain_decl ''verification.rework_rounds'' ''S07'' TypeInt (VInt 3))
       \<lparr>d_unit := ''rounds'', d_min := Some 0\<rparr>,
     (plain_decl ''verification.convergence_patience_rounds'' ''S07'' TypeInt (VInt 2))
       \<lparr>d_unit := ''rounds'', d_min := Some 1\<rparr>,
     (plain_decl ''verification.sanity_stakes_floor'' ''S07'' TypeEnum (VString ''standard''))
       \<lparr>d_enum := [''trivial'', ''low'', ''standard'', ''high'']\<rparr>,
     (plain_decl ''verification.entailment_sample_rate'' ''S07'' TypeFloat (VFloat 0))
       \<lparr>d_unit := ''ratio'', d_min := Some 0, d_max := Some 1\<rparr>,
     (plain_decl ''verification.research_rerun_limit'' ''S07'' TypeInt (VInt 1))
       \<lparr>d_unit := ''rounds'', d_min := Some 0, d_max := Some 2\<rparr>,
     (plain_decl ''verification.check_audit_interval_days'' ''S07'' TypeInt (VInt 90))
       \<lparr>d_unit := ''days'', d_min := Some 1\<rparr>,
     (plain_decl ''verification.canary_interval_hours'' ''S07'' TypeInt (VInt 24))
       \<lparr>d_unit := ''hours'', d_min := Some 1\<rparr>,
     (plain_decl ''verification.drill_interval_days'' ''S07'' TypeInt (VInt 90))
       \<lparr>d_unit := ''days'', d_min := Some 1\<rparr>,
     (plain_decl ''verification.card_remind_hours'' ''S07'' TypeInt (VInt 4))
       \<lparr>d_unit := ''hours'', d_min := Some 1\<rparr>,
     (plain_decl ''verification.card_push_hours'' ''S07'' TypeInt (VInt 24))
       \<lparr>d_unit := ''hours'', d_min := Some 1\<rparr>,
     (plain_decl ''verification.safety_reping_hours'' ''S07'' TypeInt (VInt 1))
       \<lparr>d_unit := ''hours'', d_min := Some 1\<rparr>]"

definition index_workers :: "cfg_decl list" where
  "index_workers =
    [(plain_decl ''workers.first_n'' ''S08'' TypeInt (VInt 3))
       \<lparr>d_min := Some 1\<rparr>,
     (plain_decl ''workers.gap_proposal_count'' ''S08'' TypeInt (VInt 2))
       \<lparr>d_min := Some 2\<rparr>,
     (plain_decl ''workers.persona_lines_max'' ''S08'' TypeInt (VInt 2))
       \<lparr>d_unit := ''lines'', d_min := Some 0\<rparr>,
     (plain_decl ''workers.dryrun_cost_cap_usd'' ''S08'' TypeFloat (VFloat (fl (50 / 100))))
       \<lparr>d_unit := ''USD'', d_min := Some 0, d_minexcl := True\<rparr>]"

definition index_memory :: "cfg_decl list" where
  "index_memory =
    [(plain_decl ''memory.l1_ttl_days'' ''S09'' TypeInt (VInt 90))
       \<lparr>d_unit := ''days'', d_min := Some 7, d_max := Some 365\<rparr>,
     (plain_decl ''memory.reverify_lessons_days'' ''S09'' TypeInt (VInt 90))
       \<lparr>d_unit := ''days'', d_min := Some 30, d_max := Some 365\<rparr>,
     (plain_decl ''memory.reverify_house_days'' ''S09'' TypeInt (VInt 180))
       \<lparr>d_unit := ''days'', d_min := Some 90, d_max := Some 730\<rparr>,
     (plain_decl ''memory.proposals_per_task_max'' ''S09'' TypeInt (VInt 2))
       \<lparr>d_min := Some 0, d_max := Some 5\<rparr>,
     (plain_decl ''memory.digest_interval_days'' ''S09'' TypeInt (VInt 7))
       \<lparr>d_unit := ''days'', d_min := Some 1, d_max := Some 30\<rparr>,
     (plain_decl ''memory.distill_threshold_lessons'' ''S09'' TypeInt (VInt 3))
       \<lparr>d_min := Some 2, d_max := Some 10\<rparr>,
     (plain_decl ''memory.injection_budget_tokens.house'' ''S09'' TypeInt (VInt 2000))
       \<lparr>d_unit := ''tokens'', d_min := Some 500, d_max := Some 10000\<rparr>,
     (plain_decl ''memory.injection_budget_tokens.project'' ''S09'' TypeInt (VInt 3000))
       \<lparr>d_unit := ''tokens'', d_min := Some 500, d_max := Some 10000\<rparr>,
     (plain_decl ''memory.injection_budget_tokens.user'' ''S09'' TypeInt (VInt 1500))
       \<lparr>d_unit := ''tokens'', d_min := Some 500, d_max := Some 10000\<rparr>,
     (plain_decl ''memory.injection_budget_tokens.worker_overlay'' ''S09'' TypeInt (VInt 1500))
       \<lparr>d_unit := ''tokens'', d_min := Some 500, d_max := Some 10000,
        d_dormant := ''worker-overlay scope activates v1 (S18.5)''\<rparr>,
     (plain_decl ''memory.vector_gate.task_miss_rate'' ''S09'' TypeFloat (VFloat (fl (5 / 100))))
       \<lparr>d_unit := ''ratio'', d_min := Some (fl (1 / 100)), d_max := Some (fl (25 / 100)),
        d_dormant := ''pre-registered trigger, evaluated post-15.3 (S18.5)''\<rparr>,
     (plain_decl ''memory.vector_gate.corpus_entries'' ''S09'' TypeInt (VInt 5000))
       \<lparr>d_min := Some 1000, d_max := Some 50000, d_dormant := ''pre-registered trigger,
        evaluated post-15.3 (S18.5)''\<rparr>]"

definition index_pressure :: "cfg_decl list" where
  "index_pressure =
    [(plain_decl ''pressure.cache_read_weight'' ''S10'' TypeFloat (VFloat (fl (1 / 10))))
       \<lparr>d_unit := ''ratio'', d_min := Some 0, d_max := Some 1\<rparr>,
     (plain_decl ''pressure.bg_admit_stop'' ''S10'' TypeFloat (VFloat (fl (7 / 10))))
       \<lparr>d_unit := ''ratio'', d_min := Some (fl (1 / 10)), d_max := Some (fl (95 / 100))\<rparr>,
     (plain_decl ''budget.background_window_fraction'' ''S10'' TypeFloat (VFloat (fl (5 / 10))))
       \<lparr>d_unit := ''ratio'', d_min := Some 0, d_max := Some 1\<rparr>,
     (plain_decl ''meter.value_divergence_alarm'' ''S10'' TypeFloat (VFloat 20))
       \<lparr>d_unit := ''percent'', d_min := Some 5, d_max := Some 100\<rparr>,
     (plain_decl ''limit.retry_cap'' ''S10'' TypeInt (VInt 3))
       \<lparr>d_min := Some 1, d_max := Some 5\<rparr>,
     (plain_decl ''limit.retry_budget_ratio'' ''S10'' TypeFloat (VFloat (fl (10 / 100))))
       \<lparr>d_unit := ''ratio'', d_min := Some (fl (1 / 100)), d_max := Some (fl (5 / 10))\<rparr>,
     (plain_decl ''limit.probe_interval_max'' ''S10'' TypeDuration (VInt 1800))
       \<lparr>d_unit := ''seconds'', d_min := Some 60, d_max := Some 7200\<rparr>,
     (plain_decl ''scheduler.missed_slot_default'' ''S10'' TypeEnum (VString ''run-once-late''))
       \<lparr>d_enum := [''run-once-late'', ''skip'', ''notify-only''], d_dormant := ''ships v0,
        consumer surface v1 (S18.5)''\<rparr>,
     (plain_decl ''arbitration.background_cpuweight'' ''S10'' TypeString (VString ''idle''))]"

definition index_sandbox :: "cfg_decl list" where
  "index_sandbox =
    [(plain_decl ''sandbox.egress_deny_cidrs'' ''S11'' TypeList (VList [''169.254.169.254/32'',
        ''169.254.0.0/16'', ''10.0.0.0/8'', ''172.16.0.0/12'', ''192.168.0.0/16'', ''fc00::/7''])),
     (plain_decl ''sandbox.block_outbound_doh'' ''S11'' TypeBool (VBool True)),
     (plain_decl ''sandbox.c2_registry_allowlist'' ''S11'' TypeList (VList [])),
     (plain_decl ''sandbox.model_egress_tls_terminate'' ''S11'' TypeBool (VBool True))]"

definition index_local :: "cfg_decl list" where
  "index_local =
    [(plain_decl ''local.ttl.fast_s'' ''S12'' TypeInt (VInt 120))
       \<lparr>d_unit := ''seconds'', d_min := Some 0, d_max := Some 3600\<rparr>,
     (plain_decl ''local.ttl.workhorse_s'' ''S12'' TypeInt (VInt 300))
       \<lparr>d_unit := ''seconds'', d_min := Some 0, d_max := Some 7200\<rparr>,
     (plain_decl ''local.ttl.egpu_s'' ''S12'' TypeInt (VInt 1800))
       \<lparr>d_unit := ''seconds'', d_min := Some 0, d_max := Some 86400,
        d_dormant := ''dormant until pool24 (S18.5)''\<rparr>,
     (plain_decl ''local.vram.guard_band_mb'' ''S12'' TypeInt (VInt 512))
       \<lparr>d_unit := ''MB'', d_min := Some 128\<rparr>,
     (plain_decl ''local.unload.term_grace_s'' ''S12'' TypeInt (VInt 5))
       \<lparr>d_unit := ''seconds'', d_min := Some 1, d_max := Some 30\<rparr>,
     (plain_decl ''local.gamemode_hook'' ''S12'' TypeBool (VBool True)),
     (plain_decl ''local.battery.gpu_admission'' ''S12'' TypeEnum (VString ''urgent-only''))
       \<lparr>d_enum := [''never'', ''urgent-only'', ''always'']\<rparr>,
     (plain_decl ''local.batch.ac_only'' ''S12'' TypeBool (VBool True)),
     (plain_decl ''local.broker.sandbox_logprobs'' ''S12'' TypeBool (VBool False)),
     (plain_decl ''local.reeval.cadence_months'' ''S12'' TypeInt (VInt 6))
       \<lparr>d_unit := ''months'', d_min := Some 1, d_max := Some 12\<rparr>,
     (plain_decl ''local.alias'' ''S12'' TypeMap (VMap [(''contradiction-screen'',
        ''DeBERTa-class NLI cross-encoder''), (''distill-summarize'', ''workhorse''), (''embedder'',
        ''Qwen3-Embedding-0.6B''), (''entailment'', ''Granite Guardian 8B''), (''intake-triage'',
        ''fast''), (''intent-filling'', ''fast''), (''sql-open'', ''Arctic-Text2SQL-R1-7B''),
        (''utility'', ''workhorse''), (''watchdog-disambiguator'', ''fast''), (''watchlist-triage'',
        ''fast'')]))]"

definition index_review :: "cfg_decl list" where
  "index_review =
    [(plain_decl ''review.anchor_drift_lines'' ''S13'' TypeInt (VInt 2))
       \<lparr>d_unit := ''lines'', d_min := Some 0, d_max := Some 10\<rparr>,
     (plain_decl ''backup.interval'' ''S13'' TypeDuration (VInt 86400))
       \<lparr>d_unit := ''seconds'', d_min := Some 21600, d_max := Some 604800\<rparr>,
     (plain_decl ''backup.keep'' ''S13'' TypeInt (VInt 30))
       \<lparr>d_unit := ''snapshots'', d_min := Some 7, d_max := Some 365\<rparr>,
     (plain_decl ''backup.repo_rotation'' ''S13'' TypeInt (VInt 12))
       \<lparr>d_unit := ''months'', d_min := Some 6, d_max := Some 24\<rparr>,
     (plain_decl ''backup.drill_interval'' ''S13'' TypeInt (VInt 3))
       \<lparr>d_unit := ''months'', d_min := Some 1, d_max := Some 12\<rparr>,
     (plain_decl ''preview.idle_stop'' ''S13'' TypeDuration (VInt 900))
       \<lparr>d_unit := ''seconds'', d_min := Some 60, d_max := Some 86400\<rparr>,
     (plain_decl ''preview.max_concurrent'' ''S13'' TypeInt (VInt 3))
       \<lparr>d_min := Some 1, d_max := Some 10\<rparr>]"

definition index_obs :: "cfg_decl list" where
  "index_obs =
    [(plain_decl ''obs.sse_keepalive'' ''S14'' TypeDuration (VInt 20))
       \<lparr>d_unit := ''seconds'', d_min := Some 15, d_max := Some 30\<rparr>,
     (plain_decl ''watchdog.loop_repeat'' ''S14'' TypeInt (VInt 5))
       \<lparr>d_min := Some 3, d_max := Some 10\<rparr>,
     (plain_decl ''watchdog.pingpong_cycles'' ''S14'' TypeInt (VInt 6))
       \<lparr>d_min := Some 3, d_max := Some 12\<rparr>,
     (plain_decl ''watchdog.error_loop'' ''S14'' TypeInt (VInt 3))
       \<lparr>d_min := Some 2, d_max := Some 10\<rparr>,
     (plain_decl ''watchdog.silence_budget'' ''S14'' TypeMap (VMap [])),
     (plain_decl ''watchdog.spend_median_mult'' ''S14'' TypeFloat (VFloat 3))
       \<lparr>d_unit := ''multiplier'', d_min := Some (fl (15 / 10))\<rparr>,
     (plain_decl ''watchdog.spend_arm_days'' ''S14'' TypeInt (VInt 14))
       \<lparr>d_unit := ''days'', d_min := Some 7\<rparr>,
     (plain_decl ''watchdog.flag_now_target'' ''S14'' TypeInt (VInt 2))
       \<lparr>d_unit := ''per-day'', d_min := Some 1, d_max := Some 10\<rparr>,
     (plain_decl ''watchdog.suppress_retune_count'' ''S14'' TypeInt (VInt 2))
       \<lparr>d_min := Some 1, d_max := Some 5\<rparr>,
     (plain_decl ''watchlist.fetch_fail_streak'' ''S14'' TypeInt (VInt 3))
       \<lparr>d_unit := ''cycles'', d_min := Some 2, d_max := Some 10\<rparr>,
     (plain_decl ''canary.auth_interval'' ''S14'' TypeDuration (VInt 86400))
       \<lparr>d_unit := ''seconds'', d_min := Some 21600, d_max := Some 604800\<rparr>,
     (plain_decl ''canary.behavioral_interval'' ''S14'' TypeDuration (VInt 604800))
       \<lparr>d_unit := ''seconds'', d_min := Some 86400, d_max := Some 2592000\<rparr>,
     (plain_decl ''retention.compaction_horizon'' ''S14'' TypeInt (VInt 6))
       \<lparr>d_unit := ''months'', d_min := Some 1, d_peruser := True\<rparr>,
     (plain_decl ''eval.sweep_interval'' ''S14'' TypeInt (VInt 3))
       \<lparr>d_unit := ''months'', d_min := Some 1, d_max := Some 6\<rparr>,
     (plain_decl ''benchmark.sampling_rate'' ''S14'' TypeMap (VMap [(''maintenance'', ''25''),
        (''pre-gate'', ''100'')]))]"

definition index_frontend :: "cfg_decl list" where
  "index_frontend =
    [(plain_decl ''frontend.dependency_pass_interval'' ''S15'' TypeInt (VInt 90))
       \<lparr>d_unit := ''days'', d_min := Some 30, d_max := Some 365\<rparr>]"

definition index_adoption :: "cfg_decl list" where
  "index_adoption =
    [(plain_decl ''adoption.dependency_pass_months'' ''S16'' TypeInt (VInt 3))
       \<lparr>d_unit := ''months'', d_min := Some 1, d_max := Some 6\<rparr>,
     (plain_decl ''adoption.abandonment_months'' ''S16'' TypeInt (VInt 6))
       \<lparr>d_unit := ''months'', d_min := Some 2, d_max := Some 24\<rparr>,
     (plain_decl ''adoption.price_data_stale_days'' ''S16'' TypeInt (VInt 60))
       \<lparr>d_unit := ''days'', d_min := Some 14, d_max := Some 180\<rparr>]"

definition cfg_index :: "cfg_decl list" where
  "cfg_index = index_shell @ index_state @ index_recovery @ index_effects @ index_claims @ index_freshness @ index_adapter @ index_orchestration @
     index_context @ index_intake @ index_verification @ index_workers @ index_memory @ index_pressure @ index_sandbox @
     index_local @ index_review @ index_obs @ index_frontend @ index_adoption"

section \<open>Relational rules\<close>

text \<open>
  A rule reads the settings through a view of the state as it would be after the write.  The type
  assertions of the view panic on a value of another type; the index gives every key a rule names its type.
\<close>

record cfg_view =
  vw_float :: "string \<Rightarrow> rat"
  vw_value :: "string \<Rightarrow> cfg_value"

definition view_str :: "cfg_view \<Rightarrow> string \<Rightarrow> string" where
  "view_str v k = (case vw_value v k of VString s \<Rightarrow> s | _ \<Rightarrow> [])"

definition view_strings :: "cfg_view \<Rightarrow> string \<Rightarrow> string list" where
  "view_strings v k = (case vw_value v k of VList l \<Rightarrow> l | _ \<Rightarrow> [])"

definition view_map :: "cfg_view \<Rightarrow> string \<Rightarrow> (string \<times> string) list" where
  "view_map v k = (case vw_value v k of VMap m \<Rightarrow> m | _ \<Rightarrow> [])"

text \<open>The accumulator is an \<open>int64\<close>, so it wraps.\<close>

fun digits_acc :: "int \<Rightarrow> string \<Rightarrow> int option" where
  "digits_acc n [] = Some n"
| "digits_acc n (c # cs) = (if is_digit c
     then digits_acc (wrap64 (wrap64 (n * 10) + (of_char c - 48))) cs else None)"

definition intInRange :: "string \<Rightarrow> int \<Rightarrow> int \<Rightarrow> bool" where
  "intInRange s lo hi = (if s = [] then False
     else case digits_acc 0 s of None \<Rightarrow> False | Some n \<Rightarrow> n \<ge> lo \<and> n \<le> hi)"

record cfg_rule =
  ru_keys :: "string list"
  ru_check :: "cfg_view \<Rightarrow> bool"

definition rule_dead_after :: cfg_rule where
  "rule_dead_after = \<lparr>ru_keys = [''recovery.dead_after'', ''recovery.heartbeat''],
     ru_check = (\<lambda>v. \<not> vw_float v ''recovery.dead_after'' < fl (2 * vw_float v ''recovery.heartbeat''))\<rparr>"

definition rule_overflow :: cfg_rule where
  "rule_overflow = \<lparr>ru_keys = [''context.stage_fit_target'', ''context.stage_overflow_threshold''],
     ru_check = (\<lambda>v. \<not> vw_float v ''context.stage_overflow_threshold'' <
       fl (fl (vw_float v ''context.stage_fit_target'' + fl (5 / 100)) - fl (1 / 10 ^ 9)))\<rparr>"

definition rule_patience :: cfg_rule where
  "rule_patience = \<lparr>ru_keys = [''verification.convergence_patience_rounds'', ''verification.rework_rounds''],
     ru_check = (\<lambda>v. \<not> vw_float v ''verification.convergence_patience_rounds'' >
       vw_float v ''verification.rework_rounds'')\<rparr>"

definition rule_cleanup :: cfg_rule where
  "rule_cleanup = \<lparr>ru_keys = [''adapter.claude.cleanup_period_days'', ''effects.approval_expiry''],
     ru_check = (\<lambda>v. \<not> fl (vw_float v ''adapter.claude.cleanup_period_days'' * 86400) \<le>
       vw_float v ''effects.approval_expiry'')\<rparr>"

definition rule_metadata :: cfg_rule where
  "rule_metadata = \<lparr>ru_keys = [''sandbox.egress_deny_cidrs''],
     ru_check = (\<lambda>v. ''169.254.169.254/32'' \<in> set (view_strings v ''sandbox.egress_deny_cidrs''))\<rparr>"

definition rule_recitation :: cfg_rule where
  "rule_recitation = \<lparr>ru_keys = [''context.recitation_interval_turns''],
     ru_check = (\<lambda>v. let n = vw_float v ''context.recitation_interval_turns''
       in \<not> (n \<noteq> 0 \<and> (n < 5 \<or> n > 50)))\<rparr>"

definition rule_cpuweight :: cfg_rule where
  "rule_cpuweight = \<lparr>ru_keys = [''arbitration.background_cpuweight''],
     ru_check = (\<lambda>v. let s = view_str v ''arbitration.background_cpuweight''
       in s = ''idle'' \<or> intInRange s 1 10000)\<rparr>"

definition rule_sampling :: cfg_rule where
  "rule_sampling = \<lparr>ru_keys = [''benchmark.sampling_rate''],
     ru_check = (\<lambda>v. list_all (\<lambda>(phase, val). intInRange val 0 100) (view_map v ''benchmark.sampling_rate''))\<rparr>"

definition rule_silence :: cfg_rule where
  "rule_silence = \<lparr>ru_keys = [''watchdog.silence_budget''],
     ru_check = (\<lambda>v. list_all (\<lambda>(runType, val). intInRange val 60 (2 ^ 40)) (view_map v ''watchdog.silence_budget''))\<rparr>"

definition rule_alias :: cfg_rule where
  "rule_alias = \<lparr>ru_keys = [''local.alias''],
     ru_check = (\<lambda>v. list_all (\<lambda>(duty, target). duty \<noteq> [] \<and> target \<noteq> []) (view_map v ''local.alias''))\<rparr>"

definition cfg_rules :: "cfg_rule list" where
  "cfg_rules = [rule_dead_after, rule_overflow, rule_patience, rule_cleanup, rule_metadata, rule_recitation,
     rule_cpuweight, rule_sampling, rule_silence, rule_alias]"

end
