(* ===== verification/Settings_Registry.thy ===== *)
theory Settings_Registry
  imports Settings_Index Event_Log "HOL-Library.AList"
begin

text \<open>
  The settings registry (\<open>internal/settings/settings.go\<close>, \<open>persist.go\<close>, \<open>read.go\<close>): overrides in memory
  and in the \<open>settings\<close> table, getters, the rules' view, the two writes with their audit row and event, the
  attach at start, and the reads of the settings surface.  The Go maps of overrides are association
  lists; the per-user map of maps is keyed by key and person.
\<close>

section \<open>State\<close>

record cfg_registry =
  rg_vals :: "(string \<times> cfg_value) list"
  rg_user :: "((string \<times> string) \<times> cfg_value) list"
  rg_bounds :: "(string \<times> cfg_bounds) list"
  rg_attached :: bool

definition New_registry :: cfg_registry where
  "New_registry = \<lparr>rg_vals = [], rg_user = [], rg_bounds = [], rg_attached = False\<rparr>"

record setting_row =
  sr_key :: string
  sr_user :: string
  sr_value :: "raw option"
  sr_floor :: "rat option"
  sr_ceiling :: "rat option"
  sr_time :: time
  sr_by :: string

record audit_row =
  au_id :: int
  au_actor :: string
  au_key :: string
  au_user :: string
  au_old :: raw
  au_new :: raw
  au_time :: time
  au_reason :: string

record cfg_store =
  cs_rows :: "setting_row list"
  cs_audit :: "audit_row list"
  cs_db :: db

text \<open>The clock and the text of a \<open>float64\<close>.\<close>

record cfg_env =
  ce_now :: time
  ce_float :: "rat \<Rightarrow> string"

section \<open>Reading\<close>

definition decl_of :: "string \<Rightarrow> cfg_decl option" where
  "decl_of key = find (\<lambda>d. d_key d = key) cfg_index"

definition effective :: "cfg_registry \<Rightarrow> cfg_decl \<Rightarrow> string \<Rightarrow> cfg_value" where
  "effective r d user =
     (case (if user \<noteq> [] then map_of (rg_user r) (d_key d, user) else None) of
        Some v \<Rightarrow> v
      | None \<Rightarrow> (case map_of (rg_vals r) (d_key d) of Some v \<Rightarrow> v | None \<Rightarrow> d_default d))"

definition typed :: "cfg_registry \<Rightarrow> string \<Rightarrow> string \<Rightarrow> cfg_type list \<Rightarrow> cfg_error + cfg_value" where
  "typed r key user want = (case decl_of key of
       None \<Rightarrow> Inl (ErrUnknownKey key)
     | Some d \<Rightarrow>
         if d_type d \<notin> set want then Inl (CfgFault ''type'')
         else if user \<noteq> [] \<and> \<not> d_peruser d then Inl (CfgFault ''not per-user scoped'')
         else Inr (effective r d user))"

text \<open>The getters; a failing type assertion is a panic.\<close>

definition cfg_panic :: cfg_error where "cfg_panic = CfgFault ''panic: type assertion''"

definition Registry_Bool :: "cfg_registry \<Rightarrow> string \<Rightarrow> cfg_error + bool" where
  "Registry_Bool r key = (case typed r key [] [TypeBool] of
       Inl e \<Rightarrow> Inl e | Inr (VBool b) \<Rightarrow> Inr b | Inr _ \<Rightarrow> Inl cfg_panic)"

definition Registry_IntFor :: "cfg_registry \<Rightarrow> string \<Rightarrow> string \<Rightarrow> cfg_error + int" where
  "Registry_IntFor r key user = (case typed r key user [TypeInt] of
       Inl e \<Rightarrow> Inl e | Inr (VInt i) \<Rightarrow> Inr i | Inr _ \<Rightarrow> Inl cfg_panic)"

definition Registry_Int :: "cfg_registry \<Rightarrow> string \<Rightarrow> cfg_error + int" where
  "Registry_Int r key = Registry_IntFor r key []"

definition Registry_FloatFor :: "cfg_registry \<Rightarrow> string \<Rightarrow> string \<Rightarrow> cfg_error + rat" where
  "Registry_FloatFor r key user = (case typed r key user [TypeFloat] of
       Inl e \<Rightarrow> Inl e | Inr (VFloat q) \<Rightarrow> Inr q | Inr _ \<Rightarrow> Inl cfg_panic)"

definition Registry_Float :: "cfg_registry \<Rightarrow> string \<Rightarrow> cfg_error + rat" where
  "Registry_Float r key = Registry_FloatFor r key []"

text \<open>Seconds become nanoseconds in 64 bits.\<close>

definition Registry_Duration :: "cfg_registry \<Rightarrow> string \<Rightarrow> cfg_error + duration" where
  "Registry_Duration r key = (case typed r key [] [TypeDuration] of
       Inl e \<Rightarrow> Inl e | Inr (VInt i) \<Rightarrow> Inr (wrap64 (i * second)) | Inr _ \<Rightarrow> Inl cfg_panic)"

definition Registry_String :: "cfg_registry \<Rightarrow> string \<Rightarrow> cfg_error + string" where
  "Registry_String r key = (case typed r key [] [TypeString, TypeEnum] of
       Inl e \<Rightarrow> Inl e | Inr (VString s) \<Rightarrow> Inr s | Inr _ \<Rightarrow> Inl cfg_panic)"

definition Registry_Strings :: "cfg_registry \<Rightarrow> string \<Rightarrow> cfg_error + string list" where
  "Registry_Strings r key = (case typed r key [] [TypeList] of
       Inl e \<Rightarrow> Inl e | Inr (VList l) \<Rightarrow> Inr l | Inr _ \<Rightarrow> Inl cfg_panic)"

definition Registry_StringMap :: "cfg_registry \<Rightarrow> string \<Rightarrow> cfg_error + (string \<times> string) list" where
  "Registry_StringMap r key = (case typed r key [] [TypeMap] of
       Inl e \<Rightarrow> Inl e | Inr (VMap m) \<Rightarrow> Inr m | Inr _ \<Rightarrow> Inl cfg_panic)"

definition right :: "'a + 'b \<Rightarrow> 'b option" where
  "right x = (case x of Inl _ \<Rightarrow> None | Inr v \<Rightarrow> Some v)"

text \<open>The registry as the settings the other components read.\<close>

definition settings_of :: "cfg_registry \<Rightarrow> settings" where
  "settings_of r = \<lparr>set_int = (\<lambda>k. right (Registry_Int r k)), set_float = (\<lambda>k. right (Registry_Float r k)),
     set_duration = (\<lambda>k. right (Registry_Duration r k)), set_string = (\<lambda>k. right (Registry_String r k)),
     set_bool = (\<lambda>k. right (Registry_Bool r k)),
     set_map = (\<lambda>k. map_option map_of (right (Registry_StringMap r k)))\<rparr>"

definition effectiveBounds :: "cfg_registry \<Rightarrow> cfg_decl \<Rightarrow> cfg_bounds" where
  "effectiveBounds r d = (case map_of (rg_bounds r) (d_key d) of
       None \<Rightarrow> (d_min d, d_max d)
     | Some (f, c) \<Rightarrow> (if f = None then d_min d else f, if c = None then d_max d else c))"

definition Registry_Bounds :: "cfg_registry \<Rightarrow> string \<Rightarrow> cfg_error + cfg_bounds" where
  "Registry_Bounds r key = (case decl_of key of
       None \<Rightarrow> Inl (ErrUnknownKey key)
     | Some d \<Rightarrow> if numeric (d_type d) then Inr (effectiveBounds r d) else Inl (CfgFault ''carries no bounds''))"

section \<open>Rules\<close>

definition view_value :: "cfg_registry \<Rightarrow> (string \<times> cfg_value) list \<Rightarrow> string \<Rightarrow> cfg_value" where
  "view_value r overlay key = (case map_of overlay key of
       Some v \<Rightarrow> v
     | None \<Rightarrow> (case decl_of key of Some d \<Rightarrow> effective r d [] | None \<Rightarrow> VBool False))"

definition num_of :: "cfg_decl \<Rightarrow> cfg_value \<Rightarrow> rat" where
  "num_of d v = (case numericOf d v of None \<Rightarrow> 0 | Some n \<Rightarrow> n)"

definition view_of :: "cfg_registry \<Rightarrow> (string \<times> cfg_value) list \<Rightarrow> cfg_view" where
  "view_of r overlay = \<lparr>
     vw_float = (\<lambda>k. case decl_of k of None \<Rightarrow> 0 | Some d \<Rightarrow> num_of d (view_value r overlay k)),
     vw_value = view_value r overlay\<rparr>"

definition checkRules :: "cfg_registry \<Rightarrow> (string \<times> cfg_value) list \<Rightarrow> bool" where
  "checkRules r overlay \<longleftrightarrow> list_all (\<lambda>ru. ru_check ru (view_of r overlay)) cfg_rules"

section \<open>Persisting\<close>

record audit_change =
  ch_key :: string
  ch_user :: string
  ch_kind :: string
  ch_old :: json
  ch_new :: json
  ch_actor :: cfg_actor
  ch_reason :: string

definition EventSettingsChanged :: string where "EventSettingsChanged = ''settings.changed''"

definition scopeName :: "string \<Rightarrow> string" where
  "scopeName user = (if user = [] then ''platform'' else ''user'')"

text \<open>Encoded from a map, so in the order of the keys.\<close>

definition change_payload :: "audit_change \<Rightarrow> raw" where
  "change_payload ch = marshal (JObj
     [(''actor'', JObj [(''id'', JStr (ac_id (ch_actor ch))), (''kind'', JStr (kind_name (ac_kind (ch_actor ch))))]),
      (''change'', JStr (ch_kind ch)), (''key'', JStr (ch_key ch)), (''new'', ch_new ch), (''old'', ch_old ch),
      (''reason'', JStr (ch_reason ch)), (''scope'', JStr (scopeName (ch_user ch))), (''user'', JStr (ch_user ch))])"

definition persist ::
  "cfg_env \<Rightarrow> cfg_registry \<Rightarrow> audit_change \<Rightarrow> (setting_row list \<Rightarrow> setting_row list) \<Rightarrow> cfg_store \<Rightarrow> cfg_error + cfg_store" where
  "persist ce r ch apply_rows st =
     (case AppendTx (settings_of r) (ce_now ce)
             \<lparr>ap_run = [], ap_gen = 0, ap_user = ac_id (ch_actor ch), ap_type = EventSettingsChanged,
              ap_version = 1, ap_payload = change_payload ch, ap_time = 0\<rparr> (cs_db st) of
        Inl e \<Rightarrow> Inl (CfgStore e)
      | Inr (_, d) \<Rightarrow> Inr \<lparr>cs_rows = apply_rows (cs_rows st),
          cs_audit = cs_audit st @ [\<lparr>au_id = next_rowid (map au_id (cs_audit st)), au_actor = actor_text (ch_actor ch),
            au_key = ch_key ch, au_user = ch_user ch, au_old = marshal (ch_old ch), au_new = marshal (ch_new ch),
            au_time = ce_now ce, au_reason = ch_reason ch\<rparr>],
          cs_db = d\<rparr>)"

definition row_is :: "string \<Rightarrow> string \<Rightarrow> setting_row \<Rightarrow> bool" where
  "row_is key user x \<longleftrightarrow> sr_key x = key \<and> sr_user x = user"

text \<open>\<open>INSERT ... ON CONFLICT (key, user_id) DO UPDATE\<close>.\<close>

definition upsert_row :: "setting_row \<Rightarrow> (setting_row \<Rightarrow> setting_row) \<Rightarrow> setting_row list \<Rightarrow> setting_row list" where
  "upsert_row new upd rows =
     (if list_ex (row_is (sr_key new) (sr_user new)) rows
      then map (\<lambda>x. if row_is (sr_key new) (sr_user new) x then upd x else x) rows
      else rows @ [new])"

definition upsertValueCell ::
  "cfg_env \<Rightarrow> string \<Rightarrow> string \<Rightarrow> raw \<Rightarrow> cfg_actor \<Rightarrow> setting_row list \<Rightarrow> setting_row list" where
  "upsertValueCell ce key user v actor =
     upsert_row \<lparr>sr_key = key, sr_user = user, sr_value = Some v, sr_floor = None, sr_ceiling = None,
         sr_time = ce_now ce, sr_by = actor_text actor\<rparr>
       (\<lambda>x. x\<lparr>sr_value := Some v, sr_time := ce_now ce, sr_by := actor_text actor\<rparr>)"

definition deleteValueCell :: "string \<Rightarrow> string \<Rightarrow> setting_row list \<Rightarrow> setting_row list" where
  "deleteValueCell key user rows =
     filter (\<lambda>x. \<not> (row_is key user x \<and> sr_floor x = None \<and> sr_ceiling x = None))
       (map (\<lambda>x. if row_is key user x \<and> (sr_floor x \<noteq> None \<or> sr_ceiling x \<noteq> None) then x\<lparr>sr_value := None\<rparr> else x) rows)"

definition upsertBoundsCells ::
  "cfg_env \<Rightarrow> string \<Rightarrow> rat option \<Rightarrow> rat option \<Rightarrow> cfg_actor \<Rightarrow> setting_row list \<Rightarrow> setting_row list" where
  "upsertBoundsCells ce key f c actor =
     upsert_row \<lparr>sr_key = key, sr_user = [], sr_value = None, sr_floor = f, sr_ceiling = c,
         sr_time = ce_now ce, sr_by = actor_text actor\<rparr>
       (\<lambda>x. x\<lparr>sr_floor := f, sr_ceiling := c, sr_time := ce_now ce, sr_by := actor_text actor\<rparr>)"

definition deleteBoundsCells :: "string \<Rightarrow> setting_row list \<Rightarrow> setting_row list" where
  "deleteBoundsCells key rows =
     filter (\<lambda>x. \<not> (row_is key [] x \<and> sr_value x = None))
       (map (\<lambda>x. if row_is key [] x \<and> sr_value x \<noteq> None then x\<lparr>sr_floor := None, sr_ceiling := None\<rparr> else x) rows)"

section \<open>Writing values\<close>

record set_request =
  sq_key :: string
  sq_user :: string
  sq_value :: "raw option"
  sq_actor :: cfg_actor
  sq_reason :: string

definition automation_refused :: "cfg_decl \<Rightarrow> set_request \<Rightarrow> bool" where
  "automation_refused d q \<longleftrightarrow> ac_kind (sq_actor q) = ActorAutomation \<and>
     (\<not> d_auto d \<or> sq_value q = None \<or> sq_user q \<noteq> [])"

text \<open>The checks of a write, in their order; what it would store.\<close>

definition set_gate :: "cfg_registry \<Rightarrow> set_request \<Rightarrow> cfg_error + cfg_decl \<times> cfg_value" where
  "set_gate r q =
     (if \<not> rg_attached r then Inl ErrNotAttached
      else case decl_of (sq_key q) of
        None \<Rightarrow> Inl (ErrUnknownKey (sq_key q))
      | Some d \<Rightarrow> (case actor_check (sq_actor q) of
          Inl e \<Rightarrow> Inl e
        | Inr _ \<Rightarrow>
            if sq_user q \<noteq> [] \<and> \<not> d_peruser d then Inl ErrInvalidRequest
            else if automation_refused d q then Inl ErrAutomation
            else (case (case sq_value q of None \<Rightarrow> Inr (d_default d) | Some v \<Rightarrow> decodeValue d v) of
                Inl e \<Rightarrow> Inl e
              | Inr new \<Rightarrow>
                  if \<not> in_clamp d (map_of (rg_bounds r) (d_key d)) new then Inl ErrOutOfBounds
                  else if \<not> checkRules r (if sq_user q = [] then [(d_key d, new)] else []) then Inl ErrInvalidRequest
                  else Inr (d, new))))"

definition set_change :: "cfg_env \<Rightarrow> cfg_registry \<Rightarrow> set_request \<Rightarrow> cfg_decl \<Rightarrow> cfg_value \<Rightarrow> audit_change" where
  "set_change ce r q d new = \<lparr>ch_key = d_key d, ch_user = sq_user q, ch_kind = ''value'',
     ch_old = value_json (ce_float ce) (effective r d (sq_user q)), ch_new = value_json (ce_float ce) new,
     ch_actor = sq_actor q, ch_reason = sq_reason q\<rparr>"

definition set_rows :: "cfg_env \<Rightarrow> set_request \<Rightarrow> cfg_decl \<Rightarrow> cfg_value \<Rightarrow> setting_row list \<Rightarrow> setting_row list" where
  "set_rows ce q d new = (if sq_value q = None then deleteValueCell (d_key d) (sq_user q)
     else upsertValueCell ce (d_key d) (sq_user q) (value_raw (ce_float ce) new) (sq_actor q))"

definition set_memory :: "set_request \<Rightarrow> cfg_decl \<Rightarrow> cfg_value \<Rightarrow> cfg_registry \<Rightarrow> cfg_registry" where
  "set_memory q d new r =
     (if sq_user q \<noteq> [] then
        (if sq_value q = None then r\<lparr>rg_user := AList.delete (d_key d, sq_user q) (rg_user r)\<rparr>
         else r\<lparr>rg_user := AList.update (d_key d, sq_user q) new (rg_user r)\<rparr>)
      else if sq_value q = None then r\<lparr>rg_vals := AList.delete (d_key d) (rg_vals r)\<rparr>
      else r\<lparr>rg_vals := AList.update (d_key d) new (rg_vals r)\<rparr>)"

definition Registry_Set :: "cfg_env \<Rightarrow> set_request \<Rightarrow> cfg_registry \<times> cfg_store \<Rightarrow> (cfg_error + unit) \<times> cfg_registry \<times> cfg_store" where
  "Registry_Set ce q = (\<lambda>(r, st). case set_gate r q of
       Inl e \<Rightarrow> (Inl e, r, st)
     | Inr (d, new) \<Rightarrow> (case persist ce r (set_change ce r q d new) (set_rows ce q d new) st of
         Inl e \<Rightarrow> (Inl e, r, st)
       | Inr st' \<Rightarrow> (Inr (), set_memory q d new r, st')))"

section \<open>Writing bounds\<close>

record bounds_request =
  bq_key :: string
  bq_floor :: "rat option"
  bq_ceiling :: "rat option"
  bq_actor :: cfg_actor
  bq_reason :: string

definition bounds_reset :: "bounds_request \<Rightarrow> bool" where
  "bounds_reset q \<longleftrightarrow> bq_floor q = None \<and> bq_ceiling q = None"

definition bounds_next :: "bounds_request \<Rightarrow> cfg_bounds option" where
  "bounds_next q = (if bounds_reset q then None else Some (bq_floor q, bq_ceiling q))"

definition users_of :: "cfg_registry \<Rightarrow> string \<Rightarrow> (string \<times> cfg_value) list" where
  "users_of r key = map (\<lambda>((k, u), v). (u, v)) (filter (\<lambda>((k, u), v). k = key) (rg_user r))"

definition bounds_gate :: "cfg_registry \<Rightarrow> bounds_request \<Rightarrow> cfg_error + cfg_decl" where
  "bounds_gate r q =
     (if \<not> rg_attached r then Inl ErrNotAttached
      else case decl_of (bq_key q) of
        None \<Rightarrow> Inl (ErrUnknownKey (bq_key q))
      | Some d \<Rightarrow> (case actor_check (bq_actor q) of
          Inl e \<Rightarrow> Inl e
        | Inr _ \<Rightarrow>
            if ac_kind (bq_actor q) \<noteq> ActorOperator then Inl ErrAutomation
            else if \<not> numeric (d_type d) then Inl ErrInvalidRequest
            else if (case (bq_floor q, bq_ceiling q) of (Some f, Some c) \<Rightarrow> f > c | _ \<Rightarrow> False) then Inl ErrInvalidRequest
            else if \<not> checkClamp d (bounds_next q) (num_of d (effective r d [])) then Inl ErrOutOfBounds
            else if list_ex (\<lambda>(u, v). \<not> checkClamp d (bounds_next q) (num_of d v)) (users_of r (d_key d))
              then Inl ErrOutOfBounds
            else Inr d))"

definition boundsJSON :: "(rat \<Rightarrow> string) \<Rightarrow> cfg_bounds \<Rightarrow> json" where
  "boundsJSON ftext = (\<lambda>(f, c). JObj
     [(''ceiling'', case c of None \<Rightarrow> JNull | Some q \<Rightarrow> JNum (ftext q)),
      (''floor'', case f of None \<Rightarrow> JNull | Some q \<Rightarrow> JNum (ftext q))])"

definition bounds_change :: "cfg_env \<Rightarrow> cfg_registry \<Rightarrow> bounds_request \<Rightarrow> cfg_decl \<Rightarrow> audit_change" where
  "bounds_change ce r q d = \<lparr>ch_key = d_key d, ch_user = [], ch_kind = ''bounds'',
     ch_old = boundsJSON (ce_float ce) (effectiveBounds r d),
     ch_new = boundsJSON (ce_float ce)
       (if bounds_reset q then (d_min d, d_max d)
        else (if bq_floor q = None then d_min d else bq_floor q, if bq_ceiling q = None then d_max d else bq_ceiling q)),
     ch_actor = bq_actor q, ch_reason = bq_reason q\<rparr>"

definition bounds_rows :: "cfg_env \<Rightarrow> bounds_request \<Rightarrow> cfg_decl \<Rightarrow> setting_row list \<Rightarrow> setting_row list" where
  "bounds_rows ce q d = (if bounds_reset q then deleteBoundsCells (d_key d)
     else upsertBoundsCells ce (d_key d) (bq_floor q) (bq_ceiling q) (bq_actor q))"

definition bounds_memory :: "bounds_request \<Rightarrow> cfg_decl \<Rightarrow> cfg_registry \<Rightarrow> cfg_registry" where
  "bounds_memory q d r = (case bounds_next q of
       None \<Rightarrow> r\<lparr>rg_bounds := AList.delete (d_key d) (rg_bounds r)\<rparr>
     | Some b \<Rightarrow> r\<lparr>rg_bounds := AList.update (d_key d) b (rg_bounds r)\<rparr>)"

definition Registry_SetBounds ::
  "cfg_env \<Rightarrow> bounds_request \<Rightarrow> cfg_registry \<times> cfg_store \<Rightarrow> (cfg_error + unit) \<times> cfg_registry \<times> cfg_store" where
  "Registry_SetBounds ce q = (\<lambda>(r, st). case bounds_gate r q of
       Inl e \<Rightarrow> (Inl e, r, st)
     | Inr d \<Rightarrow> (case persist ce r (bounds_change ce r q d) (bounds_rows ce q d) st of
         Inl e \<Rightarrow> (Inl e, r, st)
       | Inr st' \<Rightarrow> (Inr (), bounds_memory q d r, st')))"

section \<open>Attaching\<close>

definition row_bounds :: "setting_row \<Rightarrow> cfg_bounds option" where
  "row_bounds x = (if sr_floor x \<noteq> None \<or> sr_ceiling x \<noteq> None then Some (sr_floor x, sr_ceiling x) else None)"

definition attach_bounds :: "setting_row \<Rightarrow> cfg_decl \<Rightarrow> cfg_registry \<Rightarrow> cfg_error + cfg_registry" where
  "attach_bounds x d r = (case row_bounds x of
       None \<Rightarrow> Inr r
     | Some b \<Rightarrow>
         if sr_user x \<noteq> [] then Inl (CfgFault ''per-user bounds'')
         else if \<not> numeric (d_type d) then Inl (CfgFault ''bounds of a non-numeric key'')
         else Inr (r\<lparr>rg_bounds := AList.update (sr_key x) b (rg_bounds r)\<rparr>))"

definition attach_value :: "setting_row \<Rightarrow> cfg_decl \<Rightarrow> cfg_registry \<Rightarrow> cfg_error + cfg_registry" where
  "attach_value x d r = (case sr_value x of
       None \<Rightarrow> Inr r
     | Some cell \<Rightarrow>
         if sr_user x \<noteq> [] \<and> \<not> d_peruser d then Inl (CfgFault ''per-user override'')
         else (case decodeValue d cell of
             Inl e \<Rightarrow> Inl e
           | Inr v \<Rightarrow>
               if \<not> in_clamp d (row_bounds x) v then Inl ErrOutOfBounds
               else Inr (if sr_user x = [] then r\<lparr>rg_vals := AList.update (sr_key x) v (rg_vals r)\<rparr>
                         else r\<lparr>rg_user := AList.update (sr_key x, sr_user x) v (rg_user r)\<rparr>)))"

fun attach_rows :: "setting_row list \<Rightarrow> cfg_registry \<Rightarrow> cfg_error + cfg_registry" where
  "attach_rows [] r = Inr r"
| "attach_rows (x # xs) r = (case decl_of (sr_key x) of
       None \<Rightarrow> Inl (CfgFault ''undeclared key'')
     | Some d \<Rightarrow> (case attach_bounds x d r of
         Inl e \<Rightarrow> Inl e
       | Inr r1 \<Rightarrow> (case attach_value x d r1 of Inl e \<Rightarrow> Inl e | Inr r2 \<Rightarrow> attach_rows xs r2)))"

definition Registry_Attach :: "cfg_store \<Rightarrow> cfg_registry \<Rightarrow> (cfg_error + unit) \<times> cfg_registry" where
  "Registry_Attach st r =
     (if rg_attached r then (Inl (CfgFault ''already attached''), r)
      else case attach_rows (cs_rows st) New_registry of
          Inl e \<Rightarrow> (Inl e, r)
        | Inr loaded \<Rightarrow> (Inr (), loaded\<lparr>rg_attached := True\<rparr>))"

section \<open>The settings surface\<close>

record cfg_reading =
  rd_decl :: cfg_decl
  rd_effective :: cfg_value
  rd_overridden :: bool
  rd_users :: "(string \<times> cfg_value) list"
  rd_bounds :: cfg_bounds

definition valueLocked :: "cfg_registry \<Rightarrow> cfg_decl \<Rightarrow> cfg_reading" where
  "valueLocked r d = \<lparr>rd_decl = d, rd_effective = effective r d [], rd_overridden = (map_of (rg_vals r) (d_key d) \<noteq> None),
     rd_users = users_of r (d_key d),
     rd_bounds = (if numeric (d_type d) then effectiveBounds r d else (None, None))\<rparr>"

definition Registry_Values :: "cfg_registry \<Rightarrow> cfg_reading list" where
  "Registry_Values r = map (valueLocked r) cfg_index"

definition Registry_History :: "cfg_registry \<Rightarrow> string \<Rightarrow> int \<Rightarrow> cfg_store \<Rightarrow> cfg_error + audit_row list" where
  "Registry_History r key limit st =
     (if \<not> rg_attached r then Inl ErrNotAttached
      else if decl_of key = None then Inl (ErrUnknownKey key)
      else if limit \<le> 0 then Inl ErrInvalidRequest
      else Inr (take (nat limit) (sort_key (\<lambda>x. - au_id x) (filter (\<lambda>x. au_key x = key) (cs_audit st)))))"

definition Registry_Domains :: "string list" where
  "Registry_Domains = sort (remdups (map Domain cfg_index))"

end
