(* ===== verification/Settings_Facts.thy ===== *)
theory Settings_Facts
  imports Settings_Registry
begin

text \<open>
  Facts about the settings registry: the shipped index is consistent, values survive their stored text,
  and what a decoded write is.
\<close>

section \<open>Comparing rounded constants\<close>

lemma fl_numeral [simp]: "(numeral n :: int) \<le> 2 ^ 53 \<Longrightarrow> fl (numeral n) = numeral n"
  using fl_small_int [of "numeral n"] by simp

lemma fl_one [simp]: "fl 1 = 1"
  using fl_small_int [of 1] by simp

lemma fl_le_const: "0 \<le> a \<Longrightarrow> a \<le> b \<Longrightarrow> fl b = b \<Longrightarrow> fl a \<le> b"
  using fl_mono [of a b] by simp

lemma fl_ge_const: "0 \<le> a \<Longrightarrow> a \<le> b \<Longrightarrow> fl a = a \<Longrightarrow> a \<le> fl b"
  using fl_mono [of a b] by simp

lemma fl_positive: "1 / 2 ^ 18 \<le> a \<Longrightarrow> a < 2 ^ 35 \<Longrightarrow> 0 < fl a"
proof -
  assume a: "1 / 2 ^ 18 \<le> a" "a < 2 ^ 35"
  then have "\<bar>fl a - a\<bar> \<le> 1 / 2 ^ 19" by (intro fl_error_small) simp_all
  then have "a - fl a \<le> 1 / 2 ^ 19" unfolding abs_le_iff by simp
  with a(1) show "0 < fl a" by simp
qed

lemma float_of_fl: "0 \<le> a \<Longrightarrow> a \<le> 2 ^ 53 \<Longrightarrow> float_of (fl a) = fl a \<and> float_fits (fl a)"
proof -
  assume a: "0 \<le> a" "a \<le> 2 ^ 53"
  have "fl (2 ^ 53) = 2 ^ 53" using fl_small_int [of "2 ^ 53"] by simp
  with a have "0 \<le> fl a" "fl a \<le> 2 ^ 53" using fl_mono [of a "2 ^ 53"] fl_nonneg [of a] by simp_all
  moreover have "(2::rat) ^ 53 < 2 ^ 1024 - 2 ^ 970" by simp
  ultimately show ?thesis by (simp add: float_of_small float_fits_def)
qed

lemma float_of_numeral:
  "(numeral n :: int) \<le> 2 ^ 53 \<Longrightarrow> float_of (numeral n) = numeral n \<and> float_fits (numeral n)"
proof -
  assume n: "(numeral n :: int) \<le> 2 ^ 53"
  then have "rat_of_int (numeral n) \<le> rat_of_int (2 ^ 53)" by (simp only: of_int_le_iff)
  then have "(numeral n :: rat) \<le> 2 ^ 53" by simp
  then show ?thesis using float_of_fl [of "numeral n"] fl_numeral [OF n] by simp
qed

lemma float_fits_0: "float_fits 0"
proof -
  have "(0::rat) < 2 ^ 1024 - 2 ^ 970" by simp
  then show ?thesis by (simp only: float_fits_def abs_zero)
qed

lemma float_of_0 [simp]: "float_of 0 = 0"
  by (simp add: float_of_small)

section \<open>The index\<close>

lemmas index_defs = cfg_index_def index_shell_def index_state_def index_recovery_def index_effects_def
  index_claims_def index_freshness_def index_adapter_def index_orchestration_def index_context_def
  index_intake_def index_verification_def index_workers_def index_memory_def index_pressure_def
  index_sandbox_def index_local_def index_review_def index_obs_def index_frontend_def index_adoption_def

lemmas decl_eval = plain_decl_def value_ok_def checkType_def typed_as_def in_clamp_def numericOf_def checkClamp_def
  in64_def int64_min_def int64_max_def fl_mono fl_nonneg fl_le_const fl_ge_const fl_positive keys_sorted_def
  numeric_def float_of_fl float_of_numeral float_fits_0

definition decl_ok :: "cfg_decl \<Rightarrow> bool" where
  "decl_ok d \<longleftrightarrow> value_ok d (d_default d) \<and> in_clamp d None (d_default d) \<and>
     (numeric (d_type d) \<or> d_min d = None \<and> d_max d = None)"

lemma index_ok_1: "list_all decl_ok (index_shell @ index_state @ index_recovery @ index_effects @ index_claims)"
  by (simp add: index_defs decl_ok_def decl_eval)

lemma index_ok_2: "list_all decl_ok (index_freshness @ index_adapter @ index_orchestration @ index_context @ index_intake)"
  by (simp add: index_defs decl_ok_def decl_eval)

lemma index_ok_3: "list_all decl_ok (index_verification @ index_workers @ index_memory @ index_pressure)"
  by (simp add: index_defs decl_ok_def decl_eval)

lemma index_ok_4: "list_all decl_ok (index_sandbox @ index_local @ index_review @ index_obs @ index_frontend @ index_adoption)"
  by (simp add: index_defs decl_ok_def decl_eval)

lemma index_decl_ok: "d \<in> set cfg_index \<Longrightarrow> decl_ok d"
  using index_ok_1 index_ok_2 index_ok_3 index_ok_4 by (auto simp: cfg_index_def list_all_iff)

lemma decl_of_Some: "decl_of k = Some d \<Longrightarrow> d \<in> set cfg_index \<and> d_key d = k"
  by (auto simp: decl_of_def find_Some_iff)

section \<open>Values and their text\<close>

text \<open>What \<open>strconv\<close> documents: the shortest text of a \<open>float64\<close> reads back as that number.\<close>

definition float_text :: "(rat \<Rightarrow> string) \<Rightarrow> bool" where
  "float_text ftext \<longleftrightarrow> (\<forall>q. float_of q = q \<longrightarrow> float_fits q \<longrightarrow> json_float (JNum (ftext q)) = Some q)"

lemma float_text_decimal: "float_text decimal_text"
  by (simp add: float_text_def json_float_def decimal_text_value)

lemma int_fits: "in64 i \<Longrightarrow> float_fits (of_int i)"
  using json_int_fits [of i] by (simp add: json_int_def literal_dec_int)

lemma float_of_int64: "in64 i \<Longrightarrow> float_of (of_int i) = fl (of_int i)"
proof (rule float_of_small)
  assume "in64 i"
  then have "\<bar>i\<bar> < 2 ^ 64" by (simp add: in64_def int64_min_def int64_max_def abs_less_iff)
  then have "\<bar>rat_of_int i\<bar> < rat_of_int (2 ^ 64)" by (metis of_int_abs of_int_less_iff)
  then show "\<bar>rat_of_int i\<bar> < 2 ^ 64" by simp
qed

lemma json_int_float: "in64 i \<Longrightarrow> fl (of_int i) = of_int i \<Longrightarrow> json_float (json_int i) = Some (of_int i)"
  by (simp add: json_float_def json_int_def literal_dec_int int_fits float_of_int64)

lemma trunc_of_int [simp]: "trunc (of_int i) = i"
  by (simp add: trunc_def)

lemma int64_of_float_int: "in64 i \<Longrightarrow> int64_of_float (of_int i) = i"
  unfolding int64_of_float_def in64_def by (simp only: of_int_le_iff) simp

lemma json_strings_map: "json_strings (map JStr l) = Some l"
  by (induction l) (simp_all add: json_string_def)

lemma json_members_map:
  "json_members acc (map (\<lambda>(k, s). (k, JStr s)) m) = Some (foldl (\<lambda>acc f. field_put (fst f) (snd f) acc) acc m)"
  by (induction m arbitrary: acc) (auto simp: json_string_def)

lemma json_members_sorted: "json_members acc fs = Some m \<Longrightarrow> keys_sorted acc \<Longrightarrow> keys_sorted m"
  by (induction acc fs rule: json_members.induct) (auto simp: keys_sorted_field_put split: option.splits)

lemma decode_stored:
  assumes "float_text ftext" "value_ok d v"
  shows "decodeValue d (value_raw ftext v) = Inr v"
proof (cases v)
  case (VInt i)
  with assms(2) have t: "d_type d = TypeInt \<or> d_type d = TypeDuration" "in64 i" "fl (of_int i) = of_int i"
    by (auto simp: value_ok_def checkType_def typed_as_def split: if_splits)
  then show ?thesis
    by (auto simp: VInt decodeValue_def value_raw_def value_json_def decode_json_def json_int_float int64_of_float_int)
next
  case (VFloat q)
  with assms show ?thesis
    by (auto simp: float_text_def decodeValue_def value_raw_def value_json_def decode_json_def dec_def value_ok_def
        checkType_def typed_as_def split: if_splits)
next
  case (VMap m)
  with assms(2) have "d_type d = TypeMap" "keys_sorted m"
    by (auto simp: value_ok_def checkType_def typed_as_def split: if_splits)
  then show ?thesis
    using foldl_field_put_sorted [of "[]" m]
    by (simp add: VMap decodeValue_def value_raw_def value_json_def decode_json_def json_map_def json_members_map dec_def)
qed (use assms(2) in \<open>auto simp: decodeValue_def value_raw_def value_json_def decode_json_def json_bool_def
      json_string_def json_list_def json_strings_map dec_def value_ok_def checkType_def typed_as_def split: if_splits\<close>)

lemma json_float_rounded: "json_float j = Some q \<Longrightarrow> float_of q = q \<and> float_fits q"
  by (auto simp: json_float_def float_of_fits float_fits_0 split: json.splits if_splits)

lemma fl_int64_min: "fl (of_int int64_min) = of_int int64_min"
proof -
  have "binade (two_pow 63) = 63" by (rule binade_two_pow) simp_all
  then have "two_pow 63 / ulp (two_pow 63) = of_int (2 ^ 52)" using ulp_scale(1) [of "two_pow 63"] by (simp add: field_simps)
  then have "fl (two_pow 63) = two_pow 63" by (intro fl_of_grid) simp_all
  moreover have "rat_of_int int64_min = - two_pow 63" by (simp add: int64_min_def two_pow_def)
  ultimately show ?thesis by (simp add: fl_minus)
qed

lemma int64_of_float_ok:
  assumes "float_of f = f" "f = of_int (trunc f)"
  shows "in64 (int64_of_float f) \<and> fl (of_int (int64_of_float f)) = of_int (int64_of_float f)"
proof (cases "of_int int64_min \<le> f \<and> f \<le> of_int int64_max")
  case True
  then have "int64_min \<le> trunc f \<and> trunc f \<le> int64_max" using assms(2) by (metis of_int_le_iff)
  then have i: "in64 (trunc f)" by (simp add: in64_def)
  then have "fl f = f" using assms float_of_int64 [OF i] by metis
  with True i assms(2) show ?thesis by (simp add: int64_of_float_def)
next
  case False
  then have "int64_of_float f = int64_min" by (simp only: int64_of_float_def if_False)
  then show ?thesis using fl_int64_min by (simp add: in64_def int64_min_def int64_max_def)
qed

lemma decoded_ok:
  assumes "decodeValue d r = Inr v"
  shows "value_ok d v"
proof -
  obtain j where j: "decode_json d j = Inr v" using assms by (auto simp: decodeValue_def split: option.splits)
  show ?thesis
  proof (cases "numeric (d_type d) \<and> d_type d \<noteq> TypeFloat")
    case True
    then obtain f where f: "json_float j = Some f" "f = of_int (trunc f)" "v = VInt (int64_of_float f)"
      using j by (auto simp: numeric_def decode_json_def split: option.splits if_splits)
    with True int64_of_float_ok [OF json_float_rounded [OF f(1), THEN conjunct1] f(2)] show ?thesis
      by (auto simp: value_ok_def checkType_def typed_as_def numeric_def)
  next
    case False
    then show ?thesis
      using j json_members_sorted [of "[]"]
      by (auto simp: decode_json_def value_ok_def checkType_def typed_as_def dec_def json_map_def keys_sorted_def numeric_def
          dest: json_float_rounded split: cfg_type.splits option.splits json.splits if_splits)
  qed
qed

end
