(* ===== verification/Settings_Invariant.thy ===== *)
theory Settings_Invariant
  imports Settings_Facts
begin

text \<open>
  The invariant of the settings registry and of its table: overrides are of their declarations' types,
  the effective values lie inside the effective bounds and satisfy the relational rules, and the table
  holds exactly what the memory holds.
\<close>

section \<open>The rows of the table\<close>

definition rows_keyed :: "setting_row list \<Rightarrow> bool" where
  "rows_keyed rows \<longleftrightarrow> distinct (map (\<lambda>x. (sr_key x, sr_user x)) rows)"

definition row_at :: "setting_row list \<Rightarrow> string \<Rightarrow> string \<Rightarrow> setting_row option" where
  "row_at rows k u = find (row_is k u) rows"

definition cell_at :: "setting_row list \<Rightarrow> string \<Rightarrow> string \<Rightarrow> raw option" where
  "cell_at rows k u = (case row_at rows k u of None \<Rightarrow> None | Some x \<Rightarrow> sr_value x)"

definition bounds_at :: "setting_row list \<Rightarrow> string \<Rightarrow> cfg_bounds option" where
  "bounds_at rows k = (case row_at rows k [] of None \<Rightarrow> None | Some x \<Rightarrow> row_bounds x)"

lemma find_map: "(\<And>x. p (f x) = p x) \<Longrightarrow> find p (map f xs) = map_option f (find p xs)"
  by (induction xs) auto

lemma find_filter_keep: "(\<And>x. p x \<Longrightarrow> q x) \<Longrightarrow> find p (filter q xs) = find p xs"
  by (induction xs) auto

lemma find_snoc: "find p (xs @ [x]) = (case find p xs of None \<Rightarrow> if p x then Some x else None | Some y \<Rightarrow> Some y)"
  by (induction xs) auto

lemma find_none: "find p xs = None \<longleftrightarrow> \<not> list_ex p xs"
  by (auto simp: find_None_iff list_ex_iff)

lemma row_at_drop:
  assumes "rows_keyed rows"
  shows "row_at (filter (\<lambda>x. \<not> (row_is k u x \<and> Q x)) rows) k' u' =
    (if (k', u') = (k, u) then (case row_at rows k u of Some x \<Rightarrow> if Q x then None else Some x | None \<Rightarrow> None)
     else row_at rows k' u')"
  using assms
proof (induction rows)
  case (Cons x rows)
  show ?case
  proof (cases "row_is k u x")
    case True
    with Cons.prems have "\<not> list_ex (row_is k u) rows"
      by (auto simp: rows_keyed_def row_is_def list_ex_iff rev_image_eqI)
    then have "find (row_is k u) rows = None" "find (row_is k u) (filter (\<lambda>x. \<not> (row_is k u x \<and> Q x)) rows) = None"
      by (auto simp: find_none list_ex_iff)
    with True Cons show ?thesis by (auto simp: row_at_def rows_keyed_def row_is_def)
  next
    case False
    with Cons show ?thesis by (auto simp: row_at_def rows_keyed_def row_is_def)
  qed
qed (simp add: row_at_def)

lemma row_at_map:
  "(\<And>x. sr_key (f x) = sr_key x \<and> sr_user (f x) = sr_user x) \<Longrightarrow>
   row_at (map f rows) k u = map_option f (row_at rows k u)"
  unfolding row_at_def by (rule find_map) (simp add: row_is_def)

lemma row_at_upsert:
  assumes "\<And>x. sr_key (upd x) = sr_key x \<and> sr_user (upd x) = sr_user x" "sr_key new = k" "sr_user new = u"
  shows "row_at (upsert_row new upd rows) k' u' =
    (if (k', u') = (k, u) then (case row_at rows k u of None \<Rightarrow> Some new | Some x \<Rightarrow> Some (upd x)) else row_at rows k' u')"
proof (cases "list_ex (row_is k u) rows")
  case True
  let ?f = "\<lambda>x. if row_is k u x then upd x else x"
  have "row_at (map ?f rows) k' u' = map_option ?f (row_at rows k' u')"
    by (rule row_at_map) (simp add: assms(1))
  moreover have "row_is k' u' x" if "row_at rows k' u' = Some x" for x k' u'
    using that by (auto simp: row_at_def find_Some_iff)
  moreover have "upsert_row new upd rows = map ?f rows" using True by (simp add: upsert_row_def assms(2,3))
  moreover obtain y where "row_at rows k u = Some y"
    using True find_none [of "row_is k u" rows] by (auto simp: row_at_def)
  ultimately show ?thesis
    by (cases "row_at rows k' u'") (auto simp: row_is_def)
next
  case False
  then have "row_at rows k u = None" by (simp add: row_at_def find_none)
  with False assms(2,3) show ?thesis
    by (auto simp: upsert_row_def row_at_def find_snoc row_is_def split: option.split)
qed

lemma keyed_map: "(\<And>x. sr_key (f x) = sr_key x \<and> sr_user (f x) = sr_user x) \<Longrightarrow> rows_keyed (map f rows) = rows_keyed rows"
  by (simp add: rows_keyed_def comp_def)

lemma keyed_upsert:
  assumes "rows_keyed rows" "\<And>x. sr_key (upd x) = sr_key x \<and> sr_user (upd x) = sr_user x"
  shows "rows_keyed (upsert_row new upd rows)"
proof (cases "list_ex (row_is (sr_key new) (sr_user new)) rows")
  case True
  with assms show ?thesis by (simp add: upsert_row_def keyed_map)
next
  case False
  with assms(1) show ?thesis by (auto simp: upsert_row_def rows_keyed_def row_is_def list_ex_iff)
qed

lemma keyed_filter: "rows_keyed rows \<Longrightarrow> rows_keyed (filter p rows)"
  by (simp add: rows_keyed_def distinct_map_filter)

section \<open>The four row operations\<close>

lemma upsertValue_at:
  "row_at (upsertValueCell ce k u v a rows) k' u' = (if (k', u') = (k, u)
     then (case row_at rows k u of
         None \<Rightarrow> Some \<lparr>sr_key = k, sr_user = u, sr_value = Some v, sr_floor = None, sr_ceiling = None,
           sr_time = ce_now ce, sr_by = actor_text a\<rparr>
       | Some x \<Rightarrow> Some (x\<lparr>sr_value := Some v, sr_time := ce_now ce, sr_by := actor_text a\<rparr>))
     else row_at rows k' u')"
  unfolding upsertValueCell_def by (rule row_at_upsert) simp_all

lemma upsertBounds_at:
  "row_at (upsertBoundsCells ce k f c a rows) k' u' = (if (k', u') = (k, [])
     then (case row_at rows k [] of
         None \<Rightarrow> Some \<lparr>sr_key = k, sr_user = [], sr_value = None, sr_floor = f, sr_ceiling = c,
           sr_time = ce_now ce, sr_by = actor_text a\<rparr>
       | Some x \<Rightarrow> Some (x\<lparr>sr_floor := f, sr_ceiling := c, sr_time := ce_now ce, sr_by := actor_text a\<rparr>))
     else row_at rows k' u')"
  unfolding upsertBoundsCells_def by (rule row_at_upsert) simp_all

lemma value_at [simp]:
  assumes "rows_keyed rows"
  shows "cell_at (upsertValueCell ce k u v a rows) k' u' = (if (k', u') = (k, u) then Some v else cell_at rows k' u')"
    "bounds_at (upsertValueCell ce k u v a rows) k' = bounds_at rows k'"
    "rows_keyed (upsertValueCell ce k u v a rows)"
  using assms
  by (auto simp: cell_at_def bounds_at_def upsertValue_at row_bounds_def split: option.split)
    (simp add: upsertValueCell_def keyed_upsert)

lemma bounds_cell_at [simp]:
  assumes "rows_keyed rows"
  shows "cell_at (upsertBoundsCells ce k f c a rows) k' u' = cell_at rows k' u'"
    "bounds_at (upsertBoundsCells ce k f c a rows) k' =
       (if k' = k then if f \<noteq> None \<or> c \<noteq> None then Some (f, c) else None else bounds_at rows k')"
    "rows_keyed (upsertBoundsCells ce k f c a rows)"
  using assms
  by (auto simp: cell_at_def bounds_at_def upsertBounds_at row_bounds_def split: option.split)
    (simp add: upsertBoundsCells_def keyed_upsert)

lemma deleteValue_at [simp]:
  assumes "rows_keyed rows"
  shows "cell_at (deleteValueCell k u rows) k' u' = (if (k', u') = (k, u) then None else cell_at rows k' u')"
    "bounds_at (deleteValueCell k u rows) k' = bounds_at rows k'"
    "rows_keyed (deleteValueCell k u rows)"
proof -
  let ?f = "\<lambda>x. if row_is k u x \<and> (sr_floor x \<noteq> None \<or> sr_ceiling x \<noteq> None) then x\<lparr>sr_value := None\<rparr> else x"
  have k: "rows_keyed (map ?f rows)" using assms by (simp add: keyed_map)
  have "row_at (map ?f rows) a b = map_option ?f (row_at rows a b)" for a b by (rule row_at_map) simp
  with row_at_drop [OF k, of k u "\<lambda>x. sr_floor x = None \<and> sr_ceiling x = None"]
  have at: "row_at (deleteValueCell k u rows) a b = (if (a, b) = (k, u)
      then (case map_option ?f (row_at rows k u) of
          Some x \<Rightarrow> if sr_floor x = None \<and> sr_ceiling x = None then None else Some x | None \<Rightarrow> None)
      else map_option ?f (row_at rows a b))" for a b
    by (simp add: deleteValueCell_def)
  have sel: "row_is a b x" if "row_at rows a b = Some x" for x a b using that by (auto simp: row_at_def find_Some_iff)
  show "cell_at (deleteValueCell k u rows) k' u' = (if (k', u') = (k, u) then None else cell_at rows k' u')"
    by (auto simp: cell_at_def at split: option.split dest!: sel) (auto simp: row_is_def)
  show "bounds_at (deleteValueCell k u rows) k' = bounds_at rows k'"
    by (auto simp: bounds_at_def at row_bounds_def split: option.split dest!: sel)
  show "rows_keyed (deleteValueCell k u rows)"
    unfolding deleteValueCell_def using k by (rule keyed_filter)
qed

lemma deleteBounds_at [simp]:
  assumes "rows_keyed rows"
  shows "cell_at (deleteBoundsCells k rows) k' u' = cell_at rows k' u'"
    "bounds_at (deleteBoundsCells k rows) k' = (if k' = k then None else bounds_at rows k')"
    "rows_keyed (deleteBoundsCells k rows)"
proof -
  let ?f = "\<lambda>x. if row_is k [] x \<and> sr_value x \<noteq> None then x\<lparr>sr_floor := None, sr_ceiling := None\<rparr> else x"
  have k: "rows_keyed (map ?f rows)" using assms by (simp add: keyed_map)
  have "row_at (map ?f rows) a b = map_option ?f (row_at rows a b)" for a b by (rule row_at_map) simp
  with row_at_drop [OF k, of k "[]" "\<lambda>x. sr_value x = None"]
  have at: "row_at (deleteBoundsCells k rows) a b = (if (a, b) = (k, [])
      then (case map_option ?f (row_at rows k []) of
          Some x \<Rightarrow> if sr_value x = None then None else Some x | None \<Rightarrow> None)
      else map_option ?f (row_at rows a b))" for a b
    by (simp add: deleteBoundsCells_def)
  have sel: "row_is a b x" if "row_at rows a b = Some x" for x a b using that by (auto simp: row_at_def find_Some_iff)
  show "cell_at (deleteBoundsCells k rows) k' u' = cell_at rows k' u'"
    by (auto simp: cell_at_def at split: option.split dest!: sel)
  show "bounds_at (deleteBoundsCells k rows) k' = (if k' = k then None else bounds_at rows k')"
    by (auto simp: bounds_at_def at row_bounds_def split: option.split dest!: sel) (auto simp: row_is_def)
  show "rows_keyed (deleteBoundsCells k rows)"
    unfolding deleteBoundsCells_def using k by (rule keyed_filter)
qed

end
