(* ===== verification/Settings_Steps.thy ===== *)
theory Settings_Steps
  imports Settings_Invariant
begin

text \<open>
  The writes keep the invariant of the registry and keep the table equal to the memory.
\<close>

section \<open>The invariant\<close>

definition registry_ok :: "cfg_registry \<Rightarrow> bool" where
  "registry_ok r \<longleftrightarrow>
     (\<forall>k v. map_of (rg_vals r) k = Some v \<longrightarrow> (\<exists>d. decl_of k = Some d \<and> value_ok d v)) \<and>
     (\<forall>k u v. map_of (rg_user r) (k, u) = Some v \<longrightarrow> u \<noteq> [] \<and>
        (\<exists>d. decl_of k = Some d \<and> d_peruser d \<and> value_ok d v \<and> in_clamp d (map_of (rg_bounds r) k) v)) \<and>
     (\<forall>k b. map_of (rg_bounds r) k = Some b \<longrightarrow> b \<noteq> (None, None) \<and> (\<exists>d. decl_of k = Some d \<and> numeric (d_type d))) \<and>
     (\<forall>k d. decl_of k = Some d \<longrightarrow> in_clamp d (map_of (rg_bounds r) k) (effective r d [])) \<and>
     checkRules r [] \<and> distinct (map fst (rg_user r))"

text \<open>The table holds what the memory holds.\<close>

definition stored :: "(rat \<Rightarrow> string) \<Rightarrow> cfg_registry \<Rightarrow> setting_row list \<Rightarrow> bool" where
  "stored ftext r rows \<longleftrightarrow> rows_keyed rows \<and>
     (\<forall>k. cell_at rows k [] = map_option (value_raw ftext) (map_of (rg_vals r) k)) \<and>
     (\<forall>k u. u \<noteq> [] \<longrightarrow> cell_at rows k u = map_option (value_raw ftext) (map_of (rg_user r) (k, u))) \<and>
     (\<forall>k. bounds_at rows k = map_of (rg_bounds r) k) \<and>
     (\<forall>x\<in>set rows. decl_of (sr_key x) \<noteq> None \<and> (sr_user x \<noteq> [] \<longrightarrow> row_bounds x = None))"

lemma effective_ok:
  assumes "registry_ok r" "decl_of k = Some d"
  shows "value_ok d (effective r d u)"
proof -
  have key: "d_key d = k" and def: "value_ok d (d_default d)"
    using decl_of_Some [OF assms(2)] index_decl_ok [of d] by (simp_all add: decl_ok_def)
  with assms show ?thesis
    by (fastforce simp: registry_ok_def effective_def split: option.split)
qed

lemma registry_ok_bounds:
  "registry_ok r \<Longrightarrow> map_of (rg_bounds r) k = Some b \<Longrightarrow>
   b \<noteq> (None, None) \<and> (\<exists>d. decl_of k = Some d \<and> numeric (d_type d))"
  unfolding registry_ok_def by blast

lemma registry_ok_clamp:
  "registry_ok r \<Longrightarrow> decl_of k = Some d \<Longrightarrow> in_clamp d (map_of (rg_bounds r) k) (effective r d [])"
  unfolding registry_ok_def by blast

lemma numeric_value: "value_ok d v \<Longrightarrow> numeric (d_type d) \<Longrightarrow> numericOf d v = Some (num_of d v)"
  by (auto simp: value_ok_def checkType_def typed_as_def numericOf_def num_of_def numeric_def split: cfg_value.splits if_splits)

lemma in_clamp_num: "value_ok d v \<Longrightarrow> numeric (d_type d) \<Longrightarrow> in_clamp d ov v = checkClamp d ov (num_of d v)"
  by (simp add: in_clamp_def numeric_value)

text \<open>Only the platform's own values enter the view.\<close>

lemma view_cong:
  assumes "\<And>k. view_value r ov k = view_value r' ov' k"
  shows "checkRules r ov = checkRules r' ov'"
proof -
  have "view_value r ov = view_value r' ov'" using assms by blast
  then show ?thesis by (simp add: checkRules_def view_of_def cong: option.case_cong)
qed

lemma set_memory_sel [simp]:
  "rg_bounds (set_memory q d v r) = rg_bounds r" "rg_attached (set_memory q d v r) = rg_attached r"
  "map_of (rg_vals (set_memory q d v r)) = (if sq_user q \<noteq> [] then map_of (rg_vals r)
     else (map_of (rg_vals r))(d_key d := (if sq_value q = None then None else Some v)))"
  "map_of (rg_user (set_memory q d v r)) = (if sq_user q = [] then map_of (rg_user r)
     else (map_of (rg_user r))((d_key d, sq_user q) := (if sq_value q = None then None else Some v)))"
  by (auto simp: set_memory_def AList.update_conv' AList.delete_conv')

lemma set_gate_Inr:
  assumes "set_gate r q = Inr (d, new)"
  shows "rg_attached r" "decl_of (sq_key q) = Some d" "d_key d = sq_key q"
    "sq_user q \<noteq> [] \<longrightarrow> d_peruser d" "value_ok d new" "sq_value q = None \<longrightarrow> new = d_default d"
    "in_clamp d (map_of (rg_bounds r) (sq_key q)) new"
    "checkRules r (if sq_user q = [] then [(sq_key q, new)] else [])"
    "\<not> automation_refused d q" "actor_check (sq_actor q) = Inr ()"
proof -
  have "decl_of (sq_key q) = Some d \<Longrightarrow> decl_ok d \<and> d_key d = sq_key q"
    using decl_of_Some index_decl_ok by blast
  then show "rg_attached r" "decl_of (sq_key q) = Some d" "d_key d = sq_key q"
    "sq_user q \<noteq> [] \<longrightarrow> d_peruser d" "value_ok d new" "sq_value q = None \<longrightarrow> new = d_default d"
    "in_clamp d (map_of (rg_bounds r) (sq_key q)) new"
    "checkRules r (if sq_user q = [] then [(sq_key q, new)] else [])"
    "\<not> automation_refused d q" "actor_check (sq_actor q) = Inr ()"
    using assms
    by (auto simp: set_gate_def decl_ok_def split: if_splits option.splits sum.splits dest: decoded_ok)
qed

lemma effective_set:
  assumes "set_gate r q = Inr (d, new)" "decl_of k = Some d'"
  shows "effective (set_memory q d new r) d' [] =
    (if sq_user q = [] \<and> k = sq_key q then new else effective r d' [])"
proof -
  note g = set_gate_Inr [OF assms(1)]
  have "d_key d' = k" using decl_of_Some [OF assms(2)] by simp
  moreover have "k = sq_key q \<Longrightarrow> d' = d" using assms(2) g(2) by simp
  ultimately show ?thesis using g(3,6) by (auto simp: effective_def)
qed

lemma rules_set:
  assumes "set_gate r q = Inr (d, new)"
  shows "checkRules (set_memory q d new r) []"
proof -
  note g = set_gate_Inr [OF assms]
  have "checkRules (set_memory q d new r) [] = checkRules r (if sq_user q = [] then [(sq_key q, new)] else [])"
    by (rule view_cong) (use g(2) effective_set [OF assms] in \<open>auto simp: view_value_def split: option.split\<close>)
  with g(8) show ?thesis by simp
qed

lemma Set_keeps_ok:
  assumes ok: "registry_ok r" and gate: "set_gate r q = Inr (d, new)"
  shows "registry_ok (set_memory q d new r)"
proof -
  note g = set_gate_Inr [OF gate]
  have "in_clamp d' (map_of (rg_bounds r) k) (effective (set_memory q d new r) d' [])" if "decl_of k = Some d'" for k d'
    using ok that g(2,7) effective_set [OF gate that] by (auto simp: registry_ok_def)
  moreover have "distinct (map fst (rg_user (set_memory q d new r)))"
    using ok by (simp add: set_memory_def registry_ok_def distinct_update distinct_delete)
  ultimately show ?thesis
    using ok g(2-5,7) rules_set [OF gate] unfolding registry_ok_def
    by (simp split: if_splits)
qed

lemma Set_keeps_stored:
  assumes "stored (ce_float ce) r rows" and gate: "set_gate r q = Inr (d, new)"
  shows "stored (ce_float ce) (set_memory q d new r) (set_rows ce q d new rows)"
proof -
  note g = set_gate_Inr [OF gate]
  have keyed: "rows_keyed rows" using assms(1) by (simp add: stored_def)
  have rows: "\<forall>x\<in>set (set_rows ce q d new rows). decl_of (sr_key x) \<noteq> None \<and> (sr_user x \<noteq> [] \<longrightarrow> row_bounds x = None)"
    using assms(1) g(2,3)
    by (auto simp: set_rows_def deleteValueCell_def upsertValueCell_def upsert_row_def stored_def row_bounds_def)
  show ?thesis
    using assms(1) rows g(3) keyed unfolding stored_def
    by (cases "sq_value q") (auto simp: set_rows_def)
qed

section \<open>Bounds\<close>

lemma bounds_memory_sel [simp]:
  "rg_vals (bounds_memory q d r) = rg_vals r" "rg_user (bounds_memory q d r) = rg_user r"
  "rg_attached (bounds_memory q d r) = rg_attached r"
  "map_of (rg_bounds (bounds_memory q d r)) = (map_of (rg_bounds r))(d_key d := bounds_next q)"
  by (auto simp: bounds_memory_def AList.update_conv' AList.delete_conv' split: option.split)

lemma effective_bounds [simp]: "effective (bounds_memory q d r) d' u = effective r d' u"
  by (simp add: effective_def cong: option.case_cong)

lemma bounds_gate_Inr:
  assumes "bounds_gate r q = Inr d"
  shows "rg_attached r" "decl_of (bq_key q) = Some d" "d_key d = bq_key q" "numeric (d_type d)"
    "ac_kind (bq_actor q) = ActorOperator"
    "checkClamp d (bounds_next q) (num_of d (effective r d []))"
    "\<forall>(u, v)\<in>set (users_of r (bq_key q)). checkClamp d (bounds_next q) (num_of d v)"
proof -
  have "decl_of (bq_key q) = Some d \<Longrightarrow> d_key d = bq_key q" using decl_of_Some by blast
  then show "rg_attached r" "decl_of (bq_key q) = Some d" "d_key d = bq_key q" "numeric (d_type d)"
    "ac_kind (bq_actor q) = ActorOperator"
    "checkClamp d (bounds_next q) (num_of d (effective r d []))"
    "\<forall>(u, v)\<in>set (users_of r (bq_key q)). checkClamp d (bounds_next q) (num_of d v)"
    using assms by (auto simp: bounds_gate_def list_ex_iff split: if_splits option.splits sum.splits)
qed

lemma users_of_map: "map_of (rg_user r) (k, u) = Some v \<Longrightarrow> (u, v) \<in> set (users_of r k)"
  by (auto simp: users_of_def dest!: map_of_SomeD intro!: rev_image_eqI [of "((k, u), v)"])

lemma bounds_next_some: "bounds_next q = Some b \<Longrightarrow> b \<noteq> (None, None)"
  by (auto simp: bounds_next_def bounds_reset_def split: if_splits)

lemma SetBounds_keeps_ok:
  assumes ok: "registry_ok r" and gate: "bounds_gate r q = Inr d"
  shows "registry_ok (bounds_memory q d r)"
proof -
  note g = bounds_gate_Inr [OF gate]
  have user: "in_clamp d (bounds_next q) v" if v: "map_of (rg_user r) (bq_key q, u) = Some v" for u v
  proof -
    have "value_ok d v" using ok v g(2) by (fastforce simp: registry_ok_def)
    moreover have "checkClamp d (bounds_next q) (num_of d v)" using g(7) users_of_map [OF v] by auto
    ultimately show ?thesis using g(4) by (simp add: in_clamp_num)
  qed
  have platform: "in_clamp d (bounds_next q) (effective r d [])"
    using effective_ok [OF ok g(2)] g(4,6) by (simp add: in_clamp_num)
  have rules: "checkRules (bounds_memory q d r) [] = checkRules r []"
    by (rule view_cong) (simp add: view_value_def split: option.split)
  have users: "u \<noteq> [] \<and> (\<exists>d'. decl_of k = Some d' \<and> d_peruser d' \<and> value_ok d' v \<and>
      in_clamp d' (map_of (rg_bounds (bounds_memory q d r)) k) v)"
    if v: "map_of (rg_user r) (k, u) = Some v" for k u v
  proof -
    obtain d' where d': "u \<noteq> []" "decl_of k = Some d'" "d_peruser d'" "value_ok d' v"
      "in_clamp d' (map_of (rg_bounds r) k) v"
      using ok v unfolding registry_ok_def by blast
    then show ?thesis using g(2,3) user [of u v] v by (cases "k = bq_key q") auto
  qed
  have effs: "in_clamp d' (map_of (rg_bounds (bounds_memory q d r)) k) (effective r d' [])" if "decl_of k = Some d'" for k d'
    using that g(2,3) platform registry_ok_clamp [OF ok that] by (cases "k = bq_key q") auto
  have bnds: "b \<noteq> (None, None) \<and> (\<exists>d. decl_of k = Some d \<and> numeric (d_type d))"
    if "map_of (rg_bounds (bounds_memory q d r)) k = Some b" for k b
    using that g(2-4) bounds_next_some [of q b] registry_ok_bounds [OF ok, of k b]
    by (cases "k = bq_key q") simp_all
  show ?thesis
    unfolding registry_ok_def
    by (intro conjI allI impI)
      (use ok rules users effs bnds in \<open>simp_all add: registry_ok_def del: bounds_memory_sel(4)\<close>)
qed

lemma SetBounds_keeps_stored:
  assumes "stored (ce_float ce) r rows" and gate: "bounds_gate r q = Inr d"
  shows "stored (ce_float ce) (bounds_memory q d r) (bounds_rows ce q d rows)"
proof -
  note g = bounds_gate_Inr [OF gate]
  have keyed: "rows_keyed rows" using assms(1) by (simp add: stored_def)
  have rows: "\<forall>x\<in>set (bounds_rows ce q d rows). decl_of (sr_key x) \<noteq> None \<and> (sr_user x \<noteq> [] \<longrightarrow> row_bounds x = None)"
    using assms(1) g(2,3)
    by (auto simp: bounds_rows_def deleteBoundsCells_def upsertBoundsCells_def upsert_row_def stored_def row_bounds_def row_is_def)
  show ?thesis
    using assms(1) rows g(3) keyed unfolding stored_def
    by (auto simp: bounds_rows_def bounds_next_def bounds_reset_def)
qed

end
