(* ===== verification/Settings_Attach.thy ===== *)
theory Settings_Attach
  imports Settings_Steps
begin

text \<open>
  The registry over time: it starts with the shipped index, is written through its two verbs, and is
  loaded again from its table at every restart.
\<close>

section \<open>Loading rows\<close>

definition row_loads :: "setting_row \<Rightarrow> bool" where
  "row_loads x \<longleftrightarrow> (\<exists>d. decl_of (sr_key x) = Some d \<and>
     (row_bounds x \<noteq> None \<longrightarrow> sr_user x = [] \<and> numeric (d_type d)) \<and>
     (\<forall>cell. sr_value x = Some cell \<longrightarrow> (sr_user x = [] \<or> d_peruser d) \<and>
        (\<exists>v. decodeValue d cell = Inr v \<and> in_clamp d (row_bounds x) v)))"

lemma attach_rows_Cons:
  "attach_rows (x # xs) r = Inr r' \<longleftrightarrow> (\<exists>d r1 r2. decl_of (sr_key x) = Some d \<and> attach_bounds x d r = Inr r1 \<and>
     attach_value x d r1 = Inr r2 \<and> attach_rows xs r2 = Inr r')"
  by (auto split: option.splits sum.splits)

lemma attach_bounds_Inr:
  "(\<exists>r'. attach_bounds x d r = Inr r') \<longleftrightarrow> (row_bounds x \<noteq> None \<longrightarrow> sr_user x = [] \<and> numeric (d_type d))"
  by (simp add: attach_bounds_def split: option.split)

lemma attach_value_Inr:
  "(\<exists>r'. attach_value x d r = Inr r') \<longleftrightarrow>
   (\<forall>cell. sr_value x = Some cell \<longrightarrow> (sr_user x = [] \<or> d_peruser d) \<and>
      (\<exists>v. decodeValue d cell = Inr v \<and> in_clamp d (row_bounds x) v))"
  by (auto simp: attach_value_def split: option.splits sum.splits if_splits)

lemma attach_loads: "(\<exists>r'. attach_rows xs r = Inr r') \<longleftrightarrow> list_all row_loads xs"
proof (induction xs arbitrary: r)
  case (Cons x xs)
  show ?case
  proof
    assume "\<exists>r'. attach_rows (x # xs) r = Inr r'"
    then obtain d r1 r2 r' where s: "decl_of (sr_key x) = Some d" "attach_bounds x d r = Inr r1"
      "attach_value x d r1 = Inr r2" "attach_rows xs r2 = Inr r'" unfolding attach_rows_Cons by blast
    with attach_bounds_Inr [of x d r] attach_value_Inr [of x d r1] have "row_loads x" unfolding row_loads_def by blast
    with s(4) Cons.IH [of r2] show "list_all row_loads (x # xs)" by auto
  next
    assume l: "list_all row_loads (x # xs)"
    then obtain d where d: "decl_of (sr_key x) = Some d"
      and b: "row_bounds x \<noteq> None \<longrightarrow> sr_user x = [] \<and> numeric (d_type d)"
      and v: "\<forall>cell. sr_value x = Some cell \<longrightarrow> (sr_user x = [] \<or> d_peruser d) \<and>
        (\<exists>v. decodeValue d cell = Inr v \<and> in_clamp d (row_bounds x) v)"
      unfolding list.pred_inject row_loads_def by blast
    from b obtain r1 where r1: "attach_bounds x d r = Inr r1" using attach_bounds_Inr [of x d r] by blast
    from v obtain r2 where r2: "attach_value x d r1 = Inr r2" using attach_value_Inr [of x d r1] by blast
    from l obtain r' where "attach_rows xs r2 = Inr r'" using Cons.IH [of r2] by auto
    with d r1 r2 show "\<exists>r'. attach_rows (x # xs) r = Inr r'" unfolding attach_rows_Cons by blast
  qed
qed simp

definition loaded :: "setting_row list \<Rightarrow> string \<Rightarrow> string \<Rightarrow> cfg_value option" where
  "loaded rows k u = (case cell_at rows k u of None \<Rightarrow> None
     | Some c \<Rightarrow> (case decl_of k of None \<Rightarrow> None | Some d \<Rightarrow> right (decodeValue d c)))"

lemma keyed_tail:
  assumes "rows_keyed (x # xs)"
  shows "rows_keyed xs" "row_at xs (sr_key x) (sr_user x) = None"
  using assms find_none [of "row_is (sr_key x) (sr_user x)" xs]
  by (auto simp: rows_keyed_def row_at_def row_is_def list_ex_iff rev_image_eqI)

lemma row_at_Cons: "row_at (x # xs) k u = (if (k, u) = (sr_key x, sr_user x) then Some x else row_at xs k u)"
  by (auto simp: row_at_def row_is_def)

lemma attach_maps:
  assumes "attach_rows xs r = Inr r'" "rows_keyed xs"
  shows "map_of (rg_vals r') k = (if cell_at xs k [] = None then map_of (rg_vals r) k else loaded xs k [])"
    "u \<noteq> [] \<Longrightarrow> map_of (rg_user r') (k, u) = (if cell_at xs k u = None then map_of (rg_user r) (k, u) else loaded xs k u)"
    "map_of (rg_user r') (k, []) = map_of (rg_user r) (k, [])"
    "map_of (rg_bounds r') k = (if bounds_at xs k = None then map_of (rg_bounds r) k else bounds_at xs k)"
    "distinct (map fst (rg_user r)) \<longrightarrow> distinct (map fst (rg_user r'))"
  using assms
proof (induction xs arbitrary: r)
  case Nil
  { case 1 then show ?case by (simp add: cell_at_def row_at_def) }
  { case 2 then show ?case by (simp add: cell_at_def row_at_def) }
  { case 3 then show ?case by simp }
  { case 4 then show ?case by (simp add: bounds_at_def row_at_def) }
  { case 5 then show ?case by simp }
next
  case (Cons x xs)
  note facts = cell_at_def bounds_at_def loaded_def row_at_Cons attach_bounds_def attach_value_def right_def
    AList.update_conv' row_bounds_def distinct_update
  { case 1
    obtain d r1 r2 where s: "decl_of (sr_key x) = Some d" "attach_bounds x d r = Inr r1" "attach_value x d r1 = Inr r2"
        "attach_rows xs r2 = Inr r'" using 1(1) unfolding attach_rows_Cons by blast
    note k = keyed_tail [OF 1(2)]
    show ?case unfolding Cons.IH(1) [OF s(4) k(1)]
        using s(1-3) k(2) by (auto simp: facts split: option.splits sum.splits if_splits) }
  { case 2
    obtain d r1 r2 where s: "decl_of (sr_key x) = Some d" "attach_bounds x d r = Inr r1" "attach_value x d r1 = Inr r2"
        "attach_rows xs r2 = Inr r'" using 2(2) unfolding attach_rows_Cons by blast
    note k = keyed_tail [OF 2(3)]
    show ?case unfolding Cons.IH(2) [OF 2(1) s(4) k(1)]
        using s(1-3) k(2) 2(1) by (auto simp: facts split: option.splits sum.splits if_splits) }
  { case 3
    obtain d r1 r2 where s: "decl_of (sr_key x) = Some d" "attach_bounds x d r = Inr r1" "attach_value x d r1 = Inr r2"
        "attach_rows xs r2 = Inr r'" using 3(1) unfolding attach_rows_Cons by blast
    note k = keyed_tail [OF 3(2)]
    show ?case unfolding Cons.IH(3) [OF s(4) k(1)]
        using s(1-3) by (auto simp: facts split: option.splits sum.splits if_splits) }
  { case 4
    obtain d r1 r2 where s: "decl_of (sr_key x) = Some d" "attach_bounds x d r = Inr r1" "attach_value x d r1 = Inr r2"
        "attach_rows xs r2 = Inr r'" using 4(1) unfolding attach_rows_Cons by blast
    note k = keyed_tail [OF 4(2)]
    show ?case unfolding Cons.IH(4) [OF s(4) k(1)]
        using s(1-3) k(2) by (auto simp: facts split: option.splits sum.splits if_splits) }
  { case 5
    obtain d r1 r2 where s: "decl_of (sr_key x) = Some d" "attach_bounds x d r = Inr r1" "attach_value x d r1 = Inr r2"
        "attach_rows xs r2 = Inr r'" using 5(1) unfolding attach_rows_Cons by blast
    note k = keyed_tail [OF 5(2)]
    show ?case using Cons.IH(5) [OF s(4) k(1)]
        using s(1-3) by (auto simp: facts split: option.splits sum.splits if_splits) }
qed

end
