(* ===== verification/Settings_Reach.thy ===== *)
theory Settings_Reach
  imports Settings_Attach
begin

text \<open>
  The registries a run of the daemon holds: the shipped defaults, the writes, and the loads of later starts.
\<close>

section \<open>The first start\<close>

definition first_registry :: cfg_registry where
  "first_registry = New_registry\<lparr>rg_attached := True\<rparr>"

text \<open>The keys, section by section; a key is looked for in its own section only.\<close>

lemma index_keys:
  "map d_key index_shell = [''shell.drain_grace'', ''shell.watchdog_sec'', ''shell.inhibit_delay_max'',
       ''shell.journal_max_use'']"
  "map d_key index_state = [''state.synchronous'', ''state.busy_timeout'', ''state.wal_truncate_interval'',
       ''state.event_payload_cap'']"
  "map d_key index_recovery = [''recovery.heartbeat'', ''recovery.dead_after'', ''recovery.wake_grace'',
       ''recovery.max_attempts'', ''recovery.stale_finalize'', ''recovery.sweep_interval'']"
  "map d_key index_effects = [''effects.approval_expiry'']"
  "map d_key index_claims = [''claims.default_write'']"
  "map d_key index_freshness = [''freshness.max_age'', ''freshness.hold_vs_park'']"
  "map d_key index_adapter = [''adapter.claude.cleanup_period_days'', ''adapter.engine_ceiling_backstop_mult'',
       ''adapter.parallel_gate_fallback'']"
  "map d_key index_orchestration = [''orchestration.depth_cap'', ''orchestration.max_concurrent_helpers'',
       ''orchestration.helper_turns'', ''orchestration.helper_tokens'', ''orchestration.spawn_budget'',
       ''orchestration.report_tokens'', ''orchestration.bulk_offload_tokens'',
       ''orchestration.helper_retry_limit'', ''orchestration.stagger_identical_prefix'']"
  "map d_key index_context = [''context.stage_fit_target'', ''context.stage_overflow_threshold'',
       ''context.conventions_max_lines'', ''context.recitation_interval_turns'']"
  "map d_key index_intake = [''intake.zero_interaction_cost_usd'', ''intake.clearance_floor.low'',
       ''intake.clearance_floor.standard'', ''intake.clearance_floor.high'', ''intake.size_recheck_factor'',
       ''intake.coverage_autofix_rounds'', ''intake.critique_revise_rounds'']"
  "map d_key index_verification = [''verification.rework_rounds'', ''verification.convergence_patience_rounds'',
       ''verification.sanity_stakes_floor'', ''verification.entailment_sample_rate'',
       ''verification.research_rerun_limit'', ''verification.check_audit_interval_days'',
       ''verification.canary_interval_hours'', ''verification.drill_interval_days'',
       ''verification.card_remind_hours'', ''verification.card_push_hours'', ''verification.safety_reping_hours'']"
  "map d_key index_workers = [''workers.first_n'', ''workers.gap_proposal_count'', ''workers.persona_lines_max'',
       ''workers.dryrun_cost_cap_usd'']"
  "map d_key index_memory = [''memory.l1_ttl_days'', ''memory.reverify_lessons_days'',
       ''memory.reverify_house_days'', ''memory.proposals_per_task_max'', ''memory.digest_interval_days'',
       ''memory.distill_threshold_lessons'', ''memory.injection_budget_tokens.house'',
       ''memory.injection_budget_tokens.project'', ''memory.injection_budget_tokens.user'',
       ''memory.injection_budget_tokens.worker_overlay'', ''memory.vector_gate.task_miss_rate'',
       ''memory.vector_gate.corpus_entries'']"
  "map d_key index_pressure = [''pressure.cache_read_weight'', ''pressure.bg_admit_stop'',
       ''budget.background_window_fraction'', ''meter.value_divergence_alarm'', ''limit.retry_cap'',
       ''limit.retry_budget_ratio'', ''limit.probe_interval_max'', ''scheduler.missed_slot_default'',
       ''arbitration.background_cpuweight'']"
  "map d_key index_sandbox = [''sandbox.egress_deny_cidrs'', ''sandbox.block_outbound_doh'',
       ''sandbox.c2_registry_allowlist'', ''sandbox.model_egress_tls_terminate'']"
  "map d_key index_local = [''local.ttl.fast_s'', ''local.ttl.workhorse_s'', ''local.ttl.egpu_s'',
       ''local.vram.guard_band_mb'', ''local.unload.term_grace_s'', ''local.gamemode_hook'',
       ''local.battery.gpu_admission'', ''local.batch.ac_only'', ''local.broker.sandbox_logprobs'',
       ''local.reeval.cadence_months'', ''local.alias'']"
  "map d_key index_review = [''review.anchor_drift_lines'', ''backup.interval'', ''backup.keep'',
       ''backup.repo_rotation'', ''backup.drill_interval'', ''preview.idle_stop'', ''preview.max_concurrent'']"
  "map d_key index_obs = [''obs.sse_keepalive'', ''watchdog.loop_repeat'', ''watchdog.pingpong_cycles'',
       ''watchdog.error_loop'', ''watchdog.silence_budget'', ''watchdog.spend_median_mult'',
       ''watchdog.spend_arm_days'', ''watchdog.flag_now_target'', ''watchdog.suppress_retune_count'',
       ''watchlist.fetch_fail_streak'', ''canary.auth_interval'', ''canary.behavioral_interval'',
       ''retention.compaction_horizon'', ''eval.sweep_interval'', ''benchmark.sampling_rate'']"
  "map d_key index_frontend = [''frontend.dependency_pass_interval'']"
  "map d_key index_adoption = [''adoption.dependency_pass_months'', ''adoption.abandonment_months'',
       ''adoption.price_data_stale_days'']"
  by (simp_all add: index_defs plain_decl_def)

lemma find_key_none: "key \<notin> set (map d_key ds) \<Longrightarrow> find (\<lambda>d. d_key d = key) ds = None"
  by (auto simp: find_None_iff)

lemma recovery_decls:
  "decl_of ''recovery.dead_after'' = Some ((plain_decl ''recovery.dead_after'' ''S02'' TypeDuration (VInt 300)) \<lparr>d_unit := ''seconds''\<rparr>)"
  "decl_of ''recovery.heartbeat'' = Some ((plain_decl ''recovery.heartbeat'' ''S02'' TypeDuration (VInt 60))
       \<lparr>d_unit := ''seconds'', d_min := Some 15, d_max := Some 300\<rparr>)"
  by (simp_all add: decl_of_def cfg_index_def find_append find_key_none index_keys index_recovery_def plain_decl_def)

lemma context_decls:
  "decl_of ''context.stage_fit_target'' = Some ((plain_decl ''context.stage_fit_target'' ''S05'' TypeFloat (VFloat (fl (50 / 100)))) \<lparr>d_unit := ''ratio'', d_min := Some (fl (20 / 100)), d_max := Some (fl (70 / 100)), d_auto := True\<rparr>)"
  "decl_of ''context.stage_overflow_threshold'' = Some ((plain_decl ''context.stage_overflow_threshold'' ''S05'' TypeFloat (VFloat (fl (70 / 100)))) \<lparr>d_unit := ''ratio'', d_max := Some (fl (85 / 100)), d_auto := True\<rparr>)"
  "decl_of ''context.recitation_interval_turns'' = Some ((plain_decl ''context.recitation_interval_turns'' ''S05'' TypeInt (VInt 10)) \<lparr>d_unit := ''turns''\<rparr>)"
  by (simp_all add: decl_of_def cfg_index_def find_append find_key_none index_keys index_context_def plain_decl_def)

lemma verification_decls:
  "decl_of ''verification.convergence_patience_rounds'' = Some ((plain_decl ''verification.convergence_patience_rounds'' ''S07'' TypeInt (VInt 2)) \<lparr>d_unit := ''rounds'', d_min := Some 1\<rparr>)"
  "decl_of ''verification.rework_rounds'' = Some ((plain_decl ''verification.rework_rounds'' ''S07'' TypeInt (VInt 3)) \<lparr>d_unit := ''rounds'', d_min := Some 0\<rparr>)"
  by (simp_all add: decl_of_def cfg_index_def find_append find_key_none index_keys index_verification_def plain_decl_def)

lemma adapter_decls:
  "decl_of ''adapter.claude.cleanup_period_days'' = Some ((plain_decl ''adapter.claude.cleanup_period_days'' ''S03'' TypeInt (VInt 365)) \<lparr>d_unit := ''days'', d_min := Some 30\<rparr>)"
  by (simp_all add: decl_of_def cfg_index_def find_append find_key_none index_keys index_adapter_def plain_decl_def)

lemma effects_decls:
  "decl_of ''effects.approval_expiry'' = Some ((plain_decl ''effects.approval_expiry'' ''S02'' TypeDuration (VInt 604800)) \<lparr>d_unit := ''seconds'', d_min := Some 3600, d_max := Some 2592000\<rparr>)"
  by (simp_all add: decl_of_def cfg_index_def find_append find_key_none index_keys index_effects_def plain_decl_def)

lemma sandbox_decls:
  "decl_of ''sandbox.egress_deny_cidrs'' = Some ((plain_decl ''sandbox.egress_deny_cidrs'' ''S11'' TypeList (VList [''169.254.169.254/32'', ''169.254.0.0/16'', ''10.0.0.0/8'', ''172.16.0.0/12'', ''192.168.0.0/16'', ''fc00::/7''])))"
  by (simp_all add: decl_of_def cfg_index_def find_append find_key_none index_keys index_sandbox_def plain_decl_def)

lemma pressure_decls:
  "decl_of ''arbitration.background_cpuweight'' = Some ((plain_decl ''arbitration.background_cpuweight'' ''S10'' TypeString (VString ''idle'')))"
  by (simp_all add: decl_of_def cfg_index_def find_append find_key_none index_keys index_pressure_def plain_decl_def)

lemma obs_decls:
  "decl_of ''benchmark.sampling_rate'' = Some ((plain_decl ''benchmark.sampling_rate'' ''S14'' TypeMap (VMap [(''maintenance'', ''25''), (''pre-gate'', ''100'')])))"
  "decl_of ''watchdog.silence_budget'' = Some ((plain_decl ''watchdog.silence_budget'' ''S14'' TypeMap (VMap [])))"
  by (simp_all add: decl_of_def cfg_index_def find_append find_key_none index_keys index_obs_def plain_decl_def)

lemma local_decls:
  "decl_of ''local.alias'' = Some ((plain_decl ''local.alias'' ''S12'' TypeMap (VMap [(''contradiction-screen'',
       ''DeBERTa-class NLI cross-encoder''), (''distill-summarize'', ''workhorse''), (''embedder'',
       ''Qwen3-Embedding-0.6B''), (''entailment'', ''Granite Guardian 8B''), (''intake-triage'', ''fast''),
       (''intent-filling'', ''fast''), (''sql-open'', ''Arctic-Text2SQL-R1-7B''), (''utility'', ''workhorse''),
       (''watchdog-disambiguator'', ''fast''), (''watchlist-triage'', ''fast'')])))"
  by (simp_all add: decl_of_def cfg_index_def find_append find_key_none index_keys index_local_def plain_decl_def)

lemmas rule_key_decls = recovery_decls context_decls verification_decls adapter_decls effects_decls sandbox_decls pressure_decls obs_decls local_decls

lemma default_effective [simp]: "effective first_registry d u = d_default d"
  by (simp add: effective_def first_registry_def New_registry_def)

lemma fit_overflow: "fl (fl (fl (1 / 2) + fl (1 / 20)) - fl (1 / 1000000000)) \<le> fl (7 / 10)"
proof -
  let ?b = "fl (1 / 2) + fl (1 / 20)" and ?e = "1 / 2 ^ 19 :: rat"
  have e: "\<bar>fl x - x\<bar> \<le> ?e" if "0 \<le> x" "x \<le> 1" for x by (rule fl_error_small) (use that in simp_all)
  have h: "fl (1 / 2) \<le> 1 / 2 + ?e" "fl (1 / 20) \<le> 1 / 20 + ?e" "0 \<le> fl (1 / 2)" "0 \<le> fl (1 / 20)"
    using e [of "1 / 2"] e [of "1 / 20"] unfolding abs_le_iff by (simp_all add: fl_nonneg)
  then have "0 \<le> ?b" "?b \<le> 1" by simp_all
  with e [of ?b] h have "fl ?b \<le> 7 / 10" unfolding abs_le_iff by simp
  moreover have "fl x \<le> fl (7 / 10)" if "x \<le> 7 / 10" for x
    using that fl_mono [of x "7 / 10"] fl_nonpos [of x] fl_nonneg [of "7 / 10"] by (cases "0 \<le> x") simp_all
  moreover have "0 \<le> fl (1 / 1000000000)" by (simp add: fl_nonneg)
  ultimately show ?thesis by simp
qed

lemmas view_eval = view_of_def view_value_def rule_key_decls plain_decl_def num_of_def numericOf_def
  view_str_def view_strings_def view_map_def

lemma sampling_digits: "intInRange ''25'' 0 100" "intInRange ''100'' 0 100"
  by code_simp+

lemma first_rules: "checkRules first_registry []"
proof -
  let ?v = "view_of first_registry []"
  have "ru_check rule_dead_after ?v" "ru_check rule_patience ?v" "ru_check rule_cleanup ?v"
    by (simp_all add: rule_dead_after_def rule_patience_def rule_cleanup_def view_eval)
  moreover have "ru_check rule_overflow ?v"
    using fit_overflow by (simp add: rule_overflow_def view_eval)
  moreover have "ru_check rule_metadata ?v" "ru_check rule_recitation ?v" "ru_check rule_cpuweight ?v"
    "ru_check rule_silence ?v" "ru_check rule_alias ?v"
    by (simp_all add: rule_metadata_def rule_recitation_def rule_cpuweight_def rule_silence_def rule_alias_def view_eval)
  moreover have "ru_check rule_sampling ?v"
    by (simp add: rule_sampling_def view_eval sampling_digits)
  ultimately show ?thesis by (simp add: checkRules_def cfg_rules_def)
qed

lemma section_domains:
  "set (map Domain index_shell) = {''shell''}"
  "set (map Domain index_state) = {''state''}"
  "set (map Domain index_recovery) = {''recovery''}"
  "set (map Domain index_effects) = {''effects''}"
  "set (map Domain index_claims) = {''claims''}"
  "set (map Domain index_freshness) = {''freshness''}"
  "set (map Domain index_adapter) = {''adapter''}"
  "set (map Domain index_orchestration) = {''orchestration''}"
  "set (map Domain index_context) = {''context''}"
  "set (map Domain index_intake) = {''intake''}"
  "set (map Domain index_verification) = {''verification''}"
  "set (map Domain index_workers) = {''workers''}"
  "set (map Domain index_memory) = {''memory''}"
  "set (map Domain index_pressure) = {''pressure'', ''budget'', ''meter'', ''limit'', ''scheduler'', ''arbitration''}"
  "set (map Domain index_sandbox) = {''sandbox''}"
  "set (map Domain index_local) = {''local''}"
  "set (map Domain index_review) = {''review'', ''backup'', ''preview''}"
  "set (map Domain index_obs) = {''obs'', ''watchdog'', ''watchlist'', ''canary'', ''retention'', ''eval'',
       ''benchmark''}"
  "set (map Domain index_frontend) = {''frontend''}"
  "set (map Domain index_adoption) = {''adoption''}"
  by (simp_all add: index_defs plain_decl_def Domain_def insert_commute)

lemma section_distinct:
  "distinct (map d_key index_shell)"
  "distinct (map d_key index_state)"
  "distinct (map d_key index_recovery)"
  "distinct (map d_key index_effects)"
  "distinct (map d_key index_claims)"
  "distinct (map d_key index_freshness)"
  "distinct (map d_key index_adapter)"
  "distinct (map d_key index_orchestration)"
  "distinct (map d_key index_context)"
  "distinct (map d_key index_intake)"
  "distinct (map d_key index_verification)"
  "distinct (map d_key index_workers)"
  "distinct (map d_key index_memory)"
  "distinct (map d_key index_pressure)"
  "distinct (map d_key index_sandbox)"
  "distinct (map d_key index_local)"
  "distinct (map d_key index_review)"
  "distinct (map d_key index_obs)"
  "distinct (map d_key index_frontend)"
  "distinct (map d_key index_adoption)"
  by (simp_all add: index_keys)

text \<open>Two declarations of different domains have different keys.\<close>

lemma distinct_domains:
  assumes "distinct (map d_key xs)" "distinct (map d_key ys)" "set (map Domain xs) \<inter> set (map Domain ys) = {}"
  shows "distinct (map d_key (xs @ ys))"
proof -
  have "Domain x = Domain y" if "d_key x = d_key y" for x y using that by (simp add: Domain_def)
  moreover have "Domain x \<noteq> Domain y" if "x \<in> set xs" "y \<in> set ys" for x y
    using that assms(3) by (auto simp only: set_map)
  ultimately have "d_key x \<noteq> d_key y" if "x \<in> set xs" "y \<in> set ys" for x y using that by blast
  then have "d_key ` set xs \<inter> d_key ` set ys = {}" by blast
  with assms(1,2) show ?thesis by simp
qed

lemma index_distinct: "distinct (map d_key cfg_index)"
  unfolding cfg_index_def
  by (intro distinct_domains section_distinct) (simp_all only: map_append set_append section_domains, simp_all)

text \<open>The panics of \<open>New\<close>: a bad declaration, a key declared twice, a rule over an undeclared key.\<close>

definition New :: "cfg_registry option" where
  "New = (if list_all validateDecl cfg_index \<and> distinct (map d_key cfg_index) \<and>
       list_all (\<lambda>ru. list_all (\<lambda>k. decl_of k \<noteq> None) (ru_keys ru)) cfg_rules
     then Some New_registry else None)"

lemmas valid_eval = index_defs validateDecl_def Domain_def decl_eval

lemma valid_1: "list_all validateDecl (index_shell @ index_state @ index_recovery @ index_effects @ index_claims)"
  by (simp add: valid_eval)

lemma valid_2: "list_all validateDecl (index_freshness @ index_adapter @ index_orchestration @ index_context @ index_intake)"
  by (simp add: valid_eval)

lemma valid_3: "list_all validateDecl (index_verification @ index_workers @ index_memory @ index_pressure)"
  by (simp add: valid_eval)

lemma valid_4: "list_all validateDecl (index_sandbox @ index_local @ index_review @ index_obs @ index_frontend @ index_adoption)"
  by (simp add: valid_eval)

lemma rule_keys_declared: "list_all (\<lambda>ru. list_all (\<lambda>k. decl_of k \<noteq> None) (ru_keys ru)) cfg_rules"
  by (simp add: cfg_rules_def rule_dead_after_def rule_overflow_def rule_patience_def rule_cleanup_def rule_metadata_def
      rule_recitation_def rule_cpuweight_def rule_sampling_def rule_silence_def rule_alias_def rule_key_decls)

lemma New_no_panic: "New = Some New_registry"
  using valid_1 valid_2 valid_3 valid_4 index_distinct rule_keys_declared
  by (simp add: New_def cfg_index_def)

section \<open>A restart\<close>

text \<open>Registries that answer every read alike.\<close>

definition same_registry :: "cfg_registry \<Rightarrow> cfg_registry \<Rightarrow> bool" where
  "same_registry r r' \<longleftrightarrow> map_of (rg_vals r) = map_of (rg_vals r') \<and> map_of (rg_user r) = map_of (rg_user r') \<and>
     map_of (rg_bounds r) = map_of (rg_bounds r') \<and> rg_attached r = rg_attached r'"

lemma same_effective: "same_registry r r' \<Longrightarrow> effective r = effective r'"
  by (simp add: same_registry_def effective_def fun_eq_iff cong: option.case_cong)

lemma same_rules: "same_registry r r' \<Longrightarrow> checkRules r [] = checkRules r' []"
  by (rule view_cong) (simp add: view_value_def same_effective cong: option.case_cong)

lemma same_ok:
  assumes "same_registry r r'" "registry_ok r" "distinct (map fst (rg_user r'))"
  shows "registry_ok r'"
  using assms(2,3) same_effective [OF assms(1)] same_rules [OF assms(1)] assms(1)
  unfolding registry_ok_def same_registry_def by (simp cong: conj_cong)

lemma registry_ok_value:
  "registry_ok r \<Longrightarrow> map_of (rg_vals r) k = Some v \<Longrightarrow> \<exists>d. decl_of k = Some d \<and> value_ok d v"
  unfolding registry_ok_def by blast

lemma registry_ok_user:
  "registry_ok r \<Longrightarrow> map_of (rg_user r) (k, u) = Some v \<Longrightarrow>
   u \<noteq> [] \<and> (\<exists>d. decl_of k = Some d \<and> d_peruser d \<and> value_ok d v \<and> in_clamp d (map_of (rg_bounds r) k) v)"
  unfolding registry_ok_def by blast

lemma stored_cells:
  assumes "stored ftext r rows"
  shows "rows_keyed rows" "cell_at rows k [] = map_option (value_raw ftext) (map_of (rg_vals r) k)"
    "u \<noteq> [] \<Longrightarrow> cell_at rows k u = map_option (value_raw ftext) (map_of (rg_user r) (k, u))"
    "bounds_at rows k = map_of (rg_bounds r) k"
  using assms unfolding stored_def by blast+

lemma loaded_value:
  assumes "float_text ftext" "registry_ok r" "stored ftext r rows"
  shows "loaded rows k [] = map_of (rg_vals r) k" "u \<noteq> [] \<Longrightarrow> loaded rows k u = map_of (rg_user r) (k, u)"
proof -
  have d: "decodeValue d (value_raw ftext v) = Inr v" if "value_ok d v" for d v
    using decode_stored [OF assms(1) that] .
  show "loaded rows k [] = map_of (rg_vals r) k"
    using registry_ok_value [OF assms(2), of k] d
    by (cases "map_of (rg_vals r) k") (auto simp: loaded_def stored_cells [OF assms(3)] right_def)
  show "u \<noteq> [] \<Longrightarrow> loaded rows k u = map_of (rg_user r) (k, u)"
    using registry_ok_user [OF assms(2), of k u] d
    by (cases "map_of (rg_user r) (k, u)") (auto simp: loaded_def stored_cells [OF assms(3)] right_def)
qed

lemma restart_same:
  assumes "float_text ftext" "registry_ok r" "stored ftext r (cs_rows st)" "rg_attached r"
    and "Registry_Attach st New_registry = (Inr (), r')"
  shows "same_registry r r'" "distinct (map fst (rg_user r'))"
proof -
  obtain l where l: "attach_rows (cs_rows st) New_registry = Inr l" "r' = l\<lparr>rg_attached := True\<rparr>"
    using assms(5) by (auto simp: Registry_Attach_def New_registry_def split: sum.splits)
  note c = stored_cells [OF assms(3)]
  note m = attach_maps [OF l(1) c(1)] and v = loaded_value [OF assms(1-3)]
  have "map_of (rg_vals l) k = map_of (rg_vals r) k" for k
    using m(1) [of k] v(1) [of k] c(2) [of k] by (auto simp: New_registry_def split: if_splits)
  moreover have "map_of (rg_user l) (k, u) = map_of (rg_user r) (k, u)" for k u
  proof (cases "u = []")
    case True
    then have "map_of (rg_user r) (k, u) = None"
      using registry_ok_user [OF assms(2), of k u] by (cases "map_of (rg_user r) (k, u)") auto
    with True m(3) [of k] show ?thesis by (simp add: New_registry_def)
  next
    case False
    with m(2) [of u k] v(2) [of u k] c(3) [of u k] show ?thesis by (auto simp: New_registry_def split: if_splits)
  qed
  moreover have "map_of (rg_bounds l) k = map_of (rg_bounds r) k" for k
    using m(4) [of k] c(4) [of k] by (auto simp: New_registry_def split: if_splits)
  ultimately show "same_registry r r'"
    using l(2) assms(4) by (auto simp: same_registry_def fun_eq_iff)
  show "distinct (map fst (rg_user r'))" using m(5) l(2) by (simp add: New_registry_def)
qed

lemma row_at_member: "rows_keyed rows \<Longrightarrow> x \<in> set rows \<Longrightarrow> row_at rows (sr_key x) (sr_user x) = Some x"
proof (induction rows)
  case (Cons y rows)
  then show ?case using keyed_tail [OF Cons.prems(1)] by (auto simp: row_at_Cons)
qed simp

lemma row_at_Some: "row_at rows k u = Some x \<Longrightarrow> x \<in> set rows \<and> sr_key x = k \<and> sr_user x = u"
  by (auto simp: row_at_def row_is_def find_Some_iff)

text \<open>A start that would find every person's value inside the declared bounds.\<close>

definition users_in_declared :: "cfg_registry \<Rightarrow> bool" where
  "users_in_declared r \<longleftrightarrow>
     (\<forall>k u v d. map_of (rg_user r) (k, u) = Some v \<longrightarrow> decl_of k = Some d \<longrightarrow> in_clamp d None v)"

lemma row_loads_stored:
  assumes "float_text ftext" "registry_ok r" "stored ftext r rows" "x \<in> set rows"
  shows "row_loads x \<longleftrightarrow> (\<forall>v d. sr_user x \<noteq> [] \<longrightarrow> map_of (rg_user r) (sr_key x, sr_user x) = Some v \<longrightarrow>
    decl_of (sr_key x) = Some d \<longrightarrow> in_clamp d None v)"
proof -
  note c = stored_cells [OF assms(3)]
  note at = row_at_member [OF c(1) assms(4)]
  obtain d where d: "decl_of (sr_key x) = Some d" and b: "sr_user x \<noteq> [] \<longrightarrow> row_bounds x = None"
    using assms(3,4) unfolding stored_def by blast
  note dec = decode_stored [OF assms(1)]
  show ?thesis
  proof (cases "sr_user x = []")
    case True
    have "row_bounds x = map_of (rg_bounds r) (sr_key x)" using c(4) [of "sr_key x"] at True by (simp add: bounds_at_def)
    moreover have "sr_value x = map_option (value_raw ftext) (map_of (rg_vals r) (sr_key x))"
      using c(2) [of "sr_key x"] at True by (simp add: cell_at_def)
    moreover have "effective r d [] = v" if "map_of (rg_vals r) (sr_key x) = Some v" for v
      using that decl_of_Some [OF d] by (simp add: effective_def)
    ultimately show ?thesis
      using True d dec registry_ok_value [OF assms(2), of "sr_key x"] registry_ok_clamp [OF assms(2) d]
        registry_ok_bounds [OF assms(2), of "sr_key x"]
      by (fastforce simp: row_loads_def)
  next
    case False
    have "sr_value x = map_option (value_raw ftext) (map_of (rg_user r) (sr_key x, sr_user x))"
      using c(3) [of "sr_user x" "sr_key x"] at False by (simp add: cell_at_def)
    then show ?thesis
      using False d b dec registry_ok_user [OF assms(2), of "sr_key x" "sr_user x"]
      by (cases "map_of (rg_user r) (sr_key x, sr_user x)") (auto simp: row_loads_def)
  qed
qed

lemma restart_loads:
  assumes "float_text ftext" "registry_ok r" "stored ftext r (cs_rows st)"
  shows "(\<exists>r'. Registry_Attach st New_registry = (Inr (), r')) \<longleftrightarrow> users_in_declared r"
proof -
  note c = stored_cells [OF assms(3)] and l = row_loads_stored [OF assms]
  have "(\<exists>r'. Registry_Attach st New_registry = (Inr (), r')) \<longleftrightarrow> (\<exists>r'. attach_rows (cs_rows st) New_registry = Inr r')"
    by (auto simp: Registry_Attach_def New_registry_def split: sum.splits)
  also have "\<dots> \<longleftrightarrow> (\<forall>x\<in>set (cs_rows st). row_loads x)" by (simp add: attach_loads list_all_iff)
  also have "\<dots> \<longleftrightarrow> users_in_declared r"
  proof
    assume a: "\<forall>x\<in>set (cs_rows st). row_loads x"
    show "users_in_declared r"
      unfolding users_in_declared_def
    proof (intro allI impI)
      fix k u v d assume h: "map_of (rg_user r) (k, u) = Some v" "decl_of k = Some d"
      with registry_ok_user [OF assms(2) h(1)] c(3) [of u k] have u: "u \<noteq> []" "cell_at (cs_rows st) k u \<noteq> None" by auto
      then obtain x where "row_at (cs_rows st) k u = Some x" by (auto simp: cell_at_def split: option.splits)
      with row_at_Some have x: "x \<in> set (cs_rows st)" "sr_key x = k" "sr_user x = u" by blast+
      with a l [OF x(1)] h u(1) show "in_clamp d None v" by blast
    qed
  qed (use l in \<open>auto simp: users_in_declared_def\<close>)
  finally show ?thesis .
qed

section \<open>Reachable registries\<close>

inductive cfg_reachable :: "(rat \<Rightarrow> string) \<Rightarrow> cfg_registry \<Rightarrow> cfg_store \<Rightarrow> bool" for ftext where
  cfg_start: "cs_rows st = [] \<Longrightarrow> Registry_Attach st New_registry = (Inr (), r) \<Longrightarrow> cfg_reachable ftext r st"
| cfg_set: "cfg_reachable ftext r st \<Longrightarrow> ce_float ce = ftext \<Longrightarrow>
    Registry_Set ce q (r, st) = (x, r', st') \<Longrightarrow> cfg_reachable ftext r' st'"
| cfg_bounds: "cfg_reachable ftext r st \<Longrightarrow> ce_float ce = ftext \<Longrightarrow>
    Registry_SetBounds ce b (r, st) = (x, r', st') \<Longrightarrow> cfg_reachable ftext r' st'"
| cfg_log: "cfg_reachable ftext r st \<Longrightarrow> cfg_reachable ftext r (st\<lparr>cs_db := d\<rparr>)"
| cfg_restart: "cfg_reachable ftext r st \<Longrightarrow> Registry_Attach st New_registry = (Inr (), r') \<Longrightarrow>
    cfg_reachable ftext r' st"

lemma persist_Inr: "persist ce r ch f st = Inr st' \<Longrightarrow> cs_rows st' = f (cs_rows st)"
  by (auto simp: persist_def split: sum.splits)

lemma first_ok: "registry_ok first_registry \<and> stored ftext first_registry []"
proof -
  have "in_clamp d None (d_default d)" if "decl_of k = Some d" for k d
    using decl_of_Some [OF that] index_decl_ok [of d] by (simp add: decl_ok_def)
  moreover have "map_of (rg_bounds first_registry) k = None" for k
    by (simp add: first_registry_def New_registry_def)
  ultimately show ?thesis
    using first_rules
    by (simp add: registry_ok_def) (simp add: stored_def first_registry_def New_registry_def rows_keyed_def cell_at_def
      bounds_at_def row_at_def)
qed

lemma cfg_reachable_ok:
  assumes "cfg_reachable ftext r st" "float_text ftext"
  shows "registry_ok r \<and> stored ftext r (cs_rows st) \<and> rg_attached r"
  using assms
proof (induction rule: cfg_reachable.induct)
  case (cfg_start st r)
  then have "r = first_registry" by (simp add: Registry_Attach_def first_registry_def New_registry_def)
  with first_ok cfg_start(1) show ?case by (simp add: first_registry_def)
next
  case (cfg_set r st ce q x r' st')
  then show ?case
    using Set_keeps_ok [of r q] Set_keeps_stored [of ce r "cs_rows st" q]
    by (fastforce simp: Registry_Set_def split: sum.splits prod.splits dest: persist_Inr)
next
  case (cfg_bounds r st ce b x r' st')
  then show ?case
    using SetBounds_keeps_ok [of r b] SetBounds_keeps_stored [of ce r "cs_rows st" b]
    by (fastforce simp: Registry_SetBounds_def split: sum.splits dest: persist_Inr)
next
  case (cfg_restart r st r')
  then have i: "registry_ok r" "stored ftext r (cs_rows st)" "rg_attached r" by simp_all
  note s = restart_same [OF cfg_restart.prems i cfg_restart.hyps(2)]
  show ?case using same_ok [OF s(1) i(1) s(2)] i s(1) by (simp add: stored_def same_registry_def)
qed simp

end
