(* ===== verification/Settings_Reads.thy ===== *)
theory Settings_Reads
  imports Settings_Reach Local_Properties Metering_Properties Effect_Properties Recovery_Properties Watch_Detects
begin

text \<open>
  The settings the other components read, and what the registry answers them.
\<close>

section \<open>The keys\<close>

text \<open>The keys the components of this development read, by the type they ask for.\<close>

definition int_keys :: "string list" where
  "int_keys = [keyPayloadCap, keyLoopRepeat, keyPingPongCycles, keyErrorLoop, keySpendArmDays, keyFlagNowTarget,
       keySuppressRetune, keyUnloadGrace, keyGuardBandMB, ''limit.retry_cap'', ''recovery.max_attempts'',
       ''verification.card_push_hours'', ''verification.card_remind_hours'']"

definition float_keys :: "string list" where
  "float_keys = [keyBgWindowFraction, keyCacheReadWeight, keyDivergenceAlarm, keySpendMedianMult, keyBgAdmitStop,
       ''limit.retry_budget_ratio'']"

definition duration_keys :: "string list" where
  "duration_keys = [keyApprovalExpiry, keyDeadAfter, keyFreshnessMaxAge, keyHeartbeat,
       ''limit.probe_interval_max'', ''recovery.stale_finalize'', ''recovery.sweep_interval'', ''recovery.wake_grace'']"

lemma state_keys:
  "decl_of ''state.event_payload_cap'' = Some ((plain_decl ''state.event_payload_cap'' ''S02'' TypeInt (VInt 65536)) \<lparr>d_unit := ''bytes'', d_min := Some 4096, d_max := Some 1048576\<rparr>)"
  by (simp_all add: decl_of_def cfg_index_def find_append find_key_none index_keys index_state_def plain_decl_def)

lemma obs_keys:
  "decl_of ''watchdog.loop_repeat'' = Some ((plain_decl ''watchdog.loop_repeat'' ''S14'' TypeInt (VInt 5))
       \<lparr>d_min := Some 3, d_max := Some 10\<rparr>)"
  "decl_of ''watchdog.pingpong_cycles'' = Some ((plain_decl ''watchdog.pingpong_cycles'' ''S14'' TypeInt (VInt 6)) \<lparr>d_min := Some 3, d_max := Some 12\<rparr>)"
  "decl_of ''watchdog.error_loop'' = Some ((plain_decl ''watchdog.error_loop'' ''S14'' TypeInt (VInt 3))
       \<lparr>d_min := Some 2, d_max := Some 10\<rparr>)"
  "decl_of ''watchdog.spend_arm_days'' = Some ((plain_decl ''watchdog.spend_arm_days'' ''S14'' TypeInt (VInt 14)) \<lparr>d_unit := ''days'', d_min := Some 7\<rparr>)"
  "decl_of ''watchdog.flag_now_target'' = Some ((plain_decl ''watchdog.flag_now_target'' ''S14'' TypeInt (VInt 2)) \<lparr>d_unit := ''per-day'', d_min := Some 1, d_max := Some 10\<rparr>)"
  "decl_of ''watchdog.suppress_retune_count'' = Some ((plain_decl ''watchdog.suppress_retune_count'' ''S14'' TypeInt (VInt 2)) \<lparr>d_min := Some 1, d_max := Some 5\<rparr>)"
  "decl_of ''watchdog.spend_median_mult'' = Some ((plain_decl ''watchdog.spend_median_mult'' ''S14'' TypeFloat (VFloat 3)) \<lparr>d_unit := ''multiplier'', d_min := Some (fl (15 / 10))\<rparr>)"
  "decl_of ''retention.compaction_horizon'' = Some ((plain_decl ''retention.compaction_horizon'' ''S14'' TypeInt (VInt 6)) \<lparr>d_unit := ''months'', d_min := Some 1, d_peruser := True\<rparr>)"
  by (simp_all add: decl_of_def cfg_index_def find_append find_key_none index_keys index_obs_def plain_decl_def)

lemma local_keys:
  "decl_of ''local.unload.term_grace_s'' = Some ((plain_decl ''local.unload.term_grace_s'' ''S12'' TypeInt (VInt 5)) \<lparr>d_unit := ''seconds'', d_min := Some 1, d_max := Some 30\<rparr>)"
  "decl_of ''local.vram.guard_band_mb'' = Some ((plain_decl ''local.vram.guard_band_mb'' ''S12'' TypeInt (VInt 512)) \<lparr>d_unit := ''MB'', d_min := Some 128\<rparr>)"
  "decl_of ''local.battery.gpu_admission'' = Some ((plain_decl ''local.battery.gpu_admission'' ''S12'' TypeEnum (VString ''urgent-only'')) \<lparr>d_enum := [''never'', ''urgent-only'', ''always'']\<rparr>)"
  "decl_of ''local.broker.sandbox_logprobs'' = Some ((plain_decl ''local.broker.sandbox_logprobs'' ''S12'' TypeBool (VBool False)))"
  by (simp_all add: decl_of_def cfg_index_def find_append find_key_none index_keys index_local_def plain_decl_def)

lemma pressure_keys:
  "decl_of ''limit.retry_cap'' = Some ((plain_decl ''limit.retry_cap'' ''S10'' TypeInt (VInt 3))
       \<lparr>d_min := Some 1, d_max := Some 5\<rparr>)"
  "decl_of ''budget.background_window_fraction'' = Some ((plain_decl ''budget.background_window_fraction'' ''S10'' TypeFloat (VFloat (fl (5 / 10)))) \<lparr>d_unit := ''ratio'', d_min := Some 0, d_max := Some 1\<rparr>)"
  "decl_of ''pressure.cache_read_weight'' = Some ((plain_decl ''pressure.cache_read_weight'' ''S10'' TypeFloat (VFloat (fl (1 / 10)))) \<lparr>d_unit := ''ratio'', d_min := Some 0, d_max := Some 1\<rparr>)"
  "decl_of ''meter.value_divergence_alarm'' = Some ((plain_decl ''meter.value_divergence_alarm'' ''S10'' TypeFloat (VFloat 20)) \<lparr>d_unit := ''percent'', d_min := Some 5, d_max := Some 100\<rparr>)"
  "decl_of ''pressure.bg_admit_stop'' = Some ((plain_decl ''pressure.bg_admit_stop'' ''S10'' TypeFloat (VFloat (fl (7 / 10)))) \<lparr>d_unit := ''ratio'', d_min := Some (fl (1 / 10)), d_max := Some (fl (95 / 100))\<rparr>)"
  "decl_of ''limit.retry_budget_ratio'' = Some ((plain_decl ''limit.retry_budget_ratio'' ''S10'' TypeFloat (VFloat (fl (10 / 100)))) \<lparr>d_unit := ''ratio'', d_min := Some (fl (1 / 100)), d_max := Some (fl (5 / 10))\<rparr>)"
  "decl_of ''limit.probe_interval_max'' = Some ((plain_decl ''limit.probe_interval_max'' ''S10'' TypeDuration (VInt 1800)) \<lparr>d_unit := ''seconds'', d_min := Some 60, d_max := Some 7200\<rparr>)"
  by (simp_all add: decl_of_def cfg_index_def find_append find_key_none index_keys index_pressure_def plain_decl_def)

lemma recovery_keys:
  "decl_of ''recovery.max_attempts'' = Some ((plain_decl ''recovery.max_attempts'' ''S02'' TypeInt (VInt 3))
       \<lparr>d_min := Some 1, d_max := Some 5\<rparr>)"
  "decl_of ''recovery.stale_finalize'' = Some ((plain_decl ''recovery.stale_finalize'' ''S02'' TypeDuration (VInt 86400)) \<lparr>d_unit := ''seconds'', d_min := Some 3600\<rparr>)"
  "decl_of ''recovery.sweep_interval'' = Some ((plain_decl ''recovery.sweep_interval'' ''S02'' TypeDuration (VInt 300)) \<lparr>d_unit := ''seconds'', d_min := Some 60, d_max := Some 1800\<rparr>)"
  "decl_of ''recovery.wake_grace'' = Some ((plain_decl ''recovery.wake_grace'' ''S02'' TypeDuration (VInt 120)) \<lparr>d_unit := ''seconds'', d_min := Some 30, d_max := Some 600\<rparr>)"
  by (simp_all add: decl_of_def cfg_index_def find_append find_key_none index_keys index_recovery_def plain_decl_def)

lemma verification_keys:
  "decl_of ''verification.card_push_hours'' = Some ((plain_decl ''verification.card_push_hours'' ''S07'' TypeInt (VInt 24)) \<lparr>d_unit := ''hours'', d_min := Some 1\<rparr>)"
  "decl_of ''verification.card_remind_hours'' = Some ((plain_decl ''verification.card_remind_hours'' ''S07'' TypeInt (VInt 4)) \<lparr>d_unit := ''hours'', d_min := Some 1\<rparr>)"
  by (simp_all add: decl_of_def cfg_index_def find_append find_key_none index_keys index_verification_def plain_decl_def)

lemma freshness_keys:
  "decl_of ''freshness.max_age'' = Some ((plain_decl ''freshness.max_age'' ''S02'' TypeDuration (VInt 86400)) \<lparr>d_unit := ''seconds'', d_min := Some 3600\<rparr>)"
  by (simp_all add: decl_of_def cfg_index_def find_append find_key_none index_keys index_freshness_def plain_decl_def)

lemma orchestration_keys:
  "decl_of ''orchestration.helper_turns'' = Some ((plain_decl ''orchestration.helper_turns'' ''S04'' TypeInt (VInt 20)) \<lparr>d_unit := ''turns'', d_min := Some 1, d_auto := True\<rparr>)"
  by (simp_all add: decl_of_def cfg_index_def find_append find_key_none index_keys index_orchestration_def plain_decl_def)

lemmas read_decls = rule_key_decls state_keys obs_keys local_keys pressure_keys recovery_keys verification_keys freshness_keys orchestration_keys

lemmas read_keys = keyPayloadCap_def keyLoopRepeat_def keyPingPongCycles_def keyErrorLoop_def keySpendArmDays_def keyFlagNowTarget_def keySuppressRetune_def keyUnloadGrace_def keyGuardBandMB_def keyBgWindowFraction_def keyCacheReadWeight_def keyDivergenceAlarm_def keySpendMedianMult_def keyBgAdmitStop_def keyApprovalExpiry_def keyDeadAfter_def keyFreshnessMaxAge_def keyHeartbeat_def keyBatteryGPUAdmission_def keySandboxLogprobs_def keyAlias_def keySilenceBudget_def

lemma int_keys_declared: "k \<in> set int_keys \<Longrightarrow> \<exists>d. decl_of k = Some d \<and> d_type d = TypeInt"
  by (auto simp: int_keys_def read_keys read_decls plain_decl_def)

lemma float_keys_declared: "k \<in> set float_keys \<Longrightarrow> \<exists>d. decl_of k = Some d \<and> d_type d = TypeFloat"
  by (auto simp: float_keys_def read_keys read_decls plain_decl_def)

lemma duration_keys_declared: "k \<in> set duration_keys \<Longrightarrow> \<exists>d. decl_of k = Some d \<and> d_type d = TypeDuration"
  by (auto simp: duration_keys_def read_keys read_decls plain_decl_def)

section \<open>Getters\<close>

definition answers :: "cfg_registry \<Rightarrow> string \<Rightarrow> string \<Rightarrow> cfg_decl \<Rightarrow> bool" where
  "answers r k u d \<longleftrightarrow> (case d_type d of
       TypeBool \<Rightarrow> \<exists>b. effective r d u = VBool b \<and> Registry_Bool r k = Inr b
     | TypeInt \<Rightarrow> \<exists>i. effective r d u = VInt i \<and> in64 i \<and> Registry_IntFor r k u = Inr i
     | TypeFloat \<Rightarrow> \<exists>q. effective r d u = VFloat q \<and> float_fits q \<and> Registry_FloatFor r k u = Inr q
     | TypeDuration \<Rightarrow> \<exists>i. effective r d u = VInt i \<and> in64 i \<and> Registry_Duration r k = Inr (wrap64 (i * second))
     | TypeString \<Rightarrow> \<exists>s. effective r d u = VString s \<and> Registry_String r k = Inr s
     | TypeEnum \<Rightarrow> \<exists>s. effective r d u = VString s \<and> s \<in> set (d_enum d) \<and> Registry_String r k = Inr s
     | TypeList \<Rightarrow> \<exists>l. effective r d u = VList l \<and> Registry_Strings r k = Inr l
     | TypeMap \<Rightarrow> \<exists>m. effective r d u = VMap m \<and> keys_sorted m \<and> Registry_StringMap r k = Inr m)"

lemma value_shape:
  assumes "value_ok d v"
  shows "case d_type d of
       TypeBool \<Rightarrow> \<exists>b. v = VBool b
     | TypeInt \<Rightarrow> \<exists>i. v = VInt i \<and> in64 i
     | TypeFloat \<Rightarrow> \<exists>q. v = VFloat q \<and> float_fits q
     | TypeDuration \<Rightarrow> \<exists>i. v = VInt i \<and> in64 i
     | TypeString \<Rightarrow> \<exists>s. v = VString s
     | TypeEnum \<Rightarrow> \<exists>s. v = VString s \<and> s \<in> set (d_enum d)
     | TypeList \<Rightarrow> \<exists>l. v = VList l
     | TypeMap \<Rightarrow> \<exists>m. v = VMap m \<and> keys_sorted m"
  using assms
  by (cases v) (auto simp: value_ok_def checkType_def typed_as_def split: cfg_type.split if_splits)

lemma peruser_numeric: "d \<in> set cfg_index \<Longrightarrow> d_peruser d \<Longrightarrow> d_type d = TypeInt \<or> d_type d = TypeFloat"
proof -
  have "list_all (\<lambda>d. d_peruser d \<longrightarrow> d_type d = TypeInt \<or> d_type d = TypeFloat) cfg_index"
    by (simp add: index_defs plain_decl_def)
  then show "d \<in> set cfg_index \<Longrightarrow> d_peruser d \<Longrightarrow> d_type d = TypeInt \<or> d_type d = TypeFloat"
    by (simp only: list_all_iff)
qed

lemma getter_answers:
  assumes "registry_ok r" "decl_of k = Some d" "u = [] \<or> d_peruser d"
  shows "answers r k u d"
proof -
  note v = value_shape [OF effective_ok [OF assms(1,2), of u]]
  have "u = [] \<or> d_type d = TypeInt \<or> d_type d = TypeFloat"
    using assms(3) decl_of_Some [OF assms(2)] peruser_numeric by blast
  then show ?thesis
    using v assms(2,3)
    by (auto simp: answers_def typed_def Registry_Bool_def Registry_IntFor_def Registry_FloatFor_def Registry_Duration_def
        Registry_String_def Registry_Strings_def Registry_StringMap_def split: cfg_type.splits)
qed

lemma settings_read:
  assumes "registry_ok r" "decl_of k = Some d"
  shows "d_type d = TypeInt \<Longrightarrow> \<exists>i. effective r d [] = VInt i \<and> in64 i \<and> set_int (settings_of r) k = Some i"
    "d_type d = TypeFloat \<Longrightarrow> \<exists>q. effective r d [] = VFloat q \<and> set_float (settings_of r) k = Some q"
    "d_type d = TypeDuration \<Longrightarrow> \<exists>i. effective r d [] = VInt i \<and> set_duration (settings_of r) k = Some (wrap64 (i * second))"
    "d_type d = TypeEnum \<Longrightarrow> \<exists>s\<in>set (d_enum d). set_string (settings_of r) k = Some s"
    "d_type d = TypeBool \<Longrightarrow> \<exists>b. set_bool (settings_of r) k = Some b"
    "d_type d = TypeMap \<Longrightarrow> \<exists>m. effective r d [] = VMap m \<and> set_map (settings_of r) k = Some (map_of m)"
  using getter_answers [OF assms, of "[]"]
  by (auto simp: answers_def settings_of_def Registry_Int_def Registry_Float_def right_def)

text \<open>An integer without an operator bound lies in its declared bounds.\<close>

lemma declared_bounds:
  assumes "registry_ok r" "decl_of k = Some d" "map_of (rg_bounds r) k = None"
    and "effective r d [] = VInt i" "d_type d = TypeInt \<or> d_type d = TypeDuration"
  shows "d_min d = Some m \<Longrightarrow> m \<le> of_int i" "d_max d = Some x \<Longrightarrow> of_int i \<le> x"
proof -
  have "fl (of_int i) = of_int i" using effective_ok [OF assms(1,2), of "[]"] assms(4) by (simp add: value_ok_def)
  then have c: "checkClamp d None (of_int i)"
    using registry_ok_clamp [OF assms(1,2)] assms(3-5) by (auto simp: in_clamp_def numericOf_def)
  show "d_min d = Some m \<Longrightarrow> m \<le> of_int i" "d_max d = Some x \<Longrightarrow> of_int i \<le> x"
    using c by (auto simp: checkClamp_def split: if_splits)
qed

end
