(* ===== verification/Settings_Properties.thy ===== *)
theory Settings_Properties
  imports Settings_Reads
begin

text \<open>
  The properties of the settings registry.
\<close>

section \<open>Writes that succeed\<close>

lemma reads_of:
  assumes "cfg_reachable ftext r st" "float_text ftext"
  shows "registry_ok r" "stored ftext r (cs_rows st)" "rg_attached r"
  using cfg_reachable_ok [OF assms] by simp_all

definition ceiling_of :: "cfg_registry \<Rightarrow> int" where
  "ceiling_of r = (case set_int (settings_of r) keyPayloadCap of None \<Rightarrow> 0 | Some c \<Rightarrow> c)"

definition change_append :: "audit_change \<Rightarrow> append" where
  "change_append ch = \<lparr>ap_run = [], ap_gen = 0, ap_user = ac_id (ch_actor ch), ap_type = EventSettingsChanged,
     ap_version = 1, ap_payload = change_payload ch, ap_time = 0\<rparr>"

definition written :: "cfg_env \<Rightarrow> audit_change \<Rightarrow> (setting_row list \<Rightarrow> setting_row list) \<Rightarrow> cfg_store \<Rightarrow> cfg_store" where
  "written ce ch f st = \<lparr>cs_rows = f (cs_rows st),
     cs_audit = cs_audit st @ [\<lparr>au_id = next_rowid (map au_id (cs_audit st)), au_actor = actor_text (ch_actor ch),
       au_key = ch_key ch, au_user = ch_user ch, au_old = marshal (ch_old ch), au_new = marshal (ch_new ch),
       au_time = ce_now ce, au_reason = ch_reason ch\<rparr>],
     cs_db = (cs_db st)\<lparr>t_events := t_events (cs_db st) @ [new_event (next_rowid (map ev_seq (t_events (cs_db st)))) (ce_now ce)
       (change_append ch)]\<rparr>\<rparr>"

lemma change_payload_valid: "raw_text (change_payload ch) \<noteq> [] \<and> raw_valid (change_payload ch)"
  by (simp add: change_payload_def)

lemma persist_outcome:
  "persist ce r ch f st = Inr st' \<longleftrightarrow> ac_id (ch_actor ch) \<noteq> [] \<and>
     (\<exists>c. set_int (settings_of r) keyPayloadCap = Some c \<and> int (length (raw_text (change_payload ch))) \<le> c) \<and>
     st' = written ce ch f st"
proof -
  let ?e = "new_event (next_rowid (map ev_seq (t_events (cs_db st)))) (ce_now ce) (change_append ch)"
  have ok: "AppendTx (settings_of r) (ce_now ce) (change_append ch) (cs_db st) = Inr (n, d) \<longleftrightarrow>
      (ac_id (ch_actor ch) \<noteq> [] \<and>
        (\<exists>c. set_int (settings_of r) keyPayloadCap = Some c \<and> int (length (raw_text (change_payload ch))) \<le> c)) \<and>
      n = next_rowid (map ev_seq (t_events (cs_db st))) \<and> d = (cs_db st)\<lparr>t_events := t_events (cs_db st) @ [?e]\<rparr>" for n d
    using change_payload_valid [of ch]
    by (auto simp: AppendTx_Inr validate_Inr change_append_def EventSettingsChanged_def)
  show ?thesis
    unfolding persist_def change_append_def [symmetric] written_def
    using ok by (cases "AppendTx (settings_of r) (ce_now ce) (change_append ch) (cs_db st)") (auto simp: change_append_def)
qed

lemma Set_outcome:
  "Registry_Set ce q (r, st) = (Inr (), r', st') \<longleftrightarrow> (\<exists>d new. set_gate r q = Inr (d, new) \<and>
     persist ce r (set_change ce r q d new) (set_rows ce q d new) st = Inr st' \<and> r' = set_memory q d new r)"
  by (auto simp: Registry_Set_def split: sum.split prod.split)

lemma SetBounds_outcome:
  "Registry_SetBounds ce b (r, st) = (Inr (), r', st') \<longleftrightarrow> (\<exists>d. bounds_gate r b = Inr d \<and>
     persist ce r (bounds_change ce r b d) (bounds_rows ce b d) st = Inr st' \<and> r' = bounds_memory b d r)"
  by (auto simp: Registry_SetBounds_def split: sum.split)

lemma refused_keeps:
  "Registry_Set ce q (r, st) = (Inl e, r', st') \<Longrightarrow> r' = r \<and> st' = st"
  "Registry_SetBounds ce b (r, st) = (Inl e, r', st') \<Longrightarrow> r' = r \<and> st' = st"
  by (auto simp: Registry_Set_def Registry_SetBounds_def split: sum.splits prod.splits)

section \<open>Every write is on the books\<close>

text \<open>One audit row and one event, and nothing else of the database.\<close>

definition audited :: "cfg_actor \<Rightarrow> string \<Rightarrow> string \<Rightarrow> json \<Rightarrow> json \<Rightarrow> cfg_store \<Rightarrow> cfg_store \<Rightarrow> bool" where
  "audited a k u old new st st' \<longleftrightarrow> (\<exists>row ev.
     cs_audit st' = cs_audit st @ [row] \<and> au_id row \<notin> au_id ` set (cs_audit st) \<and> au_actor row = actor_text a \<and>
     au_key row = k \<and> au_user row = u \<and> au_old row = marshal old \<and> au_new row = marshal new \<and>
     cs_db st' = (cs_db st)\<lparr>t_events := t_events (cs_db st) @ [ev]\<rparr> \<and>
     ev_type ev = EventSettingsChanged \<and> ev_run ev = [] \<and> ev_user ev = ac_id a)"

lemma written_audited:
  "audited (ch_actor ch) (ch_key ch) (ch_user ch) (ch_old ch) (ch_new ch) st (written ce ch f st)"
  unfolding audited_def written_def
  using next_rowid_gt [of _ "map au_id (cs_audit st)"]
  by (fastforce simp: new_event_def change_append_def)

lemma effective_other:
  assumes "set_gate r q = Inr (d, new)" "decl_of k = Some d'" "k \<noteq> sq_key q"
  shows "effective (set_memory q d new r) d' u = effective r d' u"
proof -
  have "d_key d' \<noteq> d_key d" using decl_of_Some [OF assms(2)] set_gate_Inr(3) [OF assms(1)] assms(3) by simp
  then show ?thesis by (auto simp: effective_def split: option.split)
qed

lemma effective_written:
  assumes "set_gate r q = Inr (d, new)" "sq_value q \<noteq> None"
  shows "effective (set_memory q d new r) d (sq_user q) = new"
  using assms(2) by (auto simp: effective_def)

lemma effective_reset:
  assumes "set_gate r q = Inr (d, new)" "sq_value q = None"
  shows "effective (set_memory q d new r) d (sq_user q) = (if sq_user q = [] then d_default d else effective r d [])"
  using assms(2) by (auto simp: effective_def)

lemma gate_decodes: "set_gate r q = Inr (d, new) \<Longrightarrow> sq_value q = Some raw \<Longrightarrow> decodeValue d raw = Inr new"
  by (auto simp: set_gate_def split: if_splits option.splits sum.splits)

lemma set_audited:
  assumes "Registry_Set ce q (r, st) = (x, r', st')"
  shows "(if isl x then r' = r \<and> st' = st
     else \<exists>d new. decl_of (sq_key q) = Some d \<and>
       audited (sq_actor q) (sq_key q) (sq_user q) (value_json (ce_float ce) (effective r d (sq_user q)))
         (value_json (ce_float ce) new) st st' \<and>
       (case sq_value q of
          Some raw \<Rightarrow> decodeValue d raw = Inr new \<and> effective r' d (sq_user q) = new
        | None \<Rightarrow> new = d_default d \<and>
            effective r' d (sq_user q) = (if sq_user q = [] then d_default d else effective r d [])) \<and>
       rg_bounds r' = rg_bounds r \<and>
       (\<forall>k d' u. decl_of k = Some d' \<and> k \<noteq> sq_key q \<longrightarrow> effective r' d' u = effective r d' u))"
proof (cases x)
  case (Inr z)
  then obtain d new where w: "set_gate r q = Inr (d, new)" "r' = set_memory q d new r"
    "st' = written ce (set_change ce r q d new) (set_rows ce q d new) st"
    using assms Set_outcome [of ce q r st r' st'] by (auto simp: persist_outcome)
  note g = set_gate_Inr [OF w(1)]
  have "audited (sq_actor q) (sq_key q) (sq_user q) (value_json (ce_float ce) (effective r d (sq_user q)))
      (value_json (ce_float ce) new) st st'"
    using written_audited [of "set_change ce r q d new" st ce "set_rows ce q d new"] g(3) by (simp add: w(3) set_change_def)
  moreover have "case sq_value q of
      Some raw \<Rightarrow> decodeValue d raw = Inr new \<and> effective r' d (sq_user q) = new
    | None \<Rightarrow> new = d_default d \<and>
        effective r' d (sq_user q) = (if sq_user q = [] then d_default d else effective r d [])"
    using effective_written [OF w(1)] effective_reset [OF w(1)] gate_decodes [OF w(1)] g(6) w(2)
    by (auto split: option.split)
  moreover have "decl_of (sq_key q) = Some d" "rg_bounds r' = rg_bounds r" "\<not> isl x" using g(2) w(2) Inr by simp_all
  moreover have "\<forall>k d' u. decl_of k = Some d' \<and> k \<noteq> sq_key q \<longrightarrow> effective r' d' u = effective r d' u"
    using effective_other [OF w(1)] w(2) by blast
  ultimately show ?thesis unfolding if_not_P [OF \<open>\<not> isl x\<close>] by blast
qed (use assms refused_keeps(1) in auto)

lemma bounds_audited:
  assumes "Registry_SetBounds ce b (r, st) = (y, r'', st'')"
  shows "(if isl y then r'' = r \<and> st'' = st
     else \<exists>d. decl_of (bq_key b) = Some d \<and>
       audited (bq_actor b) (bq_key b) [] (boundsJSON (ce_float ce) (effectiveBounds r d))
         (boundsJSON (ce_float ce) (effectiveBounds r'' d)) st st'' \<and>
       map_of (rg_bounds r'') = (map_of (rg_bounds r))(bq_key b := bounds_next b) \<and>
       (\<forall>d' u. effective r'' d' u = effective r d' u))"
proof (cases y)
  case (Inr z)
  then obtain d where w: "bounds_gate r b = Inr d" "r'' = bounds_memory b d r"
    "st'' = written ce (bounds_change ce r b d) (bounds_rows ce b d) st"
    using assms SetBounds_outcome [of ce b r st r'' st''] by (auto simp: persist_outcome)
  note g = bounds_gate_Inr [OF w(1)]
  have "effectiveBounds r'' d = (if bounds_reset b then (d_min d, d_max d)
      else (if bq_floor b = None then d_min d else bq_floor b, if bq_ceiling b = None then d_max d else bq_ceiling b))"
    by (simp add: w(2) effectiveBounds_def bounds_next_def)
  then have "audited (bq_actor b) (bq_key b) [] (boundsJSON (ce_float ce) (effectiveBounds r d))
      (boundsJSON (ce_float ce) (effectiveBounds r'' d)) st st''"
    using written_audited [of "bounds_change ce r b d" st ce "bounds_rows ce b d"] g(3)
    by (simp add: w(3) bounds_change_def)
  with Inr w(2) g(2,3) show ?thesis by simp
qed (use assms refused_keeps(2) in auto)

text \<open>
  C27: every change of a setting is on the books.  A write of a value or of bounds that is refused
  changes nothing.  One that succeeds adds exactly one audit row, with a fresh id, the actor, the key and
  the person, and exactly one platform event of the actor, in the same transaction.  The row of a value
  carries the value in force before and the value asked for: the decoded one, which is in force for its
  target afterwards, or, for a reset, the declared default.  A platform reset puts that default in force;
  after the reset of a person's value the person reads the platform's value, so there the row can differ
  from what is in force (a comment in \<open>persist.go\<close> says the row holds the values before and after).  The
  row of bounds carries the effective bounds before and after.  No other key's value changes, and a write
  of bounds changes no value.
\<close>

theorem writes_audited:
  assumes "Registry_Set ce q (r, st) = (x, r', st')" "Registry_SetBounds ce b (r, st) = (y, r'', st'')"
  shows "(if isl x then r' = r \<and> st' = st
     else \<exists>d new. decl_of (sq_key q) = Some d \<and>
       audited (sq_actor q) (sq_key q) (sq_user q) (value_json (ce_float ce) (effective r d (sq_user q)))
         (value_json (ce_float ce) new) st st' \<and>
       (case sq_value q of
          Some raw \<Rightarrow> decodeValue d raw = Inr new \<and> effective r' d (sq_user q) = new
        | None \<Rightarrow> new = d_default d \<and>
            effective r' d (sq_user q) = (if sq_user q = [] then d_default d else effective r d [])) \<and>
       rg_bounds r' = rg_bounds r \<and>
       (\<forall>k d' u. decl_of k = Some d' \<and> k \<noteq> sq_key q \<longrightarrow> effective r' d' u = effective r d' u)) \<and>
    (if isl y then r'' = r \<and> st'' = st
     else \<exists>d. decl_of (bq_key b) = Some d \<and>
       audited (bq_actor b) (bq_key b) [] (boundsJSON (ce_float ce) (effectiveBounds r d))
         (boundsJSON (ce_float ce) (effectiveBounds r'' d)) st st'' \<and>
       map_of (rg_bounds r'') = (map_of (rg_bounds r))(bq_key b := bounds_next b) \<and>
       (\<forall>d' u. effective r'' d' u = effective r d' u))"
  using set_audited [OF assms(1)] bounds_audited [OF assms(2)] by (rule conjI)

section \<open>Samples\<close>

definition sample_ce :: cfg_env where
  "sample_ce = \<lparr>ce_now = 1000, ce_float = decimal_text\<rparr>"

definition sample_store :: cfg_store where
  "sample_store = \<lparr>cs_rows = [], cs_audit = [], cs_db = empty_db\<rparr>"

definition sample_change :: "string \<Rightarrow> string \<Rightarrow> int option \<Rightarrow> cfg_actor \<Rightarrow> set_request" where
  "sample_change k u i a = \<lparr>sq_key = k, sq_user = u, sq_value = map_option (\<lambda>i. marshal (json_int i)) i,
     sq_actor = a, sq_reason = ''tuning''\<rparr>"

lemma sample_change_sel [simp]:
  "sq_key (sample_change k u i a) = k" "sq_user (sample_change k u i a) = u" "sq_actor (sample_change k u i a) = a"
  "sq_value (sample_change k u i a) = map_option (\<lambda>i. marshal (json_int i)) i"
  by (simp_all add: sample_change_def)

definition operator :: cfg_actor where "operator = \<lparr>ac_kind = ActorOperator, ac_id = ''ann''\<rparr>"

definition tuner :: cfg_actor where "tuner = \<lparr>ac_kind = ActorAutomation, ac_id = ''tuner''\<rparr>"

lemma sample_start: "cfg_reachable decimal_text first_registry sample_store"
  by (rule cfg_start) (simp_all add: sample_store_def Registry_Attach_def first_registry_def New_registry_def)

text \<open>A key no rule names does not change the rules.\<close>

lemma view_value_other: "k \<noteq> k' \<Longrightarrow> view_value r [(k, v)] k' = view_value r [] k'"
  by (simp add: view_value_def)

lemma rule_reads_keys:
  assumes "ru \<in> set cfg_rules" "\<forall>k\<in>set (ru_keys ru). vw_float v k = vw_float w k \<and> vw_value v k = vw_value w k"
  shows "ru_check ru v = ru_check ru w"
proof -
  note views = view_str_def view_strings_def view_map_def
  have "ru = rule_dead_after \<or> ru = rule_overflow \<or> ru = rule_patience \<or> ru = rule_cleanup \<or> ru = rule_metadata \<or>
      ru = rule_recitation \<or> ru = rule_cpuweight \<or> ru = rule_sampling \<or> ru = rule_silence \<or> ru = rule_alias"
    using assms(1) by (simp add: cfg_rules_def)
  then show ?thesis
  proof (elim disjE)
    assume "ru = rule_dead_after" then show ?thesis using assms(2) by (simp add: rule_dead_after_def)
  next
    assume "ru = rule_overflow" then show ?thesis using assms(2) by (simp add: rule_overflow_def)
  next
    assume "ru = rule_patience" then show ?thesis using assms(2) by (simp add: rule_patience_def)
  next
    assume "ru = rule_cleanup" then show ?thesis using assms(2) by (simp add: rule_cleanup_def)
  next
    assume "ru = rule_metadata" then show ?thesis using assms(2) by (simp add: rule_metadata_def views)
  next
    assume "ru = rule_recitation" then show ?thesis using assms(2) by (simp add: rule_recitation_def)
  next
    assume "ru = rule_cpuweight" then show ?thesis using assms(2) by (simp add: rule_cpuweight_def views)
  next
    assume "ru = rule_sampling" then show ?thesis using assms(2) by (simp add: rule_sampling_def views)
  next
    assume "ru = rule_silence" then show ?thesis using assms(2) by (simp add: rule_silence_def views)
  next
    assume "ru = rule_alias" then show ?thesis using assms(2) by (simp add: rule_alias_def views)
  qed
qed

lemma rules_other_key:
  assumes "k \<notin> set (concat (map ru_keys cfg_rules))"
  shows "checkRules r [(k, v)] = checkRules r []"
proof -
  have "ru_check ru (view_of r [(k, v)]) = ru_check ru (view_of r [])" if ru: "ru \<in> set cfg_rules" for ru
  proof (rule rule_reads_keys [OF ru], rule ballI)
    fix k' assume "k' \<in> set (ru_keys ru)"
    with ru assms have "k \<noteq> k'" by auto
    then show "vw_float (view_of r [(k, v)]) k' = vw_float (view_of r []) k' \<and>
        vw_value (view_of r [(k, v)]) k' = vw_value (view_of r []) k'"
      by (simp add: view_of_def view_value_other cong: option.case_cong)
  qed
  then show ?thesis unfolding checkRules_def list_all_iff by blast
qed

lemma rule_keys: "set (concat (map ru_keys cfg_rules)) = {''recovery.dead_after'', ''recovery.heartbeat'',
    ''context.stage_fit_target'', ''context.stage_overflow_threshold'', ''verification.convergence_patience_rounds'',
    ''verification.rework_rounds'', ''adapter.claude.cleanup_period_days'', ''effects.approval_expiry'',
    ''sandbox.egress_deny_cidrs'', ''context.recitation_interval_turns'', ''arbitration.background_cpuweight'',
    ''benchmark.sampling_rate'', ''watchdog.silence_budget'', ''local.alias''}"
  by (simp add: cfg_rules_def rule_dead_after_def rule_overflow_def rule_patience_def rule_cleanup_def rule_metadata_def
    rule_recitation_def rule_cpuweight_def rule_sampling_def rule_silence_def rule_alias_def insert_commute)

lemma decode_int:
  assumes "d_type d = TypeInt \<or> d_type d = TypeDuration" "\<bar>i\<bar> \<le> 2 ^ 53"
  shows "decodeValue d (marshal (json_int i)) = Inr (VInt i)"
proof -
  have "in64 i" using assms(2) by (simp add: in64_def int64_min_def int64_max_def abs_le_iff)
  with assms show ?thesis
    by (auto simp: decodeValue_def decode_json_def json_int_float fl_small_int int64_of_float_int)
qed

lemma sample_gate:
  "set_gate first_registry (sample_change ''orchestration.helper_turns'' [] (Some 25) tuner) =
     Inr (the (decl_of ''orchestration.helper_turns''), VInt 25)"
proof -
  have "checkRules first_registry [(''orchestration.helper_turns'', VInt 25)]"
    using first_rules by (subst rules_other_key) (simp_all only: rule_keys, simp)
  moreover have "rg_attached first_registry" "map_of (rg_bounds first_registry) k = None" for k
    by (simp_all add: first_registry_def New_registry_def)
  ultimately show ?thesis
    by (simp add: set_gate_def sample_change_def tuner_def read_decls plain_decl_def actor_check_def
      automation_refused_def decode_int in_clamp_def numericOf_def checkClamp_def)
qed

lemma sample_values: "value_json decimal_text (VInt i) = json_int i"
  by (simp add: value_json_def)

lemma first_cap: "set_int (settings_of first_registry) keyPayloadCap = Some 65536"
  by (simp add: settings_of_def Registry_Int_def Registry_IntFor_def typed_def read_keys read_decls plain_decl_def
      first_registry_def New_registry_def effective_def right_def)

lemma sample_tuned: "\<exists>r st. Registry_Set sample_ce (sample_change ''orchestration.helper_turns'' [] (Some 25) tuner)
    (first_registry, sample_store) = (Inr (), r, st)"
proof -
  let ?q = "sample_change ''orchestration.helper_turns'' [] (Some 25) tuner"
  let ?ch = "set_change sample_ce first_registry ?q (the (decl_of ''orchestration.helper_turns'')) (VInt 25)"
  have "int (length (raw_text (change_payload ?ch))) \<le> 65536"
    by (simp add: change_payload_def set_change_def sample_change_def read_decls plain_decl_def sample_ce_def sample_values
        tuner_def kind_name_def scopeName_def json_eval json_int_def literal_dec_int dec_int_def dec_nat.simps digit_char_def)
  moreover have "ac_id (ch_actor ?ch) \<noteq> []" by (simp add: set_change_def sample_change_def tuner_def)
  ultimately obtain st where
    "persist sample_ce first_registry ?ch (set_rows sample_ce ?q (the (decl_of ''orchestration.helper_turns'')) (VInt 25))
      sample_store = Inr st"
    using first_cap by (auto simp: persist_outcome)
  then show ?thesis by (simp add: Registry_Set_def sample_gate)
qed

text \<open>The witness: an automated adjustment of a setting, and a change of bounds the same actor may not make.\<close>

definition sample_widen :: "string \<Rightarrow> rat option \<Rightarrow> cfg_actor \<Rightarrow> bounds_request" where
  "sample_widen k f a = \<lparr>bq_key = k, bq_floor = f, bq_ceiling = None, bq_actor = a, bq_reason = ''tuning''\<rparr>"

lemma sample_refused:
  "Registry_SetBounds sample_ce (sample_widen ''orchestration.helper_turns'' (Some 0) tuner) (r, st) =
     (Inl (if rg_attached r then ErrAutomation else ErrNotAttached), r, st)"
  by (simp add: Registry_SetBounds_def bounds_gate_def sample_widen_def tuner_def read_decls actor_check_def)

theorem writes_audited_witness:
  "\<exists>st' (d :: cfg_decl). audited tuner ''orchestration.helper_turns'' [] (json_int 20) (json_int 25) sample_store st' \<and>
     d_key d = ''orchestration.helper_turns''"
proof -
  obtain r' st' where w: "Registry_Set sample_ce (sample_change ''orchestration.helper_turns'' [] (Some 25) tuner)
      (first_registry, sample_store) = (Inr (), r', st')" using sample_tuned by blast
  have new: "effective r' d [] = VInt 25" if "decl_of ''orchestration.helper_turns'' = Some d" for d
    using w that effective_written [OF sample_gate] by (auto simp: Set_outcome sample_gate)
  have old: "effective first_registry d [] = VInt 20" if "decl_of ''orchestration.helper_turns'' = Some d" for d
    using that by (auto simp: read_decls plain_decl_def)
  from writes_audited [OF w sample_refused] obtain d new where d: "decl_of ''orchestration.helper_turns'' = Some d"
    "audited tuner ''orchestration.helper_turns'' [] (value_json decimal_text (effective first_registry d []))
       (value_json decimal_text new) sample_store st'" "effective r' d [] = new"
    by (auto simp: sample_ce_def)
  have n: "new = VInt 25" using d(3) new [OF d(1)] by simp
  have "audited tuner ''orchestration.helper_turns'' [] (json_int 20) (json_int 25) sample_store st'"
    using d(2) unfolding n old [OF d(1)] sample_values .
  moreover have "d_key d = ''orchestration.helper_turns''" using decl_of_Some [OF d(1)] by simp
  ultimately show ?thesis by blast
qed

section \<open>Typed, inside bounds\<close>

definition inside :: "cfg_bounds \<Rightarrow> rat \<Rightarrow> bool" where
  "inside b n \<longleftrightarrow> (case fst b of None \<Rightarrow> True | Some f \<Rightarrow> f \<le> n) \<and> (case snd b of None \<Rightarrow> True | Some c \<Rightarrow> n \<le> c)"

lemma clamp_inside: "checkClamp d (map_of (rg_bounds r) (d_key d)) n \<Longrightarrow> inside (effectiveBounds r d) n"
  by (cases "map_of (rg_bounds r) (d_key d)")
    (auto simp: checkClamp_def effectiveBounds_def inside_def Let_def split: option.splits prod.splits if_splits)

text \<open>
  C11: what the registry answers is of the declared type, and what it holds is inside the bounds in force.
  \<open>New\<close> does not panic: every declaration is consistent, no key is declared twice, and every rule names
  declared keys.  In a registry reached by any writes and restarts, the getter of a declared key returns,
  for the platform and for a person where the key is per person, a value of the key's type - a member of the
  enumeration, an integer of 64 bits, a finite number - without failing and without a panic; the number
  held for the key, converted to a float as the check of a write converts it, lies between the effective
  bounds; and the values in force satisfy every relational rule.  An integer or a float is answered as it is held.  A duration is held, and bounded, in seconds; the
  answer multiplies it to nanoseconds in 64 bits, which is exact up to 9223372036 seconds and wraps above
  (also to a negative duration, for the keys that declare no ceiling).
\<close>

theorem settings_typed:
  assumes "cfg_reachable ftext r st" "float_text ftext" "decl_of k = Some d" "u = [] \<or> d_peruser d"
  shows "New = Some New_registry \<and> typed r k u [d_type d] = Inr (effective r d u) \<and> answers r k u d \<and>
    (\<forall>n. numericOf d (effective r d u) = Some n \<longrightarrow> inside (effectiveBounds r d) n) \<and>
    (d_type d = TypeDuration \<longrightarrow> (\<exists>i. effective r d u = VInt i \<and> inside (effectiveBounds r d) (fl (of_int i)) \<and>
       Registry_Duration r k = Inr (wrap64 (i * second)) \<and>
       (0 \<le> i \<and> i \<le> 9223372036 \<longrightarrow> Registry_Duration r k = Inr (i * second)))) \<and>
    list_all (\<lambda>ru. ru_check ru (view_of r [])) cfg_rules"
proof -
  note ok = reads_of [OF assms(1,2)]
  have key: "d_key d = k" using decl_of_Some [OF assms(3)] by simp
  have clamp: "in_clamp d (map_of (rg_bounds r) k) (effective r d u)"
  proof (cases "u \<noteq> [] \<and> map_of (rg_user r) (k, u) \<noteq> None")
    case True
    then obtain v where "map_of (rg_user r) (k, u) = Some v" "effective r d u = v" by (auto simp: effective_def key)
    with registry_ok_user [OF ok(1)] assms(3) show ?thesis by fastforce
  next
    case False
    then have "effective r d u = effective r d []" by (auto simp: effective_def key)
    then show ?thesis using registry_ok_clamp [OF ok(1) assms(3)] by simp
  qed
  then have num: "\<forall>n. numericOf d (effective r d u) = Some n \<longrightarrow> inside (effectiveBounds r d) n"
    using clamp_inside [of d r] key by (auto simp: in_clamp_def)
  have exact: "wrap64 (i * second) = i * second" if "0 \<le> i" "i \<le> 9223372036" for i
    using that by (intro wrap64_id) (simp add: in64_def int64_min_def int64_max_def second_def)
  have ans: "answers r k u d" by (rule getter_answers [OF ok(1) assms(3,4)])
  have dur: "\<exists>i. effective r d u = VInt i \<and> inside (effectiveBounds r d) (fl (of_int i)) \<and>
       Registry_Duration r k = Inr (wrap64 (i * second)) \<and>
       (0 \<le> i \<and> i \<le> 9223372036 \<longrightarrow> Registry_Duration r k = Inr (i * second))" if d: "d_type d = TypeDuration"
  proof -
    from ans d obtain i where i: "effective r d u = VInt i" "Registry_Duration r k = Inr (wrap64 (i * second))"
      by (auto simp: answers_def)
    with num d have "inside (effectiveBounds r d) (fl (of_int i))" by (simp add: numericOf_def)
    with i exact [of i] show ?thesis by auto
  qed
  moreover note num
  moreover have "typed r k u [d_type d] = Inr (effective r d u)" using assms(3,4) by (auto simp: typed_def)
  moreover have "checkRules r []" using ok(1) by (simp add: registry_ok_def)
  ultimately show ?thesis using New_no_panic ans by (simp add: checkRules_def)
qed

theorem settings_typed_witness:
  "\<exists>r st i. cfg_reachable decimal_text r st \<and> rg_vals r \<noteq> [] \<and> Registry_Int r ''orchestration.helper_turns'' = Inr i"
proof -
  obtain r st where set: "Registry_Set sample_ce (sample_change ''orchestration.helper_turns'' [] (Some 25) tuner)
      (first_registry, sample_store) = (Inr (), r, st)" using sample_tuned by blast
  then have "rg_vals r \<noteq> []"
    by (auto simp: Set_outcome sample_gate set_memory_def first_registry_def New_registry_def)
  moreover have reach: "cfg_reachable decimal_text r st"
    by (rule cfg_set [OF sample_start _ set]) (simp add: sample_ce_def)
  moreover obtain d where d: "decl_of ''orchestration.helper_turns'' = Some d" "d_type d = TypeInt"
    by (simp add: read_decls plain_decl_def)
  ultimately show ?thesis
    using settings_typed [OF reach float_text_decimal d(1), of "[]"] by (auto simp: answers_def Registry_Int_def)
qed

section \<open>Automation\<close>

lemma auto_numeric: "d \<in> set cfg_index \<Longrightarrow> d_auto d \<Longrightarrow> numeric (d_type d)"
proof -
  have "list_all validateDecl cfg_index" using valid_1 valid_2 valid_3 valid_4 by (simp add: cfg_index_def)
  then show "d \<in> set cfg_index \<Longrightarrow> d_auto d \<Longrightarrow> numeric (d_type d)" by (auto simp: list_all_iff validateDecl_def)
qed

lemma set_by_automation:
  assumes "Registry_Set ce q (r, st) = (Inr (), r', st')" "ac_kind (sq_actor q) = ActorAutomation"
  shows "\<exists>d v n. decl_of (sq_key q) = Some d \<and> d_auto d \<and> sq_user q = [] \<and> sq_value q \<noteq> None \<and>
    numericOf d v = Some n \<and> inside (effectiveBounds r d) n \<and>
    r' = r\<lparr>rg_vals := AList.update (sq_key q) v (rg_vals r)\<rparr>"
proof -
  obtain d v where w: "set_gate r q = Inr (d, v)" "r' = set_memory q d v r"
    using assms(1) unfolding Set_outcome by blast
  note g = set_gate_Inr [OF w(1)]
  have a: "d_auto d" "sq_user q = []" "sq_value q \<noteq> None" using g(9) assms(2) by (auto simp: automation_refused_def)
  have num: "numericOf d v = Some (num_of d v)"
    using numeric_value [OF g(5)] auto_numeric [OF _ a(1)] decl_of_Some [OF g(2)] by simp
  then have "inside (effectiveBounds r d) (num_of d v)" using g(3,7) clamp_inside [of d r] by (simp add: in_clamp_def)
  with g(2,3) a num w(2) show ?thesis by (auto simp: set_memory_def)
qed

text \<open>
  C26: automation stays inside the bounds the operator set, and cannot move them.  A successful write
  by an automated actor is of a key declared adjustable, for the platform and not for a person, gives a
  value (a reset is refused), the value is a number between the bounds in force, and it changes that
  key's value and nothing else: no bound, no person's value.  A write of bounds by any actor but an
  operator is refused and changes nothing, whatever it asks for.
\<close>

theorem automation_confined:
  assumes "ac_kind (sq_actor q) = ActorAutomation" "ac_kind (bq_actor b) \<noteq> ActorOperator"
  shows "(\<forall>r' st'. Registry_Set ce q (r, st) = (Inr (), r', st') \<longrightarrow>
      (\<exists>d v n. decl_of (sq_key q) = Some d \<and> d_auto d \<and> sq_user q = [] \<and> sq_value q \<noteq> None \<and>
        numericOf d v = Some n \<and> inside (effectiveBounds r d) n \<and>
        r' = r\<lparr>rg_vals := AList.update (sq_key q) v (rg_vals r)\<rparr>)) \<and>
    (\<exists>e. Registry_SetBounds ce b (r, st) = (Inl e, r, st))"
proof
  have "\<nexists>d. bounds_gate r b = Inr d" using bounds_gate_Inr(5) [of r b] assms(2) by blast
  then show "\<exists>e. Registry_SetBounds ce b (r, st) = (Inl e, r, st)"
    by (cases "bounds_gate r b") (auto simp: Registry_SetBounds_def)
qed (use set_by_automation assms(1) in blast)

theorem automation_confined_witness:
  "\<exists>r st d v n. Registry_Set sample_ce (sample_change ''orchestration.helper_turns'' [] (Some 25) tuner)
      (first_registry, sample_store) = (Inr (), r, st) \<and> decl_of ''orchestration.helper_turns'' = Some d \<and>
    rg_vals r = [(''orchestration.helper_turns'', v)] \<and> numericOf d v = Some n \<and>
    inside (effectiveBounds first_registry d) n"
proof -
  let ?q = "sample_change ''orchestration.helper_turns'' [] (Some 25) tuner"
  let ?b = "sample_widen ''orchestration.helper_turns'' (Some 0) tuner"
  obtain r st where set: "Registry_Set sample_ce ?q (first_registry, sample_store) = (Inr (), r, st)"
    using sample_tuned by blast
  have "ac_kind (sq_actor ?q) = ActorAutomation" "ac_kind (bq_actor ?b) \<noteq> ActorOperator"
    by (simp_all add: sample_widen_def tuner_def)
  from automation_confined [OF this, of sample_ce first_registry sample_store] set
  obtain d v n where "decl_of (sq_key ?q) = Some d" "numericOf d v = Some n" "inside (effectiveBounds first_registry d) n"
    "r = first_registry\<lparr>rg_vals := AList.update (sq_key ?q) v (rg_vals first_registry)\<rparr>" by blast
  with set show ?thesis by (auto simp: first_registry_def New_registry_def)
qed

section \<open>Restarts\<close>

text \<open>
  C12: a restart gives back the settings.  The table always holds what the memory holds, so when the
  next start loads it, the registry it attaches answers every read as the one before: the same values
  for the platform and for every person, the same bounds.  The load succeeds exactly when every
  person's value lies in the declared bounds - the operator's bounds are not consulted for them, which
  is how a value that was accepted under a lower floor keeps the daemon from starting.
\<close>

theorem restart_restores:
  assumes "cfg_reachable ftext r st" "float_text ftext"
  shows "((\<exists>r'. Registry_Attach st New_registry = (Inr (), r')) \<longleftrightarrow> users_in_declared r) \<and>
    (\<forall>r'. Registry_Attach st New_registry = (Inr (), r') \<longrightarrow> same_registry r r' \<and>
      (\<forall>d u. effective r' d u = effective r d u) \<and> (\<forall>d. effectiveBounds r' d = effectiveBounds r d))"
proof -
  note ok = reads_of [OF assms]
  have "same_registry r r' \<and> (\<forall>d u. effective r' d u = effective r d u) \<and>
      (\<forall>d. effectiveBounds r' d = effectiveBounds r d)" if "Registry_Attach st New_registry = (Inr (), r')" for r'
    using restart_same(1) [OF assms(2) ok that] same_effective [of r r'] by (simp add: effectiveBounds_def same_registry_def)
  with restart_loads [OF assms(2) ok(1,2)] show ?thesis by blast
qed

theorem restart_restores_witness:
  "\<exists>r st r'. Registry_Set sample_ce (sample_change ''orchestration.helper_turns'' [] (Some 25) tuner)
      (first_registry, sample_store) = (Inr (), r, st) \<and> Registry_Attach st New_registry = (Inr (), r') \<and>
    rg_vals r \<noteq> [] \<and> map_of (rg_vals r') = map_of (rg_vals r)"
proof -
  obtain r st where set: "Registry_Set sample_ce (sample_change ''orchestration.helper_turns'' [] (Some 25) tuner)
      (first_registry, sample_store) = (Inr (), r, st)" using sample_tuned by blast
  have reach: "cfg_reachable decimal_text r st"
    by (rule cfg_set [OF sample_start _ set]) (simp add: sample_ce_def)
  have vals: "rg_vals r \<noteq> []" "rg_user r = []"
    using set by (auto simp: Set_outcome sample_gate set_memory_def first_registry_def New_registry_def)
  then have "users_in_declared r" by (simp add: users_in_declared_def)
  with restart_restores [OF reach float_text_decimal] obtain r' where
    "Registry_Attach st New_registry = (Inr (), r')" "same_registry r r'" by blast
  with set vals show ?thesis by (auto simp: same_registry_def)
qed

section \<open>What the other components read\<close>

lemma read_of:
  assumes "registry_ok r" "k \<in> set int_keys"
  shows "\<exists>i. in64 i \<and> read_int (settings_of r) k = Inr i"
  using int_keys_declared [OF assms(2)] settings_read(1) [OF assms(1)] by (fastforce simp: read_int_def)

lemma read_of_floats:
  assumes "registry_ok r" "k \<in> set float_keys"
  shows "\<exists>q. read_float (settings_of r) k = Inr q"
  using float_keys_declared [OF assms(2)] settings_read(2) [OF assms(1)] by (fastforce simp: read_float_def)

lemma read_of_durations:
  assumes "registry_ok r" "k \<in> set duration_keys"
  shows "\<exists>n. read_duration (settings_of r) k = Inr n"
  using duration_keys_declared [OF assms(2)] settings_read(3) [OF assms(1)] by (fastforce simp: read_duration_def)

lemma read_of_others:
  assumes "registry_ok r"
  shows "\<exists>s\<in>{''never'', ''urgent-only'', ''always''}. read_string (settings_of r) keyBatteryGPUAdmission = Inr s"
    "\<exists>b. read_bool (settings_of r) keySandboxLogprobs = Inr b"
    "\<exists>m. read_map (settings_of r) keyAlias = Inr m" "\<exists>m. read_map (settings_of r) keySilenceBudget = Inr m"
proof -
  note d = read_keys read_decls plain_decl_def
  obtain e where e: "decl_of keyBatteryGPUAdmission = Some e" "d_type e = TypeEnum"
    "d_enum e = [''never'', ''urgent-only'', ''always'']" by (simp add: d)
  show "\<exists>s\<in>{''never'', ''urgent-only'', ''always''}. read_string (settings_of r) keyBatteryGPUAdmission = Inr s"
    using settings_read(4) [OF assms e(1,2)] e(3) by (auto simp: read_string_def)
  obtain b where b: "decl_of keySandboxLogprobs = Some b" "d_type b = TypeBool" by (simp add: d)
  show "\<exists>b. read_bool (settings_of r) keySandboxLogprobs = Inr b"
    using settings_read(5) [OF assms b] by (auto simp: read_bool_def)
  obtain a where a: "decl_of keyAlias = Some a" "d_type a = TypeMap" by (simp add: d)
  show "\<exists>m. read_map (settings_of r) keyAlias = Inr m"
    using settings_read(6) [OF assms a] by (auto simp: read_map_def)
  obtain s where s: "decl_of keySilenceBudget = Some s" "d_type s = TypeMap" by (simp add: d)
  show "\<exists>m. read_map (settings_of r) keySilenceBudget = Inr m"
    using settings_read(6) [OF assms s] by (auto simp: read_map_def)
qed

lemma int_in_bounds:
  assumes "registry_ok r" "decl_of k = Some d" "d_type d = TypeInt" "map_of (rg_bounds r) k = None"
    and "d_min d = Some (of_int lo)" "d_max d = Some (of_int hi)"
  shows "\<exists>i. set_int (settings_of r) k = Some i \<and> lo \<le> i \<and> i \<le> hi"
proof -
  obtain i where i: "effective r d [] = VInt i" "set_int (settings_of r) k = Some i"
    using settings_read(1) [OF assms(1-3)] by blast
  have "(of_int lo :: rat) \<le> of_int i" "(of_int i :: rat) \<le> of_int hi"
    using declared_bounds [OF assms(1,2,4) i(1)] assms(3,5,6) by simp_all
  with i(2) show ?thesis by simp
qed

lemma bounds_in_force:
  assumes "registry_ok r" "map_of (rg_bounds r) keyPayloadCap = None" "map_of (rg_bounds r) keyLoopRepeat = None"
  shows "\<exists>cap. set_int (settings_of r) keyPayloadCap = Some cap \<and> 4096 \<le> cap"
    "\<exists>n. set_int (settings_of r) keyLoopRepeat = Some n \<and> 3 \<le> n \<and> n \<le> 10"
proof -
  obtain d where d: "decl_of keyPayloadCap = Some d" "d_type d = TypeInt" "d_min d = Some (of_int 4096)"
    "d_max d = Some (of_int 1048576)" by (simp add: read_keys read_decls plain_decl_def)
  from int_in_bounds [OF assms(1) d(1,2) assms(2) d(3,4)]
  show "\<exists>cap. set_int (settings_of r) keyPayloadCap = Some cap \<and> 4096 \<le> cap" by blast
  obtain e where e: "decl_of keyLoopRepeat = Some e" "d_type e = TypeInt" "d_min e = Some (of_int 3)"
    "d_max e = Some (of_int 10)" by (simp add: read_keys read_decls plain_decl_def)
  from int_in_bounds [OF assms(1) e(1,2) assms(3) e(3,4)]
  show "\<exists>n. set_int (settings_of r) keyLoopRepeat = Some n \<and> 3 \<le> n \<and> n \<le> 10" by blast
qed

text \<open>
  C28: the registry serves the components.  Every setting a component of this development reads is
  declared at the type it asks for, so in a reachable registry no read of a setting ever fails: the
  error paths of the components for an unreadable setting are never taken.  The dead-man probe of the
  watchdog, run under this registry, creates its canary, drives it to running, makes it loop as often as the
  threshold says, flags it, which parks it, and finalizes it, in this order of events, whenever the operator
  has set no bounds of his own for the payload cap and the loop threshold, the database satisfies the
  platform's invariant and does not hold the canary's name, the run-end hook does nothing for a run of the
  platform, no local judge is wired, and the hash of the canary's signature is not empty.
\<close>

theorem settings_serve_components:
  assumes "cfg_reachable ftext r st" "float_text ftext"
  shows "(\<forall>k\<in>set int_keys. \<exists>i. in64 i \<and> read_int (settings_of r) k = Inr i) \<and>
    (\<forall>k\<in>set float_keys. \<exists>q. read_float (settings_of r) k = Inr q) \<and>
    (\<forall>k\<in>set duration_keys. \<exists>n. read_duration (settings_of r) k = Inr n) \<and>
    (\<exists>s\<in>{''never'', ''urgent-only'', ''always''}. read_string (settings_of r) keyBatteryGPUAdmission = Inr s) \<and>
    (\<exists>b. read_bool (settings_of r) keySandboxLogprobs = Inr b) \<and>
    (\<exists>m. read_map (settings_of r) keyAlias = Inr m) \<and> (\<exists>m. read_map (settings_of r) keySilenceBudget = Inr m) \<and>
    (map_of (rg_bounds r) keyPayloadCap = None \<and> map_of (rg_bounds r) keyLoopRepeat = None \<and>
       env_settings (wd_env wd) = settings_of r \<and> good s \<and> find_run (canary_id (wd_env wd)) s = None \<and>
       spares_platform (wd_env wd) \<and> wd_duty wd = None \<and>
       wd_sha wd (''deadman.synthetic'' @ [char_of (0::nat)] @ ''sha256:deadman-canary'') \<noteq> [] \<longrightarrow>
     (\<exists>t new n c. DeadManProbe wd a s = (Inr (), a, t) \<and> t_events t = t_events s @ new \<and>
       set_int (settings_of r) keyLoopRepeat = Some n \<and> map story new = canary_story (nat n) \<and>
       find_run (canary_id (wd_env wd)) t = Some c \<and> run_state c = StateFinalized))"
proof -
  note ok = reads_of(1) [OF assms]
  have probe: "\<exists>t new n c. DeadManProbe wd a s = (Inr (), a, t) \<and> t_events t = t_events s @ new \<and>
       set_int (settings_of r) keyLoopRepeat = Some n \<and> map story new = canary_story (nat n) \<and>
       find_run (canary_id (wd_env wd)) t = Some c \<and> run_state c = StateFinalized"
    if h: "map_of (rg_bounds r) keyPayloadCap = None" "map_of (rg_bounds r) keyLoopRepeat = None"
      "env_settings (wd_env wd) = settings_of r" "good s" "find_run (canary_id (wd_env wd)) s = None"
      "spares_platform (wd_env wd)" "wd_duty wd = None"
      "wd_sha wd (''deadman.synthetic'' @ [char_of (0::nat)] @ ''sha256:deadman-canary'') \<noteq> []"
  proof -
    have room: "payload_room (wd_env wd)" using bounds_in_force(1) [OF ok h(1,2)] by (simp add: payload_room_def h(3))
    obtain n where n: "set_int (settings_of r) keyLoopRepeat = Some n" "3 \<le> n" "n \<le> 10"
      using bounds_in_force(2) [OF ok h(1,2)] by blast
    then show ?thesis using probe_detects [OF h(4,5) room h(6,7), of n a] h(3,8) by simp blast
  qed
  show ?thesis
    by (intro conjI ballI impI read_of [OF ok] read_of_floats [OF ok] read_of_durations [OF ok] read_of_others [OF ok] probe)
      (assumption | elim conjE)+
qed

definition served_watch :: watch_env where
  "served_watch = sample_watch\<lparr>wd_env := hooked_env\<lparr>env_settings := settings_of first_registry\<rparr>\<rparr>"

theorem settings_serve_components_witness:
  "\<exists>t new n. DeadManProbe served_watch new_admitter sample_running = (Inr (), new_admitter, t) \<and>
     t_events t = t_events sample_running @ new \<and> map story new = canary_story n"
proof -
  have "good sample_running" by (simp add: sample_running_def sample_good)
  moreover have "canary_id (wd_env served_watch) \<noteq> ''r''" by (simp add: canary_id_def canaryPrefix_def)
  then have "find_run (canary_id (wd_env served_watch)) sample_running = None"
    by (simp add: sample_run_eval cong: tx_bind_weak)
  moreover have "spares_platform (wd_env served_watch)" "wd_duty served_watch = None"
    "env_settings (wd_env served_watch) = settings_of first_registry"
    "wd_sha served_watch (''deadman.synthetic'' @ [char_of (0::nat)] @ ''sha256:deadman-canary'') \<noteq> []"
    by (simp_all add: served_watch_def hooked_env_def spares_platform_def tx_return_def sample_env_def sample_watch_def)
  moreover have "map_of (rg_bounds first_registry) k = None" for k by (simp add: first_registry_def New_registry_def)
  ultimately show ?thesis
    using settings_serve_components [OF sample_start float_text_decimal, of served_watch sample_running new_admitter] by blast
qed

end
