(* ===== verification/Settings_Corners.thy ===== *)
theory Settings_Corners
  imports Settings_Properties
begin

text \<open>
  Corners of the settings registry: inputs it accepts whose outcome is not the one the code describes.
\<close>

section \<open>Sizes\<close>

lemma length_dec_nat: "n < 10 ^ k \<Longrightarrow> 0 < k \<Longrightarrow> length (dec_nat n) \<le> k"
proof (induction k arbitrary: n)
  case (Suc k)
  show ?case
  proof (cases "n < 10")
    case False
    with Suc.prems have "n div 10 < 10 ^ k" "0 < k" by (cases k; simp add: less_mult_imp_div_less)+
    with Suc.IH [of "n div 10"] False show ?thesis by (subst dec_nat.simps) simp
  qed (subst dec_nat.simps, simp)
qed simp

lemma sample_persist:
  assumes "cfg_reachable decimal_text r st" "map_of (rg_bounds r) keyPayloadCap = None"
    and "ac_id (ch_actor ch) \<noteq> []" "length (json_text (JObj
     [(''actor'', JObj [(''id'', JStr (ac_id (ch_actor ch))), (''kind'', JStr (kind_name (ac_kind (ch_actor ch))))]),
      (''change'', JStr (ch_kind ch)), (''key'', JStr (ch_key ch)), (''new'', ch_new ch), (''old'', ch_old ch),
      (''reason'', JStr (ch_reason ch)), (''scope'', JStr (scopeName (ch_user ch))), (''user'', JStr (ch_user ch))])) \<le> 4096"
  shows "\<exists>st'. persist ce r ch f st = Inr st'"
proof -
  note ok = reads_of(1) [OF assms(1) float_text_decimal]
  obtain d where d: "decl_of keyPayloadCap = Some d" "d_type d = TypeInt" "d_min d = Some (of_int 4096)"
    "d_max d = Some (of_int 1048576)" by (simp add: read_keys read_decls plain_decl_def)
  from int_in_bounds [OF ok d(1,2) assms(2) d(3,4)]
  obtain c where "set_int (settings_of r) keyPayloadCap = Some c" "4096 \<le> c" by blast
  moreover have "length (raw_text (change_payload ch)) \<le> 4096" using assms(4) by (simp only: change_payload_def raw_text_marshal)
  ultimately show ?thesis using assms(3) by (auto simp: persist_outcome)
qed

section \<open>A person's value under a widened bound\<close>

definition horizon_floor :: bounds_request where
  "horizon_floor = sample_widen ''retention.compaction_horizon'' (Some 0) operator"

definition horizon_zero :: set_request where
  "horizon_zero = sample_change ''retention.compaction_horizon'' ''bob'' (Some 0) operator"

lemma horizon_gate: "bounds_gate first_registry horizon_floor = Inr (the (decl_of ''retention.compaction_horizon''))"
  by (simp add: bounds_gate_def horizon_floor_def sample_widen_def operator_def first_registry_def New_registry_def
      read_decls plain_decl_def actor_check_def numeric_def effective_def num_of_def numericOf_def checkClamp_def
      bounds_next_def bounds_reset_def users_of_def)

lemma decimal_length:
  assumes "0 \<le> i" "i < 10"
  shows "length (decimal_text (of_int i)) \<le> 123"
proof -
  have f: "\<lfloor>rat_of_int i * 10 ^ 116\<rfloor> = i * 10 ^ 116" using floor_of_int [of "i * 10 ^ 116"] by simp
  have "i * 10 ^ 116 < 10 * 10 ^ 116" by (rule mult_strict_right_mono) (use assms in simp_all)
  then have "nat (i * 10 ^ 116) < 10 ^ 117" using assms(1) by (simp add: nat_less_iff)
  then have "length (dec_nat (nat (i * 10 ^ 116))) \<le> 117" by (intro length_dec_nat) simp_all
  moreover have "\<not> i * 10 ^ 116 < 0" using assms(1) by simp
  ultimately show ?thesis unfolding decimal_text_def f by (simp add: dec_int_def del: mult_less_0_iff)
qed

lemma horizon_widened:
  "\<exists>r st. Registry_SetBounds sample_ce horizon_floor (first_registry, sample_store) = (Inr (), r, st)"
proof -
  let ?d = "the (decl_of ''retention.compaction_horizon'')"
  let ?ch = "bounds_change sample_ce first_registry horizon_floor ?d"
  have "\<exists>st. persist sample_ce first_registry ?ch (bounds_rows sample_ce horizon_floor ?d) sample_store = Inr st"
  proof (rule sample_persist [OF sample_start])
    show "map_of (rg_bounds first_registry) keyPayloadCap = None" by (simp add: first_registry_def New_registry_def)
    show "ac_id (ch_actor ?ch) \<noteq> []" by (simp add: bounds_change_def horizon_floor_def sample_widen_def operator_def)
  qed (use decimal_length [of 0] decimal_length [of 1] in \<open>simp add: bounds_change_def boundsJSON_def effectiveBounds_def
     horizon_floor_def sample_widen_def operator_def first_registry_def New_registry_def read_decls plain_decl_def
     sample_ce_def bounds_reset_def kind_name_def scopeName_def json_eval\<close>)
  then show ?thesis by (auto simp: SetBounds_outcome horizon_gate)
qed

text \<open>
  The floor of \<open>retention.compaction_horizon\<close> is lowered to 0, a person is given 0 months, and the
  daemon does not start again: the load holds a person's value against the declared floor.
\<close>

lemma horizon_blocks_restart:
  "\<exists>r1 st1 r2 st2. Registry_SetBounds sample_ce horizon_floor (first_registry, sample_store) = (Inr (), r1, st1) \<and>
     Registry_Set sample_ce horizon_zero (r1, st1) = (Inr (), r2, st2) \<and>
     (\<nexists>r. Registry_Attach st2 New_registry = (Inr (), r))"
proof -
  let ?k = "''retention.compaction_horizon''"
  obtain d where d: "decl_of ?k = Some d" "d_type d = TypeInt" "d_min d = Some 1" "d_max d = None" "d_minexcl d = False"
    "d_peruser d" "d_key d = ?k" "d_default d = VInt 6" by (simp add: read_decls plain_decl_def)
  obtain r1 st1 where b: "Registry_SetBounds sample_ce horizon_floor (first_registry, sample_store) = (Inr (), r1, st1)"
    using horizon_widened by blast
  have reach1: "cfg_reachable decimal_text r1 st1"
    by (rule cfg_bounds [OF sample_start _ b]) (simp add: sample_ce_def)
  note ok1 = reads_of [OF reach1 float_text_decimal]
  have r1: "r1 = bounds_memory horizon_floor d first_registry" using b d(1) by (auto simp: SetBounds_outcome horizon_gate)
  have b1: "map_of (rg_bounds r1) ?k = Some (Some 0, None)" "map_of (rg_bounds r1) keyPayloadCap = None"
    by (simp_all add: r1 d(7) bounds_next_def bounds_reset_def horizon_floor_def sample_widen_def first_registry_def
        New_registry_def read_keys)
  have gate: "set_gate r1 horizon_zero = Inr (d, VInt 0)"
    using ok1(1,3) d b1(1)
    by (simp add: set_gate_def horizon_zero_def operator_def actor_check_def automation_refused_def decode_int
        in_clamp_def numericOf_def checkClamp_def registry_ok_def)
  let ?ch = "set_change sample_ce r1 horizon_zero d (VInt 0)"
  have e: "effective r1 d ''bob'' = VInt 6"
    by (simp add: r1 effective_def d(7,8) first_registry_def New_registry_def bounds_memory_def split: option.split)
  have "\<exists>st. persist sample_ce r1 ?ch (set_rows sample_ce horizon_zero d (VInt 0)) st1 = Inr st"
  proof (rule sample_persist [OF reach1 b1(2)])
    show "ac_id (ch_actor ?ch) \<noteq> []" by (simp add: set_change_def horizon_zero_def operator_def)
  qed (simp add: set_change_def horizon_zero_def operator_def e d(7) sample_ce_def sample_values kind_name_def scopeName_def
      json_eval json_int_def dec_int_def dec_nat.simps digit_char_def sample_change_def)
  then obtain st2 where s: "Registry_Set sample_ce horizon_zero (r1, st1) = (Inr (), set_memory horizon_zero d (VInt 0) r1, st2)"
    by (auto simp: Set_outcome gate)
  let ?r2 = "set_memory horizon_zero d (VInt 0) r1"
  have reach2: "cfg_reachable decimal_text ?r2 st2" by (rule cfg_set [OF reach1 _ s]) (simp add: sample_ce_def)
  have "map_of (rg_user ?r2) (?k, ''bob'') = Some (VInt 0)" by (simp add: horizon_zero_def d(7))
  moreover have "\<not> in_clamp d None (VInt 0)" using d by (simp add: in_clamp_def numericOf_def checkClamp_def)
  ultimately have "\<not> users_in_declared ?r2" using d(1) unfolding users_in_declared_def by blast
  with reads_of [OF reach2 float_text_decimal] restart_loads [OF float_text_decimal]
  have "\<nexists>r. Registry_Attach st2 New_registry = (Inr (), r)" by blast
  with b s show ?thesis by blast
qed

section \<open>Durations that wrap\<close>

lemma checkRules_frame:
  assumes "checkRules r []" "\<And>ru. ru \<in> set cfg_rules \<Longrightarrow> k \<in> set (ru_keys ru) \<Longrightarrow> ru_check ru (view_of r [(k, v)])"
  shows "checkRules r [(k, v)]"
proof -
  have "ru_check ru (view_of r [(k, v)])" if ru: "ru \<in> set cfg_rules" for ru
  proof (cases "k \<in> set (ru_keys ru)")
    case False
    have "ru_check ru (view_of r [(k, v)]) = ru_check ru (view_of r [])"
    proof (rule rule_reads_keys [OF ru], rule ballI)
      fix k' assume "k' \<in> set (ru_keys ru)"
      with False have "k \<noteq> k'" by auto
      then show "vw_float (view_of r [(k, v)]) k' = vw_float (view_of r []) k' \<and>
          vw_value (view_of r [(k, v)]) k' = vw_value (view_of r []) k'"
        by (simp add: view_of_def view_value_other cong: option.case_cong)
    qed
    with ru assms(1) show ?thesis by (simp add: checkRules_def list_all_iff)
  qed (use assms(2) ru in blast)
  then show ?thesis by (simp add: checkRules_def list_all_iff)
qed

text \<open>
  A dead-after of 9223372037 seconds is accepted - the key has no ceiling - and is answered as a
  negative duration: the multiplication by a second wraps.
\<close>

definition dead_after_huge :: set_request where
  "dead_after_huge = sample_change ''recovery.dead_after'' [] (Some 9223372037) operator"

lemma dead_after_wraps:
  "\<exists>r st n. Registry_Set sample_ce dead_after_huge (first_registry, sample_store) = (Inr (), r, st) \<and>
     read_duration (settings_of r) keyDeadAfter = Inr n \<and> n < 0"
proof -
  let ?k = "''recovery.dead_after''" and ?v = "VInt 9223372037"
  obtain d where d: "decl_of ?k = Some d" "d_type d = TypeDuration" "d_min d = None" "d_max d = None" "d_key d = ?k"
    "d_default d = VInt 300" by (simp add: read_decls plain_decl_def)
  have bounds: "map_of (rg_bounds first_registry) k = None" "rg_attached first_registry" for k
    by (simp_all add: first_registry_def New_registry_def)
  have "ru_check ru (view_of first_registry [(?k, ?v)])" if "ru \<in> set cfg_rules" "?k \<in> set (ru_keys ru)" for ru
  proof -
    have "ru = rule_dead_after"
      using that by (auto simp: cfg_rules_def rule_overflow_def rule_patience_def rule_cleanup_def rule_metadata_def
        rule_recitation_def rule_cpuweight_def rule_sampling_def rule_silence_def rule_alias_def)
    then show ?thesis by (simp add: rule_dead_after_def view_of_def view_value_def read_decls plain_decl_def num_of_def numericOf_def)
  qed
  then have rules: "checkRules first_registry [(?k, ?v)]" using first_rules by (rule_tac checkRules_frame)
  have gate: "set_gate first_registry dead_after_huge = Inr (d, ?v)"
    using rules d bounds
    by (simp add: set_gate_def dead_after_huge_def operator_def actor_check_def automation_refused_def decode_int
        in_clamp_def numericOf_def checkClamp_def)
  let ?ch = "set_change sample_ce first_registry dead_after_huge d ?v"
  have "\<exists>st. persist sample_ce first_registry ?ch (set_rows sample_ce dead_after_huge d ?v) sample_store = Inr st"
  proof (rule sample_persist [OF sample_start bounds(1)])
    show "ac_id (ch_actor ?ch) \<noteq> []" by (simp add: set_change_def dead_after_huge_def operator_def)
  qed (simp add: set_change_def dead_after_huge_def operator_def d(5,6) sample_ce_def sample_values kind_name_def
      scopeName_def json_eval json_int_def dec_int_def dec_nat.simps digit_char_def sample_change_def)
  then obtain st where s: "Registry_Set sample_ce dead_after_huge (first_registry, sample_store) =
      (Inr (), set_memory dead_after_huge d ?v first_registry, st)" by (auto simp: Set_outcome gate)
  let ?r = "set_memory dead_after_huge d ?v first_registry"
  have "effective ?r d [] = ?v" using effective_written [OF gate] by (simp add: dead_after_huge_def)
  then have "read_duration (settings_of ?r) keyDeadAfter = Inr (wrap64 (9223372037 * second))"
    by (simp add: read_duration_def settings_of_def Registry_Duration_def typed_def keyDeadAfter_def d(1,2) right_def)
  moreover have "wrap64 (9223372037 * second) < 0" by (simp add: wrap64_def second_def)
  ultimately show ?thesis using s by blast
qed

text \<open>The digits of a weight are accumulated in 64 bits, so a number just above two to the 64 counts as a small one.\<close>

lemma digits_wrap: "intInRange ''18446744073709551676'' 60 (2 ^ 40)"
  by code_simp

text \<open>
  A reset of a person's value records the declared default as the new value, while the platform's own
  override is what the person reads from then on.
\<close>

lemma user_reset_records_default:
  assumes "set_gate r q = Inr (d, new)" "sq_user q \<noteq> []" "sq_value q = None" "map_of (rg_vals r) (sq_key q) = Some v"
  shows "ch_new (set_change ce r q d new) = value_json (ce_float ce) (d_default d) \<and>
    effective (set_memory q d new r) d (sq_user q) = v"
  using assms set_gate_Inr [OF assms(1)] by (auto simp: set_change_def effective_def)

end
