(* ===== verification/Spec2Isabelle.thy ===== *)
theory Spec2Isabelle
  imports Run_Properties Effect_Properties Scheduler_Properties Recovery_Properties Metering_Properties Port_Properties Local_Properties Watch_Detects Settings_Corners
begin

text \<open>
  Sinet's control plane is a Go process over one SQLite database: agents' runs are admitted, executed,
  parked, resumed, crashed and forked; what a run does to the outside world passes an approval gate;
  everything that happens is appended to one event log.  This library models the part of it that
  decides: the database rows, every write transaction of the modelled packages, the passes that compose
  them, and the order in which they run.

  \<^bold>\<open>The parts and their theories.\<close>

  \<^item> \<open>Tx_Prelude\<close>: transactions as state-and-error functions (\<open>tx_bind\<close>, \<open>write_tx\<close> commits or rolls
    back), Go's 64-bit integers (\<open>wrap64\<close>), durations and instants (integers, the zero instant is 0),
    tables as row lists with \<open>UPDATE\<close>/\<open>SELECT\<close>, and the locale \<open>tx_frame\<close>: what every step of a
    transaction respects, the whole transaction respects.
  \<^item> \<open>Json_Text\<close>: the JSON that is stored and hashed.  A stored document is its text with the value the
    text decodes to (\<open>raw\<close>); \<open>encoding/json\<close>'s encoder is written out, and so are \<open>canonicalJSON\<close> and
    \<open>CanonicalHash\<close> of \<open>internal/gates/gates.go\<close>.
  \<^item> \<open>Platform_Db\<close>: the rows of \<open>internal/storage\<close>'s schema that the modelled code reads and writes
    (runs, events, checkpoints, effects, queue, lanes, asks, tasks), settings, and the error values.
  \<^item> \<open>Event_Log\<close> (\<open>internal/eventlog\<close>): append with validation and generation fencing, paging, head.
  \<^item> \<open>Run_Fsm\<close>, \<open>Run_Store\<close>, \<open>Run_Invariant\<close> (\<open>internal/run/run.go\<close>): the run state machine, the
    store's transactions, and the run invariant \<open>good\<close>: rows are keyed and within their checks, the log is
    ordered, generations fence the log, and replaying the log gives the stored rows.
  \<^item> \<open>Lease_Keeper\<close>, \<open>Freshness\<close> (\<open>internal/run/lease.go\<close>, \<open>freshness.go\<close>, \<open>canceldetail.go\<close>).
  \<^item> \<open>Checkpoints\<close>, \<open>Effect_Journal\<close> (\<open>internal/gates\<close>): resume points; the approval gate and the effect
    lifecycle, with the journal invariant \<open>journal_ok\<close>.
  \<^item> \<open>Float64\<close>, \<open>Workload\<close>, \<open>Scheduler\<close> (\<open>internal/scheduler\<close>): round-to-nearest-even on a 53-bit
    significand, the admission order and priority hints, the queue with its invariant \<open>queue_ok\<close>, the claim
    pass, settles and shutdown; \<open>Limit_Events\<close> (\<open>limits.go\<close>): what a provider's refusal means.
  \<^item> \<open>Ladder_Card\<close>, \<open>Recovery\<close> (\<open>internal/recovery\<close>): the recovery ladder's classification, its crash,
    fork and tombstone transactions and its pass; \<open>Ladder_Answer\<close> (\<open>internal/stage/ladderanswer.go\<close>): the
    retry a person grants an ended lineage.
  \<^item> \<open>Platform_Steps\<close>, \<open>Platform_Passes\<close>: the platform as a transition system with one rule per write
    transaction, any interleaving; reachability, the platform invariant, and the whole passes.
  \<^item> \<open>Metering\<close>, \<open>Consumption_Ledger\<close>, \<open>Timestamps\<close>, \<open>Receipts\<close>, \<open>Pressure\<close>, \<open>Plan_Units\<close>
    (\<open>internal/metering\<close>): usage blocks and the price table, the fold of checkpoints into lines, the text
    form of instants, receipts and spend, the gauge with token budgets and the pause switch, plan units.
  \<^item> \<open>Port_Pool\<close> (\<open>internal/portpool\<close>): the allocator alone, and as interleaved system calls of several
    processes over the reservation directory; \<open>allocation_spec\<close> of \<open>Port_Properties\<close> says what it promises.
  \<^item> \<open>Vram_Admission\<close>, \<open>Local_Seats\<close>, \<open>Local_Duty\<close>, \<open>Gpu_Preempt\<close>, \<open>Eager_Unload\<close>, \<open>Gpu_Broker\<close>
    (\<open>internal/local\<close>): admission of a model load by live GPU memory, the seats and their aliases, metered
    duty calls, the forced kill with its verified recovery, the unload on a game's start, and the broker
    that serves sandboxed runs by token.
  \<^item> \<open>Watch_Signals\<close>, \<open>Watch_Annotate\<close>, \<open>Watch_Flags\<close>, \<open>Watch_Sweep\<close> (\<open>internal/watchdog\<close>): the readings of
    recent events with their counters, the advisory judgment with its platform run, park-and-flag with the
    open flags derived from the log and suppression, the sweep's checks and the dead-man probe.
    \<open>Watch_Frames\<close> carries any frame of the writes through the handlers; \<open>Watch_Properties\<close>,
    \<open>Watch_Standing\<close>, \<open>Watch_Deadman\<close>, \<open>Watch_Detects\<close> state what the watchdog promises, the last two
    together with the recovery pass and from an empty canary to its finalized run.
  \<^item> \<open>Settings_Values\<close>, \<open>Settings_Index\<close>, \<open>Settings_Registry\<close> (\<open>internal/settings\<close>): the values with their
    decoding and clamps, every declaration of the index with the relational rules, and the registry: its
    getters, the two writes with their audit row and event, the load at start and the settings surface.
    \<open>Float_Facts\<close> and \<open>Float_Wide\<close> hold the facts about rounding they need, \<open>Settings_Facts\<close> the
    consistency of the index and the stored text of a value, \<open>Settings_Invariant\<close>, \<open>Settings_Steps\<close> and
    \<open>Settings_Attach\<close> what the writes and the load do to table and memory, \<open>Settings_Reach\<close> the registries
    a run of the daemon reaches.  \<open>Settings_Reads\<close> collects the keys every other component reads;
    \<open>Settings_Properties\<close> states the properties, \<open>Settings_Corners\<close> runs the inputs whose outcome is not
    the described one.
  \<^item> \<open>Sample_Data\<close>: concrete databases for the witnesses.  \<open>Run_Properties\<close>, \<open>Effect_Properties\<close>,
    \<open>Scheduler_Properties\<close>, \<open>Recovery_Properties\<close>, \<open>Metering_Properties\<close>, \<open>Port_Properties\<close>,
    \<open>Local_Properties\<close> and this theory state the properties.

  \<^bold>\<open>How state corresponds.\<close>  SQLite runs one write transaction at a time, so a transaction is a function
  from a database to an error or a result with the next database; a handler that makes several is their
  composition, and another component may run between them: \<open>platform_step\<close> allows any order and takes rows
  read earlier as arbitrary arguments.  Reads outside a transaction are functions of the database.

  \<^bold>\<open>Bounds and fuel.\<close>  The lineage walk of a card stops after the 64 hops of the code
  (\<open>lineage_walk\<close>).  Every other loop is structural.  \<open>unresumed_runs_end\<close> shows that a run which is not
  resumed changes state at most seven times; \<open>aging_bounds_overtaking\<close> that a waiting run is overtaken
  for at most 7201 seconds, the extra second over two hours covering the rounding of \<open>float64\<close>.
  \<open>float64\<close> values are exact for magnitudes from \<open>2 ^ -64\<close> to \<open>2 ^ 64\<close> (a setting's literal up to the
  largest \<open>float64\<close>), rounded after every operation (no
  fused multiply-add, as on amd64); instants have a text form for the years 1 to 9999; case folding and
  space trimming are those of ASCII text.  A loop that waits for the operating system (the grace period of
  a kill, the watch for recovered memory) runs over the list of what its turns observe, so it ends when
  the deadline or the cancellation is observed.

  \<^bold>\<open>Parameters.\<close>  The clock, the random source, SHA-256, \<open>time.Format\<close>, the settings (as an interface; \<open>settings_serve_components\<close> gives it the registry), the text of a \<open>float64\<close>, the unit inspector and
  harvest of the host, receipts, budget and pause readers, the model server's replies, GPU and battery
  readings, process signals are arguments, and HTTP replies and plan documents are given as decoded values; run-end
  hooks and receipts are arbitrary transactions that keep the platform's frame.  Where a property needs more
  of the hook it says so: that of the shell (\<open>internal/retention/summary.go\<close>) writes nothing for a run of the
  platform, which is \<open>spares_platform\<close>.  Of the watchdog: \<open>time.Parse\<close>, the texts of
  details that print durations and floats, the order in which a tail visits its runs; one evaluation
  reads the clock once.

  \<^bold>\<open>Not modelled.\<close>  HTTP and CLI surfaces, process management, sandboxing, SQL migration text, adapters
  to model providers, and the remaining domain packages (listed in the manifest).  Of the modelled
  packages: the price store's append and the utilization overlay, the port daemon's flags and sockets and
  failures of its disk, local calibration and the model server's own supervision, the wording of refusals, what surrounds a human
  retry (the ledger note, the board) and the cancel answer.  Invalid UTF-8 in a
  stored document and the wording of a limit action's reason are not modelled.
\<close>

text \<open>
  C1: the platform invariant.  In every reachable state the rows and the log agree and are fenced
  (\<open>good\<close>), the queue names existing runs, once each while active (\<open>queue_ok\<close>), and the effect journal is
  consistent (\<open>journal_ok\<close>); and a whole claim pass, a whole shutdown park, a whole recovery pass, a whole
  watchdog sweep, tail or dead-man probe, each many transactions long and possibly stopped by an error
  half way, lead to a state in which all three hold again.
\<close>

theorem platform_invariant:
  assumes "reachable sha s"
    and "hook_frame sha (se_env se)" "receipts_frame sha se"
    and "hook_frame sha (le_env le)" "je_sha (le_journal le 0) = sha"
    and "\<forall>rid. hook_frame sha (wd_env (we rid))" "hook_frame sha (wd_env (sw_wd sw))"
    and "\<forall>rid. hook_frame sha (wd_env (sw_of sw rid))"
    and "t \<in> {s, snd (claimPass se s), ParkInFlightRuns (se_env se) f s, snd (snd (ReconcilePass le ld s)),
      snd (snd (Sweep sw a s)), snd (snd (Tail we order after a s)), snd (snd (DeadManProbeIfDue (we []) a s))}"
  shows "good t \<and> queue_ok t \<and> journal_ok sha t"
proof -
  note keeps = claimPass_platform [OF assms(2,3), of s] ParkInFlightRuns_platform [OF assms(2), of s f]
    ReconcilePass_platform [OF assms(4,5), of s ld] platform.frame_refl [of sha s]
  have watch: "\<forall>rid. watch_frame (platform_keeps sha) (we rid)" "watch_frame (platform_keeps sha) (sw_wd sw)"
    "\<forall>rid. watch_frame (platform_keeps sha) (sw_of sw rid)"
    using assms(6-8) by (simp_all add: watch_platform)
  have "platform_keeps sha s t"
    using assms(9) keeps Sweep_frame [OF watch(2,3)] Tail_frame [OF watch(1)]
      DeadManProbeIfDue_frame [OF watch(1) [THEN spec]] by blast
  then have "platform_ok sha t" using platform_keeps_ok reachable_ok [OF assms(1)] by blast
  then show ?thesis by (simp add: platform_ok_def)
qed

theorem platform_invariant_witness:
  "queue_ok (snd (claimPass sample_se sample_running)) \<and>
   good (snd (snd (ReconcilePass sample_le \<lparr>ld_passes = 0, ld_last = 0\<rparr> sample_running))) \<and>
   journal_ok (\<lambda>x. x) (snd (snd (Sweep sample_sweep new_admitter sample_running)))"
proof -
  let ?ld = "\<lparr>ld_passes = 0, ld_last = 0\<rparr> :: ladder_state"
  have reach: "reachable (\<lambda>x. x) sample_running" by (simp add: sample_running_def sample_reachable)
  have frames: "hook_frame (\<lambda>x. x) (se_env sample_se)" "receipts_frame (\<lambda>x. x) sample_se"
    "hook_frame (\<lambda>x. x) (le_env sample_le)" "je_sha (le_journal sample_le 0) = (\<lambda>x. x)"
    by (simp_all add: sample_se_def sample_le_def sample_env_frame receipts_frame_def)
  have watch: "\<forall>rid::string. hook_frame (\<lambda>x. x) (wd_env ((\<lambda>rid. sample_watch) rid))"
    "hook_frame (\<lambda>x. x) (wd_env (sw_wd sample_sweep))" "\<forall>rid. hook_frame (\<lambda>x. x) (wd_env (sw_of sample_sweep rid))"
    by (simp_all add: sample_sweep_def sample_env_frame)
  note inv = platform_invariant [OF reach frames watch]
  show ?thesis
    using inv [of "snd (claimPass sample_se sample_running)" undefined ?ld new_admitter undefined 0]
      inv [of "snd (snd (ReconcilePass sample_le ?ld sample_running))" undefined ?ld new_admitter undefined 0]
      inv [of "snd (snd (Sweep sample_sweep new_admitter sample_running))" undefined ?ld new_admitter undefined 0] by blast
qed

end
